(* ===== verification/Prelude.thy ===== *)
theory Prelude
  imports Complex_Main "HOL-Library.AList" "HOL-Library.Word" "HOL-Library.Char_ord" "HOL-Library.List_Lexorder"
begin

text \<open>
  Shared vocabulary of the development: the reading of Python's values, dictionaries, errors and
  clocks that every component theory uses, with the generic lemmas about them.

  \<^item> A Python \<open>dict\<close> is an insertion-ordered association list: assignment overwrites in place or
    appends (\<open>AList.update\<close>), \<open>pop\<close>/\<open>del\<close> removes (\<open>AList.delete\<close>), lookup is \<open>map_of\<close>.
    The invariant \<open>wf_dict\<close> says that no key occurs twice.
  \<^item> Parsed JSON (request bodies, JSONB columns, event payloads) is the datatype \<open>json\<close>; \<open>jget\<close> is
    \<open>dict.get\<close>, which cannot tell a missing key from an explicit \<open>null\<close>.
  \<^item> Python \<open>int\<close> is \<open>int\<close>; \<open>float\<close> is \<open>real\<close>, or \<open>pfloat\<close> of the theory \<open>PyJson\<close> where the code can meet
    NaN or an infinity; the rounding of IEEE doubles is not modelled.  Strings are lists of characters whose code points are below 256.
  \<^item> A \<open>datetime\<close> is the number of microseconds since the epoch in UTC, a \<open>timedelta\<close> a
    number of microseconds; readings of the monotonic clock are \<open>real\<close> seconds.
  \<^item> A raised exception is the left summand of a result \<open>py_exn + 'a\<close>; \<open>and_then\<close> propagates it.
\<close>

section \<open>Collections of facts\<close>

named_theorems dict_simps \<open>lookups, updates and key sets of dictionaries\<close>
named_theorems res_simps \<open>evaluation of results that may be exceptions\<close>

section \<open>Errors\<close>

datatype py_exn = ValueError string | IndexError | KeyError | TypeError | LookupError | OverflowError | OtherError string

definition and_then :: "'e + 'a \<Rightarrow> ('a \<Rightarrow> 'e + 'b) \<Rightarrow> 'e + 'b" where
  "and_then m f = (case m of Inl e \<Rightarrow> Inl e | Inr x \<Rightarrow> f x)"

lemma and_then_Inl [simp, res_simps]: "and_then (Inl e) f = Inl e"
  by (simp add: and_then_def)

lemma and_then_Inr [simp, res_simps]: "and_then (Inr x) f = f x"
  by (simp add: and_then_def)

lemma and_then_eq_Inr: "and_then m f = Inr y \<longleftrightarrow> (\<exists>x. m = Inr x \<and> f x = Inr y)"
  by (cases m) auto

lemma and_then_eq_Inl: "and_then m f = Inl e \<longleftrightarrow> m = Inl e \<or> (\<exists>x. m = Inr x \<and> f x = Inl e)"
  by (cases m) auto

text \<open>A comprehension \<open>[f(x) for x in xs]\<close> whose body may raise: the first exception wins.\<close>

fun map_res :: "('a \<Rightarrow> 'e + 'b) \<Rightarrow> 'a list \<Rightarrow> 'e + 'b list" where
  "map_res f [] = Inr []"
| "map_res f (x # xs) = and_then (f x) (\<lambda>y. and_then (map_res f xs) (\<lambda>ys. Inr (y # ys)))"

lemma map_res_length: "map_res f xs = Inr ys \<Longrightarrow> length ys = length xs"
  by (induction xs arbitrary: ys) (auto simp: and_then_eq_Inr)

lemma map_res_nth: "map_res f xs = Inr ys \<Longrightarrow> i < length xs \<Longrightarrow> f (xs ! i) = Inr (ys ! i)"
proof (induction xs arbitrary: ys i)
  case Nil
  then show ?case by simp
next
  case (Cons x xs)
  then show ?case by (cases i) (auto simp: and_then_eq_Inr)
qed

lemma map_res_all: "map_res f xs = Inr ys \<Longrightarrow> y \<in> set ys \<Longrightarrow> \<exists>x \<in> set xs. f x = Inr y"
  by (induction xs arbitrary: ys) (auto simp: and_then_eq_Inr)

section \<open>Dictionaries\<close>

type_synonym ('k, 'v) pydict = "('k \<times> 'v) list"

abbreviation dict_set :: "'k \<Rightarrow> 'v \<Rightarrow> ('k, 'v) pydict \<Rightarrow> ('k, 'v) pydict" where
  "dict_set \<equiv> AList.update"

abbreviation dict_pop :: "'k \<Rightarrow> ('k, 'v) pydict \<Rightarrow> ('k, 'v) pydict" where
  "dict_pop \<equiv> AList.delete"

abbreviation dict_keys :: "('k, 'v) pydict \<Rightarrow> 'k list" where
  "dict_keys d \<equiv> map fst d"

abbreviation wf_dict :: "('k, 'v) pydict \<Rightarrow> bool" where
  "wf_dict d \<equiv> distinct (dict_keys d)"

lemma map_of_set [simp, dict_simps]:
  "map_of (dict_set k v d) k' = (if k' = k then Some v else map_of d k')"
  by (simp add: update_conv)

lemma map_of_pop [simp, dict_simps]:
  "map_of (dict_pop k d) k' = (if k' = k then None else map_of d k')"
  by (simp add: delete_conv)

lemma wf_dict_set [simp, dict_simps]: "wf_dict d \<Longrightarrow> wf_dict (dict_set k v d)"
  by (rule distinct_update)

lemma wf_dict_pop [simp, dict_simps]: "wf_dict d \<Longrightarrow> wf_dict (dict_pop k d)"
  by (rule distinct_delete)

lemma keys_set [simp, dict_simps]: "set (dict_keys (dict_set k v d)) = insert k (set (dict_keys d))"
  by (simp add: dom_update)

lemma length_set: "length (dict_set k v d) = (if k \<in> set (dict_keys d) then length d else Suc (length d))"
proof (induction d)
  case Nil
  then show ?case by simp
next
  case (Cons p d)
  then show ?case by (cases p) auto
qed

lemma map_of_eq_None_keys: "map_of d k = None \<longleftrightarrow> k \<notin> set (dict_keys d)"
  by (simp add: map_of_eq_None_iff)

lemma dom_map_of_keys: "dom (map_of d) = set (dict_keys d)"
  by (simp add: dom_map_of_conv_image_fst)

text \<open>A sum over the entries of a dictionary, and its change by one assignment.\<close>

definition dict_sum :: "('k \<Rightarrow> 'v \<Rightarrow> real) \<Rightarrow> ('k, 'v) pydict \<Rightarrow> real" where
  "dict_sum f d = sum_list (map (\<lambda>(k, v). f k v) d)"

lemma dict_sum_Nil [simp]: "dict_sum f [] = 0"
  by (simp add: dict_sum_def)

lemma dict_sum_Cons [simp]: "dict_sum f ((k, v) # d) = f k v + dict_sum f d"
  by (simp add: dict_sum_def)

lemma dict_sum_set:
  "dict_sum f (dict_set k v d) = dict_sum f d + f k v - (case map_of d k of None \<Rightarrow> 0 | Some v0 \<Rightarrow> f k v0)"
  by (induction d) auto

lemma dict_sum_nonneg: "(\<And>k v. (k, v) \<in> set d \<Longrightarrow> 0 \<le> f k v) \<Longrightarrow> 0 \<le> dict_sum f d"
  by (induction d) (auto simp: add_nonneg_nonneg)

lemma dict_sum_ge_entry:
  "(\<And>k v. (k, v) \<in> set d \<Longrightarrow> 0 \<le> f k v) \<Longrightarrow> (k0, v0) \<in> set d \<Longrightarrow> f k0 v0 \<le> dict_sum f d"
proof (induction d)
  case (Cons p d)
  obtain k v where p: "p = (k, v)" by (cases p)
  have "0 \<le> f k v" "0 \<le> dict_sum f d" using Cons.prems(1) p by (auto intro: dict_sum_nonneg)
  with Cons p show ?case by (auto simp: add_increasing add_increasing2)
qed simp

lemma set_dict_set: "(k', v') \<in> set (dict_set k v d) \<Longrightarrow> (k', v') = (k, v) \<or> (k', v') \<in> set d"
  by (induction d) (auto split: if_splits)

text \<open>
  The bounded insertion that the program's in-process caches share: a new key evicts the oldest entry of a
  full dictionary.  An entry of another key stays as it is, or is the one evicted.
\<close>

definition bounded_set :: "nat \<Rightarrow> 'k \<Rightarrow> 'v \<Rightarrow> ('k, 'v) pydict \<Rightarrow> ('k, 'v) pydict" where
  "bounded_set maxsize k v d =
     (let d' = (if k \<notin> set (dict_keys d) \<and> length d \<ge> maxsize
                then (case d of [] \<Rightarrow> d | (oldest, _) # _ \<Rightarrow> dict_pop oldest d) else d)
      in dict_set k v d')"

lemma wf_bounded_set [simp, dict_simps]: "wf_dict d \<Longrightarrow> wf_dict (bounded_set m k v d)"
  by (auto simp: bounded_set_def Let_def split: list.splits)

lemma map_of_bounded_set_same [simp, dict_simps]: "map_of (bounded_set m k v d) k = Some v"
  by (simp add: bounded_set_def)

lemma map_of_bounded_set_other:
  "k' \<noteq> k \<Longrightarrow> map_of (bounded_set m k v d) k' = Some w \<Longrightarrow> map_of d k' = Some w"
  by (auto simp: bounded_set_def Let_def split: if_splits list.splits)

lemma map_of_bounded_set_room:
  "length d < m \<Longrightarrow> map_of (bounded_set m k v d) k' = (if k' = k then Some v else map_of d k')"
  by (simp add: bounded_set_def)

lemma length_pop_first: "wf_dict ((k, v) # d) \<Longrightarrow> length (dict_pop k ((k, v) # d)) = length d"
proof -
  assume "wf_dict ((k, v) # d)"
  then have "dict_pop k d = d" by (intro delete_id) (simp add: image_iff)
  then show ?thesis by simp
qed

lemma length_bounded_set:
  assumes "wf_dict d" and "length d \<le> m" and "0 < m"
  shows "length (bounded_set m k v d) \<le> m"
proof (cases "k \<notin> set (dict_keys d) \<and> length d \<ge> m")
  case True
  then obtain k0 v0 d0 where d: "d = (k0, v0) # d0" using assms(3) by (cases d) auto
  have "bounded_set m k v d = dict_set k v (dict_pop k0 d)"
    using True unfolding bounded_set_def Let_def by (simp add: d)
  moreover have "length (dict_pop k0 d) = length d0" using length_pop_first [of k0 v0 d0] assms(1) d by simp
  ultimately show ?thesis using assms(2) length_set [of k v "dict_pop k0 d"] d by (auto split: if_splits)
next
  case False
  then show ?thesis using assms(2) by (auto simp: bounded_set_def length_set)
qed

section \<open>Sequences\<close>

text \<open>\<open>xs[i]\<close>: a negative index counts from the end, an index out of range raises.\<close>

definition index_res :: "'a list \<Rightarrow> int \<Rightarrow> py_exn + 'a" where
  "index_res xs i =
     (if 0 \<le> i
      then (if nat i < length xs then Inr (xs ! nat i) else Inl IndexError)
      else if nat (- i) \<le> length xs then Inr (xs ! (length xs - nat (- i)))
      else Inl IndexError)"

lemma index_res_nat: "0 \<le> i \<Longrightarrow> i < int (length xs) \<Longrightarrow> index_res xs i = Inr (xs ! nat i)"
  by (simp add: index_res_def nat_less_iff)

lemma index_res_Inr: "index_res xs i = Inr x \<Longrightarrow> x \<in> set xs"
  by (auto simp: index_res_def intro!: nth_mem split: if_splits)

section \<open>Time\<close>

text \<open>A \<open>datetime\<close> or \<open>timedelta\<close>, in microseconds, and \<open>timedelta.total_seconds()\<close>.\<close>

type_synonym datetime = int
type_synonym timedelta = int

text \<open>The largest \<open>datetime\<close>.\<close>

definition DATETIME_MAX :: datetime where
  "DATETIME_MAX = 253402300799999999"

definition total_seconds :: "timedelta \<Rightarrow> real" where
  "total_seconds d = of_int d / 1000000"

definition seconds :: "int \<Rightarrow> timedelta" where
  "seconds n = n * 1000000"

lemma total_seconds_le_iff: "total_seconds d \<le> total_seconds e \<longleftrightarrow> d \<le> e"
  by (simp add: total_seconds_def divide_le_cancel)

lemma total_seconds_less_iff: "total_seconds d < total_seconds e \<longleftrightarrow> d < e"
  by (simp add: total_seconds_def divide_less_cancel)

lemma total_seconds_seconds [simp]: "total_seconds (seconds n) = of_int n"
  by (simp add: total_seconds_def seconds_def)

lemma total_seconds_nonneg: "0 \<le> total_seconds d \<longleftrightarrow> 0 \<le> d"
  by (simp add: total_seconds_def)

end
