(* ===== verification/PyText.thy ===== *)
theory PyText
  imports Prelude
begin

unbundle bit_operations_syntax

text \<open>
  Python's text and number conversions as the program uses them: \<open>str\<close> and \<open>format\<close> of integers,
  \<open>zfill\<close>, \<open>strip\<close>, \<open>upper\<close>/\<open>lower\<close>, \<open>int(s, 16)\<close> with everything CPython accepts (surrounding
  whitespace, a sign, a \<open>0x\<close> prefix, single underscores), \<open>bytes.fromhex\<close>, \<open>round\<close>, and \<open>UUID\<close>.
  Characters are code points below 256.
\<close>

section \<open>Characters\<close>

abbreviation ord_of :: "char \<Rightarrow> nat" where
  "ord_of c \<equiv> of_char c"

abbreviation chr_of :: "nat \<Rightarrow> char" where
  "chr_of n \<equiv> char_of n"

definition py_space :: "char \<Rightarrow> bool" where
  "py_space c = (let n = ord_of c in (9 \<le> n \<and> n \<le> 13) \<or> (28 \<le> n \<and> n \<le> 32) \<or> n = 133 \<or> n = 160)"

definition ascii_space :: "char \<Rightarrow> bool" where
  "ascii_space c = (let n = ord_of c in (9 \<le> n \<and> n \<le> 13) \<or> n = 32)"

definition is_digit :: "char \<Rightarrow> bool" where
  "is_digit c = (48 \<le> ord_of c \<and> ord_of c \<le> 57)"

definition upper_char :: "char \<Rightarrow> char" where
  "upper_char c = (if 97 \<le> ord_of c \<and> ord_of c \<le> 122 then chr_of (ord_of c - 32) else c)"

definition lower_char :: "char \<Rightarrow> char" where
  "lower_char c = (if 65 \<le> ord_of c \<and> ord_of c \<le> 90 then chr_of (ord_of c + 32) else c)"

abbreviation py_upper :: "string \<Rightarrow> string" where
  "py_upper \<equiv> map upper_char"

abbreviation py_lower :: "string \<Rightarrow> string" where
  "py_lower \<equiv> map lower_char"

definition py_strip :: "string \<Rightarrow> string" where
  "py_strip s = rev (dropWhile py_space (rev (dropWhile py_space s)))"

definition starts_with :: "string \<Rightarrow> string \<Rightarrow> bool" where
  "starts_with s p = (take (length p) s = p)"

definition ends_with :: "string \<Rightarrow> string \<Rightarrow> bool" where
  "ends_with s p = (length p \<le> length s \<and> drop (length s - length p) s = p)"

text \<open>The value of a hexadecimal digit, of either case.\<close>

definition hex_val :: "char \<Rightarrow> nat option" where
  "hex_val c = (let n = ord_of c in
     if 48 \<le> n \<and> n \<le> 57 then Some (n - 48)
     else if 97 \<le> n \<and> n \<le> 102 then Some (n - 87)
     else if 65 \<le> n \<and> n \<le> 70 then Some (n - 55)
     else None)"

lemma hex_val_less: "hex_val c = Some v \<Longrightarrow> v < 16"
  by (auto simp: hex_val_def Let_def split: if_splits)

definition hex_char :: "nat \<Rightarrow> char" where
  "hex_char d = (if d < 10 then chr_of (48 + d) else chr_of (87 + d))"

lemma hex_val_char [simp]: "d < 16 \<Longrightarrow> hex_val (hex_char d) = Some d"
  by (simp add: hex_val_def hex_char_def)

section \<open>Integers as text\<close>

text \<open>\<open>str_base b n\<close>: the digits of \<open>n\<close> in base \<open>b\<close>, without leading zeros.\<close>

fun str_base :: "nat \<Rightarrow> nat \<Rightarrow> string" where
  "str_base b n = (if n < b \<or> b < 2 then [hex_char n] else str_base b (n div b) @ [hex_char (n mod b)])"

declare str_base.simps [simp del]

definition str_nat :: "nat \<Rightarrow> string" where
  "str_nat n = str_base 10 n"

definition str_int :: "int \<Rightarrow> string" where
  "str_int i = (if i < 0 then CHR ''-'' # str_nat (nat (- i)) else str_nat (nat i))"

definition zfill :: "string \<Rightarrow> nat \<Rightarrow> string" where
  "zfill s w = (case s of
     c # cs \<Rightarrow> if c = CHR ''+'' \<or> c = CHR ''-'' then c # replicate (w - length s) (CHR ''0'') @ cs
               else replicate (w - length s) (CHR ''0'') @ s
   | [] \<Rightarrow> replicate w (CHR ''0''))"

text \<open>The reference reading of a digit string: its big-endian value in base \<open>b\<close>.\<close>

definition digits_val :: "nat \<Rightarrow> nat list \<Rightarrow> nat" where
  "digits_val b ds = foldl (\<lambda>v d. b * v + d) 0 ds"

lemma digits_val_Nil [simp]: "digits_val b [] = 0"
  by (simp add: digits_val_def)

lemma digits_val_snoc [simp]: "digits_val b (ds @ [d]) = b * digits_val b ds + d"
  by (simp add: digits_val_def)

text \<open>The fixed-width rendering: \<open>w\<close> digits of \<open>n\<close> in base \<open>b\<close>.\<close>

fun fixed_base :: "nat \<Rightarrow> nat \<Rightarrow> nat \<Rightarrow> string" where
  "fixed_base b 0 n = []"
| "fixed_base b (Suc w) n = fixed_base b w (n div b) @ [hex_char (n mod b)]"

lemma length_fixed_base [simp]: "length (fixed_base b w n) = w"
  by (induction w arbitrary: n) auto

lemma fixed_base_0: "fixed_base b w 0 = replicate w (CHR ''0'')"
proof (induction w)
  case 0
  show ?case by simp
next
  case (Suc w)
  have "hex_char 0 = CHR ''0''" by code_simp
  with Suc show ?case by (simp add: replicate_append_same)
qed

lemma hex_char_not_sign: "d < 16 \<Longrightarrow> hex_char d \<noteq> CHR ''+'' \<and> hex_char d \<noteq> CHR ''-''"
  by (auto simp: hex_char_def dest!: arg_cong [where f = ord_of] split: if_splits)

lemma str_base_nonempty: "str_base b n \<noteq> []"
  by (subst str_base.simps) simp

lemma str_base_hd_not_sign:
  assumes "2 \<le> b" and "b \<le> 16"
  shows "hd (str_base b n) \<noteq> CHR ''+'' \<and> hd (str_base b n) \<noteq> CHR ''-''"
  using assms
proof (induction b n rule: str_base.induct)
  case (1 b n)
  show ?case
  proof (cases "n < b")
    case True
    with 1 show ?thesis by (simp add: str_base.simps [of b n] hex_char_not_sign)
  next
    case False
    with 1 show ?thesis by (simp add: str_base.simps [of b n] str_base_nonempty)
  qed
qed

lemma length_str_base_le:
  "2 \<le> b \<Longrightarrow> n < b ^ Suc w \<Longrightarrow> length (str_base b n) \<le> Suc w"
proof (induction w arbitrary: n)
  case 0
  then show ?case by (simp add: str_base.simps [of b n])
next
  case (Suc w)
  show ?case
  proof (cases "n < b")
    case True
    then show ?thesis by (simp add: str_base.simps [of b n])
  next
    case False
    have "n div b < b ^ Suc w"
      using Suc.prems by (simp add: less_mult_imp_div_less mult.commute)
    with Suc have "length (str_base b (n div b)) \<le> Suc w" by blast
    with False Suc.prems show ?thesis by (simp add: str_base.simps [of b n])
  qed
qed

lemma zfill_unsigned:
  "hd s \<noteq> CHR ''+'' \<Longrightarrow> hd s \<noteq> CHR ''-'' \<Longrightarrow> zfill s w = replicate (w - length s) (CHR ''0'') @ s"
  by (cases s) (auto simp: zfill_def)

lemma pad_str_base:
  assumes "2 \<le> b" and "n < b ^ Suc w"
  shows "replicate (Suc w - length (str_base b n)) (CHR ''0'') @ str_base b n = fixed_base b (Suc w) n"
  using assms
proof (induction w arbitrary: n)
  case 0
  then show ?case by (simp add: str_base.simps [of b n])
next
  case (Suc w)
  show ?case
  proof (cases "n < b")
    case True
    with Suc.prems show ?thesis
      by (simp add: str_base.simps [of b n] fixed_base_0 del: replicate.simps)
  next
    case False
    have lt: "n div b < b ^ Suc w"
      using Suc.prems by (simp add: less_mult_imp_div_less mult.commute)
    have IH: "replicate (Suc w - length (str_base b (n div b))) (CHR ''0'') @ str_base b (n div b)
        = fixed_base b (Suc w) (n div b)"
      using Suc.prems(1) lt by (rule Suc.IH)
    have "str_base b n = str_base b (n div b) @ [hex_char (n mod b)]"
      using False Suc.prems by (simp add: str_base.simps [of b n])
    then show ?thesis using IH by (metis Suc_eq_plus1 append.assoc diff_Suc_Suc fixed_base.simps(2) length_append_singleton)
  qed
qed

lemma zfill_str_base:
  assumes "2 \<le> b" and "b \<le> 16" and "n < b ^ w" and "0 < w"
  shows "zfill (str_base b n) w = fixed_base b w n"
proof -
  obtain w' where w: "w = Suc w'" using assms(4) by (cases w) auto
  show ?thesis
    using assms str_base_hd_not_sign [of b n] pad_str_base [of b n w'] by (simp add: zfill_unsigned w)
qed

text \<open>Reading a fixed-width rendering back gives the number.\<close>

definition hex_vals :: "string \<Rightarrow> nat list" where
  "hex_vals s = map (\<lambda>c. the (hex_val c)) s"

lemma digits_val_fixed_base:
  assumes "2 \<le> b" and "b \<le> 16"
  shows "digits_val b (hex_vals (fixed_base b w n)) = n mod b ^ w"
proof (induction w arbitrary: n)
  case 0
  show ?case by (simp add: hex_vals_def)
next
  case (Suc w)
  have "n mod b < 16" using assms by (meson less_le_trans mod_less_divisor order_less_le_trans pos2)
  with Suc show ?case
    using mod_mult2_eq [of n b "b ^ w"] by (simp add: hex_vals_def ac_simps)
qed

section \<open>\<open>int(s, 16)\<close>\<close>

text \<open>
  CPython first replaces whitespace of a non-ASCII text by blanks, then skips blanks on both sides,
  then takes an optional sign, an optional \<open>0x\<close> or \<open>0X\<close> (which one underscore may follow), and
  then digits with single underscores between them.
\<close>

definition int_text :: "string \<Rightarrow> string" where
  "int_text s = (if list_all (\<lambda>c. ord_of c < 128) s then s
                 else map (\<lambda>c. if py_space c then CHR '' '' else c) s)"

definition int_strip :: "string \<Rightarrow> string" where
  "int_strip s = rev (dropWhile ascii_space (rev (dropWhile ascii_space s)))"

fun int16_digits :: "bool \<Rightarrow> nat \<Rightarrow> string \<Rightarrow> nat option" where
  \<comment> \<open>the flag says that the previous character was an underscore (or that no digit came yet)\<close>
  "int16_digits und v [] = (if und then None else Some v)"
| "int16_digits und v (c # cs) =
     (if c = CHR ''_'' then (if und then None else int16_digits True v cs)
      else case hex_val c of None \<Rightarrow> None | Some d \<Rightarrow> int16_digits False (16 * v + d) cs)"

definition int16_prefix :: "string \<Rightarrow> string" where
  "int16_prefix s = (case s of
     a # b # cs \<Rightarrow> if a = CHR ''0'' \<and> (b = CHR ''x'' \<or> b = CHR ''X'')
                   then (case cs of c # ds \<Rightarrow> if c = CHR ''_'' then ds else cs | [] \<Rightarrow> cs)
                   else s
   | _ \<Rightarrow> s)"

definition int16_sign :: "string \<Rightarrow> bool \<times> string" where
  "int16_sign s = (case s of
     c # cs \<Rightarrow> if c = CHR ''-'' then (True, cs) else if c = CHR ''+'' then (False, cs) else (False, s)
   | [] \<Rightarrow> (False, s))"

definition int_base16 :: "string \<Rightarrow> int option" where
  "int_base16 s =
     (let (neg, body) = int16_sign (int_strip (int_text s))
      in map_option (\<lambda>n. if neg then - int n else int n) (int16_digits True 0 (int16_prefix body)))"

definition hex_string :: "string \<Rightarrow> bool" where
  "hex_string s = list_all (\<lambda>c. hex_val c \<noteq> None) s"

lemma int16_digits_hex:
  "hex_string s \<Longrightarrow> s \<noteq> [] \<or> \<not> und \<Longrightarrow> int16_digits und v s = Some (foldl (\<lambda>v d. 16 * v + d) v (hex_vals s))"
  by (induction s arbitrary: v und) (auto simp: hex_string_def hex_vals_def hex_val_def Let_def split: if_splits)

section \<open>\<open>bytes.fromhex\<close>\<close>

type_synonym byte = "8 word"

fun fromhex :: "string \<Rightarrow> py_exn + byte list" where
  "fromhex [] = Inr []"
| "fromhex (c # cs) =
     (if ascii_space c then fromhex cs
      else case cs of
        [] \<Rightarrow> Inl (ValueError ''non-hexadecimal number found in fromhex() arg'')
      | d # ds \<Rightarrow>
          (case (hex_val c, hex_val d) of
             (Some hi, Some lo) \<Rightarrow> and_then (fromhex ds) (\<lambda>bs. Inr (word_of_nat (16 * hi + lo) # bs))
           | _ \<Rightarrow> Inl (ValueError ''non-hexadecimal number found in fromhex() arg'')))"

lemma ascii_space_not_hex: "hex_val c = Some v \<Longrightarrow> \<not> ascii_space c"
  by (auto simp: hex_val_def ascii_space_def Let_def split: if_splits)

lemma py_space_not_hex: "hex_val c = Some v \<Longrightarrow> \<not> py_space c"
  by (auto simp: hex_val_def py_space_def Let_def split: if_splits)

fun byte_pairs :: "nat list \<Rightarrow> byte list" where
  "byte_pairs (hi # lo # ds) = word_of_nat (16 * hi + lo) # byte_pairs ds"
| "byte_pairs _ = []"

lemma fromhex_hex:
  "hex_string s \<Longrightarrow> even (length s) \<Longrightarrow> fromhex s = Inr (byte_pairs (hex_vals s))"
proof (induction s rule: fromhex.induct)
  case 1
  then show ?case by (simp add: hex_vals_def)
next
  case (2 c cs)
  then obtain d ds where cs: "cs = d # ds" by (cases cs) auto
  from 2 cs obtain hi lo where hi: "hex_val c = Some hi" and lo: "hex_val d = Some lo"
    by (auto simp: hex_string_def)
  then have "\<not> ascii_space c" by (simp add: ascii_space_not_hex)
  with 2 cs hi lo show ?case by (simp add: hex_string_def hex_vals_def)
qed

section \<open>Rounding\<close>

text \<open>\<open>round(x)\<close> rounds halves to even; \<open>round(x, n)\<close> rounds to \<open>n\<close> decimals.\<close>

definition py_round :: "real \<Rightarrow> int" where
  "py_round x = (let f = \<lfloor>x\<rfloor>; d = x - of_int f in
     if d < 1 / 2 then f else if 1 / 2 < d then f + 1 else if even f then f else f + 1)"

definition round_nd :: "nat \<Rightarrow> real \<Rightarrow> real" where
  "round_nd n x = of_int (py_round (x * 10 ^ n)) / 10 ^ n"

text \<open>\<open>int(x)\<close> of a float truncates towards zero.\<close>

definition py_trunc :: "real \<Rightarrow> int" where
  "py_trunc x = (if 0 \<le> x then \<lfloor>x\<rfloor> else \<lceil>x\<rceil>)"

lemma py_round_of_int [simp]: "py_round (of_int i) = i"
  by (simp add: py_round_def)

lemma py_round_numeral [simp]: "py_round (numeral n) = numeral n"
  using py_round_of_int [of "numeral n"] by simp

lemma py_round_bounds: "x - 1 / 2 \<le> of_int (py_round x) \<and> of_int (py_round x) \<le> x + 1 / 2"
proof -
  have l: "of_int \<lfloor>x\<rfloor> \<le> x" "x < of_int \<lfloor>x\<rfloor> + 1" by linarith+
  consider "x - of_int \<lfloor>x\<rfloor> < 1 / 2" | "1 / 2 < x - of_int \<lfloor>x\<rfloor>" | "x - of_int \<lfloor>x\<rfloor> = 1 / 2"
    by linarith
  then show ?thesis using l by cases (simp_all add: py_round_def Let_def, linarith+)
qed

lemma py_round_le_int: "x \<le> of_int n \<Longrightarrow> py_round x \<le> n"
proof -
  assume "x \<le> of_int n"
  then have "of_int (py_round x) \<le> real_of_int n + 1 / 2" using py_round_bounds [of x] by linarith
  then show ?thesis by linarith
qed

lemma py_round_ge_int: "of_int n \<le> x \<Longrightarrow> n \<le> py_round x"
proof -
  assume "of_int n \<le> x"
  then have "real_of_int n - 1 / 2 \<le> of_int (py_round x)" using py_round_bounds [of x] by linarith
  then show ?thesis by linarith
qed

lemma round_nd_unit: "0 \<le> x \<Longrightarrow> x \<le> 1 \<Longrightarrow> 0 \<le> round_nd n x \<and> round_nd n x \<le> 1"
proof -
  assume "0 \<le> x" and "x \<le> 1"
  have "py_round (x * 10 ^ n) \<le> 10 ^ n"
    using \<open>x \<le> 1\<close> by (intro py_round_le_int) simp
  moreover have "0 \<le> py_round (x * 10 ^ n)"
    using \<open>0 \<le> x\<close> by (intro py_round_ge_int) simp
  ultimately have "real_of_int (py_round (x * 10 ^ n)) \<le> of_int (10 ^ n)"
    by (simp only: of_int_le_iff)
  with \<open>0 \<le> py_round (x * 10 ^ n)\<close> show ?thesis by (simp add: round_nd_def)
qed

section \<open>UUIDs\<close>

text \<open>
  A \<open>UUID\<close> is a 128-bit number; \<open>str\<close> prints 32 lower-case hexadecimal digits in groups of
  8-4-4-4-12, and the constructor accepts that form, the bare digits, and the braces and prefixes
  that \<open>uuid.UUID\<close> drops.
\<close>

type_synonym uuid = "128 word"

definition dash_groups :: "string \<Rightarrow> string" where
  "dash_groups h = take 8 h @ ''-'' @ take 4 (drop 8 h) @ ''-'' @ take 4 (drop 12 h) @ ''-''
     @ take 4 (drop 16 h) @ ''-'' @ drop 20 h"

definition str_uuid :: "uuid \<Rightarrow> string" where
  "str_uuid u = dash_groups (fixed_base 16 32 (unat u))"

text \<open>\<open>s.replace(p, '')\<close> for a non-empty \<open>p\<close>.\<close>

function remove_all :: "string \<Rightarrow> string \<Rightarrow> string" where
  "remove_all p s =
     (if p = [] \<or> s = [] then s
      else if starts_with s p then remove_all p (drop (length p) s)
      else hd s # remove_all p (tl s))"
  by pat_completeness auto
termination
  by (relation "measure (\<lambda>(p, s). length s)") auto

declare remove_all.simps [simp del]

definition strip_braces :: "string \<Rightarrow> string" where
  "strip_braces s = (let b = (\<lambda>c. c = CHR 0x7B \<or> c = CHR 0x7D)
     in rev (dropWhile b (rev (dropWhile b s))))"

lemma strip_empty [simp]: "remove_all p [] = []" "strip_braces [] = []"
  by (simp_all add: remove_all.simps strip_braces_def)

definition uuid_of_string :: "string \<Rightarrow> py_exn + uuid" where
  "uuid_of_string s =
     (let h = filter (\<lambda>c. c \<noteq> CHR ''-'') (strip_braces (remove_all ''uuid:'' (remove_all ''urn:'' s)))
      in if length h \<noteq> 32 then Inl (ValueError ''badly formed hexadecimal UUID string'')
         else case int_base16 h of
           None \<Rightarrow> Inl (ValueError ''invalid literal for int() with base 16'')
         | Some i \<Rightarrow> if 0 \<le> i \<and> i < 2 ^ 128 then Inr (word_of_int i)
                     else Inl (ValueError ''int is out of range (need a 128-bit value)''))"

lemma hex_char_not_dash: "d < 16 \<Longrightarrow> hex_char d \<noteq> CHR ''-''"
  by (rule hex_char_not_sign [THEN conjunct2])

lemma fixed_base_hex_chars:
  "2 \<le> b \<Longrightarrow> b \<le> 16 \<Longrightarrow> c \<in> set (fixed_base b w n) \<Longrightarrow> \<exists>d<16. c = hex_char d"
proof (induction w arbitrary: n)
  case 0
  then show ?case by simp
next
  case (Suc w)
  have "n mod b < 16" using Suc.prems by (meson less_le_trans mod_less_divisor order_less_le_trans pos2)
  with Suc show ?case by auto
qed

lemma filter_dash_groups:
  assumes "list_all (\<lambda>c. c \<noteq> CHR ''-'') h"
  shows "filter (\<lambda>c. c \<noteq> CHR ''-'') (dash_groups h) = h"
proof -
  have id: "filter (\<lambda>c. c \<noteq> CHR ''-'') (take n (drop m h)) = take n (drop m h)"
    "filter (\<lambda>c. c \<noteq> CHR ''-'') (drop m h) = drop m h"
    "filter (\<lambda>c. c \<noteq> CHR ''-'') (take n h) = take n h" for n m
    using assms by (auto simp: list_all_iff filter_id_conv dest!: in_set_takeD in_set_dropD)
  have step: "take n (drop m h) @ drop (n + m) h = drop m h" for n m
    by (metis append_take_drop_id drop_drop)
  have "take 8 h @ take 4 (drop 8 h) @ take 4 (drop 12 h) @ take 4 (drop 16 h) @ drop 20 h = h"
    using step [of 4 8] step [of 4 12] step [of 4 16] append_take_drop_id [of 8 h] by simp
  then show ?thesis by (simp add: dash_groups_def id)
qed

lemma fixed_base_inj:
  assumes "n < 16 ^ w" and "m < 16 ^ w" and "fixed_base 16 w n = fixed_base 16 w m"
  shows "n = m"
proof -
  have "n mod 16 ^ w = m mod 16 ^ w"
    using digits_val_fixed_base [of 16 w n] digits_val_fixed_base [of 16 w m] assms(3) by auto
  then show ?thesis using assms(1,2) by (simp only: mod_less)
qed

lemma str_uuid_inj [simp]: "str_uuid u = str_uuid v \<longleftrightarrow> u = v"
proof
  assume eq: "str_uuid u = str_uuid v"
  have nodash: "list_all (\<lambda>c. c \<noteq> CHR ''-'') (fixed_base 16 32 n)" for n
    using fixed_base_hex_chars [of 16 _ 32 n] hex_char_not_dash unfolding list_all_iff by fastforce
  from eq have "filter (\<lambda>c. c \<noteq> CHR ''-'') (str_uuid u) = filter (\<lambda>c. c \<noteq> CHR ''-'') (str_uuid v)"
    by simp
  then have "fixed_base 16 32 (unat u) = fixed_base 16 32 (unat v)"
    unfolding str_uuid_def by (simp only: filter_dash_groups [OF nodash])
  moreover have "unat w < 16 ^ 32" for w :: uuid
    using unsigned_less [of w] by simp
  ultimately show "u = v" using fixed_base_inj unsigned_word_eqI by metis
qed simp

text \<open>The constructor reads the text of a \<open>UUID\<close> back.\<close>

lemma hex_char_set: "d < 16 \<Longrightarrow> hex_char d \<in> set ''0123456789abcdef''"
proof -
  have "list_all (\<lambda>d. hex_char d \<in> set ''0123456789abcdef'') [0..<16]" by code_simp
  then show "d < 16 \<Longrightarrow> hex_char d \<in> set ''0123456789abcdef''" by (simp add: list_all_iff)
qed

lemma set_dash_groups: "set (dash_groups h) \<subseteq> insert CHR ''-'' (set h)"
  unfolding dash_groups_def by (auto dest: in_set_takeD in_set_dropD)

lemma set_fixed_hex: "set (fixed_base 16 w n) \<subseteq> set ''0123456789abcdef''"
  using fixed_base_hex_chars [of 16 _ w n] hex_char_set by fastforce

lemma remove_all_absent: "hd p \<notin> set s \<Longrightarrow> p \<noteq> [] \<Longrightarrow> remove_all p s = s"
proof (induction s)
  case (Cons c s)
  then have "\<not> starts_with (c # s) p" by (cases p) (auto simp: starts_with_def)
  with Cons show ?case by (simp add: remove_all.simps [of p "c # s"])
qed simp

lemma dropWhile_none: "\<forall>c \<in> set s. \<not> P c \<Longrightarrow> dropWhile P s = s"
  by (cases s) auto

lemma int_base16_hex:
  assumes "set s \<subseteq> set ''0123456789abcdef''" and "s \<noteq> []"
  shows "int_base16 s = Some (int (digits_val 16 (hex_vals s)))"
proof -
  have all: "list_all (\<lambda>c. ord_of c < 128 \<and> \<not> ascii_space c \<and> c \<noteq> CHR ''-'' \<and> c \<noteq> CHR ''+'' \<and> c \<noteq> CHR ''x''
      \<and> c \<noteq> CHR ''X'' \<and> hex_val c \<noteq> None) ''0123456789abcdef''" by code_simp
  then have c: "ord_of c < 128 \<and> \<not> ascii_space c \<and> c \<noteq> CHR ''-'' \<and> c \<noteq> CHR ''+'' \<and> c \<noteq> CHR ''x''
      \<and> c \<noteq> CHR ''X'' \<and> hex_val c \<noteq> None" if "c \<in> set s" for c
    using assms(1) that unfolding list_all_iff by blast
  have "int_text s = s" using c by (simp add: int_text_def list_all_iff)
  moreover have "int_strip s = s" using c by (simp add: int_strip_def dropWhile_none)
  moreover have "int16_sign s = (False, s)" using c assms(2) by (cases s) (auto simp: int16_sign_def)
  moreover have "int16_prefix s = s" using c by (cases s rule: list.exhaust; cases "tl s") (auto simp: int16_prefix_def split: list.split)
  moreover have "hex_string s" using c by (simp add: hex_string_def list_all_iff)
  ultimately show ?thesis using assms(2) by (simp add: int_base16_def int16_digits_hex digits_val_def)
qed

lemma uuid_of_str_uuid [simp]: "uuid_of_string (str_uuid u) = Inr u"
proof -
  let ?h = "fixed_base 16 32 (unat u)"
  have set: "set (str_uuid u) \<subseteq> insert CHR ''-'' (set ''0123456789abcdef'')"
    unfolding str_uuid_def using set_dash_groups set_fixed_hex by (rule subset_trans [OF _ insert_mono])
  define ok where "ok c \<longleftrightarrow> c \<noteq> CHR ''u'' \<and> c \<noteq> CHR 0x7B \<and> c \<noteq> CHR 0x7D" for c
  have "list_all ok (CHR ''-'' # ''0123456789abcdef'')" unfolding ok_def by code_simp
  then have "\<forall>c \<in> insert CHR ''-'' (set ''0123456789abcdef''). ok c"
    by (simp only: list_all_iff list.set(2))
  then have ok: "ok c" if "c \<in> set (str_uuid u)" for c
    by (rule bspec [OF _ subsetD [OF set that]])
  have none: "CHR ''u'' \<notin> set (str_uuid u)" "\<forall>c \<in> set (str_uuid u). \<not> (c = CHR 0x7B \<or> c = CHR 0x7D)"
    using ok unfolding ok_def by blast+
  have clean: "strip_braces (remove_all ''uuid:'' (remove_all ''urn:'' (str_uuid u))) = str_uuid u"
    using none by (simp add: remove_all_absent strip_braces_def dropWhile_none del: set_simps)
  have "list_all (\<lambda>c. c \<noteq> CHR ''-'') ?h"
    using fixed_base_hex_chars [of 16 _ 32 "unat u"] hex_char_not_dash unfolding list_all_iff by fastforce
  then have h: "filter (\<lambda>c. c \<noteq> CHR ''-'') (str_uuid u) = ?h"
    unfolding str_uuid_def by (rule filter_dash_groups)
  have ne: "?h \<noteq> []"
  proof
    assume "?h = []"
    then have "length ?h = 0" by (simp only: list.size)
    then show False by (simp only: length_fixed_base)
  qed
  have val: "digits_val 16 (hex_vals ?h) = unat u mod 16 ^ 32"
    by (rule digits_val_fixed_base) simp_all
  have "int_base16 ?h = Some (int (unat u mod 16 ^ 32))"
    unfolding int_base16_hex [OF set_fixed_hex ne] val ..
  moreover have "unat u < 16 ^ 32" using unsigned_less [of u] by simp
  ultimately have "int_base16 ?h = Some (int (unat u))" by (simp only: mod_less)
  moreover have "int (unat u) < 2 ^ 128" using unsigned_less [of u] by (simp add: of_nat_less_iff)
  moreover have "length ?h = 32" by (rule length_fixed_base)
  ultimately show ?thesis unfolding uuid_of_string_def clean h Let_def by (simp del: fixed_base.simps length_fixed_base)
qed

lemma str_uuid_nonempty [simp]: "str_uuid u \<noteq> []"
  by (simp add: str_uuid_def dash_groups_def)

end
