(* ===== verification/PyJson.thy ===== *)
theory PyJson
  imports PyText
begin

text \<open>
  JSON values as \<open>json.loads\<close> and JSONB columns deliver them, with Python's truth value, equality,
  \<open>dict.get\<close> and \<open>float()\<close> on them.  Floats keep the values that are not numbers apart (\<open>pfloat\<close>):
  \<open>json.loads\<close> accepts \<open>NaN\<close> and \<open>Infinity\<close>, and comparisons with NaN are false.
\<close>

section \<open>Floats\<close>

datatype pfloat = Fin real | PInf | NInf | NaN

fun pf_less :: "pfloat \<Rightarrow> pfloat \<Rightarrow> bool" where
  "pf_less NaN _ = False"
| "pf_less _ NaN = False"
| "pf_less (Fin x) (Fin y) = (x < y)"
| "pf_less NInf y = (y \<noteq> NInf)"
| "pf_less (Fin x) y = (y = PInf)"
| "pf_less PInf y = False"

fun pf_eq :: "pfloat \<Rightarrow> pfloat \<Rightarrow> bool" where
  "pf_eq NaN _ = False"
| "pf_eq x y = (x = y)"

definition pf_le :: "pfloat \<Rightarrow> pfloat \<Rightarrow> bool" where
  "pf_le x y = (pf_less x y \<or> pf_eq x y)"

lemma pf_le_Fin [simp]: "pf_le (Fin x) (Fin y) = (x \<le> y)"
  by (auto simp: pf_le_def)

lemma pf_less_NaN [simp]: "pf_less x NaN = False"
  by (cases x) auto

lemma pf_eq_NaN [simp]: "pf_eq x NaN = False"
  by (cases x) auto

lemma pf_le_NaN [simp]: "pf_le x NaN = False" "pf_le NaN x = False"
  by (simp_all add: pf_le_def)

lemma pf_le_bounds: "pf_le (Fin a) x \<Longrightarrow> pf_le x (Fin b) \<Longrightarrow> \<exists>r. x = Fin r \<and> a \<le> r \<and> r \<le> b"
  by (cases x) (auto simp: pf_le_def)

text \<open>A number of this size or more is no finite double.\<close>

definition float_limit :: int where
  "float_limit = 2 ^ 1024 - 2 ^ 970"

definition fin_or_inf :: "real \<Rightarrow> pfloat" where
  "fin_or_inf x = (if of_int float_limit \<le> x then PInf else if x \<le> - of_int float_limit then NInf else Fin x)"

section \<open>JSON\<close>

datatype json =
    JNull
  | JBool bool
  | JInt int
  | JFloat pfloat
  | JStr string
  | JList "json list"
  | JObj "(string \<times> json) list"

type_synonym jobj = "(string, json) pydict"

text \<open>\<open>d.get(k)\<close> and \<open>d.get(k, default)\<close>.\<close>

definition jget :: "jobj \<Rightarrow> string \<Rightarrow> json" where
  "jget d k = (case map_of d k of None \<Rightarrow> JNull | Some v \<Rightarrow> v)"

definition jget_or :: "jobj \<Rightarrow> string \<Rightarrow> json \<Rightarrow> json" where
  "jget_or d k v0 = (case map_of d k of None \<Rightarrow> v0 | Some v \<Rightarrow> v)"

fun truthy :: "json \<Rightarrow> bool" where
  "truthy JNull = False"
| "truthy (JBool b) = b"
| "truthy (JInt i) = (i \<noteq> 0)"
| "truthy (JFloat x) = (x \<noteq> Fin 0)"
| "truthy (JStr s) = (s \<noteq> [])"
| "truthy (JList xs) = (xs \<noteq> [])"
| "truthy (JObj d) = (d \<noteq> [])"

fun num_of :: "json \<Rightarrow> pfloat option" where
  "num_of (JBool b) = Some (Fin (if b then 1 else 0))"
| "num_of (JInt i) = Some (Fin (of_int i))"
| "num_of (JFloat x) = Some x"
| "num_of _ = None"

text \<open>\<open>==\<close>: numbers by value (a boolean is 0 or 1), texts, arrays element by element, objects as maps.\<close>

function py_eq :: "json \<Rightarrow> json \<Rightarrow> bool" where
  "py_eq a b =
     (case (num_of a, num_of b) of
        (Some x, Some y) \<Rightarrow> pf_eq x y
      | _ \<Rightarrow>
        (case (a, b) of
           (JNull, JNull) \<Rightarrow> True
         | (JStr s, JStr t) \<Rightarrow> s = t
         | (JList xs, JList ys) \<Rightarrow> length xs = length ys \<and> list_all (\<lambda>(x, y). py_eq x y) (zip xs ys)
         | (JObj d, JObj e) \<Rightarrow>
             length d = length e \<and>
             list_all (\<lambda>(k, v). case map_of e k of None \<Rightarrow> False | Some w \<Rightarrow> py_eq v w) d
         | _ \<Rightarrow> False))"
  by pat_completeness auto

lemma size_zip_less: "(x, y) \<in> set (zip xs ys) \<Longrightarrow> size (x :: json) < Suc (size_list size xs)"
  using size_list_estimation' [of x xs "size x" size] by (auto dest!: set_zip_leftD)

lemma size_obj_less: "(k, v) \<in> set d \<Longrightarrow> size (v :: json) < Suc (size_list (size_prod (\<lambda>x. 0) size) d)"
  by (induction d) auto

termination py_eq
  by (relation "measure (\<lambda>(a, b). size a)") (auto intro: size_zip_less size_obj_less)

declare py_eq.simps [simp del]

lemma py_eq_JStr [simp]: "py_eq (JStr s) (JStr t) = (s = t)"
  by (simp add: py_eq.simps)

lemma py_eq_Str_iff: "py_eq j (JStr t) \<longleftrightarrow> j = JStr t"
  by (cases j) (simp_all add: py_eq.simps)

lemma py_eq_JStr_left: "py_eq (JStr t) j \<longleftrightarrow> j = JStr t"
  by (cases j) (auto simp add: py_eq.simps)

text \<open>Equality with an integer literal of the program, as in \<open>t == 2\<close>.\<close>

definition eq_int :: "json \<Rightarrow> int \<Rightarrow> bool" where
  "eq_int j i = (case num_of j of None \<Rightarrow> False | Some x \<Rightarrow> pf_eq x (Fin (of_int i)))"

section \<open>\<open>float()\<close>\<close>

text \<open>
  \<open>float(s)\<close> of a text: blanks around it, a sign, then \<open>inf\<close>, \<open>infinity\<close> or \<open>nan\<close> in any case, or
  decimal digits with single underscores between them, a fraction and an exponent.
\<close>

fun dec_digits :: "bool \<Rightarrow> string \<Rightarrow> nat list \<Rightarrow> (nat list \<times> string) option" where
  \<comment> \<open>the digits at the front and the rest; the flag: an underscore here needs a digit before it\<close>
  "dec_digits seen [] ds = Some (ds, [])"
| "dec_digits seen (c # cs) ds =
     (if is_digit c then dec_digits True cs (ds @ [ord_of c - 48])
      else if c = CHR ''_'' \<and> seen \<and> cs \<noteq> [] \<and> is_digit (hd cs) then dec_digits False cs ds
      else if c = CHR ''_'' then None
      else Some (ds, c # cs))"

definition dec_exponent :: "string \<Rightarrow> int option" where
  "dec_exponent s =
     (case s of
        [] \<Rightarrow> Some 0
      | c # cs \<Rightarrow>
          if c = CHR ''e'' \<or> c = CHR ''E''
          then (let (neg, body) = int16_sign cs in
                case dec_digits False body [] of
                  Some (ds, []) \<Rightarrow> if ds = [] then None
                                  else Some ((if neg then - 1 else 1) * int (digits_val 10 ds))
                | _ \<Rightarrow> None)
          else None)"

definition scale10 :: "nat \<Rightarrow> int \<Rightarrow> real" where
  "scale10 m e = (if 0 \<le> e then of_nat m * 10 ^ nat e else of_nat m / 10 ^ nat (- e))"

definition dec_number :: "string \<Rightarrow> real option" where
  "dec_number s =
     (case dec_digits False s [] of
        None \<Rightarrow> None
      | Some (ip, rest) \<Rightarrow>
          (let frac = (case rest of c # cs \<Rightarrow> if c = CHR ''.'' then dec_digits False cs [] else Some ([], rest)
                       | [] \<Rightarrow> Some ([], []))
           in case frac of
                None \<Rightarrow> None
              | Some (fp, rest') \<Rightarrow>
                  if ip = [] \<and> fp = [] then None
                  else map_option (\<lambda>e. scale10 (digits_val 10 (ip @ fp)) (e - int (length fp))) (dec_exponent rest')))"

definition float_str :: "string \<Rightarrow> pfloat option" where
  "float_str s =
     (let (neg, body) = int16_sign (py_strip s); low = py_lower body in
      if low = ''inf'' \<or> low = ''infinity'' then Some (if neg then NInf else PInf)
      else if low = ''nan'' then Some NaN
      else map_option (\<lambda>x. fin_or_inf (if neg then - x else x)) (dec_number body))"

text \<open>\<open>int(s)\<close> of a text: blanks around it, a sign, decimal digits with single underscores between them.\<close>

definition int_base10 :: "string \<Rightarrow> int option" where
  "int_base10 s =
     (let (neg, body) = int16_sign (int_strip (int_text s)) in
      case dec_digits False body [] of
        Some (ds, []) \<Rightarrow> if ds = [] then None
                        else Some (if neg then - int (digits_val 10 ds) else int (digits_val 10 ds))
      | _ \<Rightarrow> None)"

text \<open>\<open>float(x)\<close> of a JSON value; \<open>None\<close>, arrays and objects are a \<open>TypeError\<close>.\<close>

fun to_float :: "json \<Rightarrow> py_exn + pfloat" where
  "to_float (JBool b) = Inr (Fin (if b then 1 else 0))"
| "to_float (JInt i) = (if float_limit \<le> \<bar>i\<bar> then Inl OverflowError else Inr (Fin (of_int i)))"
| "to_float (JFloat x) = Inr x"
| "to_float (JStr s) = (case float_str s of None \<Rightarrow> Inl (ValueError ''could not convert string to float'')
                         | Some x \<Rightarrow> Inr x)"
| "to_float _ = Inl TypeError"

text \<open>\<open>except (ValueError, TypeError)\<close>: the exceptions that such a handler catches.\<close>

fun value_or_type_error :: "py_exn \<Rightarrow> bool" where
  "value_or_type_error (ValueError _) = True"
| "value_or_type_error TypeError = True"
| "value_or_type_error _ = False"

text \<open>\<open>int(x)\<close> of a JSON value: floats are truncated, texts parsed.\<close>

fun to_int :: "json \<Rightarrow> py_exn + int" where
  "to_int (JBool b) = Inr (if b then 1 else 0)"
| "to_int (JInt i) = Inr i"
| "to_int (JFloat x) = (case x of Fin r \<Rightarrow> Inr (py_trunc r)
     | NaN \<Rightarrow> Inl (ValueError ''cannot convert float NaN to integer'') | _ \<Rightarrow> Inl OverflowError)"
| "to_int (JStr s) = (case int_base10 s of None \<Rightarrow> Inl (ValueError ''invalid literal for int() with base 10'')
                        | Some i \<Rightarrow> Inr i)"
| "to_int _ = Inl TypeError"

text \<open>
  \<open>float(x)\<close> where the model continues with real numbers only: a value that is not finite leaves the
  model, with an error of its own that no handler of the program catches.
\<close>

definition to_real :: "json \<Rightarrow> py_exn + real" where
  "to_real j = and_then (to_float j) (\<lambda>x. case x of Fin r \<Rightarrow> Inr r | _ \<Rightarrow> Inl (OtherError ''non-finite float''))"

text \<open>Iteration \<open>for p in x\<close> and subscription \<open>x[k]\<close> with a non-negative index.\<close>

fun json_iter :: "json \<Rightarrow> py_exn + json list" where
  "json_iter (JList xs) = Inr xs"
| "json_iter (JStr s) = Inr (map (\<lambda>c. JStr [c]) s)"
| "json_iter (JObj d) = Inr (map (\<lambda>(k, _). JStr k) d)"
| "json_iter _ = Inl TypeError"

fun json_index :: "json \<Rightarrow> nat \<Rightarrow> py_exn + json" where
  "json_index (JList xs) k = (if k < length xs then Inr (xs ! k) else Inl IndexError)"
| "json_index (JStr s) k = (if k < length s then Inr (JStr [s ! k]) else Inl IndexError)"
| "json_index (JObj d) k = Inl KeyError"
| "json_index _ k = Inl TypeError"

fun json_key :: "json \<Rightarrow> string \<Rightarrow> py_exn + json" where
  "json_key (JObj d) k = (case map_of d k of None \<Rightarrow> Inl KeyError | Some v \<Rightarrow> Inr v)"
| "json_key _ k = Inl TypeError"

text \<open>Arithmetic on floats, as far as the program uses it; a divisor is never zero.\<close>

fun pf_neg :: "pfloat \<Rightarrow> pfloat" where
  "pf_neg (Fin x) = Fin (- x)"
| "pf_neg PInf = NInf"
| "pf_neg NInf = PInf"
| "pf_neg NaN = NaN"

fun pf_add :: "pfloat \<Rightarrow> pfloat \<Rightarrow> pfloat" where
  "pf_add (Fin x) (Fin y) = Fin (x + y)"
| "pf_add NaN _ = NaN"
| "pf_add _ NaN = NaN"
| "pf_add PInf NInf = NaN"
| "pf_add NInf PInf = NaN"
| "pf_add PInf _ = PInf"
| "pf_add _ PInf = PInf"
| "pf_add NInf _ = NInf"
| "pf_add _ NInf = NInf"

fun pf_div :: "pfloat \<Rightarrow> pfloat \<Rightarrow> pfloat" where
  "pf_div (Fin x) (Fin y) = Fin (x / y)"
| "pf_div (Fin x) PInf = Fin 0"
| "pf_div (Fin x) NInf = Fin 0"
| "pf_div PInf (Fin y) = (if y > 0 then PInf else NInf)"
| "pf_div NInf (Fin y) = (if y > 0 then NInf else PInf)"
| "pf_div _ _ = NaN"

fun pf_abs :: "pfloat \<Rightarrow> pfloat" where
  "pf_abs (Fin x) = Fin \<bar>x\<bar>"
| "pf_abs NaN = NaN"
| "pf_abs _ = PInf"

fun pf_scale :: "real \<Rightarrow> pfloat \<Rightarrow> pfloat" where \<comment> \<open>by a positive number\<close>
  "pf_scale c (Fin x) = Fin (c * x)"
| "pf_scale c x = x"

text \<open>\<open>x in c\<close>, the hash of a key that is an array or object, \<open>d.get(k)\<close> with a key of any type, and \<open>UUID(x)\<close>.\<close>

fun hashable :: "json \<Rightarrow> bool" where
  "hashable (JList _) = False"
| "hashable (JObj _) = False"
| "hashable _ = True"

fun py_in :: "json \<Rightarrow> json \<Rightarrow> py_exn + bool" where
  "py_in x (JList ys) = Inr (list_ex (\<lambda>y. py_eq x y) ys)"
| "py_in x (JObj d) = (if hashable x then Inr (list_ex (\<lambda>(k, _). py_eq x (JStr k)) d) else Inl TypeError)"
| "py_in (JStr s) (JStr t) = Inr (list_ex (\<lambda>n. starts_with (drop n t) s) [0..<Suc (length t)])"
| "py_in _ _ = Inl TypeError"

fun get_json_key :: "jobj \<Rightarrow> json \<Rightarrow> py_exn + json" where
  "get_json_key d (JStr k) = Inr (jget d k)"
| "get_json_key d k = (if hashable k then Inr JNull else Inl TypeError)"

fun uuid_of_json :: "json \<Rightarrow> py_exn + uuid" where
  "uuid_of_json (JStr s) = uuid_of_string s"
| "uuid_of_json JNull = Inl TypeError"
| "uuid_of_json _ = Inl (OtherError ''AttributeError'')"

text \<open>\<open>str(x) if x else None\<close> on an optional UUID.\<close>

definition json_uuid :: "uuid option \<Rightarrow> json" where
  "json_uuid u = (case u of None \<Rightarrow> JNull | Some i \<Rightarrow> JStr (str_uuid i))"

end
