(* ===== verification/Epc.thy ===== *)
theory Epc
  imports PyJson
begin

unbundle bit_operations_syntax

text \<open>
  The EPC decoder (\<open>src/tagpulse/rfid/epc.py\<close>): the bit reader, the partition tables, the seven
  decoders behind \<open>decode_epc_hex\<close> and the GTIN-14 derivation, together with the SGTIN-96 encoder
  of the inventory simulator (\<open>scripts/simulate_inventory.py\<close>).

  The bit-by-bit reader is refined by field extraction from the big-endian number that the bytes
  denote (\<open>read_spec\<close>); the round trip between encoder and decoder rests on it.
\<close>

section \<open>Tables\<close>

definition HEADERS :: "(nat, string \<times> nat) pydict" where
  "HEADERS =
     [(0x30, (''sgtin-96'', 96)), (0x36, (''sgtin-198'', 198)), (0x31, (''sscc-96'', 96)),
      (0x34, (''giai-96'', 96)), (0x38, (''giai-202'', 202)), (0x33, (''grai-96'', 96)),
      (0x37, (''grai-170'', 170))]"

text \<open>Rows of a partition table: company-prefix bits, item bits, company-prefix digits, item digits.\<close>

type_synonym partition_row = "nat \<times> nat \<times> nat \<times> nat"

definition SGTIN_PARTITIONS :: "partition_row list" where
  "SGTIN_PARTITIONS =
     [(40, 4, 12, 1), (37, 7, 11, 2), (34, 10, 10, 3), (30, 14, 9, 4), (27, 17, 8, 5), (24, 20, 7, 6),
      (20, 24, 6, 7)]"

definition SSCC_PARTITIONS :: "partition_row list" where
  "SSCC_PARTITIONS =
     [(40, 18, 12, 5), (37, 21, 11, 6), (34, 24, 10, 7), (30, 28, 9, 8), (27, 31, 8, 9), (24, 34, 7, 10),
      (20, 38, 6, 11)]"

definition GIAI_96_PARTITIONS :: "partition_row list" where
  "GIAI_96_PARTITIONS =
     [(40, 42, 12, 13), (37, 45, 11, 14), (34, 48, 10, 15), (30, 52, 9, 17), (27, 55, 8, 18),
      (24, 58, 7, 19), (20, 62, 6, 20)]"

definition GIAI_202_PARTITIONS :: "partition_row list" where
  "GIAI_202_PARTITIONS =
     [(40, 148, 12, 18), (37, 151, 11, 18), (34, 154, 10, 18), (30, 158, 9, 18), (27, 161, 8, 18),
      (24, 164, 7, 18), (20, 168, 6, 18)]"

section \<open>The bit reader\<close>

record bit_reader =
  bdata :: "byte list"
  bpos :: nat
  bmax :: nat

definition mk_reader :: "byte list \<Rightarrow> nat \<Rightarrow> bit_reader" where
  "mk_reader data max_bits = \<lparr>bdata = data, bpos = 0, bmax = min max_bits (length data * 8)\<rparr>"

fun read_loop :: "nat \<Rightarrow> int \<Rightarrow> bit_reader \<Rightarrow> int \<times> bit_reader" where
  "read_loop 0 v r = (v, r)"
| "read_loop (Suc n) v r =
     (let byte = bdata r ! (bpos r div 8);
          b = drop_bit (7 - bpos r mod 8) byte AND 1
      in read_loop n (push_bit 1 v OR uint b) (r\<lparr>bpos := bpos r + 1\<rparr>))"

definition read :: "nat \<Rightarrow> bit_reader \<Rightarrow> py_exn + (int \<times> bit_reader)" where
  "read n r = (if bpos r + n > bmax r then Inl IndexError else Inr (read_loop n 0 r))"

fun read_7bit_string :: "nat \<Rightarrow> bit_reader \<Rightarrow> string" where
  "read_7bit_string 0 r = []"
| "read_7bit_string (Suc n) r =
     (case read 7 r of
        Inl _ \<Rightarrow> []
      | Inr (ch, r') \<Rightarrow> if ch = 0 then [] else chr_of (nat ch) # read_7bit_string n r')"

section \<open>The decoders\<close>

definition read_partition ::
    "bit_reader \<Rightarrow> partition_row list \<Rightarrow> py_exn + (int \<times> int \<times> int \<times> nat \<times> nat \<times> bit_reader)" where
  "read_partition r table =
     and_then (read 3 r) (\<lambda>(filter_bits, r).
     and_then (read 3 r) (\<lambda>(partition, r).
     and_then (index_res table partition) (\<lambda>(cp_bits, item_bits, cp_digits, item_digits).
     and_then (read cp_bits r) (\<lambda>(cp, r).
     and_then (read item_bits r) (\<lambda>(item, r).
       Inr (filter_bits, cp, item, cp_digits, item_digits, r))))))"

definition decode_sgtin_96 :: "bit_reader \<Rightarrow> py_exn + jobj" where
  "decode_sgtin_96 r =
     and_then (read_partition r SGTIN_PARTITIONS) (\<lambda>(filter_bits, cp, indicator_item, cp_digits, item_digits, r).
     and_then (read 38 r) (\<lambda>(serial, r).
       let company_prefix = zfill (str_int cp) cp_digits;
           item_ref = zfill (str_int indicator_item) item_digits
       in Inr [(''scheme'', JStr ''sgtin-96''), (''filter'', JInt filter_bits),
               (''company_prefix'', JStr company_prefix), (''item_ref'', JStr item_ref),
               (''serial'', JStr (str_int serial)),
               (''uri'', JStr (''urn:epc:id:sgtin:'' @ company_prefix @ ''.'' @ item_ref @ ''.'' @ str_int serial))]))"

definition decode_sgtin_198 :: "bit_reader \<Rightarrow> py_exn + jobj" where
  "decode_sgtin_198 r =
     and_then (read_partition r SGTIN_PARTITIONS) (\<lambda>(filter_bits, cp, indicator_item, cp_digits, item_digits, r).
       let serial = read_7bit_string 20 r;
           company_prefix = zfill (str_int cp) cp_digits;
           item_ref = zfill (str_int indicator_item) item_digits
       in Inr [(''scheme'', JStr ''sgtin-198''), (''filter'', JInt filter_bits),
               (''company_prefix'', JStr company_prefix), (''item_ref'', JStr item_ref),
               (''serial'', JStr serial),
               (''uri'', JStr (''urn:epc:id:sgtin:'' @ company_prefix @ ''.'' @ item_ref @ ''.'' @ serial))])"

definition decode_sscc_96 :: "bit_reader \<Rightarrow> py_exn + jobj" where
  "decode_sscc_96 r =
     and_then (read_partition r SSCC_PARTITIONS) (\<lambda>(filter_bits, cp, serial_ref, cp_digits, sr_digits, r).
     and_then (read 24 r) (\<lambda>_.
       let company_prefix = zfill (str_int cp) cp_digits;
           serial = zfill (str_int serial_ref) sr_digits
       in Inr [(''scheme'', JStr ''sscc-96''), (''filter'', JInt filter_bits),
               (''company_prefix'', JStr company_prefix), (''serial_reference'', JStr serial),
               (''uri'', JStr (''urn:epc:id:sscc:'' @ company_prefix @ ''.'' @ serial))]))"

definition decode_giai_96 :: "bit_reader \<Rightarrow> py_exn + jobj" where
  "decode_giai_96 r =
     and_then (read_partition r GIAI_96_PARTITIONS) (\<lambda>(filter_bits, cp, asset, cp_digits, _, r).
       let company_prefix = zfill (str_int cp) cp_digits
       in Inr [(''scheme'', JStr ''giai-96''), (''filter'', JInt filter_bits),
               (''company_prefix'', JStr company_prefix), (''asset_reference'', JStr (str_int asset)),
               (''uri'', JStr (''urn:epc:id:giai:'' @ company_prefix @ ''.'' @ str_int asset))])"

definition decode_giai_202 :: "bit_reader \<Rightarrow> py_exn + jobj" where
  "decode_giai_202 r =
     and_then (read 3 r) (\<lambda>(filter_bits, r).
     and_then (read 3 r) (\<lambda>(partition, r).
     and_then (index_res GIAI_202_PARTITIONS partition) (\<lambda>(cp_bits, _, cp_digits, _).
     and_then (read cp_bits r) (\<lambda>(cp, r).
       let asset = read_7bit_string 18 r;
           company_prefix = zfill (str_int cp) cp_digits
       in Inr [(''scheme'', JStr ''giai-202''), (''filter'', JInt filter_bits),
               (''company_prefix'', JStr company_prefix), (''asset_reference'', JStr asset),
               (''uri'', JStr (''urn:epc:id:giai:'' @ company_prefix @ ''.'' @ asset))]))))"

definition decode_grai_96 :: "bit_reader \<Rightarrow> py_exn + jobj" where
  "decode_grai_96 r =
     and_then (read 3 r) (\<lambda>(filter_bits, r).
     and_then (read 3 r) (\<lambda>(partition, r).
     and_then (index_res SGTIN_PARTITIONS partition) (\<lambda>(cp_bits, _, cp_digits, _).
     and_then (read cp_bits r) (\<lambda>(cp, r).
     and_then (read (44 - cp_bits) r) (\<lambda>(asset_type, r).
     and_then (read 38 r) (\<lambda>(serial, r).
       let company_prefix = zfill (str_int cp) cp_digits;
           asset_type_str = str_int asset_type
       in Inr [(''scheme'', JStr ''grai-96''), (''filter'', JInt filter_bits),
               (''company_prefix'', JStr company_prefix), (''asset_type'', JStr asset_type_str),
               (''serial'', JStr (str_int serial)),
               (''uri'', JStr (''urn:epc:id:grai:'' @ company_prefix @ ''.'' @ asset_type_str @ ''.'' @ str_int serial))]))))))"

definition decode_grai_170 :: "bit_reader \<Rightarrow> py_exn + jobj" where
  "decode_grai_170 r =
     and_then (read 3 r) (\<lambda>(filter_bits, r).
     and_then (read 3 r) (\<lambda>(partition, r).
     and_then (index_res SGTIN_PARTITIONS partition) (\<lambda>(cp_bits, _, cp_digits, _).
     and_then (read cp_bits r) (\<lambda>(cp, r).
     and_then (read (44 - cp_bits) r) (\<lambda>(asset_type, r).
       let serial = read_7bit_string 16 r;
           company_prefix = zfill (str_int cp) cp_digits;
           asset_type_str = str_int asset_type
       in Inr [(''scheme'', JStr ''grai-170''), (''filter'', JInt filter_bits),
               (''company_prefix'', JStr company_prefix), (''asset_type'', JStr asset_type_str),
               (''serial'', JStr serial),
               (''uri'', JStr (''urn:epc:id:grai:'' @ company_prefix @ ''.'' @ asset_type_str @ ''.'' @ serial))])))))"

text \<open>The dispatch on the scheme name, and the handler for \<open>(ValueError, IndexError)\<close> around it.\<close>

definition decode_scheme :: "string \<Rightarrow> bit_reader \<Rightarrow> py_exn + (string \<times> jobj)" where
  "decode_scheme scheme r =
     (let tagged = (\<lambda>d. and_then d (\<lambda>dec. Inr (scheme, dec))) in
      if scheme = ''sgtin-96'' then tagged (decode_sgtin_96 r)
      else if scheme = ''sgtin-198'' then tagged (decode_sgtin_198 r)
      else if scheme = ''sscc-96'' then tagged (decode_sscc_96 r)
      else if scheme = ''giai-96'' then tagged (decode_giai_96 r)
      else if scheme = ''giai-202'' then tagged (decode_giai_202 r)
      else if scheme = ''grai-96'' then tagged (decode_grai_96 r)
      else if scheme = ''grai-170'' then tagged (decode_grai_170 r)
      else Inr (''raw'', []))"

fun value_or_index_error :: "py_exn \<Rightarrow> bool" where
  "value_or_index_error (ValueError _) = True"
| "value_or_index_error IndexError = True"
| "value_or_index_error _ = False"

text \<open>The form in which EPCs are stored and compared (\<open>services/tags.py\<close>).\<close>

definition normalize_epc_hex :: "string \<Rightarrow> string" where
  "normalize_epc_hex raw = map upper_char (py_strip raw)"

definition decode_epc_hex :: "string \<Rightarrow> py_exn + (string \<times> jobj)" where
  "decode_epc_hex hex_str =
     (if hex_str = [] then Inr (''raw'', [])
      else
        let cleaned = py_lower (filter (\<lambda>c. c \<noteq> CHR '' '') (py_strip hex_str)) in
        case fromhex cleaned of
          Inl (ValueError _) \<Rightarrow> Inr (''raw'', [])
        | Inl e \<Rightarrow> Inl e
        | Inr raw \<Rightarrow>
            if length raw < 1 then Inr (''raw'', [])
            else case map_of HEADERS (unat (raw ! 0)) of
                None \<Rightarrow> Inr (''raw'', [])
              | Some (scheme, total_bits) \<Rightarrow>
                  and_then (read 8 (mk_reader raw total_bits)) (\<lambda>(_, r).
                    case decode_scheme scheme r of
                      Inl e \<Rightarrow> if value_or_index_error e then Inr (''raw'', []) else Inl e
                    | Inr res \<Rightarrow> Inr res))"

section \<open>GTIN-14\<close>

text \<open>\<open>str.isdigit\<close> also holds of the superscript digits, which \<open>int\<close> refuses.\<close>

definition py_isdigit :: "string \<Rightarrow> bool" where
  "py_isdigit s = (s \<noteq> [] \<and> list_all (\<lambda>c. is_digit c \<or> ord_of c \<in> {178, 179, 185}) s)"

definition int_of_digit :: "char \<Rightarrow> py_exn + int" where
  "int_of_digit c = (if is_digit c then Inr (int (ord_of c) - 48)
                     else Inl (ValueError ''invalid literal for int() with base 10''))"

fun gtin_total :: "nat \<Rightarrow> string \<Rightarrow> int \<Rightarrow> py_exn + int" where
  "gtin_total i [] tot = Inr tot"
| "gtin_total i (ch # cs) tot =
     and_then (int_of_digit ch) (\<lambda>n.
       let weight = (if (13 - int i) mod 2 = 1 then 3 else 1)
       in gtin_total (Suc i) cs (tot + n * weight))"

definition gtin14_from_decoded :: "jobj option \<Rightarrow> py_exn + string option" where
  "gtin14_from_decoded decoded =
     (case decoded of
        None \<Rightarrow> Inr None
      | Some d \<Rightarrow>
          if d = [] then Inr None
          else case jget_or d ''scheme'' (JStr []) of
            JStr scheme \<Rightarrow>
              (if \<not> starts_with scheme ''sgtin'' then Inr None
               else case (jget d ''company_prefix'', jget d ''item_ref'') of
                 (JStr cp, JStr item) \<Rightarrow>
                   if length item < 1 then Inr None
                   else
                     let body = [hd item] @ cp @ tl item in
                     if length body \<noteq> 13 \<or> \<not> py_isdigit body then Inr None
                     else and_then (gtin_total 0 body 0) (\<lambda>tot.
                       Inr (Some (body @ str_int ((10 - tot mod 10) mod 10))))
               | _ \<Rightarrow> Inr None)
          | _ \<Rightarrow> Inr None)"

section \<open>The simulator's SGTIN-96 encoder\<close>

definition sgtin96_bits :: "int \<Rightarrow> int \<Rightarrow> int \<Rightarrow> int" where
  "sgtin96_bits prefix item serial =
     push_bit 88 0x30 OR push_bit 85 1 OR push_bit 82 5 OR push_bit 58 prefix OR push_bit 38 item
       OR (serial AND (push_bit 38 1 - 1))"

text \<open>\<open>f"{bits:024x}"\<close>, whose zero padding comes after a sign.\<close>

definition format_024x :: "int \<Rightarrow> string" where
  "format_024x i = zfill (if i < 0 then CHR ''-'' # str_base 16 (nat (- i)) else str_base 16 (nat i)) 24"

definition sgtin96_hex :: "string \<Rightarrow> string \<Rightarrow> int \<Rightarrow> py_exn + string" where
  "sgtin96_hex company_prefix item_ref serial =
     (if length company_prefix \<noteq> 7 \<or> length item_ref \<noteq> 6
      then Inl (ValueError ''test data assumes 7+6 partition'')
      else case (int_base10 company_prefix, int_base10 item_ref) of
        (Some prefix, Some item) \<Rightarrow> Inr (format_024x (sgtin96_bits prefix item serial))
      | _ \<Rightarrow> Inl (ValueError ''invalid literal for int() with base 10''))"

section \<open>The bit loop extracts fields of a big-endian number\<close>

text \<open>\<open>be_value bs\<close> is the number that the bytes denote, most significant byte first.\<close>

definition be_value :: "byte list \<Rightarrow> nat" where
  "be_value bs = digits_val 256 (map unat bs)"

lemma digits_val_nth:
  assumes "\<forall>d \<in> set ds. d < b" and "i < length ds"
  shows "ds ! i = digits_val b ds div b ^ (length ds - 1 - i) mod b"
  using assms
proof (induction ds arbitrary: i rule: rev_induct)
  case Nil
  then show ?case by simp
next
  case (snoc d ds)
  have d: "d < b" using snoc.prems by simp
  show ?case
  proof (cases "i = length ds")
    case True
    with d show ?thesis by simp
  next
    case False
    with snoc.prems have i: "i < length ds" by simp
    then have e: "length (ds @ [d]) - 1 - i = Suc (length ds - 1 - i)" by simp
    have "(b * digits_val b ds + d) div b = digits_val b ds" using d by simp
    then have "digits_val b (ds @ [d]) div b ^ (length (ds @ [d]) - 1 - i)
        = digits_val b ds div b ^ (length ds - 1 - i)"
      unfolding e power_Suc div_mult2_eq digits_val_snoc by simp
    with snoc i show ?thesis by (simp add: nth_append)
  qed
qed

lemma bit_be_value:
  assumes "p < length bs * 8"
  shows "bit (bs ! (p div 8)) (7 - p mod 8) = bit (be_value bs) (length bs * 8 - 1 - p)"
proof -
  define i where "i = p div 8"
  have i: "i < length bs" using assms by (simp add: i_def)
  have lt: "\<forall>d \<in> set (map unat bs). d < 256"
  proof
    fix d assume "d \<in> set (map unat bs)"
    then obtain w :: byte where "d = unat w" by auto
    then show "d < 256" using unsigned_less [of w, where ?'a = nat] by simp
  qed
  have "unat (bs ! i) = be_value bs div 256 ^ (length bs - 1 - i) mod 256"
    using digits_val_nth [OF lt, of i] i by (simp add: be_value_def)
  also have "\<dots> = take_bit 8 (drop_bit (8 * (length bs - 1 - i)) (be_value bs))"
    by (simp add: take_bit_eq_mod drop_bit_eq_div power_mult)
  finally have u: "unat (bs ! i) = \<dots>" .
  have "bit (bs ! i) (7 - p mod 8) = bit (unat (bs ! i)) (7 - p mod 8)"
    by (simp add: bit_unsigned_iff)
  also have "\<dots> = bit (be_value bs) (8 * (length bs - 1 - i) + (7 - p mod 8))"
    unfolding u bit_take_bit_iff bit_drop_bit_eq using le_less_trans [of "7 - p mod 8" 7 8] by simp
  also have "8 * (length bs - 1 - i) + (7 - p mod 8) = length bs * 8 - 1 - p"
  proof -
    have "p = 8 * i + p mod 8" by (simp add: i_def)
    moreover have "p mod 8 < 8" by simp
    ultimately show ?thesis using i by linarith
  qed
  finally show ?thesis by (simp add: i_def)
qed

lemma push_or_bit: "push_bit (Suc 0) v OR of_bool b = 2 * v + of_bool b" for v :: int
  by (cases b) (simp_all add: or_one_eq push_bit_eq_mult)

lemma drop_bit_and_1: "uint (drop_bit k w AND 1) = of_bool (bit w k)" for w :: byte
  by (simp add: and_one_eq mod_2_eq_odd bit_iff_odd_drop_bit)

theorem read_loop_spec:
  assumes "bpos r + n \<le> length (bdata r) * 8"
  shows "read_loop n v r =
    (v * 2 ^ n + int (be_value (bdata r) div 2 ^ (length (bdata r) * 8 - bpos r - n) mod 2 ^ n),
     r\<lparr>bpos := bpos r + n\<rparr>)"
  using assms
proof (induction n arbitrary: v r)
  case 0
  then show ?case by simp
next
  case (Suc n)
  define L where "L = length (bdata r) * 8"
  define N where "N = be_value (bdata r)"
  define b where "b = bit N (L - 1 - bpos r)"
  let ?r = "r\<lparr>bpos := bpos r + 1\<rparr>"
  have bit: "bit (bdata r ! (bpos r div 8)) (7 - bpos r mod 8) = b"
    using Suc.prems bit_be_value [of "bpos r" "bdata r"] by (simp add: b_def L_def N_def)
  have "read_loop (Suc n) v r = read_loop n (2 * v + of_bool b) ?r"
    by (simp add: Let_def drop_bit_and_1 bit push_or_bit del: push_bit_Suc)
  also have "\<dots> = ((2 * v + of_bool b) * 2 ^ n + int (N div 2 ^ (L - (bpos r + 1) - n) mod 2 ^ n),
      r\<lparr>bpos := bpos r + Suc n\<rparr>)"
    using Suc.IH [of ?r "2 * v + of_bool b"] Suc.prems by (simp add: L_def N_def)
  also have "L - (bpos r + 1) - n = L - bpos r - Suc n" by simp
  also have "(2 * v + of_bool b) * 2 ^ n + int (N div 2 ^ (L - bpos r - Suc n) mod 2 ^ n)
      = v * 2 ^ Suc n + int (N div 2 ^ (L - bpos r - Suc n) mod 2 ^ Suc n)"
  proof -
    define M where "M = N div 2 ^ (L - bpos r - Suc n)"
    have "L - bpos r - Suc n + n = L - 1 - bpos r" using Suc.prems by (simp add: L_def)
    then have "M div 2 ^ n = N div 2 ^ (L - 1 - bpos r)"
      by (simp add: M_def div_mult2_eq [symmetric] power_add [symmetric])
    then have "M div 2 ^ n mod 2 = of_bool b"
      by (simp add: b_def bit_iff_odd mod_2_eq_odd)
    moreover have "M mod 2 ^ Suc n = 2 ^ n * (M div 2 ^ n mod 2) + M mod 2 ^ n"
      using mod_mult2_eq [of M "2 ^ n" 2] by (simp add: mult.commute)
    ultimately have "int (M mod 2 ^ Suc n) = 2 ^ n * of_bool b + int (M mod 2 ^ n)" by simp
    then show ?thesis by (simp add: M_def algebra_simps)
  qed
  finally show ?case by (simp add: L_def N_def)
qed

section \<open>Packed fields\<close>

text \<open>
  The reference layout of an EPC: a list of fields \<open>(width, value)\<close>, concatenated most significant
  first.  \<open>reader_at r done rest\<close> says that the reader stands after the fields \<open>done\<close> of such a
  layout, before \<open>rest\<close>.
\<close>

type_synonym field = "nat \<times> nat"

definition pack :: "field list \<Rightarrow> nat" where
  "pack fs = foldl (\<lambda>acc (n, v). acc * 2 ^ n + v) 0 fs"

definition width :: "field list \<Rightarrow> nat" where
  "width fs = sum_list (map fst fs)"

definition fits :: "field list \<Rightarrow> bool" where
  "fits fs = list_all (\<lambda>(n, v). v < 2 ^ n) fs"

lemma pack_snoc [simp]: "pack (fs @ [(n, v)]) = pack fs * 2 ^ n + v"
  by (simp add: pack_def)

lemma width_simps [simp]: "width [] = 0" "width ((n, v) # fs) = n + width fs" "width (fs @ gs) = width fs + width gs"
  by (simp_all add: width_def)

lemma fits_simps [simp]: "fits []" "fits ((n, v) # fs) \<longleftrightarrow> v < 2 ^ n \<and> fits fs" "fits (fs @ gs) \<longleftrightarrow> fits fs \<and> fits gs"
  by (simp_all add: fits_def)

lemma pack_less: "fits fs \<Longrightarrow> pack fs < 2 ^ width fs"
proof (induction fs rule: rev_induct)
  case Nil
  show ?case by (simp add: pack_def)
next
  case (snoc f fs)
  obtain n v where f: "f = (n, v)" by (cases f)
  from snoc f have "pack fs + 1 \<le> 2 ^ width fs" and v: "v < 2 ^ n" by auto
  then have "(pack fs + 1) * 2 ^ n \<le> 2 ^ width fs * 2 ^ n" by (rule_tac mult_le_mono1)
  then show ?case using v by (simp add: f power_add algebra_simps)
qed

lemma pack_append: "pack (fs @ gs) = pack fs * 2 ^ width gs + pack gs"
proof (induction gs rule: rev_induct)
  case Nil
  show ?case by (simp add: pack_def)
next
  case (snoc g gs)
  obtain n v where g: "g = (n, v)" by (cases g)
  have "pack (fs @ gs @ [g]) = pack (fs @ gs) * 2 ^ n + v"
    using pack_snoc [of "fs @ gs" n v] by (simp add: g)
  with snoc show ?case by (simp add: g power_add algebra_simps)
qed

lemma pack_field:
  assumes "fits gs" and "v < 2 ^ n"
  shows "pack (fs @ (n, v) # gs) div 2 ^ width gs mod 2 ^ n = v"
proof -
  have "pack (fs @ (n, v) # gs) = (pack fs * 2 ^ n + v) * 2 ^ width gs + pack gs"
    using pack_append [of "fs @ [(n, v)]" gs] by simp
  then show ?thesis using pack_less [OF assms(1)] assms(2) by simp
qed

definition reader_at :: "bit_reader \<Rightarrow> field list \<Rightarrow> field list \<Rightarrow> bool" where
  "reader_at r done rest \<longleftrightarrow>
     be_value (bdata r) = pack (done @ rest) \<and> bpos r = width done \<and> fits (done @ rest)
     \<and> width (done @ rest) = length (bdata r) * 8 \<and> bmax r = length (bdata r) * 8"

lemma read_field:
  assumes "reader_at r done ((n, v) # rest)"
  shows "read n r = Inr (int v, r\<lparr>bpos := bpos r + n\<rparr>)"
    and "reader_at (r\<lparr>bpos := bpos r + n\<rparr>) (done @ [(n, v)]) rest"
proof -
  have at: "be_value (bdata r) = pack (done @ (n, v) # rest)" "bpos r = width done"
    "length (bdata r) * 8 = width done + n + width rest" "bmax r = length (bdata r) * 8"
    "fits rest" "v < 2 ^ n"
    using assms by (simp_all add: reader_at_def)
  have "length (bdata r) * 8 - bpos r - n = width rest" using at by simp
  then show "read n r = Inr (int v, r\<lparr>bpos := bpos r + n\<rparr>)"
    using read_loop_spec [of r n 0] at pack_field [of rest v n "done"] by (simp add: read_def)
  show "reader_at (r\<lparr>bpos := bpos r + n\<rparr>) (done @ [(n, v)]) rest"
    using assms by (simp add: reader_at_def)
qed

lemma index_res_int: "i < length xs \<Longrightarrow> index_res xs (int i) = Inr (xs ! i)"
  by (simp add: index_res_nat)

lemma read_partition_fields:
  assumes "reader_at r done ((3, f) # (3, p) # (cpb, cp) # (ib, it) # rest)"
    and "p < length table" and "table ! p = (cpb, ib, cpd, itd)"
  shows "\<exists>r'. read_partition r table = Inr (int f, int cp, int it, cpd, itd, r')
    \<and> reader_at r' (done @ [(3, f), (3, p), (cpb, cp), (ib, it)]) rest"
proof -
  note r1 = read_field [OF assms(1), simplified]
  note r2 = read_field [OF r1(2), simplified]
  note r3 = read_field [OF r2(2), simplified]
  note r4 = read_field [OF r3(2), simplified]
  show ?thesis
    using r4(2) by (simp add: read_partition_def r1(1) r2(1) r3(1) r4(1) index_res_int assms(2,3))
qed

section \<open>From text to fields\<close>

definition plain_hex :: "string \<Rightarrow> bool" where
  "plain_hex s = list_all (\<lambda>c. \<exists>d<16. c = hex_char d) s"

lemma hex_char_lower [simp]: "d < 16 \<Longrightarrow> lower_char (hex_char d) = hex_char d"
  by (simp add: lower_char_def hex_char_def)

lemma hex_char_not_space: "d < 16 \<Longrightarrow> \<not> py_space (hex_char d) \<and> hex_char d \<noteq> CHR '' ''"
  using py_space_not_hex [of "hex_char d" d] by (auto simp: py_space_def)

lemma plain_hex_clean:
  assumes "plain_hex s"
  shows "py_lower (filter (\<lambda>c. c \<noteq> CHR '' '') (py_strip s)) = s" and "hex_string s"
proof -
  have "list_all (\<lambda>c. \<not> py_space c) s" "list_all (\<lambda>c. c \<noteq> CHR '' '') s" "list_all (\<lambda>c. lower_char c = c) s"
    using assms hex_char_not_space unfolding plain_hex_def list_all_iff by (fastforce, fastforce, fastforce)
  moreover from this have "list_all (\<lambda>c. \<not> py_space c) (rev s)" by (simp add: list_all_iff)
  ultimately have "py_strip s = s" "filter (\<lambda>c. c \<noteq> CHR '' '') s = s" "py_lower s = s"
    by (simp_all add: py_strip_def dropWhile_none list_all_iff filter_id_conv map_idI)
  then show "py_lower (filter (\<lambda>c. c \<noteq> CHR '' '') (py_strip s)) = s" by simp
  show "hex_string s" using assms by (auto simp: plain_hex_def hex_string_def list_all_iff)
qed

lemma plain_hex_fixed_base: "plain_hex (fixed_base 16 w n)"
  using fixed_base_hex_chars [of 16 _ w n] by (auto simp: plain_hex_def list_all_iff)

lemma foldl_byte_pairs:
  "even (length ds) \<Longrightarrow> \<forall>d \<in> set ds. d < 16 \<Longrightarrow>
   foldl (\<lambda>v d. 256 * v + d) v (map unat (byte_pairs ds)) = foldl (\<lambda>v d. 16 * v + d) v ds"
proof (induction ds arbitrary: v rule: byte_pairs.induct)
  case (1 hi lo ds)
  have "unat (word_of_nat (16 * hi + lo) :: byte) = 16 * hi + lo"
    unfolding unat_of_nat using "1.prems" by simp
  with 1 show ?case by (simp add: algebra_simps)
qed simp_all

lemma length_byte_pairs: "even (length ds) \<Longrightarrow> length (byte_pairs ds) * 2 = length ds"
  by (induction ds rule: byte_pairs.induct) simp_all

lemma be_value_hex:
  assumes "even w"
  shows "be_value (byte_pairs (hex_vals (fixed_base 16 w n))) = n mod 16 ^ w"
proof -
  have lt: "\<forall>d \<in> set (hex_vals (fixed_base 16 w n)). d < 16"
    using fixed_base_hex_chars [of 16 _ w n] by (force simp: hex_vals_def)
  have "be_value (byte_pairs (hex_vals (fixed_base 16 w n))) = digits_val 16 (hex_vals (fixed_base 16 w n))"
    using foldl_byte_pairs [OF _ lt] assms by (simp add: be_value_def digits_val_def hex_vals_def)
  then show ?thesis by (simp add: digits_val_fixed_base)
qed

text \<open>The decoder on the text of a packed layout of \<open>total_bits\<close> bits hands the packed fields to the
  decoder that the header selects.\<close>

lemma decode_packed:
  assumes fits: "fits fs" and w: "width fs + 8 = 4 * w" and "even w" and "h < 256"
    and hdr: "map_of HEADERS h = Some (scheme, 4 * w)"
  shows "\<exists>r. reader_at r [(8, h)] fs \<and>
    decode_epc_hex (fixed_base 16 w (pack ((8, h) # fs))) =
      (case decode_scheme scheme r of
         Inl e \<Rightarrow> if value_or_index_error e then Inr (''raw'', []) else Inl e | Inr res \<Rightarrow> Inr res)"
proof -
  define N where "N = pack ((8, h) # fs)"
  define s where "s = fixed_base 16 w N"
  define raw where "raw = byte_pairs (hex_vals s)"
  define r0 where "r0 = mk_reader raw (4 * w)"
  have "N < 2 ^ width ((8, h) # fs)" unfolding N_def using assms by (intro pack_less) simp
  also have "2 ^ width ((8, h) # fs) = (16 :: nat) ^ w"
  proof -
    have "width ((8, h) # fs) = 4 * w" using w by simp
    then show ?thesis by (simp add: power_mult)
  qed
  finally have N: "be_value raw = N"
    unfolding raw_def s_def using be_value_hex [OF \<open>even w\<close>] by simp
  have len: "length raw * 2 = w"
    using length_byte_pairs [of "hex_vals s"] \<open>even w\<close> by (simp add: raw_def s_def hex_vals_def)
  have at0: "reader_at r0 [] ((8, h) # fs)"
    using assms len N by (simp add: reader_at_def r0_def mk_reader_def N_def)
  note step = read_field [OF at0]
  have nonempty: "s \<noteq> []" "\<not> length raw < 1"
    using w len by (auto simp: s_def dest: arg_cong [where f = length])
  have "unat (raw ! 0) = h"
  proof -
    have lt: "\<forall>d \<in> set (map unat raw). d < 256"
    proof
      fix d assume "d \<in> set (map unat raw)"
      then obtain x :: byte where "d = unat x" by auto
      then show "d < 256" using unsigned_less [of x, where ?'a = nat] by simp
    qed
    have "unat (raw ! 0) = N div 256 ^ (length raw - 1) mod 256"
      using digits_val_nth [OF lt, of 0] nonempty N by (simp add: be_value_def)
    also have "(256 :: nat) ^ (length raw - 1) = 2 ^ width fs"
    proof -
      have "width fs = 8 * (length raw - 1)" using w len nonempty by linarith
      then show ?thesis by (simp add: power_mult)
    qed
    also have "N div 2 ^ width fs mod 256 = h"
      using pack_field [of fs h 8 "[]"] assms by (simp add: N_def)
    finally show ?thesis .
  qed
  moreover have "fromhex s = Inr raw"
    unfolding raw_def using plain_hex_clean(2) [OF plain_hex_fixed_base] \<open>even w\<close>
    by (intro fromhex_hex) (simp_all add: s_def)
  moreover have "py_lower (filter (\<lambda>c. c \<noteq> CHR '' '') (py_strip s)) = s"
    unfolding s_def by (rule plain_hex_clean(1)) (rule plain_hex_fixed_base)
  ultimately have "decode_epc_hex s = (case decode_scheme scheme (r0\<lparr>bpos := bpos r0 + 8\<rparr>) of
         Inl e \<Rightarrow> if value_or_index_error e then Inr (''raw'', []) else Inl e | Inr res \<Rightarrow> Inr res)"
    using nonempty hdr step(1) by (simp add: decode_epc_hex_def Let_def r0_def)
  with step(2) show ?thesis unfolding s_def N_def by auto
qed

section \<open>Round trips\<close>

lemma str_int_nonneg [simp]: "str_int (int n) = str_base 10 n"
  by (simp add: str_int_def str_nat_def)

lemma sgtin_partition_bits:
  assumes "p < 7" and "SGTIN_PARTITIONS ! p = (cpb, ib, cpd, itd)"
  shows "cpb + ib = 44" and "cpd + itd = 13" and "0 < cpd" and "0 < itd"
proof -
  have "\<forall>(cpb, ib, cpd, itd) \<in> set SGTIN_PARTITIONS. cpb + ib = 44 \<and> cpd + itd = 13 \<and> 0 < cpd \<and> 0 < itd"
    by (simp add: SGTIN_PARTITIONS_def)
  moreover have "SGTIN_PARTITIONS ! p \<in> set SGTIN_PARTITIONS"
    using assms(1) by (intro nth_mem) (simp add: SGTIN_PARTITIONS_def)
  ultimately show "cpb + ib = 44" "cpd + itd = 13" "0 < cpd" "0 < itd" using assms(2) by auto
qed

definition sgtin_dict :: "string \<Rightarrow> nat \<Rightarrow> string \<Rightarrow> string \<Rightarrow> string \<Rightarrow> jobj" where
  "sgtin_dict scheme f company item serial =
     [(''scheme'', JStr scheme), (''filter'', JInt (int f)), (''company_prefix'', JStr company),
      (''item_ref'', JStr item), (''serial'', JStr serial),
      (''uri'', JStr (''urn:epc:id:sgtin:'' @ company @ ''.'' @ item @ ''.'' @ serial))]"

lemma decode_sgtin_96_fields:
  assumes "reader_at r done [(3, f), (3, p), (cpb, cp), (ib, it), (38, serial)]"
    and "p < 7" and "SGTIN_PARTITIONS ! p = (cpb, ib, cpd, itd)"
  shows "decode_sgtin_96 r = Inr (sgtin_dict ''sgtin-96'' f (zfill (str_base 10 cp) cpd)
           (zfill (str_base 10 it) itd) (str_base 10 serial))"
proof -
  have "p < length SGTIN_PARTITIONS" using assms(2) by (simp add: SGTIN_PARTITIONS_def)
  from read_partition_fields [OF assms(1) this assms(3)]
  obtain r' where rp: "read_partition r SGTIN_PARTITIONS = Inr (int f, int cp, int it, cpd, itd, r')"
    and at: "reader_at r' (done @ [(3, f), (3, p), (cpb, cp), (ib, it)]) [(38, serial)]" by blast
  show ?thesis
    by (simp add: decode_sgtin_96_def rp read_field(1) [OF at] sgtin_dict_def Let_def)
qed

text \<open>
  The GS1 layout of an SGTIN-96: header, filter, partition, company prefix, item reference, serial.
  Decoding its text gives every field back, the two digit strings padded to the partition's widths.
\<close>

definition sgtin96_layout :: "nat \<Rightarrow> nat \<Rightarrow> nat \<Rightarrow> nat \<Rightarrow> nat \<Rightarrow> field list" where
  "sgtin96_layout f p cp it serial =
     (let (cpb, ib, _, _) = SGTIN_PARTITIONS ! p
      in [(8, 0x30), (3, f), (3, p), (cpb, cp), (ib, it), (38, serial)])"

lemma decode_sgtin96_layout:
  assumes "p < 7" and "SGTIN_PARTITIONS ! p = (cpb, ib, cpd, itd)"
    and "f < 8" and "cp < 10 ^ cpd" and "cp < 2 ^ cpb" and "it < 10 ^ itd" and "it < 2 ^ ib" and "serial < 2 ^ 38"
  shows "decode_epc_hex (fixed_base 16 24 (pack (sgtin96_layout f p cp it serial))) =
    Inr (''sgtin-96'', sgtin_dict ''sgtin-96'' f (fixed_base 10 cpd cp) (fixed_base 10 itd it) (str_base 10 serial))"
proof -
  note bits = sgtin_partition_bits [OF assms(1,2)]
  let ?fs = "[(3, f), (3, p), (cpb, cp), (ib, it), (38, serial)]"
  have "fits ?fs" "width ?fs + 8 = 4 * 24" using assms bits(1) by simp_all
  moreover have "map_of HEADERS 0x30 = Some (''sgtin-96'', 4 * 24)" by (simp add: HEADERS_def)
  ultimately obtain r where r: "reader_at r [(8, 0x30)] ?fs"
    and dec: "decode_epc_hex (fixed_base 16 24 (pack ((8, 0x30) # ?fs))) =
      (case decode_scheme ''sgtin-96'' r of
         Inl e \<Rightarrow> if value_or_index_error e then Inr (''raw'', []) else Inl e | Inr res \<Rightarrow> Inr res)"
    using decode_packed [of ?fs 24 "0x30" "''sgtin-96''"] by auto
  have "zfill (str_base 10 cp) cpd = fixed_base 10 cpd cp" "zfill (str_base 10 it) itd = fixed_base 10 itd it"
    using assms bits by (simp_all add: zfill_str_base)
  with decode_sgtin_96_fields [OF r assms(1,2)]
  show ?thesis by (simp add: dec sgtin96_layout_def assms(2) decode_scheme_def Let_def)
qed

subsection \<open>The simulator's encoder produces that layout\<close>

lemma or_field:
  fixes a v :: int
  assumes "0 \<le> v" and "v < 2 ^ n"
  shows "push_bit (n + m) a OR push_bit m v = push_bit m (a * 2 ^ n + v)"
proof -
  have v: "take_bit n v = v" using assms by (simp add: take_bit_int_eq_self)
  have "push_bit n a + v = push_bit n a OR v"
  proof (rule disjunctive_add)
    fix k
    have "bit v k \<Longrightarrow> k < n" using v by (metis bit_take_bit_iff)
    then show "\<not> bit (push_bit n a) k \<or> \<not> bit v k" by (auto simp: bit_push_bit_iff)
  qed
  then have "push_bit m (push_bit n a OR v) = push_bit m (a * 2 ^ n + v)" by (simp add: push_bit_eq_mult)
  then show ?thesis by (simp only: push_bit_or push_bit_push_bit add.commute)
qed

lemma sgtin96_bits_pack:
  assumes "prefix < 2 ^ 24" and "item < 2 ^ 20"
  shows "sgtin96_bits (int prefix) (int item) serial =
    int (pack (sgtin96_layout 1 5 prefix item (nat (serial mod 2 ^ 38))))"
proof -
  have ser: "serial AND (push_bit 38 1 - 1) = push_bit 0 (serial mod 2 ^ 38)"
    by (simp only: push_bit_of_1 push_bit_0_id id_apply mask_eq_exp_minus_1 [symmetric]
        take_bit_eq_mask [symmetric] take_bit_eq_mod)
  have hd: "(push_bit 88 0x30 OR push_bit 85 1) OR push_bit 82 5 = push_bit (24 + 58) (3085 :: int)" by simp
  note fields = or_field [of "int prefix" 24 58 3085] or_field [of "int item" 20 38 "3085 * 2 ^ 24 + int prefix"]
      or_field [of "serial mod 2 ^ 38" 38 0 "(3085 * 2 ^ 24 + int prefix) * 2 ^ 20 + int item"]
  have "sgtin96_bits (int prefix) (int item) serial =
      ((((push_bit 88 0x30 OR push_bit 85 1) OR push_bit 82 5) OR push_bit 58 (int prefix))
        OR push_bit 38 (int item)) OR push_bit 0 (serial mod 2 ^ 38)"
    by (simp only: sgtin96_bits_def ser or.assoc)
  also have "\<dots> = ((3085 * 2 ^ 24 + int prefix) * 2 ^ 20 + int item) * 2 ^ 38 + serial mod 2 ^ 38"
    unfolding hd using fields assms by simp
  finally show ?thesis
    by (simp add: sgtin96_layout_def SGTIN_PARTITIONS_def pack_def algebra_simps)
qed

lemma is_digit_hex_char: "d < 10 \<Longrightarrow> is_digit (hex_char d) \<and> ord_of (hex_char d) - 48 = d"
  by (simp add: is_digit_def hex_char_def)

lemma fixed_base_dec_chars: "list_all (\<lambda>c. \<exists>d<10. c = hex_char d) (fixed_base 10 w n)"
proof (induction w arbitrary: n)
  case (Suc w)
  have "n mod 10 < 10" by simp
  then have "\<exists>d<10. hex_char (n mod 10) = hex_char d" by blast
  with Suc show ?case by simp
qed simp

lemma dec_digits_step: "d < 10 \<Longrightarrow> dec_digits b (hex_char d # cs) ds = dec_digits True cs (ds @ [d])"
  by (simp add: is_digit_hex_char)

lemma dec_digits_chars:
  "list_all (\<lambda>c. \<exists>d<10. c = hex_char d) s \<Longrightarrow> dec_digits b s ds = Some (ds @ hex_vals s, [])"
proof (induction s arbitrary: b ds)
  case (Cons c s)
  then obtain d where d: "d < 10" "c = hex_char d" by auto
  with Cons show ?case by (simp only: dec_digits_step) (simp add: hex_vals_def)
qed (simp add: hex_vals_def)

lemma dec_text_clean:
  assumes "list_all (\<lambda>c. \<exists>d<10. c = hex_char d) s"
  shows "int_strip (int_text s) = s" and "int16_sign s = (False, s)"
proof -
  have c: "c \<in> set s \<Longrightarrow> ord_of c < 128 \<and> \<not> ascii_space c \<and> c \<noteq> CHR ''-'' \<and> c \<noteq> CHR ''+''" for c
  proof -
    assume "c \<in> set s"
    then obtain d where d: "d < 10" "c = hex_char d" using assms by (auto simp: list_all_iff)
    then have "hex_val c = Some d" by simp
    then show ?thesis
      using d hex_char_not_sign [of d] ascii_space_not_hex [of c d] by (simp add: hex_char_def)
  qed
  then have "int_text s = s" by (simp add: int_text_def list_all_iff)
  moreover have "list_all (\<lambda>c. \<not> ascii_space c) s" "list_all (\<lambda>c. \<not> ascii_space c) (rev s)"
    using c by (simp_all add: list_all_iff)
  ultimately show "int_strip (int_text s) = s" by (simp add: int_strip_def dropWhile_none list_all_iff)
  show "int16_sign s = (False, s)" using c by (cases s) (simp_all add: int16_sign_def)
qed

lemma int_base10_fixed_base:
  assumes "0 < w" and "n < 10 ^ w"
  shows "int_base10 (fixed_base 10 w n) = Some (int n)"
proof -
  have "hex_vals (fixed_base 10 w n) \<noteq> []"
    using assms(1) by (auto simp: hex_vals_def dest: arg_cong [where f = length])
  then show ?thesis
    using assms digits_val_fixed_base [of 10 w n] dec_digits_chars [OF fixed_base_dec_chars, of False w n "[]"]
      dec_text_clean [OF fixed_base_dec_chars, of w n]
    by (simp add: int_base10_def)
qed

text \<open>C18: the encoder of the inventory simulator and the server's decoder agree: for every seven-digit
  company prefix, six-digit item reference and integer serial, decoding the encoded text returns the
  two digit strings unchanged and the serial modulo 2^38.\<close>

theorem simulator_encode_decode:
  assumes "cp < 10 ^ 7" and "it < 10 ^ 6"
  shows "and_then (sgtin96_hex (fixed_base 10 7 cp) (fixed_base 10 6 it) serial) decode_epc_hex =
    Inr (''sgtin-96'', sgtin_dict ''sgtin-96'' 1 (fixed_base 10 7 cp) (fixed_base 10 6 it)
           (str_int (serial mod 2 ^ 38)))"
proof -
  define sr where "sr = nat (serial mod 2 ^ 38)"
  have sr: "sr < 2 ^ 38" "serial mod 2 ^ 38 = int sr"
    by (simp_all add: sr_def nat_less_iff)
  have p5: "(5 :: nat) < 7" "SGTIN_PARTITIONS ! 5 = (24, 20, 7, 6)" by (simp_all add: SGTIN_PARTITIONS_def)
  have lt: "cp < 2 ^ 24" "it < 2 ^ 20" "cp < 10 ^ 7" "it < 10 ^ 6" using assms by simp_all
  let ?N = "pack (sgtin96_layout 1 5 cp it sr)"
  have "?N < 2 ^ width (sgtin96_layout 1 5 cp it sr)"
    using lt sr by (intro pack_less) (simp add: sgtin96_layout_def p5)
  then have N: "?N < 16 ^ 24" by (simp add: sgtin96_layout_def p5)
  then have "format_024x (int ?N) = fixed_base 16 24 ?N"
    using zfill_str_base [of 16 ?N 24] by (simp add: format_024x_def)
  then have "sgtin96_hex (fixed_base 10 7 cp) (fixed_base 10 6 it) serial = Inr (fixed_base 16 24 ?N)"
    using sgtin96_bits_pack [OF lt(1,2), of serial] lt
    by (simp add: sgtin96_hex_def int_base10_fixed_base sr_def)
  then show ?thesis
    using decode_sgtin96_layout [OF p5, of 1 cp it sr] lt sr by simp
qed

theorem simulator_encode_decode_witness:
  "and_then (sgtin96_hex (fixed_base 10 7 614141) (fixed_base 10 6 812345) 6789) decode_epc_hex =
    Inr (''sgtin-96'', sgtin_dict ''sgtin-96'' 1 (fixed_base 10 7 614141) (fixed_base 10 6 812345)
           (str_int (6789 mod 2 ^ 38)))"
  by (rule simulator_encode_decode) simp_all

text \<open>Decoding the hexadecimal text of any well-formed SGTIN-96 layout returns exactly its
  filter, company prefix, item reference and serial number, with both digit strings at the widths
  of the partition.\<close>

theorem sgtin96_roundtrip:
  assumes "p < 7" and "SGTIN_PARTITIONS ! p = (cpb, ib, cpd, itd)"
    and "f < 8" and "cp < 10 ^ cpd" and "cp < 2 ^ cpb" and "it < 10 ^ itd" and "it < 2 ^ ib" and "serial < 2 ^ 38"
  shows "decode_epc_hex (fixed_base 16 24 (pack (sgtin96_layout f p cp it serial))) =
    Inr (''sgtin-96'', sgtin_dict ''sgtin-96'' f (fixed_base 10 cpd cp) (fixed_base 10 itd it) (str_base 10 serial))"
  using assms by (rule decode_sgtin96_layout)

theorem sgtin96_roundtrip_witness:
  "decode_epc_hex (fixed_base 16 24 (pack (sgtin96_layout 3 5 614141 812345 6789))) =
    Inr (''sgtin-96'', sgtin_dict ''sgtin-96'' 3 (fixed_base 10 7 614141) (fixed_base 10 6 812345) (str_base 10 6789))"
  by (rule sgtin96_roundtrip [of 5 24 20]) (simp_all add: SGTIN_PARTITIONS_def)

section \<open>No input makes the decoder raise\<close>

lemma read_error: "read n r = Inl e \<Longrightarrow> e = IndexError"
  by (auto simp: read_def split: if_splits)

lemma index_error: "index_res xs i = Inl e \<Longrightarrow> e = IndexError"
  by (auto simp: index_res_def Let_def split: if_splits)

lemmas epc_errors = read_error index_error

lemma read_partition_error: "read_partition r t = Inl e \<Longrightarrow> e = IndexError"
  by (auto simp: read_partition_def and_then_eq_Inl dest: epc_errors)

lemma decode_scheme_error: "decode_scheme scheme r = Inl e \<Longrightarrow> e = IndexError"
  by (auto simp: decode_scheme_def Let_def and_then_eq_Inl decode_sgtin_96_def decode_sgtin_198_def
      decode_sscc_96_def decode_giai_96_def decode_giai_202_def decode_grai_96_def decode_grai_170_def
      dest: epc_errors read_partition_error split: if_splits)

lemma fromhex_error: "fromhex s = Inl e \<Longrightarrow> \<exists>m. e = ValueError m"
  by (induction s rule: fromhex.induct) (auto simp: and_then_eq_Inl split: if_splits list.splits option.splits)

definition shaped :: "string \<Rightarrow> py_exn + jobj \<Rightarrow> bool" where
  "shaped sc res \<longleftrightarrow> (\<forall>d. res = Inr d \<longrightarrow>
     jget d ''scheme'' = JStr sc \<and> (\<exists>u. jget d ''uri'' = JStr (''urn:epc:id:'' @ u)))"

lemma shaped_and_then [intro]: "(\<And>x. shaped sc (f x)) \<Longrightarrow> shaped sc (and_then m f)"
  by (cases m) (auto simp: shaped_def)

lemma shaped_Inr [simp]:
  "shaped sc (Inr d) \<longleftrightarrow> jget d ''scheme'' = JStr sc \<and> (\<exists>u. jget d ''uri'' = JStr (''urn:epc:id:'' @ u))"
  by (auto simp: shaped_def)

lemma decoders_shaped:
  "shaped ''sgtin-96'' (decode_sgtin_96 r)" "shaped ''sgtin-198'' (decode_sgtin_198 r)"
  "shaped ''sscc-96'' (decode_sscc_96 r)" "shaped ''giai-96'' (decode_giai_96 r)"
  "shaped ''giai-202'' (decode_giai_202 r)" "shaped ''grai-96'' (decode_grai_96 r)"
  "shaped ''grai-170'' (decode_grai_170 r)"
  unfolding decode_sgtin_96_def decode_sgtin_198_def decode_sscc_96_def decode_giai_96_def decode_giai_202_def
    decode_grai_96_def decode_grai_170_def Let_def case_prod_beta
  by (intro shaped_and_then; simp add: jget_def)+

lemma decode_scheme_shape:
  "decode_scheme scheme r = Inr (sc, d) \<Longrightarrow>
    (sc = ''raw'' \<and> d = []) \<or> (jget d ''scheme'' = JStr sc \<and> (\<exists>u. jget d ''uri'' = JStr (''urn:epc:id:'' @ u)))"
  using decoders_shaped [of r]
  by (simp add: decode_scheme_def Let_def and_then_eq_Inr shaped_def split: if_splits)

text \<open>Whatever text arrives, the decoder returns a scheme and a dictionary and raises nothing; a
  text that is no hexadecimal, a header it does not know and a truncated body all give \<open>raw\<close> with no
  fields, and a result under another scheme names that scheme and carries a \<open>uri\<close>.\<close>

theorem decode_epc_hex_total:
  "\<exists>sc d. decode_epc_hex s = Inr (sc, d) \<and>
     (sc = ''raw'' \<and> d = [] \<or> jget d ''scheme'' = JStr sc \<and> (\<exists>u. jget d ''uri'' = JStr (''urn:epc:id:'' @ u)))"
proof -
  define cleaned where "cleaned = py_lower (filter (\<lambda>c. c \<noteq> CHR '' '') (py_strip s))"
  note unfold = decode_epc_hex_def Let_def cleaned_def [symmetric]
  have raw: ?thesis if "decode_epc_hex s = Inr (''raw'', [])" using that by simp
  show ?thesis
  proof (cases "s = []")
    case True
    show ?thesis by (rule raw) (simp add: unfold True)
  next
    case ne: False
    show ?thesis
    proof (cases "fromhex cleaned")
      case (Inl e)
      then obtain m where "e = ValueError m" using fromhex_error by blast
      with Inl ne show ?thesis by (intro raw) (simp add: unfold)
    next
      case bs: (Inr bs)
      show ?thesis
      proof (cases "length bs < 1 \<or> map_of HEADERS (unat (bs ! 0)) = None")
        case True
        with bs ne show ?thesis by (intro raw) (auto simp add: unfold)
      next
        case False
        then obtain scheme tot where hdr: "map_of HEADERS (unat (bs ! 0)) = Some (scheme, tot)" and len: "\<not> length bs < 1"
          by auto
        then have "8 \<le> tot" by (auto simp: HEADERS_def split: if_splits)
        moreover have "8 \<le> length bs * 8" using len by (cases bs) simp_all
        ultimately have "\<not> bpos (mk_reader bs tot) + 8 > bmax (mk_reader bs tot)"
          by (simp add: mk_reader_def)
        then obtain v r where rd: "read 8 (mk_reader bs tot) = Inr (v, r)"
          by (metis read_def surj_pair)
        have dec: "decode_epc_hex s = (case decode_scheme scheme r of
            Inl e \<Rightarrow> if value_or_index_error e then Inr (''raw'', []) else Inl e | Inr res \<Rightarrow> Inr res)"
          using ne bs len hdr rd by (simp add: unfold)
        show ?thesis
        proof (cases "decode_scheme scheme r")
          case (Inl e)
          then show ?thesis using decode_scheme_error [OF Inl] dec by (intro raw) simp
        next
          case (Inr res)
          then show ?thesis using decode_scheme_shape [of scheme r "fst res" "snd res"] dec by (cases res) auto
        qed
      qed
    qed
  qed
qed

section \<open>GTIN-14\<close>

text \<open>The simulator's derivation: \<open>body[-1::-2]\<close> and \<open>body[-2::-2]\<close> take every other digit from the right.\<close>

fun every_other :: "'a list \<Rightarrow> 'a list" where
  "every_other (x # y # zs) = x # every_other zs"
| "every_other xs = xs"

definition sum_digits :: "string \<Rightarrow> py_exn + int" where
  "sum_digits cs = and_then (map_res int_of_digit cs) (\<lambda>ns. Inr (sum_list ns))"

definition gtin14 :: "string \<Rightarrow> string \<Rightarrow> py_exn + string" where
  "gtin14 company_prefix item_ref =
     (if length item_ref \<noteq> 6 then Inl (ValueError ''item_ref must be 6 digits'')
      else
        let body = [hd item_ref] @ company_prefix @ tl item_ref in
        if length body \<noteq> 13 \<or> \<not> py_isdigit body then Inl (ValueError ''invalid gtin13 body'')
        else
          and_then (sum_digits (every_other (rev body))) (\<lambda>odds.
          and_then (sum_digits (every_other (tl (rev body)))) (\<lambda>evens.
            Inr (body @ str_int ((10 - (odds * 3 + evens) mod 10) mod 10)))))"

text \<open>The GS1 check sum of a digit string: from the right, weights 1, 3, 1, 3, \<open>\<dots>\<close>.\<close>

fun gs1_weighted :: "int \<Rightarrow> string \<Rightarrow> int" where
  "gs1_weighted w [] = 0"
| "gs1_weighted w (c # cs) = w * (int (ord_of c) - 48) + gs1_weighted (4 - w) cs"

definition gs1_sum :: "string \<Rightarrow> int" where
  "gs1_sum s = gs1_weighted 1 (rev s)"

lemma length_13:
  "length s = 13 \<Longrightarrow> \<exists>a b c d e f g h i j k l m. s = [a, b, c, d, e, f, g, h, i, j, k, l, m]"
  by (auto simp: numeral_eq_Suc length_Suc_conv)

lemma gtin_total_13:
  assumes "length body = 13" and "list_all is_digit body"
  shows "gtin_total 0 body 0 = Inr (gs1_weighted 3 (rev body))"
  using assms(2) length_13 [OF assms(1)] by (auto simp: int_of_digit_def Let_def)

lemma gtin_total_13_error:
  assumes "gtin_total i body acc = Inr t"
  shows "list_all is_digit body"
  using assms by (induction i body acc rule: gtin_total.induct)
    (auto simp: and_then_eq_Inr int_of_digit_def Let_def split: if_splits)

lemma sum_digits_13:
  assumes "length body = 13" and "list_all is_digit body"
  shows "\<exists>o_sum e_sum. sum_digits (every_other (rev body)) = Inr o_sum
    \<and> sum_digits (every_other (tl (rev body))) = Inr e_sum \<and> o_sum * 3 + e_sum = gs1_weighted 3 (rev body)"
  using assms(2) length_13 [OF assms(1)] by (auto simp: sum_digits_def int_of_digit_def)

lemma sum_digits_error: "sum_digits cs = Inr t \<Longrightarrow> list_all is_digit cs"
proof -
  have "map_res int_of_digit cs = Inr ns \<Longrightarrow> list_all is_digit cs" for ns
    by (induction cs arbitrary: ns) (auto simp: and_then_eq_Inr int_of_digit_def split: if_splits)
  then show "sum_digits cs = Inr t \<Longrightarrow> list_all is_digit cs" by (auto simp: sum_digits_def and_then_eq_Inr)
qed

lemma check_digit:
  fixes t :: int
  shows "str_int ((10 - t mod 10) mod 10) = [hex_char (nat ((10 - t mod 10) mod 10))]"
    and "is_digit (hex_char (nat ((10 - t mod 10) mod 10)))"
    and "int (ord_of (hex_char (nat ((10 - t mod 10) mod 10)))) - 48 = (10 - t mod 10) mod 10"
proof -
  define c where "c = nat ((10 - t mod 10) mod 10)"
  have c: "c < 10" "int c = (10 - t mod 10) mod 10" unfolding c_def by auto
  show "str_int ((10 - t mod 10) mod 10) = [hex_char (nat ((10 - t mod 10) mod 10))]"
    unfolding c(2) [symmetric] using c(1) by (simp add: str_base.simps [of 10 c])
  show "is_digit (hex_char (nat ((10 - t mod 10) mod 10)))"
    unfolding c(2) [symmetric] using is_digit_hex_char [OF c(1)] by simp
  show "int (ord_of (hex_char (nat ((10 - t mod 10) mod 10)))) - 48 = (10 - t mod 10) mod 10"
    unfolding c(2) [symmetric] using c(1) by (simp add: hex_char_def)
qed

lemma gs1_sum_snoc: "gs1_sum (s @ [c]) = int (ord_of c) - 48 + gs1_weighted 3 (rev s)"
  by (simp add: gs1_sum_def)

text \<open>Every GTIN-14 the server derives is a well-formed GS1 number: fourteen digits whose weighted
  check sum is divisible by ten.\<close>

theorem gtin14_valid:
  assumes "gtin14_from_decoded decoded = Inr (Some g)"
  shows "length g = 14 \<and> list_all is_digit g \<and> gs1_sum g mod 10 = 0"
proof -
  from assms obtain cp item t where body: "length ([hd item] @ cp @ tl item) = 13"
    and t: "gtin_total 0 ([hd item] @ cp @ tl item) 0 = Inr t"
    and g: "g = ([hd item] @ cp @ tl item) @ str_int ((10 - t mod 10) mod 10)"
    by (auto simp: gtin14_from_decoded_def Let_def and_then_eq_Inr split: option.splits if_splits json.splits)
  define b where "b = [hd item] @ cp @ tl item"
  note body = body [folded b_def] and t = t [folded b_def] and g = g [folded b_def]
  have dig: "list_all is_digit b" using t by (rule gtin_total_13_error)
  have "t = gs1_weighted 3 (rev b)" using gtin_total_13 [OF body dig] t by simp
  moreover have "((10 - t mod 10) mod 10 + t) mod 10 = 0" by presburger
  ultimately show ?thesis
    using body dig check_digit [of t] unfolding g by (simp add: gs1_sum_snoc)
qed

text \<open>The simulator's GTIN-14 and the server's agree byte for byte, as the simulator's comment asks:
  whenever the simulator returns a number for a company prefix and a six-digit item reference, the
  server derives the same number from the decoded SGTIN with these parts.\<close>

theorem gtin14_agree:
  assumes "gtin14 cp item = Inr g"
  shows "gtin14_from_decoded (Some (sgtin_dict ''sgtin-96'' f cp item serial)) = Inr (Some g)"
proof -
  define b where "b = hd item # cp @ tl item"
  from assms obtain o_sum e_sum where item: "length item = 6" and body: "length b = 13" and "py_isdigit b"
    and o_sum: "sum_digits (every_other (rev b)) = Inr o_sum"
    and e_sum: "sum_digits (every_other (tl (rev b))) = Inr e_sum"
    and g: "g = b @ str_int ((10 - (o_sum * 3 + e_sum) mod 10) mod 10)"
    unfolding gtin14_def Let_def append_Cons append_Nil b_def [symmetric]
    by (simp only: and_then_eq_Inr split: if_splits) auto
  have "list_all is_digit (every_other (rev b))" "list_all is_digit (every_other (tl (rev b)))"
    using sum_digits_error o_sum e_sum by blast+
  then have dig: "list_all is_digit b" using length_13 [OF body] by auto
  from sum_digits_13 [OF body dig] o_sum e_sum have "o_sum * 3 + e_sum = gs1_weighted 3 (rev b)" by auto
  with gtin_total_13 [OF body dig] g have tot: "gtin_total 0 b 0 = Inr (o_sum * 3 + e_sum)" by simp
  have item_ne: "item \<noteq> []" using item by auto
  have "starts_with ''sgtin-96'' ''sgtin''" by (simp add: starts_with_def)
  with body \<open>py_isdigit b\<close> tot item_ne g show ?thesis
    by (simp add: gtin14_from_decoded_def sgtin_dict_def jget_or_def jget_def b_def)
qed


lemma gtin14_example: "gtin14 ''0614141'' ''812345'' = Inr ''80614141123458''"
  by code_simp

theorem gtin14_agree_witness:
  "gtin14_from_decoded (Some (sgtin_dict ''sgtin-96'' 3 ''0614141'' ''812345'' ''6789'')) = Inr (Some ''80614141123458'')"
  by (rule gtin14_agree) (rule gtin14_example)

theorem gtin14_valid_witness:
  "length ''80614141123458'' = 14 \<and> list_all is_digit ''80614141123458'' \<and> gs1_sum ''80614141123458'' mod 10 = 0"
proof -
  have "gtin14_from_decoded (Some (sgtin_dict ''sgtin-96'' 3 ''0614141'' ''812345'' ''6789'')) = Inr (Some ''80614141123458'')"
    by code_simp
  then show ?thesis by (rule gtin14_valid)
qed

end
