(* ===== verification/Tables.thy ===== *)
theory Tables
  imports PyText
begin

text \<open>
  Database tables as lists of rows: partial updates, updates and deletions by primary key, unique
  indexes (partial ones too), and the query results \<open>scalar_one_or_none\<close>, \<open>limit\<close> and \<open>offset\<close>.
\<close>

section \<open>Partial updates\<close>

text \<open>A field of a patch: \<open>None\<close> when it was not set; for a column that may be null, a value of its type.\<close>

definition patched :: "'a option \<Rightarrow> 'a \<Rightarrow> 'a" where
  "patched u old = (case u of None \<Rightarrow> old | Some v \<Rightarrow> v)"

definition patched_not_null :: "'a option option \<Rightarrow> 'a \<Rightarrow> 'a" where
  "patched_not_null u old = (case u of Some (Some v) \<Rightarrow> v | _ \<Rightarrow> old)"

text \<open>An explicit null for a column that must not be null.\<close>

definition sets_null :: "'a option option \<Rightarrow> bool" where
  "sets_null u \<longleftrightarrow> u = Some None"

section \<open>Rows by primary key\<close>

definition row_by :: "('r \<Rightarrow> 'i) \<Rightarrow> 'i \<Rightarrow> 'r list \<Rightarrow> 'r option" where
  "row_by pk i rows = find (\<lambda>r. pk r = i) rows"

definition update_row :: "('r \<Rightarrow> 'i) \<Rightarrow> 'i \<Rightarrow> ('r \<Rightarrow> 'r) \<Rightarrow> 'r list \<Rightarrow> 'r list" where
  "update_row pk i f rows = map (\<lambda>r. if pk r = i then f r else r) rows"

definition delete_row :: "('r \<Rightarrow> 'i) \<Rightarrow> 'i \<Rightarrow> 'r list \<Rightarrow> 'r list" where
  "delete_row pk i rows = filter (\<lambda>r. pk r \<noteq> i) rows"

text \<open>A unique index over the rows that satisfy \<open>P\<close>.\<close>

definition unique_on :: "('r \<Rightarrow> bool) \<Rightarrow> ('r \<Rightarrow> 'k) \<Rightarrow> 'r list \<Rightarrow> bool" where
  "unique_on P key rows \<longleftrightarrow> distinct (map key (filter P rows))"

abbreviation primary :: "('r \<Rightarrow> 'i) \<Rightarrow> 'r list \<Rightarrow> bool" where
  "primary \<equiv> unique_on (\<lambda>_. True)"

text \<open>A row that would violate the index: another row of the index has its key.\<close>

definition clashes :: "('r \<Rightarrow> bool) \<Rightarrow> ('r \<Rightarrow> 'k) \<Rightarrow> ('r \<Rightarrow> 'i) \<Rightarrow> 'r \<Rightarrow> 'r list \<Rightarrow> bool" where
  "clashes P key pk row rows \<longleftrightarrow> P row \<and> (\<exists>r \<in> set rows. pk r \<noteq> pk row \<and> P r \<and> key r = key row)"

lemma row_by_Some: "row_by pk i rows = Some r \<Longrightarrow> r \<in> set rows \<and> pk r = i"
  by (auto simp: row_by_def find_Some_iff)

lemma row_by_None: "row_by pk i rows = None \<longleftrightarrow> i \<notin> pk ` set rows"
  by (auto simp: row_by_def find_None_iff)

lemma unique_on_Nil [simp]: "unique_on P key []"
  by (simp add: unique_on_def)

lemma unique_on_snoc:
  "unique_on P key (rows @ [row]) \<longleftrightarrow> unique_on P key rows \<and> (P row \<longrightarrow> (\<forall>r \<in> set rows. P r \<longrightarrow> key r \<noteq> key row))"
  by (auto simp: unique_on_def image_iff)

lemma unique_on_Cons:
  "unique_on P key (row # rows) \<longleftrightarrow> unique_on P key rows \<and> (P row \<longrightarrow> (\<forall>r \<in> set rows. P r \<longrightarrow> key r \<noteq> key row))"
  by (auto simp: unique_on_def image_iff)

lemma unique_on_filter: "unique_on P key rows \<Longrightarrow> unique_on P key (filter Q rows)"
  by (induction rows) (auto simp: unique_on_Cons)

lemma unique_on_delete: "unique_on P key rows \<Longrightarrow> unique_on P key (delete_row pk i rows)"
  by (simp add: delete_row_def unique_on_filter)

lemma unique_onD: "unique_on P key rows \<Longrightarrow> r \<in> set rows \<Longrightarrow> r' \<in> set rows \<Longrightarrow> P r \<Longrightarrow> P r' \<Longrightarrow> key r = key r' \<Longrightarrow> r = r'"
  by (induction rows) (auto simp: unique_on_Cons)

lemma unique_on_map:
  assumes "unique_on P key rows" and "\<And>r. r \<in> set rows \<Longrightarrow> (P (f r) \<longrightarrow> P r) \<and> (P r \<longrightarrow> key (f r) = key r)"
  shows "unique_on P key (map f rows)"
  using assms by (induction rows) (auto simp: unique_on_Cons)

lemma map_update_same: "(\<And>r. g (f r) = g r) \<Longrightarrow> map g (update_row pk i f rows) = map g rows"
  by (induction rows) (auto simp: update_row_def)

lemma image_update_same: "(\<And>r. g (f r) = g r) \<Longrightarrow> g ` set (update_row pk i f rows) = g ` set rows"
  by (metis map_update_same set_map)

lemma primary_update: "(\<And>r. pk (f r) = pk r) \<Longrightarrow> primary pk (update_row pk i f rows) = primary pk rows"
  by (simp add: unique_on_def map_update_same)

lemma set_update_row: "r \<in> set (update_row pk i f rows) \<Longrightarrow> r \<in> set rows \<and> pk r \<noteq> i \<or> (\<exists>r0 \<in> set rows. pk r0 = i \<and> r = f r0)"
  by (auto simp: update_row_def split: if_splits)

lemma set_delete_row: "set (delete_row pk i rows) = {r \<in> set rows. pk r \<noteq> i}"
  by (auto simp: delete_row_def)

lemma unique_on_update:
  assumes "unique_on P key rows" and "primary pk rows" and "row_by pk i rows = Some row"
    and "pk (f row) = i" and "\<not> clashes P key pk (f row) rows"
  shows "unique_on P key (update_row pk i f rows)"
  using assms
proof (induction rows)
  case (Cons r rows)
  have rest: "unique_on P key rows" "primary pk rows" using Cons.prems by (auto simp: unique_on_Cons)
  show ?case
  proof (cases "pk r = i")
    case True
    with Cons.prems have row: "row = r" by (simp add: row_by_def)
    have others: "\<forall>r' \<in> set rows. pk r' \<noteq> i" using Cons.prems(2) True by (auto simp: unique_on_Cons)
    then have same: "update_row pk i f rows = rows" by (induction rows) (auto simp: update_row_def)
    have "P (f r) \<Longrightarrow> r' \<in> set rows \<Longrightarrow> P r' \<Longrightarrow> key r' \<noteq> key (f r)" for r'
      using Cons.prems(4,5) others by (auto simp: clashes_def row)
    then have "unique_on P key (f r # rows)" using rest(1) by (auto simp: unique_on_Cons)
    moreover have "update_row pk i f (r # rows) = f r # update_row pk i f rows" by (simp add: update_row_def True)
    ultimately show ?thesis using same by simp
  next
    case False
    then have found: "row_by pk i rows = Some row" using Cons.prems(3) by (simp add: row_by_def)
    have mem: "row \<in> set rows" "pk row = i" using row_by_Some [OF found] by auto
    have noclash: "\<not> clashes P key pk (f row) rows" using Cons.prems(5) by (auto simp: clashes_def)
    have fresh: "P r \<Longrightarrow> r' \<in> set (update_row pk i f rows) \<Longrightarrow> P r' \<Longrightarrow> key r' \<noteq> key r" for r'
    proof -
      assume "P r" "r' \<in> set (update_row pk i f rows)" "P r'"
      then consider "r' \<in> set rows" | r0 where "r0 \<in> set rows" "pk r0 = i" "r' = f r0" by (meson set_update_row)
      then show "key r' \<noteq> key r"
      proof cases
        case 1
        then show ?thesis using Cons.prems(1) \<open>P r\<close> \<open>P r'\<close> by (auto simp: unique_on_Cons)
      next
        case 2
        have "r0 = row" using unique_onD [OF rest(2) 2(1) mem(1)] 2(2) mem(2) by simp
        then have "r' = f row" using 2(3) by simp
        then show ?thesis using Cons.prems(4,5) \<open>P r\<close> \<open>P r'\<close> False by (auto simp: clashes_def)
      qed
    qed
    have "update_row pk i f (r # rows) = r # update_row pk i f rows" by (simp add: update_row_def False)
    moreover have "unique_on P key (update_row pk i f rows)" by (rule Cons.IH [OF rest found Cons.prems(4) noclash])
    ultimately show ?thesis using fresh by (simp add: unique_on_Cons)
  qed
qed (simp add: row_by_def)

lemma unique_on_insert:
  "unique_on P key rows \<Longrightarrow> \<not> clashes P key pk row rows \<Longrightarrow> pk row \<notin> pk ` set rows \<Longrightarrow> unique_on P key (rows @ [row])"
  unfolding unique_on_snoc clashes_def image_iff by metis

section \<open>Query results\<close>

definition scalar_one_or_none :: "'r list \<Rightarrow> py_exn + 'r option" where
  "scalar_one_or_none rows = (case rows of [] \<Rightarrow> Inr None | [r] \<Rightarrow> Inr (Some r) | _ \<Rightarrow> Inl (OtherError ''MultipleResultsFound''))"

definition page :: "nat \<Rightarrow> nat \<Rightarrow> 'r list \<Rightarrow> 'r list" where
  "page limit offset rows = take limit (drop offset rows)"

lemma scalar_unique: "unique_on P key rows \<Longrightarrow> \<exists>r. scalar_one_or_none (filter (\<lambda>r. P r \<and> key r = k) rows) = Inr r"
proof (induction rows)
  case (Cons a rows)
  have none: "P a \<and> key a = k \<Longrightarrow> filter (\<lambda>r. P r \<and> key r = k) rows = []"
    using Cons.prems by (auto simp: unique_on_Cons filter_empty_conv)
  then show ?case using Cons by (auto simp: unique_on_Cons scalar_one_or_none_def)
qed (simp add: scalar_one_or_none_def)

lemma scalar_Some: "scalar_one_or_none rows = Inr (Some r) \<Longrightarrow> rows = [r]"
  by (auto simp: scalar_one_or_none_def split: list.splits)

lemma scalar_None: "scalar_one_or_none rows = Inr None \<longleftrightarrow> rows = []"
  by (auto simp: scalar_one_or_none_def split: list.splits)

text \<open>Rows by a numeric key in descending order; a query leaves the order of equal keys open, here it is that of the table.\<close>

definition order_desc :: "('r \<Rightarrow> int) \<Rightarrow> 'r list \<Rightarrow> 'r list" where
  "order_desc key rows = sort_key (\<lambda>r. - key r) rows"

lemma set_order_desc [simp]: "set (order_desc key rows) = set rows"
  by (simp add: order_desc_def)

end
