(* ===== verification/Rules.thy ===== *)
theory Rules
  imports PyJson Tables
begin

text \<open>
  Rules and alerts (\<open>src/tagpulse/rules/__init__.py\<close>, \<open>src/tagpulse/models/rule_schemas.py\<close>): the rows, the
  taxonomy of signaling rules, the service's operations on the tables and the cap on active signaling
  rules per scope.  A table is the list of its rows.  Pydantic's field validation of a trigger's
  configuration is the parameter \<open>model_validate\<close>.
\<close>

section \<open>Rows\<close>

record rule =
  r_id :: uuid
  r_tenant_id :: uuid
  r_name :: string
  r_description :: "string option"
  condition_type :: string
  condition_config :: jobj
  action_type :: string
  action_config :: jobj
  scope_device_id :: "uuid option"
  enabled :: bool
  r_created_at :: datetime
  r_updated_at :: datetime
  event_type :: "string option"
  trigger :: "string option"
  processor :: "string option"
  confidence_threshold :: real
  category_ids :: "uuid list"
  asset_label_filters :: json
  zone_label_filters :: json
  site_label_filters :: json
  integration_ids :: "uuid list option"

text \<open>The texts of alerts, one constructor per format string of the evaluators.\<close>

datatype alert_message =
    ConditionMet string string
  | TelemetryBreach string json json json json json json
  | AttributionInferred string json json json json pfloat
  | ZoneTransition string json json json bool json json
  | StockUnexpected string json json json
  | StockBelow string uuid int int
  | LotsExpiring string nat int
  | DweltInZone string json json json real

record alert =
  al_id :: uuid
  al_tenant_id :: uuid
  al_rule_id :: uuid
  al_device_id :: "uuid option"
  al_severity :: string
  al_message :: alert_message
  al_context :: "string \<times> string \<times> jobj \<times> jobj" \<comment> \<open>rule name, condition type and config, and the event payload or what the inventory or the dwell worker adds\<close>
  al_status :: string
  al_triggered_at :: datetime

definition rule_to_response :: "rule \<Rightarrow> rule" where
  "rule_to_response row =
     row\<lparr>integration_ids := (case integration_ids row of None \<Rightarrow> None | Some ids \<Rightarrow> if ids = [] then None else Some ids)\<rparr>"

lemma rule_to_response_simps [simp]:
  "r_id (rule_to_response r) = r_id r" "r_tenant_id (rule_to_response r) = r_tenant_id r"
  "condition_type (rule_to_response r) = condition_type r" "condition_config (rule_to_response r) = condition_config r"
  "enabled (rule_to_response r) = enabled r" "event_type (rule_to_response r) = event_type r"
  "category_ids (rule_to_response r) = category_ids r" "r_name (rule_to_response r) = r_name r"
  "scope_device_id (rule_to_response r) = scope_device_id r" "processor (rule_to_response r) = processor r"
  by (simp_all add: rule_to_response_def)

section \<open>The taxonomy of signaling rules\<close>

definition SIGNALING_VALID_PAIRS :: "(string \<times> string list) list" where
  "SIGNALING_VALID_PAIRS =
     [(''location'', [''on_change'', ''periodic'', ''on_inactivity'', ''on_inference'']),
      (''geolocation'', [''on_change'', ''periodic'', ''on_inactivity'']),
      (''temperature'', [''on_change'', ''periodic'', ''on_inactivity'']),
      (''geofencing'', [''on_entry'', ''on_exit''])]"

fun split_on :: "char \<Rightarrow> string \<Rightarrow> string list" where
  "split_on d [] = [[]]"
| "split_on d (c # cs) =
     (if c = d then [] # split_on d cs
      else case split_on d cs of [] \<Rightarrow> [[c]] | p # ps \<Rightarrow> (c # p) # ps)"

definition split_signaling_condition_type :: "string \<Rightarrow> (string \<times> string) option" where
  "split_signaling_condition_type ct =
     (if \<not> starts_with ct ''signaling.'' then None
      else case split_on (CHR ''.'') ct of
          [_, et, tr] \<Rightarrow>
            if tr \<notin> set (case map_of SIGNALING_VALID_PAIRS et of None \<Rightarrow> [] | Some ts \<Rightarrow> ts) then None
            else Some (et, tr)
        | _ \<Rightarrow> None)"

text \<open>The schema of the trigger accepts the configuration, or \<open>None\<close> for a rule that is not signaling.\<close>

definition validate_signaling_condition_config ::
    "(string \<Rightarrow> jobj \<Rightarrow> py_exn option) \<Rightarrow> string \<Rightarrow> jobj \<Rightarrow> py_exn + unit" where
  "validate_signaling_condition_config model_validate ct config =
     (case split_signaling_condition_type ct of
        None \<Rightarrow> Inr ()
      | Some (_, tr) \<Rightarrow> (case model_validate tr config of Some e \<Rightarrow> Inl e | None \<Rightarrow> Inr ()))"

definition SIGNALING_DEFAULT_CAP_PER_SCOPE :: nat where
  "SIGNALING_DEFAULT_CAP_PER_SCOPE = 5"

section \<open>Creation requests\<close>

record rule_create =
  c_name :: string
  c_description :: "string option"
  c_condition_type :: string
  c_condition_config :: jobj
  c_action_type :: string
  c_action_config :: jobj
  c_scope_device_id :: "uuid option"
  c_enabled :: bool
  c_event_type :: "string option"
  c_trigger :: "string option"
  c_processor :: "string option"
  c_confidence_threshold :: real
  c_category_ids :: "uuid list"
  c_asset_label_filters :: json
  c_zone_label_filters :: json
  c_site_label_filters :: json
  c_integration_ids :: "uuid list option"

text \<open>The cross-field validator: fills in the pair of a signaling rule, rejects a contradicting one.\<close>

definition signaling_columns_match_condition_type :: "rule_create \<Rightarrow> py_exn + rule_create" where
  "signaling_columns_match_condition_type c =
     (case split_signaling_condition_type (c_condition_type c) of
        None \<Rightarrow>
          if c_event_type c \<noteq> None \<or> c_trigger c \<noteq> None
          then Inl (ValueError ''event_type/trigger may only be set on signaling rules'') else Inr c
      | Some (expected_event_type, expected_trigger) \<Rightarrow>
          if c_event_type c \<noteq> None \<and> c_event_type c \<noteq> Some expected_event_type
          then Inl (ValueError ''event_type does not match condition_type'')
          else if c_trigger c \<noteq> None \<and> c_trigger c \<noteq> Some expected_trigger
          then Inl (ValueError ''trigger does not match condition_type'')
          else Inr (c\<lparr>c_event_type := Some expected_event_type, c_trigger := Some expected_trigger\<rparr>))"

section \<open>The cap on active signaling rules\<close>

definition in_scope :: "uuid \<Rightarrow> string \<Rightarrow> uuid option \<Rightarrow> rule \<Rightarrow> bool" where
  "in_scope tenant_id et category_id r \<longleftrightarrow>
     r_tenant_id r = tenant_id \<and> enabled r \<and> event_type r = Some et \<and>
     (case category_id of None \<Rightarrow> category_ids r = [] | Some c \<Rightarrow> c \<in> set (category_ids r))"

definition count_active_signaling_rules_for_scope ::
    "rule list \<Rightarrow> uuid \<Rightarrow> string \<Rightarrow> uuid option \<Rightarrow> uuid option \<Rightarrow> nat" where
  "count_active_signaling_rules_for_scope rules tenant_id et category_id exclude_rule_id =
     length (filter (\<lambda>r. in_scope tenant_id et category_id r \<and>
       (case exclude_rule_id of None \<Rightarrow> True | Some x \<Rightarrow> r_id r \<noteq> x)) rules)"

fun enforce_scopes :: "rule list \<Rightarrow> uuid \<Rightarrow> string \<Rightarrow> uuid option \<Rightarrow> uuid option list \<Rightarrow> py_exn + unit" where
  "enforce_scopes rules tenant_id et exclude_rule_id [] = Inr ()"
| "enforce_scopes rules tenant_id et exclude_rule_id (cat_id # cats) =
     (let current = count_active_signaling_rules_for_scope rules tenant_id et cat_id exclude_rule_id in
      if current \<ge> SIGNALING_DEFAULT_CAP_PER_SCOPE then Inl (OtherError ''SignalingScopeCapExceededError'')
      else enforce_scopes rules tenant_id et exclude_rule_id cats)"

definition scopes_of :: "uuid list \<Rightarrow> uuid option list" where
  "scopes_of cats = (if cats = [] then [None] else map Some cats)"

definition enforce_signaling_cap ::
    "rule list \<Rightarrow> uuid \<Rightarrow> string option \<Rightarrow> uuid list \<Rightarrow> bool \<Rightarrow> uuid option \<Rightarrow> py_exn + unit" where
  "enforce_signaling_cap rules tenant_id et_opt cats is_enabled exclude_rule_id =
     (case et_opt of
        None \<Rightarrow> Inr ()
      | Some et \<Rightarrow> if \<not> is_enabled then Inr ()
                  else enforce_scopes rules tenant_id et exclude_rule_id (scopes_of cats))"

section \<open>Operations on the rules table\<close>

text \<open>\<open>new_id\<close> is the fresh \<open>uuid4\<close>, \<open>now\<close> the server default of the timestamps.\<close>

definition row_of_create :: "uuid \<Rightarrow> datetime \<Rightarrow> uuid \<Rightarrow> rule_create \<Rightarrow> rule" where
  "row_of_create new_id now tenant_id c =
     \<lparr>r_id = new_id, r_tenant_id = tenant_id, r_name = c_name c, r_description = c_description c,
      condition_type = c_condition_type c, condition_config = c_condition_config c,
      action_type = c_action_type c, action_config = c_action_config c,
      scope_device_id = c_scope_device_id c, enabled = c_enabled c, r_created_at = now, r_updated_at = now,
      event_type = c_event_type c, trigger = c_trigger c, processor = c_processor c,
      confidence_threshold = c_confidence_threshold c, category_ids = c_category_ids c,
      asset_label_filters = c_asset_label_filters c, zone_label_filters = c_zone_label_filters c,
      site_label_filters = c_site_label_filters c, integration_ids = c_integration_ids c\<rparr>"

definition create_rule ::
    "(string \<Rightarrow> jobj \<Rightarrow> py_exn option) \<Rightarrow> uuid \<Rightarrow> datetime \<Rightarrow> uuid \<Rightarrow> rule_create \<Rightarrow> bool \<Rightarrow> rule list
      \<Rightarrow> py_exn + rule \<times> rule list" where
  "create_rule model_validate new_id now tenant_id c allow_cap_override rules =
     and_then (validate_signaling_condition_config model_validate (c_condition_type c) (c_condition_config c)) (\<lambda>_.
     and_then (if allow_cap_override then Inr ()
               else enforce_signaling_cap rules tenant_id (c_event_type c) (c_category_ids c) (c_enabled c) None) (\<lambda>_.
       let row = row_of_create new_id now tenant_id c in Inr (rule_to_response row, rules @ [row])))"

definition find_rule :: "rule list \<Rightarrow> uuid \<Rightarrow> uuid \<Rightarrow> rule option" where
  "find_rule rules tenant_id rule_id = find (\<lambda>r. r_id r = rule_id \<and> r_tenant_id r = tenant_id) rules"

definition get_rule :: "rule list \<Rightarrow> uuid \<Rightarrow> uuid \<Rightarrow> rule option" where
  "get_rule rules tenant_id rule_id = map_option rule_to_response (find_rule rules tenant_id rule_id)"

text \<open>\<open>order_by(created_at.desc())\<close>: equal keys stay in table order, which PostgreSQL leaves open.\<close>

definition list_rules :: "rule list \<Rightarrow> uuid \<Rightarrow> bool \<Rightarrow> string option \<Rightarrow> rule list" where
  "list_rules rules tenant_id enabled_only kind =
     map rule_to_response (filter (\<lambda>r.
         (enabled_only \<longrightarrow> enabled r) \<and> (kind = Some ''signaling'' \<longrightarrow> event_type r \<noteq> None) \<and>
         (kind = Some ''legacy'' \<longrightarrow> event_type r = None))
       (sort_key (\<lambda>r. - r_created_at r) (filter (\<lambda>r. r_tenant_id r = tenant_id) rules)))"

text \<open>
  A patch: \<open>None\<close> is a field that was not sent, \<open>Some None\<close> an explicit \<open>null\<close>, which a column that is
  not nullable rejects when the row is flushed.
\<close>

record rule_update =
  u_name :: "string option option"
  u_description :: "string option option"
  u_condition_type :: "string option option"
  u_condition_config :: "jobj option option"
  u_action_type :: "string option option"
  u_action_config :: "jobj option option"
  u_scope_device_id :: "uuid option option"
  u_enabled :: "bool option option"
  u_event_type :: "string option option"
  u_trigger :: "string option option"
  u_processor :: "string option option"
  u_confidence_threshold :: "real option option"
  u_category_ids :: "uuid list option option"
  u_asset_label_filters :: "json option"
  u_zone_label_filters :: "json option"
  u_site_label_filters :: "json option"
  u_integration_ids :: "uuid list option option"

definition violates_not_null :: "rule_update \<Rightarrow> bool" where
  "violates_not_null u \<longleftrightarrow>
     u_name u = Some None \<or> u_condition_type u = Some None \<or> u_condition_config u = Some None \<or>
     u_action_type u = Some None \<or> u_action_config u = Some None \<or> u_enabled u = Some None \<or>
     u_confidence_threshold u = Some None \<or> u_category_ids u = Some None"

definition apply_patch :: "rule_update \<Rightarrow> datetime \<Rightarrow> rule \<Rightarrow> rule" where
  "apply_patch u now r =
     \<lparr>r_id = r_id r, r_tenant_id = r_tenant_id r, r_name = patched_not_null (u_name u) (r_name r),
      r_description = patched (u_description u) (r_description r),
      condition_type = patched_not_null (u_condition_type u) (condition_type r),
      condition_config = patched_not_null (u_condition_config u) (condition_config r),
      action_type = patched_not_null (u_action_type u) (action_type r),
      action_config = patched_not_null (u_action_config u) (action_config r),
      scope_device_id = patched (u_scope_device_id u) (scope_device_id r),
      enabled = patched_not_null (u_enabled u) (enabled r),
      r_created_at = r_created_at r, r_updated_at = now,
      event_type = patched (u_event_type u) (event_type r), trigger = patched (u_trigger u) (trigger r),
      processor = patched (u_processor u) (processor r),
      confidence_threshold = patched_not_null (u_confidence_threshold u) (confidence_threshold r),
      category_ids = patched_not_null (u_category_ids u) (category_ids r),
      asset_label_filters = patched (u_asset_label_filters u) (asset_label_filters r),
      zone_label_filters = patched (u_zone_label_filters u) (zone_label_filters r),
      site_label_filters = patched (u_site_label_filters u) (site_label_filters r),
      integration_ids = patched (u_integration_ids u) (integration_ids r)\<rparr>"

definition check_patched_scope :: "rule list \<Rightarrow> uuid \<Rightarrow> rule \<Rightarrow> rule_update \<Rightarrow> bool \<Rightarrow> py_exn + unit" where
  "check_patched_scope rules tenant_id row u allow_cap_override =
     (let new_event_type = patched (u_event_type u) (event_type row);
          new_category_ids = patched (u_category_ids u) (Some (category_ids row));
          new_enabled = patched (u_enabled u) (Some (enabled row));
          scope_changed = (u_event_type u \<noteq> None \<or> u_category_ids u \<noteq> None \<or>
            (u_enabled u = Some (Some True) \<and> \<not> enabled row))
      in if scope_changed \<and> new_event_type \<noteq> None \<and> new_enabled = Some True \<and> \<not> allow_cap_override
         then (case new_category_ids of
             None \<Rightarrow> Inl TypeError
           | Some cats \<Rightarrow> enforce_signaling_cap rules tenant_id new_event_type cats True (Some (r_id row)))
         else Inr ())"

definition check_patched_config ::
    "(string \<Rightarrow> jobj \<Rightarrow> py_exn option) \<Rightarrow> rule \<Rightarrow> rule_update \<Rightarrow> py_exn + unit" where
  "check_patched_config model_validate row u =
     (if u_condition_type u = None \<and> u_condition_config u = None then Inr ()
      else case patched (u_condition_type u) (Some (condition_type row)) of
          None \<Rightarrow> Inl (OtherError ''AttributeError'')
        | Some ct \<Rightarrow>
            (case patched (u_condition_config u) (Some (condition_config row)) of
               None \<Rightarrow> if split_signaling_condition_type ct = None then Inr () else Inl (OtherError ''ValidationError'')
             | Some config \<Rightarrow> validate_signaling_condition_config model_validate ct config))"

definition update_rule ::
    "(string \<Rightarrow> jobj \<Rightarrow> py_exn option) \<Rightarrow> datetime \<Rightarrow> uuid \<Rightarrow> uuid \<Rightarrow> rule_update \<Rightarrow> bool \<Rightarrow> rule list
      \<Rightarrow> py_exn + rule option \<times> rule list" where
  "update_rule model_validate now tenant_id rule_id u allow_cap_override rules =
     (case find_rule rules tenant_id rule_id of
        None \<Rightarrow> Inr (None, rules)
      | Some row \<Rightarrow>
          and_then (check_patched_scope rules tenant_id row u allow_cap_override) (\<lambda>_.
          and_then (check_patched_config model_validate row u) (\<lambda>_.
            if violates_not_null u then Inl (OtherError ''IntegrityError'')
            else (let row' = apply_patch u now row in
              Inr (Some (rule_to_response row'), map (\<lambda>r. if r_id r = rule_id then row' else r) rules)))))"

definition delete_rule :: "uuid \<Rightarrow> uuid \<Rightarrow> rule list \<Rightarrow> bool \<times> rule list" where
  "delete_rule tenant_id rule_id rules =
     (find_rule rules tenant_id rule_id \<noteq> None,
      filter (\<lambda>r. \<not> (r_id r = rule_id \<and> r_tenant_id r = tenant_id)) rules)"

definition get_active_rules_for_device :: "rule list \<Rightarrow> uuid \<Rightarrow> uuid \<Rightarrow> rule list" where
  "get_active_rules_for_device rules tenant_id device_id =
     map rule_to_response (filter (\<lambda>r. r_tenant_id r = tenant_id \<and> enabled r \<and>
       (scope_device_id r = Some device_id \<or> scope_device_id r = None)) rules)"

definition get_active_rules_by_condition_type :: "rule list \<Rightarrow> uuid \<Rightarrow> string \<Rightarrow> rule list" where
  "get_active_rules_by_condition_type rules tenant_id ct =
     map rule_to_response (filter (\<lambda>r. r_tenant_id r = tenant_id \<and> enabled r \<and> condition_type r = ct) rules)"

definition get_active_rules_by_condition_types_all_tenants :: "rule list \<Rightarrow> string list \<Rightarrow> rule list" where
  "get_active_rules_by_condition_types_all_tenants rules cts =
     (if cts = [] then []
      else map rule_to_response (filter (\<lambda>r. enabled r \<and> condition_type r \<in> set cts) rules))"

section \<open>Alerts\<close>

definition create_alert ::
    "uuid \<Rightarrow> datetime \<Rightarrow> uuid \<Rightarrow> uuid \<Rightarrow> uuid option \<Rightarrow> string \<Rightarrow> alert_message
      \<Rightarrow> string \<times> string \<times> jobj \<times> jobj \<Rightarrow> alert" where
  "create_alert new_id now tenant_id rule_id device_id severity message alert_context =
     \<lparr>al_id = new_id, al_tenant_id = tenant_id, al_rule_id = rule_id, al_device_id = device_id,
      al_severity = severity, al_message = message, al_context = alert_context, al_status = ''open'',
      al_triggered_at = now\<rparr>"

definition acknowledge_alert :: "uuid \<Rightarrow> uuid \<Rightarrow> alert list \<Rightarrow> bool \<times> alert list" where
  "acknowledge_alert tenant_id alert_id alerts =
     (let hit = (\<lambda>a. al_id a = alert_id \<and> al_tenant_id a = tenant_id) in
      (\<exists>a \<in> set alerts. hit a, map (\<lambda>a. if hit a then a\<lparr>al_status := ''acknowledged''\<rparr> else a) alerts))"

section \<open>The cap is an invariant of the table\<close>

text \<open>One request on the table, none of them with the administrator's override.\<close>

inductive rules_step :: "(string \<Rightarrow> jobj \<Rightarrow> py_exn option) \<Rightarrow> rule list \<Rightarrow> rule list \<Rightarrow> bool" for model_validate where
  step_create: "new_id \<notin> r_id ` set rules \<Longrightarrow>
     create_rule model_validate new_id now tenant_id c False rules = Inr (r, rules') \<Longrightarrow>
     rules_step model_validate rules rules'"
| step_update: "update_rule model_validate now tenant_id rule_id u False rules = Inr (r, rules') \<Longrightarrow>
     rules_step model_validate rules rules'"
| step_delete: "rules_step model_validate rules (snd (delete_rule tenant_id rule_id rules))"

inductive_cases rules_step_cases: "rules_step model_validate rules rules'"

inductive rules_reachable :: "(string \<Rightarrow> jobj \<Rightarrow> py_exn option) \<Rightarrow> rule list \<Rightarrow> bool" for model_validate where
  reach_empty: "rules_reachable model_validate []"
| reach_step: "rules_reachable model_validate rules \<Longrightarrow> rules_step model_validate rules rules' \<Longrightarrow>
     rules_reachable model_validate rules'"

definition scope_count :: "rule list \<Rightarrow> uuid \<Rightarrow> string \<Rightarrow> uuid option \<Rightarrow> nat" where
  "scope_count rules t et c = length (filter (in_scope t et c) rules)"

definition cap_inv :: "rule list \<Rightarrow> bool" where
  "cap_inv rules \<longleftrightarrow> distinct (map r_id rules) \<and>
     (\<forall>t et c. scope_count rules t et c \<le> SIGNALING_DEFAULT_CAP_PER_SCOPE)"

lemma enforce_scopes_ok:
  "enforce_scopes rules t et x cats = Inr () \<Longrightarrow> c \<in> set cats \<Longrightarrow>
   count_active_signaling_rules_for_scope rules t et c x < SIGNALING_DEFAULT_CAP_PER_SCOPE"
  by (induction cats) (auto simp: Let_def not_le split: if_splits)

lemma in_scope_enforced:
  assumes "in_scope t et c r" and "enforce_signaling_cap rules (r_tenant_id r) (event_type r) (category_ids r) (enabled r) x = Inr ()"
  shows "count_active_signaling_rules_for_scope rules t et c x < SIGNALING_DEFAULT_CAP_PER_SCOPE"
proof -
  have "c \<in> set (scopes_of (category_ids r))"
    using assms(1) by (cases c) (auto simp: in_scope_def scopes_of_def)
  moreover have "enforce_scopes rules t et x (scopes_of (category_ids r)) = Inr ()"
    using assms by (simp add: in_scope_def enforce_signaling_cap_def)
  ultimately show ?thesis by (intro enforce_scopes_ok)
qed

lemma create_rule_cap:
  assumes "cap_inv rules" and "new_id \<notin> r_id ` set rules"
    and "create_rule mv new_id now t0 c0 False rules = Inr (r, rules')"
  shows "cap_inv rules'"
proof -
  let ?row = "row_of_create new_id now t0 c0"
  from assms(3) have rules': "rules' = rules @ [?row]"
    and ok: "enforce_signaling_cap rules t0 (c_event_type c0) (c_category_ids c0) (c_enabled c0) None = Inr ()"
    by (auto simp: create_rule_def and_then_eq_Inr Let_def)
  have "scope_count rules' t et c \<le> SIGNALING_DEFAULT_CAP_PER_SCOPE" for t et c
  proof (cases "in_scope t et c ?row")
    case True
    have "count_active_signaling_rules_for_scope rules t et c None < SIGNALING_DEFAULT_CAP_PER_SCOPE"
      by (rule in_scope_enforced [OF True]) (use ok in \<open>simp add: row_of_create_def\<close>)
    with True show ?thesis by (simp add: rules' scope_count_def count_active_signaling_rules_for_scope_def)
  next
    case False
    with assms(1) show ?thesis by (simp add: rules' scope_count_def cap_inv_def)
  qed
  with assms(1,2) show ?thesis by (auto simp: cap_inv_def rules' row_of_create_def)
qed

lemma replaced_row_count:
  assumes "distinct (map r_id rules)" and "row \<in> set rules"
  shows "length (filter P (map (\<lambda>r. if r_id r = r_id row then row' else r) rules))
    = length (filter (\<lambda>r. P r \<and> r_id r \<noteq> r_id row) rules) + (if P row' then 1 else 0)"
  using assms
proof (induction rules)
  case (Cons r rules)
  show ?case
  proof (cases "r_id r = r_id row")
    case True
    with Cons.prems have eq: "r = row" by (metis (no_types, lifting) distinct.simps(2) image_eqI list.set_map list.simps(9) set_ConsD)
    have other: "\<forall>x \<in> set rules. r_id x \<noteq> r_id row" using Cons.prems(1) True by (force simp: image_iff)
    then have "map (\<lambda>r. if r_id r = r_id row then row' else r) rules = rules" by (simp add: map_idI)
    moreover have "filter (\<lambda>r. P r \<and> r_id r \<noteq> r_id row) rules = filter P rules"
      using other by (intro filter_cong) auto
    ultimately show ?thesis using True by simp
  next
    case False
    with Cons show ?thesis by auto
  qed
qed simp

lemma count_without_row:
  assumes "row \<in> set rules"
  shows "length (filter (\<lambda>r. P r \<and> r_id r \<noteq> r_id row) rules) + (if P row then 1 else 0) \<le> length (filter P rules)"
  using assms
proof (induction rules)
  case (Cons r rules)
  have le: "length (filter (\<lambda>r. P r \<and> r_id r \<noteq> r_id row) rules) \<le> length (filter P rules)"
    by (induction rules) auto
  from Cons le show ?case by (cases "r = row") auto
qed simp

lemma update_rule_cap:
  assumes inv: "cap_inv rules" and upd: "update_rule mv now t0 rid u False rules = Inr (r, rules')"
  shows "cap_inv rules'"
proof (cases "find_rule rules t0 rid")
  case None
  with assms show ?thesis by (simp add: update_rule_def)
next
  case (Some row)
  then have row: "row \<in> set rules" "r_id row = rid" "r_tenant_id row = t0"
    by (auto simp: find_rule_def find_Some_iff)
  define row' where "row' = apply_patch u now row"
  from upd Some have checks: "check_patched_scope rules t0 row u False = Inr ()" "\<not> violates_not_null u"
    and rules': "rules' = map (\<lambda>r. if r_id r = r_id row then row' else r) rules"
    by (auto simp: update_rule_def and_then_eq_Inr Let_def row'_def row(2) split: if_splits)
  have dist: "distinct (map r_id rules)" using inv by (simp add: cap_inv_def)
  have id': "r_id row' = r_id row" "r_tenant_id row' = t0" by (simp_all add: row'_def apply_patch_def row(3))
  have cols: "event_type row' = patched (u_event_type u) (event_type row)"
    "Some (enabled row') = patched (u_enabled u) (Some (enabled row))"
    "Some (category_ids row') = patched (u_category_ids u) (Some (category_ids row))"
    using checks(2)
    by (auto simp: row'_def apply_patch_def violates_not_null_def patched_def patched_not_null_def split: option.splits)
  have "scope_count rules' t et c \<le> SIGNALING_DEFAULT_CAP_PER_SCOPE" for t et c
  proof -
    have old: "scope_count rules t et c \<le> SIGNALING_DEFAULT_CAP_PER_SCOPE" using inv by (simp add: cap_inv_def)
    have count: "scope_count rules' t et c
        = count_active_signaling_rules_for_scope rules t et c (Some (r_id row)) + (if in_scope t et c row' then 1 else 0)"
      using replaced_row_count [OF dist row(1)]
      by (simp add: rules' scope_count_def count_active_signaling_rules_for_scope_def)
    have drop: "count_active_signaling_rules_for_scope rules t et c (Some (r_id row)) + (if in_scope t et c row then 1 else 0)
        \<le> scope_count rules t et c"
      using count_without_row [OF row(1)] by (simp add: scope_count_def count_active_signaling_rules_for_scope_def)
    show ?thesis
    proof (cases "in_scope t et c row' \<and> \<not> in_scope t et c row")
      case False
      with count drop old show ?thesis by (auto split: if_splits)
    next
      case True
      then have now': "event_type row' \<noteq> None" "enabled row'" by (auto simp: in_scope_def)
      have changed: "u_event_type u \<noteq> None \<or> u_category_ids u \<noteq> None \<or> (u_enabled u = Some (Some True) \<and> \<not> enabled row)"
      proof (rule ccontr)
        assume "\<not> ?thesis"
        with cols True row(3) id'(2) show False
          by (auto simp: in_scope_def patched_def split: option.splits)
      qed
      have "enforce_signaling_cap rules t0 (event_type row') (category_ids row') (enabled row') (Some (r_id row)) = Inr ()"
        using checks(1) changed now' cols(1) cols(2,3) [symmetric] by (auto simp: check_patched_scope_def Let_def)
      then have "count_active_signaling_rules_for_scope rules t et c (Some (r_id row)) < SIGNALING_DEFAULT_CAP_PER_SCOPE"
        by (intro in_scope_enforced [OF conjunct1 [OF True]]) (simp add: id'(2))
      then show ?thesis using count True by simp
    qed
  qed
  moreover have "map r_id rules' = map r_id rules"
    using id'(1) by (simp add: rules')
  ultimately show ?thesis using dist by (simp add: cap_inv_def)
qed

lemma rules_step_cap: "rules_step mv rules rules' \<Longrightarrow> cap_inv rules \<Longrightarrow> cap_inv rules'"
proof (erule rules_step_cases)
  fix t i
  assume inv: "cap_inv rules" and "rules' = snd (delete_rule t i rules)"
  then have eq: "rules' = filter (\<lambda>r. \<not> (r_id r = i \<and> r_tenant_id r = t)) rules" by (simp add: delete_rule_def)
  have "scope_count rules' t' et c \<le> scope_count rules t' et c" for t' et c
    unfolding eq scope_count_def by (induction rules) auto
  with inv show "cap_inv rules'"
    unfolding cap_inv_def by (metis (no_types, lifting) distinct_map_filter eq le_trans)
qed (auto intro: create_rule_cap update_rule_cap)

text \<open>C5: whatever sequence of creations, updates and deletions is made without the administrator's override,
  no scope (tenant, event type, category or broadcast) ever holds more than five active signaling rules.\<close>

theorem signaling_cap_invariant:
  assumes "rules_reachable model_validate rules"
  shows "count_active_signaling_rules_for_scope rules tenant_id et category_id None \<le> SIGNALING_DEFAULT_CAP_PER_SCOPE"
proof -
  from assms have "cap_inv rules"
  proof (induction rule: rules_reachable.induct)
    case reach_empty
    show ?case by (simp add: cap_inv_def scope_count_def)
  next
    case (reach_step rules rules')
    show ?case by (rule rules_step_cap [OF reach_step(2,3)])
  qed
  then show ?thesis by (simp add: cap_inv_def scope_count_def count_active_signaling_rules_for_scope_def)
qed

definition demo_create :: rule_create where
  "demo_create = \<lparr>c_name = ''r'', c_description = None, c_condition_type = ''signaling.location.periodic'',
     c_condition_config = [(''cadence_minutes'', JInt 5)], c_action_type = ''webhook'', c_action_config = [],
     c_scope_device_id = None, c_enabled = True, c_event_type = Some ''location'', c_trigger = Some ''periodic'',
     c_processor = None, c_confidence_threshold = 0, c_category_ids = [], c_asset_label_filters = JNull,
     c_zone_label_filters = JNull, c_site_label_filters = JNull, c_integration_ids = None\<rparr>"

definition demo_rule :: rule where
  "demo_rule = row_of_create 4 0 1 demo_create"

lemma demo_reachable: "rules_reachable (\<lambda>_ _. None) [demo_rule]"
proof (rule reach_step [OF reach_empty], rule step_create [where new_id = 4 and now = 0 and tenant_id = 1 and c = demo_create])
  show "create_rule (\<lambda>_ _. None) 4 0 1 demo_create False [] = Inr (rule_to_response demo_rule, [demo_rule])"
    by (simp add: create_rule_def demo_create_def validate_signaling_condition_config_def enforce_signaling_cap_def
        scopes_of_def count_active_signaling_rules_for_scope_def SIGNALING_DEFAULT_CAP_PER_SCOPE_def demo_rule_def
        Let_def split: option.splits)
qed simp

theorem signaling_cap_invariant_witness:
  "count_active_signaling_rules_for_scope [demo_rule] 1 ''location'' None None \<le> SIGNALING_DEFAULT_CAP_PER_SCOPE"
  by (rule signaling_cap_invariant [OF demo_reachable])

text \<open>
  The validator of creation requests ties \<open>event_type\<close> to the condition type, so that the cap cannot be
  bypassed by a signaling rule without one.  A patch is not checked: an explicit \<open>null\<close> for \<open>event_type\<close>
  leaves a signaling rule that is enabled, is evaluated by its condition type and is counted in no scope.
\<close>

definition empty_patch :: rule_update where
  "empty_patch = \<lparr>u_name = None, u_description = None, u_condition_type = None, u_condition_config = None,
     u_action_type = None, u_action_config = None, u_scope_device_id = None, u_enabled = None, u_event_type = None,
     u_trigger = None, u_processor = None, u_confidence_threshold = None, u_category_ids = None,
     u_asset_label_filters = None, u_zone_label_filters = None, u_site_label_filters = None, u_integration_ids = None\<rparr>"

text \<open>For every rule of the tenant, the patch \<open>event_type = null\<close> is accepted and only clears that column;
  the rule then occupies no scope of the cap although it is still enabled and still selected by its
  condition type.\<close>

theorem patch_escapes_cap:
  assumes "find_rule rules t rid = Some row" and "enabled row"
  shows "\<exists>r rules'. update_rule mv now t rid (empty_patch\<lparr>u_event_type := Some None\<rparr>) False rules = Inr (Some r, rules')
     \<and> (\<forall>et c. \<not> in_scope t et c r)
     \<and> r_id r \<in> r_id ` set (get_active_rules_by_condition_type rules' t (condition_type row))"
proof -
  let ?u = "empty_patch\<lparr>u_event_type := Some None\<rparr>"
  let ?row' = "apply_patch ?u now row"
  let ?rules' = "map (\<lambda>r. if r_id r = rid then ?row' else r) rules"
  from assms(1) have row: "row \<in> set rules" "r_id row = rid" "r_tenant_id row = t"
    by (auto simp: find_rule_def find_Some_iff)
  have upd: "update_rule mv now t rid ?u False rules = Inr (Some (rule_to_response ?row'), ?rules')"
    using assms(1) by (simp add: update_rule_def check_patched_scope_def check_patched_config_def violates_not_null_def
        empty_patch_def patched_def Let_def)
  have "?row' \<in> set ?rules'" using row by force
  moreover have "r_tenant_id ?row' = t" "enabled ?row'" "condition_type ?row' = condition_type row"
    using assms(2) row(3) by (simp_all add: apply_patch_def patched_not_null_def empty_patch_def)
  ultimately have "rule_to_response ?row' \<in> set (get_active_rules_by_condition_type ?rules' t (condition_type row))"
    by (auto simp: get_active_rules_by_condition_type_def)
  moreover have "\<not> in_scope t et c (rule_to_response ?row')" for et c
    by (simp add: in_scope_def rule_to_response_def apply_patch_def patched_def empty_patch_def)
  ultimately show ?thesis using upd by blast
qed

theorem patch_escapes_cap_witness:
  "\<exists>r rules'. update_rule (\<lambda>_ _. None) 9 1 4 (empty_patch\<lparr>u_event_type := Some None\<rparr>) False [demo_rule] = Inr (Some r, rules')
     \<and> (\<forall>et c. \<not> in_scope 1 et c r)
     \<and> r_id r \<in> r_id ` set (get_active_rules_by_condition_type rules' 1 (condition_type demo_rule))"
  by (rule patch_escapes_cap)
     (simp_all add: find_rule_def demo_rule_def row_of_create_def demo_create_def)

end
