(* ===== verification/Evaluator.thy ===== *)
theory Evaluator
  imports Rules
begin

text \<open>
  The rule engine (\<open>src/tagpulse/rules/evaluator.py\<close>): the conditions, the cooldown table and the four event
  handlers.  An environment holds what a handler reads: the rules table, the names of assets and
  zones, fresh identifiers, and the clock, which is read once per handler.  A handler returns the
  exception that ended it, if any; then the alerts of its transaction are rolled back, while the
  cooldown table, the meter and the published events stay as they are.
\<close>

section \<open>Conditions\<close>

text \<open>\<open>float()\<close> of both operands inside \<open>try ... except (ValueError, TypeError): return False\<close>.\<close>

definition both_floats :: "json \<Rightarrow> json \<Rightarrow> py_exn + (pfloat \<times> pfloat) option" where
  "both_floats a b =
     (case and_then (to_float a) (\<lambda>x. and_then (to_float b) (\<lambda>y. Inr (x, y))) of
        Inr xy \<Rightarrow> Inr (Some xy)
      | Inl e \<Rightarrow> if value_or_type_error e then Inr None else Inl e)"

definition compare_op :: "json \<Rightarrow> pfloat \<Rightarrow> pfloat \<Rightarrow> bool" where
  "compare_op operator actual threshold =
     (if py_eq operator (JStr ''gt'') then pf_less threshold actual
      else if py_eq operator (JStr ''lt'') then pf_less actual threshold
      else if py_eq operator (JStr ''gte'') then pf_le threshold actual
      else if py_eq operator (JStr ''lte'') then pf_le actual threshold
      else if py_eq operator (JStr ''eq'') then pf_eq actual threshold
      else False)"

definition eval_threshold :: "jobj \<Rightarrow> jobj \<Rightarrow> py_exn + bool" where
  "eval_threshold config payload =
     (let field = jget_or config ''field'' (JStr ''''); operator = jget_or config ''operator'' (JStr '''');
          threshold = jget config ''value''
      in if threshold = JNull then Inr False
         else and_then (get_json_key payload field) (\<lambda>actual.
           if actual = JNull then Inr False
           else and_then (both_floats actual threshold) (\<lambda>fs. case fs of
               None \<Rightarrow> Inr False
             | Some (actual_f, threshold_f) \<Rightarrow> Inr (compare_op operator actual_f threshold_f))))"

definition eval_absence :: "jobj \<Rightarrow> jobj \<Rightarrow> bool" where
  "eval_absence config payload =
     (let monitored_tag = jget config ''tag_id'' in
      if \<not> truthy monitored_tag then False else \<not> py_eq (jget payload ''tag_id'') monitored_tag)"

definition eval_rate_change :: "jobj \<Rightarrow> jobj \<Rightarrow> py_exn + bool" where
  "eval_rate_change config payload =
     (let change_percent = jget config ''change_percent''; signal = jget payload ''signal_strength'' in
      if change_percent = JNull then Inr False
      else if signal = JNull then Inr False
      else and_then (both_floats signal change_percent) (\<lambda>fs. case fs of
          None \<Rightarrow> Inr False
        | Some (signal_f, change_f) \<Rightarrow>
            (let baseline = jget_or config ''baseline'' (JFloat (Fin (- 50))) in
             case to_float baseline of
               Inl e \<Rightarrow> if value_or_type_error e then Inr False else Inl e
             | Inr baseline_f \<Rightarrow>
                 if pf_eq baseline_f (Fin 0) then Inr False
                 else (let deviation = pf_scale 100 (pf_abs (pf_div (pf_add signal_f (pf_neg baseline_f)) baseline_f))
                       in Inr (pf_less change_f deviation)))))"

definition eval_telemetry_threshold :: "jobj \<Rightarrow> jobj \<Rightarrow> py_exn + bool" where
  "eval_telemetry_threshold config payload =
     (let pinned = jget config ''subject_id''; threshold = jget config ''value''; actual = jget payload ''metric_value'' in
      if \<not> py_eq (jget config ''subject_kind'') (jget payload ''subject_kind'') then Inr False
      else if \<not> py_eq (jget config ''metric_name'') (jget payload ''metric_name'') then Inr False
      else if truthy pinned \<and> \<not> py_eq pinned (jget payload ''subject_id'') then Inr False
      else if threshold = JNull then Inr False
      else if actual = JNull then Inr False
      else and_then (both_floats actual threshold) (\<lambda>fs. case fs of
          None \<Rightarrow> Inr False
        | Some (actual_f, threshold_f) \<Rightarrow>
            Inr (compare_op (jget_or config ''operator'' (JStr '''')) actual_f threshold_f)))"

definition evaluate_condition :: "string \<Rightarrow> jobj \<Rightarrow> jobj \<Rightarrow> py_exn + bool" where
  "evaluate_condition ct config payload =
     (if ct = ''threshold'' then eval_threshold config payload
      else if ct = ''rate_change'' then eval_rate_change config payload
      else if ct = ''absence'' then Inr (eval_absence config payload)
      else Inr False)"

section \<open>The cooldown table\<close>

type_synonym cooldown_key = "uuid \<times> uuid \<times> json"
type_synonym cooldowns = "(cooldown_key, datetime) pydict"

definition RULE_COOLDOWN_MAX :: nat where
  "RULE_COOLDOWN_MAX = 16384"

definition cooldown_active :: "cooldown_key \<Rightarrow> datetime \<Rightarrow> cooldowns \<Rightarrow> bool \<times> cooldowns" where
  "cooldown_active key now tbl =
     (case map_of tbl key of
        None \<Rightarrow> (False, tbl)
      | Some expires \<Rightarrow> if expires \<le> now then (False, dict_pop key tbl) else (True, tbl))"

text \<open>A sum beyond the largest \<open>datetime\<close> raises, after the eviction.\<close>

definition set_cooldown :: "cooldown_key \<Rightarrow> datetime \<Rightarrow> int \<Rightarrow> cooldowns \<Rightarrow> py_exn option \<times> cooldowns" where
  "set_cooldown key now secs tbl =
     (if secs \<le> 0 then (None, tbl)
      else if now + seconds secs > DATETIME_MAX
      then (Some OverflowError,
            if key \<notin> set (dict_keys tbl) \<and> length tbl \<ge> RULE_COOLDOWN_MAX
            then (case tbl of [] \<Rightarrow> tbl | (oldest, _) # _ \<Rightarrow> dict_pop oldest tbl) else tbl)
      else (None, bounded_set RULE_COOLDOWN_MAX key (now + seconds secs) tbl))"

section \<open>Handlers\<close>

record alert_event =
  pe_alert :: alert
  pe_action_type :: string
  pe_action_config :: jobj

record eval_env =
  e_rules :: "rule list"
  e_asset_name :: "uuid \<Rightarrow> uuid \<Rightarrow> string option" \<comment> \<open>tenant, asset; \<open>None\<close> also when the query fails\<close>
  e_zone_name :: "uuid \<Rightarrow> uuid \<Rightarrow> string option"
  e_uuid4 :: "nat \<Rightarrow> uuid"
  e_now :: datetime

record eval_state =
  es_alerts :: "alert list"
  es_cooldown :: cooldowns
  es_meter :: "(uuid \<times> string) list"
  es_published :: "alert_event list"

definition meter :: "uuid \<Rightarrow> string \<Rightarrow> eval_state \<Rightarrow> eval_state" where
  "meter tenant_id kind st = st\<lparr>es_meter := es_meter st @ [(tenant_id, kind)]\<rparr>"

text \<open>Create the alert, tick the meter, publish \<open>ALERT_TRIGGERED\<close>.\<close>

definition fire_alert ::
    "eval_env \<Rightarrow> uuid \<Rightarrow> rule \<Rightarrow> uuid option \<Rightarrow> string \<Rightarrow> alert_message \<Rightarrow> jobj \<Rightarrow> eval_state \<Rightarrow> eval_state" where
  "fire_alert env tenant_id rule device_id severity message payload st =
     (let alert = create_alert (e_uuid4 env (length (es_published st))) (e_now env) tenant_id (r_id rule) device_id
            severity message (r_name rule, condition_type rule, condition_config rule, payload);
          st1 = meter tenant_id ''alerts_fired'' (st\<lparr>es_alerts := es_alerts st @ [alert]\<rparr>)
      in st1\<lparr>es_published := es_published st1 @
           [\<lparr>pe_alert = alert, pe_action_type = action_type rule, pe_action_config = action_config rule\<rparr>]\<rparr>)"

text \<open>
  The block that three handlers share: nothing while the cooldown is active; else the cooldown is read
  from the rule and set before the alert fires.
\<close>

definition fire_with_cooldown ::
    "eval_env \<Rightarrow> uuid \<Rightarrow> rule \<Rightarrow> json \<Rightarrow> int \<Rightarrow> string \<Rightarrow> (unit \<Rightarrow> py_exn + alert_message) \<Rightarrow> jobj \<Rightarrow> eval_state
      \<Rightarrow> py_exn option \<times> eval_state" where
  "fire_with_cooldown env tenant_id rule subject default_s severity message payload st =
     (let key = (tenant_id, r_id rule, subject);
          (active, tbl) = cooldown_active key (e_now env) (es_cooldown st);
          st1 = st\<lparr>es_cooldown := tbl\<rparr>
      in if active then (None, st1)
         else case to_int (jget_or (condition_config rule) ''cooldown_s'' (JInt default_s)) of
           Inl e \<Rightarrow> (Some e, st1)
         | Inr cooldown_s \<Rightarrow>
             (let (exn, tbl2) = set_cooldown key (e_now env) cooldown_s tbl; st2 = st\<lparr>es_cooldown := tbl2\<rparr>
              in case exn of
                   Some e \<Rightarrow> (Some e, st2)
                 | None \<Rightarrow> (case message () of
                       Inl e \<Rightarrow> (Some e, st2)
                     | Inr msg \<Rightarrow> (None, fire_alert env tenant_id rule None severity msg payload st2))))"

fun for_each :: "('a \<Rightarrow> 's \<Rightarrow> py_exn option \<times> 's) \<Rightarrow> 'a list \<Rightarrow> 's \<Rightarrow> py_exn option \<times> 's" where
  "for_each f [] st = (None, st)"
| "for_each f (x # xs) st = (case f x st of (Some e, st') \<Rightarrow> (Some e, st') | (None, st') \<Rightarrow> for_each f xs st')"

text \<open>The session's context manager: an exception discards the alerts of the transaction.\<close>

definition in_transaction :: "(eval_state \<Rightarrow> py_exn option \<times> eval_state) \<Rightarrow> eval_state \<Rightarrow> py_exn option \<times> eval_state" where
  "in_transaction body st =
     (case body st of
        (None, st') \<Rightarrow> (None, st')
      | (Some e, st') \<Rightarrow> (Some e, st'\<lparr>es_alerts := es_alerts st\<rparr>))"

definition on_tag_read :: "eval_env \<Rightarrow> jobj \<Rightarrow> eval_state \<Rightarrow> py_exn option \<times> eval_state" where
  "on_tag_read env payload st =
     (if truthy (jget payload ''backfill'') then (None, st)
      else if \<not> truthy (jget payload ''tenant_id'') \<or> \<not> truthy (jget payload ''device_id'') then (None, st)
      else case uuid_of_json (jget payload ''tenant_id'') of
        Inl e \<Rightarrow> (Some e, st)
      | Inr tenant_id \<Rightarrow> (case uuid_of_json (jget payload ''device_id'') of
          Inl e \<Rightarrow> (Some e, st)
        | Inr device_id \<Rightarrow>
            in_transaction (for_each (\<lambda>rule st.
              let st1 = meter tenant_id ''rule_evaluations'' st in
              case evaluate_condition (condition_type rule) (condition_config rule) payload of
                Inl e \<Rightarrow> (Some e, st1)
              | Inr False \<Rightarrow> (None, st1)
              | Inr True \<Rightarrow> (None, fire_alert env tenant_id rule (Some device_id) ''warning''
                    (ConditionMet (r_name rule) (condition_type rule)) payload st1))
              (get_active_rules_for_device (e_rules env) tenant_id device_id)) st))"

definition lookup_subject_name :: "eval_env \<Rightarrow> uuid \<Rightarrow> json \<Rightarrow> json \<Rightarrow> py_exn + string option" where
  "lookup_subject_name env tenant_id subject_kind subject_id_str =
     (if \<not> py_eq subject_kind (JStr ''asset'') then Inr None
      else case uuid_of_json subject_id_str of
        Inl (ValueError _) \<Rightarrow> Inr None
      | Inl e \<Rightarrow> Inl e
      | Inr sid \<Rightarrow> Inr (e_asset_name env tenant_id sid))"

definition lookup_zone_name :: "eval_env \<Rightarrow> uuid \<Rightarrow> json \<Rightarrow> py_exn + string option" where
  "lookup_zone_name env tenant_id zone_id_str =
     (case uuid_of_json zone_id_str of
        Inl (ValueError _) \<Rightarrow> Inr None
      | Inl e \<Rightarrow> Inl e
      | Inr zid \<Rightarrow> Inr (e_zone_name env tenant_id zid))"

text \<open>\<open>name or fallback\<close>.\<close>

definition label_or :: "string option \<Rightarrow> json \<Rightarrow> json" where
  "label_or name fallback = (case name of None \<Rightarrow> fallback | Some s \<Rightarrow> if s = [] then fallback else JStr s)"

definition or_json :: "json \<Rightarrow> json \<Rightarrow> json" where
  "or_json a b = (if truthy a then a else b)"

definition eval_zone_entered_exited ::
    "eval_env \<Rightarrow> uuid \<Rightarrow> json \<Rightarrow> json \<Rightarrow> json \<Rightarrow> json \<Rightarrow> jobj \<Rightarrow> eval_state \<Rightarrow> py_exn option \<times> eval_state" where
  "eval_zone_entered_exited env tenant_id subject_id_str subject_kind from_zone_id to_zone_id payload st =
     (case lookup_subject_name env tenant_id subject_kind subject_id_str of
        Inl e \<Rightarrow> (Some e, st)
      | Inr subject_name \<Rightarrow>
          for_each (\<lambda>(ct, target_zone).
            if target_zone = JNull then (\<lambda>st. (None, st))
            else for_each (\<lambda>rule st.
              let st1 = meter tenant_id ''rule_evaluations'' st;
                  allowed_kinds = jget (condition_config rule) ''subject_kinds''
              in if \<not> py_eq (jget (condition_config rule) ''zone_id'') target_zone then (None, st1)
                 else case (if truthy allowed_kinds \<and> subject_kind \<noteq> JNull
                            then py_in subject_kind allowed_kinds else Inr True) of
                   Inl e \<Rightarrow> (Some e, st1)
                 | Inr False \<Rightarrow> (None, st1)
                 | Inr True \<Rightarrow>
                     fire_with_cooldown env tenant_id rule subject_id_str 60 ''info''
                       (\<lambda>_. and_then (lookup_zone_name env tenant_id target_zone) (\<lambda>zone_name.
                          Inr (ZoneTransition (r_name rule) (or_json subject_kind (JStr ''subject''))
                            (label_or subject_name subject_id_str) subject_id_str (ct = ''zone.entered'')
                            (label_or zone_name target_zone) target_zone)))
                       payload st1)
              (get_active_rules_by_condition_type (e_rules env) tenant_id ct))
            [(''zone.entered'', to_zone_id), (''zone.exited'', from_zone_id)] st)"

text \<open>\<open>set(config.get("allowed_zone_ids") or [])\<close>.\<close>

definition zone_set :: "json \<Rightarrow> py_exn + json list" where
  "zone_set v =
     (if \<not> truthy v then Inr []
      else and_then (json_iter v) (\<lambda>xs. if list_all hashable xs then Inr xs else Inl TypeError))"

definition eval_stock_unexpected_in_zone ::
    "eval_env \<Rightarrow> uuid \<Rightarrow> jobj \<Rightarrow> json \<Rightarrow> json \<Rightarrow> eval_state \<Rightarrow> py_exn option \<times> eval_state" where
  "eval_stock_unexpected_in_zone env tenant_id payload subject_id_str to_zone_id st =
     (case lookup_zone_name env tenant_id to_zone_id of
        Inl e \<Rightarrow> (Some e, st)
      | Inr zone_name \<Rightarrow>
          for_each (\<lambda>rule st.
            let st1 = meter tenant_id ''rule_evaluations'' st;
                config_product = jget (condition_config rule) ''product_id''
            in if truthy config_product \<and> \<not> py_eq config_product (jget payload ''product_id'') then (None, st1)
               else case zone_set (jget (condition_config rule) ''allowed_zone_ids'') of
                 Inl e \<Rightarrow> (Some e, st1)
               | Inr allowed \<Rightarrow>
                   if allowed = [] then (None, st1)
                   else if \<not> hashable to_zone_id then (Some TypeError, st1)
                   else if list_ex (\<lambda>z. py_eq to_zone_id z) allowed then (None, st1)
                   else (None, fire_alert env tenant_id rule None ''warning''
                     (StockUnexpected (r_name rule) (or_json subject_id_str (JStr ''<unknown>''))
                       (label_or zone_name to_zone_id) to_zone_id) payload st1))
            (get_active_rules_by_condition_type (e_rules env) tenant_id ''stock.unexpected_in_zone'') st)"

definition on_subject_zone_changed :: "eval_env \<Rightarrow> jobj \<Rightarrow> eval_state \<Rightarrow> py_exn option \<times> eval_state" where
  "on_subject_zone_changed env payload st =
     (if truthy (jget payload ''backfill'') then (None, st)
      else if \<not> truthy (jget payload ''tenant_id'') then (None, st)
      else case uuid_of_json (jget payload ''tenant_id'') of
        Inl e \<Rightarrow> (Some e, st)
      | Inr tenant_id \<Rightarrow>
          (let subject_kind = jget payload ''subject_kind''; subject_id_str = jget payload ''subject_id'';
               to_zone_id = jget payload ''to_zone_id''
           in in_transaction (for_each (\<lambda>part. part)
                [\<lambda>st. if truthy subject_id_str
                     then eval_zone_entered_exited env tenant_id subject_id_str subject_kind
                       (jget payload ''from_zone_id'') to_zone_id payload st
                     else (None, st),
                 \<lambda>st. if py_eq subject_kind (JStr ''stock_item'') \<and> to_zone_id \<noteq> JNull
                     then eval_stock_unexpected_in_zone env tenant_id payload subject_id_str to_zone_id st
                     else (None, st)]) st))"

definition on_telemetry_recorded :: "eval_env \<Rightarrow> jobj \<Rightarrow> eval_state \<Rightarrow> py_exn option \<times> eval_state" where
  "on_telemetry_recorded env payload st =
     (if truthy (jget payload ''backfill'') then (None, st)
      else if \<not> truthy (jget payload ''tenant_id'') then (None, st)
      else case uuid_of_json (jget payload ''tenant_id'') of
        Inl e \<Rightarrow> (case e of ValueError _ \<Rightarrow> (None, st) | _ \<Rightarrow> (Some e, st))
      | Inr tenant_id \<Rightarrow>
          (let subject_id_str = jget payload ''subject_id'' in
           if \<not> truthy subject_id_str then (None, st)
           else (let subject_kind = or_json (jget payload ''subject_kind'') (JStr ''device'');
                     metric_name = or_json (jget payload ''metric_name'') (JStr '''')
                 in in_transaction (for_each (\<lambda>rule st.
                   let st1 = meter tenant_id ''rule_evaluations'' st in
                   case eval_telemetry_threshold (condition_config rule) payload of
                     Inl e \<Rightarrow> (Some e, st1)
                   | Inr False \<Rightarrow> (None, st1)
                   | Inr True \<Rightarrow> fire_with_cooldown env tenant_id rule subject_id_str 300 ''warning''
                       (\<lambda>_. Inr (TelemetryBreach (r_name rule) subject_kind subject_id_str metric_name
                          (jget payload ''metric_value'') (jget_or (condition_config rule) ''operator'' (JStr ''''))
                          (jget (condition_config rule) ''value''))) payload st1)
                   (get_active_rules_by_condition_type (e_rules env) tenant_id ''telemetry.threshold'')) st)))"

definition on_inference_types :: "string list" where
  "on_inference_types = [''signaling.location.on_inference'', ''signaling.geolocation.on_inference'',
     ''signaling.temperature.on_inference'']"

definition min_confidence :: "jobj \<Rightarrow> py_exn + pfloat" where
  "min_confidence config =
     (case to_float (jget_or config ''min_confidence'' (JFloat (Fin 0))) of
        Inr x \<Rightarrow> Inr x
      | Inl e \<Rightarrow> if value_or_type_error e then Inr (Fin 0) else Inl e)"

definition on_attribution_settled :: "eval_env \<Rightarrow> jobj \<Rightarrow> eval_state \<Rightarrow> py_exn option \<times> eval_state" where
  "on_attribution_settled env payload st =
     (if \<not> truthy (jget payload ''tenant_id'') then (None, st)
      else case uuid_of_json (jget payload ''tenant_id'') of
        Inl e \<Rightarrow> (case e of ValueError _ \<Rightarrow> (None, st) | _ \<Rightarrow> (Some e, st))
      | Inr tenant_id \<Rightarrow>
          (let asset_id_str = jget payload ''asset_id''; zone_id_str = jget payload ''zone_id'' in
           if \<not> truthy asset_id_str \<or> \<not> truthy zone_id_str then (None, st)
           else case to_float (jget_or payload ''confidence'' (JFloat (Fin 0))) of
             Inl e \<Rightarrow> if value_or_type_error e then (None, st) else (Some e, st)
           | Inr confidence \<Rightarrow>
             (case and_then (lookup_subject_name env tenant_id (JStr ''asset'') asset_id_str) (\<lambda>asset_name.
                    and_then (lookup_zone_name env tenant_id zone_id_str) (\<lambda>zone_name. Inr (asset_name, zone_name))) of
               Inl e \<Rightarrow> (Some e, st)
             | Inr (asset_name, zone_name) \<Rightarrow>
                 in_transaction (for_each (\<lambda>ct. for_each (\<lambda>rule st.
                   let st1 = meter tenant_id ''rule_evaluations'' st in
                   case min_confidence (condition_config rule) of
                     Inl e \<Rightarrow> (Some e, st1)
                   | Inr min_conf \<Rightarrow>
                       if pf_less confidence min_conf then (None, st1)
                       else fire_with_cooldown env tenant_id rule asset_id_str 60 ''info''
                         (\<lambda>_. Inr (AttributionInferred (r_name rule) (label_or asset_name asset_id_str) asset_id_str
                            (label_or zone_name zone_id_str) zone_id_str confidence)) payload st1)
                   (get_active_rules_by_condition_type (e_rules env) tenant_id ct))
                   on_inference_types) st)))"

section \<open>The event stream\<close>

datatype topic = TagReadCreated | SubjectZoneChanged | TelemetryRecorded | AttributionSettled

record incoming =
  in_topic :: topic
  in_env :: eval_env
  in_payload :: jobj

definition handle :: "incoming \<Rightarrow> eval_state \<Rightarrow> eval_state" where
  "handle ev st = snd ((case in_topic ev of
       TagReadCreated \<Rightarrow> on_tag_read | SubjectZoneChanged \<Rightarrow> on_subject_zone_changed
     | TelemetryRecorded \<Rightarrow> on_telemetry_recorded | AttributionSettled \<Rightarrow> on_attribution_settled)
     (in_env ev) (in_payload ev) st)"

definition quiet :: eval_state where
  "quiet = \<lparr>es_alerts = [], es_cooldown = [], es_meter = [], es_published = []\<rparr>"

section \<open>Cooldowns hold\<close>

text \<open>
  The subject of an alert that is subject to a cooldown, with the default cooldown of its handler.  Only the telemetry
  thresholds, the attributions and the zone transitions look at the cooldown table; the other alerts, those of tag
  reads (\<open>threshold\<close>, \<open>rate_change\<close>, \<open>absence\<close>) and of \<open>stock.unexpected_in_zone\<close>, are raised at every match whatever
  \<open>cooldown_s\<close> their rule has (\<open>threshold_has_no_cooldown\<close> below), so \<open>cooled\<close> says nothing of them.
\<close>

fun msg_gate :: "alert_message \<Rightarrow> (json \<times> int) option" where
  "msg_gate (TelemetryBreach _ _ subject _ _ _ _) = Some (subject, 300)"
| "msg_gate (AttributionInferred _ _ subject _ _ _) = Some (subject, 60)"
| "msg_gate (ZoneTransition _ _ _ subject _ _ _) = Some (subject, 60)"
| "msg_gate _ = None"

definition cooldown_of :: "alert \<Rightarrow> int \<Rightarrow> timedelta" where
  "cooldown_of a default_s =
     (case al_context a of (_, _, config, _) \<Rightarrow>
        case to_int (jget_or config ''cooldown_s'' (JInt default_s)) of Inl _ \<Rightarrow> 0 | Inr s \<Rightarrow> seconds s)"

definition alert_gate :: "alert \<Rightarrow> (cooldown_key \<times> timedelta) option" where
  "alert_gate a = map_option (\<lambda>(subject, d). ((al_tenant_id a, al_rule_id a, subject), cooldown_of a d)) (msg_gate (al_message a))"

definition cooled :: "alert \<Rightarrow> alert \<Rightarrow> bool" where
  "cooled a b \<longleftrightarrow> (\<forall>k g g'. alert_gate a = Some (k, g) \<longrightarrow> alert_gate b = Some (k, g') \<longrightarrow>
     al_triggered_at a + g \<le> al_triggered_at b)"

definition triggered :: "eval_state \<Rightarrow> alert list" where
  "triggered st = map pe_alert (es_published st)"

text \<open>
  The invariant at time \<open>t\<close>, for keys within \<open>K\<close>: the alerts so far are cooled, and for each of them
  either its cooldown is over or the table still holds it.
\<close>

definition pending_ok :: "datetime \<Rightarrow> cooldowns \<Rightarrow> alert \<Rightarrow> bool" where
  "pending_ok t tbl a \<longleftrightarrow> (\<forall>k g. alert_gate a = Some (k, g) \<longrightarrow>
     al_triggered_at a \<le> t \<and>
     (al_triggered_at a + g \<le> t \<or> (\<exists>e. map_of tbl k = Some e \<and> al_triggered_at a + g \<le> e)))"

definition cool_inv :: "cooldown_key set \<Rightarrow> datetime \<Rightarrow> eval_state \<Rightarrow> bool" where
  "cool_inv K t st \<longleftrightarrow> sorted_wrt cooled (triggered st) \<and> wf_dict (es_cooldown st) \<and>
     set (dict_keys (es_cooldown st)) \<subseteq> K \<and> (\<forall>a \<in> set (triggered st). pending_ok t (es_cooldown st) a)"

lemma pending_ok_later: "pending_ok t tbl a \<Longrightarrow> t \<le> t' \<Longrightarrow> pending_ok t' tbl a"
  unfolding pending_ok_def by (meson order_trans)

lemma cool_inv_later: "cool_inv K t st \<Longrightarrow> t \<le> t' \<Longrightarrow> cool_inv K t' st"
  by (auto simp: cool_inv_def intro: pending_ok_later)

lemma triggered_cooldown [simp]: "triggered (st\<lparr>es_cooldown := tbl\<rparr>) = triggered st"
  by (simp add: triggered_def)

lemma cool_inv_meter [simp]: "cool_inv K t (meter tenant kind st) = cool_inv K t st"
  by (simp add: cool_inv_def meter_def triggered_def)

lemma cool_inv_alerts [simp]: "cool_inv K t (st\<lparr>es_alerts := xs\<rparr>) = cool_inv K t st"
  by (simp add: cool_inv_def triggered_def)

lemma triggered_fire:
  "triggered (fire_alert env tenant rule device severity msg payload st) = triggered st @
     [create_alert (e_uuid4 env (length (es_published st))) (e_now env) tenant (r_id rule) device severity msg
        (r_name rule, condition_type rule, condition_config rule, payload)]"
  by (simp add: fire_alert_def triggered_def meter_def Let_def)

lemma cooldown_fire [simp]: "es_cooldown (fire_alert env tenant rule device severity msg payload st) = es_cooldown st"
  by (simp add: fire_alert_def meter_def Let_def)

lemma alert_gate_create:
  "alert_gate (create_alert i t tenant rid device severity msg (name, ct, config, payload))
    = map_option (\<lambda>(subject, d). ((tenant, rid, subject),
        case to_int (jget_or config ''cooldown_s'' (JInt d)) of Inl _ \<Rightarrow> 0 | Inr s \<Rightarrow> seconds s)) (msg_gate msg)"
  by (simp add: alert_gate_def create_alert_def cooldown_of_def)

lemma cool_inv_fire_ungated:
  assumes "cool_inv K t st" and "msg_gate msg = None"
  shows "cool_inv K t (fire_alert env tenant rule device severity msg payload st)"
proof -
  let ?a = "create_alert (e_uuid4 env (length (es_published st))) (e_now env) tenant (r_id rule) device severity msg
        (r_name rule, condition_type rule, condition_config rule, payload)"
  have "alert_gate ?a = None" by (simp add: alert_gate_create assms(2))
  then have "cooled a ?a" "pending_ok t tbl ?a" for a tbl by (simp_all add: cooled_def pending_ok_def)
  with assms(1) show ?thesis by (simp add: cool_inv_def triggered_fire sorted_wrt_append)
qed

lemma small_table:
  assumes "wf_dict tbl" and "set (dict_keys tbl) \<subseteq> K" and "finite K" and "card K < RULE_COOLDOWN_MAX"
  shows "length tbl < RULE_COOLDOWN_MAX"
proof -
  have "length tbl = card (set (dict_keys tbl))" using assms(1) distinct_card by fastforce
  also have "\<dots> \<le> card K" using assms(2,3) by (rule card_mono [rotated])
  finally show ?thesis using assms(4) by simp
qed

text \<open>After an inactive check the table has no entry for the key, and the invariant still holds.\<close>

lemma cooldown_inactive:
  assumes inv: "cool_inv K t st" and act: "cooldown_active key t (es_cooldown st) = (False, tbl)"
  shows "cool_inv K t (st\<lparr>es_cooldown := tbl\<rparr>)" and "map_of tbl key = None"
    and "wf_dict tbl" and "set (dict_keys tbl) \<subseteq> K"
proof -
  have wf: "wf_dict (es_cooldown st)" and sub: "set (dict_keys (es_cooldown st)) \<subseteq> K"
    using inv by (simp_all only: cool_inv_def)
  show tbl: "map_of tbl key = None"
    using act by (cases "map_of (es_cooldown st) key") (auto simp: cooldown_active_def split: if_splits)
  have cases: "tbl = es_cooldown st \<or> tbl = dict_pop key (es_cooldown st) \<and> (\<exists>e \<le> t. map_of (es_cooldown st) key = Some e)"
    using act by (cases "map_of (es_cooldown st) key") (auto simp: cooldown_active_def split: if_splits)
  then show wf': "wf_dict tbl" using wf by auto
  have keys: "set (dict_keys tbl) \<subseteq> set (dict_keys (es_cooldown st))"
    using cases dom_delete_subset [of key "es_cooldown st"] by auto
  then show sub': "set (dict_keys tbl) \<subseteq> K" using sub by (rule subset_trans)
  have "pending_ok t tbl a" if a: "pending_ok t (es_cooldown st) a" for a
    unfolding pending_ok_def
  proof (intro allI impI)
    fix k g
    assume g: "alert_gate a = Some (k, g)"
    with a have old: "al_triggered_at a \<le> t"
      "al_triggered_at a + g \<le> t \<or> (\<exists>e. map_of (es_cooldown st) k = Some e \<and> al_triggered_at a + g \<le> e)"
      unfolding pending_ok_def by blast+
    have "map_of tbl k = map_of (es_cooldown st) k \<or> (\<exists>e \<le> t. map_of (es_cooldown st) k = Some e)"
      using cases by (cases "k = key") auto
    with old show "al_triggered_at a \<le> t \<and>
        (al_triggered_at a + g \<le> t \<or> (\<exists>e. map_of tbl k = Some e \<and> al_triggered_at a + g \<le> e))"
      by force
  qed
  with wf' sub' inv show "cool_inv K t (st\<lparr>es_cooldown := tbl\<rparr>)"
    unfolding cool_inv_def by simp
qed

lemma fire_with_cooldown_inv:
  assumes inv: "cool_inv K (e_now env) st" and K: "finite K" "card K < RULE_COOLDOWN_MAX"
    and key: "(tenant, r_id rule, subject) \<in> K"
    and msg: "\<And>m. message () = Inr m \<Longrightarrow> msg_gate m = Some (subject, d)"
  shows "cool_inv K (e_now env) (snd (fire_with_cooldown env tenant rule subject d severity message payload st))"
proof -
  let ?now = "e_now env" and ?key = "(tenant, r_id rule, subject)"
  obtain active tbl where act: "cooldown_active ?key ?now (es_cooldown st) = (active, tbl)"
    by (cases "cooldown_active ?key ?now (es_cooldown st)")
  show ?thesis
  proof (cases active)
    case True
    then have "tbl = es_cooldown st" using act by (auto simp: cooldown_active_def split: option.splits if_splits)
    with True act inv show ?thesis by (simp add: fire_with_cooldown_def Let_def)
  next
    case False
    with act have inactive: "cooldown_active ?key ?now (es_cooldown st) = (False, tbl)" by simp
    note tbl = cooldown_inactive [OF inv inactive]
    have room: "length tbl < RULE_COOLDOWN_MAX" by (rule small_table [OF tbl(3,4) K])
    show ?thesis
    proof (cases "to_int (jget_or (condition_config rule) ''cooldown_s'' (JInt d))")
      case (Inl e)
      with act False tbl(1) show ?thesis by (simp add: fire_with_cooldown_def Let_def)
    next
      case (Inr s)
      obtain exn tbl2 where set: "set_cooldown ?key ?now s tbl = (exn, tbl2)"
        by (cases "set_cooldown ?key ?now s tbl")
      have tbl2: "tbl2 = tbl \<or> tbl2 = dict_set ?key (?now + seconds s) tbl"
        using set room by (auto simp: set_cooldown_def bounded_set_def split: if_splits)
      have fresh: "exn = None \<Longrightarrow> s \<le> 0 \<or> map_of tbl2 ?key = Some (?now + seconds s)"
        using set by (auto simp: set_cooldown_def split: if_splits)
      have over: "al_triggered_at a + g \<le> ?now" if "a \<in> set (triggered st)" "alert_gate a = Some (?key, g)" for a g
      proof -
        have "pending_ok ?now tbl a" using tbl(1) that(1) by (simp add: cool_inv_def)
        with that(2) tbl(2) show ?thesis unfolding pending_ok_def by fastforce
      qed
      have pend: "pending_ok ?now tbl2 a" if a: "a \<in> set (triggered st)" for a
      proof -
        have p: "pending_ok ?now tbl a" using tbl(1) a by (simp add: cool_inv_def)
        show ?thesis
          unfolding pending_ok_def
        proof (intro allI impI)
          fix k g
          assume g: "alert_gate a = Some (k, g)"
          with p have old: "al_triggered_at a \<le> ?now"
            "al_triggered_at a + g \<le> ?now \<or> (\<exists>e. map_of tbl k = Some e \<and> al_triggered_at a + g \<le> e)"
            unfolding pending_ok_def by blast+
          then show "al_triggered_at a \<le> ?now \<and>
              (al_triggered_at a + g \<le> ?now \<or> (\<exists>e. map_of tbl2 k = Some e \<and> al_triggered_at a + g \<le> e))"
            using over [OF a, of g] g tbl2 by (cases "k = ?key") auto
        qed
      qed
      have "set (dict_keys tbl2) \<subseteq> insert ?key (set (dict_keys tbl))"
        using tbl2 keys_set by (metis order_refl subset_insertI)
      then have "set (dict_keys tbl2) \<subseteq> K" using tbl(4) key by blast
      moreover have "wf_dict tbl2" using tbl2 tbl(3) by auto
      moreover have srt: "sorted_wrt cooled (triggered st)" using inv by (simp add: cool_inv_def)
      ultimately have inv2: "cool_inv K ?now (st\<lparr>es_cooldown := tbl2\<rparr>)"
        using pend unfolding cool_inv_def by simp
      show ?thesis
      proof (cases "exn = None \<and> (\<exists>m. message () = Inr m)")
        case False
        with act \<open>\<not> active\<close> Inr set inv2 show ?thesis
          by (auto simp: fire_with_cooldown_def Let_def split: option.split sum.split)
      next
        case True
        then obtain m where m: "message () = Inr m" by blast
        let ?st2 = "st\<lparr>es_cooldown := tbl2\<rparr>"
        let ?a = "create_alert (e_uuid4 env (length (es_published ?st2))) ?now tenant (r_id rule) None severity m
          (r_name rule, condition_type rule, condition_config rule, payload)"
        have gate: "alert_gate ?a = Some (?key, seconds s)" using msg [OF m] Inr by (simp add: alert_gate_create)
        have at: "al_triggered_at ?a = ?now" by (simp add: create_alert_def)
        have "cooled a ?a" if "a \<in> set (triggered st)" for a
          using over [OF that] gate at by (auto simp: cooled_def)
        moreover have "pending_ok ?now tbl2 ?a"
          using gate at fresh True by (auto simp: pending_ok_def seconds_def)
        ultimately have "cool_inv K ?now (fire_alert env tenant rule None severity m payload ?st2)"
          using inv2 srt by (simp add: cool_inv_def triggered_fire sorted_wrt_append)
        with act \<open>\<not> active\<close> Inr set m True show ?thesis by (simp add: fire_with_cooldown_def Let_def)
      qed
    qed
  qed
qed

lemma for_each_inv:
  "(\<And>x st. x \<in> set xs \<Longrightarrow> P st \<Longrightarrow> P (snd (f x st))) \<Longrightarrow> P st \<Longrightarrow> P (snd (for_each f xs st))"
proof (induction xs arbitrary: st)
  case (Cons x xs)
  obtain e st' where f: "f x st = (e, st')" by (cases "f x st")
  with Cons.prems have "P st'" by (metis list.set_intros(1) snd_conv)
  with Cons f show ?case by (cases e) auto
qed simp

lemma for_each_fails:
  "x \<in> set xs \<Longrightarrow> (\<And>st. \<exists>e. fst (f x st) = Some e) \<Longrightarrow> \<exists>e. fst (for_each f xs st) = Some e"
  by (induction xs arbitrary: st) (auto split: prod.split option.split, (metis fst_conv option.distinct(1))+)

lemma in_transaction_inv: "cool_inv K t (snd (body st)) \<Longrightarrow> cool_inv K t (snd (in_transaction body st))"
  by (cases "body st") (auto simp: in_transaction_def split: option.split)

text \<open>The keys that a handler may enter in the table.\<close>

definition gate_keys :: "incoming \<Rightarrow> cooldown_key set" where
  "gate_keys ev =
     (case uuid_of_json (jget (in_payload ev) ''tenant_id'') of
        Inl _ \<Rightarrow> {}
      | Inr t \<Rightarrow> (\<lambda>r. (t, r_id r, jget (in_payload ev)
          (if in_topic ev = AttributionSettled then ''asset_id'' else ''subject_id''))) ` set (e_rules (in_env ev)))"

lemma active_rule_id: "rule \<in> set (get_active_rules_by_condition_type rules t ct) \<Longrightarrow> r_id rule \<in> r_id ` set rules"
  by (auto simp: get_active_rules_by_condition_type_def)

lemma handlers_inv:
  assumes K: "finite K" "card K < RULE_COOLDOWN_MAX" and inv: "cool_inv K (e_now env) st"
  shows "cool_inv K (e_now env) (snd (on_tag_read env payload st))"
    and "gate_keys \<lparr>in_topic = SubjectZoneChanged, in_env = env, in_payload = payload\<rparr> \<subseteq> K \<Longrightarrow>
      cool_inv K (e_now env) (snd (on_subject_zone_changed env payload st))"
    and "gate_keys \<lparr>in_topic = TelemetryRecorded, in_env = env, in_payload = payload\<rparr> \<subseteq> K \<Longrightarrow>
      cool_inv K (e_now env) (snd (on_telemetry_recorded env payload st))"
    and "gate_keys \<lparr>in_topic = AttributionSettled, in_env = env, in_payload = payload\<rparr> \<subseteq> K \<Longrightarrow>
      cool_inv K (e_now env) (snd (on_attribution_settled env payload st))"
proof -
  show "cool_inv K (e_now env) (snd (on_tag_read env payload st))"
    using inv
    by (auto simp: on_tag_read_def Let_def split: sum.split
        intro!: in_transaction_inv for_each_inv [where P = "cool_inv K (e_now env)"] cool_inv_fire_ungated split: bool.split)
next
  assume "gate_keys \<lparr>in_topic = SubjectZoneChanged, in_env = env, in_payload = payload\<rparr> \<subseteq> K"
  then have key: "(t, r_id rule, jget payload ''subject_id'') \<in> K"
    if "uuid_of_json (jget payload ''tenant_id'') = Inr t" "rule \<in> set (get_active_rules_by_condition_type (e_rules env) t ct)"
    for t rule ct using that active_rule_id by (fastforce simp: gate_keys_def)
  have zone: "cool_inv K (e_now env) (snd (eval_zone_entered_exited env t (jget payload ''subject_id'') kind from_z to_z payload st'))"
    if "uuid_of_json (jget payload ''tenant_id'') = Inr t" "cool_inv K (e_now env) st'" for t kind from_z to_z st'
    unfolding eval_zone_entered_exited_def
    using that
    by (auto simp: Let_def and_then_eq_Inr simp del: for_each.simps split: sum.split bool.split
        intro!: for_each_inv [where P = "cool_inv K (e_now env)"] fire_with_cooldown_inv K key)
  have stock: "cool_inv K (e_now env) (snd (eval_stock_unexpected_in_zone env t payload subj to_z st'))"
    if "cool_inv K (e_now env) st'" for t subj to_z st'
    unfolding eval_stock_unexpected_in_zone_def
    using that
    by (auto simp: Let_def split: sum.split
        intro!: for_each_inv [where P = "cool_inv K (e_now env)"] cool_inv_fire_ungated)
  show "cool_inv K (e_now env) (snd (on_subject_zone_changed env payload st))"
    using inv zone stock
    by (auto simp: on_subject_zone_changed_def Let_def simp del: for_each.simps split: sum.split
        intro!: in_transaction_inv for_each_inv [where P = "cool_inv K (e_now env)"])
next
  assume "gate_keys \<lparr>in_topic = TelemetryRecorded, in_env = env, in_payload = payload\<rparr> \<subseteq> K"
  then have key: "(t, r_id rule, jget payload ''subject_id'') \<in> K"
    if "uuid_of_json (jget payload ''tenant_id'') = Inr t" "rule \<in> set (get_active_rules_by_condition_type (e_rules env) t ct)"
    for t rule ct using that active_rule_id by (fastforce simp: gate_keys_def)
  show "cool_inv K (e_now env) (snd (on_telemetry_recorded env payload st))"
    using inv
    by (auto simp: on_telemetry_recorded_def Let_def split: sum.split py_exn.split bool.split
        intro!: in_transaction_inv for_each_inv [where P = "cool_inv K (e_now env)"] fire_with_cooldown_inv K key)
next
  assume "gate_keys \<lparr>in_topic = AttributionSettled, in_env = env, in_payload = payload\<rparr> \<subseteq> K"
  then have key: "(t, r_id rule, jget payload ''asset_id'') \<in> K"
    if "uuid_of_json (jget payload ''tenant_id'') = Inr t" "rule \<in> set (get_active_rules_by_condition_type (e_rules env) t ct)"
    for t rule ct using that active_rule_id by (fastforce simp: gate_keys_def)
  show "cool_inv K (e_now env) (snd (on_attribution_settled env payload st))"
    using inv
    by (auto simp: on_attribution_settled_def Let_def split: sum.split py_exn.split bool.split prod.split
        intro!: in_transaction_inv for_each_inv [where P = "cool_inv K (e_now env)"] fire_with_cooldown_inv K key)
qed

lemma handle_inv:
  assumes "finite K" "card K < RULE_COOLDOWN_MAX" and "gate_keys ev \<subseteq> K" and "cool_inv K (e_now (in_env ev)) st"
  shows "cool_inv K (e_now (in_env ev)) (handle ev st)"
proof (cases ev)
  case (fields topic env payload)
  with assms handlers_inv [OF assms(1,2), of env st payload] show ?thesis
    by (cases topic) (simp_all add: handle_def)
qed

text \<open>C4: as long as fewer than 16384 combinations of tenant, rule and subject are in play and the clock does not run
  backwards, two alerts of one rule for one subject that the handlers of telemetry (\<open>telemetry.threshold\<close>), of zone
  transitions (\<open>zone.entered\<close>, \<open>zone.exited\<close>) or of attributions (\<open>on_inference\<close>) raised are at least the rule's cooldown
  apart, whatever events arrive in between and however handlers fail.  The alerts of tag reads and of
  \<open>stock.unexpected_in_zone\<close> have no cooldown in the code and none is claimed for them.\<close>

theorem alerts_respect_cooldown:
  assumes "sorted (map (e_now \<circ> in_env) events)"
    and "card (\<Union>ev \<in> set events. gate_keys ev) < RULE_COOLDOWN_MAX"
  shows "sorted_wrt cooled (triggered (fold handle events quiet))"
proof -
  let ?K = "\<Union>ev \<in> set events. gate_keys ev"
  have fin: "finite ?K" by (auto simp: gate_keys_def split: sum.split)
  have "\<exists>t'. cool_inv ?K t' (fold handle evs st)"
    if "cool_inv ?K t st" "\<forall>ev \<in> set evs. t \<le> e_now (in_env ev)" "set evs \<subseteq> set events"
      "sorted (map (e_now \<circ> in_env) evs)" for t st evs
    using that
  proof (induction evs arbitrary: t st)
    case (Cons ev evs)
    have "cool_inv ?K (e_now (in_env ev)) (handle ev st)"
      using Cons.prems(1-3) by (intro handle_inv [OF fin assms(2)]) (auto intro: cool_inv_later)
    from Cons.IH [OF this] Cons.prems(3,4) show ?case by simp
  qed auto
  moreover have "cool_inv ?K t quiet" for t by (simp add: cool_inv_def triggered_def quiet_def)
  moreover have "\<exists>t. \<forall>ev \<in> set events. t \<le> e_now (in_env ev)"
    using assms(1) by (cases events) auto
  ultimately obtain t' where "cool_inv ?K t' (fold handle events quiet)" using assms(1) by blast
  then show ?thesis by (simp add: cool_inv_def)
qed

text \<open>A tag read that is not a replay raises one alert for each active rule of the device whose condition it meets,
  in the order of the rules, and none for any other rule.\<close>

theorem tag_read_alerts:
  assumes "on_tag_read env payload st = (None, st')" and "\<not> truthy (jget payload ''backfill'')"
    and "uuid_of_json (jget payload ''tenant_id'') = Inr tenant" and "uuid_of_json (jget payload ''device_id'') = Inr device"
  shows "map al_rule_id (triggered st') = map al_rule_id (triggered st) @
    map r_id (filter (\<lambda>r. evaluate_condition (condition_type r) (condition_config r) payload = Inr True)
      (get_active_rules_for_device (e_rules env) tenant device))"
proof -
  have loop: "map al_rule_id (triggered s2) = map al_rule_id (triggered s1) @
      map r_id (filter (\<lambda>r. evaluate_condition (condition_type r) (condition_config r) payload = Inr True) rules)"
    if "for_each (\<lambda>rule st.
              let st1 = meter tenant ''rule_evaluations'' st in
              case evaluate_condition (condition_type rule) (condition_config rule) payload of
                Inl e \<Rightarrow> (Some e, st1)
              | Inr False \<Rightarrow> (None, st1)
              | Inr True \<Rightarrow> (None, fire_alert env tenant rule (Some device) ''warning''
                    (ConditionMet (r_name rule) (condition_type rule)) payload st1)) rules s1 = (None, s2)" for rules s1 s2
    using that
  proof (induction rules arbitrary: s1)
    case (Cons r rules)
    have [simp]: "triggered (meter t k s) = triggered s" for t k s by (simp add: meter_def triggered_def)
    show ?case
    proof (cases "evaluate_condition (condition_type r) (condition_config r) payload")
      case (Inl e)
      with Cons.prems show ?thesis by simp
    next
      case (Inr b)
      with Cons show ?thesis by (cases b) (auto simp: triggered_fire create_alert_def)
    qed
  qed simp
  show ?thesis
  proof (cases "truthy (jget payload ''tenant_id'') \<and> truthy (jget payload ''device_id'')")
    case True
    with assms show ?thesis
      by (auto simp: on_tag_read_def in_transaction_def split: prod.splits option.splits intro: loop)
  next
    case False
    have "uuid_of_json j = Inr u \<Longrightarrow> truthy j" for j u
      by (cases j) (auto simp: uuid_of_string_def Let_def split: if_splits)
    with False assms(3,4) show ?thesis by blast
  qed
qed

section \<open>Runs\<close>

definition telemetry_rule :: rule where
  "telemetry_rule = demo_rule\<lparr>condition_type := ''telemetry.threshold'', condition_config :=
     [(''subject_kind'', JStr ''asset''), (''metric_name'', JStr ''temp''), (''operator'', JStr ''gt''),
      (''value'', JInt 8), (''cooldown_s'', JInt 300)]\<rparr>"

definition threshold_rule :: rule where
  "threshold_rule = demo_rule\<lparr>condition_type := ''threshold'', condition_config :=
     [(''field'', JStr ''signal_strength''), (''operator'', JStr ''lt''), (''value'', JInt (- 50))]\<rparr>"

lemmas rule_examples = telemetry_rule_def threshold_rule_def demo_rule_def row_of_create_def demo_create_def

definition demo_env :: "rule \<Rightarrow> datetime \<Rightarrow> eval_env" where
  "demo_env r t = \<lparr>e_rules = [r], e_asset_name = (\<lambda>_ _. None), e_zone_name = (\<lambda>_ _. None), e_uuid4 = word_of_nat, e_now = t\<rparr>"

definition telemetry_event :: "datetime \<Rightarrow> incoming" where
  "telemetry_event t = \<lparr>in_topic = TelemetryRecorded, in_env = demo_env telemetry_rule t,
     in_payload = [(''tenant_id'', JStr (str_uuid 1)), (''subject_kind'', JStr ''asset''), (''subject_id'', JStr ''a''),
       (''metric_name'', JStr ''temp''), (''metric_value'', JInt 9)]\<rparr>"

theorem alerts_respect_cooldown_witness:
  "sorted_wrt cooled (triggered (fold handle [telemetry_event 0, telemetry_event 60000000, telemetry_event 300000000] quiet))"
proof (rule alerts_respect_cooldown)
  have "gate_keys (telemetry_event t) = {(1, 4, JStr ''a'')}" for t
    by (simp add: gate_keys_def telemetry_event_def jget_def demo_env_def rule_examples)
  then show "card (\<Union>ev \<in> set [telemetry_event 0, telemetry_event 60000000, telemetry_event 300000000]. gate_keys ev)
      < RULE_COOLDOWN_MAX"
    by (simp add: RULE_COOLDOWN_MAX_def)
qed (simp add: telemetry_event_def demo_env_def)

definition read_payload :: jobj where
  "read_payload = [(''tenant_id'', JStr (str_uuid 1)), (''device_id'', JStr (str_uuid 2)), (''signal_strength'', JInt (- 60))]"

lemma threshold_met:
  "evaluate_condition (condition_type threshold_rule) (condition_config threshold_rule) read_payload = Inr True"
  by (simp add: evaluate_condition_def eval_threshold_def jget_def jget_or_def read_payload_def both_floats_def
      compare_op_def py_eq_Str_iff rule_examples float_limit_def)

theorem tag_read_alerts_witness:
  "map al_rule_id (triggered (snd (on_tag_read (demo_env threshold_rule 0) read_payload quiet))) = [4]"
proof -
  have ids: "r_id threshold_rule = 4" "get_active_rules_for_device [threshold_rule] 1 2 = [rule_to_response threshold_rule]"
    by (simp_all add: get_active_rules_for_device_def rule_examples)
  have read: "\<not> truthy (jget read_payload ''backfill'')" "uuid_of_json (jget read_payload ''tenant_id'') = Inr 1"
    "uuid_of_json (jget read_payload ''device_id'') = Inr 2" "truthy (jget read_payload ''tenant_id'')"
    "truthy (jget read_payload ''device_id'')"
    by (simp_all add: read_payload_def jget_def)
  have "on_tag_read (demo_env threshold_rule 0) read_payload quiet
      = (None, snd (on_tag_read (demo_env threshold_rule 0) read_payload quiet))"
    using threshold_met by (simp add: on_tag_read_def read in_transaction_def demo_env_def ids)
  from tag_read_alerts [OF this read(1-3)] show ?thesis
    using threshold_met by (simp add: demo_env_def ids quiet_def triggered_def)
qed

text \<open>A rule on the signal of tag reads that carries a \<open>cooldown_s\<close>, as the one of the smoke set-up does, alerts at every
  matching read, here twice at the same instant, whatever the cooldown is: \<open>on_tag_read\<close> never looks at the table.\<close>

definition slow_rule :: "json \<Rightarrow> rule" where
  "slow_rule cooldown = threshold_rule\<lparr>condition_config := condition_config threshold_rule @ [(''cooldown_s'', cooldown)]\<rparr>"

theorem threshold_has_no_cooldown:
  "map (\<lambda>a. (al_rule_id a, al_triggered_at a)) (triggered (fold handle
     (replicate 2 \<lparr>in_topic = TagReadCreated, in_env = demo_env (slow_rule cooldown) 0, in_payload = read_payload\<rparr>) quiet)) = [(4, 0), (4, 0)]"
proof -
  have met: "evaluate_condition (condition_type (slow_rule cooldown)) (condition_config (slow_rule cooldown)) read_payload = Inr True"
    by (simp add: slow_rule_def evaluate_condition_def eval_threshold_def jget_def jget_or_def read_payload_def both_floats_def
        compare_op_def py_eq_Str_iff rule_examples float_limit_def)
  have ids: "r_id (slow_rule cooldown) = 4" "get_active_rules_for_device [slow_rule cooldown] 1 2 = [rule_to_response (slow_rule cooldown)]"
    by (simp_all add: get_active_rules_for_device_def slow_rule_def rule_examples)
  have read: "\<not> truthy (jget read_payload ''backfill'')" "uuid_of_json (jget read_payload ''tenant_id'') = Inr 1"
    "uuid_of_json (jget read_payload ''device_id'') = Inr 2" "truthy (jget read_payload ''tenant_id'')"
    "truthy (jget read_payload ''device_id'')"
    by (simp_all add: read_payload_def jget_def)
  have one: "map (\<lambda>a. (al_rule_id a, al_triggered_at a)) (triggered (handle
      \<lparr>in_topic = TagReadCreated, in_env = demo_env (slow_rule cooldown) 0, in_payload = read_payload\<rparr> st)) =
      map (\<lambda>a. (al_rule_id a, al_triggered_at a)) (triggered st) @ [(4, 0)]" for st
    using met by (simp add: handle_def on_tag_read_def read in_transaction_def demo_env_def ids triggered_fire create_alert_def)
      (simp add: triggered_def meter_def)
  show ?thesis by (simp add: numeral_2_eq_2 one) (simp add: triggered_def quiet_def)
qed

end
