(* ===== verification/Geo.thy ===== *)
theory Geo
  imports PyJson
begin

text \<open>
  The geofence primitives (\<open>src/tagpulse/geo/__init__.py\<close>): validation of a GeoJSON polygon, its
  bounding box, the ray-casting test and the bounding-box prefilter.  Coordinates are exact reals.

  The main result is that a point the ray-casting test accepts lies in the bounding box of the ring:
  this is what lets every caller skip the test outside the box.  The interface \<open>containment\<close> states
  it for the zone attribution theories.
\<close>

definition MIN_LAT :: real where "MIN_LAT = - 90"
definition MAX_LAT :: real where "MAX_LAT = 90"
definition MIN_LON :: real where "MIN_LON = - 180"
definition MAX_LON :: real where "MAX_LON = 180"
definition MAX_VERTICES :: nat where "MAX_VERTICES = 500"

type_synonym ring = "(real \<times> real) list" \<comment> \<open>vertices as (lon, lat)\<close>

text \<open>The reasons of a \<open>PolygonValidationError\<close>; \<open>FloatFailure\<close> is an exception of \<open>float()\<close> itself.\<close>

datatype polygon_error =
    NotObject | NotPolygon | NotSingleRing | TooFewVertices | TooManyVertices
  | NotAPair nat | LonOutOfRange nat pfloat | LatOutOfRange nat pfloat | NotClosed
  | FloatFailure py_exn

section \<open>Validation\<close>

text \<open>\<open>isinstance(x, int | float)\<close>, which holds of booleans too.\<close>

definition is_number :: "json \<Rightarrow> bool" where
  "is_number j = (num_of j \<noteq> None)"

definition float_or_fail :: "json \<Rightarrow> polygon_error + pfloat" where
  "float_or_fail j = (case to_float j of Inl e \<Rightarrow> Inl (FloatFailure e) | Inr x \<Rightarrow> Inr x)"

definition in_range :: "real \<Rightarrow> pfloat \<Rightarrow> real \<Rightarrow> bool" where
  "in_range lo x hi = (pf_le (Fin lo) x \<and> pf_le x (Fin hi))"

fun fin_of :: "pfloat \<Rightarrow> real" where
  "fin_of (Fin x) = x"
| "fin_of _ = 0"

definition validate_vertex :: "nat \<Rightarrow> json \<Rightarrow> polygon_error + real \<times> real" where
  "validate_vertex i vertex =
     (case vertex of
        JList (a # b # _) \<Rightarrow>
          if \<not> is_number a \<or> \<not> is_number b then Inl (NotAPair i)
          else and_then (float_or_fail a) (\<lambda>lon. and_then (float_or_fail b) (\<lambda>lat.
            if \<not> in_range MIN_LON lon MAX_LON then Inl (LonOutOfRange i lon)
            else if \<not> in_range MIN_LAT lat MAX_LAT then Inl (LatOutOfRange i lat)
            else Inr (fin_of lon, fin_of lat)))
      | _ \<Rightarrow> Inl (NotAPair i))"

fun validate_vertices :: "nat \<Rightarrow> json list \<Rightarrow> polygon_error + ring" where
  "validate_vertices i [] = Inr []"
| "validate_vertices i (v # vs) =
     and_then (validate_vertex i v) (\<lambda>p. and_then (validate_vertices (Suc i) vs) (\<lambda>ps. Inr (p # ps)))"

definition validate_polygon :: "json \<Rightarrow> polygon_error + ring" where
  "validate_polygon geojson =
     (case geojson of
        JObj d \<Rightarrow>
          if \<not> py_eq (jget d ''type'') (JStr ''Polygon'') then Inl NotPolygon
          else (case jget d ''coordinates'' of
              JList coords \<Rightarrow>
                if length coords \<noteq> 1 then Inl NotSingleRing
                else (case coords ! 0 of
                    JList ring \<Rightarrow>
                      if length ring < 4 then Inl TooFewVertices
                      else if length ring > MAX_VERTICES then Inl TooManyVertices
                      else and_then (validate_vertices 0 ring) (\<lambda>out.
                        if out ! 0 \<noteq> out ! (length out - 1) then Inl NotClosed else Inr out)
                  | _ \<Rightarrow> Inl TooFewVertices)
            | _ \<Rightarrow> Inl NotSingleRing)
      | _ \<Rightarrow> Inl NotObject)"

section \<open>Bounding box and ray casting\<close>

text \<open>\<open>(min_lat, max_lat, min_lon, max_lon)\<close>; \<open>min\<close> and \<open>max\<close> raise on an empty ring.\<close>

type_synonym bbox = "real \<times> real \<times> real \<times> real"

fun list_min :: "real list \<Rightarrow> real" where
  "list_min [] = 0"
| "list_min [x] = x"
| "list_min (x # xs) = min x (list_min xs)"

fun list_max :: "real list \<Rightarrow> real" where
  "list_max [] = 0"
| "list_max [x] = x"
| "list_max (x # xs) = max x (list_max xs)"

definition compute_bbox :: "ring \<Rightarrow> py_exn + bbox" where
  "compute_bbox ring =
     (let lons = map fst ring; lats = map snd ring in
      if ring = [] then Inl (ValueError ''min() arg is an empty sequence'')
      else Inr (list_min lats, list_max lats, list_min lons, list_max lons))"

fun pip_loop :: "real \<Rightarrow> real \<Rightarrow> ring \<Rightarrow> nat list \<Rightarrow> nat \<Rightarrow> bool \<Rightarrow> bool" where
  "pip_loop lat lon ring [] j inside = inside"
| "pip_loop lat lon ring (i # is) j inside =
     (let (xi, yi) = ring ! i; (xj, yj) = ring ! j;
          inside' = (if (yi > lat) \<noteq> (yj > lat)
                     then (let x_intersect = (xj - xi) * (lat - yi) / (yj - yi) + xi
                           in if lon < x_intersect then \<not> inside else inside)
                     else inside)
      in pip_loop lat lon ring is i inside')"

definition point_in_polygon :: "real \<Rightarrow> real \<Rightarrow> ring \<Rightarrow> bool" where
  "point_in_polygon lat lon ring =
     (let n = int (length ring) - 1 in
      if n < 3 then False else pip_loop lat lon ring [0..<nat n] (nat n - 1) False)"

definition bbox_contains ::
    "real option \<Rightarrow> real option \<Rightarrow> real option \<Rightarrow> real option \<Rightarrow> real \<Rightarrow> real \<Rightarrow> bool" where
  "bbox_contains bbox_min_lat bbox_max_lat bbox_min_lon bbox_max_lon lat lon =
     (case (bbox_min_lat, bbox_max_lat, bbox_min_lon, bbox_max_lon) of
        (Some a, Some b, Some c, Some d) \<Rightarrow> a \<le> lat \<and> lat \<le> b \<and> c \<le> lon \<and> lon \<le> d
      | _ \<Rightarrow> False)"

section \<open>What validation guarantees\<close>

lemma validate_vertex_range:
  "validate_vertex i v = Inr (lon, lat) \<Longrightarrow> MIN_LON \<le> lon \<and> lon \<le> MAX_LON \<and> MIN_LAT \<le> lat \<and> lat \<le> MAX_LAT"
  by (auto simp: validate_vertex_def and_then_eq_Inr in_range_def dest!: pf_le_bounds
      split: json.splits list.splits if_splits)

lemma validate_vertices_length: "validate_vertices i vs = Inr ps \<Longrightarrow> length ps = length vs"
  by (induction vs arbitrary: i ps) (auto simp: and_then_eq_Inr)

lemma validate_vertices_range:
  "validate_vertices i vs = Inr ps \<Longrightarrow> (lon, lat) \<in> set ps \<Longrightarrow>
   MIN_LON \<le> lon \<and> lon \<le> MAX_LON \<and> MIN_LAT \<le> lat \<and> lat \<le> MAX_LAT"
  by (induction vs arbitrary: i ps) (auto simp: and_then_eq_Inr dest!: validate_vertex_range)

definition closed_ring :: "ring \<Rightarrow> bool" where
  "closed_ring ring \<longleftrightarrow> 4 \<le> length ring \<and> ring ! 0 = ring ! (length ring - 1)"

definition valid_ring :: "ring \<Rightarrow> bool" where
  "valid_ring ring \<longleftrightarrow> closed_ring ring \<and> length ring \<le> MAX_VERTICES \<and>
     (\<forall>(lon, lat) \<in> set ring. MIN_LON \<le> lon \<and> lon \<le> MAX_LON \<and> MIN_LAT \<le> lat \<and> lat \<le> MAX_LAT)"

text \<open>A polygon that passes validation is a closed ring of four to five hundred vertices whose
  coordinates are all in range.\<close>

theorem validate_polygon_valid:
  assumes "validate_polygon geojson = Inr ring"
  shows "valid_ring ring"
proof -
  from assms obtain vs where "\<not> length vs < 4" "\<not> length vs > MAX_VERTICES"
    and vs: "validate_vertices 0 vs = Inr ring" and "ring ! 0 = ring ! (length ring - 1)"
    by (auto simp: validate_polygon_def and_then_eq_Inr split: json.splits if_splits)
  with validate_vertices_length [OF vs] validate_vertices_range [OF vs]
  show ?thesis by (auto simp: valid_ring_def closed_ring_def)
qed

section \<open>The ray-casting test stays inside the bounding box\<close>

lemma list_min_le: "x \<in> set xs \<Longrightarrow> list_min xs \<le> x"
  by (induction xs rule: list_min.induct) auto

lemma list_max_ge: "x \<in> set xs \<Longrightarrow> x \<le> list_max xs"
  by (induction xs rule: list_max.induct) auto

text \<open>The intersection of an edge with the horizontal line through the point lies between the ends.\<close>

lemma x_intersect_between:
  fixes xi yi xj yj lat :: real
  assumes "(yi > lat) \<noteq> (yj > lat)"
  shows "min xi xj \<le> (xj - xi) * (lat - yi) / (yj - yi) + xi"
    and "(xj - xi) * (lat - yi) / (yj - yi) + xi \<le> max xi xj"
proof -
  define t where "t = (lat - yi) / (yj - yi)"
  have t: "0 \<le> t" "t \<le> 1" using assms by (auto simp: t_def field_simps)
  have eq: "(xj - xi) * (lat - yi) / (yj - yi) + xi = (1 - t) * xi + t * xj"
  proof -
    have "(xj - xi) * (lat - yi) / (yj - yi) = (xj - xi) * t" by (simp add: t_def)
    then show ?thesis by (simp add: algebra_simps)
  qed
  have "(1 - t) * min xi xj + t * min xi xj \<le> (1 - t) * xi + t * xj"
    using t by (intro add_mono mult_left_mono) auto
  then show "min xi xj \<le> (xj - xi) * (lat - yi) / (yj - yi) + xi" unfolding eq by (simp add: algebra_simps)
  have "(1 - t) * xi + t * xj \<le> (1 - t) * max xi xj + t * max xi xj"
    using t by (intro add_mono mult_left_mono) auto
  then show "(xj - xi) * (lat - yi) / (yj - yi) + xi \<le> max xi xj" unfolding eq by (simp add: algebra_simps)
qed

definition above :: "real \<Rightarrow> ring \<Rightarrow> nat \<Rightarrow> bool" where
  "above lat ring i \<longleftrightarrow> snd (ring ! i) > lat"

text \<open>If no edge is crossed to the east, nothing toggles; if all are, the toggles cancel around the ring.\<close>

lemma pip_loop_no_toggle:
  assumes "\<And>i. i \<in> set (j # is) \<Longrightarrow> fst (ring ! i) \<le> lon"
  shows "pip_loop lat lon ring is j inside = inside"
  using assms
proof (induction "is" arbitrary: j inside)
  case Nil
  then show ?case by simp
next
  case (Cons i "is")
  obtain xi yi where i: "ring ! i = (xi, yi)" by (cases "ring ! i")
  obtain xj yj where j: "ring ! j = (xj, yj)" by (cases "ring ! j")
  have "\<not> lon < (xj - xi) * (lat - yi) / (yj - yi) + xi" if "(yi > lat) \<noteq> (yj > lat)"
  proof -
    have "max xi xj \<le> lon" using Cons.prems [of i] Cons.prems [of j] i j by simp
    with x_intersect_between(2) [OF that, where xi = xi and xj = xj] show ?thesis by linarith
  qed
  with Cons i j show ?case by (simp add: Let_def)
qed

lemma pip_loop_same_side:
  assumes "\<And>i. i \<in> set (j # is) \<Longrightarrow> above lat ring i = b"
  shows "pip_loop lat lon ring is j inside = inside"
  using assms
proof (induction "is" arbitrary: j inside)
  case Nil
  then show ?case by simp
next
  case (Cons i "is")
  have "(snd (ring ! i) > lat) = (snd (ring ! j) > lat)"
    using Cons.prems [of i] Cons.prems [of j] by (simp add: above_def)
  with Cons show ?case by (simp add: Let_def case_prod_beta)
qed

lemma pip_loop_all_toggle:
  assumes "\<And>i. i \<in> set (j # is) \<Longrightarrow> lon < fst (ring ! i)"
  shows "pip_loop lat lon ring is j inside = (inside \<noteq> (above lat ring (last (j # is)) \<noteq> above lat ring j))"
  using assms
proof (induction "is" arbitrary: j inside)
  case Nil
  then show ?case by simp
next
  case (Cons i "is")
  obtain xi yi where i: "ring ! i = (xi, yi)" by (cases "ring ! i")
  obtain xj yj where j: "ring ! j = (xj, yj)" by (cases "ring ! j")
  have "lon < (xj - xi) * (lat - yi) / (yj - yi) + xi" if "(yi > lat) \<noteq> (yj > lat)"
  proof -
    have "lon < min xi xj" using Cons.prems [of i] Cons.prems [of j] i j by simp
    with x_intersect_between(1) [OF that, where xi = xi and xj = xj] show ?thesis by linarith
  qed
  then have "pip_loop lat lon ring (i # is) j inside
      = pip_loop lat lon ring is i (inside \<noteq> (above lat ring i \<noteq> above lat ring j))"
    using i j by (auto simp: Let_def above_def)
  also have "\<dots> = ((inside \<noteq> (above lat ring i \<noteq> above lat ring j)) \<noteq> (above lat ring (last (i # is)) \<noteq> above lat ring i))"
    using Cons.prems by (intro Cons.IH) auto
  finally show ?case by (auto simp del: pip_loop.simps)
qed

definition ring_bbox :: "ring \<Rightarrow> bbox" where
  "ring_bbox ring = (list_min (map snd ring), list_max (map snd ring), list_min (map fst ring), list_max (map fst ring))"

lemma compute_bbox_eq: "ring \<noteq> [] \<Longrightarrow> compute_bbox ring = Inr (ring_bbox ring)"
  by (simp add: compute_bbox_def ring_bbox_def Let_def)

lemma pip_in_ring_box:
  assumes "point_in_polygon lat lon ring"
  shows "list_min (map snd ring) \<le> lat \<and> lat < list_max (map snd ring)
       \<and> list_min (map fst ring) \<le> lon \<and> lon < list_max (map fst ring)"
proof -
  define n where "n = length ring - 1"
  have n: "3 \<le> n" and pip: "pip_loop lat lon ring [0..<n] (n - 1) False"
    using assms by (auto simp: point_in_polygon_def Let_def n_def nat_diff_distrib split: if_splits)
  have mem: "ring ! i \<in> set ring" if "i \<in> set ((n - 1) # [0..<n])" for i
    using that n by (auto simp: n_def intro!: nth_mem)
  have last: "last ((n - 1) # [0..<n]) = n - 1" using n by (simp add: last_conv_nth)
  have "\<not> lat \<ge> list_max (map snd ring)"
  proof
    assume "lat \<ge> list_max (map snd ring)"
    then have "above lat ring i = False" if "i \<in> set ((n - 1) # [0..<n])" for i
      using mem [OF that] list_max_ge [of "snd (ring ! i)" "map snd ring"] by (auto simp: above_def)
    with pip show False using pip_loop_same_side by blast
  qed
  moreover have "\<not> lat < list_min (map snd ring)"
  proof
    assume "lat < list_min (map snd ring)"
    then have "above lat ring i = True" if "i \<in> set ((n - 1) # [0..<n])" for i
      using mem [OF that] list_min_le [of "snd (ring ! i)" "map snd ring"] by (auto simp: above_def)
    with pip show False using pip_loop_same_side by blast
  qed
  moreover have "\<not> lon \<ge> list_max (map fst ring)"
  proof
    assume "lon \<ge> list_max (map fst ring)"
    then have "fst (ring ! i) \<le> lon" if "i \<in> set ((n - 1) # [0..<n])" for i
      using mem [OF that] list_max_ge [of "fst (ring ! i)" "map fst ring"] by auto
    with pip show False using pip_loop_no_toggle by blast
  qed
  moreover have "\<not> lon < list_min (map fst ring)"
  proof
    assume "lon < list_min (map fst ring)"
    then have "lon < fst (ring ! i)" if "i \<in> set ((n - 1) # [0..<n])" for i
      using mem [OF that] list_min_le [of "fst (ring ! i)" "map fst ring"] by force
    with pip_loop_all_toggle [of "n - 1" "[0..<n]" lon ring lat False] last pip show False by simp
  qed
  ultimately show ?thesis by linarith
qed

text \<open>The bounding-box prefilter never rejects a point the ray-casting test accepts: for the box
  that \<open>compute_bbox\<close> stores, a point in the polygon passes \<open>bbox_contains\<close>; and a point on the northern
  or eastern side of the box is never in the polygon.\<close>

theorem bbox_prefilter_sound:
  assumes "compute_bbox ring = Inr (a, b, c, d)" and "point_in_polygon lat lon ring"
  shows "bbox_contains (Some a) (Some b) (Some c) (Some d) lat lon \<and> lat < b \<and> lon < d"
proof -
  have "ring \<noteq> []" using assms(1) by (auto simp: compute_bbox_def)
  with assms(1) have "ring_bbox ring = (a, b, c, d)" by (simp add: compute_bbox_eq)
  with pip_in_ring_box [OF assms(2)] show ?thesis by (simp add: ring_bbox_def bbox_contains_def)
qed

theorem bbox_prefilter_sound_witness:
  "bbox_contains (Some 0) (Some 2) (Some 0) (Some 2) 1 1 \<and> (1::real) < 2 \<and> (1::real) < 2"
  by (rule bbox_prefilter_sound [of "[(0, 0), (2, 0), (2, 2), (0, 2), (0, 0)]"])
     (simp_all add: compute_bbox_def point_in_polygon_def upt_rec Let_def)

theorem validate_polygon_valid_witness:
  "valid_ring [(0, 0), (2, 0), (2, 2), (0, 0)]"
  by (rule validate_polygon_valid [of "JObj [(''type'', JStr ''Polygon''),
      (''coordinates'', JList [JList [JList [JInt 0, JInt 0], JList [JInt 2, JFloat (Fin 0)],
        JList [JInt 2, JInt 2], JList [JInt 0, JInt 0]]])]"])
     (simp add: validate_polygon_def validate_vertex_def jget_def is_number_def float_or_fail_def float_limit_def
       in_range_def MIN_LON_def MAX_LON_def MIN_LAT_def MAX_LAT_def MAX_VERTICES_def)

end
