(* ===== verification/Zones.thy ===== *)
theory Zones
  imports Geo
begin

text \<open>
  Single-zone attribution (\<open>src/tagpulse/signaling/isolated_zones.py\<close>): the candidate zones, the
  reader-bound and the geofence attribution, and their priority.  The interface \<open>containment\<close> is
  what this theory and the overlapping-zones aggregator rely on from the geometry: containment in a
  region implies containment in its bounding box, so the prefilter on a stored box that is the
  region's own never changes a verdict.
\<close>

section \<open>Candidates\<close>

record zone_candidate =
  zc_id :: uuid
  zc_kind :: string
  created_at :: datetime
  fixed_reader_ids :: "string list option"
  polygon_geojson :: json
  bbox_min_lat :: "real option"
  bbox_max_lat :: "real option"
  bbox_min_lon :: "real option"
  bbox_max_lon :: "real option"

record isolated_zone_attribution =
  iza_zone_id :: uuid
  iza_zone_kind :: string
  iza_source :: string

definition sorted_by_created_at :: "zone_candidate list \<Rightarrow> zone_candidate list" where
  "sorted_by_created_at zones = sort_key created_at zones"

section \<open>The stored bounding box\<close>

text \<open>\<open>x or y\<close> on an optional float: \<open>None\<close> and \<open>0.0\<close> both select \<open>y\<close>.\<close>

definition or_float :: "real option \<Rightarrow> real \<Rightarrow> real" where
  "or_float x y = (case x of None \<Rightarrow> y | Some r \<Rightarrow> if r = 0 then y else r)"

definition bbox_rejects ::
    "real option \<Rightarrow> real option \<Rightarrow> real option \<Rightarrow> real option \<Rightarrow> real \<Rightarrow> real \<Rightarrow> bool" where
  "bbox_rejects min_lat max_lat min_lon max_lon latitude longitude =
     (case min_lat of
        None \<Rightarrow> False
      | Some lo \<Rightarrow> \<not> (lo \<le> latitude \<and> latitude \<le> or_float max_lat latitude
                     \<and> or_float min_lon longitude \<le> longitude \<and> longitude \<le> or_float max_lon longitude))"

fun in_box :: "bbox \<Rightarrow> real \<Rightarrow> real \<Rightarrow> bool" where
  "in_box (a, b, c, d) lat lon = (a \<le> lat \<and> lat \<le> b \<and> c \<le> lon \<and> lon \<le> d)"

text \<open>A bound that was never stored does not constrain; a stored one is that of the box.\<close>

definition bound_of :: "real option \<Rightarrow> real \<Rightarrow> bool" where
  "bound_of x r \<longleftrightarrow> x = None \<or> x = Some r"

fun stores_box :: "real option \<Rightarrow> real option \<Rightarrow> real option \<Rightarrow> real option \<Rightarrow> bbox \<Rightarrow> bool" where
  "stores_box min_lat max_lat min_lon max_lon (a, b, c, d) \<longleftrightarrow>
     bound_of min_lat a \<and> bound_of max_lat b \<and> bound_of min_lon c \<and> bound_of max_lon d"

locale containment =
  fixes contains :: "real \<Rightarrow> real \<Rightarrow> 'p \<Rightarrow> bool"
    and box :: "'p \<Rightarrow> bbox"
  assumes contains_in_box: "contains lat lon p \<Longrightarrow> in_box (box p) lat lon"
begin

lemma prefilter_harmless:
  assumes "stores_box a b c d (box p)" and "contains lat lon p"
  shows "\<not> bbox_rejects a b c d lat lon"
  using assms contains_in_box [OF assms(2)]
  by (cases "box p") (auto simp: bbox_rejects_def or_float_def bound_of_def split: option.splits)

end

interpretation geo: containment point_in_polygon ring_bbox
  by unfold_locales (use pip_in_ring_box in \<open>fastforce simp: ring_bbox_def\<close>)

section \<open>Rings of stored polygons\<close>

text \<open>
  \<open>[(float(p[0]), float(p[1])) for p in polygon["coordinates"][0]]\<close>; \<open>zone_ring\<close> is the code around it:
  an empty polygon and the exceptions \<open>KeyError\<close>, \<open>IndexError\<close>, \<open>TypeError\<close>, \<open>ValueError\<close> skip the zone.
\<close>

definition ring_point :: "json \<Rightarrow> py_exn + real \<times> real" where
  "ring_point p =
     and_then (json_index p 0) (\<lambda>a. and_then (to_real a) (\<lambda>lon.
     and_then (json_index p 1) (\<lambda>b. and_then (to_real b) (\<lambda>lat. Inr (lon, lat)))))"

definition ring_of_polygon :: "json \<Rightarrow> py_exn + ring" where
  "ring_of_polygon polygon =
     and_then (json_key polygon ''coordinates'') (\<lambda>coords.
     and_then (json_index coords 0) (\<lambda>ring_raw.
     and_then (json_iter ring_raw) (map_res ring_point)))"

fun polygon_error :: "py_exn \<Rightarrow> bool" where
  "polygon_error (ValueError _) = True"
| "polygon_error KeyError = True"
| "polygon_error IndexError = True"
| "polygon_error TypeError = True"
| "polygon_error _ = False"

definition zone_ring :: "zone_candidate \<Rightarrow> py_exn + ring option" where
  "zone_ring zone =
     (if \<not> truthy (polygon_geojson zone) then Inr None
      else case ring_of_polygon (polygon_geojson zone) of
        Inl e \<Rightarrow> if polygon_error e then Inr None else Inl e
      | Inr ring \<Rightarrow> Inr (Some ring))"

section \<open>Attribution\<close>

fun reader_bound_loop :: "string \<Rightarrow> zone_candidate list \<Rightarrow> isolated_zone_attribution option" where
  "reader_bound_loop target [] = None"
| "reader_bound_loop target (zone # zones) =
     (if zc_kind zone \<noteq> ''reader_bound'' then reader_bound_loop target zones
      else let readers = (case fixed_reader_ids zone of None \<Rightarrow> [] | Some rs \<Rightarrow> rs) in
        if target \<in> set readers
        then Some \<lparr>iza_zone_id = zc_id zone, iza_zone_kind = ''reader_bound'', iza_source = ''reader_bound''\<rparr>
        else reader_bound_loop target zones)"

definition attribute_reader_bound :: "uuid \<Rightarrow> zone_candidate list \<Rightarrow> isolated_zone_attribution option" where
  "attribute_reader_bound reader_id zones = reader_bound_loop (str_uuid reader_id) (sorted_by_created_at zones)"

definition prefilter_rejects :: "zone_candidate \<Rightarrow> real \<Rightarrow> real \<Rightarrow> bool" where
  "prefilter_rejects zone latitude longitude =
     bbox_rejects (bbox_min_lat zone) (bbox_max_lat zone) (bbox_min_lon zone) (bbox_max_lon zone) latitude longitude"

fun geofence_loop :: "real \<Rightarrow> real \<Rightarrow> zone_candidate list \<Rightarrow> py_exn + isolated_zone_attribution option" where
  "geofence_loop latitude longitude [] = Inr None"
| "geofence_loop latitude longitude (zone # zones) =
     (if zc_kind zone \<noteq> ''geofence'' then geofence_loop latitude longitude zones
      else if prefilter_rejects zone latitude longitude then geofence_loop latitude longitude zones
      else and_then (zone_ring zone) (\<lambda>ring_opt. case ring_opt of
          None \<Rightarrow> geofence_loop latitude longitude zones
        | Some ring \<Rightarrow>
            if point_in_polygon latitude longitude ring
            then Inr (Some \<lparr>iza_zone_id = zc_id zone, iza_zone_kind = ''geofence'', iza_source = ''geofence''\<rparr>)
            else geofence_loop latitude longitude zones))"

definition attribute_geofence ::
    "real \<Rightarrow> real \<Rightarrow> zone_candidate list \<Rightarrow> py_exn + isolated_zone_attribution option" where
  "attribute_geofence latitude longitude zones = geofence_loop latitude longitude (sorted_by_created_at zones)"

definition attribute ::
    "uuid option \<Rightarrow> real option \<Rightarrow> real option \<Rightarrow> zone_candidate list \<Rightarrow> py_exn + isolated_zone_attribution option" where
  "attribute reader_id latitude longitude zones =
     (let bound = (case reader_id of None \<Rightarrow> None | Some r \<Rightarrow> attribute_reader_bound r zones) in
      case bound of
        Some result \<Rightarrow> Inr (Some result)
      | None \<Rightarrow> (case (latitude, longitude) of
            (Some lat, Some lon) \<Rightarrow> attribute_geofence lat lon zones
          | _ \<Rightarrow> Inr None))"

section \<open>The attributed zone is the oldest match\<close>

definition reader_matches :: "uuid \<Rightarrow> zone_candidate \<Rightarrow> bool" where
  "reader_matches reader_id zone \<longleftrightarrow> zc_kind zone = ''reader_bound'' \<and>
     (\<exists>rs. fixed_reader_ids zone = Some rs \<and> str_uuid reader_id \<in> set rs)"

definition fence_contains :: "real \<Rightarrow> real \<Rightarrow> zone_candidate \<Rightarrow> bool" where
  "fence_contains lat lon zone \<longleftrightarrow> zc_kind zone = ''geofence'' \<and>
     (\<exists>ring. zone_ring zone = Inr (Some ring) \<and> point_in_polygon lat lon ring)"

text \<open>A candidate whose polygon can be read and whose stored box, where there is one, is its ring's.\<close>

definition wf_zone :: "zone_candidate \<Rightarrow> bool" where
  "wf_zone zone \<longleftrightarrow> zc_kind zone = ''geofence'' \<longrightarrow>
     (\<exists>r. zone_ring zone = Inr r \<and>
       (\<forall>ring. r = Some ring \<longrightarrow>
         stores_box (bbox_min_lat zone) (bbox_max_lat zone) (bbox_min_lon zone) (bbox_max_lon zone) (ring_bbox ring)))"

definition oldest :: "(zone_candidate \<Rightarrow> bool) \<Rightarrow> zone_candidate list \<Rightarrow> zone_candidate option" where
  "oldest p zones = find p (sorted_by_created_at zones)"

lemma set_sorted_by_created_at [simp]: "set (sorted_by_created_at zones) = set zones"
  by (simp add: sorted_by_created_at_def)

lemma find_sorted_least:
  "sorted (map f xs) \<Longrightarrow> find p xs = Some x \<Longrightarrow> y \<in> set xs \<Longrightarrow> p y \<Longrightarrow> f x \<le> f y"
  by (induction xs) (auto split: if_splits)

lemma oldest_Some:
  assumes "oldest p zones = Some z"
  shows "z \<in> set zones" and "p z" and "z' \<in> set zones \<Longrightarrow> p z' \<Longrightarrow> created_at z \<le> created_at z'"
proof -
  from assms have f: "find p (sorted_by_created_at zones) = Some z" by (simp add: oldest_def)
  have sorted: "sorted (map created_at (sorted_by_created_at zones))" by (simp add: sorted_by_created_at_def)
  from f obtain i where i: "i < length (sorted_by_created_at zones)" "p z" "z = sorted_by_created_at zones ! i"
    by (auto simp: find_Some_iff)
  then have "z \<in> set (sorted_by_created_at zones)" by (metis nth_mem)
  then show "z \<in> set zones" by simp
  show "p z" by (rule i(2))
  show "z' \<in> set zones \<Longrightarrow> p z' \<Longrightarrow> created_at z \<le> created_at z'"
    using find_sorted_least [OF sorted f] by simp
qed

lemma oldest_None: "oldest p zones = None \<longleftrightarrow> (\<forall>z \<in> set zones. \<not> p z)"
  by (auto simp: oldest_def find_None_iff)

lemma reader_bound_loop_find:
  "reader_bound_loop (str_uuid r) zs =
    map_option (\<lambda>z. \<lparr>iza_zone_id = zc_id z, iza_zone_kind = ''reader_bound'', iza_source = ''reader_bound''\<rparr>)
      (find (reader_matches r) zs)"
proof (induction zs)
  case (Cons z zs)
  show ?case
  proof (cases "reader_matches r z")
    case True
    then show ?thesis by (auto simp: reader_matches_def)
  next
    case False
    moreover from False have "reader_bound_loop (str_uuid r) (z # zs) = reader_bound_loop (str_uuid r) zs"
      by (cases "fixed_reader_ids z") (simp_all add: reader_matches_def)
    ultimately show ?thesis using Cons.IH by simp
  qed
qed simp

lemma geofence_loop_find:
  assumes "\<forall>z \<in> set zs. wf_zone z"
  shows "geofence_loop lat lon zs =
    Inr (map_option (\<lambda>z. \<lparr>iza_zone_id = zc_id z, iza_zone_kind = ''geofence'', iza_source = ''geofence''\<rparr>)
      (find (fence_contains lat lon) zs))"
  using assms
proof (induction zs)
  case (Cons z zs)
  then have IH: "geofence_loop lat lon zs = Inr (map_option
      (\<lambda>z. \<lparr>iza_zone_id = zc_id z, iza_zone_kind = ''geofence'', iza_source = ''geofence''\<rparr>)
      (find (fence_contains lat lon) zs))" by simp
  show ?case
  proof (cases "zc_kind z = ''geofence''")
    case False
    then have "\<not> fence_contains lat lon z" by (simp add: fence_contains_def)
    with False show ?thesis by (simp add: IH)
  next
    case True
    then obtain r where r: "zone_ring z = Inr r" and box: "\<And>ring. r = Some ring \<Longrightarrow>
        stores_box (bbox_min_lat z) (bbox_max_lat z) (bbox_min_lon z) (bbox_max_lon z) (ring_bbox ring)"
      using Cons.prems by (auto simp: wf_zone_def)
    have pre: "\<not> prefilter_rejects z lat lon" if "r = Some ring" "point_in_polygon lat lon ring" for ring
      using geo.prefilter_harmless [OF box [OF that(1)] that(2)] by (simp add: prefilter_rejects_def)
    have iff: "fence_contains lat lon z \<longleftrightarrow> (\<exists>ring. r = Some ring \<and> point_in_polygon lat lon ring)"
      using True r by (simp add: fence_contains_def)
    show ?thesis
    proof (cases "fence_contains lat lon z")
      case hit: True
      then obtain ring where ring: "r = Some ring" "point_in_polygon lat lon ring" using iff by blast
      show ?thesis using True r ring pre [OF ring] hit by simp
    next
      case miss: False
      then have "r = None \<or> (\<exists>ring. r = Some ring \<and> \<not> point_in_polygon lat lon ring)" using iff by (cases r) auto
      then show ?thesis using True r miss by (auto simp: IH)
    qed
  qed
qed simp

text \<open>C34: for candidates whose stored bounding boxes are those of their polygons, single-zone attribution
  returns the oldest zone that lists the reader; failing that, the oldest geofence that contains the
  fix; and nothing exactly when neither exists.  The bounding-box shortcut and the order in which the
  candidates arrive do not matter.\<close>

theorem attribute_oldest:
  assumes "\<forall>z \<in> set zones. wf_zone z"
  shows "attribute reader_id latitude longitude zones =
    (case (case reader_id of None \<Rightarrow> None | Some r \<Rightarrow> oldest (reader_matches r) zones) of
       Some z \<Rightarrow> Inr (Some \<lparr>iza_zone_id = zc_id z, iza_zone_kind = ''reader_bound'', iza_source = ''reader_bound''\<rparr>)
     | None \<Rightarrow> (case (latitude, longitude) of
         (Some lat, Some lon) \<Rightarrow>
           (case oldest (fence_contains lat lon) zones of
              None \<Rightarrow> Inr None
            | Some z \<Rightarrow> Inr (Some \<lparr>iza_zone_id = zc_id z, iza_zone_kind = ''geofence'', iza_source = ''geofence''\<rparr>))
       | _ \<Rightarrow> Inr None))"
proof -
  have wf: "\<forall>z \<in> set (sorted_by_created_at zones). wf_zone z" using assms by simp
  note loops = reader_bound_loop_find geofence_loop_find [OF wf]
  show ?thesis
  proof (cases "case reader_id of None \<Rightarrow> None | Some r \<Rightarrow> oldest (reader_matches r) zones")
    case (Some z)
    then show ?thesis
      by (cases reader_id) (simp_all add: attribute_def attribute_reader_bound_def loops oldest_def)
  next
    case None
    then have "(case reader_id of None \<Rightarrow> None | Some r \<Rightarrow> attribute_reader_bound r zones) = None"
      by (cases reader_id) (simp_all add: attribute_reader_bound_def loops oldest_def)
    with None show ?thesis
      by (cases latitude; cases longitude)
         (simp_all add: attribute_def attribute_geofence_def loops oldest_def split: option.splits)
  qed
qed

definition demo_zone :: zone_candidate where
  "demo_zone = \<lparr>zc_id = 7, zc_kind = ''geofence'', created_at = 5, fixed_reader_ids = None,
     polygon_geojson = JObj [(''coordinates'', JList [JList [JList [JInt 0, JInt 0], JList [JInt 2, JInt 0],
        JList [JInt 2, JInt 2], JList [JInt 0, JInt 2], JList [JInt 0, JInt 0]]])],
     bbox_min_lat = Some 0, bbox_max_lat = Some 2, bbox_min_lon = Some 0, bbox_max_lon = Some 2\<rparr>"

lemma demo_zone_ring: "zone_ring demo_zone = Inr (Some [(0, 0), (2, 0), (2, 2), (0, 2), (0, 0)])"
  by (simp add: demo_zone_def zone_ring_def ring_of_polygon_def ring_point_def to_real_def float_limit_def)

theorem attribute_oldest_witness:
  "attribute None (Some 1) (Some 1) [demo_zone]
    = Inr (Some \<lparr>iza_zone_id = 7, iza_zone_kind = ''geofence'', iza_source = ''geofence''\<rparr>)"
proof -
  have wf: "\<forall>z \<in> set [demo_zone]. wf_zone z"
    by (simp add: wf_zone_def demo_zone_ring ring_bbox_def bound_of_def) (simp add: demo_zone_def)
  have "fence_contains 1 1 demo_zone"
    unfolding fence_contains_def demo_zone_ring
    by (simp add: demo_zone_def point_in_polygon_def upt_rec Let_def)
  then have "oldest (fence_contains 1 1) [demo_zone] = Some demo_zone"
    by (simp add: oldest_def sorted_by_created_at_def)
  moreover have "zc_id demo_zone = 7" by (simp add: demo_zone_def)
  ultimately show ?thesis using attribute_oldest [OF wf, of None "Some 1" "Some 1"] by simp
qed

end
