(* ===== verification/Overlapping.thy ===== *)
theory Overlapping
  imports Zones Rules "HOL-Library.Product_Lexorder"
begin

text \<open>
  The overlapping-zones processor (\<open>src/tagpulse/signaling/overlapping_zones.py\<close>): the configuration
  read from a rule, the aggregation of reads into (asset, zone) attributions with aging weights and
  the zone-bleed filter, and the processor around it, whose two queries are comprehensions over the
  rows of the tables.  The loop invariant \<open>agg_inv\<close> says that the running total of an asset is the sum of
  the weights of its buckets; from it the confidences of an asset are positive and sum to one.
\<close>

section \<open>Reads and configuration\<close>

record attribution_read =
  ar_asset_id :: uuid
  ar_reader_id :: uuid
  ar_timestamp :: datetime
  ar_signal_strength :: "real option"
  ar_latitude :: "real option"
  ar_longitude :: "real option"

record aggregation_config =
  aggregation_window_s :: int
  min_rssi_dbm :: "real option"
  zone_bleed_filter :: bool
  zone_bleed_share_threshold :: real
  aging_weight :: real
  aging_bucket_s :: int
  time_error_filter_s :: int

record zone_attribution =
  za_asset_id :: uuid
  za_zone_id :: uuid
  za_site_id :: uuid
  za_confidence :: real
  za_window_start :: datetime
  za_window_end :: datetime
  za_contributing_reads :: int
  za_contributing_readers :: "uuid list"

text \<open>\<open>condition_config.get("processor_config") or {}\<close>, on which \<open>in\<close> and \<open>.get\<close> are then used.\<close>

definition processor_config :: "jobj \<Rightarrow> py_exn + jobj" where
  "processor_config config =
     (let v = jget config ''processor_config'' in
      if \<not> truthy v then Inr []
      else case v of JObj d \<Rightarrow> Inr d | _ \<Rightarrow> Inl TypeError)"

definition from_rule_config :: "jobj \<Rightarrow> py_exn + aggregation_config" where
  "from_rule_config config =
     and_then (processor_config config) (\<lambda>proc.
     and_then (case map_of proc ''min_rssi_dbm'' of
         None \<Rightarrow> Inr (Some (- 80))
       | Some JNull \<Rightarrow> Inr None
       | Some v \<Rightarrow> map_sum id Some (to_real v)) (\<lambda>min_rssi.
     and_then (to_int (jget_or proc ''aggregation_window_s'' (JInt 60))) (\<lambda>window.
     and_then (to_real (jget_or proc ''zone_bleed_share_threshold'' (JFloat (Fin (1 / 10))))) (\<lambda>share.
     and_then (to_real (jget_or proc ''aging_weight'' (JFloat (Fin 1)))) (\<lambda>aging.
     and_then (to_int (jget_or proc ''aging_bucket_s'' (JInt 60))) (\<lambda>bucket.
     and_then (to_int (jget_or proc ''time_error_filter'' (JInt 5))) (\<lambda>skew.
       Inr \<lparr>aggregation_window_s = window, min_rssi_dbm = min_rssi,
            zone_bleed_filter = truthy (jget_or proc ''zone_bleed_filter'' (JBool True)),
            zone_bleed_share_threshold = share, aging_weight = aging, aging_bucket_s = bucket,
            time_error_filter_s = skew\<rparr>)))))))"

section \<open>Zones of one read\<close>

fun attributable_zones_for_read :: "attribution_read \<Rightarrow> zone_candidate list \<Rightarrow> py_exn + zone_candidate list" where
  "attributable_zones_for_read read [] = Inr []"
| "attributable_zones_for_read read (zone # zones) =
     (let rest = attributable_zones_for_read read zones;
          matched = and_then rest (\<lambda>ms. Inr (zone # ms))
      in if zc_kind zone = ''reader_bound''
         then (if str_uuid (ar_reader_id read) \<in> set (case fixed_reader_ids zone of None \<Rightarrow> [] | Some rs \<Rightarrow> rs)
               then matched else rest)
         else if zc_kind zone = ''geofence''
         then (case (ar_latitude read, ar_longitude read) of
             (Some latitude, Some longitude) \<Rightarrow>
               if prefilter_rejects zone latitude longitude then rest
               else and_then (zone_ring zone) (\<lambda>ring_opt. case ring_opt of
                   None \<Rightarrow> rest
                 | Some ring \<Rightarrow> if point_in_polygon latitude longitude ring then matched else rest)
           | _ \<Rightarrow> rest)
         else rest)"

definition age_weight :: "datetime \<Rightarrow> datetime \<Rightarrow> aggregation_config \<Rightarrow> real" where
  "age_weight timestamp window_end config =
     (if aging_weight config = 1 then 1
      else (let age_s = max 0 (total_seconds (window_end - timestamp));
                buckets = \<lfloor>age_s / of_int (max 1 (aging_bucket_s config))\<rfloor>
            in aging_weight config ^ nat buckets))"

section \<open>Aggregation\<close>

record bucket =
  b_weight :: real
  b_reads :: int
  b_readers :: "uuid list" \<comment> \<open>a set: no reader twice\<close>

type_synonym buckets = "(uuid \<times> uuid, bucket) pydict"
type_synonym totals = "(uuid, real) pydict"

definition get_total :: "totals \<Rightarrow> uuid \<Rightarrow> real" where
  "get_total totals a = (case map_of totals a of None \<Rightarrow> 0 | Some t \<Rightarrow> t)"

definition add_to_zone :: "attribution_read \<Rightarrow> real \<Rightarrow> zone_candidate \<Rightarrow> buckets \<times> totals \<Rightarrow> buckets \<times> totals" where
  "add_to_zone read weight zone = (\<lambda>(buckets, asset_totals).
     let key = (ar_asset_id read, zc_id zone);
         bucket = (case map_of buckets key of Some b \<Rightarrow> b | None \<Rightarrow> \<lparr>b_weight = 0, b_reads = 0, b_readers = []\<rparr>)
     in (dict_set key \<lparr>b_weight = b_weight bucket + weight, b_reads = b_reads bucket + 1,
                       b_readers = List.insert (ar_reader_id read) (b_readers bucket)\<rparr> buckets,
         dict_set (ar_asset_id read) (get_total asset_totals (ar_asset_id read) + weight) asset_totals))"

definition window_start_of :: "aggregation_config \<Rightarrow> datetime \<Rightarrow> datetime" where
  "window_start_of config window_end =
     window_end - seconds (aggregation_window_s config + max 0 (time_error_filter_s config))"

definition rssi_rejects :: "aggregation_config \<Rightarrow> attribution_read \<Rightarrow> bool" where
  "rssi_rejects config read =
     (case (min_rssi_dbm config, ar_signal_strength read) of
        (Some lo, Some s) \<Rightarrow> s < lo | _ \<Rightarrow> False)"

fun aggregate_reads ::
    "aggregation_config \<Rightarrow> datetime \<Rightarrow> zone_candidate list \<Rightarrow> attribution_read list \<Rightarrow> buckets \<times> totals
      \<Rightarrow> py_exn + buckets \<times> totals" where
  "aggregate_reads config window_end zones [] st = Inr st"
| "aggregate_reads config window_end zones (read # reads) st =
     (if ar_timestamp read < window_start_of config window_end \<or> ar_timestamp read > window_end
      then aggregate_reads config window_end zones reads st
      else if rssi_rejects config read then aggregate_reads config window_end zones reads st
      else and_then (attributable_zones_for_read read zones) (\<lambda>matched_zones.
        if matched_zones = [] then aggregate_reads config window_end zones reads st
        else (let weight = age_weight (ar_timestamp read) window_end config in
          if weight \<le> 0 then aggregate_reads config window_end zones reads st
          else aggregate_reads config window_end zones reads (fold (add_to_zone read weight) matched_zones st))))"

definition survives :: "aggregation_config \<Rightarrow> totals \<Rightarrow> (uuid \<times> uuid) \<times> bucket \<Rightarrow> bool" where
  "survives config asset_totals = (\<lambda>((asset_id, zone_id), bucket).
     let t = get_total asset_totals asset_id in
     \<not> t \<le> 0 \<and> \<not> b_weight bucket / t < zone_bleed_share_threshold config)"

definition retotal :: "buckets \<Rightarrow> totals" where
  "retotal survivors =
     fold (\<lambda>((asset_id, _), bucket) t. dict_set asset_id (get_total t asset_id + b_weight bucket) t) survivors []"

definition zone_bleed :: "aggregation_config \<Rightarrow> buckets \<times> totals \<Rightarrow> buckets \<times> totals" where
  "zone_bleed config = (\<lambda>(buckets, asset_totals).
     if zone_bleed_filter config
     then (let survivors = filter (survives config asset_totals) buckets in (survivors, retotal survivors))
     else (buckets, asset_totals))"

definition attribution_of ::
    "aggregation_config \<Rightarrow> datetime \<Rightarrow> (uuid, uuid) pydict \<Rightarrow> totals \<Rightarrow> (uuid \<times> uuid) \<times> bucket
      \<Rightarrow> zone_attribution option" where
  "attribution_of config window_end site_by_zone asset_totals = (\<lambda>((asset_id, zone_id), bucket).
     let t = get_total asset_totals asset_id in
     if t \<le> 0 then None
     else case map_of site_by_zone zone_id of
         None \<Rightarrow> None
       | Some site_id \<Rightarrow>
           Some \<lparr>za_asset_id = asset_id, za_zone_id = zone_id, za_site_id = site_id,
                 za_confidence = min 1 (max 0 (b_weight bucket / t)),
                 za_window_start = window_end - seconds (aggregation_window_s config),
                 za_window_end = window_end, za_contributing_reads = b_reads bucket,
                 za_contributing_readers = sort_key str_uuid (b_readers bucket)\<rparr>)"

definition sort_attributions :: "zone_attribution list \<Rightarrow> zone_attribution list" where
  "sort_attributions out = sort_key (\<lambda>a. (str_uuid (za_asset_id a), str_uuid (za_zone_id a))) out"

definition aggregate ::
    "attribution_read list \<Rightarrow> zone_candidate list \<Rightarrow> (uuid, uuid) pydict \<Rightarrow> aggregation_config \<Rightarrow> datetime
      \<Rightarrow> py_exn + zone_attribution list" where
  "aggregate reads zones site_by_zone config window_end =
     and_then (aggregate_reads config window_end zones reads ([], [])) (\<lambda>(buckets, asset_totals).
       if buckets = [] then Inr []
       else (let (buckets', asset_totals') = zone_bleed config (buckets, asset_totals) in
         Inr (sort_attributions
           (List.map_filter (attribution_of config window_end site_by_zone asset_totals') buckets'))))"

section \<open>The processor\<close>

record zone_row =
  zr_id :: uuid
  zr_tenant_id :: uuid
  zr_site_id :: uuid
  zr_kind :: string
  zr_created_at :: datetime
  zr_fixed_reader_ids :: "string list option"
  zr_polygon_geojson :: json
  zr_bbox :: "real option \<times> real option \<times> real option \<times> real option"

record tag_read_row =
  tr_tenant_id :: uuid
  tr_device_id :: uuid
  tr_tag_id :: string
  tr_epc :: "string option"
  tr_epc_hex :: "string option"
  tr_tid :: "string option"
  tr_timestamp :: datetime
  tr_signal_strength :: "real option"
  tr_latitude :: "real option"
  tr_longitude :: "real option"

record binding_row =
  bd_tenant_id :: uuid
  bd_asset_id :: uuid
  bd_value :: string
  bd_kind :: string
  bd_unbound_at :: "datetime option"

definition candidate_of_row :: "zone_row \<Rightarrow> zone_candidate" where
  "candidate_of_row row = (case zr_bbox row of (a, b, c, d) \<Rightarrow>
     \<lparr>zc_id = zr_id row, zc_kind = zr_kind row, created_at = zr_created_at row,
      fixed_reader_ids = (case zr_fixed_reader_ids row of None \<Rightarrow> None | Some rs \<Rightarrow> if rs = [] then None else Some rs),
      polygon_geojson = zr_polygon_geojson row,
      bbox_min_lat = a, bbox_max_lat = b, bbox_min_lon = c, bbox_max_lon = d\<rparr>)"

definition load_zones :: "zone_row list \<Rightarrow> uuid \<Rightarrow> zone_candidate list \<times> (uuid, uuid) pydict" where
  "load_zones table tenant_id =
     (let rows = sort_key zr_created_at
            (filter (\<lambda>z. zr_tenant_id z = tenant_id \<and> zr_kind z \<in> {''reader_bound'', ''geofence''}) table)
      in (map candidate_of_row rows, fold (\<lambda>row d. dict_set (zr_id row) (zr_site_id row) d) rows []))"

text \<open>The join condition of \<open>_READS_SQL\<close>; a comparison with \<open>NULL\<close> is not true.\<close>

definition binding_matches :: "binding_row \<Rightarrow> tag_read_row \<Rightarrow> bool" where
  "binding_matches b tr \<longleftrightarrow>
     bd_tenant_id b = tr_tenant_id tr \<and> bd_unbound_at b = None \<and>
     (bd_kind b = ''epc'' \<and> (tr_epc tr = Some (bd_value b) \<or> tr_epc_hex tr = Some (bd_value b))
      \<or> bd_kind b = ''tid'' \<and> tr_tid tr = Some (bd_value b)
      \<or> bd_kind b = ''device'' \<and> tr_tag_id tr = bd_value b)"

definition load_reads ::
    "tag_read_row list \<Rightarrow> binding_row list \<Rightarrow> uuid \<Rightarrow> datetime \<Rightarrow> datetime \<Rightarrow> attribution_read list" where
  "load_reads tag_reads bindings tenant_id window_start window_end =
     [ \<lparr>ar_asset_id = bd_asset_id b, ar_reader_id = tr_device_id tr, ar_timestamp = tr_timestamp tr,
        ar_signal_strength = tr_signal_strength tr, ar_latitude = tr_latitude tr, ar_longitude = tr_longitude tr\<rparr>.
       tr \<leftarrow> tag_reads, b \<leftarrow> bindings,
       binding_matches b tr, tr_tenant_id tr = tenant_id,
       tr_timestamp tr \<ge> window_start, tr_timestamp tr \<le> window_end ]"

text \<open>
  The published event: the payload's values before they are rendered as texts (\<open>str\<close>, \<open>isoformat\<close>), and
  without the event's random id.
\<close>

record settled_event =
  se_timestamp :: datetime
  se_tenant_id :: uuid
  se_attribution :: zone_attribution
  se_rule_id :: uuid

definition publish_attribution :: "rule \<Rightarrow> zone_attribution \<Rightarrow> settled_event" where
  "publish_attribution rule attribution =
     \<lparr>se_timestamp = za_window_end attribution, se_tenant_id = r_tenant_id rule,
      se_attribution = attribution, se_rule_id = r_id rule\<rparr>"

text \<open>The events published; their number is the result of the method.\<close>

definition run_once_for_rule ::
    "zone_row list \<Rightarrow> tag_read_row list \<Rightarrow> binding_row list \<Rightarrow> rule \<Rightarrow> datetime
      \<Rightarrow> py_exn + settled_event list" where
  "run_once_for_rule zone_table tag_reads bindings rule now =
     and_then (from_rule_config (condition_config rule)) (\<lambda>config.
       let window_end = now;
           window_start_with_skew = window_start_of config window_end;
           (zones, site_by_zone) = load_zones zone_table (r_tenant_id rule)
       in if zones = [] then Inr []
          else (let reads = load_reads tag_reads bindings (r_tenant_id rule) window_start_with_skew window_end in
            and_then (aggregate reads zones site_by_zone config window_end) (\<lambda>attributions.
              Inr (map (publish_attribution rule) attributions))))"

section \<open>The loop invariant\<close>

definition weight_of :: "uuid \<Rightarrow> buckets \<Rightarrow> real" where
  "weight_of a = dict_sum (\<lambda>k b. if fst k = a then b_weight b else 0)"

definition good_bucket :: "bucket \<Rightarrow> bool" where
  "good_bucket b \<longleftrightarrow> 0 < b_weight b \<and> 0 < b_reads b \<and> b_readers b \<noteq> [] \<and> distinct (b_readers b)"

text \<open>\<open>supported key\<close> says what the read that opened a bucket has shown.\<close>

definition agg_inv :: "(uuid \<times> uuid \<Rightarrow> bool) \<Rightarrow> buckets \<times> totals \<Rightarrow> bool" where
  "agg_inv supported = (\<lambda>(buckets, asset_totals).
     wf_dict buckets \<and> (\<forall>(k, b) \<in> set buckets. good_bucket b \<and> supported k)
     \<and> (\<forall>a. get_total asset_totals a = weight_of a buckets))"

lemma weight_of_nonneg: "(\<forall>(k, b) \<in> set buckets. good_bucket b \<and> S k) \<Longrightarrow> 0 \<le> weight_of a buckets"
  unfolding weight_of_def by (rule dict_sum_nonneg) (fastforce simp: good_bucket_def)

lemma weight_of_ge:
  assumes "\<forall>(k, b) \<in> set buckets. good_bucket b \<and> S k" and "((a, z), b) \<in> set buckets"
  shows "b_weight b \<le> weight_of a buckets"
proof -
  have "(\<lambda>k b. if fst k = a then b_weight b else 0) (a, z) b
      \<le> dict_sum (\<lambda>k b. if fst k = a then b_weight b else 0) buckets"
    by (rule dict_sum_ge_entry [OF _ assms(2)]) (use assms(1) in \<open>fastforce simp: good_bucket_def\<close>)
  then show ?thesis by (simp add: weight_of_def)
qed

lemma get_total_set [simp]: "get_total (dict_set k v t) a = (if a = k then v else get_total t a)"
  by (simp add: get_total_def)

lemma get_total_Nil [simp]: "get_total [] a = 0"
  by (simp add: get_total_def)

lemma add_to_zone_inv:
  assumes "agg_inv S st" and "0 < w" and "S (ar_asset_id read, zc_id zone)"
  shows "agg_inv S (add_to_zone read w zone st)"
proof (cases st)
  case (Pair bs ts)
  define key where "key = (ar_asset_id read, zc_id zone)"
  define b0 where "b0 = (case map_of bs key of Some b \<Rightarrow> b | None \<Rightarrow> \<lparr>b_weight = 0, b_reads = 0, b_readers = []\<rparr>)"
  define b1 where "b1 = \<lparr>b_weight = b_weight b0 + w, b_reads = b_reads b0 + 1,
      b_readers = List.insert (ar_reader_id read) (b_readers b0)\<rparr>"
  have wf: "wf_dict bs" and all: "\<forall>(k, b) \<in> set bs. good_bucket b \<and> S k"
    and tot: "\<And>a. get_total ts a = weight_of a bs"
    using assms(1) Pair by (auto simp: agg_inv_def)
  have b0: "0 \<le> b_weight b0 \<and> 0 \<le> b_reads b0 \<and> distinct (b_readers b0)"
    using all map_of_SomeD [of bs key] by (fastforce simp: b0_def good_bucket_def split: option.splits)
  have b1: "good_bucket b1"
    using b0 assms(2) by (auto simp: b1_def good_bucket_def List.insert_def)
  have eq: "add_to_zone read w zone st = (dict_set key b1 bs, dict_set (ar_asset_id read) (get_total ts (ar_asset_id read) + w) ts)"
    by (simp add: add_to_zone_def Pair Let_def key_def b0_def b1_def)
  have "weight_of a (dict_set key b1 bs) = weight_of a bs + (if fst key = a then w else 0)" for a
  proof -
    have "(case map_of bs key of None \<Rightarrow> 0 | Some v0 \<Rightarrow> if fst key = a then b_weight v0 else 0)
        = (if fst key = a then b_weight b0 else 0)"
      by (simp add: b0_def split: option.splits)
    then show ?thesis by (simp add: weight_of_def dict_sum_set b1_def)
  qed
  moreover have "\<forall>(k, b) \<in> set (dict_set key b1 bs). good_bucket b \<and> S k"
    using all b1 assms(3) set_dict_set [of _ _ key b1 bs] by (fastforce simp: key_def)
  ultimately show ?thesis
    unfolding eq agg_inv_def using wf tot by (simp add: key_def)
qed

lemma add_zones_inv:
  assumes "agg_inv S st" and "0 < w" and "\<forall>zone \<in> set zones. S (ar_asset_id read, zc_id zone)"
  shows "agg_inv S (fold (add_to_zone read w) zones st)"
  using assms by (induction zones arbitrary: st) (simp_all add: add_to_zone_inv del: split_paired_All)

text \<open>A read counts towards an asset and a zone if it passes the window and the floor and satisfies the zone.\<close>

definition counts_for ::
    "aggregation_config \<Rightarrow> datetime \<Rightarrow> zone_candidate list \<Rightarrow> attribution_read \<Rightarrow> uuid \<times> uuid \<Rightarrow> bool" where
  "counts_for config window_end zones read = (\<lambda>(asset_id, zone_id).
     ar_asset_id read = asset_id \<and> window_start_of config window_end \<le> ar_timestamp read \<and>
     ar_timestamp read \<le> window_end \<and> \<not> rssi_rejects config read \<and>
     (case attributable_zones_for_read read zones of
        Inl e \<Rightarrow> False | Inr matched \<Rightarrow> zone_id \<in> zc_id ` set matched))"

lemma aggregate_reads_inv:
  assumes "aggregate_reads config window_end zones reads st = Inr st'"
    and "agg_inv S st" and "\<And>read k. read \<in> set reads \<Longrightarrow> counts_for config window_end zones read k \<Longrightarrow> S k"
  shows "agg_inv S st'"
  using assms
proof (induction reads arbitrary: st)
  case (Cons read reads)
  have IH: "agg_inv S st'" if "aggregate_reads config window_end zones reads st0 = Inr st'" "agg_inv S st0" for st0
    using Cons.IH [OF that] Cons.prems(3) by (meson list.set_intros(2))
  show ?case
  proof (cases "(ar_timestamp read < window_start_of config window_end \<or> ar_timestamp read > window_end) \<or> rssi_rejects config read")
    case True
    then show ?thesis using Cons.prems(1,2) IH by (auto split: if_splits)
  next
    case False
    with Cons.prems(1) obtain ms where ms: "attributable_zones_for_read read zones = Inr ms"
      by (auto simp: and_then_eq_Inr)
    have S: "\<forall>zone \<in> set ms. S (ar_asset_id read, zc_id zone)"
      using False ms by (intro ballI Cons.prems(3) [of read]) (auto simp: counts_for_def)
    define w where "w = age_weight (ar_timestamp read) window_end config"
    show ?thesis
    proof (cases "ms = [] \<or> w \<le> 0")
      case True
      then show ?thesis using Cons.prems(1,2) IH False ms by (auto simp: w_def split: if_splits)
    next
      case keep: False
      then have "aggregate_reads config window_end zones reads (fold (add_to_zone read w) ms st) = Inr st'"
        using Cons.prems(1) False ms by (simp add: w_def Let_def)
      then show ?thesis by (rule IH) (rule add_zones_inv, use keep S Cons.prems(2) in auto)
    qed
  qed
qed simp

lemma get_total_fold:
  "get_total (fold (\<lambda>((asset_id, _), bucket) t. dict_set asset_id (get_total t asset_id + b_weight bucket) t) bs t) a
    = get_total t a + weight_of a bs"
  by (induction bs arbitrary: t) (auto simp: weight_of_def)

lemma retotal_total: "get_total (retotal bs) a = weight_of a bs"
  by (simp add: retotal_def get_total_fold del: fold_simps)

lemma weight_of_filter_le:
  assumes "\<forall>(k, b) \<in> set bs. good_bucket b \<and> S k"
  shows "weight_of a (filter P bs) \<le> weight_of a bs"
  using assms
proof (induction bs)
  case (Cons e bs)
  obtain k b where e: "e = (k, b)" by (cases e)
  have "0 < b_weight b" using Cons.prems e by (simp add: good_bucket_def)
  with Cons e show ?case by (auto simp: weight_of_def intro: add_increasing)
qed (simp add: weight_of_def)

text \<open>After the bleed filter the invariant holds again, and every bucket keeps at least the configured share.\<close>

lemma zone_bleed_inv:
  assumes "agg_inv S (bs, ts)" and "zone_bleed config (bs, ts) = (bs', ts')"
  shows "agg_inv S (bs', ts')"
    and "zone_bleed_filter config \<Longrightarrow> ((a, z), b) \<in> set bs' \<Longrightarrow>
           zone_bleed_share_threshold config \<le> b_weight b / weight_of a bs'"
proof -
  from assms(1) have wf: "wf_dict bs" and all: "\<forall>(k, b) \<in> set bs. good_bucket b \<and> S k"
    and tot: "\<And>a. get_total ts a = weight_of a bs" by (auto simp: agg_inv_def)
  show inv: "agg_inv S (bs', ts')"
  proof (cases "zone_bleed_filter config")
    case True
    with assms(2) have eq: "bs' = filter (survives config ts) bs" "ts' = retotal bs'" by (auto simp: zone_bleed_def Let_def)
    have "wf_dict bs'" unfolding eq(1) using wf by (rule distinct_map_filter)
    moreover have "\<forall>(k, b) \<in> set bs'. good_bucket b \<and> S k" using all eq(1) by auto
    ultimately show ?thesis by (simp add: agg_inv_def eq(2) retotal_total)
  next
    case False
    then show ?thesis using assms by (simp add: zone_bleed_def)
  qed
  show "zone_bleed_share_threshold config \<le> b_weight b / weight_of a bs'"
    if on: "zone_bleed_filter config" and mem: "((a, z), b) \<in> set bs'"
  proof -
    from assms(2) on have eq: "bs' = filter (survives config ts) bs" by (auto simp: zone_bleed_def Let_def)
    with mem have share: "0 < weight_of a bs" "zone_bleed_share_threshold config \<le> b_weight b / weight_of a bs"
      by (auto simp: survives_def tot Let_def)
    have pos: "0 < b_weight b" "b_weight b \<le> weight_of a bs'"
      using inv mem weight_of_ge [of bs' S a z b] by (auto simp: agg_inv_def good_bucket_def)
    moreover have "weight_of a bs' \<le> weight_of a bs" unfolding eq by (rule weight_of_filter_le [OF all])
    ultimately have "b_weight b / weight_of a bs \<le> b_weight b / weight_of a bs'"
      by (intro divide_left_mono mult_pos_pos) auto
    with share show ?thesis by linarith
  qed
qed

section \<open>The attributions\<close>

lemma attributable_subset: "attributable_zones_for_read read zones = Inr ms \<Longrightarrow> set ms \<subseteq> set zones"
proof (induction zones arbitrary: ms)
  case (Cons zone zones)
  have "attributable_zones_for_read read zones = Inr ms \<or>
      (\<exists>ms'. attributable_zones_for_read read zones = Inr ms' \<and> ms = zone # ms')"
    using Cons.prems by (auto simp: Let_def and_then_eq_Inr split: if_splits option.splits)
  with Cons.IH show ?case by auto
qed simp

lemma attribution_of_bucket:
  assumes "agg_inv S (bs, ts)" and "((a, z), b) \<in> set bs"
  shows "attribution_of config now sites ts ((a, z), b) =
    (case map_of sites z of None \<Rightarrow> None
     | Some site \<Rightarrow> Some \<lparr>za_asset_id = a, za_zone_id = z, za_site_id = site,
         za_confidence = b_weight b / weight_of a bs,
         za_window_start = now - seconds (aggregation_window_s config), za_window_end = now,
         za_contributing_reads = b_reads b, za_contributing_readers = sort_key str_uuid (b_readers b)\<rparr>)"
    and "0 < b_weight b" and "b_weight b \<le> weight_of a bs"
proof -
  show pos: "0 < b_weight b" "b_weight b \<le> weight_of a bs"
    using assms weight_of_ge [of bs S a z b] by (auto simp: agg_inv_def good_bucket_def)
  have "get_total ts a = weight_of a bs" using assms(1) by (simp add: agg_inv_def)
  with pos show "attribution_of config now sites ts ((a, z), b) =
    (case map_of sites z of None \<Rightarrow> None
     | Some site \<Rightarrow> Some \<lparr>za_asset_id = a, za_zone_id = z, za_site_id = site,
         za_confidence = b_weight b / weight_of a bs,
         za_window_start = now - seconds (aggregation_window_s config), za_window_end = now,
         za_contributing_reads = b_reads b, za_contributing_readers = sort_key str_uuid (b_readers b)\<rparr>)"
    by (auto simp: attribution_of_def Let_def min_def max_def divide_le_0_iff split: option.splits)
qed

definition pair_of :: "zone_attribution \<Rightarrow> uuid \<times> uuid" where
  "pair_of a = (za_asset_id a, za_zone_id a)"

definition sort_pair :: "zone_attribution \<Rightarrow> string \<times> string" where
  "sort_pair a = (str_uuid (za_asset_id a), str_uuid (za_zone_id a))"

text \<open>What \<open>aggregate\<close> returned, from the buckets it had collected.\<close>

lemma aggregate_cases:
  assumes "aggregate reads zones sites config now = Inr out"
  obtains bs ts where "agg_inv (\<lambda>k. \<exists>read \<in> set reads. counts_for config now zones read k) (bs, ts)"
    and "out = sort_attributions (List.map_filter (attribution_of config now sites ts) bs)"
    and "\<And>a z b. zone_bleed_filter config \<Longrightarrow> ((a, z), b) \<in> set bs \<Longrightarrow>
           zone_bleed_share_threshold config \<le> b_weight b / weight_of a bs"
proof -
  let ?S = "\<lambda>k. \<exists>read \<in> set reads. counts_for config now zones read k"
  from assms obtain bs ts where loop: "aggregate_reads config now zones reads ([], []) = Inr (bs, ts)"
    by (auto simp: aggregate_def and_then_eq_Inr)
  have inv: "agg_inv ?S (bs, ts)"
    by (rule aggregate_reads_inv [OF loop]) (auto simp: agg_inv_def weight_of_def)
  show thesis
  proof (cases "bs = []")
    case True
    then show thesis
      using that [of "[]" ts] assms loop inv by (auto simp: aggregate_def sort_attributions_def map_filter_simps)
  next
    case False
    obtain bs' ts' where bleed: "zone_bleed config (bs, ts) = (bs', ts')" by (cases "zone_bleed config (bs, ts)")
    with assms loop False have "out = sort_attributions (List.map_filter (attribution_of config now sites ts') bs')"
      by (auto simp: aggregate_def)
    with zone_bleed_inv [OF inv bleed] show thesis by (intro that [of bs' ts']) auto
  qed
qed

lemma sum_map_filter:
  "sum_list (map h (filter P (List.map_filter g xs)))
    = sum_list (map (\<lambda>x. case g x of None \<Rightarrow> 0 | Some y \<Rightarrow> if P y then h y else (0::real)) xs)"
  by (induction xs) (auto simp: map_filter_simps split: option.splits)

lemma sum_insort_key:
  "sum_list (map h (filter P (insort_key f x xs))) = (if P x then h x else 0) + (sum_list (map h (filter P xs)) :: real)"
  by (induction xs) auto

lemma sum_sort_key: "sum_list (map h (filter P (sort_key f xs))) = (sum_list (map h (filter P xs)) :: real)"
  by (induction xs) (auto simp: sum_insort_key)

lemma sum_list_over: "(\<Sum>x \<leftarrow> xs. f x / c) = (\<Sum>x \<leftarrow> xs. f x) / (c :: real)"
  by (induction xs) (simp_all add: add_divide_distrib)

lemma aggregate_sum:
  assumes "aggregate reads zones sites config now = Inr out"
    and "\<And>zone. zone \<in> set zones \<Longrightarrow> map_of sites (zc_id zone) \<noteq> None"
    and "x \<in> set out"
  shows "(\<Sum>y \<leftarrow> filter (\<lambda>y. za_asset_id y = za_asset_id x) out. za_confidence y) = 1"
proof -
  let ?S = "\<lambda>k. \<exists>read \<in> set reads. counts_for config now zones read k"
  from aggregate_cases [OF assms(1)] obtain bs ts where inv: "agg_inv ?S (bs, ts)"
    and out: "out = sort_attributions (List.map_filter (attribution_of config now sites ts) bs)" by blast
  define a where "a = za_asset_id x"
  let ?f = "attribution_of config now sites ts"
  have site: "map_of sites z \<noteq> None" if "((a', z), b) \<in> set bs" for a' z b
  proof -
    from inv that obtain read where "counts_for config now zones read (a', z)" by (auto simp: agg_inv_def)
    then obtain ms where ms: "attributable_zones_for_read read zones = Inr ms" "z \<in> zc_id ` set ms"
      by (auto simp: counts_for_def split: sum.splits)
    with attributable_subset [OF ms(1)] assms(2) show ?thesis by auto
  qed
  have summand: "(case ?f e of None \<Rightarrow> 0 | Some y \<Rightarrow> if za_asset_id y = a then za_confidence y else 0)
      = (case e of (k, b) \<Rightarrow> if fst k = a then b_weight b else 0) / weight_of a bs" if "e \<in> set bs" for e
  proof -
    obtain a' z b where e: "e = ((a', z), b)" by (metis surj_pair)
    with that have mem: "((a', z), b) \<in> set bs" by simp
    from site [OF mem] obtain site where "map_of sites z = Some site" by auto
    then show ?thesis using attribution_of_bucket(1) [OF inv mem, of config now sites] by (simp add: e)
  qed
  have "(\<Sum>y \<leftarrow> filter (\<lambda>y. za_asset_id y = a) out. za_confidence y)
      = (\<Sum>e \<leftarrow> bs. (case e of (k, b) \<Rightarrow> if fst k = a then b_weight b else 0) / weight_of a bs)"
    unfolding out sort_attributions_def sum_sort_key sum_map_filter using summand by (simp cong: map_cong)
  also have "\<dots> = weight_of a bs / weight_of a bs"
    unfolding weight_of_def dict_sum_def by (simp add: sum_list_over)
  also have "\<dots> = 1"
  proof -
    from assms(3) out obtain e where e: "e \<in> set bs" "?f e = Some x"
      by (auto simp: sort_attributions_def List.map_filter_def)
    obtain a' z b where e': "e = ((a', z), b)" by (metis surj_pair)
    with e have mem: "((a', z), b) \<in> set bs" by simp
    then have "a' = a" using e(2) attribution_of_bucket(1) [OF inv mem, of config now sites]
      by (auto simp: e' a_def split: option.splits)
    then have "0 < weight_of a bs" using attribution_of_bucket(2,3) [OF inv mem] by simp
    then show ?thesis by simp
  qed
  finally show ?thesis by (simp add: a_def)
qed

lemma map_filter_distinct:
  assumes "distinct (map f xs)" and "\<And>x y. x \<in> set xs \<Longrightarrow> g x = Some y \<Longrightarrow> h y = f x"
  shows "distinct (map h (List.map_filter g xs))"
  using assms
proof (induction xs)
  case (Cons x xs)
  have "f x \<notin> h ` set (List.map_filter g xs)" if "g x = Some y" for y
  proof
    assume "f x \<in> h ` set (List.map_filter g xs)"
    then obtain x' y' where "x' \<in> set xs" "g x' = Some y'" "f x = h y'"
      by (auto simp: List.map_filter_def)
    with Cons.prems show False by auto
  qed
  moreover have "h y = f x" if "g x = Some y" for y using Cons.prems(2) that by simp
  moreover have "distinct (map h (List.map_filter g xs))"
    by (rule Cons.IH) (use Cons.prems in simp_all)
  ultimately show ?case by (cases "g x") (simp_all add: map_filter_simps)
qed (simp add: map_filter_simps)

text \<open>Every attribution that \<open>aggregate\<close> returns is earned: its confidence is positive, at most one and, with
  the bleed filter on, at least the configured share; some read in the window that passes the RSSI
  floor satisfies the zone.  No (asset, zone) pair is reported twice, and the list is in the
  documented order.\<close>

theorem aggregate_sound:
  assumes "aggregate reads zones sites config now = Inr out"
  shows "distinct (map pair_of out) \<and> sorted (map sort_pair out) \<and>
    (\<forall>x \<in> set out. 0 < za_confidence x \<and> za_confidence x \<le> 1 \<and>
       (zone_bleed_filter config \<longrightarrow> zone_bleed_share_threshold config \<le> za_confidence x) \<and>
       (\<exists>read \<in> set reads. counts_for config now zones read (pair_of x)))"
proof -
  let ?S = "\<lambda>k. \<exists>read \<in> set reads. counts_for config now zones read k"
  from aggregate_cases [OF assms] obtain bs ts where inv: "agg_inv ?S (bs, ts)"
    and out: "out = sort_attributions (List.map_filter (attribution_of config now sites ts) bs)"
    and share: "\<And>a z b. zone_bleed_filter config \<Longrightarrow> ((a, z), b) \<in> set bs \<Longrightarrow>
           zone_bleed_share_threshold config \<le> b_weight b / weight_of a bs" by blast
  let ?f = "attribution_of config now sites ts"
  have fact: "pair_of y = fst e \<and> 0 < za_confidence y \<and> za_confidence y \<le> 1 \<and>
      (zone_bleed_filter config \<longrightarrow> zone_bleed_share_threshold config \<le> za_confidence y) \<and> ?S (pair_of y)"
    if "e \<in> set bs" "?f e = Some y" for e y
  proof -
    obtain a z b where e: "e = ((a, z), b)" by (metis surj_pair)
    with that have mem: "((a, z), b) \<in> set bs" by simp
    note b1 = attribution_of_bucket(1) [OF inv mem, of config now sites]
      and b = attribution_of_bucket(2,3) [OF inv mem]
    have y: "za_confidence y = b_weight b / weight_of a bs" "pair_of y = (a, z)"
      using that(2) b1 by (auto simp: e pair_of_def split: option.splits)
    have "?S (a, z)" using inv mem by (auto simp: agg_inv_def)
    then show ?thesis using b share [OF _ mem] unfolding y e by simp
  qed
  have "distinct (map fst bs)" using inv by (simp add: agg_inv_def)
  then have "distinct (map pair_of (List.map_filter ?f bs))"
    by (rule map_filter_distinct) (use fact in blast)
  then have dist: "distinct (map pair_of out)"
    by (simp add: out sort_attributions_def distinct_map)
  have "sorted (map sort_pair out)"
    unfolding out sort_attributions_def sort_pair_def [abs_def] by (rule sorted_sort_key)
  moreover have "\<exists>e \<in> set bs. ?f e = Some x" if "x \<in> set out" for x
    using that by (auto simp: out sort_attributions_def List.map_filter_def)
  ultimately show ?thesis using dist fact by blast
qed

lemma load_zones_sites:
  "(zones, sites) = load_zones table t \<Longrightarrow> zone \<in> set zones \<Longrightarrow> map_of sites (zc_id zone) \<noteq> None"
proof -
  have keep: "map_of d k \<noteq> None \<Longrightarrow> map_of (fold (\<lambda>row d. dict_set (zr_id row) (zr_site_id row) d) rows d) k \<noteq> None"
    for rows :: "zone_row list" and d k by (induction rows arbitrary: d) auto
  have all: "row \<in> set rows \<Longrightarrow> map_of (fold (\<lambda>row d. dict_set (zr_id row) (zr_site_id row) d) rows d) (zr_id row) \<noteq> None"
    for rows :: "zone_row list" and row d
  proof (induction rows arbitrary: d)
    case (Cons r rows)
    show ?case
    proof (cases "row = r")
      case True
      then show ?thesis using keep [of "dict_set (zr_id r) (zr_site_id r) d" "zr_id r" rows] by simp
    next
      case False
      with Cons show ?thesis by simp
    qed
  qed simp
  assume "(zones, sites) = load_zones table t" "zone \<in> set zones"
  then show ?thesis using all by (auto simp: load_zones_def Let_def candidate_of_row_def split: prod.splits)
qed

text \<open>C22: in every run of the processor the confidences published for one asset sum to exactly one, whatever
  the tenant's zones, reads and bindings are.\<close>

theorem published_confidences_sum:
  assumes "run_once_for_rule zone_table tag_reads bindings rule now = Inr events" and "e \<in> set events"
  shows "(\<Sum>x \<leftarrow> filter (\<lambda>x. za_asset_id (se_attribution x) = za_asset_id (se_attribution e)) events.
            za_confidence (se_attribution x)) = 1"
proof -
  obtain zones sites where load: "(zones, sites) = load_zones zone_table (r_tenant_id rule)"
    by (metis surj_pair)
  from assms obtain config reads out where agg: "aggregate reads zones sites config now = Inr out"
    and events: "events = map (publish_attribution rule) out"
    by (auto simp: run_once_for_rule_def and_then_eq_Inr Let_def load [symmetric] split: if_splits)
  from assms(2) events obtain x where x: "x \<in> set out" "se_attribution e = x"
    by (auto simp: publish_attribution_def)
  from aggregate_sum [OF agg load_zones_sites [OF load] x(1)]
  show ?thesis
    by (simp add: events x(2) filter_map o_def publish_attribution_def)
qed

section \<open>A run\<close>

definition dock_zone :: zone_row where
  "dock_zone = \<lparr>zr_id = 7, zr_tenant_id = 1, zr_site_id = 9, zr_kind = ''reader_bound'', zr_created_at = 5,
     zr_fixed_reader_ids = Some [str_uuid 5], zr_polygon_geojson = JNull, zr_bbox = (None, None, None, None)\<rparr>"

definition dock_read :: tag_read_row where
  "dock_read = \<lparr>tr_tenant_id = 1, tr_device_id = 5, tr_tag_id = ''E2'', tr_epc = None, tr_epc_hex = Some ''E2'',
     tr_tid = None, tr_timestamp = 100, tr_signal_strength = Some (- 60), tr_latitude = None, tr_longitude = None\<rparr>"

definition dock_binding :: binding_row where
  "dock_binding = \<lparr>bd_tenant_id = 1, bd_asset_id = 3, bd_value = ''E2'', bd_kind = ''epc'', bd_unbound_at = None\<rparr>"

definition default_config :: aggregation_config where
  "default_config = \<lparr>aggregation_window_s = 60, min_rssi_dbm = Some (- 80), zone_bleed_filter = True,
     zone_bleed_share_threshold = 1 / 10, aging_weight = 1, aging_bucket_s = 60, time_error_filter_s = 5\<rparr>"

lemma from_rule_config_default: "from_rule_config [] = Inr default_config"
  by (simp add: from_rule_config_def processor_config_def jget_def jget_or_def to_real_def default_config_def)

lemmas demo_defs = dock_zone_def dock_read_def dock_binding_def default_config_def

definition dock_attribution :: zone_attribution where
  "dock_attribution = \<lparr>za_asset_id = 3, za_zone_id = 7, za_site_id = 9, za_confidence = 1,
     za_window_start = 200 - 60000000, za_window_end = 200, za_contributing_reads = 1, za_contributing_readers = [5]\<rparr>"

definition dock_reads :: "attribution_read list" where
  "dock_reads = load_reads [dock_read] [dock_binding] 1 (window_start_of default_config 200) 200"

lemma dock_reads_eq:
  "dock_reads = [\<lparr>ar_asset_id = 3, ar_reader_id = 5, ar_timestamp = 100, ar_signal_strength = Some (- 60),
     ar_latitude = None, ar_longitude = None\<rparr>]"
  by (simp add: dock_reads_def load_reads_def demo_defs binding_matches_def window_start_of_def seconds_def)

lemma dock_aggregate:
  "aggregate dock_reads [candidate_of_row dock_zone] [(7, 9)] default_config 200 = Inr [dock_attribution]"
  by (simp add: aggregate_def dock_reads_eq candidate_of_row_def demo_defs window_start_of_def seconds_def rssi_rejects_def
      age_weight_def add_to_zone_def zone_bleed_def survives_def retotal_def get_total_def attribution_of_def
      sort_attributions_def map_filter_simps dock_attribution_def Let_def)

theorem aggregate_sound_witness:
  "za_confidence dock_attribution \<le> 1 \<and>
   (\<exists>read \<in> set dock_reads. counts_for default_config 200 [candidate_of_row dock_zone] read (3, 7))"
  using aggregate_sound [OF dock_aggregate] by (simp add: pair_of_def dock_attribution_def)

definition dock_rule :: rule where
  "dock_rule = \<lparr>r_id = 11, r_tenant_id = 1, r_name = ''dock'', r_description = None,
     condition_type = ''signaling.location.periodic'', condition_config = [], action_type = ''webhook'',
     action_config = [], scope_device_id = None, enabled = True, r_created_at = 0, r_updated_at = 0,
     event_type = Some ''location'', trigger = Some ''periodic'', processor = Some ''overlapping_zones'',
     confidence_threshold = 0, category_ids = [], asset_label_filters = JNull, zone_label_filters = JNull,
     site_label_filters = JNull, integration_ids = None\<rparr>"

lemma dock_run:
  "run_once_for_rule [dock_zone] [dock_read] [dock_binding] dock_rule 200 = Inr [publish_attribution dock_rule dock_attribution]"
proof -
  have "load_zones [dock_zone] 1 = ([candidate_of_row dock_zone], [(7, 9)])"
    by (simp add: load_zones_def dock_zone_def)
  then show ?thesis
    using dock_aggregate
    by (simp add: run_once_for_rule_def dock_rule_def from_rule_config_default dock_reads_def Let_def)
qed

theorem published_confidences_sum_witness:
  "(\<Sum>x \<leftarrow> filter (\<lambda>x. za_asset_id (se_attribution x) = 3)
     [publish_attribution dock_rule dock_attribution]. za_confidence (se_attribution x)) = 1"
  using published_confidences_sum [OF dock_run, of "publish_attribution dock_rule dock_attribution"]
  by (simp add: publish_attribution_def dock_attribution_def)

end
