(* ===== verification/Dispatcher.thy ===== *)
theory Dispatcher
  imports Overlapping
begin

text \<open>
  The periodic signaling dispatcher (\<open>src/tagpulse/signaling/periodic_dispatcher.py\<close>): which rules of a
  tick are due, the tick itself and the dispatch of one rule to its processor.  The state is the
  dictionary \<open>_last_fired\<close>; the evaluations made and the events published are collected in order.
\<close>

definition SIGNALING_PERIODIC_CONDITION_TYPES :: "string list" where
  "SIGNALING_PERIODIC_CONDITION_TYPES =
     [''signaling.location.periodic'', ''signaling.geolocation.periodic'', ''signaling.temperature.periodic'']"

text \<open>The rows that the processor queries, and the reading of the clock at its run for a rule.\<close>

record signaling_db =
  db_zones :: "zone_row list"
  db_tag_reads :: "tag_read_row list"
  db_bindings :: "binding_row list"
  db_clock :: "rule \<Rightarrow> datetime"

record evaluation =
  ev_rule_id :: uuid
  ev_tenant_id :: uuid \<comment> \<open>also the tenant whose \<open>rule_evaluations\<close> meter ticks\<close>
  ev_at :: datetime
  ev_published :: "settled_event list"

record dispatcher =
  last_fired :: "(uuid, datetime) pydict"
  evaluations :: "evaluation list"

text \<open>\<open>timedelta(minutes=cadence)\<close> holds at most 999999999 days.\<close>

definition minutes_res :: "int \<Rightarrow> py_exn + timedelta" where
  "minutes_res m = (if m < 1440 * 1000000000 then Inr (seconds (60 * m)) else Inl OverflowError)"

fun int_instance :: "json \<Rightarrow> int option" where
  "int_instance (JInt i) = Some i"
| "int_instance (JBool b) = Some (if b then 1 else 0)"
| "int_instance _ = None"

definition is_due :: "dispatcher \<Rightarrow> rule \<Rightarrow> datetime \<Rightarrow> py_exn + bool" where
  "is_due st rule now =
     (case int_instance (jget (condition_config rule) ''cadence_minutes'') of
        None \<Rightarrow> Inr False
      | Some cadence \<Rightarrow>
          if cadence < 1 then Inr False
          else (case map_of (last_fired st) (r_id rule) of
              None \<Rightarrow> Inr True
            | Some fired \<Rightarrow> and_then (minutes_res cadence) (\<lambda>d. Inr (now - fired \<ge> d))))"

text \<open>The events that one evaluation publishes: an exception of the processor is logged and swallowed.\<close>

definition evaluate_periodic_rule :: "signaling_db \<Rightarrow> rule \<Rightarrow> settled_event list" where
  "evaluate_periodic_rule db rule =
     (let processor_name = (case processor rule of None \<Rightarrow> ''isolated_zones''
            | Some p \<Rightarrow> if p = [] then ''isolated_zones'' else p) in
      if processor_name = ''overlapping_zones''
      then (case run_once_for_rule (db_zones db) (db_tag_reads db) (db_bindings db) rule (db_clock db rule) of
          Inl e \<Rightarrow> [] | Inr events \<Rightarrow> events)
      else [])"

definition fire :: "signaling_db \<Rightarrow> datetime \<Rightarrow> rule \<Rightarrow> dispatcher \<Rightarrow> dispatcher" where
  "fire db now rule st =
     st\<lparr>evaluations := evaluations st @ [\<lparr>ev_rule_id = r_id rule, ev_tenant_id = r_tenant_id rule, ev_at = now,
          ev_published = evaluate_periodic_rule db rule\<rparr>],
        last_fired := dict_set (r_id rule) now (last_fired st)\<rparr>"

text \<open>The loop over the rules of a tick; an exception of \<open>_is_due\<close> is outside the handler and ends the tick.\<close>

fun tick_loop :: "signaling_db \<Rightarrow> datetime \<Rightarrow> rule list \<Rightarrow> dispatcher \<Rightarrow> dispatcher \<times> py_exn option" where
  "tick_loop db now [] st = (st, None)"
| "tick_loop db now (rule # rules) st =
     (case is_due st rule now of
        Inl e \<Rightarrow> (st, Some e)
      | Inr False \<Rightarrow> tick_loop db now rules st
      | Inr True \<Rightarrow> tick_loop db now rules (fire db now rule st))"

definition run_once :: "rule list \<Rightarrow> signaling_db \<Rightarrow> datetime \<Rightarrow> dispatcher \<Rightarrow> dispatcher \<times> py_exn option" where
  "run_once table db now st =
     tick_loop db now (get_active_rules_by_condition_types_all_tenants table SIGNALING_PERIODIC_CONDITION_TYPES) st"

text \<open>\<open>_loop\<close>: one tick after the other, an exception of a tick being logged; the tables may change in between.\<close>

fun dispatcher_loop :: "(rule list \<times> signaling_db \<times> datetime) list \<Rightarrow> dispatcher \<Rightarrow> dispatcher" where
  "dispatcher_loop [] st = st"
| "dispatcher_loop ((table, db, now) # ticks) st = dispatcher_loop ticks (fst (run_once table db now st))"

section \<open>The cadence\<close>

text \<open>
  \<open>spaced c tr\<close>: of two evaluations of the same rule the later one comes at least \<open>c\<close> of that rule, in
  minutes, after the earlier one.
\<close>

definition spaced :: "(uuid \<Rightarrow> int) \<Rightarrow> evaluation list \<Rightarrow> bool" where
  "spaced c = sorted_wrt (\<lambda>e1 e2. ev_rule_id e1 = ev_rule_id e2 \<longrightarrow>
     ev_at e2 - ev_at e1 \<ge> seconds (60 * c (ev_rule_id e1)))"

definition cadence_at_least :: "(uuid \<Rightarrow> int) \<Rightarrow> rule \<Rightarrow> bool" where
  "cadence_at_least c rule \<longleftrightarrow> 1 \<le> c (r_id rule) \<and>
     (\<forall>i. int_instance (jget (condition_config rule) ''cadence_minutes'') = Some i \<longrightarrow> 1 \<le> i \<longrightarrow> c (r_id rule) \<le> i)"

text \<open>The invariant: the dictionary holds the time of the latest evaluation of each rule.\<close>

definition cadence_inv :: "(uuid \<Rightarrow> int) \<Rightarrow> dispatcher \<Rightarrow> bool" where
  "cadence_inv c st \<longleftrightarrow> spaced c (evaluations st) \<and>
     (\<forall>e \<in> set (evaluations st). 1 \<le> c (ev_rule_id e) \<and>
        (\<exists>t. map_of (last_fired st) (ev_rule_id e) = Some t \<and> ev_at e \<le> t))"

lemma is_due_cong:
  "map_of (last_fired st) (r_id rule) = map_of (last_fired st') (r_id rule') \<Longrightarrow>
   condition_config rule = condition_config rule' \<Longrightarrow> is_due st rule now = is_due st' rule' now"
  by (simp add: is_due_def split: option.split)

lemma is_due_spacing:
  assumes "is_due st rule now = Inr True" and "cadence_at_least c rule"
    and "map_of (last_fired st) (r_id rule) = Some t"
  shows "now - t \<ge> seconds (60 * c (r_id rule))"
proof -
  from assms(1) obtain i where i: "int_instance (jget (condition_config rule) ''cadence_minutes'') = Some i" "1 \<le> i"
    by (auto simp: is_due_def split: option.splits if_splits)
  with assms have "now - t \<ge> seconds (60 * i)"
    by (auto simp: is_due_def minutes_res_def and_then_eq_Inr split: if_splits)
  moreover have "c (r_id rule) \<le> i" using assms(2) i by (simp add: cadence_at_least_def)
  ultimately show ?thesis by (simp add: seconds_def)
qed

lemma fire_inv:
  assumes "cadence_inv c st" and "is_due st rule now = Inr True" and "cadence_at_least c rule"
  shows "cadence_inv c (fire db now rule st)"
proof -
  have c: "1 \<le> c (r_id rule)" using assms(3) by (simp add: cadence_at_least_def)
  have gap: "ev_at e + seconds (60 * c (r_id rule)) \<le> now" if e: "e \<in> set (evaluations st)" "ev_rule_id e = r_id rule" for e
  proof -
    from assms(1) e obtain t where "map_of (last_fired st) (r_id rule) = Some t" "ev_at e \<le> t"
      by (fastforce simp: cadence_inv_def)
    with is_due_spacing [OF assms(2,3)] show ?thesis by fastforce
  qed
  then have le: "ev_at e \<le> now" if "e \<in> set (evaluations st)" "ev_rule_id e = r_id rule" for e
    using that c by (fastforce simp: seconds_def)
  have "spaced c (evaluations (fire db now rule st))"
    using assms(1) gap by (fastforce simp: cadence_inv_def spaced_def fire_def sorted_wrt_append)
  with assms(1) c le show ?thesis by (auto simp: cadence_inv_def fire_def)
qed

lemma tick_loop_inv:
  "cadence_inv c st \<Longrightarrow> \<forall>rule \<in> set rules. cadence_at_least c rule \<Longrightarrow> cadence_inv c (fst (tick_loop db now rules st))"
  by (induction rules arbitrary: st) (auto intro: fire_inv split: sum.split bool.split)

lemma active_rules_config:
  "rule \<in> set (get_active_rules_by_condition_types_all_tenants table cts) \<Longrightarrow>
   \<exists>row \<in> set table. r_id rule = r_id row \<and> condition_config rule = condition_config row"
  by (auto simp: get_active_rules_by_condition_types_all_tenants_def rule_to_response_def split: if_splits)

text \<open>Over any run of the dispatcher, however the tables, the clock and the ticks behave, two evaluations of
  one rule are at least its smallest configured cadence apart.\<close>

theorem dispatcher_respects_cadence:
  assumes "\<forall>(table, db, now) \<in> set ticks. \<forall>row \<in> set table. cadence_at_least c row"
  shows "spaced c (evaluations (dispatcher_loop ticks \<lparr>last_fired = [], evaluations = []\<rparr>))"
proof -
  have "cadence_inv c st \<Longrightarrow> cadence_inv c (dispatcher_loop ticks st)" for st
    using assms
  proof (induction ticks arbitrary: st)
    case (Cons tick ticks)
    obtain table db now where tick: "tick = (table, db, now)" by (metis surj_pair)
    have "\<forall>rule \<in> set (get_active_rules_by_condition_types_all_tenants table SIGNALING_PERIODIC_CONDITION_TYPES).
        cadence_at_least c rule"
      using Cons.prems(2) tick active_rules_config by (fastforce simp: cadence_at_least_def)
    with Cons tick show ?case by (simp add: run_once_def tick_loop_inv)
  qed simp
  then show ?thesis by (simp add: cadence_inv_def spaced_def)
qed

lemma tick_loop_keeps: "set (evaluations st) \<subseteq> set (evaluations (fst (tick_loop db now rules st)))"
proof (induction rules arbitrary: st)
  case (Cons rule rules)
  have "set (evaluations st) \<subseteq> set (evaluations (fire db now rule st))" by (auto simp: fire_def)
  then show ?case using Cons.IH by (auto split: sum.split bool.split)
qed simp

definition evaluated_at :: "dispatcher \<Rightarrow> uuid \<Rightarrow> datetime \<Rightarrow> bool" where
  "evaluated_at st i now \<longleftrightarrow> (\<exists>e \<in> set (evaluations st). ev_rule_id e = i \<and> ev_at e = now)"

lemma tick_loop_evaluates:
  assumes "tick_loop db now rules st = (st', None)" and "rule \<in> set rules"
    and "is_due st rule now = Inr True \<or> evaluated_at st (r_id rule) now"
  shows "evaluated_at st' (r_id rule) now"
  using assms
proof (induction rules arbitrary: st)
  case (Cons r rules)
  have fired: "evaluated_at (fire db now r st) (r_id r) now" by (auto simp: evaluated_at_def fire_def)
  have kept: "evaluated_at st' i now" if "evaluated_at st0 i now" "tick_loop db now rs st0 = (st', None)" for st0 rs i
    using that tick_loop_keeps [of st0 db now rs] by (auto simp: evaluated_at_def)
  show ?case
  proof (cases "evaluated_at st (r_id rule) now")
    case True
    then show ?thesis using kept Cons.prems(1) by blast
  next
    case False
    then have due: "is_due st rule now = Inr True" using Cons.prems(3) by blast
    show ?thesis
    proof (cases "is_due st r now = Inr True")
      case True
      with Cons.prems(1) have loop: "tick_loop db now rules (fire db now r st) = (st', None)" by simp
      show ?thesis
      proof (cases "r_id r = r_id rule")
        case True
        with fired kept loop show ?thesis by metis
      next
        case False
        then have "is_due (fire db now r st) rule now = Inr True" using due is_due_cong [of "fire db now r st" rule st rule now] by (simp add: fire_def)
        with Cons loop False show ?thesis by auto
      qed
    next
      case False
      with due have "r \<noteq> rule" by auto
      moreover from False Cons.prems(1) have "tick_loop db now rules st = (st', None)"
        by (auto split: sum.splits bool.splits)
      ultimately show ?thesis using Cons due by auto
    qed
  qed
qed simp

text \<open>C36: a tick that is not cut short evaluates every enabled periodic rule that is due, that is, whose cadence has
  elapsed since its latest evaluation or that was never evaluated.\<close>

theorem due_rules_are_evaluated:
  assumes "run_once table db now st = (st', None)"
    and "row \<in> set table" and "enabled row" and "condition_type row \<in> set SIGNALING_PERIODIC_CONDITION_TYPES"
    and "is_due st row now = Inr True"
  shows "\<exists>e \<in> set (evaluations st'). ev_rule_id e = r_id row \<and> ev_at e = now"
proof -
  have mem: "rule_to_response row \<in> set (get_active_rules_by_condition_types_all_tenants table SIGNALING_PERIODIC_CONDITION_TYPES)"
    using assms(2-4) by (auto simp: get_active_rules_by_condition_types_all_tenants_def SIGNALING_PERIODIC_CONDITION_TYPES_def)
  have "is_due st (rule_to_response row) now = Inr True"
    using assms(5) is_due_cong [of st "rule_to_response row" st row now] by simp
  with tick_loop_evaluates [OF assms(1) [unfolded run_once_def] mem]
  show ?thesis by (simp add: evaluated_at_def)
qed

section \<open>A run\<close>

abbreviation empty_db :: signaling_db where
  "empty_db \<equiv> \<lparr>db_zones = [], db_tag_reads = [], db_bindings = [], db_clock = \<lambda>_. 0\<rparr>"

abbreviation idle :: dispatcher where
  "idle \<equiv> \<lparr>last_fired = [], evaluations = []\<rparr>"

lemma demo_rule_row: "r_id demo_rule = 4" "enabled demo_rule" "condition_type demo_rule = ''signaling.location.periodic''"
    "condition_config demo_rule = [(''cadence_minutes'', JInt 5)]" "processor demo_rule = None" "r_tenant_id demo_rule = 1"
  by (simp_all add: demo_rule_def row_of_create_def demo_create_def)

lemma demo_due: "is_due idle demo_rule 100 = Inr True"
  by (simp add: is_due_def demo_rule_row jget_def)

theorem dispatcher_respects_cadence_witness:
  "spaced (\<lambda>_. 5) (evaluations (dispatcher_loop [([demo_rule], empty_db, 100), ([demo_rule], empty_db, 200),
     ([demo_rule], empty_db, 400000000)] idle))"
  by (rule dispatcher_respects_cadence) (simp add: cadence_at_least_def demo_rule_row jget_def)

theorem due_rules_are_evaluated_witness:
  "\<exists>e \<in> set (evaluations (fire empty_db 100 (rule_to_response demo_rule) idle)). ev_rule_id e = r_id demo_rule \<and> ev_at e = 100"
proof (rule due_rules_are_evaluated [where table = "[demo_rule]" and db = empty_db and st = idle])
  have active: "get_active_rules_by_condition_types_all_tenants [demo_rule] SIGNALING_PERIODIC_CONDITION_TYPES
      = [rule_to_response demo_rule]"
    by (simp add: get_active_rules_by_condition_types_all_tenants_def SIGNALING_PERIODIC_CONDITION_TYPES_def demo_rule_row)
  have "is_due idle (rule_to_response demo_rule) 100 = Inr True"
    using demo_due is_due_cong [of idle "rule_to_response demo_rule" idle demo_rule 100] by simp
  then show "run_once [demo_rule] empty_db 100 idle = (fire empty_db 100 (rule_to_response demo_rule) idle, None)"
    by (simp add: run_once_def active)
qed (simp_all add: demo_rule_row demo_due SIGNALING_PERIODIC_CONDITION_TYPES_def)

end
