(* ===== verification/RateLimits.thy ===== *)
theory RateLimits
  imports PyJson
begin

text \<open>
  The in-process limiters and caches of the core package: the token-bucket rate limiter with its route
  classes, overrides and middleware (\<open>src/tagpulse/core/rate_limit.py\<close>), the hourly sliding window of
  tag imports (\<open>src/tagpulse/core/tag_import_rate_limit.py\<close>) and the TTL cache
  (\<open>src/tagpulse/core/ttl_cache.py\<close>).  Readings of the monotonic clock are arguments of type \<open>real\<close>.
\<close>

section \<open>Token buckets\<close>

datatype route_class = Ingest | Read | Write | Admin

record token_bucket =
  tokens :: real
  last_refill :: real
  capacity :: int

definition consume :: "real \<Rightarrow> real \<Rightarrow> token_bucket \<Rightarrow> bool \<times> token_bucket" where
  "consume now refill_per_sec b =
     (let elapsed = now - last_refill b;
          b1 = (if elapsed > 0
                then b\<lparr>tokens := min (of_int (capacity b)) (tokens b + elapsed * refill_per_sec), last_refill := now\<rparr>
                else b)
      in if tokens b1 \<ge> 1 then (True, b1\<lparr>tokens := tokens b1 - 1\<rparr>) else (False, b1))"

text \<open>The limits of \<open>settings\<close>, per minute.\<close>

record limiter_settings =
  rate_limit_enabled :: bool
  rate_limit_ingest_per_min :: int
  rate_limit_read_per_min :: int
  rate_limit_write_per_min :: int
  rate_limit_admin_per_min :: int

record rate_limiter =
  rl_buckets :: "(uuid \<times> route_class, token_bucket) pydict"
  rl_overrides :: "(uuid, real \<times> (route_class, int) pydict) pydict"

definition global_limit :: "limiter_settings \<Rightarrow> route_class \<Rightarrow> int" where
  "global_limit s c = (case c of Ingest \<Rightarrow> rate_limit_ingest_per_min s | Admin \<Rightarrow> rate_limit_admin_per_min s
     | Write \<Rightarrow> rate_limit_write_per_min s | Read \<Rightarrow> rate_limit_read_per_min s)"

text \<open>
  \<open>row\<close> is the value of \<open>tenants.rate_limit_overrides\<close>; \<open>None\<close> stands for a lookup that raised.
  Booleans are instances of \<open>int\<close>.
\<close>

fun positive_int :: "json \<Rightarrow> int option" where
  "positive_int (JInt i) = (if i > 0 then Some i else None)"
| "positive_int (JBool b) = (if b then Some 1 else None)"
| "positive_int _ = None"

definition fetch_override :: "json option \<Rightarrow> (route_class, int) pydict" where
  "fetch_override row =
     (case row of
        Some (JObj d) \<Rightarrow>
          List.map_filter (\<lambda>(c, key). map_option (\<lambda>v. (c, v)) (positive_int (jget d key)))
            [(Ingest, ''ingest''), (Read, ''read''), (Write, ''write''), (Admin, ''admin'')]
      | _ \<Rightarrow> [])"

definition OVERRIDE_TTL_S :: real where
  "OVERRIDE_TTL_S = 30"

definition resolve_limit ::
    "limiter_settings \<Rightarrow> (uuid \<Rightarrow> json option) \<Rightarrow> real \<Rightarrow> uuid \<Rightarrow> route_class \<Rightarrow> rate_limiter \<Rightarrow> int \<times> rate_limiter" where
  "resolve_limit s db now tenant_id c st =
     (let (override_map, st1) =
        (case map_of (rl_overrides st) tenant_id of
           Some (t, m) \<Rightarrow>
             if now - t > OVERRIDE_TTL_S
             then (let m' = fetch_override (db tenant_id)
                   in (m', st\<lparr>rl_overrides := dict_set tenant_id (now, m') (rl_overrides st)\<rparr>))
             else (m, st)
         | None \<Rightarrow> (let m' = fetch_override (db tenant_id)
                   in (m', st\<lparr>rl_overrides := dict_set tenant_id (now, m') (rl_overrides st)\<rparr>)))
      in (case map_of override_map c of Some v \<Rightarrow> (v, st1) | None \<Rightarrow> (global_limit s c, st1)))"

text \<open>The bucket that a check consumes from, for the limit now in force.\<close>

definition bucket_for :: "int \<Rightarrow> real \<Rightarrow> token_bucket option \<Rightarrow> token_bucket" where
  "bucket_for limit now found =
     (case found of
        None \<Rightarrow> \<lparr>tokens = of_int limit, last_refill = now, capacity = limit\<rparr>
      | Some b \<Rightarrow> if capacity b \<noteq> limit then b\<lparr>capacity := limit, tokens := min (tokens b) (of_int limit)\<rparr> else b)"

text \<open>\<open>now1\<close> is the clock when the limit is resolved, \<open>now2\<close> when the bucket is consumed from.\<close>

definition check ::
    "limiter_settings \<Rightarrow> (uuid \<Rightarrow> json option) \<Rightarrow> real \<Rightarrow> real \<Rightarrow> uuid \<Rightarrow> route_class \<Rightarrow> rate_limiter
      \<Rightarrow> (bool \<times> int) \<times> rate_limiter" where
  "check s db now1 now2 tenant_id c st =
     (let (limit, st1) = resolve_limit s db now1 tenant_id c st;
          refill_per_sec = of_int limit / 60;
          b = bucket_for limit now2 (map_of (rl_buckets st1) (tenant_id, c));
          (allowed, b') = consume now2 refill_per_sec b
      in ((allowed, limit), st1\<lparr>rl_buckets := dict_set (tenant_id, c) b' (rl_buckets st1)\<rparr>))"

definition invalidate_overrides :: "uuid \<Rightarrow> rate_limiter \<Rightarrow> rate_limiter" where
  "invalidate_overrides tenant_id st = st\<lparr>rl_overrides := dict_pop tenant_id (rl_overrides st)\<rparr>"

definition classify_route :: "string \<Rightarrow> string \<Rightarrow> route_class" where
  "classify_route method path =
     (if starts_with path ''/admin'' then Admin
      else if method = ''POST'' \<and>
        (starts_with path ''/tag-reads'' \<or> starts_with path ''/telemetry'' \<or> starts_with path ''/ingest'') then Ingest
      else if method \<in> {''GET'', ''HEAD''} then Read
      else if method \<in> {''POST'', ''PATCH'', ''PUT'', ''DELETE''} then Write
      else Read)"

definition BYPASS_PREFIXES :: "string list" where
  "BYPASS_PREFIXES = [''/health'', ''/metrics'', ''/security/csp-report'', ''/auth/login'', ''/docs'', ''/openapi'', ''/redoc'']"

datatype verdict = Pass | Reject429 route_class int

definition rate_limit_middleware ::
    "limiter_settings \<Rightarrow> (uuid \<Rightarrow> json option) \<Rightarrow> real \<Rightarrow> real \<Rightarrow> string \<Rightarrow> string \<Rightarrow> string option \<Rightarrow> rate_limiter
      \<Rightarrow> verdict \<times> rate_limiter" where
  "rate_limit_middleware s db now1 now2 method path tenant_header st =
     (if \<not> rate_limit_enabled s then (Pass, st)
      else if \<exists>p \<in> set BYPASS_PREFIXES. starts_with path p then (Pass, st)
      else case tenant_header of
        None \<Rightarrow> (Pass, st)
      | Some h \<Rightarrow>
          if h = [] then (Pass, st)
          else (case uuid_of_string h of
            Inl _ \<Rightarrow> (Pass, st)
          | Inr tenant_id \<Rightarrow>
              (let c = classify_route method path;
                   ((allowed, limit), st') = check s db now1 now2 tenant_id c st
               in (if allowed then Pass else Reject429 c limit, st'))))"

section \<open>The quota\<close>

text \<open>A sequence of checks, with the overrides the database held at each, and their verdicts.\<close>

record check_request =
  cr_db :: "uuid \<Rightarrow> json option"
  cr_now1 :: real
  cr_now2 :: real
  cr_tenant :: uuid
  cr_class :: route_class

definition cr_key :: "check_request \<Rightarrow> uuid \<times> route_class" where
  "cr_key q = (cr_tenant q, cr_class q)"

fun run_checks :: "limiter_settings \<Rightarrow> check_request list \<Rightarrow> rate_limiter \<Rightarrow> (check_request \<times> bool \<times> int) list" where
  "run_checks s [] st = []"
| "run_checks s (q # qs) st =
     (let ((allowed, limit), st') = check s (cr_db q) (cr_now1 q) (cr_now2 q) (cr_tenant q) (cr_class q) st
      in (q, allowed, limit) # run_checks s qs st')"

definition admitted :: "uuid \<times> route_class \<Rightarrow> (check_request \<times> bool \<times> int) list \<Rightarrow> nat" where
  "admitted key outs = length (filter (\<lambda>(q, allowed, _). cr_key q = key \<and> allowed) outs)"

lemma resolve_limit_buckets: "resolve_limit s db now t c st = (limit, st1) \<Longrightarrow> rl_buckets st1 = rl_buckets st"
  by (auto simp: resolve_limit_def Let_def split: option.splits prod.splits if_splits)

lemma check_step:
  assumes "check s db n1 n2 t c st = ((allowed, limit), st')"
  obtains b' where "consume n2 (of_int limit / 60) (bucket_for limit n2 (map_of (rl_buckets st) (t, c))) = (allowed, b')"
    and "\<forall>k. map_of (rl_buckets st') k = (if k = (t, c) then Some b' else map_of (rl_buckets st) k)"
  using assms
  by (auto simp: check_def Let_def split: prod.splits dest!: resolve_limit_buckets)

text \<open>The quota left until time \<open>e\<close>: the tokens in the bucket and those the refill will still add.\<close>

definition quota_left :: "real \<Rightarrow> real \<Rightarrow> token_bucket \<Rightarrow> real" where
  "quota_left r e b = tokens b + r * max 0 (e - last_refill b)"

lemma consume_quota:
  assumes "consume now r b = (allowed, b')" and "now \<le> e" and "0 \<le> r"
  shows "quota_left r e b' + (if allowed then 1 else 0) \<le> quota_left r e b"
proof -
  have "(now - last_refill b) * r + r * (e - now) = r * (e - last_refill b)" by (simp add: algebra_simps)
  then show ?thesis
    using assms by (auto simp: consume_def Let_def quota_left_def split: if_splits)
qed

lemma consume_from_full:
  assumes "consume now r b = (allowed, b')" and "tokens b \<le> of_int (capacity b)"
    and "a \<le> now" and "now \<le> e" and "0 \<le> r"
  shows "quota_left r e b' + (if allowed then 1 else 0) \<le> of_int (capacity b) + r * (e - a)"
proof -
  have r: "r * x \<le> r * (e - a)" if "x \<le> e - a" for x :: real
    using that assms(5) by (rule mult_left_mono)
  show ?thesis
  proof (cases "now - last_refill b > 0")
    case True
    have "min (of_int (capacity b)) (tokens b + (now - last_refill b) * r) \<le> of_int (capacity b)" by simp
    moreover have "r * (e - now) \<le> r * (e - a)" using assms(3) by (intro r) simp
    ultimately show ?thesis using True assms
      by (auto simp: consume_def Let_def quota_left_def split: if_splits)
  next
    case False
    then have "r * max 0 (e - last_refill b) \<le> r * (e - a)" using assms(3,4) by (intro r) auto
    with False assms show ?thesis
      by (auto simp: consume_def Let_def quota_left_def split: if_splits)
  qed
qed

text \<open>The bucket of a key, if there is one yet, holds between nothing and its capacity.\<close>

definition key_ok :: "uuid \<times> route_class \<Rightarrow> rate_limiter \<Rightarrow> bool" where
  "key_ok key st \<longleftrightarrow> (\<forall>b. map_of (rl_buckets st) key = Some b \<longrightarrow> 0 \<le> tokens b \<and> tokens b \<le> of_int (capacity b))"

lemma consume_ok: "consume now r b = (allowed, b') \<Longrightarrow> tokens b \<le> of_int (capacity b) \<Longrightarrow>
    tokens b' \<le> of_int (capacity b') \<and> capacity b' = capacity b"
  by (auto simp: consume_def Let_def split: if_splits)

lemma bucket_for_ok:
  "(\<And>b. found = Some b \<Longrightarrow> tokens b \<le> of_int (capacity b)) \<Longrightarrow>
   tokens (bucket_for L now found) \<le> of_int L \<and> capacity (bucket_for L now found) = L"
  by (cases found) (auto simp: bucket_for_def)

text \<open>With a bucket of its own and an unchanged limit, a key is admitted no more often than its quota allows.\<close>

lemma admitted_Cons:
  "admitted key ((q, allowed, limit) # outs) = (if cr_key q = key \<and> allowed then 1 else 0) + admitted key outs"
  by (simp add: admitted_def)

definition quota_window :: "uuid \<times> route_class \<Rightarrow> int \<Rightarrow> real \<Rightarrow> real \<Rightarrow> (check_request \<times> bool \<times> int) list \<Rightarrow> bool" where
  "quota_window key L a e outs \<longleftrightarrow>
     (\<forall>(q, _, limit) \<in> set outs. cr_key q = key \<longrightarrow> limit = L \<and> a \<le> cr_now2 q \<and> cr_now2 q \<le> e)"

text \<open>One step of a run: the verdict, the bucket of the key after it, and the remaining run.\<close>

lemma run_checks_step:
  obtains allowed limit st' b' where
    "run_checks s (q # qs) st = (q, allowed, limit) # run_checks s qs st'"
    and "consume (cr_now2 q) (of_int limit / 60) (bucket_for limit (cr_now2 q) (map_of (rl_buckets st) (cr_key q))) = (allowed, b')"
    and "\<forall>k. map_of (rl_buckets st') k = (if k = cr_key q then Some b' else map_of (rl_buckets st) k)"
proof -
  obtain allowed limit st' where
    ck: "check s (cr_db q) (cr_now1 q) (cr_now2 q) (cr_tenant q) (cr_class q) st = ((allowed, limit), st')"
    by (metis surj_pair)
  from check_step [OF ck] obtain b' where
    "consume (cr_now2 q) (of_int limit / 60) (bucket_for limit (cr_now2 q) (map_of (rl_buckets st) (cr_key q))) = (allowed, b')"
    "\<forall>k. map_of (rl_buckets st') k = (if k = cr_key q then Some b' else map_of (rl_buckets st) k)"
    unfolding cr_key_def by blast
  with ck show thesis by (intro that) auto
qed

lemma admitted_with_bucket:
  assumes "map_of (rl_buckets st) key = Some b" and "capacity b = L" and "0 \<le> L" and "0 \<le> tokens b"
    and "quota_window key L a e (run_checks s qs st)"
  shows "real (admitted key (run_checks s qs st)) \<le> quota_left (of_int L / 60) e b"
  using assms
proof (induction qs arbitrary: st b)
  case Nil
  then show ?case by (simp add: admitted_def quota_left_def)
next
  case (Cons q qs)
  obtain allowed limit st' b' where
    run: "run_checks s (q # qs) st = (q, allowed, limit) # run_checks s qs st'"
    and con: "consume (cr_now2 q) (of_int limit / 60) (bucket_for limit (cr_now2 q) (map_of (rl_buckets st) (cr_key q))) = (allowed, b')"
    and map: "\<forall>k. map_of (rl_buckets st') k = (if k = cr_key q then Some b' else map_of (rl_buckets st) k)"
    by (rule run_checks_step [where s = s and q = q and qs = qs and st = st]) (rule that; assumption)
  have rest: "quota_window key L a e (run_checks s qs st')"
    using Cons.prems(5) unfolding run quota_window_def by simp
  show ?case
  proof (cases "cr_key q = key")
    case False
    then have "map_of (rl_buckets st') key = Some b" using map [rule_format, of key] Cons.prems(1) by simp
    with Cons.IH [OF this Cons.prems(2-4) rest] False show ?thesis unfolding run admitted_Cons by simp
  next
    case True
    then have lim: "limit = L" "cr_now2 q \<le> e" using Cons.prems(5) unfolding run quota_window_def by auto
    with True con Cons.prems(1,2) have con': "consume (cr_now2 q) (of_int L / 60) b = (allowed, b')"
      by (simp add: bucket_for_def)
    have r: "(0::real) \<le> of_int L / 60" using Cons.prems(3) by simp
    have "capacity b' = L" "0 \<le> tokens b'"
      using con' Cons.prems(2-4) by (auto simp: consume_def Let_def split: if_splits)
    moreover have "map_of (rl_buckets st') key = Some b'" using map [rule_format, of key] True by simp
    ultimately have "real (admitted key (run_checks s qs st')) \<le> quota_left (of_int L / 60) e b'"
      using Cons.IH rest Cons.prems(3) by blast
    with consume_quota [OF con' lim(2) r] True show ?thesis
      unfolding run admitted_Cons by (simp split: if_splits)
  qed
qed

text \<open>C35: between any two moments \<open>a\<close> and \<open>e\<close>, whatever the other tenants do and in whatever state the limiter is,
  a tenant's requests of one route class are admitted at most \<open>limit + (limit / 60) * (e - a)\<close> times, where
  \<open>limit\<close> is the per-minute limit in force during that time.\<close>

theorem rate_limit_quota:
  assumes "key_ok key st" and "0 \<le> L" and "a \<le> e"
    and "quota_window key L a e (run_checks s qs st)"
  shows "real (admitted key (run_checks s qs st)) \<le> of_int L + of_int L / 60 * (e - a)"
  using assms
proof (induction qs arbitrary: st)
  case Nil
  then show ?case by (simp add: admitted_def)
next
  case (Cons q qs)
  obtain allowed limit st' b' where
    run: "run_checks s (q # qs) st = (q, allowed, limit) # run_checks s qs st'"
    and con: "consume (cr_now2 q) (of_int limit / 60) (bucket_for limit (cr_now2 q) (map_of (rl_buckets st) (cr_key q))) = (allowed, b')"
    and map: "\<forall>k. map_of (rl_buckets st') k = (if k = cr_key q then Some b' else map_of (rl_buckets st) k)"
    by (rule run_checks_step [where s = s and q = q and qs = qs and st = st]) (rule that; assumption)
  have rest: "quota_window key L a e (run_checks s qs st')"
    using Cons.prems(4) unfolding run quota_window_def by simp
  show ?case
  proof (cases "cr_key q = key")
    case False
    then have "key_ok key st'" using map [rule_format, of key] Cons.prems(1) by (simp add: key_ok_def)
    with Cons.IH [OF this Cons.prems(2,3) rest] False show ?thesis unfolding run admitted_Cons by simp
  next
    case True
    then have lim: "limit = L" "a \<le> cr_now2 q" "cr_now2 q \<le> e" using Cons.prems(4) unfolding run quota_window_def by auto
    let ?b = "bucket_for L (cr_now2 q) (map_of (rl_buckets st) (cr_key q))"
    have b: "tokens ?b \<le> of_int L \<and> capacity ?b = L"
      using Cons.prems(1) by (intro bucket_for_ok) (use True in \<open>auto simp: key_ok_def\<close>)
    have r: "(0::real) \<le> of_int L / 60" using Cons.prems(2) by simp
    have "quota_left (of_int L / 60) e b' + (if allowed then 1 else 0) \<le> of_int L + of_int L / 60 * (e - a)"
      using consume_from_full [OF con [unfolded lim(1)] _ lim(2,3) r] b by simp
    moreover have "real (admitted key (run_checks s qs st')) \<le> quota_left (of_int L / 60) e b'"
    proof (rule admitted_with_bucket [OF _ _ Cons.prems(2) _ rest])
      show "map_of (rl_buckets st') key = Some b'" using map [rule_format, of key] True by simp
      show "capacity b' = L" using consume_ok [OF con [unfolded lim(1)]] b by simp
      have "0 \<le> tokens ?b" using Cons.prems(1,2) True by (auto simp: bucket_for_def key_ok_def split: option.split)
      then show "0 \<le> tokens b'"
        using con lim(1) b Cons.prems(2) by (auto simp: consume_def Let_def split: if_splits)
    qed
    ultimately show ?thesis using True unfolding run admitted_Cons by (simp split: if_splits)
  qed
qed

abbreviation empty_limiter :: rate_limiter where
  "empty_limiter \<equiv> \<lparr>rl_buckets = [], rl_overrides = []\<rparr>"

definition demo_settings :: limiter_settings where
  "demo_settings = \<lparr>rate_limit_enabled = True, rate_limit_ingest_per_min = 6000, rate_limit_read_per_min = 600,
     rate_limit_write_per_min = 2, rate_limit_admin_per_min = 120\<rparr>"

definition demo_check :: "real \<Rightarrow> check_request" where
  "demo_check t = \<lparr>cr_db = \<lambda>_. None, cr_now1 = t, cr_now2 = t, cr_tenant = 1, cr_class = Write\<rparr>"

lemma demo_checks:
  "run_checks demo_settings [demo_check 0, demo_check 0, demo_check 0, demo_check 30] empty_limiter
    = [(demo_check 0, True, 2), (demo_check 0, True, 2), (demo_check 0, False, 2), (demo_check 30, True, 2)]"
  by (simp add: check_def resolve_limit_def demo_check_def demo_settings_def fetch_override_def global_limit_def
      bucket_for_def consume_def OVERRIDE_TTL_S_def)

theorem rate_limit_quota_witness:
  "real (admitted (1, Write) (run_checks demo_settings [demo_check 0, demo_check 0, demo_check 0, demo_check 30] empty_limiter)) \<le> 3"
proof -
  have "quota_window (1, Write) 2 0 30 (run_checks demo_settings
      [demo_check 0, demo_check 0, demo_check 0, demo_check 30] empty_limiter)"
    unfolding demo_checks by (simp add: quota_window_def demo_check_def)
  from rate_limit_quota [OF _ _ _ this] show ?thesis by (simp add: key_ok_def)
qed

section \<open>The hourly window of tag imports\<close>

type_synonym hourly = "(uuid, real list) pydict"

definition WINDOW_SECONDS :: real where
  "WINDOW_SECONDS = 3600"

definition prune :: "real \<Rightarrow> real list \<Rightarrow> real list" where
  "prune cutoff bucket = dropWhile (\<lambda>t. t < cutoff) bucket"

definition check_and_record :: "uuid \<Rightarrow> int \<Rightarrow> real \<Rightarrow> hourly \<Rightarrow> bool \<times> hourly" where
  "check_and_record tenant_id max_per_hour ts events =
     (if max_per_hour \<le> 0 then (False, events)
      else (let cutoff = ts - WINDOW_SECONDS;
                bucket = prune cutoff (case map_of events tenant_id of None \<Rightarrow> [] | Some b \<Rightarrow> b)
            in if int (length bucket) \<ge> max_per_hour then (False, dict_set tenant_id bucket events)
               else (True, dict_set tenant_id (bucket @ [ts]) events)))"

definition remaining :: "uuid \<Rightarrow> int \<Rightarrow> real \<Rightarrow> hourly \<Rightarrow> int \<times> hourly" where
  "remaining tenant_id max_per_hour ts events =
     (if max_per_hour \<le> 0 then (0, events)
      else case map_of events tenant_id of
          None \<Rightarrow> (max_per_hour, events)
        | Some b \<Rightarrow> (let bucket = prune (ts - WINDOW_SECONDS) b
                    in (max 0 (max_per_hour - int (length bucket)), dict_set tenant_id bucket events)))"

text \<open>A run: the requests (tenant, quota, time) and the log of those allowed, oldest first.\<close>

fun hourly_run :: "(uuid \<times> int \<times> real) list \<Rightarrow> hourly \<times> (uuid \<times> int \<times> real) list \<Rightarrow> hourly \<times> (uuid \<times> int \<times> real) list" where
  "hourly_run [] st = st"
| "hourly_run ((t, m, now) # qs) (events, entries) =
     (let (allowed, events') = check_and_record t m now events
      in hourly_run qs (events', if allowed then entries @ [(t, m, now)] else entries))"

definition times_of :: "uuid \<Rightarrow> (uuid \<times> int \<times> real) list \<Rightarrow> real list" where
  "times_of t entries = map (snd \<circ> snd) (filter (\<lambda>q. fst q = t) entries)"

text \<open>Each allowed request found fewer than its quota in the hour that ends with it.\<close>

definition hourly_ok :: "(uuid \<times> int \<times> real) list \<Rightarrow> bool" where
  "hourly_ok entries \<longleftrightarrow> (\<forall>pre t m now post. entries = pre @ (t, m, now) # post \<longrightarrow>
     int (length (filter (\<lambda>x. now - WINDOW_SECONDS \<le> x) (times_of t pre))) + 1 \<le> m)"

text \<open>The deque of a tenant is the part of its log from some moment on that is not in the future.\<close>

definition deque :: "hourly \<Rightarrow> uuid \<Rightarrow> real list" where
  "deque events t = (case map_of events t of None \<Rightarrow> [] | Some b \<Rightarrow> b)"

definition deque_inv :: "real \<Rightarrow> real list \<Rightarrow> real list \<Rightarrow> bool" where
  "deque_inv latest b ts \<longleftrightarrow> sorted ts \<and> (\<forall>x \<in> set ts. x \<le> latest) \<and>
     (\<exists>cutoff \<le> latest - WINDOW_SECONDS. b = filter (\<lambda>x. cutoff \<le> x) ts)"

definition hourly_inv :: "real \<Rightarrow> hourly \<times> (uuid \<times> int \<times> real) list \<Rightarrow> bool" where
  "hourly_inv latest = (\<lambda>(events, entries). hourly_ok entries \<and>
     (\<forall>t. deque_inv latest (deque events t) (times_of t entries)))"

lemma deque_set [simp]: "deque (dict_set k b events) t = (if t = k then b else deque events t)"
  by (simp add: deque_def)

lemma deque_inv_later: "deque_inv latest b ts \<Longrightarrow> latest \<le> now \<Longrightarrow> deque_inv now b ts"
proof -
  assume "deque_inv latest b ts" and now: "latest \<le> now"
  then obtain cutoff where "sorted ts" "\<forall>x \<in> set ts. x \<le> latest" "cutoff \<le> latest - WINDOW_SECONDS"
    "b = filter (\<lambda>x. cutoff \<le> x) ts" by (auto simp: deque_inv_def)
  with now show "deque_inv now b ts" unfolding deque_inv_def by (intro conjI exI [of _ cutoff]) force+
qed

lemma prune_sorted: "sorted xs \<Longrightarrow> prune c xs = filter (\<lambda>x. c \<le> x) xs"
proof (induction xs)
  case (Cons x xs)
  show ?case
  proof (cases "x < c")
    case True
    with Cons show ?thesis by (simp add: prune_def)
  next
    case False
    then have "\<forall>y \<in> set xs. c \<le> y" using Cons.prems by fastforce
    with False show ?thesis by (simp add: prune_def)
  qed
qed (simp add: prune_def)

lemma times_of_snoc: "times_of t (entries @ [(t', m, now)]) = times_of t entries @ (if t' = t then [now] else [])"
  by (simp add: times_of_def)

lemma hourly_ok_snoc:
  assumes "hourly_ok entries" and "int (length (filter (\<lambda>x. now - WINDOW_SECONDS \<le> x) (times_of t entries))) + 1 \<le> m"
  shows "hourly_ok (entries @ [(t, m, now)])"
  unfolding hourly_ok_def
proof (intro allI impI)
  fix pre t' m' now' post
  assume eq: "entries @ [(t, m, now)] = pre @ (t', m', now') # post"
  show "int (length (filter (\<lambda>x. now' - WINDOW_SECONDS \<le> x) (times_of t' pre))) + 1 \<le> m'"
  proof (cases post rule: rev_cases)
    case Nil
    with eq assms(2) show ?thesis by simp
  next
    case (snoc post' q)
    with eq have "entries = pre @ (t', m', now') # post'" by simp
    with assms(1) show ?thesis unfolding hourly_ok_def by blast
  qed
qed

text \<open>Pruning at the start of a check leaves exactly the imports of the last hour.\<close>

lemma prune_deque:
  assumes "deque_inv now b ts"
  shows "prune (now - WINDOW_SECONDS) b = filter (\<lambda>x. now - WINDOW_SECONDS \<le> x) ts"
proof -
  from assms obtain cutoff where cutoff: "cutoff \<le> now - WINDOW_SECONDS" "b = filter (\<lambda>x. cutoff \<le> x) ts"
    and sorted: "sorted ts" by (auto simp: deque_inv_def)
  have "prune (now - WINDOW_SECONDS) b = filter (\<lambda>x. now - WINDOW_SECONDS \<le> x) b"
    unfolding cutoff(2) by (rule prune_sorted) (simp add: sorted sorted_wrt_filter)
  also have "\<dots> = filter (\<lambda>x. now - WINDOW_SECONDS \<le> x) ts"
    unfolding cutoff(2) filter_filter using cutoff(1) by (intro filter_cong) auto
  finally show ?thesis .
qed

lemma hourly_step:
  assumes inv: "hourly_inv latest (events, entries)" and now: "latest \<le> now"
    and ck: "check_and_record t m now events = (allowed, events')"
  shows "hourly_inv now (events', if allowed then entries @ [(t, m, now)] else entries)"
proof -
  define c where "c = now - WINDOW_SECONDS"
  have dq: "deque_inv now (deque events t') (times_of t' entries)" for t'
    using inv now by (auto simp: hourly_inv_def intro: deque_inv_later)
  have ok: "hourly_ok entries" using inv by (simp add: hourly_inv_def)
  let ?b = "filter (\<lambda>x. c \<le> x) (times_of t entries)"
  have b: "deque_inv now ?b (times_of t entries)" "deque_inv now (?b @ [now]) (times_of t entries @ [now])"
    using dq [of t] by (auto simp: deque_inv_def c_def sorted_append WINDOW_SECONDS_def intro!: exI [of _ "now - 3600"])
  consider "m \<le> 0" "allowed = False" "events' = events"
    | "allowed = False" "events' = dict_set t ?b events"
    | "allowed" "events' = dict_set t (?b @ [now]) events" "int (length ?b) + 1 \<le> m"
    using ck prune_deque [OF dq, of t]
    by (auto simp: check_and_record_def Let_def c_def deque_def split: if_splits)
  then show ?thesis
  proof cases
    case 1
    then show ?thesis using dq ok by (simp add: hourly_inv_def)
  next
    case 2
    then show ?thesis using dq ok b(1) by (simp add: hourly_inv_def)
  next
    case 3
    then have "hourly_ok (entries @ [(t, m, now)])" using hourly_ok_snoc [OF ok] by (simp add: c_def)
    then show ?thesis using dq b(2) 3 by (simp add: hourly_inv_def times_of_snoc)
  qed
qed

text \<open>As long as the clock does not run backwards, every import that the hourly limiter allows is, with the
  imports of that tenant allowed in the hour before it, within the tenant's quota.\<close>

theorem hourly_limit_quota:
  assumes "sorted (map (snd \<circ> snd) requests)" and "hourly_run requests ([], []) = (events, entries)"
  shows "hourly_ok entries"
proof -
  have "hourly_inv latest st \<Longrightarrow> (\<forall>q \<in> set requests. latest \<le> snd (snd q)) \<Longrightarrow>
      \<exists>l. hourly_inv l (hourly_run requests st)" for latest st
    using assms(1)
  proof (induction requests arbitrary: latest st)
    case (Cons q requests)
    obtain t m now where q: "q = (t, m, now)" by (metis surj_pair)
    obtain ev en where st: "st = (ev, en)" by (cases st)
    obtain allowed ev' where ck: "check_and_record t m now ev = (allowed, ev')" by (cases "check_and_record t m now ev")
    have "hourly_inv now (ev', if allowed then en @ [(t, m, now)] else en)"
      using hourly_step [OF _ _ ck] Cons.prems q st by simp
    from Cons.IH [OF this] Cons.prems(3) show ?case by (simp add: q st ck)
  qed auto
  moreover have "hourly_inv (case requests of [] \<Rightarrow> 0 | q # _ \<Rightarrow> snd (snd q)) ([], [])"
    by (auto simp: hourly_inv_def hourly_ok_def times_of_def deque_inv_def deque_def)
  moreover have "\<forall>q \<in> set requests. (case requests of [] \<Rightarrow> 0 | q # _ \<Rightarrow> snd (snd q)) \<le> snd (snd q)"
    using assms(1) by (cases requests) auto
  ultimately obtain l where "hourly_inv l (events, entries)" using assms(2) by metis
  then show ?thesis by (simp add: hourly_inv_def)
qed

theorem hourly_limit_quota_witness:
  "hourly_ok [(1, 2, 0), (1, 2, 10), (1, 2, 3700)]"
  by (rule hourly_limit_quota [of "[(1, 2, 0), (1, 2, 10), (1, 2, 20), (1, 2, 3700)]" "[(1, [3700])]"])
     (simp_all add: check_and_record_def prune_def WINDOW_SECONDS_def)

section \<open>The TTL cache\<close>

record ('k, 'v) ttl_cache =
  ttl :: real
  maxsize :: nat
  cache_data :: "('k, 'v \<times> real) pydict"

definition ttl_cache :: "real \<Rightarrow> int \<Rightarrow> py_exn + ('k, 'v) ttl_cache" where
  "ttl_cache ttl_seconds size_limit =
     (if ttl_seconds \<le> 0 then Inl (ValueError ''ttl_seconds must be positive'')
      else if size_limit \<le> 0 then Inl (ValueError ''maxsize must be positive'')
      else Inr \<lparr>ttl = ttl_seconds, maxsize = nat size_limit, cache_data = []\<rparr>)"

definition cache_get :: "'k \<Rightarrow> real \<Rightarrow> ('k, 'v) ttl_cache \<Rightarrow> 'v option \<times> ('k, 'v) ttl_cache" where
  "cache_get key now c =
     (case map_of (cache_data c) key of
        None \<Rightarrow> (None, c)
      | Some (v, inserted_at) \<Rightarrow>
          if now - inserted_at \<ge> ttl c then (None, c\<lparr>cache_data := dict_pop key (cache_data c)\<rparr>)
          else (Some v, c))"

definition cache_set :: "'k \<Rightarrow> 'v \<Rightarrow> real \<Rightarrow> ('k, 'v) ttl_cache \<Rightarrow> ('k, 'v) ttl_cache" where
  "cache_set key v now c = c\<lparr>cache_data := bounded_set (maxsize c) key (v, now) (cache_data c)\<rparr>"

definition cache_invalidate :: "'k \<Rightarrow> ('k, 'v) ttl_cache \<Rightarrow> ('k, 'v) ttl_cache" where
  "cache_invalidate key c = c\<lparr>cache_data := dict_pop key (cache_data c)\<rparr>"

definition cache_clear :: "('k, 'v) ttl_cache \<Rightarrow> ('k, 'v) ttl_cache" where
  "cache_clear c = c\<lparr>cache_data := []\<rparr>"

datatype ('k, 'v) cache_op = CGet 'k real | CSet 'k 'v real | CInvalidate 'k | CClear

fun cache_step :: "('k, 'v) cache_op \<Rightarrow> ('k, 'v) ttl_cache \<Rightarrow> ('k, 'v) ttl_cache" where
  "cache_step (CGet k now) c = snd (cache_get k now c)"
| "cache_step (CSet k v now) c = cache_set k v now c"
| "cache_step (CInvalidate k) c = cache_invalidate k c"
| "cache_step CClear c = cache_clear c"

text \<open>What a map without bound and expiry would hold: the latest value set for a key, and when.\<close>

fun latest_step :: "('k, 'v) cache_op \<Rightarrow> ('k \<rightharpoonup> 'v \<times> real) \<Rightarrow> ('k \<rightharpoonup> 'v \<times> real)" where
  "latest_step (CGet k now) m = m"
| "latest_step (CSet k v now) m = m(k \<mapsto> (v, now))"
| "latest_step (CInvalidate k) m = m(k := None)"
| "latest_step CClear m = Map.empty"

definition cache_inv :: "('k \<rightharpoonup> 'v \<times> real) \<Rightarrow> ('k, 'v) ttl_cache \<Rightarrow> bool" where
  "cache_inv m c \<longleftrightarrow> 0 < maxsize c \<and> wf_dict (cache_data c) \<and> length (cache_data c) \<le> maxsize c \<and>
     (\<forall>k e. map_of (cache_data c) k = Some e \<longrightarrow> m k = Some e)"

lemma pop_length: "length (dict_pop k d) \<le> length d"
  by (simp add: length_delete_le)

lemma cache_inv_pop: "cache_inv m c \<Longrightarrow> cache_inv m (c\<lparr>cache_data := dict_pop k (cache_data c)\<rparr>)"
  using pop_length [of k "cache_data c"] by (auto simp: cache_inv_def)

lemma cache_step_inv: "cache_inv m c \<Longrightarrow> cache_inv (latest_step op m) (cache_step op c)"
proof (cases op)
  case (CGet k now)
  assume "cache_inv m c"
  with CGet cache_inv_pop show ?thesis by (auto simp: cache_get_def split: option.splits)
next
  case (CSet k v now)
  assume inv: "cache_inv m c"
  have "map_of (bounded_set (maxsize c) k (v, now) (cache_data c)) x = Some y \<Longrightarrow> (m(k \<mapsto> (v, now))) x = Some y" for x y
    using inv map_of_bounded_set_other [of x k "maxsize c" "(v, now)" "cache_data c" y]
    by (cases "x = k"; cases y) (auto simp: cache_inv_def)
  with inv CSet show ?thesis
    by (simp add: cache_inv_def cache_set_def length_bounded_set)
next
  case (CInvalidate k)
  assume "cache_inv m c"
  with CInvalidate pop_length [of k "cache_data c"] show ?thesis
    by (auto simp: cache_inv_def cache_invalidate_def)
qed (simp add: cache_inv_def cache_clear_def)

lemma cache_step_params [simp]: "ttl (cache_step op c) = ttl c \<and> maxsize (cache_step op c) = maxsize c"
  by (cases op) (auto simp: cache_get_def cache_set_def cache_invalidate_def cache_clear_def split: option.splits)

text \<open>After any operations on a new cache, it holds at most \<open>maxsize\<close> entries; a value that \<open>get\<close> returns is the
  latest one set for that key, was set less than the TTL ago and was not invalidated since; and a value
  just set is returned until the TTL has passed.\<close>

theorem ttl_cache_sound:
  assumes "ttl_cache t n = Inr c0" and c_def: "c = fold cache_step ops c0"
  shows "length (cache_data c) \<le> nat n
    \<and> (\<forall>k now v. fst (cache_get k now c) = Some v \<longrightarrow>
         (\<exists>t0. fold latest_step ops Map.empty k = Some (v, t0) \<and> now - t0 < t))
    \<and> (\<forall>k v t0 now. now - t0 < t \<longrightarrow> fst (cache_get k now (cache_set k v t0 c)) = Some v)"
proof -
  have c0: "ttl c0 = t" "maxsize c0 = nat n" "cache_inv Map.empty c0"
    using assms(1) by (auto simp: ttl_cache_def cache_inv_def split: if_splits)
  have params: "ttl (fold cache_step ops c') = ttl c' \<and> maxsize (fold cache_step ops c') = maxsize c'"
    for c' :: "('a, 'b) ttl_cache"
    by (induction ops arbitrary: c') (simp_all del: split_paired_All)
  have keep: "cache_inv m c' \<Longrightarrow> cache_inv (fold latest_step ops m) (fold cache_step ops c')" for m and c' :: "('a, 'b) ttl_cache"
    by (induction ops arbitrary: m c') (simp_all add: cache_step_inv)
  from keep [OF c0(3)] params [of c0] c0(1,2) have inv: "cache_inv (fold latest_step ops Map.empty) c" "ttl c = t" "maxsize c = nat n"
    by (auto simp: c_def)
  have "\<exists>t0. fold latest_step ops Map.empty k = Some (v, t0) \<and> now - t0 < t" if "fst (cache_get k now c) = Some v" for k now v
  proof -
    from that obtain t0 where "map_of (cache_data c) k = Some (v, t0)" "now - t0 < t"
      using inv(2) by (auto simp: cache_get_def split: option.splits if_splits)
    with inv(1) show ?thesis by (auto simp: cache_inv_def)
  qed
  with inv show ?thesis by (auto simp: cache_inv_def cache_get_def cache_set_def)
qed

theorem ttl_cache_sound_witness:
  "length (cache_data (fold cache_step [CSet (1::nat) ''a'' 0, CSet 2 ''b'' 1]
     \<lparr>ttl = 30, maxsize = 1, cache_data = []\<rparr>)) \<le> nat 1"
  by (rule conjunct1 [OF ttl_cache_sound [OF _ refl, of 30 1]]) (simp add: ttl_cache_def)

end
