(* ===== verification/WmWire.thy ===== *)
theory WmWire
  imports PyJson
begin

unbundle bit_operations_syntax

text \<open>
  The WM v2 edge wire format (\<open>src/tagpulse/ingestion/wm_wire_format.py\<close>): the Pydantic models of the
  keyed dialect and the hand-written parser of the compact dialect.  What Pydantic itself does, the
  lax coercion of a value to \<open>int\<close>, \<open>float\<close> and \<open>str\<close>, is a parameter (\<open>coercions\<close>); the constraints,
  validators and forbidden keys that the models declare are definitions.
\<close>

definition EPC_MIN_HEX_CHARS :: nat where "EPC_MIN_HEX_CHARS = 8"
definition EPC_MAX_HEX_CHARS :: nat where "EPC_MAX_HEX_CHARS = 124"

text \<open>Ranges of the numeric fields.\<close>

definition antenna_ok :: "int \<Rightarrow> bool" where "antenna_ok i \<longleftrightarrow> 0 \<le> i \<and> i \<le> 255"
definition rssi_ok :: "int \<Rightarrow> bool" where "rssi_ok i \<longleftrightarrow> - 127 \<le> i \<and> i \<le> 0"
definition cnt_ok :: "int \<Rightarrow> bool" where "cnt_ok i \<longleftrightarrow> 1 \<le> i \<and> i \<le> 65535"
definition pf_between :: "real \<Rightarrow> real \<Rightarrow> pfloat \<Rightarrow> bool" where
  "pf_between lo hi x \<longleftrightarrow> pf_le (Fin lo) x \<and> pf_le x (Fin hi)"

definition LAT_MAX :: real where "LAT_MAX = 90"
definition LON_MAX :: real where "LON_MAX = 180"
definition TMP_MIN :: real where "TMP_MIN = - 40"
definition TMP_MAX :: real where "TMP_MAX = 85"
definition HUM_MAX :: real where "HUM_MAX = 100"

section \<open>EPC validation\<close>

definition validate_epc :: "string \<Rightarrow> py_exn + string" where
  "validate_epc value =
     (if length value < EPC_MIN_HEX_CHARS \<or> length value > EPC_MAX_HEX_CHARS then Inl (ValueError ''epc length'')
      else if length value mod 2 \<noteq> 0 then Inl (ValueError ''epc length must be even (whole bytes)'')
      else case int_base16 value of
        None \<Rightarrow> Inl (ValueError ''epc must be hexadecimal'')
      | Some _ \<Rightarrow> Inr (py_upper value))"

text \<open>What the wire specification asks for: whole bytes of upper-case hexadecimal digits.\<close>

definition canonical_epc :: "string \<Rightarrow> bool" where
  "canonical_epc s \<longleftrightarrow> EPC_MIN_HEX_CHARS \<le> length s \<and> length s \<le> EPC_MAX_HEX_CHARS \<and> even (length s) \<and>
     list_all (\<lambda>c. hex_val c \<noteq> None) s \<and> py_upper s = s"

section \<open>The keyed dialect\<close>

record snap_entry =
  se_an :: int
  se_epc :: string
  se_rssi :: int
  se_cnt :: int
  se_tmp :: "pfloat option"
  se_hum :: "pfloat option"

datatype wm_message =
    WmSnap (wm_sn: int) (wm_ts: int) "pfloat option" "pfloat option" "snap_entry list"
  | WmAppeared (wm_sn: int) (wm_ts: int) "pfloat option" "pfloat option" snap_entry
  | WmDisappeared (wm_sn: int) (wm_ts: int) string "pfloat option" "pfloat option" "int option"

record coercions =
  as_int :: "json \<Rightarrow> int option"
  as_float :: "json \<Rightarrow> pfloat option"
  as_str :: "json \<Rightarrow> string option"
  as_tag :: "json \<Rightarrow> int option"

text \<open>
  Documented behaviour of Pydantic: an integer field takes an integer, a float field a float or an
  integer, a string field a string, and the discriminator is matched by its integer value.
\<close>

definition plain_coercions :: "coercions \<Rightarrow> bool" where
  "plain_coercions C \<longleftrightarrow> (\<forall>i. as_int C (JInt i) = Some i \<and> as_tag C (JInt i) = Some i) \<and>
     (\<forall>x. as_float C (JFloat x) = Some x) \<and> (\<forall>s. as_str C (JStr s) = Some s)"

definition strict :: coercions where
  "strict = \<lparr>as_int = (\<lambda>j. case j of JInt i \<Rightarrow> Some i | _ \<Rightarrow> None),
     as_float = (\<lambda>j. case j of JFloat x \<Rightarrow> Some x | _ \<Rightarrow> None),
     as_str = (\<lambda>j. case j of JStr s \<Rightarrow> Some s | _ \<Rightarrow> None),
     as_tag = (\<lambda>j. case j of JInt i \<Rightarrow> Some i | _ \<Rightarrow> None)\<rparr>"

definition bind_opt :: "'a option \<Rightarrow> ('a \<Rightarrow> 'b option) \<Rightarrow> 'b option" where
  "bind_opt m f = (case m of None \<Rightarrow> None | Some x \<Rightarrow> f x)"

lemma bind_opt_simps [simp]: "bind_opt None f = None" "bind_opt (Some x) f = f x"
  by (simp_all add: bind_opt_def)

lemma bind_opt_eq_Some: "bind_opt m f = Some y \<longleftrightarrow> (\<exists>x. m = Some x \<and> f x = Some y)"
  by (cases m) auto

text \<open>A required field with a constraint.\<close>

definition field_req :: "(json \<Rightarrow> 'a option) \<Rightarrow> ('a \<Rightarrow> bool) \<Rightarrow> jobj \<Rightarrow> string \<Rightarrow> 'a option" where
  "field_req coerce ok d k =
     bind_opt (map_of d k) (\<lambda>j. bind_opt (coerce j) (\<lambda>x. if ok x then Some x else None))"

text \<open>A required field that may be \<open>null\<close>, and an optional one that may be \<open>null\<close> or missing.\<close>

definition field_null :: "(json \<Rightarrow> 'a option) \<Rightarrow> ('a \<Rightarrow> bool) \<Rightarrow> jobj \<Rightarrow> string \<Rightarrow> 'a option option" where
  "field_null coerce ok d k =
     bind_opt (map_of d k) (\<lambda>j. if j = JNull then Some None
       else bind_opt (coerce j) (\<lambda>x. if ok x then Some (Some x) else None))"

definition field_opt :: "(json \<Rightarrow> 'a option) \<Rightarrow> ('a \<Rightarrow> bool) \<Rightarrow> jobj \<Rightarrow> string \<Rightarrow> 'a option option" where
  "field_opt coerce ok d k = (if map_of d k = None then Some None else field_null coerce ok d k)"

definition forbid_extra :: "string list \<Rightarrow> jobj \<Rightarrow> bool" where
  "forbid_extra allowed d \<longleftrightarrow> (\<forall>k \<in> set (dict_keys d). k \<in> set allowed)"

definition reject_explicit_null_optional :: "jobj \<Rightarrow> string list \<Rightarrow> bool" where
  "reject_explicit_null_optional d names \<longleftrightarrow> (\<exists>k \<in> set names. map_of d k = Some JNull)"

definition normalize_epc :: "string \<Rightarrow> string option" where
  "normalize_epc s = (case validate_epc s of Inl _ \<Rightarrow> None | Inr e \<Rightarrow> Some e)"

definition epc_field :: "coercions \<Rightarrow> jobj \<Rightarrow> string option" where
  "epc_field C d = bind_opt (field_req (as_str C) (\<lambda>_. True) d ''epc'') normalize_epc"

text \<open>The per-EPC fields, shared by the entries of a snapshot and by appeared messages.\<close>

definition entry_fields :: "coercions \<Rightarrow> jobj \<Rightarrow> snap_entry option" where
  "entry_fields C d =
     (if reject_explicit_null_optional d [''tmp'', ''hum''] then None
      else bind_opt (field_req (as_int C) antenna_ok d ''an'') (\<lambda>an.
        bind_opt (epc_field C d) (\<lambda>epc.
        bind_opt (field_req (as_int C) rssi_ok d ''rssi'') (\<lambda>rssi.
        bind_opt (field_req (as_int C) cnt_ok d ''cnt'') (\<lambda>cnt.
        bind_opt (field_opt (as_float C) (pf_between TMP_MIN TMP_MAX) d ''tmp'') (\<lambda>tmp.
        bind_opt (field_opt (as_float C) (pf_between 0 HUM_MAX) d ''hum'') (\<lambda>hum.
          Some \<lparr>se_an = an, se_epc = epc, se_rssi = rssi, se_cnt = cnt, se_tmp = tmp, se_hum = hum\<rparr>)))))))"

definition parse_snap_entry :: "coercions \<Rightarrow> json \<Rightarrow> snap_entry option" where
  "parse_snap_entry C j =
     (case j of
        JObj d \<Rightarrow> if forbid_extra [''an'', ''epc'', ''rssi'', ''cnt'', ''tmp'', ''hum''] d then entry_fields C d else None
      | _ \<Rightarrow> None)"

fun map_opt :: "('a \<Rightarrow> 'b option) \<Rightarrow> 'a list \<Rightarrow> 'b list option" where
  "map_opt f [] = Some []"
| "map_opt f (x # xs) = bind_opt (f x) (\<lambda>y. bind_opt (map_opt f xs) (\<lambda>ys. Some (y # ys)))"

definition nonneg :: "int \<Rightarrow> bool" where
  "nonneg i \<longleftrightarrow> 0 \<le> i"

definition parse_snap :: "coercions \<Rightarrow> jobj \<Rightarrow> wm_message option" where
  "parse_snap C d =
     (if \<not> forbid_extra [''t'', ''sn'', ''ts'', ''lat'', ''lon'', ''epcs''] d then None
      else bind_opt (field_req (as_int C) nonneg d ''sn'') (\<lambda>sn.
        bind_opt (field_req (as_int C) nonneg d ''ts'') (\<lambda>ts.
        bind_opt (field_null (as_float C) (pf_between (- LAT_MAX) LAT_MAX) d ''lat'') (\<lambda>lat.
        bind_opt (field_null (as_float C) (pf_between (- LON_MAX) LON_MAX) d ''lon'') (\<lambda>lon.
        bind_opt (map_of d ''epcs'') (\<lambda>es. case es of
            JList xs \<Rightarrow> bind_opt (map_opt (parse_snap_entry C) xs) (\<lambda>entries. Some (WmSnap sn ts lat lon entries))
          | _ \<Rightarrow> None))))))"

definition parse_appeared :: "coercions \<Rightarrow> jobj \<Rightarrow> wm_message option" where
  "parse_appeared C d =
     (if \<not> forbid_extra [''t'', ''sn'', ''ts'', ''lat'', ''lon'', ''an'', ''epc'', ''rssi'', ''cnt'', ''tmp'', ''hum''] d then None
      else bind_opt (field_req (as_int C) nonneg d ''sn'') (\<lambda>sn.
        bind_opt (field_req (as_int C) nonneg d ''ts'') (\<lambda>ts.
        bind_opt (field_null (as_float C) (pf_between (- LAT_MAX) LAT_MAX) d ''lat'') (\<lambda>lat.
        bind_opt (field_null (as_float C) (pf_between (- LON_MAX) LON_MAX) d ''lon'') (\<lambda>lon.
        bind_opt (entry_fields C d) (\<lambda>entry. Some (WmAppeared sn ts lat lon entry)))))))"

definition parse_disappeared :: "coercions \<Rightarrow> jobj \<Rightarrow> wm_message option" where
  "parse_disappeared C d =
     (if \<not> forbid_extra [''t'', ''sn'', ''ts'', ''epc'', ''lat'', ''lon'', ''an''] d then None
      else bind_opt (field_req (as_int C) nonneg d ''sn'') (\<lambda>sn.
        bind_opt (field_req (as_int C) nonneg d ''ts'') (\<lambda>ts.
        bind_opt (epc_field C d) (\<lambda>epc.
        bind_opt (field_opt (as_float C) (pf_between (- LAT_MAX) LAT_MAX) d ''lat'') (\<lambda>lat.
        bind_opt (field_opt (as_float C) (pf_between (- LON_MAX) LON_MAX) d ''lon'') (\<lambda>lon.
        bind_opt (field_opt (as_int C) antenna_ok d ''an'') (\<lambda>an. Some (WmDisappeared sn ts epc lat lon an))))))))"

text \<open>\<open>None\<close> is a \<open>ValidationError\<close>.\<close>

definition parse_wm_message :: "coercions \<Rightarrow> jobj \<Rightarrow> wm_message option" where
  "parse_wm_message C d =
     bind_opt (map_of d ''t'') (\<lambda>j. bind_opt (as_tag C j) (\<lambda>t.
       if t = 0 then parse_snap C d else if t = 1 then parse_appeared C d
       else if t = 2 then parse_disappeared C d else None))"

section \<open>The compact dialect\<close>

text \<open>A failure is a \<open>WmV2ParseError\<close> with its reason, or another exception that escapes the parser.\<close>

datatype wm2_error = WmV2ParseError string | Escaped py_exn

record wm2_entry =
  w2_epc :: string
  w2_rssi :: "pfloat option"
  w2_cnt :: "int option"
  w2_tmp :: "pfloat option"
  w2_hum :: "pfloat option"

record wm2_message =
  w2_t :: json
  w2_sn :: string
  w2_ts :: datetime
  w2_lat :: "pfloat option"
  w2_lon :: "pfloat option"
  w2_fw :: json
  w2_ant :: "int option"
  w2_entries :: "wm2_entry list"

definition v2_num :: "json \<Rightarrow> wm2_error + pfloat option" where
  "v2_num value =
     (case value of
        JNull \<Rightarrow> Inr None
      | JInt i \<Rightarrow> map_sum Escaped Some (to_float value)
      | JFloat x \<Rightarrow> Inr (Some x)
      | _ \<Rightarrow> Inl (WmV2ParseError ''invalid_snap_entry''))"

text \<open>\<open>int(round(n))\<close>: halves go to the even neighbour; NaN and the infinities raise.\<close>

definition round_int :: "pfloat \<Rightarrow> py_exn + int" where
  "round_int x =
     (case x of
        Fin r \<Rightarrow> Inr (py_round r)
      | NaN \<Rightarrow> Inl (ValueError ''cannot convert float NaN to integer'')
      | _ \<Rightarrow> Inl OverflowError)"

definition v2_int :: "json \<Rightarrow> wm2_error + int option" where
  "v2_int value =
     and_then (v2_num value) (\<lambda>n. case n of None \<Rightarrow> Inr None | Some x \<Rightarrow> map_sum Escaped Some (round_int x))"

definition v2_fw :: "json \<Rightarrow> wm2_error + json" where
  "v2_fw value =
     (case value of
        JNull \<Rightarrow> Inr JNull
      | JStr s \<Rightarrow> Inr (JStr s)
      | JInt i \<Rightarrow> map_sum Escaped JFloat (to_float value)
      | JFloat x \<Rightarrow> Inr (JFloat x)
      | _ \<Rightarrow> Inl (WmV2ParseError ''invalid_snap_entry''))"

definition v2_sn :: "json \<Rightarrow> wm2_error + string" where
  "v2_sn value =
     (case value of
        JStr s \<Rightarrow> if s = [] then Inl (WmV2ParseError ''missing_required_field'') else Inr s
      | JInt i \<Rightarrow> Inr (str_int i)
      | _ \<Rightarrow> Inl (WmV2ParseError ''missing_required_field''))"

definition v2_coord :: "json \<Rightarrow> real \<Rightarrow> real \<Rightarrow> wm2_error + pfloat option" where
  "v2_coord value lo hi =
     (case value of
        JNull \<Rightarrow> Inr None
      | JInt i \<Rightarrow> and_then (map_sum Escaped id (to_float value)) (\<lambda>f.
          if pf_between lo hi f then Inr (Some f) else Inl (WmV2ParseError ''invalid_location''))
      | JFloat f \<Rightarrow> if pf_between lo hi f then Inr (Some f) else Inl (WmV2ParseError ''invalid_location'')
      | _ \<Rightarrow> Inl (WmV2ParseError ''invalid_location''))"

text \<open>
  \<open>fromisoformat\<close> stands for \<open>datetime.fromisoformat\<close> followed by the reading as UTC; it is applied to the
  text after a final \<open>Z\<close> has been replaced by an offset.
\<close>

definition parse_v2_ts :: "(string \<Rightarrow> datetime option) \<Rightarrow> json \<Rightarrow> wm2_error + datetime" where
  "parse_v2_ts fromisoformat value =
     (case value of
        JStr s \<Rightarrow>
          if s = [] then Inl (WmV2ParseError ''invalid_timestamp'')
          else (let raw = (if last s = CHR ''Z'' then butlast s @ ''+00:00'' else s) in
            case fromisoformat raw of
              None \<Rightarrow> Inl (WmV2ParseError ''invalid_timestamp'')
            | Some dt \<Rightarrow> Inr dt)
      | _ \<Rightarrow> Inl (WmV2ParseError ''invalid_timestamp''))"

definition parse_v2_entry :: "json \<Rightarrow> json \<Rightarrow> wm2_error + wm2_entry" where
  "parse_v2_entry t raw =
     (case raw of
        JList (r0 # r1 # r2 # r3 # r4 # _) \<Rightarrow>
          and_then (case r0 of
              JStr s \<Rightarrow> map_sum (\<lambda>_. WmV2ParseError ''invalid_epc'') id (validate_epc s)
            | _ \<Rightarrow> Inl (WmV2ParseError ''invalid_epc'')) (\<lambda>epc.
          if eq_int t 2 then Inr \<lparr>w2_epc = epc, w2_rssi = None, w2_cnt = None, w2_tmp = None, w2_hum = None\<rparr>
          else and_then (v2_num r1) (\<lambda>rssi. and_then (v2_int r2) (\<lambda>cnt. and_then (v2_num r3) (\<lambda>tmp.
            and_then (v2_num r4) (\<lambda>hum.
              Inr \<lparr>w2_epc = epc, w2_rssi = rssi, w2_cnt = cnt, w2_tmp = tmp, w2_hum = hum\<rparr>)))))
      | _ \<Rightarrow> Inl (WmV2ParseError ''invalid_snap_entry''))"

definition parse_wm_v2 :: "(string \<Rightarrow> datetime option) \<Rightarrow> jobj \<Rightarrow> wm2_error + wm2_message" where
  "parse_wm_v2 fromisoformat raw =
     (let t = jget raw ''t'' in
      if \<not> eq_int (jget raw ''v'') 2 then Inl (WmV2ParseError ''unknown_wire_version'')
      else if t = JNull then Inl (WmV2ParseError ''missing_type'')
      else if \<not> (eq_int t 0 \<or> eq_int t 1 \<or> eq_int t 2) then Inl (WmV2ParseError ''unknown_type'')
      else and_then (v2_sn (jget raw ''sn'')) (\<lambda>sn.
        and_then (parse_v2_ts fromisoformat (jget raw ''ts'')) (\<lambda>ts.
        (case jget raw ''epcs'' of
           JList epcs \<Rightarrow>
             and_then (v2_int (jget raw ''ant'')) (\<lambda>ant.
             if \<not> (case ant of None \<Rightarrow> True | Some a \<Rightarrow> antenna_ok a) then Inl (WmV2ParseError ''invalid_snap_entry'')
             else and_then (map_res (parse_v2_entry t) epcs) (\<lambda>entries.
               and_then (v2_coord (jget raw ''lat'') (- LAT_MAX) LAT_MAX) (\<lambda>lat.
               and_then (v2_coord (jget raw ''lon'') (- LON_MAX) LON_MAX) (\<lambda>lon.
               and_then (v2_fw (jget raw ''fw'')) (\<lambda>fw.
                 Inr \<lparr>w2_t = t, w2_sn = sn, w2_ts = ts, w2_lat = lat, w2_lon = lon, w2_fw = fw, w2_ant = ant,
                      w2_entries = entries\<rparr>)))))
         | _ \<Rightarrow> Inl (WmV2ParseError ''missing_required_field'')))))"

section \<open>What the parsers guarantee\<close>

definition epc_shape :: "string \<Rightarrow> bool" where
  "epc_shape s \<longleftrightarrow> EPC_MIN_HEX_CHARS \<le> length s \<and> length s \<le> EPC_MAX_HEX_CHARS \<and> even (length s)"

lemma upper_char_idem [simp]: "upper_char (upper_char c) = upper_char c"
  by (auto simp: upper_char_def)

lemma upper_samples: "upper_char CHR ''e'' = CHR ''E''" "upper_char CHR ''x'' = CHR ''X''" "upper_char CHR ''X'' = CHR ''X''" "upper_char CHR ''A'' = CHR ''A''"
    "upper_char CHR ''B'' = CHR ''B''"
  by code_simp+

lemma upper_digit: "is_digit c \<Longrightarrow> upper_char c = c"
  by (auto simp: is_digit_def upper_char_def)

text \<open>Upper-casing does not change what \<open>int(s, 16)\<close> reads, so a validated EPC validates again, unchanged.\<close>

lemma upper_char_props:
  "ord_of (upper_char c) < 128 \<longleftrightarrow> ord_of c < 128" "py_space (upper_char c) = py_space c"
  "ascii_space (upper_char c) = ascii_space c" "hex_val (upper_char c) = hex_val c"
  by (auto simp: upper_char_def py_space_def ascii_space_def hex_val_def Let_def)

lemma upper_char_eq:
  assumes "\<not> (65 \<le> ord_of k \<and> ord_of k \<le> 90)" and "\<not> (97 \<le> ord_of k \<and> ord_of k \<le> 122)"
  shows "upper_char c = k \<longleftrightarrow> c = k"
  using assms by (auto simp: upper_char_def)

lemma upper_char_x: "upper_char c = CHR ''x'' \<or> upper_char c = CHR ''X'' \<longleftrightarrow> c = CHR ''x'' \<or> c = CHR ''X''"
proof -
  have "upper_char c = CHR ''x'' \<Longrightarrow> False"
    by (auto simp: upper_char_def dest!: arg_cong [where f = ord_of] split: if_splits)
  moreover have "upper_char c = CHR ''X'' \<longleftrightarrow> c = CHR ''x'' \<or> c = CHR ''X''"
  proof
    assume "upper_char c = CHR ''X''"
    then have "ord_of (upper_char c) = 88" by simp
    then have "ord_of c = 88 \<or> ord_of c = 120" by (auto simp: upper_char_def split: if_splits)
    then have "ord_of c = ord_of CHR ''X'' \<or> ord_of c = ord_of CHR ''x''" by simp
    then show "c = CHR ''x'' \<or> c = CHR ''X''" by (simp only: of_char_eq_iff) blast
  next
    assume "c = CHR ''x'' \<or> c = CHR ''X''"
    then show "upper_char c = CHR ''X''" by (elim disjE) (simp_all add: upper_samples)
  qed
  ultimately show ?thesis by blast
qed

lemma int16_digits_upper: "int16_digits und v (py_upper s) = int16_digits und v s"
  by (induction und v s rule: int16_digits.induct) (auto simp: upper_char_props upper_char_eq split: option.split)

lemma int16_prefix_upper: "int16_prefix (py_upper s) = py_upper (int16_prefix s)"
proof (cases s)
  case (Cons a s')
  then show ?thesis
  proof (cases s')
    case inner: (Cons b cs)
    with Cons upper_char_x [of b] show ?thesis
      by (cases cs) (auto simp: int16_prefix_def upper_char_eq)
  qed (simp add: int16_prefix_def)
qed (simp add: int16_prefix_def)

lemma int_strip_upper: "int_strip (py_upper s) = py_upper (int_strip s)"
  by (simp add: int_strip_def dropWhile_map rev_map o_def upper_char_props)

lemma int_text_upper: "int_text (py_upper s) = py_upper (int_text s)"
proof -
  have "upper_char CHR '' '' = CHR '' ''" by (simp add: upper_char_def)
  then show ?thesis by (auto simp: int_text_def list_all_iff upper_char_props)
qed

lemma int_base16_upper: "int_base16 (py_upper s) = int_base16 s"
proof -
  let ?b = "int_strip (int_text s)"
  have "int16_sign (py_upper ?b) = (fst (int16_sign ?b), py_upper (snd (int16_sign ?b)))"
    by (cases ?b) (auto simp: int16_sign_def upper_char_eq)
  then show ?thesis
    by (simp add: int_base16_def int_text_upper int_strip_upper int16_prefix_upper int16_digits_upper Let_def case_prod_beta)
qed

text \<open>What the validation of an EPC guarantees of its result: whole upper-case bytes within the length limits that
  \<open>int(value, 16)\<close> reads.  That is more than hexadecimal digits: a \<open>0X\<close> prefix, a sign, blanks and underscores pass
  (\<open>validate_epc_accepts\<close> below).\<close>

definition epc_text :: "string \<Rightarrow> bool" where
  "epc_text s \<longleftrightarrow> epc_shape s \<and> py_upper s = s \<and> int_base16 s \<noteq> None"

lemma validate_epc_shape: "validate_epc s = Inr e \<Longrightarrow> epc_shape e \<and> py_upper e = e"
  by (auto simp: validate_epc_def epc_shape_def even_iff_mod_2_eq_zero split: if_splits option.splits)

lemma validate_epc_text:
  assumes "validate_epc s = Inr e"
  shows "epc_text e"
proof -
  have "e = py_upper s" and "int_base16 s \<noteq> None"
    using assms unfolding validate_epc_def by (simp_all split: if_splits option.splits)
  then have "int_base16 e \<noteq> None" using int_base16_upper [of s] by (simp only: simp_thms)
  with validate_epc_shape [OF assms] show ?thesis by (simp add: epc_text_def)
qed

lemma v2_num_escapes: "v2_num j = Inr x \<Longrightarrow> j = JNull \<longleftrightarrow> x = None"
  by (cases j) (auto simp: v2_num_def float_limit_def split: if_splits)

lemma v2_coord_range: "v2_coord j lo hi = Inr (Some f) \<Longrightarrow> \<exists>r. f = Fin r \<and> lo \<le> r \<and> r \<le> hi"
  by (auto simp: v2_coord_def and_then_eq_Inr pf_between_def dest!: pf_le_bounds split: json.splits if_splits)

lemma parse_v2_entry_epc: "parse_v2_entry t j = Inr e \<Longrightarrow>
    epc_text (w2_epc e) \<and>
    (eq_int t 2 \<longrightarrow> w2_rssi e = None \<and> w2_cnt e = None \<and> w2_tmp e = None \<and> w2_hum e = None)"
proof -
  assume parse: "parse_v2_entry t j = Inr e"
  then obtain r0 r1 r2 r3 r4 rs where j: "j = JList (r0 # r1 # r2 # r3 # r4 # rs)"
    by (auto simp: parse_v2_entry_def split: json.splits list.splits)
  with parse obtain s where r0: "r0 = JStr s" and "validate_epc s = Inr (w2_epc e)"
    by (cases r0; cases "validate_epc (case r0 of JStr s \<Rightarrow> s | _ \<Rightarrow> [])")
      (auto simp: parse_v2_entry_def and_then_eq_Inr split: if_splits)
  moreover have "eq_int t 2 \<longrightarrow> w2_rssi e = None \<and> w2_cnt e = None \<and> w2_tmp e = None \<and> w2_hum e = None"
    using parse j by (auto simp: parse_v2_entry_def and_then_eq_Inr split: if_splits)
  ultimately show ?thesis using validate_epc_text by blast
qed

text \<open>C40: a compact-dialect message that the parser accepts has a known type, EPCs of whole upper-case bytes within the
  length limits that \<open>int(epc, 16)\<close> reads (which, against the docstring, lets a \<open>0X\<close> prefix, a sign, blanks and
  underscores through), an antenna in range and coordinates in range; the entries of a departure carry no
  readings.  Nothing is claimed of the readings themselves.\<close>

theorem parse_wm_v2_valid:
  assumes "parse_wm_v2 fromisoformat raw = Inr m"
  shows "(eq_int (w2_t m) 0 \<or> eq_int (w2_t m) 1 \<or> eq_int (w2_t m) 2) \<and> w2_sn m \<noteq> []
    \<and> (\<forall>e \<in> set (w2_entries m). epc_shape (w2_epc e) \<and> py_upper (w2_epc e) = w2_epc e \<and> int_base16 (w2_epc e) \<noteq> None \<and>
         (eq_int (w2_t m) 2 \<longrightarrow> w2_rssi e = None \<and> w2_cnt e = None \<and> w2_tmp e = None \<and> w2_hum e = None))
    \<and> (\<forall>a. w2_ant m = Some a \<longrightarrow> antenna_ok a)
    \<and> (\<forall>f. w2_lat m = Some f \<longrightarrow> (\<exists>r. f = Fin r \<and> - 90 \<le> r \<and> r \<le> 90))
    \<and> (\<forall>f. w2_lon m = Some f \<longrightarrow> (\<exists>r. f = Fin r \<and> - 180 \<le> r \<and> r \<le> 180))"
proof -
  define t where "t = jget raw ''t''"
  from assms obtain epcs where epcs: "jget raw ''epcs'' = JList epcs"
    by (cases "jget raw ''epcs''") (auto simp: parse_wm_v2_def Let_def and_then_eq_Inr split: if_splits)
  from assms obtain sn ts ant entries lat lon fw where t: "eq_int t 0 \<or> eq_int t 1 \<or> eq_int t 2"
    and sn: "v2_sn (jget raw ''sn'') = Inr sn" and entries: "map_res (parse_v2_entry t) epcs = Inr entries"
    and ant: "case ant of None \<Rightarrow> True | Some a \<Rightarrow> antenna_ok a"
    and lat: "v2_coord (jget raw ''lat'') (- LAT_MAX) LAT_MAX = Inr lat"
    and lon: "v2_coord (jget raw ''lon'') (- LON_MAX) LON_MAX = Inr lon"
    and m: "m = \<lparr>w2_t = t, w2_sn = sn, w2_ts = ts, w2_lat = lat, w2_lon = lon, w2_fw = fw, w2_ant = ant, w2_entries = entries\<rparr>"
    by (auto simp: parse_wm_v2_def Let_def and_then_eq_Inr epcs t_def split: if_splits)
  have "sn \<noteq> []" using sn
    by (auto simp: v2_sn_def str_int_def str_nat_def str_base_nonempty split: json.splits if_splits)
  moreover have "epc_text (w2_epc e) \<and>
      (eq_int t 2 \<longrightarrow> w2_rssi e = None \<and> w2_cnt e = None \<and> w2_tmp e = None \<and> w2_hum e = None)" if "e \<in> set entries" for e
    using map_res_all [OF entries that] parse_v2_entry_epc by blast
  ultimately show ?thesis
    using t ant lat lon v2_coord_range by (fastforce simp: m LAT_MAX_def LON_MAX_def epc_text_def)
qed

definition demo_wm2 :: "json \<Rightarrow> jobj" where
  "demo_wm2 cnt = [(''v'', JInt 2), (''t'', JInt 1), (''sn'', JStr ''r1''), (''ts'', JStr ''2026-01-01T00:00:00Z''),
     (''ant'', JInt 3), (''lat'', JFloat (Fin 47)), (''epcs'', JList [JList [JStr ''e2801160'', JFloat (Fin (- 55)), cnt, JNull, JNull]])]"

lemma demo_epc: "validate_epc ''e2801160'' = Inr ''E2801160''"
  by (simp add: validate_epc_def EPC_MIN_HEX_CHARS_def EPC_MAX_HEX_CHARS_def upper_samples upper_digit is_digit_def int_base16_def int_text_def
      int_strip_def ascii_space_def int16_sign_def int16_prefix_def hex_val_def Let_def)

theorem parse_wm_v2_valid_witness:
  "\<exists>m. parse_wm_v2 (\<lambda>_. Some 0) (demo_wm2 (JInt 2)) = Inr m \<and> w2_sn m \<noteq> [] \<and>
     (\<forall>a. w2_ant m = Some a \<longrightarrow> antenna_ok a)"
proof -
  obtain m where m: "parse_wm_v2 (\<lambda>_. Some 0) (demo_wm2 (JInt 2)) = Inr m"
    by (simp add: parse_wm_v2_def demo_wm2_def jget_def eq_int_def v2_sn_def parse_v2_ts_def v2_int_def v2_num_def
        round_int_def float_limit_def antenna_ok_def parse_v2_entry_def demo_epc v2_coord_def pf_between_def
        LAT_MAX_def v2_fw_def Let_def)
  with parse_wm_v2_valid [OF m] show ?thesis by blast
qed

text \<open>\<open>_validate_epc\<close> accepts every string of hexadecimal digits of an allowed length and returns its canonical form; but
  the base-16 reader of Python also takes a \<open>0x\<close> prefix, a sign, blanks and underscores, so a string that
  its documentation excludes is accepted as well, and returned as an EPC that is not canonical.\<close>

theorem validate_epc_accepts:
  "(\<forall>s. hex_string s \<longrightarrow> epc_shape s \<longrightarrow> validate_epc s = Inr (py_upper s) \<and> canonical_epc (py_upper s))
    \<and> validate_epc ''0x12AB34'' = Inr ''0X12AB34'' \<and> \<not> canonical_epc ''0X12AB34''"
proof -
  have "validate_epc s = Inr (py_upper s) \<and> canonical_epc (py_upper s)" if hex: "hex_string s" and shape: "epc_shape s" for s
  proof -
    have upper: "hex_val (upper_char c) \<noteq> None" if "hex_val c \<noteq> None" for c
      using that by (auto simp: hex_val_def upper_char_def Let_def split: if_splits)
    then have "canonical_epc (py_upper s)"
      using hex shape by (simp add: canonical_epc_def epc_shape_def hex_string_def list_all_iff)
    moreover have "int_base16 s \<noteq> None"
    proof -
      have c: "\<not> ascii_space c \<and> \<not> py_space c \<and> c \<noteq> CHR ''-'' \<and> c \<noteq> CHR ''+'' \<and> c \<noteq> CHR ''x'' \<and> c \<noteq> CHR ''X''" if "c \<in> set s" for c
      proof -
        from hex that obtain v where v: "hex_val c = Some v" by (auto simp: hex_string_def list_all_iff)
        then have "c \<noteq> CHR ''-'' \<and> c \<noteq> CHR ''+'' \<and> c \<noteq> CHR ''x'' \<and> c \<noteq> CHR ''X''"
          by (auto simp: hex_val_def Let_def)
        with v show ?thesis using ascii_space_not_hex py_space_not_hex by blast
      qed
      have s: "s \<noteq> []" using shape by (auto simp: epc_shape_def EPC_MIN_HEX_CHARS_def)
      have "map (\<lambda>c. if py_space c then CHR '' '' else c) s = s" using c by (intro map_idI) auto
      then have "int_text s = s" by (simp add: int_text_def)
      moreover have "int_strip s = s" using c by (simp add: int_strip_def dropWhile_none)
      moreover have "int16_sign s = (False, s)" using c s by (cases s) (auto simp: int16_sign_def)
      moreover have "int16_prefix s = s"
        using c by (cases s rule: list.exhaust; cases "tl s") (auto simp: int16_prefix_def split: list.split)
      ultimately show ?thesis using hex s by (simp add: int_base16_def int16_digits_hex)
    qed
    ultimately show ?thesis using shape by (auto simp: validate_epc_def epc_shape_def even_iff_mod_2_eq_zero)
  qed
  moreover have "validate_epc ''0x12AB34'' = Inr ''0X12AB34''"
    by (simp add: validate_epc_def EPC_MIN_HEX_CHARS_def EPC_MAX_HEX_CHARS_def upper_samples upper_digit is_digit_def int_base16_def int_text_def
        int_strip_def ascii_space_def int16_sign_def int16_prefix_def hex_val_def Let_def)
  moreover have "\<not> canonical_epc ''0X12AB34''"
    by (simp add: canonical_epc_def hex_val_def)
  ultimately show ?thesis by blast
qed

theorem validate_epc_accepts_witness:
  "validate_epc ''e2801160'' = Inr ''E2801160''"
  using conjunct1 [OF validate_epc_accepts, rule_format, of "''e2801160''"]
  by (simp add: hex_string_def hex_val_def epc_shape_def EPC_MIN_HEX_CHARS_def EPC_MAX_HEX_CHARS_def upper_samples upper_digit is_digit_def)

text \<open>A count or antenna that is NaN or infinite, which \<open>json.loads\<close> delivers, is not reported as a parse error with a
  reason: the exception of \<open>round\<close> escapes the parser.\<close>

theorem parse_wm_v2_escape:
  "parse_wm_v2 (\<lambda>_. Some 0) (demo_wm2 (JFloat NaN)) = Inl (Escaped (ValueError ''cannot convert float NaN to integer''))
    \<and> parse_wm_v2 (\<lambda>_. Some 0) (demo_wm2 (JFloat PInf)) = Inl (Escaped OverflowError)"
  by (simp add: parse_wm_v2_def demo_wm2_def jget_def eq_int_def v2_sn_def parse_v2_ts_def v2_int_def v2_num_def
      round_int_def float_limit_def antenna_ok_def parse_v2_entry_def demo_epc Let_def)

end
