(* ===== verification/Presence.thy ===== *)
theory Presence
  imports WmWire
begin

text \<open>
  The presence reconciler (\<open>src/tagpulse/ingestion/presence_reconciler.py\<close>): the table \<open>tag_presence\<close> as a
  dictionary from (tenant, device, EPC) to rows, the effect of a snapshot and of the two deltas on it,
  and the transition events.  The interface \<open>presence_store\<close> is the contract the reconciler keeps towards the
  protocol: seen as a set of present EPCs per device, a snapshot replaces the set, a delta inserts or
  removes one element, nothing else changes, and the events are exactly the differences.
\<close>

section \<open>The table\<close>

record presence_row =
  first_seen :: datetime
  last_seen :: datetime
  pr_status :: string
  last_rssi :: int
  last_antenna :: int

type_synonym presence_key = "uuid \<times> uuid \<times> string"
type_synonym presence_table = "(presence_key, presence_row) pydict"

datatype presence_event =
    TagAppeared (ev_tenant: uuid) (ev_device: uuid) (ev_epc: string) (ev_observed_at: datetime) (ev_source: string)
  | TagDisappeared (ev_tenant: uuid) (ev_device: uuid) (ev_epc: string) (ev_observed_at: datetime) (ev_source: string)

text \<open>A time after the year 9999 raises; nothing has been changed then.\<close>

definition ts_to_datetime :: "int \<Rightarrow> py_exn + datetime" where
  "ts_to_datetime ts_ms =
     (if ts_ms * 1000 > DATETIME_MAX then Inl (ValueError ''year is out of range'') else Inr (ts_ms * 1000))"

text \<open>One entry per EPC: the strongest RSSI, the first one among equals.\<close>

definition collapse_step :: "snap_entry \<Rightarrow> (string, int \<times> int) pydict \<Rightarrow> (string, int \<times> int) pydict" where
  "collapse_step entry out =
     (case map_of out (se_epc entry) of
        None \<Rightarrow> dict_set (se_epc entry) (se_rssi entry, se_an entry) out
      | Some (rssi, _) \<Rightarrow> if se_rssi entry > rssi then dict_set (se_epc entry) (se_rssi entry, se_an entry) out else out)"

definition collapse_snap_entries :: "snap_entry list \<Rightarrow> (string, int \<times> int) pydict" where
  "collapse_snap_entries entries = fold collapse_step entries []"

text \<open>\<open>INSERT ... ON CONFLICT DO UPDATE\<close>: \<open>first_seen\<close> of an existing row is kept.\<close>

definition upsert_present :: "uuid \<Rightarrow> uuid \<Rightarrow> datetime \<Rightarrow> string \<times> int \<times> int \<Rightarrow> presence_table \<Rightarrow> presence_table" where
  "upsert_present tenant device observed_at = (\<lambda>(epc, rssi, antenna) tbl.
     dict_set (tenant, device, epc)
       (case map_of tbl (tenant, device, epc) of
          None \<Rightarrow> \<lparr>first_seen = observed_at, last_seen = observed_at, pr_status = ''present'', last_rssi = rssi, last_antenna = antenna\<rparr>
        | Some row \<Rightarrow> row\<lparr>last_seen := observed_at, pr_status := ''present'', last_rssi := rssi, last_antenna := antenna\<rparr>)
       tbl)"

definition is_present :: "presence_table \<Rightarrow> uuid \<Rightarrow> uuid \<Rightarrow> string \<Rightarrow> bool" where
  "is_present tbl tenant device epc \<longleftrightarrow>
     (case map_of tbl (tenant, device, epc) of None \<Rightarrow> False | Some row \<Rightarrow> pr_status row = ''present'')"

text \<open>The query of step 1, and the update of step 3 for the EPCs of a list.\<close>

definition present_epcs :: "presence_table \<Rightarrow> uuid \<Rightarrow> uuid \<Rightarrow> string list" where
  "present_epcs tbl tenant device =
     map (\<lambda>((_, _, epc), _). epc)
       (filter (\<lambda>((t, d, _), row). t = tenant \<and> d = device \<and> pr_status row = ''present'') tbl)"

definition mark_gone :: "uuid \<Rightarrow> uuid \<Rightarrow> datetime \<Rightarrow> string list \<Rightarrow> presence_table \<Rightarrow> presence_table" where
  "mark_gone tenant device observed_at epcs tbl =
     map (\<lambda>((t, d, epc), row). ((t, d, epc),
       if t = tenant \<and> d = device \<and> epc \<in> set epcs \<and> pr_status row = ''present''
       then row\<lparr>pr_status := ''gone'', last_seen := observed_at\<rparr> else row)) tbl"

section \<open>The three messages\<close>

definition sorted_set :: "string list \<Rightarrow> string list" where
  "sorted_set xs = sort (remdups xs)"

text \<open>The result: what the caller gets, the events in the order of their publication, the new table.\<close>

definition reconcile_snap ::
    "uuid \<Rightarrow> uuid \<Rightarrow> int \<Rightarrow> snap_entry list \<Rightarrow> presence_table
      \<Rightarrow> py_exn + (string list \<times> string list) \<times> presence_event list \<times> presence_table" where
  "reconcile_snap tenant device ts entries tbl =
     and_then (ts_to_datetime ts) (\<lambda>observed_at.
       let snap_state = collapse_snap_entries entries;
           snap_epcs = dict_keys snap_state;
           present = present_epcs tbl tenant device;
           tbl1 = fold (upsert_present tenant device observed_at) snap_state tbl;
           gone_epcs = sorted_set (filter (\<lambda>e. e \<notin> set snap_epcs) present);
           tbl2 = (if gone_epcs = [] then tbl1 else mark_gone tenant device observed_at gone_epcs tbl1);
           appeared_epcs = sorted_set (filter (\<lambda>e. e \<notin> set present) snap_epcs)
       in Inr ((appeared_epcs, gone_epcs),
               map (\<lambda>e. TagAppeared tenant device e observed_at ''snap'') appeared_epcs @
               map (\<lambda>e. TagDisappeared tenant device e observed_at ''snap'') gone_epcs,
               tbl2))"

definition apply_appeared ::
    "uuid \<Rightarrow> uuid \<Rightarrow> int \<Rightarrow> snap_entry \<Rightarrow> presence_table \<Rightarrow> py_exn + bool \<times> presence_event list \<times> presence_table" where
  "apply_appeared tenant device ts entry tbl =
     and_then (ts_to_datetime ts) (\<lambda>observed_at.
       let prior = map_option pr_status (map_of tbl (tenant, device, se_epc entry));
           tbl1 = upsert_present tenant device observed_at (se_epc entry, se_rssi entry, se_an entry) tbl;
           is_transition = (prior \<noteq> Some ''present'')
       in Inr (is_transition,
               if is_transition then [TagAppeared tenant device (se_epc entry) observed_at ''delta''] else [],
               tbl1))"

definition apply_disappeared ::
    "uuid \<Rightarrow> uuid \<Rightarrow> int \<Rightarrow> string \<Rightarrow> presence_table \<Rightarrow> py_exn + bool \<times> presence_event list \<times> presence_table" where
  "apply_disappeared tenant device ts epc tbl =
     and_then (ts_to_datetime ts) (\<lambda>observed_at.
       case map_of tbl (tenant, device, epc) of
         None \<Rightarrow> Inr (False, [], tbl)
       | Some row \<Rightarrow>
           if pr_status row = ''gone''
           then Inr (False, [], dict_set (tenant, device, epc) (row\<lparr>last_seen := observed_at\<rparr>) tbl)
           else Inr (True, [TagDisappeared tenant device epc observed_at ''delta''],
                     dict_set (tenant, device, epc) (row\<lparr>pr_status := ''gone'', last_seen := observed_at\<rparr>) tbl))"

text \<open>The reconciler's part of a parsed message, without the session around it and the reads of the message, which are
  \<open>Mqtt.wm_keyed_work\<close> and \<open>Mqtt.mqtt_session\<close>; an exception leaves the table alone.\<close>

definition apply_message :: "uuid \<Rightarrow> uuid \<Rightarrow> wm_message \<Rightarrow> presence_table \<Rightarrow> presence_event list \<times> presence_table" where
  "apply_message tenant device m tbl =
     (case m of
        WmSnap _ ts _ _ entries \<Rightarrow>
          (case reconcile_snap tenant device ts entries tbl of Inl _ \<Rightarrow> ([], tbl) | Inr (_, evs, tbl') \<Rightarrow> (evs, tbl'))
      | WmAppeared _ ts _ _ entry \<Rightarrow>
          (case apply_appeared tenant device ts entry tbl of Inl _ \<Rightarrow> ([], tbl) | Inr (_, evs, tbl') \<Rightarrow> (evs, tbl'))
      | WmDisappeared _ ts epc _ _ _ \<Rightarrow>
          (case apply_disappeared tenant device ts epc tbl of Inl _ \<Rightarrow> ([], tbl) | Inr (_, evs, tbl') \<Rightarrow> (evs, tbl')))"

section \<open>The table as sets\<close>

definition present_set :: "presence_table \<Rightarrow> uuid \<Rightarrow> uuid \<Rightarrow> string set" where
  "present_set tbl tenant device = {epc. is_present tbl tenant device epc}"

text \<open>Rows are present or gone, and no key has two rows.\<close>

definition table_ok :: "presence_table \<Rightarrow> bool" where
  "table_ok tbl \<longleftrightarrow> wf_dict tbl \<and> (\<forall>(k, row) \<in> set tbl. pr_status row = ''present'' \<or> pr_status row = ''gone'')"

fun effect :: "wm_message \<Rightarrow> string set \<Rightarrow> string set" where
  "effect (WmSnap _ ts _ _ entries) S = (if ts * 1000 > DATETIME_MAX then S else se_epc ` set entries)"
| "effect (WmAppeared _ ts _ _ entry) S = (if ts * 1000 > DATETIME_MAX then S else insert (se_epc entry) S)"
| "effect (WmDisappeared _ ts epc _ _ _) S = (if ts * 1000 > DATETIME_MAX then S else S - {epc})"

lemma dict_keys_collapse_step: "set (dict_keys (collapse_step e out)) = insert (se_epc e) (set (dict_keys out))"
proof (cases "map_of out (se_epc e)")
  case None
  then show ?thesis unfolding collapse_step_def by (simp only: option.case keys_set)
next
  case (Some p)
  then have "se_epc e \<in> set (dict_keys out)" by (metis map_of_eq_None_keys option.discI)
  with Some show ?thesis
    unfolding collapse_step_def by (cases p) (auto simp only: option.case prod.case keys_set split: if_splits)
qed

lemma keys_collapse: "set (dict_keys (collapse_snap_entries entries)) = se_epc ` set entries"
proof -
  have "set (dict_keys (fold collapse_step entries out)) = se_epc ` set entries \<union> set (dict_keys out)" for out
    by (induction entries arbitrary: out) (auto simp only: fold_simps dict_keys_collapse_step image_insert list.set id_apply o_apply)
  from this [of "[]"] show ?thesis by (simp add: collapse_snap_entries_def)
qed

lemma is_present_upsert: "is_present (upsert_present t d now (e, r, a) tbl) t' d' e' \<longleftrightarrow>
    (t' = t \<and> d' = d \<and> e' = e) \<or> is_present tbl t' d' e'"
  by (auto simp: is_present_def upsert_present_def split: option.split)

lemma is_present_upserts: "is_present (fold (upsert_present t d now) xs tbl) t' d' e' \<longleftrightarrow>
    (t' = t \<and> d' = d \<and> e' \<in> fst ` set xs) \<or> is_present tbl t' d' e'"
proof (induction xs arbitrary: tbl)
  case (Cons x xs)
  obtain e r a where "x = (e, r, a)" by (metis surj_pair)
  with Cons show ?case by (auto simp: is_present_upsert)
qed simp

lemma map_of_mark_gone: "map_of (mark_gone t d now es tbl) (t', d', e) =
    map_option (\<lambda>row. if t' = t \<and> d' = d \<and> e \<in> set es \<and> pr_status row = ''present''
      then row\<lparr>pr_status := ''gone'', last_seen := now\<rparr> else row) (map_of tbl (t', d', e))"
  by (induction tbl) (auto simp: mark_gone_def)

lemma is_present_mark_gone: "is_present (mark_gone t d now es tbl) t' d' e \<longleftrightarrow>
    is_present tbl t' d' e \<and> \<not> (t' = t \<and> d' = d \<and> e \<in> set es)"
  by (auto simp: is_present_def map_of_mark_gone split: option.split)

lemma present_epcs_iff: "e \<in> set (present_epcs tbl t d) \<longleftrightarrow> (\<exists>row. ((t, d, e), row) \<in> set tbl \<and> pr_status row = ''present'')"
  by (induction tbl) (auto simp: present_epcs_def)

lemma present_epcs_set:
  assumes "wf_dict tbl"
  shows "set (present_epcs tbl t d) = present_set tbl t d"
proof -
  have "e \<in> set (present_epcs tbl t d) \<longleftrightarrow> is_present tbl t d e" for e
  proof (cases "map_of tbl (t, d, e)")
    case None
    then have "((t, d, e), row) \<notin> set tbl" for row using weak_map_of_SomeI by fastforce
    with None show ?thesis by (simp add: present_epcs_iff is_present_def)
  next
    case (Some row)
    then have "((t, d, e), row') \<in> set tbl \<longleftrightarrow> row' = row" for row'
      using assms by (metis map_of_eq_Some_iff option.inject)
    with Some show ?thesis by (simp add: present_epcs_iff is_present_def)
  qed
  then show ?thesis by (auto simp: present_set_def)
qed

section \<open>The contract\<close>

locale presence_store =
  fixes ok :: "'s \<Rightarrow> bool"
    and view :: "'s \<Rightarrow> 'e set"
    and apply_msg :: "'m \<Rightarrow> 's \<Rightarrow> 's"
    and eff :: "'m \<Rightarrow> 'e set \<Rightarrow> 'e set"
  assumes ok_apply: "ok s \<Longrightarrow> ok (apply_msg m s)"
    and view_apply: "ok s \<Longrightarrow> view (apply_msg m s) = eff m (view s)"
begin

lemma ok_run: "ok s \<Longrightarrow> ok (fold apply_msg ms s)"
  by (induction ms arbitrary: s) (simp_all add: ok_apply)

lemma view_run: "ok s \<Longrightarrow> view (fold apply_msg ms s) = fold eff ms (view s)"
  by (induction ms arbitrary: s) (simp_all add: ok_apply view_apply)

end

text \<open>Events as a change log: each one is a real transition of the set it is replayed on.\<close>

fun replay :: "presence_event list \<Rightarrow> string set \<Rightarrow> string set option" where
  "replay [] S = Some S"
| "replay (TagAppeared _ _ e _ _ # evs) S = (if e \<in> S then None else replay evs (insert e S))"
| "replay (TagDisappeared _ _ e _ _ # evs) S = (if e \<in> S then replay evs (S - {e}) else None)"

lemma replay_appeared:
  "distinct es \<Longrightarrow> set es \<inter> S = {} \<Longrightarrow>
   replay (map (\<lambda>e. TagAppeared t d e at' src) es @ evs) S = replay evs (S \<union> set es)"
  by (induction es arbitrary: S) (auto simp: insert_commute Un_commute)

lemma replay_disappeared:
  "distinct es \<Longrightarrow> set es \<subseteq> S \<Longrightarrow> replay (map (\<lambda>e. TagDisappeared t d e at' src) es) S = Some (S - set es)"
proof (induction es arbitrary: S)
  case (Cons e es)
  then have "distinct es" "set es \<subseteq> S - {e}" by auto
  then have "replay (map (\<lambda>e. TagDisappeared t d e at' src) es) (S - {e}) = Some (S - {e} - set es)"
    by (rule Cons.IH)
  moreover have "S - {e} - set es = S - set (e # es)" by auto
  ultimately show ?case using Cons.prems by simp
qed simp

lemma sorted_set_props [simp]: "set (sorted_set xs) = set xs" "distinct (sorted_set xs)" "sorted (sorted_set xs)"
  by (simp_all add: sorted_set_def)

lemma present_set_upsert: "present_set (upsert_present t d now (e, r, a) tbl) t' d' =
    (if t' = t \<and> d' = d then insert e (present_set tbl t' d') else present_set tbl t' d')"
  by (auto simp: present_set_def is_present_upsert)

lemma table_ok_set:
  "table_ok tbl \<Longrightarrow> pr_status row = ''present'' \<or> pr_status row = ''gone'' \<Longrightarrow> table_ok (dict_set k row tbl)"
  unfolding table_ok_def by (auto dest!: set_dict_set)

lemma table_ok_upsert: "table_ok tbl \<Longrightarrow> table_ok (upsert_present t d now x tbl)"
proof -
  obtain e r a where x: "x = (e, r, a)" by (metis surj_pair)
  show "table_ok tbl \<Longrightarrow> table_ok (upsert_present t d now x tbl)"
    unfolding upsert_present_def x prod.case by (rule table_ok_set) (auto split: option.split)
qed

lemma table_ok_upserts: "table_ok tbl \<Longrightarrow> table_ok (fold (upsert_present t d now) xs tbl)"
  by (induction xs arbitrary: tbl) (simp_all add: table_ok_upsert)

lemma dict_keys_mark_gone: "dict_keys (mark_gone t d now es tbl) = dict_keys tbl"
  by (induction tbl) (auto simp: mark_gone_def)

lemma table_ok_mark_gone: "table_ok tbl \<Longrightarrow> table_ok (mark_gone t d now es tbl)"
  unfolding table_ok_def dict_keys_mark_gone by (auto simp: mark_gone_def split: if_splits)

text \<open>All that the reconciler does with one message.\<close>

lemma apply_message_spec:
  assumes ok: "table_ok tbl" and app: "apply_message t d m tbl = (evs, tbl')"
  shows "table_ok tbl'" and "present_set tbl' t d = effect m (present_set tbl t d)"
    and "(t', d') \<noteq> (t, d) \<Longrightarrow> present_set tbl' t' d' = present_set tbl t' d'"
    and "replay evs (present_set tbl t d) = Some (present_set tbl' t d)"
    and "ev \<in> set evs \<Longrightarrow> ev_tenant ev = t \<and> ev_device ev = d"
proof -
  have wf: "wf_dict tbl" using ok by (simp add: table_ok_def)
  note P = present_epcs_set [OF wf, of t d]
  have all: "table_ok tbl' \<and> present_set tbl' t d = effect m (present_set tbl t d) \<and>
    ((t', d') \<noteq> (t, d) \<longrightarrow> present_set tbl' t' d' = present_set tbl t' d') \<and>
    replay evs (present_set tbl t d) = Some (present_set tbl' t d) \<and>
    (\<forall>ev \<in> set evs. ev_tenant ev = t \<and> ev_device ev = d)"
  proof (cases "wm_ts m * 1000 > DATETIME_MAX")
    case True
    with app ok show ?thesis
      by (cases m) (auto simp: apply_message_def reconcile_snap_def apply_appeared_def apply_disappeared_def ts_to_datetime_def)
  next
    case False
    show ?thesis
    proof (cases m)
      case (WmSnap sn ts lat lon entries)
      let ?E = "se_epc ` set entries" and ?S = "present_set tbl t d"
      let ?now = "ts * 1000"
      let ?t1 = "fold (upsert_present t d ?now) (collapse_snap_entries entries) tbl"
      define gone where "gone = sorted_set (filter (\<lambda>e. e \<notin> set (dict_keys (collapse_snap_entries entries))) (present_epcs tbl t d))"
      define app' where "app' = sorted_set (filter (\<lambda>e. e \<notin> set (present_epcs tbl t d)) (dict_keys (collapse_snap_entries entries)))"
      have sets: "set gone = ?S - ?E" "set app' = ?E - ?S" and dist: "distinct gone" "distinct app'"
        using keys_collapse [of entries] P by (auto simp: gone_def app'_def simp del: set_map)
      have "reconcile_snap t d ts entries tbl = Inr ((app', gone),
          map (\<lambda>e. TagAppeared t d e ?now ''snap'') app' @ map (\<lambda>e. TagDisappeared t d e ?now ''snap'') gone,
          if gone = [] then ?t1 else mark_gone t d ?now gone ?t1)"
        using False WmSnap by (simp add: reconcile_snap_def ts_to_datetime_def Let_def gone_def app'_def)
      with app WmSnap have evs: "evs = map (\<lambda>e. TagAppeared t d e ?now ''snap'') app' @ map (\<lambda>e. TagDisappeared t d e ?now ''snap'') gone"
        and tbl': "tbl' = (if gone = [] then ?t1 else mark_gone t d ?now gone ?t1)"
        by (simp_all only: apply_message_def wm_message.case sum.case prod.case prod.inject)
      have "is_present tbl' t'' d'' e \<longleftrightarrow> is_present ?t1 t'' d'' e \<and> \<not> (t'' = t \<and> d'' = d \<and> e \<in> set gone)" for t'' d'' e
        unfolding tbl' by (simp add: is_present_mark_gone)
      then have "is_present tbl' t'' d'' e \<longleftrightarrow> is_present ?t1 t'' d'' e \<and> \<not> (t'' = t \<and> d'' = d \<and> e \<in> ?S - ?E)" for t'' d'' e
        unfolding sets(1) .
      moreover have "is_present ?t1 t'' d'' e \<longleftrightarrow> (t'' = t \<and> d'' = d \<and> e \<in> ?E) \<or> is_present tbl t'' d'' e" for t'' d'' e
        using keys_collapse [of entries] by (simp add: is_present_upserts)
      ultimately have "present_set tbl' t'' d'' = (if t'' = t \<and> d'' = d then ?E else present_set tbl t'' d'')" for t'' d''
        by (auto simp: present_set_def)
      moreover have "table_ok tbl'" unfolding tbl' using ok by (simp add: table_ok_upserts table_ok_mark_gone)
      moreover have "replay evs ?S = Some ?E"
      proof -
        have "replay evs ?S = replay (map (\<lambda>e. TagDisappeared t d e ?now ''snap'') gone) (?S \<union> set app')"
          unfolding evs by (rule replay_appeared) (use sets dist in auto)
        also have "\<dots> = Some ((?S \<union> set app') - set gone)" by (rule replay_disappeared) (use sets dist in auto)
        finally show ?thesis using sets by auto
      qed
      ultimately show ?thesis using False WmSnap evs by auto
    next
      case (WmAppeared sn ts lat lon entry)
      with app False have "evs = (if map_option pr_status (map_of tbl (t, d, se_epc entry)) \<noteq> Some ''present''
            then [TagAppeared t d (se_epc entry) (ts * 1000) ''delta''] else [])"
        and tbl': "tbl' = upsert_present t d (ts * 1000) (se_epc entry, se_rssi entry, se_an entry) tbl"
        by (simp_all add: apply_message_def apply_appeared_def ts_to_datetime_def Let_def)
      moreover have "map_option pr_status (map_of tbl (t, d, se_epc entry)) = Some ''present'' \<longleftrightarrow> se_epc entry \<in> present_set tbl t d"
        by (auto simp: present_set_def is_present_def split: option.split)
      ultimately show ?thesis using False WmAppeared ok
        by (auto simp: table_ok_upsert present_set_upsert)
    next
      case (WmDisappeared sn ts epc lat lon an)
      show ?thesis
      proof (cases "map_of tbl (t, d, epc)")
        case None
        with app False WmDisappeared ok show ?thesis
          by (auto simp: apply_message_def apply_disappeared_def ts_to_datetime_def present_set_def is_present_def)
      next
        case (Some row)
        then have row: "pr_status row = ''present'' \<or> pr_status row = ''gone''"
          using ok map_of_SomeD [OF Some] by (auto simp: table_ok_def)
        have sets: "present_set (dict_set (t, d, epc) row' tbl) t'' d'' =
            (if t'' = t \<and> d'' = d then if pr_status row' = ''present'' then insert epc (present_set tbl t d)
             else present_set tbl t d - {epc} else present_set tbl t'' d'')" for row' t'' d''
          by (auto simp: present_set_def is_present_def split: option.splits if_splits)
        have mem: "epc \<in> present_set tbl t d \<longleftrightarrow> pr_status row = ''present''"
          using Some by (simp add: present_set_def is_present_def)
        show ?thesis
        proof (cases "pr_status row = ''gone''")
          case True
          with app False WmDisappeared Some have "evs = []" "tbl' = dict_set (t, d, epc) (row\<lparr>last_seen := ts * 1000\<rparr>) tbl"
            by (auto simp: apply_message_def apply_disappeared_def ts_to_datetime_def)
          with True False WmDisappeared ok mem show ?thesis by (auto simp: sets intro!: table_ok_set)
        next
          case present: False
          with app False WmDisappeared Some have "evs = [TagDisappeared t d epc (ts * 1000) ''delta'']"
            "tbl' = dict_set (t, d, epc) (row\<lparr>pr_status := ''gone'', last_seen := ts * 1000\<rparr>) tbl"
            by (auto simp: apply_message_def apply_disappeared_def ts_to_datetime_def)
          with present row False WmDisappeared ok mem show ?thesis by (auto simp: sets intro!: table_ok_set)
        qed
      qed
    qed
  qed
  then show "table_ok tbl'" and "present_set tbl' t d = effect m (present_set tbl t d)"
    and "(t', d') \<noteq> (t, d) \<Longrightarrow> present_set tbl' t' d' = present_set tbl t' d'"
    and "replay evs (present_set tbl t d) = Some (present_set tbl' t d)"
    and "ev \<in> set evs \<Longrightarrow> ev_tenant ev = t \<and> ev_device ev = d"
    by blast+
qed

interpretation presence: presence_store table_ok "\<lambda>tbl. present_set tbl t d" "\<lambda>m tbl. snd (apply_message t d m tbl)" effect
  for t d
  by unfold_locales (metis apply_message_spec(1) prod.collapse, metis apply_message_spec(2) prod.collapse)

text \<open>C2: whatever sequence of messages of a device is applied to whatever table, each one is reflected in the table as
  the protocol says (a snapshot replaces the set of present EPCs, an appearance adds one, a departure
  removes one, other devices are untouched), and the events published for it are exactly the
  transitions: replaying them on the old set is possible and yields the new one.\<close>

theorem reconciler_refines_protocol:
  assumes "table_ok tbl" and "apply_message t d m (snd (fold (\<lambda>m (_, tb). apply_message t d m tb) ms ([], tbl))) = (evs, tbl')"
  shows "present_set tbl' t d = effect m (fold effect ms (present_set tbl t d))
    \<and> replay evs (fold effect ms (present_set tbl t d)) = Some (present_set tbl' t d)
    \<and> (\<forall>t' d'. (t', d') \<noteq> (t, d) \<longrightarrow> present_set tbl' t' d' = present_set tbl t' d')"
proof -
  have fold: "snd (fold (\<lambda>m (_, tb). apply_message t d m tb) ms (e, tbl)) = fold (\<lambda>m tb. snd (apply_message t d m tb)) ms tbl" for e
  proof (induction ms arbitrary: e tbl)
    case (Cons m ms)
    then show ?case by (cases "apply_message t d m tbl") simp
  qed simp
  let ?tbl1 = "fold (\<lambda>m tb. snd (apply_message t d m tb)) ms tbl"
  have ok: "table_ok ?tbl1" by (rule presence.ok_run [OF assms(1)])
  have view: "present_set ?tbl1 t d = fold effect ms (present_set tbl t d)" by (rule presence.view_run [OF assms(1)])
  note spec = apply_message_spec [OF ok assms(2) [unfolded fold]]
  have "present_set ?tbl1 t' d' = present_set tbl t' d'" if "(t', d') \<noteq> (t, d)" for t' d'
    using assms(1)
  proof (induction ms arbitrary: tbl)
    case (Cons m ms)
    obtain evs1 tbl1 where m: "apply_message t d m tbl = (evs1, tbl1)" by (cases "apply_message t d m tbl")
    from apply_message_spec(1,3) [OF Cons.prems m] that Cons.IH show ?case by (simp add: m)
  qed simp
  with spec(2,3,4) view show ?thesis by auto
qed

definition demo_entry :: "string \<Rightarrow> int \<Rightarrow> snap_entry" where
  "demo_entry e r = \<lparr>se_an = 1, se_epc = e, se_rssi = r, se_cnt = 1, se_tmp = None, se_hum = None\<rparr>"

theorem reconciler_refines_protocol_witness:
  "\<exists>evs tbl'. apply_message 1 2 (WmDisappeared 7 2000 ''E2801160'' None None None)
       (snd (fold (\<lambda>m (_, tb). apply_message 1 2 m tb) [WmSnap 7 1000 None None [demo_entry ''E2801160'' (- 60)]] ([], []))) = (evs, tbl')
    \<and> present_set tbl' 1 2 = {}"
proof -
  obtain evs tbl' where run: "apply_message 1 2 (WmDisappeared 7 2000 ''E2801160'' None None None)
       (snd (fold (\<lambda>m (_, tb). apply_message 1 2 m tb) [WmSnap 7 1000 None None [demo_entry ''E2801160'' (- 60)]] ([], []))) = (evs, tbl')"
    by (metis surj_pair)
  have "present_set tbl' 1 2 = effect (WmDisappeared 7 2000 ''E2801160'' None None None)
      (fold effect [WmSnap 7 1000 None None [demo_entry ''E2801160'' (- 60)]] (present_set [] 1 2))"
    using reconciler_refines_protocol [OF _ run] by (simp add: table_ok_def)
  then have "present_set tbl' 1 2 = {}" by (simp add: DATETIME_MAX_def demo_entry_def)
  with run show ?thesis by blast
qed

end
