(* ===== verification/EdgeProducer.thy ===== *)
theory EdgeProducer
  imports Presence "HOL-Library.Product_Lexorder"
begin

text \<open>
  The gateway's producer of v2 messages (\<open>clients/pi/tagpulse_edge/wm_v2_producer.py\<close>): validation of the
  observations of a cycle, the snapshot triggers, the snapshot and the deltas, as JSON objects; and what the parser of
  the server makes of them.
\<close>

record cycle_obs =
  o_an :: int
  o_epc :: string
  o_rssi :: int
  o_cnt :: int
  o_tmp :: "pfloat option"
  o_hum :: "pfloat option"

section \<open>Validation\<close>

definition edge_validate_epc :: "string \<Rightarrow> py_exn + string" where
  "edge_validate_epc value =
     (if length value < 8 \<or> length value > 124 then Inl (ValueError ''epc length'')
      else if length value mod 2 \<noteq> 0 then Inl (ValueError ''epc length must be even (whole bytes)'')
      else case int_base16 value of
        None \<Rightarrow> Inl (ValueError ''epc must be hexadecimal'')
      | Some _ \<Rightarrow> Inr (py_upper value))"

definition opt_between :: "real \<Rightarrow> real \<Rightarrow> pfloat option \<Rightarrow> bool" where
  "opt_between lo hi x = (case x of None \<Rightarrow> True | Some f \<Rightarrow> pf_between lo hi f)"

definition validate_obs :: "cycle_obs \<Rightarrow> py_exn + cycle_obs" where
  "validate_obs obs =
     (if \<not> (0 \<le> o_an obs \<and> o_an obs \<le> 255) then Inl (ValueError ''an'')
      else and_then (edge_validate_epc (o_epc obs)) (\<lambda>epc.
        if \<not> (- 127 \<le> o_rssi obs \<and> o_rssi obs \<le> 0) then Inl (ValueError ''rssi'')
        else if \<not> (1 \<le> o_cnt obs \<and> o_cnt obs \<le> 65535) then Inl (ValueError ''cnt'')
        else if \<not> opt_between (- 40) 85 (o_tmp obs) then Inl (ValueError ''tmp'')
        else if \<not> opt_between 0 100 (o_hum obs) then Inl (ValueError ''hum'')
        else Inr (obs\<lparr>o_epc := epc\<rparr>)))"

definition validate_lat_lon :: "pfloat option \<Rightarrow> pfloat option \<Rightarrow> py_exn + unit" where
  "validate_lat_lon lat lon =
     (if \<not> opt_between (- 90) 90 lat then Inl (ValueError ''lat'')
      else if \<not> opt_between (- 180) 180 lon then Inl (ValueError ''lon'') else Inr ())"

section \<open>The producer\<close>

type_synonym cycle_map = "(int \<times> string, cycle_obs) pydict"

record producer =
  p_sn :: int
  snap_period_s :: real
  snap_cycle_count :: int
  last_cycle :: cycle_map
  last_snap_ts_ms :: "int option"
  cycles_since_snap :: int
  force_snap_next :: bool

definition new_producer :: "int \<Rightarrow> real \<Rightarrow> int \<Rightarrow> producer" where
  "new_producer sn period count =
     \<lparr>p_sn = sn, snap_period_s = period, snap_cycle_count = count, last_cycle = [], last_snap_ts_ms = None,
      cycles_since_snap = 0, force_snap_next = True\<rparr>"

definition begin_session :: "producer \<Rightarrow> producer" where
  "begin_session p = p\<lparr>last_cycle := [], cycles_since_snap := 0, force_snap_next := True\<rparr>"

fun collect_cycle :: "cycle_obs list \<Rightarrow> cycle_map \<Rightarrow> py_exn + cycle_map" where
  "collect_cycle [] current = Inr current"
| "collect_cycle (obs # cycle) current =
     and_then (validate_obs obs) (\<lambda>checked.
       let key = (o_an checked, o_epc checked) in
       if map_of current key \<noteq> None then Inl (ValueError ''duplicate (an, epc) in cycle'')
       else collect_cycle cycle (dict_set key checked current))"

definition snap_triggered :: "producer \<Rightarrow> int \<Rightarrow> bool" where
  "snap_triggered p ts_ms =
     (if force_snap_next p then True
      else case last_snap_ts_ms p of
        None \<Rightarrow> True
      | Some last_ts \<Rightarrow>
          if snap_period_s p \<ge> 0 \<and> of_int (ts_ms - last_ts) \<ge> snap_period_s p * 1000 then True
          else snap_cycle_count p \<ge> 0 \<and> cycles_since_snap p \<ge> snap_cycle_count p)"

definition opt_num :: "string \<Rightarrow> pfloat option \<Rightarrow> jobj" where
  "opt_num k x = (case x of None \<Rightarrow> [] | Some f \<Rightarrow> [(k, JFloat f)])"

definition num_or_null :: "pfloat option \<Rightarrow> json" where
  "num_or_null x = (case x of None \<Rightarrow> JNull | Some f \<Rightarrow> JFloat f)"

definition entry_dict :: "cycle_obs \<Rightarrow> jobj" where
  "entry_dict obs =
     [(''an'', JInt (o_an obs)), (''epc'', JStr (o_epc obs)), (''rssi'', JInt (o_rssi obs)), (''cnt'', JInt (o_cnt obs))]
     @ opt_num ''tmp'' (o_tmp obs) @ opt_num ''hum'' (o_hum obs)"

definition emit_snap :: "int \<Rightarrow> pfloat option \<Rightarrow> pfloat option \<Rightarrow> cycle_map \<Rightarrow> producer \<Rightarrow> jobj list \<times> producer" where
  "emit_snap ts_ms lat lon current p =
     ([[(''t'', JInt 0), (''sn'', JInt (p_sn p)), (''ts'', JInt ts_ms), (''lat'', num_or_null lat),
        (''lon'', num_or_null lon), (''epcs'', JList (map (\<lambda>(_, obs). JObj (entry_dict obs)) current))]],
      p\<lparr>last_cycle := current, last_snap_ts_ms := Some ts_ms, cycles_since_snap := 0, force_snap_next := False\<rparr>)"

definition epcs_of :: "cycle_map \<Rightarrow> string list" where
  "epcs_of c = map (\<lambda>((_, epc), _). epc) c"

definition appeared_msg :: "int \<Rightarrow> int \<Rightarrow> pfloat option \<Rightarrow> pfloat option \<Rightarrow> cycle_obs \<Rightarrow> jobj" where
  "appeared_msg sn ts_ms lat lon obs =
     [(''t'', JInt 1), (''sn'', JInt sn), (''ts'', JInt ts_ms), (''lat'', num_or_null lat), (''lon'', num_or_null lon)]
     @ entry_dict obs"

definition disappeared_msg :: "int \<Rightarrow> int \<Rightarrow> string \<Rightarrow> jobj" where
  "disappeared_msg sn ts_ms epc = [(''t'', JInt 2), (''sn'', JInt sn), (''ts'', JInt ts_ms), (''epc'', JStr epc)]"

definition emit_delta :: "int \<Rightarrow> pfloat option \<Rightarrow> pfloat option \<Rightarrow> cycle_map \<Rightarrow> producer \<Rightarrow> jobj list \<times> producer" where
  "emit_delta ts_ms lat lon current p =
     (let add_keys = sort (filter (\<lambda>k. map_of (last_cycle p) k = None) (dict_keys current));
          last_epcs = epcs_of (last_cycle p); current_epcs = epcs_of current;
          sub_epcs = sorted_set (filter (\<lambda>e. e \<notin> set current_epcs) last_epcs)
      in (map (\<lambda>key. appeared_msg (p_sn p) ts_ms lat lon (the (map_of current key))) add_keys
            @ map (disappeared_msg (p_sn p) ts_ms) sub_epcs,
          p\<lparr>last_cycle := current, cycles_since_snap := cycles_since_snap p + 1\<rparr>))"

definition emit_cycle ::
    "int \<Rightarrow> pfloat option \<Rightarrow> pfloat option \<Rightarrow> cycle_obs list \<Rightarrow> producer \<Rightarrow> py_exn + jobj list \<times> producer" where
  "emit_cycle ts_ms lat lon cycle p =
     (if ts_ms < 0 then Inl (ValueError ''ts_ms must be non-negative'')
      else and_then (validate_lat_lon lat lon) (\<lambda>_.
        and_then (collect_cycle cycle []) (\<lambda>current.
          if snap_triggered p ts_ms then Inr (emit_snap ts_ms lat lon current p)
          else Inr (emit_delta ts_ms lat lon current p))))"

section \<open>What the server parses\<close>

lemma edge_validate_epc_eq: "edge_validate_epc = validate_epc"
  by (rule ext) (simp add: edge_validate_epc_def validate_epc_def EPC_MIN_HEX_CHARS_def EPC_MAX_HEX_CHARS_def)

lemma upper_upper: "py_upper (py_upper s) = py_upper s"
  by simp

lemma validate_epc_upper: "validate_epc s = Inr e \<Longrightarrow> e = py_upper s \<and> validate_epc e = Inr e"
  by (auto simp: validate_epc_def int_base16_upper simp del: map_map split: if_splits option.splits)
     (simp_all add: upper_upper del: map_map)

section \<open>The collected cycle\<close>

definition obs_ok :: "cycle_obs \<Rightarrow> bool" where
  "obs_ok o1 \<longleftrightarrow> antenna_ok (o_an o1) \<and> rssi_ok (o_rssi o1) \<and> cnt_ok (o_cnt o1) \<and> validate_epc (o_epc o1) = Inr (o_epc o1)
     \<and> opt_between TMP_MIN TMP_MAX (o_tmp o1) \<and> opt_between 0 HUM_MAX (o_hum o1)"

definition cycle_ok :: "cycle_map \<Rightarrow> bool" where
  "cycle_ok c \<longleftrightarrow> wf_dict c \<and> (\<forall>(k, o1) \<in> set c. k = (o_an o1, o_epc o1) \<and> obs_ok o1)"

lemma validate_obs_ok:
  assumes "validate_obs o1 = Inr o2"
  shows "obs_ok o2 \<and> o_epc o2 = py_upper (o_epc o1)"
proof -
  from assms obtain e where e: "validate_epc (o_epc o1) = Inr e" and o2: "o2 = o1\<lparr>o_epc := e\<rparr>"
    and ranges: "antenna_ok (o_an o1)" "rssi_ok (o_rssi o1)" "cnt_ok (o_cnt o1)"
      "opt_between TMP_MIN TMP_MAX (o_tmp o1)" "opt_between 0 HUM_MAX (o_hum o1)"
    by (auto simp: validate_obs_def and_then_eq_Inr edge_validate_epc_eq antenna_ok_def rssi_ok_def cnt_ok_def
        TMP_MIN_def TMP_MAX_def HUM_MAX_def split: if_splits)
  from validate_epc_upper [OF e] have "validate_epc e = Inr e" and "e = py_upper (o_epc o1)" by (rule conjunct2, rule conjunct1)
  then show ?thesis using ranges unfolding o2 obs_ok_def by simp
qed

lemma epcs_of_eq:
  assumes "cycle_ok c"
  shows "epcs_of c = map (\<lambda>(_, o1). o_epc o1) c"
proof -
  have "snd (fst x) = o_epc (snd x)" if "x \<in> set c" for x
  proof -
    obtain k o1 where x: "x = (k, o1)" by (cases x)
    with assms that have "k = (o_an o1, o_epc o1)" unfolding cycle_ok_def by blast
    with x show ?thesis by simp
  qed
  then show ?thesis unfolding epcs_of_def case_prod_beta by (rule map_cong [OF refl])
qed

lemma collect_cycle_ok:
  "collect_cycle cycle c0 = Inr c \<Longrightarrow> cycle_ok c0 \<Longrightarrow>
   cycle_ok c \<and> set (epcs_of c) = set (epcs_of c0) \<union> (\<lambda>o1. py_upper (o_epc o1)) ` set cycle"
proof (induction cycle arbitrary: c0)
  case (Cons o1 cycle)
  from Cons.prems(1) obtain o2 where o2: "validate_obs o1 = Inr o2"
    and new: "map_of c0 (o_an o2, o_epc o2) = None"
    and rest: "collect_cycle cycle (dict_set (o_an o2, o_epc o2) o2 c0) = Inr c"
    by (auto simp: and_then_eq_Inr Let_def split: if_splits)
  let ?c1 = "dict_set (o_an o2, o_epc o2) o2 c0"
  have "(o_an o2, o_epc o2) \<notin> set (dict_keys c0)" using new map_of_eq_None_keys by metis
  then have app: "?c1 = c0 @ [((o_an o2, o_epc o2), o2)]" by (induction c0) auto
  have "wf_dict ?c1" using Cons.prems(2) by (intro wf_dict_set) (simp add: cycle_ok_def)
  moreover have "\<forall>(k, o1) \<in> set ?c1. k = (o_an o1, o_epc o1) \<and> obs_ok o1"
    using Cons.prems(2) validate_obs_ok [OF o2] unfolding app cycle_ok_def by simp
  ultimately have "cycle_ok ?c1" unfolding cycle_ok_def by blast
  moreover have "set (epcs_of ?c1) = insert (py_upper (o_epc o1)) (set (epcs_of c0))"
    unfolding app using validate_obs_ok [OF o2] by (simp add: epcs_of_def)
  ultimately show ?case using Cons.IH [OF rest] by auto
qed simp


section \<open>The server accepts what the gateway sends\<close>

definition entry_of :: "cycle_obs \<Rightarrow> snap_entry" where
  "entry_of o1 = \<lparr>se_an = o_an o1, se_epc = o_epc o1, se_rssi = o_rssi o1, se_cnt = o_cnt o1, se_tmp = o_tmp o1, se_hum = o_hum o1\<rparr>"

lemma field_req_int: "plain_coercions C \<Longrightarrow> map_of d k = Some (JInt i) \<Longrightarrow> ok i \<Longrightarrow> field_req (as_int C) ok d k = Some i"
  by (simp add: field_req_def plain_coercions_def)

lemma field_null_float:
  "plain_coercions C \<Longrightarrow> map_of d k = Some (num_or_null x) \<Longrightarrow> opt_between lo hi x
   \<Longrightarrow> field_null (as_float C) (pf_between lo hi) d k = Some x"
  by (cases x) (simp_all add: field_null_def plain_coercions_def num_or_null_def opt_between_def)

lemma field_opt_float:
  "plain_coercions C \<Longrightarrow> map_of d k = map_option JFloat x \<Longrightarrow> opt_between lo hi x
   \<Longrightarrow> field_opt (as_float C) (pf_between lo hi) d k = Some x"
  by (cases x) (simp_all add: field_opt_def field_null_def plain_coercions_def opt_between_def)

lemma epc_field_str:
  "plain_coercions C \<Longrightarrow> map_of d ''epc'' = Some (JStr e) \<Longrightarrow> validate_epc e = Inr e \<Longrightarrow> epc_field C d = Some e"
  by (simp add: epc_field_def field_req_def plain_coercions_def normalize_epc_def)

lemma entry_dict_lookup:
  "map_of (entry_dict o1) ''an'' = Some (JInt (o_an o1))" "map_of (entry_dict o1) ''epc'' = Some (JStr (o_epc o1))"
  "map_of (entry_dict o1) ''rssi'' = Some (JInt (o_rssi o1))" "map_of (entry_dict o1) ''cnt'' = Some (JInt (o_cnt o1))"
  "map_of (entry_dict o1) ''tmp'' = map_option JFloat (o_tmp o1)" "map_of (entry_dict o1) ''hum'' = map_option JFloat (o_hum o1)"
  by (simp_all add: entry_dict_def opt_num_def split: option.split)

lemma entry_dict_keys: "forbid_extra [''an'', ''epc'', ''rssi'', ''cnt'', ''tmp'', ''hum''] (entry_dict o1)"
  by (cases "o_tmp o1"; cases "o_hum o1") (simp_all add: forbid_extra_def entry_dict_def opt_num_def)

lemma entry_fields_emitted:
  assumes C: "plain_coercions C" and ok: "obs_ok o1"
    and same: "\<forall>k \<in> {''an'', ''epc'', ''rssi'', ''cnt'', ''tmp'', ''hum''}. map_of d k = map_of (entry_dict o1) k"
  shows "entry_fields C d = Some (entry_of o1)"
proof -
  have look: "map_of d ''an'' = Some (JInt (o_an o1))" "map_of d ''epc'' = Some (JStr (o_epc o1))"
    "map_of d ''rssi'' = Some (JInt (o_rssi o1))" "map_of d ''cnt'' = Some (JInt (o_cnt o1))"
    "map_of d ''tmp'' = map_option JFloat (o_tmp o1)" "map_of d ''hum'' = map_option JFloat (o_hum o1)"
    using same by (simp_all add: entry_dict_lookup)
  have nulls: "\<not> reject_explicit_null_optional d [''tmp'', ''hum'']"
    by (auto simp: reject_explicit_null_optional_def look)
  have ranges: "antenna_ok (o_an o1)" "rssi_ok (o_rssi o1)" "cnt_ok (o_cnt o1)" "validate_epc (o_epc o1) = Inr (o_epc o1)"
    "opt_between TMP_MIN TMP_MAX (o_tmp o1)" "opt_between 0 HUM_MAX (o_hum o1)"
    using ok by (simp_all add: obs_ok_def)
  note fields = field_req_int [where ok = antenna_ok, OF C look(1) ranges(1)] epc_field_str [OF C look(2) ranges(4)]
    field_req_int [where ok = rssi_ok, OF C look(3) ranges(2)] field_req_int [where ok = cnt_ok, OF C look(4) ranges(3)]
    field_opt_float [OF C look(5) ranges(5)] field_opt_float [OF C look(6) ranges(6)]
  show ?thesis using nulls by (simp add: entry_fields_def entry_of_def fields)
qed

lemma parse_entries:
  assumes "plain_coercions C" and "\<forall>o1 \<in> set obs. obs_ok o1"
  shows "map_opt (parse_snap_entry C) (map (\<lambda>o1. JObj (entry_dict o1)) obs) = Some (map entry_of obs)"
proof -
  have "parse_snap_entry C (JObj (entry_dict o1)) = Some (entry_of o1)" if "obs_ok o1" for o1
    using entry_fields_emitted [OF assms(1) that, of "entry_dict o1"] by (simp add: parse_snap_entry_def entry_dict_keys)
  then show ?thesis using assms(2) by (induction obs) simp_all
qed

lemma parse_snap_emitted:
  assumes C: "plain_coercions C" and sn: "0 \<le> sn" and ts: "0 \<le> ts"
    and loc: "opt_between (- LAT_MAX) LAT_MAX lat" "opt_between (- LON_MAX) LON_MAX lon"
    and ok: "\<forall>o1 \<in> set obs. obs_ok o1"
  shows "parse_wm_message C [(''t'', JInt 0), (''sn'', JInt sn), (''ts'', JInt ts), (''lat'', num_or_null lat),
    (''lon'', num_or_null lon), (''epcs'', JList (map (\<lambda>o1. JObj (entry_dict o1)) obs))]
    = Some (WmSnap sn ts lat lon (map entry_of obs))" (is "parse_wm_message C ?d = _")
proof -
  have fields: "field_req (as_int C) nonneg ?d ''sn'' = Some sn" "field_req (as_int C) nonneg ?d ''ts'' = Some ts"
    "field_null (as_float C) (pf_between (- LAT_MAX) LAT_MAX) ?d ''lat'' = Some lat"
    "field_null (as_float C) (pf_between (- LON_MAX) LON_MAX) ?d ''lon'' = Some lon"
    using sn ts loc by (auto intro!: field_req_int field_null_float C simp: nonneg_def)
  have "parse_wm_message C ?d = parse_snap C ?d" using C by (simp add: parse_wm_message_def plain_coercions_def)
  moreover have "forbid_extra [''t'', ''sn'', ''ts'', ''lat'', ''lon'', ''epcs''] ?d" by (simp add: forbid_extra_def)
  ultimately show ?thesis unfolding parse_snap_def fields by (simp add: parse_entries [OF C ok])
qed

lemma parse_appeared_emitted:
  assumes C: "plain_coercions C" and sn: "0 \<le> sn" and ts: "0 \<le> ts"
    and loc: "opt_between (- LAT_MAX) LAT_MAX lat" "opt_between (- LON_MAX) LON_MAX lon" and ok: "obs_ok o1"
  shows "parse_wm_message C (appeared_msg sn ts lat lon o1) = Some (WmAppeared sn ts lat lon (entry_of o1))"
    (is "parse_wm_message C ?d = _")
proof -
  have look: "map_of ?d ''sn'' = Some (JInt sn)" "map_of ?d ''ts'' = Some (JInt ts)" "map_of ?d ''lat'' = Some (num_or_null lat)"
    "map_of ?d ''lon'' = Some (num_or_null lon)" "map_of ?d ''t'' = Some (JInt 1)"
    by (simp_all add: appeared_msg_def)
  have fields: "field_req (as_int C) nonneg ?d ''sn'' = Some sn" "field_req (as_int C) nonneg ?d ''ts'' = Some ts"
    "field_null (as_float C) (pf_between (- LAT_MAX) LAT_MAX) ?d ''lat'' = Some lat"
    "field_null (as_float C) (pf_between (- LON_MAX) LON_MAX) ?d ''lon'' = Some lon"
    using sn ts loc by (auto intro!: field_req_int field_null_float C simp: nonneg_def look)
  have "entry_fields C ?d = Some (entry_of o1)"
    by (rule entry_fields_emitted [OF C ok]) (simp add: appeared_msg_def)
  moreover have "parse_wm_message C ?d = parse_appeared C ?d"
    using C by (simp add: parse_wm_message_def plain_coercions_def look)
  moreover have "forbid_extra [''t'', ''sn'', ''ts'', ''lat'', ''lon'', ''an'', ''epc'', ''rssi'', ''cnt'', ''tmp'', ''hum''] ?d"
    using entry_dict_keys [of o1] by (auto simp: forbid_extra_def appeared_msg_def)
  ultimately show ?thesis unfolding parse_appeared_def fields by simp
qed

lemma parse_disappeared_emitted:
  assumes C: "plain_coercions C" and sn: "0 \<le> sn" and ts: "0 \<le> ts" and e: "validate_epc e = Inr e"
  shows "parse_wm_message C (disappeared_msg sn ts e) = Some (WmDisappeared sn ts e None None None)"
    (is "parse_wm_message C ?d = _")
proof -
  have look: "map_of ?d ''sn'' = Some (JInt sn)" "map_of ?d ''ts'' = Some (JInt ts)" "map_of ?d ''epc'' = Some (JStr e)"
    "map_of ?d ''t'' = Some (JInt 2)" "map_of ?d ''lat'' = None" "map_of ?d ''lon'' = None" "map_of ?d ''an'' = None"
    by (simp_all add: disappeared_msg_def)
  have fields: "field_req (as_int C) nonneg ?d ''sn'' = Some sn" "field_req (as_int C) nonneg ?d ''ts'' = Some ts"
    using sn ts by (auto intro!: field_req_int C simp: nonneg_def look)
  have "forbid_extra [''t'', ''sn'', ''ts'', ''epc'', ''lat'', ''lon'', ''an''] ?d"
    by (simp add: forbid_extra_def disappeared_msg_def)
  moreover have "parse_wm_message C ?d = parse_disappeared C ?d"
    using C by (simp add: parse_wm_message_def plain_coercions_def look)
  ultimately show ?thesis
    unfolding parse_disappeared_def fields epc_field_str [OF C look(3) e] by (simp add: field_opt_def look)
qed

section \<open>What a cycle means\<close>

text \<open>
  What the parser makes of the messages of a cycle, under whatever decoders read the wire types as themselves, and what
  they do to a set of present EPCs.  The sessions in which the subscriber applies them are in \<open>PresenceEndToEnd\<close>.
\<close>

definition reads_as :: "jobj list \<Rightarrow> wm_message list \<Rightarrow> bool" where
  "reads_as msgs ms \<longleftrightarrow> (\<forall>C. plain_coercions C \<longrightarrow> map (parse_wm_message C) msgs = map Some ms)"

definition producer_ok :: "producer \<Rightarrow> bool" where
  "producer_ok p \<longleftrightarrow> 0 \<le> p_sn p \<and> cycle_ok (last_cycle p)"

lemma effect_appeared:
  "ts * 1000 \<le> DATETIME_MAX \<Longrightarrow> fold effect (map (\<lambda>o1. WmAppeared sn ts lat lon (entry_of o1)) obs) S = S \<union> o_epc ` set obs"
  by (induction obs arbitrary: S) (auto simp: entry_of_def)

lemma effect_disappeared:
  "ts * 1000 \<le> DATETIME_MAX \<Longrightarrow> fold effect (map (\<lambda>e. WmDisappeared sn ts e None None None) es) S = S - set es"
  by (induction es arbitrary: S) auto

lemma cycle_ok_lookup:
  assumes "cycle_ok c" and "k \<in> set (dict_keys c)"
  shows "\<exists>o1. map_of c k = Some o1 \<and> k = (o_an o1, o_epc o1) \<and> obs_ok o1"
proof -
  from assms(2) obtain o1 where o1: "map_of c k = Some o1" using map_of_eq_None_keys [of c k] by blast
  from map_of_SomeD [OF o1] assms(1) have "k = (o_an o1, o_epc o1) \<and> obs_ok o1" unfolding cycle_ok_def by blast
  with o1 show ?thesis by blast
qed

lemma epcs_of_keys: "set (epcs_of c) = snd ` set (dict_keys c)"
  by (induction c) (auto simp: epcs_of_def)

lemma location_ranges:
  "validate_lat_lon lat lon = Inr () \<Longrightarrow> opt_between (- LAT_MAX) LAT_MAX lat \<and> opt_between (- LON_MAX) LON_MAX lon"
  by (auto simp: validate_lat_lon_def LAT_MAX_def LON_MAX_def split: if_splits)

text \<open>A snapshot replaces whatever was present.\<close>

lemma snap_replaces:
  assumes "0 \<le> p_sn p" and ts: "0 \<le> ts" "ts * 1000 \<le> DATETIME_MAX" and "validate_lat_lon lat lon = Inr ()"
    and cur: "cycle_ok current" and emit: "emit_snap ts lat lon current p = (msgs, p')"
  shows "\<exists>ms. reads_as msgs ms \<and> (\<forall>S. fold effect ms S = set (epcs_of current))"
proof -
  have obs: "\<forall>o1 \<in> set (map snd current). obs_ok o1" using cur unfolding cycle_ok_def by fastforce
  have entries: "map (\<lambda>(_, obs). JObj (entry_dict obs)) current = map (\<lambda>o1. JObj (entry_dict o1)) (map snd current)"
    by (simp add: case_prod_beta)
  let ?m = "WmSnap (p_sn p) ts lat lon (map entry_of (map snd current))"
  have "map (parse_wm_message C) msgs = map Some [?m]" if "plain_coercions C" for C
    using emit parse_snap_emitted [OF that assms(1) ts(1) _ _ obs] location_ranges [OF assms(4)] unfolding emit_snap_def entries
    by (auto simp del: map_map)
  then have "reads_as msgs [?m]" unfolding reads_as_def by blast
  moreover have "fold effect [?m] S = set (epcs_of current)" for S
    using ts(2) by (simp add: image_image entry_of_def epcs_of_eq [OF cur] case_prod_beta)
  ultimately show ?thesis by blast
qed

lemma replace_by_deltas: "A \<subseteq> C \<Longrightarrow> C \<subseteq> L \<union> A \<Longrightarrow> S = L - C \<Longrightarrow> (L \<union> A) - S = C"
  by blast

text \<open>Deltas lead from the last cycle to this one.\<close>

lemma delta_advances:
  assumes "producer_ok p" and ts: "0 \<le> ts" "ts * 1000 \<le> DATETIME_MAX" and "validate_lat_lon lat lon = Inr ()"
    and cur: "cycle_ok current" and emit: "emit_delta ts lat lon current p = (msgs, p')"
  shows "\<exists>ms. reads_as msgs ms \<and> fold effect ms (set (epcs_of (last_cycle p))) = set (epcs_of current)"
proof -
  from assms(1) have sn: "0 \<le> p_sn p" and prev: "cycle_ok (last_cycle p)" by (simp_all add: producer_ok_def)
  define adds where "adds = sort (filter (\<lambda>k. map_of (last_cycle p) k = None) (dict_keys current))"
  define obs where "obs = map (\<lambda>k. the (map_of current k)) adds"
  define subs where "subs = sorted_set (filter (\<lambda>e. e \<notin> set (epcs_of current)) (epcs_of (last_cycle p)))"
  let ?ms = "map (\<lambda>o1. WmAppeared (p_sn p) ts lat lon (entry_of o1)) obs @ map (\<lambda>e. WmDisappeared (p_sn p) ts e None None None) subs"
  have look: "\<exists>o1. map_of current k = Some o1 \<and> k = (o_an o1, o_epc o1) \<and> obs_ok o1" if "k \<in> set adds" for k
    using that by (intro cycle_ok_lookup [OF cur]) (simp add: adds_def del: set_map)
  have obs_ok: "\<forall>o1 \<in> set obs. obs_ok o1" and obs_epcs: "o_epc ` set obs = snd ` set adds"
    using look by (force simp: obs_def image_image intro!: image_cong)+
  have msgs: "msgs = map (appeared_msg (p_sn p) ts lat lon) obs @ map (disappeared_msg (p_sn p) ts) subs"
    using emit by (auto simp: emit_delta_def Let_def adds_def obs_def subs_def o_def)
  have sub_epc: "validate_epc e = Inr e" if "e \<in> set subs" for e
  proof -
    from that have "e \<in> snd ` set (dict_keys (last_cycle p))" by (simp add: subs_def epcs_of_keys)
    then obtain k where "k \<in> set (dict_keys (last_cycle p))" and "e = snd k" by blast
    with cycle_ok_lookup [OF prev this(1)] show ?thesis by (auto simp: obs_ok_def)
  qed
  have "map (parse_wm_message C) msgs = map Some ?ms" if C: "plain_coercions C" for C
    using obs_ok sub_epc location_ranges [OF assms(4)]
    by (simp add: msgs parse_appeared_emitted [OF C sn ts(1)] parse_disappeared_emitted [OF C sn ts(1)])
  then have "reads_as msgs ?ms" unfolding reads_as_def by blast
  moreover have "fold effect ?ms (set (epcs_of (last_cycle p))) = (set (epcs_of (last_cycle p)) \<union> snd ` set adds) - set subs"
    using ts(2) obs_epcs by (simp add: effect_appeared effect_disappeared)
  moreover have "\<dots> = set (epcs_of current)"
  proof -
    have "set adds = {k \<in> set (dict_keys current). k \<notin> set (dict_keys (last_cycle p))}"
      unfolding adds_def by (simp only: set_sort set_filter map_of_eq_None_keys)
    then have "snd ` set adds \<subseteq> set (epcs_of current)"
      and "set (epcs_of current) \<subseteq> set (epcs_of (last_cycle p)) \<union> snd ` set adds"
      unfolding epcs_of_keys by blast+
    moreover have "set subs = set (epcs_of (last_cycle p)) - set (epcs_of current)" by (auto simp: subs_def)
    ultimately show ?thesis by (rule replace_by_deltas)
  qed
  ultimately show ?thesis by metis
qed

text \<open>One accepted cycle, whichever way it is emitted.\<close>

lemma accepted_cycle:
  assumes "producer_ok p" and ts: "ts * 1000 \<le> DATETIME_MAX" and emit: "emit_cycle ts lat lon cycle p = Inr (msgs, p')"
  shows "producer_ok p'" and "\<not> force_snap_next p'" and "set (epcs_of (last_cycle p')) = (\<lambda>o1. py_upper (o_epc o1)) ` set cycle"
    and "\<exists>ms. reads_as msgs ms \<and> (\<forall>S. force_snap_next p \<or> S = set (epcs_of (last_cycle p)) \<longrightarrow> fold effect ms S = set (epcs_of (last_cycle p')))"
proof -
  from emit obtain current where ts0: "0 \<le> ts" and loc: "validate_lat_lon lat lon = Inr ()" and cur: "collect_cycle cycle [] = Inr current"
    and run: "(if snap_triggered p ts then emit_snap ts lat lon current p else emit_delta ts lat lon current p) = (msgs, p')"
    by (auto simp: emit_cycle_def and_then_eq_Inr split: if_splits)
  have cur_ok: "cycle_ok current" and cur_set: "set (epcs_of current) = (\<lambda>o1. py_upper (o_epc o1)) ` set cycle"
    using collect_cycle_ok [OF cur] by (simp_all add: cycle_ok_def epcs_of_def)
  have force: "force_snap_next p \<Longrightarrow> snap_triggered p ts" by (simp add: snap_triggered_def)
  have p': "last_cycle p' = current \<and> p_sn p' = p_sn p \<and> \<not> force_snap_next p'"
    using run force by (auto simp: emit_snap_def emit_delta_def Let_def split: if_splits)
  then show "producer_ok p'" and "\<not> force_snap_next p'" and "set (epcs_of (last_cycle p')) = (\<lambda>o1. py_upper (o_epc o1)) ` set cycle"
    using assms(1) cur_ok cur_set by (simp_all add: producer_ok_def)
  have sn: "0 \<le> p_sn p" using assms(1) by (simp add: producer_ok_def)
  show "\<exists>ms. reads_as msgs ms \<and> (\<forall>S. force_snap_next p \<or> S = set (epcs_of (last_cycle p)) \<longrightarrow> fold effect ms S = set (epcs_of (last_cycle p')))"
  proof (cases "snap_triggered p ts")
    case True
    then show ?thesis using snap_replaces [OF sn ts0 ts loc cur_ok] run p' by auto
  next
    case False
    then show ?thesis using delta_advances [OF assms(1) ts0 ts loc cur_ok] run p' force by auto
  qed
qed

definition demo_obs :: cycle_obs where
  "demo_obs = \<lparr>o_an = 1, o_epc = ''e2801160'', o_rssi = - 60, o_cnt = 3, o_tmp = None, o_hum = None\<rparr>"

section \<open>The snapshot schedule\<close>

fun emit_all :: "(int \<times> pfloat option \<times> pfloat option \<times> cycle_obs list) list \<Rightarrow> producer \<Rightarrow> py_exn + jobj list list \<times> producer" where
  "emit_all [] p = Inr ([], p)"
| "emit_all ((ts, lat, lon, cycle) # rest) p =
     and_then (emit_cycle ts lat lon cycle p) (\<lambda>(msgs, p1). and_then (emit_all rest p1) (\<lambda>(outs, p2). Inr (msgs # outs, p2)))"

definition is_snap :: "jobj list \<Rightarrow> bool" where
  "is_snap msgs \<longleftrightarrow> (\<exists>m \<in> set msgs. map_of m ''t'' = Some (JInt 0))"

lemma emit_cycle_schedule:
  assumes "emit_cycle ts lat lon cycle p = Inr (msgs, p')" and "snap_period_s p < 0" and "0 \<le> snap_cycle_count p"
    and "force_snap_next p \<or> last_snap_ts_ms p \<noteq> None"
  shows "is_snap msgs \<longleftrightarrow> force_snap_next p \<or> cycles_since_snap p \<ge> snap_cycle_count p"
    and "cycles_since_snap p' = (if is_snap msgs then 0 else cycles_since_snap p + 1)"
    and "snap_period_s p' = snap_period_s p \<and> snap_cycle_count p' = snap_cycle_count p \<and> \<not> force_snap_next p' \<and> last_snap_ts_ms p' \<noteq> None"
proof -
  from assms(1) obtain current
    where run: "(if snap_triggered p ts then emit_snap ts lat lon current p else emit_delta ts lat lon current p) = (msgs, p')"
    by (cases "snap_triggered p ts") (auto simp: emit_cycle_def and_then_eq_Inr split: if_splits)
  have trigger: "snap_triggered p ts \<longleftrightarrow> force_snap_next p \<or> cycles_since_snap p \<ge> snap_cycle_count p"
    using assms(2-4) by (auto simp: snap_triggered_def split: option.split)
  have "is_snap msgs \<longleftrightarrow> snap_triggered p ts"
    using run by (auto simp: is_snap_def emit_snap_def emit_delta_def Let_def appeared_msg_def disappeared_msg_def split: if_splits)
  with run trigger assms(4) show "is_snap msgs \<longleftrightarrow> force_snap_next p \<or> cycles_since_snap p \<ge> snap_cycle_count p"
    and "cycles_since_snap p' = (if is_snap msgs then 0 else cycles_since_snap p + 1)"
    and "snap_period_s p' = snap_period_s p \<and> snap_cycle_count p' = snap_cycle_count p \<and> \<not> force_snap_next p' \<and> last_snap_ts_ms p' \<noteq> None"
    by (auto simp: emit_snap_def emit_delta_def Let_def split: if_splits)
qed

lemma emit_all_schedule:
  assumes "emit_all cs p = Inr (outs, p')" and "snap_period_s p < 0" and "snap_cycle_count p = int n"
    and "last_snap_ts_ms p \<noteq> None" and "\<not> force_snap_next p" and "cycles_since_snap p = int k" and "k \<le> n"
  shows "length outs = length cs \<and> (\<forall>i < length outs. is_snap (outs ! i) \<longleftrightarrow> (k + i + 1) mod (n + 1) = 0)"
  using assms
proof (induction cs arbitrary: p outs k)
  case (Cons c cs)
  obtain ts lat lon cycle where c: "c = (ts, lat, lon, cycle)" by (cases c)
  with Cons.prems(1) obtain msgs p1 outs' where emit: "emit_cycle ts lat lon cycle p = Inr (msgs, p1)"
    and rest: "emit_all cs p1 = Inr (outs', p')" and outs: "outs = msgs # outs'"
    by (auto simp: and_then_eq_Inr)
  have "0 \<le> snap_cycle_count p" using Cons.prems(3) by simp
  note step = emit_cycle_schedule [OF emit Cons.prems(2) this disjI2 [OF Cons.prems(4)]]
  define k' where "k' = (if k = n then 0 else k + 1)"
  have snap: "is_snap msgs \<longleftrightarrow> k = n" using step(1) Cons.prems(3,5,6,7) by auto
  have "cycles_since_snap p1 = int k'" using step(2) snap Cons.prems(6) by (simp add: k'_def)
  moreover have "k' \<le> n" using Cons.prems(7) by (simp add: k'_def)
  ultimately have IH: "length outs' = length cs \<and> (\<forall>i < length outs'. is_snap (outs' ! i) \<longleftrightarrow> (k' + i + 1) mod (n + 1) = 0)"
    using Cons.IH [OF rest, of k'] step(3) Cons.prems(2,3) by simp
  have shift: "(k' + i + 1) mod (n + 1) = (k + Suc i + 1) mod (n + 1)" for i
  proof (cases "k = n")
    case True
    then have "k + Suc i + 1 = (i + 1) + (n + 1)" by simp
    then have "(k + Suc i + 1) mod (n + 1) = (i + 1) mod (n + 1)" by (simp only: mod_add_self2)
    with True show ?thesis by (simp add: k'_def)
  qed (simp add: k'_def)
  have zero: "is_snap msgs \<longleftrightarrow> (k + 0 + 1) mod (n + 1) = 0"
    using snap Cons.prems(7) by (cases "k = n") simp_all
  have "is_snap (outs ! i) \<longleftrightarrow> (k + i + 1) mod (n + 1) = 0" if "i < length outs" for i
  proof (cases i)
    case 0
    then show ?thesis using zero by (simp add: outs)
  next
    case (Suc j)
    then show ?thesis using IH that shift [of j] by (simp add: outs)
  qed
  then show ?case using IH by (simp add: outs)
qed simp

text \<open>With the time gate off and \<open>snap_cycle_count = n\<close>, the accepted cycles of a session go out as a snapshot followed by
  exactly \<open>n\<close> cycles of deltas, over and over.  In particular \<open>n = 1\<close>, which the class documentation gives
  for the snapshot-only profile, alternates snapshots and deltas; only \<open>n = 0\<close> sends snapshots alone.\<close>

theorem snapshot_schedule:
  assumes "emit_all cs (begin_session p) = Inr (outs, p')" and "snap_period_s p < 0" and "snap_cycle_count p = int n"
    and "i < length cs"
  shows "is_snap (outs ! i) \<longleftrightarrow> i mod (n + 1) = 0"
proof -
  from assms(4) obtain c cs' where cs: "cs = c # cs'" by (cases cs) auto
  obtain ts lat lon cycle where c: "c = (ts, lat, lon, cycle)" by (cases c)
  from assms(1) obtain msgs p1 outs' where emit: "emit_cycle ts lat lon cycle (begin_session p) = Inr (msgs, p1)"
    and rest: "emit_all cs' p1 = Inr (outs', p')" and outs: "outs = msgs # outs'"
    by (auto simp: cs c and_then_eq_Inr)
  have b: "snap_period_s (begin_session p) < 0" "snap_cycle_count (begin_session p) = int n" "force_snap_next (begin_session p)"
    using assms(2,3) by (simp_all add: begin_session_def)
  have n0: "0 \<le> snap_cycle_count (begin_session p)" using b(2) by simp
  note step = emit_cycle_schedule [OF emit b(1) n0 disjI1 [OF b(3)]]
  have snap: "is_snap msgs" using step(1) b(3) by simp
  have facts: "snap_period_s p1 < 0" "snap_cycle_count p1 = int n" "last_snap_ts_ms p1 \<noteq> None" "\<not> force_snap_next p1"
    "cycles_since_snap p1 = int 0"
    using step(2,3) b(1,2) snap by simp_all
  have "length outs' = length cs' \<and> (\<forall>j < length outs'. is_snap (outs' ! j) \<longleftrightarrow> (0 + j + 1) mod (n + 1) = 0)"
    by (rule emit_all_schedule [OF rest facts]) simp
  with snap assms(4) show ?thesis by (cases i) (simp_all add: outs cs)
qed

theorem snapshot_schedule_witness:
  "\<exists>outs p'. emit_all [(0, None, None, []), (1, None, None, []), (2, None, None, [])] (begin_session (new_producer 7 (- 1) 1)) = Inr (outs, p')
     \<and> is_snap (outs ! 0) \<and> \<not> is_snap (outs ! 1) \<and> is_snap (outs ! 2)"
proof -
  let ?cs = "[(0, None, None, []), (1, None, None, []), (2, None, None, [])] :: (int \<times> pfloat option \<times> pfloat option \<times> cycle_obs list) list"
  let ?p = "new_producer 7 (- 1) 1"
  have "\<exists>outs p'. emit_all ?cs (begin_session ?p) = Inr (outs, p')"
    by (simp add: emit_cycle_def validate_lat_lon_def opt_between_def and_then_def case_prod_beta Let_def split: sum.split)
  then obtain outs p' where run: "emit_all ?cs (begin_session ?p) = Inr (outs, p')" by blast
  have "is_snap (outs ! i) \<longleftrightarrow> i mod (1 + 1) = 0" if "i < length ?cs" for i
    by (rule snapshot_schedule [OF run _ _ that]) (simp_all add: new_producer_def)
  from this [of 0] this [of 1] this [of 2] have "is_snap (outs ! 0) \<and> \<not> is_snap (outs ! 1) \<and> is_snap (outs ! 2)"
    by (simp add: numeral_2_eq_2)
  with run show ?thesis by blast
qed

end
