(* ===== verification/EdgeTracker.thy ===== *)
theory EdgeTracker
  imports PyJson
begin

text \<open>
  The gateway's presence tracker (\<open>clients/pi/tagpulse_edge/dedup.py\<close>): one timestamp per (tag, antenna)
  that is present, ENTER at the first read, EXIT at the first tick after the timeout.  The abstract
  machine \<open>seen_step\<close> follows one key alone; the tracker, seen from one key, is that machine.
\<close>

datatype transition = ENTER | EXIT

type_synonym tag_key = "string \<times> string" \<comment> \<open>tag id, antenna\<close>

record presence_ev =
  pv_key :: tag_key
  pv_transition :: transition
  pv_mono :: real
  pv_signal :: "pfloat option"

record seen =
  last_seen_mono :: real
  last_signal :: "pfloat option"

record tracker =
  dedup_window_s :: real
  exit_timeout_s :: real
  tr_present :: "(tag_key, seen) pydict"

definition new_tracker :: "real \<Rightarrow> real \<Rightarrow> py_exn + tracker" where
  "new_tracker dedup exit =
     (if dedup < 0 then Inl (ValueError ''dedup_window_s must be >= 0'')
      else if exit \<le> 0 then Inl (ValueError ''exit_timeout_s must be > 0'')
      else Inr \<lparr>dedup_window_s = dedup, exit_timeout_s = exit, tr_present = []\<rparr>)"

definition observe :: "tag_key \<Rightarrow> real \<Rightarrow> pfloat option \<Rightarrow> tracker \<Rightarrow> presence_ev option \<times> tracker" where
  "observe key now signal tr =
     (case map_of (tr_present tr) key of
        None \<Rightarrow>
          (Some \<lparr>pv_key = key, pv_transition = ENTER, pv_mono = now, pv_signal = signal\<rparr>,
           tr\<lparr>tr_present := dict_set key \<lparr>last_seen_mono = now, last_signal = signal\<rparr> (tr_present tr)\<rparr>)
      | Some existing \<Rightarrow>
          (None,
           if now - last_seen_mono existing \<ge> dedup_window_s tr
           then tr\<lparr>tr_present := dict_set key (existing\<lparr>last_seen_mono := now, last_signal := signal\<rparr>) (tr_present tr)\<rparr>
           else tr))"

definition expired_keys :: "real \<Rightarrow> tracker \<Rightarrow> tag_key list" where
  "expired_keys now tr =
     map fst (filter (\<lambda>(key, p). now - last_seen_mono p \<ge> exit_timeout_s tr) (tr_present tr))"

text \<open>The generator, run to its end: for each expired key, in the order of the dictionary, delete and yield.\<close>

definition exit_event :: "real \<Rightarrow> tag_key \<Rightarrow> presence_ev" where
  "exit_event now key = \<lparr>pv_key = key, pv_transition = EXIT, pv_mono = now, pv_signal = None\<rparr>"

definition tick :: "real \<Rightarrow> tracker \<Rightarrow> presence_ev list \<times> tracker" where
  "tick now tr =
     (let expired = expired_keys now tr
      in (map (exit_event now) expired, tr\<lparr>tr_present := fold dict_pop expired (tr_present tr)\<rparr>))"

definition present_count :: "tracker \<Rightarrow> nat" where
  "present_count tr = length (tr_present tr)"

section \<open>Runs\<close>

datatype tracker_op = Observe tag_key real "pfloat option" | Tick real

fun op_time :: "tracker_op \<Rightarrow> real" where
  "op_time (Observe _ t _) = t"
| "op_time (Tick t) = t"

fun tracker_step :: "tracker_op \<Rightarrow> tracker \<Rightarrow> presence_ev list \<times> tracker" where
  "tracker_step (Observe key t signal) tr =
     (case observe key t signal tr of (None, tr') \<Rightarrow> ([], tr') | (Some ev, tr') \<Rightarrow> ([ev], tr'))"
| "tracker_step (Tick t) tr = tick t tr"

fun tracker_run :: "tracker_op list \<Rightarrow> tracker \<Rightarrow> presence_ev list \<times> tracker" where
  "tracker_run [] tr = ([], tr)"
| "tracker_run (op # ops) tr =
     (let (evs, tr1) = tracker_step op tr; (evs', tr2) = tracker_run ops tr1 in (evs @ evs', tr2))"

section \<open>One key alone\<close>

text \<open>\<open>None\<close> is an absent tag, \<open>Some t\<close> one that is present since a read that counted at \<open>t\<close>.\<close>

fun seen_step :: "real \<Rightarrow> real \<Rightarrow> tag_key \<Rightarrow> tracker_op \<Rightarrow> real option \<Rightarrow> transition list \<times> real option" where
  "seen_step dedup exit key (Observe k t _) s =
     (if k \<noteq> key then ([], s)
      else case s of
        None \<Rightarrow> ([ENTER], Some t)
      | Some t0 \<Rightarrow> ([], Some (if t - t0 \<ge> dedup then t else t0)))"
| "seen_step dedup exit key (Tick t) s =
     (case s of
        None \<Rightarrow> ([], None)
      | Some t0 \<Rightarrow> if t - t0 \<ge> exit then ([EXIT], None) else ([], Some t0))"

fun seen_run :: "real \<Rightarrow> real \<Rightarrow> tag_key \<Rightarrow> tracker_op list \<Rightarrow> real option \<Rightarrow> transition list \<times> real option" where
  "seen_run dedup exit key [] s = ([], s)"
| "seen_run dedup exit key (op # ops) s =
     (let (trs, s1) = seen_step dedup exit key op s; (trs', s2) = seen_run dedup exit key ops s1 in (trs @ trs', s2))"

definition seen_of :: "tag_key \<Rightarrow> tracker \<Rightarrow> real option" where
  "seen_of key tr = map_option last_seen_mono (map_of (tr_present tr) key)"

definition transitions_of :: "tag_key \<Rightarrow> presence_ev list \<Rightarrow> transition list" where
  "transitions_of key evs = map pv_transition (filter (\<lambda>ev. pv_key ev = key) evs)"

lemma transitions_of_simps [simp]:
  "transitions_of key [] = []" "transitions_of key (evs @ evs') = transitions_of key evs @ transitions_of key evs'"
  by (simp_all add: transitions_of_def)

lemma map_of_pops: "map_of (fold dict_pop ks d) k = (if k \<in> set ks then None else map_of d k)"
  by (induction ks arbitrary: d) auto

lemma wf_pops: "wf_dict d \<Longrightarrow> wf_dict (fold dict_pop ks d)"
  by (induction ks arbitrary: d) auto

lemma expired_iff:
  assumes "wf_dict (tr_present tr)"
  shows "key \<in> set (expired_keys t tr) \<longleftrightarrow> (\<exists>t0. seen_of key tr = Some t0 \<and> t - t0 \<ge> exit_timeout_s tr)"
proof -
  have "key \<in> set (expired_keys t tr) \<longleftrightarrow>
      (\<exists>p. (key, p) \<in> set (tr_present tr) \<and> t - last_seen_mono p \<ge> exit_timeout_s tr)"
    by (force simp: expired_keys_def)
  also have "\<dots> \<longleftrightarrow> (\<exists>p. map_of (tr_present tr) key = Some p \<and> t - last_seen_mono p \<ge> exit_timeout_s tr)"
    using map_of_eq_Some_iff [OF assms] by metis
  finally show ?thesis by (auto simp: seen_of_def)
qed

lemma distinct_expired: "wf_dict (tr_present tr) \<Longrightarrow> distinct (expired_keys t tr)"
  unfolding expired_keys_def by (simp add: distinct_map_filter)

lemma transitions_of_exits: "distinct ks \<Longrightarrow> transitions_of key (map (exit_event t) ks) = (if key \<in> set ks then [EXIT] else [])"
  by (induction ks) (auto simp: transitions_of_def exit_event_def)

section \<open>The tracker is that machine, for every key\<close>

definition tracker_ok :: "real \<Rightarrow> real \<Rightarrow> tracker \<Rightarrow> bool" where
  "tracker_ok dedup exit tr \<longleftrightarrow> wf_dict (tr_present tr) \<and> dedup_window_s tr = dedup \<and> exit_timeout_s tr = exit"

lemma tracker_step_refines:
  assumes ok: "tracker_ok dedup exit tr" and step: "tracker_step op tr = (evs, tr')"
  shows "tracker_ok dedup exit tr'" and "seen_step dedup exit key op (seen_of key tr) = (transitions_of key evs, seen_of key tr')"
proof -
  have both: "tracker_ok dedup exit tr' \<and>
      seen_step dedup exit key op (seen_of key tr) = (transitions_of key evs, seen_of key tr')"
  proof (cases op)
    case (Observe k t signal)
    with ok step show ?thesis
      by (cases "map_of (tr_present tr) k")
        (auto simp: observe_def tracker_ok_def seen_of_def transitions_of_def split: if_splits)
  next
    case (Tick t)
    have wf: "wf_dict (tr_present tr)" using ok by (simp add: tracker_ok_def)
    from Tick step have evs: "evs = map (exit_event t) (expired_keys t tr)"
      and tr': "tr' = tr\<lparr>tr_present := fold dict_pop (expired_keys t tr) (tr_present tr)\<rparr>"
      by (simp_all add: tick_def Let_def)
    have "seen_of key tr' = (if key \<in> set (expired_keys t tr) then None else seen_of key tr)"
      by (simp add: tr' seen_of_def map_of_pops)
    moreover have "transitions_of key evs = (if key \<in> set (expired_keys t tr) then [EXIT] else [])"
      unfolding evs by (rule transitions_of_exits [OF distinct_expired [OF wf]])
    moreover have "tracker_ok dedup exit tr'" using ok wf_pops [OF wf] by (simp add: tr' tracker_ok_def)
    ultimately show ?thesis
      using ok expired_iff [OF wf, of key t] Tick by (auto simp: tracker_ok_def split: option.split)
  qed
  then show "tracker_ok dedup exit tr'" and "seen_step dedup exit key op (seen_of key tr) = (transitions_of key evs, seen_of key tr')"
    by blast+
qed

lemma tracker_run_refines:
  "tracker_ok dedup exit tr \<Longrightarrow> tracker_run ops tr = (evs, tr') \<Longrightarrow>
   tracker_ok dedup exit tr' \<and> seen_run dedup exit key ops (seen_of key tr) = (transitions_of key evs, seen_of key tr')"
proof (induction ops arbitrary: tr evs)
  case (Cons op ops)
  obtain evs1 tr1 where step: "tracker_step op tr = (evs1, tr1)" by (cases "tracker_step op tr")
  obtain evs2 where run: "tracker_run ops tr1 = (evs2, tr')" and evs: "evs = evs1 @ evs2"
    using Cons.prems(2) step by (auto split: prod.splits)
  from Cons.IH [OF tracker_step_refines(1) [OF Cons.prems(1) step] run] tracker_step_refines(2) [OF Cons.prems(1) step, of key]
  show ?case by (simp add: evs)
qed simp

lemma new_tracker_ok: "new_tracker dedup exit = Inr tr \<Longrightarrow> tracker_ok dedup exit tr \<and> seen_of key tr = None \<and> 0 \<le> dedup \<and> 0 < exit"
  by (auto simp: new_tracker_def tracker_ok_def seen_of_def split: if_splits)

section \<open>ENTER and EXIT alternate\<close>

text \<open>Starting from a presence, the only traces, with the presence they end in.\<close>

fun alternating :: "bool \<Rightarrow> transition list \<Rightarrow> bool \<Rightarrow> bool" where
  "alternating present [] after = (present = after)"
| "alternating present (ENTER # trs) after = (\<not> present \<and> alternating True trs after)"
| "alternating present (EXIT # trs) after = (present \<and> alternating False trs after)"

lemma alternating_append:
  "alternating a trs b \<Longrightarrow> alternating b trs' c \<Longrightarrow> alternating a (trs @ trs') c"
  by (induction a trs b rule: alternating.induct) auto

lemma seen_step_alternating:
  "seen_step dedup exit key op s = (trs, s') \<Longrightarrow> alternating (s \<noteq> None) trs (s' \<noteq> None)"
  by (cases op) (auto split: if_splits option.splits)

lemma seen_run_alternating:
  "seen_run dedup exit key ops s = (trs, s') \<Longrightarrow> alternating (s \<noteq> None) trs (s' \<noteq> None)"
proof (induction ops arbitrary: s trs)
  case (Cons op ops)
  then obtain trs1 s1 trs2 where "seen_step dedup exit key op s = (trs1, s1)"
    and "seen_run dedup exit key ops s1 = (trs2, s')" and "trs = trs1 @ trs2"
    by (auto split: prod.splits)
  with Cons.IH show ?case using seen_step_alternating alternating_append by blast
qed simp

text \<open>Whatever reads and ticks a tracker gets, the events of one (tag, antenna) are ENTER, EXIT, ENTER, ... in
  turn, beginning with ENTER, and the tag is in the table exactly when the last of them is an ENTER.\<close>

theorem enter_exit_alternate:
  assumes "new_tracker dedup exit = Inr tr" and "tracker_run ops tr = (evs, tr')"
  shows "alternating False (transitions_of key evs) (map_of (tr_present tr') key \<noteq> None)"
proof -
  from new_tracker_ok [OF assms(1), of key] have ok: "tracker_ok dedup exit tr" and "seen_of key tr = None" by simp_all
  with tracker_run_refines [OF ok assms(2), of key]
  have "seen_run dedup exit key ops None = (transitions_of key evs, seen_of key tr')" by simp
  from seen_run_alternating [OF this] show ?thesis by (simp add: seen_of_def)
qed

theorem enter_exit_alternate_witness:
  "\<exists>tr evs tr'. new_tracker 5 10 = Inr tr \<and> tracker_run [Observe (''t'', ''a'') 0 None, Tick 10, Observe (''t'', ''a'') 11 None] tr = (evs, tr')
     \<and> transitions_of (''t'', ''a'') evs = [ENTER, EXIT, ENTER] \<and> map_of (tr_present tr') (''t'', ''a'') \<noteq> None"
proof -
  let ?ops = "[Observe (''t'', ''a'') 0 None, Tick 10, Observe (''t'', ''a'') 11 None]"
  obtain tr where new: "new_tracker 5 10 = Inr tr" by (simp add: new_tracker_def)
  obtain evs tr' where run: "tracker_run ?ops tr = (evs, tr')" by fastforce
  have "transitions_of (''t'', ''a'') evs = [ENTER, EXIT, ENTER]"
    using new run by (auto simp: new_tracker_def observe_def tick_def expired_keys_def exit_event_def transitions_of_def)
  with enter_exit_alternate [OF new run, of "(''t'', ''a'')"] new run show ?thesis by auto
qed

section \<open>When EXIT comes\<close>

fun last_read :: "tag_key \<Rightarrow> tracker_op list \<Rightarrow> real option" where
  "last_read key [] = None"
| "last_read key (op # ops) =
     (case last_read key ops of
        Some t \<Rightarrow> Some t
      | None \<Rightarrow> (case op of Observe k t _ \<Rightarrow> if k = key then Some t else None | Tick _ \<Rightarrow> None))"

lemma last_read_snoc:
  "last_read key (ops @ [op]) =
     (case op of Observe k t _ \<Rightarrow> if k = key then Some t else last_read key ops | Tick _ \<Rightarrow> last_read key ops)"
  by (induction ops) (auto split: tracker_op.split option.split)

lemma last_read_time: "last_read key ops = Some t \<Longrightarrow> t \<in> op_time ` set ops"
  by (induction ops) (auto split: option.splits tracker_op.splits if_splits)

lemma seen_run_snoc:
  "seen_run dedup exit key (ops @ [op]) s =
     (let (trs, s1) = seen_run dedup exit key ops s; (trs', s2) = seen_step dedup exit key op s1 in (trs @ trs', s2))"
  by (induction ops arbitrary: s) (auto split: prod.splits)

text \<open>The time in the table is that of the latest read, or of one less than the window before it.\<close>

lemma seen_run_last_read:
  "sorted (map op_time ops) \<Longrightarrow> snd (seen_run dedup exit key ops None) = Some t0 \<Longrightarrow>
   \<exists>t. last_read key ops = Some t \<and> t0 \<le> t \<and> (t = t0 \<or> t - t0 < dedup)"
proof (induction ops arbitrary: t0 rule: rev_induct)
  case (snoc op ops)
  have sorted: "sorted (map op_time ops)" and later: "\<forall>t \<in> op_time ` set ops. t \<le> op_time op"
    using snoc.prems(1) by (simp_all add: sorted_append)
  note IH = snoc.IH [OF sorted]
  define s1 where "s1 = snd (seen_run dedup exit key ops None)"
  have step: "snd (seen_step dedup exit key op s1) = Some t0"
    using snoc.prems(2) by (simp add: seen_run_snoc s1_def Let_def case_prod_beta)
  show ?case
  proof (cases op)
    case (Tick t)
    with step have "s1 = Some t0" by (auto split: option.splits if_splits)
    with IH Tick show ?thesis by (simp add: s1_def last_read_snoc)
  next
    case (Observe k t signal)
    show ?thesis
    proof (cases "k = key")
      case False
      with Observe step have "s1 = Some t0" by simp
      with IH Observe False show ?thesis by (simp add: s1_def last_read_snoc)
    next
      case True
      show ?thesis
      proof (cases s1)
        case None
        with Observe True step show ?thesis by (simp add: last_read_snoc)
      next
        case (Some t1)
        with IH obtain t' where t': "last_read key ops = Some t'" "t1 \<le> t'" by (auto simp: s1_def)
        then have "t1 \<le> t" using later last_read_time [OF t'(1)] Observe by fastforce
        with Some Observe True step show ?thesis by (auto simp: last_read_snoc split: if_splits)
      qed
    qed
  qed
qed simp

text \<open>For a tag that is present at a tick, with time running forward: if it was not read for the exit timeout, this
  tick emits its EXIT; and if this tick emits its EXIT, then it was not read for at least the exit
  timeout less the dedup window.  The window counts against the timeout because a read inside the
  window does not refresh the timestamp.\<close>

theorem exit_timing:
  assumes "new_tracker dedup exit = Inr tr" and "tracker_run ops tr = (evs, tr')"
    and "sorted (map op_time ops)" and "map_of (tr_present tr') key \<noteq> None"
  shows "\<exists>t. last_read key ops = Some t
    \<and> (now - t \<ge> exit \<longrightarrow> exit_event now key \<in> set (fst (tick now tr')))
    \<and> (exit_event now key \<in> set (fst (tick now tr')) \<longrightarrow> now - t \<ge> exit \<or> now - t > exit - dedup)"
proof -
  from new_tracker_ok [OF assms(1), of key] have ok: "tracker_ok dedup exit tr" and none: "seen_of key tr = None" by simp_all
  from tracker_run_refines [OF ok assms(2), of key] none
  have ok': "tracker_ok dedup exit tr'" and run: "seen_run dedup exit key ops None = (transitions_of key evs, seen_of key tr')" by simp_all
  obtain t0 where t0: "seen_of key tr' = Some t0" using assms(4) by (auto simp: seen_of_def)
  from seen_run_last_read [OF assms(3), of dedup exit key t0] run t0
  obtain t where t: "last_read key ops = Some t" "t0 \<le> t" "t = t0 \<or> t - t0 < dedup" by auto
  have "exit_event now key \<in> set (fst (tick now tr')) \<longleftrightarrow> key \<in> set (expired_keys now tr')"
    by (auto simp: tick_def Let_def exit_event_def)
  also have "\<dots> \<longleftrightarrow> now - t0 \<ge> exit"
    using expired_iff [of tr' key now] ok' t0 by (simp add: tracker_ok_def)
  finally show ?thesis using t by auto
qed

theorem exit_timing_witness:
  "\<exists>tr evs tr'. new_tracker 5 10 = Inr tr \<and> tracker_run [Observe (''t'', ''a'') 0 None, Observe (''t'', ''a'') 4 None] tr = (evs, tr')
     \<and> last_read (''t'', ''a'') [Observe (''t'', ''a'') 0 None, Observe (''t'', ''a'') 4 None] = Some 4
     \<and> exit_event 14 (''t'', ''a'') \<in> set (fst (tick 14 tr'))"
proof -
  let ?ops = "[Observe (''t'', ''a'') 0 None, Observe (''t'', ''a'') 4 None]"
  obtain tr where new: "new_tracker 5 10 = Inr tr" by (simp add: new_tracker_def)
  obtain evs tr' where run: "tracker_run ?ops tr = (evs, tr')" by fastforce
  have present: "map_of (tr_present tr') (''t'', ''a'') \<noteq> None"
    using new run by (auto simp: new_tracker_def observe_def)
  show ?thesis using exit_timing [OF new run _ present, of 14] new run by simp
qed

text \<open>With the defaults (5 s, 10 s) a tag can EXIT six seconds after its latest read; with a window as long as
  the timeout, immediately after it.\<close>

lemma exit_right_after_a_read:
  "\<exists>tr. new_tracker 10 10 = Inr tr \<and>
     transitions_of k (fst (tracker_run [Observe k 0 None, Observe k 9 None, Tick 10] tr)) = [ENTER, EXIT]"
  by (simp add: new_tracker_def observe_def tick_def expired_keys_def exit_event_def transitions_of_def)

end
