(* ===== verification/PyTime.thy ===== *)
theory PyTime
  imports PyJson
begin

text \<open>
  \<open>datetime.isoformat()\<close> of a time in UTC: the civil date of a day number in the proleptic Gregorian
  calendar, the time of day, and six digits of microseconds when there are any.
\<close>

definition us_per_day :: int where
  "us_per_day = 86400000000"

text \<open>The date of a day counted from 1970-01-01, by eras of 400 years that begin in March.\<close>

definition civil_of_days :: "int \<Rightarrow> int \<times> int \<times> int" where
  "civil_of_days days =
     (let z = days + 719468; era = z div 146097; doe = z mod 146097;
          yoe = (doe - doe div 1460 + doe div 36524 - doe div 146096) div 365;
          doy = doe - (365 * yoe + yoe div 4 - yoe div 100);
          mp = (5 * doy + 2) div 153;
          d = doy - (153 * mp + 2) div 5 + 1;
          m = (if mp < 10 then mp + 3 else mp - 9)
      in (yoe + era * 400 + (if m \<le> 2 then 1 else 0), m, d))"

definition pad :: "nat \<Rightarrow> int \<Rightarrow> string" where
  "pad n i = zfill (str_int i) n"

definition isoformat :: "datetime \<Rightarrow> string" where
  "isoformat t =
     (let (y, m, d) = civil_of_days (t div us_per_day); us = t mod us_per_day; s = us div 1000000; frac = us mod 1000000
      in pad 4 y @ ''-'' @ pad 2 m @ ''-'' @ pad 2 d @ ''T'' @ pad 2 (s div 3600) @ '':'' @ pad 2 (s div 60 mod 60) @ '':''
         @ pad 2 (s mod 60) @ (if frac = 0 then [] else ''.'' @ pad 6 frac) @ ''+00:00'')"

lemma civil_samples: "civil_of_days 0 = (1970, 1, 1)" "civil_of_days 19782 = (2024, 2, 29)" "civil_of_days 20454 = (2026, 1, 1)"
  by code_simp+

end
