(* ===== verification/EdgeAgent.thy ===== *)
theory EdgeAgent
  imports EdgeTracker PyTime
begin

text \<open>
  The gateway's agent (\<open>clients/pi/tagpulse_edge\<close>: \<open>buffer.py\<close>, \<open>clock.py\<close>, \<open>agent.py\<close>, \<open>transport.py\<close>): the bounded
  outbox, the clock guard, the entry points of the hardware loop, and the publisher thread, which peeks a
  batch, publishes its events one by one and then deletes those that were accepted.  The threads
  interleave at these operations, each of which the outbox's lock makes atomic.
\<close>

section \<open>The outbox\<close>

record out_event =
  oe_kind :: string
  oe_topic :: string
  oe_payload :: jobj
  oe_enqueued_at :: real

record outbox_row =
  row_id :: int
  row_event :: out_event

text \<open>\<open>ob_seq\<close> is the largest id ever given (\<open>AUTOINCREMENT\<close>); the rows and it survive a restart.\<close>

record outbox =
  ob_rows :: "outbox_row list"
  ob_seq :: int
  ob_max_rows :: int
  ob_max_age_s :: real

definition new_outbox :: "int \<Rightarrow> real \<Rightarrow> py_exn + outbox" where
  "new_outbox max_rows max_age =
     (if max_rows \<le> 0 then Inl (ValueError ''max_rows must be > 0'')
      else Inr \<lparr>ob_rows = [], ob_seq = 0, ob_max_rows = max_rows, ob_max_age_s = max_age\<rparr>)"

text \<open>\<open>SELECT ... ORDER BY id ASC LIMIT n\<close>\<close>

definition oldest_rows :: "int \<Rightarrow> outbox_row list \<Rightarrow> outbox_row list" where
  "oldest_rows limit rows = (if limit < 0 then sort_key row_id rows else take (nat limit) (sort_key row_id rows))"

definition without_ids :: "int list \<Rightarrow> outbox_row list \<Rightarrow> outbox_row list" where
  "without_ids ids rows = filter (\<lambda>r. row_id r \<notin> set ids) rows"

definition evict :: "real \<Rightarrow> outbox \<Rightarrow> outbox" where
  "evict now ob =
     (let rows1 = (if ob_max_age_s ob > 0
                   then filter (\<lambda>r. \<not> oe_enqueued_at (row_event r) < now - ob_max_age_s ob) (ob_rows ob)
                   else ob_rows ob);
          count = int (length rows1)
      in ob\<lparr>ob_rows := (if count > ob_max_rows ob
                         then without_ids (map row_id (oldest_rows (count - ob_max_rows ob) rows1)) rows1
                         else rows1)\<rparr>)"

definition put :: "real \<Rightarrow> out_event \<Rightarrow> outbox \<Rightarrow> outbox" where
  "put now event ob =
     evict now (ob\<lparr>ob_rows := ob_rows ob @ [\<lparr>row_id = ob_seq ob + 1, row_event = event\<rparr>], ob_seq := ob_seq ob + 1\<rparr>)"

definition ack :: "int list \<Rightarrow> outbox \<Rightarrow> int \<times> outbox" where
  "ack ids ob =
     (let rows' = without_ids ids (ob_rows ob)
      in (int (length (ob_rows ob)) - int (length rows'), ob\<lparr>ob_rows := rows'\<rparr>))"

definition validate_kind :: "string \<Rightarrow> string" where
  "validate_kind value =
     (if value \<in> {''tag-reads'', ''telemetry'', ''location'', ''status'', ''events''} then value else ''events'')"

definition peek :: "int \<Rightarrow> outbox \<Rightarrow> outbox_row list" where
  "peek limit ob =
     map (\<lambda>r. r\<lparr>row_event := (row_event r)\<lparr>oe_kind := validate_kind (oe_kind (row_event r))\<rparr>\<rparr>) (oldest_rows limit (ob_rows ob))"

definition depth :: "outbox \<Rightarrow> int" where
  "depth ob = int (length (ob_rows ob))"

section \<open>The clock guard\<close>

record clock_guard =
  cg_max_age_s :: real
  cg_max_skew_future_s :: real

definition is_acceptable :: "clock_guard \<Rightarrow> datetime \<Rightarrow> datetime \<Rightarrow> bool" where
  "is_acceptable cg ts now =
     (let delta_s = total_seconds (now - ts)
      in if delta_s > cg_max_age_s cg then False else delta_s \<ge> - cg_max_skew_future_s cg)"

section \<open>Topics\<close>

text \<open>\<open>str.format\<close> with the two named fields; braces are doubled, any other field raises.\<close>

fun format_td :: "string \<Rightarrow> string \<Rightarrow> string \<Rightarrow> py_exn + string" where
  "format_td t d [] = Inr []"
| "format_td t d (c # cs) =
     (if c = CHR ''{'' then
        (case cs of
           a # b # rest \<Rightarrow>
             if a = CHR ''{'' then and_then (format_td t d (b # rest)) (\<lambda>s. Inr (CHR ''{'' # s))
             else if b = CHR ''}'' \<and> a = CHR ''t'' then and_then (format_td t d rest) (\<lambda>s. Inr (t @ s))
             else if b = CHR ''}'' \<and> a = CHR ''d'' then and_then (format_td t d rest) (\<lambda>s. Inr (d @ s))
             else Inl KeyError
         | [a] \<Rightarrow> if a = CHR ''{'' then Inr [CHR ''{''] else Inl (ValueError ''expected '}' before end of string'')
         | [] \<Rightarrow> Inl (ValueError ''Single '{' encountered in format string''))
      else if c = CHR ''}'' then
        (case cs of
           a # rest \<Rightarrow> if a = CHR ''}'' then and_then (format_td t d rest) (\<lambda>s. Inr (CHR ''}'' # s))
                      else Inl (ValueError ''Single '}' encountered in format string'')
         | [] \<Rightarrow> Inl (ValueError ''Single '}' encountered in format string''))
      else and_then (format_td t d cs) (\<lambda>s. Inr (c # s)))"

record edge_config =
  ec_tenant_id :: uuid
  ec_device_id :: uuid
  ec_batch_max_events :: int
  ec_topics :: "(string, string) pydict" \<comment> \<open>kind to template, one for each attribute \<open>topic_*\<close>\<close>
  ec_firmware_version :: string

definition topic :: "edge_config \<Rightarrow> string \<Rightarrow> py_exn + string" where
  "topic config kind =
     (case map_of (ec_topics config) kind of
        None \<Rightarrow> Inl (ValueError ''Unknown topic kind'')
      | Some template \<Rightarrow> format_td (str_uuid (ec_tenant_id config)) (str_uuid (ec_device_id config)) template)"

section \<open>The agent\<close>

record edge_agent =
  ea_tracker :: tracker
  ea_outbox :: outbox
  ea_clock :: clock_guard
  ea_started_mono :: real
  ea_dropped_old :: int
  ea_dropped_future :: int

text \<open>The readings of the two clocks that one call makes, in the order of the code.\<close>

record readings =
  rd_guard :: datetime \<comment> \<open>\<open>now\<close> of the clock guard\<close>
  rd_log :: datetime \<comment> \<open>\<open>now\<close> of the message of a dropped event\<close>
  rd_mono :: real \<comment> \<open>time of the observation\<close>
  rd_utc :: datetime \<comment> \<open>\<open>to_utc(None)\<close>\<close>
  rd_enqueued :: real
  rd_evict :: real

definition to_utc :: "readings \<Rightarrow> datetime option \<Rightarrow> datetime" where
  "to_utc rd ts = (case ts of None \<Rightarrow> rd_utc rd | Some t \<Rightarrow> t)"

definition validate_ts :: "readings \<Rightarrow> datetime option \<Rightarrow> edge_agent \<Rightarrow> bool \<times> edge_agent" where
  "validate_ts rd ts ag =
     (case ts of
        None \<Rightarrow> (True, ag)
      | Some t \<Rightarrow>
          if is_acceptable (ea_clock ag) t (rd_guard rd) then (True, ag)
          else if t > rd_log rd then (False, ag\<lparr>ea_dropped_future := ea_dropped_future ag + 1\<rparr>)
          else (False, ag\<lparr>ea_dropped_old := ea_dropped_old ag + 1\<rparr>))"

definition enqueue :: "edge_config \<Rightarrow> readings \<Rightarrow> string \<Rightarrow> jobj \<Rightarrow> edge_agent \<Rightarrow> py_exn option \<times> edge_agent" where
  "enqueue config rd kind payload ag =
     (case topic config kind of
        Inl e \<Rightarrow> (Some e, ag)
      | Inr tp \<Rightarrow>
          (None, ag\<lparr>ea_outbox := put (rd_evict rd)
             \<lparr>oe_kind = kind, oe_topic = tp, oe_payload = payload, oe_enqueued_at = rd_enqueued rd\<rparr> (ea_outbox ag)\<rparr>))"

definition opt_field :: "string \<Rightarrow> ('a \<Rightarrow> json) \<Rightarrow> 'a option \<Rightarrow> jobj" where
  "opt_field k f x = (case x of None \<Rightarrow> [] | Some v \<Rightarrow> [(k, f v)])"

fun transition_value :: "transition \<Rightarrow> string" where
  "transition_value ENTER = ''ENTER''"
| "transition_value EXIT = ''EXIT''"

record presence_extras =
  px_sensor_data :: "jobj option"
  px_observed_at :: "datetime option"
  px_identity :: "(string \<times> string option) list"
  px_tag_data :: "jobj option"
  px_reader_antenna :: "int option"

definition no_extras :: presence_extras where
  "no_extras = \<lparr>px_sensor_data = None, px_observed_at = None, px_identity = [], px_tag_data = None, px_reader_antenna = None\<rparr>"

definition presence_payload :: "edge_config \<Rightarrow> readings \<Rightarrow> presence_ev \<Rightarrow> presence_extras \<Rightarrow> jobj" where
  "presence_payload config rd ev px =
     (let stripped = List.map_filter (\<lambda>(k, v). map_option (\<lambda>s. (k, JStr s)) v) (px_identity px);
          enter = (pv_transition ev = ENTER)
      in [(''device_id'', JStr (str_uuid (ec_device_id config))), (''tag_id'', JStr (fst (pv_key ev))),
          (''antenna'', JStr (snd (pv_key ev))), (''event_type'', JStr (transition_value (pv_transition ev))),
          (''timestamp'', JStr (isoformat (to_utc rd (px_observed_at px))))]
         @ opt_field ''signal_strength'' JFloat (pv_signal ev)
         @ (if enter then opt_field ''sensor_data'' JObj (px_sensor_data px) else [])
         @ (if stripped = [] then [] else [(''identity'', JObj stripped)])
         @ (if enter then opt_field ''tag_data'' JObj (px_tag_data px) else [])
         @ opt_field ''reader_antenna'' JInt (px_reader_antenna px))"

definition enqueue_presence ::
    "edge_config \<Rightarrow> readings \<Rightarrow> presence_ev \<Rightarrow> presence_extras \<Rightarrow> edge_agent \<Rightarrow> py_exn option \<times> edge_agent" where
  "enqueue_presence config rd ev px ag = enqueue config rd ''tag-reads'' (presence_payload config rd ev px) ag"

record raw_tag_read =
  rt_tag_id :: string
  rt_antenna :: string
  rt_signal_strength :: "pfloat option"
  rt_observed_at :: "datetime option"
  rt_sensor_data :: "jobj option"
  rt_epc :: "string option"
  rt_epc_hex :: "string option"
  rt_tid :: "string option"
  rt_user_memory_hex :: "string option"
  rt_tag_data :: "jobj option"
  rt_reader_antenna :: "int option"

definition submit_tag_read :: "edge_config \<Rightarrow> readings \<Rightarrow> raw_tag_read \<Rightarrow> edge_agent \<Rightarrow> py_exn option \<times> edge_agent" where
  "submit_tag_read config rd read ag =
     (let (acceptable, ag1) = validate_ts rd (rt_observed_at read) ag in
      if \<not> acceptable then (None, ag1)
      else (let (enter, tr) = observe (rt_tag_id read, rt_antenna read) (rd_mono rd) (rt_signal_strength read) (ea_tracker ag1);
                ag2 = ag1\<lparr>ea_tracker := tr\<rparr>
        in case enter of
             None \<Rightarrow> (None, ag2)
           | Some ev \<Rightarrow> enqueue_presence config rd ev
               \<lparr>px_sensor_data = rt_sensor_data read, px_observed_at = rt_observed_at read,
                px_identity = [(''epc'', rt_epc read), (''epc_hex'', rt_epc_hex read), (''tid'', rt_tid read),
                               (''user_memory_hex'', rt_user_memory_hex read)],
                px_tag_data = rt_tag_data read, px_reader_antenna = rt_reader_antenna read\<rparr> ag2))"

record sensor_sample =
  sm_metric_name :: string
  sm_value :: pfloat
  sm_unit :: "string option"
  sm_observed_at :: "datetime option"
  sm_metadata :: "jobj option"

definition submit_telemetry :: "edge_config \<Rightarrow> readings \<Rightarrow> sensor_sample \<Rightarrow> edge_agent \<Rightarrow> py_exn option \<times> edge_agent" where
  "submit_telemetry config rd sample ag =
     (let (acceptable, ag1) = validate_ts rd (sm_observed_at sample) ag in
      if \<not> acceptable then (None, ag1)
      else enqueue config rd ''telemetry''
        ([(''device_id'', JStr (str_uuid (ec_device_id config))), (''metric_name'', JStr (sm_metric_name sample)),
          (''metric_value'', JFloat (sm_value sample)), (''timestamp'', JStr (isoformat (to_utc rd (sm_observed_at sample))))]
         @ opt_field ''unit'' JStr (sm_unit sample) @ opt_field ''metadata'' JObj (sm_metadata sample)) ag1)"

record location_fix =
  lf_latitude :: pfloat
  lf_longitude :: pfloat
  lf_accuracy_m :: "pfloat option"
  lf_source :: string
  lf_observed_at :: "datetime option"

definition submit_location :: "edge_config \<Rightarrow> readings \<Rightarrow> location_fix \<Rightarrow> edge_agent \<Rightarrow> py_exn option \<times> edge_agent" where
  "submit_location config rd fix ag =
     (let (acceptable, ag1) = validate_ts rd (lf_observed_at fix) ag in
      if \<not> acceptable then (None, ag1)
      else enqueue config rd ''location''
        [(''device_id'', JStr (str_uuid (ec_device_id config))), (''latitude'', JFloat (lf_latitude fix)),
         (''longitude'', JFloat (lf_longitude fix)),
         (''accuracy_m'', case lf_accuracy_m fix of None \<Rightarrow> JNull | Some a \<Rightarrow> JFloat a), (''source'', JStr (lf_source fix)),
         (''timestamp'', JStr (isoformat (to_utc rd (lf_observed_at fix))))] ag1)"

text \<open>One pass of the tick thread: each expired key is deleted, then its EXIT is enqueued.\<close>

fun tick_keys :: "edge_config \<Rightarrow> (tag_key \<Rightarrow> readings) \<Rightarrow> real \<Rightarrow> tag_key list \<Rightarrow> edge_agent \<Rightarrow> py_exn option \<times> edge_agent" where
  "tick_keys config rds now [] ag = (None, ag)"
| "tick_keys config rds now (key # keys) ag =
     (let ag1 = ag\<lparr>ea_tracker := (ea_tracker ag)\<lparr>tr_present := dict_pop key (tr_present (ea_tracker ag))\<rparr>\<rparr>
      in case enqueue_presence config (rds key) (exit_event now key) no_extras ag1 of
           (Some e, ag2) \<Rightarrow> (Some e, ag2)
         | (None, ag2) \<Rightarrow> tick_keys config rds now keys ag2)"

definition tick_pass :: "edge_config \<Rightarrow> (tag_key \<Rightarrow> readings) \<Rightarrow> real \<Rightarrow> edge_agent \<Rightarrow> py_exn option \<times> edge_agent" where
  "tick_pass config rds now ag = tick_keys config rds now (expired_keys now (ea_tracker ag)) ag"

text \<open>The status message, and what becomes of it: published at once, or enqueued while there is no connection.\<close>

definition status_payload :: "edge_config \<Rightarrow> readings \<Rightarrow> string \<Rightarrow> string option \<Rightarrow> edge_agent \<Rightarrow> jobj" where
  "status_payload config rd connection_state reason ag =
     [(''connection_state'', JStr connection_state), (''firmware_version'', JStr (ec_firmware_version config)),
      (''uptime_s'', JInt (py_trunc (rd_mono rd - ea_started_mono ag))), (''buffer_depth'', JInt (depth (ea_outbox ag))),
      (''tags_present'', JInt (int (present_count (ea_tracker ag)))), (''dropped_old'', JInt (ea_dropped_old ag)),
      (''dropped_future'', JInt (ea_dropped_future ag)), (''timestamp'', JStr (isoformat (rd_utc rd)))]
     @ opt_field ''reason'' JStr reason"

definition publish_status ::
    "edge_config \<Rightarrow> readings \<Rightarrow> bool \<Rightarrow> string \<Rightarrow> string option \<Rightarrow> edge_agent
      \<Rightarrow> (py_exn + (string \<times> jobj) option) \<times> edge_agent" where
  "publish_status config rd online connection_state reason ag =
     (let payload = status_payload config rd connection_state reason ag in
      if online
      then (map_sum id (\<lambda>tp. Some (tp, payload)) (topic config ''status''), ag)
      else (case enqueue config rd ''status'' payload ag of
          (Some e, ag1) \<Rightarrow> (Inl e, ag1) | (None, ag1) \<Rightarrow> (Inr None, ag1)))"

section \<open>The publisher thread among the others\<close>

text \<open>
  The state of the publisher's loop over the outbox, with ghost components: the ids published since the
  process started, in order; all ids ever published, ever put, and ever evicted.
\<close>

record pump =
  pm_outbox :: outbox
  pm_batch :: "outbox_row list" \<comment> \<open>rest of the batch\<close>
  pm_acked :: "int list"
  pm_sent :: "int list"
  pm_delivered :: "int set"
  pm_accepted :: "int list"
  pm_evicted :: "int set"

definition ids_of :: "outbox \<Rightarrow> int list" where
  "ids_of ob = map row_id (ob_rows ob)"

definition idle_pump :: "outbox \<Rightarrow> pump" where
  "idle_pump ob = \<lparr>pm_outbox = ob, pm_batch = [], pm_acked = [], pm_sent = [], pm_delivered = {}, pm_accepted = [], pm_evicted = {}\<rparr>"

inductive pump_step :: "int \<Rightarrow> pump \<Rightarrow> pump \<Rightarrow> bool" for limit where
  enqueue: "pump_step limit s (s\<lparr>pm_outbox := put now event (pm_outbox s),
     pm_accepted := pm_accepted s @ [ob_seq (pm_outbox s) + 1],
     pm_evicted := pm_evicted s \<union> (insert (ob_seq (pm_outbox s) + 1) (set (ids_of (pm_outbox s))) - set (ids_of (put now event (pm_outbox s))))\<rparr>)"
| poll: "pm_batch s = [] \<Longrightarrow> pm_acked s = [] \<Longrightarrow> pump_step limit s (s\<lparr>pm_batch := peek limit (pm_outbox s)\<rparr>)"
| published: "pm_batch s = r # rest \<Longrightarrow>
     pump_step limit s (s\<lparr>pm_batch := rest, pm_acked := pm_acked s @ [row_id r], pm_sent := pm_sent s @ [row_id r],
       pm_delivered := insert (row_id r) (pm_delivered s)\<rparr>)"
| publish_failed: "pm_batch s = r # rest \<Longrightarrow> pump_step limit s (s\<lparr>pm_batch := []\<rparr>)"
| acknowledge: "pm_batch s = [] \<Longrightarrow> pm_acked s \<noteq> [] \<Longrightarrow>
     pump_step limit s (s\<lparr>pm_outbox := snd (ack (pm_acked s) (pm_outbox s)), pm_acked := []\<rparr>)"
| restart: "pump_step limit s (s\<lparr>pm_batch := [], pm_acked := [], pm_sent := []\<rparr>)"

inductive pump_reachable :: "int \<Rightarrow> outbox \<Rightarrow> pump \<Rightarrow> bool" for limit ob where
  start: "pump_reachable limit ob (idle_pump ob)"
| step: "pump_reachable limit ob s \<Longrightarrow> pump_step limit s s' \<Longrightarrow> pump_reachable limit ob s'"

inductive_cases pump_stepE: "pump_step limit s s'"

subsection \<open>The outbox stays in order and within its bound\<close>

definition outbox_ok :: "outbox \<Rightarrow> bool" where
  "outbox_ok ob \<longleftrightarrow> sorted_wrt (<) (ids_of ob) \<and> (\<forall>i \<in> set (ids_of ob). i \<le> ob_seq ob)
     \<and> int (length (ob_rows ob)) \<le> ob_max_rows ob \<and> 0 < ob_max_rows ob"

lemma sort_ids: "sorted_wrt (<) (map row_id rows) \<Longrightarrow> sort_key row_id rows = rows"
  by (rule sort_key_id_if_sorted) (simp add: strict_sorted_iff)

lemma sorted_filter_ids: "sorted_wrt (<) (map row_id rows) \<Longrightarrow> sorted_wrt (<) (map row_id (filter p rows))"
  by (induction rows) auto

lemma without_oldest:
  assumes "sorted_wrt (<) (map row_id rows)" and "0 \<le> n" and "n \<le> int (length rows)"
  shows "without_ids (map row_id (oldest_rows n rows)) rows = drop (nat n) rows"
proof -
  define k where "k = nat n"
  have old: "oldest_rows n rows = take k rows" using assms(1,2) by (simp add: oldest_rows_def sort_ids k_def)
  have "filter (\<lambda>r. row_id r \<notin> set (map row_id (take k rows))) (take k rows @ drop k rows) = drop k rows"
  proof -
    have "row_id r \<notin> row_id ` set (take k rows)" if "r \<in> set (drop k rows)" for r
    proof -
      have "sorted_wrt (<) (map row_id (take k rows @ drop k rows))" using assms(1) by simp
      then have "\<forall>x \<in> set (take k rows). \<forall>y \<in> set (drop k rows). row_id x < row_id y"
        unfolding map_append sorted_wrt_append by auto
      with that show ?thesis by fastforce
    qed
    then have "filter (\<lambda>r. row_id r \<notin> set (map row_id (take k rows))) (drop k rows) = drop k rows"
      by (simp add: filter_id_conv)
    moreover have "filter (\<lambda>r. row_id r \<notin> set (map row_id (take k rows))) (take k rows) = []"
      by (simp add: filter_empty_conv)
    ultimately show ?thesis unfolding filter_append by simp
  qed
  then show ?thesis unfolding without_ids_def old by (simp add: k_def)
qed

definition fresh :: "real \<Rightarrow> outbox \<Rightarrow> outbox_row \<Rightarrow> bool" where
  "fresh now ob r \<longleftrightarrow> (ob_max_age_s ob > 0 \<longrightarrow> \<not> oe_enqueued_at (row_event r) < now - ob_max_age_s ob)"

lemma evict_rows:
  "ob_rows (evict now ob) =
     (let rows1 = filter (fresh now ob) (ob_rows ob); n = int (length rows1) - ob_max_rows ob
      in if n > 0 then without_ids (map row_id (oldest_rows n rows1)) rows1 else rows1)"
proof -
  have "filter (fresh now ob) (ob_rows ob) = (if ob_max_age_s ob > 0
      then filter (\<lambda>r. \<not> oe_enqueued_at (row_event r) < now - ob_max_age_s ob) (ob_rows ob) else ob_rows ob)"
    by (cases "ob_max_age_s ob > 0") (simp_all add: fresh_def [abs_def])
  then show ?thesis by (simp only: evict_def Let_def) simp
qed

text \<open>What \<open>put\<close> leaves: of the old rows and the new one, in order, those not too old, and of these the newest.\<close>

lemma put_rows:
  assumes "outbox_ok ob"
  shows "\<exists>p k. ob_rows (put now event ob) = drop k (filter p (ob_rows ob @ [\<lparr>row_id = ob_seq ob + 1, row_event = event\<rparr>]))
    \<and> (\<not> ob_max_age_s ob > 0 \<longrightarrow> p = (\<lambda>_. True))
    \<and> int k = max 0 (int (length (filter p (ob_rows ob @ [\<lparr>row_id = ob_seq ob + 1, row_event = event\<rparr>]))) - ob_max_rows ob)"
proof -
  let ?rows = "ob_rows ob @ [\<lparr>row_id = ob_seq ob + 1, row_event = event\<rparr>]"
  define p where "p = fresh now ob"
  define rows1 where "rows1 = filter p ?rows"
  define n where "n = int (length rows1) - ob_max_rows ob"
  have "sorted_wrt (<) (map row_id ?rows)" using assms by (auto simp: outbox_ok_def ids_of_def sorted_wrt_append)
  then have "sorted_wrt (<) (map row_id rows1)" unfolding rows1_def by (rule sorted_filter_ids)
  then have drop: "0 \<le> n \<Longrightarrow> without_ids (map row_id (oldest_rows n rows1)) rows1 = drop (nat n) rows1"
    using assms by (intro without_oldest) (simp_all add: n_def outbox_ok_def)
  have "ob_rows (put now event ob) = (if n > 0 then without_ids (map row_id (oldest_rows n rows1)) rows1 else rows1)"
    unfolding put_def evict_rows Let_def by (simp add: rows1_def p_def n_def fresh_def [abs_def])
  then have "ob_rows (put now event ob) = drop (nat n) rows1" using drop by (simp split: if_splits)
  moreover have "int (nat n) = max 0 n" by simp
  moreover have "\<not> ob_max_age_s ob > 0 \<longrightarrow> p = (\<lambda>_. True)" by (auto simp: p_def fresh_def)
  ultimately show ?thesis unfolding n_def rows1_def by blast
qed

lemma put_params: "ob_seq (put now event ob) = ob_seq ob + 1" "ob_max_rows (put now event ob) = ob_max_rows ob"
    "ob_max_age_s (put now event ob) = ob_max_age_s ob"
  by (simp_all add: put_def evict_def Let_def)

lemma put_ids_subset:
  assumes "outbox_ok ob"
  shows "set (ids_of (put now event ob)) \<subseteq> insert (ob_seq ob + 1) (set (ids_of ob))"
proof -
  obtain p k where "ob_rows (put now event ob) = drop k (filter p (ob_rows ob @ [\<lparr>row_id = ob_seq ob + 1, row_event = event\<rparr>]))"
    using put_rows [OF assms] by blast
  then show ?thesis by (auto simp: ids_of_def dest!: in_set_dropD split: if_splits)
qed

lemma put_ok:
  assumes "outbox_ok ob"
  shows "outbox_ok (put now event ob)"
proof -
  let ?rows = "ob_rows ob @ [\<lparr>row_id = ob_seq ob + 1, row_event = event\<rparr>]"
  obtain p k where rows: "ob_rows (put now event ob) = drop k (filter p ?rows)"
    and k: "int k = max 0 (int (length (filter p ?rows)) - ob_max_rows ob)"
    using put_rows [OF assms] by blast
  have "sorted_wrt (<) (map row_id ?rows)" using assms by (auto simp: outbox_ok_def ids_of_def sorted_wrt_append)
  then have "sorted_wrt (<) (drop k (map row_id (filter p ?rows)))" by (intro sorted_wrt_drop sorted_filter_ids)
  then have "sorted_wrt (<) (ids_of (put now event ob))" unfolding ids_of_def rows drop_map .
  moreover have "int (length (ob_rows (put now event ob))) \<le> ob_max_rows ob"
    unfolding rows length_drop using k assms by (simp add: outbox_ok_def split: if_splits)
  moreover have "\<forall>i \<in> set (ids_of (put now event ob)). i \<le> ob_seq ob + 1"
    using put_ids_subset [OF assms] assms by (fastforce simp: outbox_ok_def)
  ultimately show ?thesis using assms by (simp add: outbox_ok_def put_params)
qed

text \<open>Nothing is evicted while there is room and ages do not matter.\<close>

lemma put_keeps:
  assumes "outbox_ok ob" and "\<not> ob_max_age_s ob > 0" and "int (length (ob_rows ob)) < ob_max_rows ob"
  shows "set (ids_of (put now event ob)) = insert (ob_seq ob + 1) (set (ids_of ob))"
proof -
  obtain p k where "ob_rows (put now event ob) = drop k (filter p (ob_rows ob @ [\<lparr>row_id = ob_seq ob + 1, row_event = event\<rparr>]))"
    and "p = (\<lambda>_. True)"
    and "int k = max 0 (int (length (filter p (ob_rows ob @ [\<lparr>row_id = ob_seq ob + 1, row_event = event\<rparr>]))) - ob_max_rows ob)"
    using put_rows [OF assms(1), of now event] assms(2) by blast
  then show ?thesis using assms(3) by (simp add: ids_of_def)
qed

subsection \<open>Order\<close>

definition batch_ids :: "pump \<Rightarrow> int list" where
  "batch_ids s = map row_id (pm_batch s)"

text \<open>
  What is in flight: sent ids are increasing and below the batch, whose ids are increasing; a row of the
  table that is not about to be deleted is above all sent ids, and in the batch or above it.
\<close>

definition fifo_inv :: "pump \<Rightarrow> bool" where
  "fifo_inv s \<longleftrightarrow> outbox_ok (pm_outbox s)
     \<and> sorted_wrt (<) (pm_sent s @ batch_ids s)
     \<and> (\<forall>i \<in> set (pm_sent s @ batch_ids s). i \<le> ob_seq (pm_outbox s))
     \<and> set (pm_acked s) \<subseteq> set (pm_sent s)
     \<and> (\<forall>r \<in> set (ids_of (pm_outbox s)). r \<in> set (pm_acked s) \<or> (\<forall>i \<in> set (pm_sent s). i < r))
     \<and> (\<forall>r \<in> set (ids_of (pm_outbox s)). r \<in> set (pm_acked s) \<or> r \<in> set (batch_ids s) \<or> (\<forall>b \<in> set (batch_ids s). b < r))"

lemma fifo_invI:
  assumes "outbox_ok (pm_outbox s)" and "sorted_wrt (<) (pm_sent s @ batch_ids s)"
    and "\<And>i. i \<in> set (pm_sent s @ batch_ids s) \<Longrightarrow> i \<le> ob_seq (pm_outbox s)"
    and "set (pm_acked s) \<subseteq> set (pm_sent s)"
    and "\<And>r i. r \<in> set (ids_of (pm_outbox s)) \<Longrightarrow> r \<notin> set (pm_acked s) \<Longrightarrow> i \<in> set (pm_sent s) \<Longrightarrow> i < r"
    and "\<And>r b. r \<in> set (ids_of (pm_outbox s)) \<Longrightarrow> r \<notin> set (pm_acked s) \<Longrightarrow> r \<notin> set (batch_ids s) \<Longrightarrow> b \<in> set (batch_ids s) \<Longrightarrow> b < r"
  shows "fifo_inv s"
proof -
  have "\<forall>i \<in> set (pm_sent s @ batch_ids s). i \<le> ob_seq (pm_outbox s)" using assms(3) by blast
  moreover have "\<forall>r \<in> set (ids_of (pm_outbox s)). r \<in> set (pm_acked s) \<or> (\<forall>i \<in> set (pm_sent s). i < r)"
    using assms(5) by blast
  moreover have "\<forall>r \<in> set (ids_of (pm_outbox s)). r \<in> set (pm_acked s) \<or> r \<in> set (batch_ids s) \<or> (\<forall>b \<in> set (batch_ids s). b < r)"
    using assms(6) by blast
  ultimately show ?thesis using assms(1,2,4) unfolding fifo_inv_def by (intro conjI)
qed

lemma fifo_invD:
  assumes "fifo_inv s"
  shows "outbox_ok (pm_outbox s)" and "sorted_wrt (<) (pm_sent s @ batch_ids s)"
    and "i \<in> set (pm_sent s @ batch_ids s) \<Longrightarrow> i \<le> ob_seq (pm_outbox s)"
    and "set (pm_acked s) \<subseteq> set (pm_sent s)"
    and "r \<in> set (ids_of (pm_outbox s)) \<Longrightarrow> r \<notin> set (pm_acked s) \<Longrightarrow> i \<in> set (pm_sent s) \<Longrightarrow> i < r"
    and "r \<in> set (ids_of (pm_outbox s)) \<Longrightarrow> r \<notin> set (pm_acked s) \<Longrightarrow> r \<notin> set (batch_ids s) \<Longrightarrow> b \<in> set (batch_ids s) \<Longrightarrow> b < r"
  using assms unfolding fifo_inv_def by blast+

lemma peek_ids: "outbox_ok ob \<Longrightarrow> \<exists>k. map row_id (peek limit ob) = take k (ids_of ob)"
proof -
  assume ok: "outbox_ok ob"
  then have "sort_key row_id (ob_rows ob) = ob_rows ob" by (intro sort_ids) (simp add: outbox_ok_def ids_of_def)
  then have "map row_id (peek limit ob) = take (if limit < 0 then length (ob_rows ob) else nat limit) (ids_of ob)"
    by (simp add: peek_def oldest_rows_def ids_of_def take_map o_def)
  then show ?thesis by blast
qed

lemma sorted_take_below:
  fixes xs :: "int list"
  assumes "sorted_wrt (<) xs" and "x \<in> set xs" and "x \<notin> set (take k xs)" and "y \<in> set (take k xs)"
  shows "y < x"
proof -
  have "sorted_wrt (<) (take k xs @ drop k xs)" using assms(1) by simp
  moreover have "x \<in> set (drop k xs)" using assms(2,3) set_append [of "take k xs" "drop k xs"] by auto
  ultimately show ?thesis using assms(4) unfolding sorted_wrt_append by blast
qed

lemma ack_ids: "set (ids_of (snd (ack ids ob))) = set (ids_of ob) - set ids"
  by (auto simp: ack_def ids_of_def without_ids_def Let_def)

lemma ack_ok:
  assumes "outbox_ok ob"
  shows "outbox_ok (snd (ack ids ob)) \<and> ob_seq (snd (ack ids ob)) = ob_seq ob"
proof -
  have "length (without_ids ids (ob_rows ob)) \<le> length (ob_rows ob)" by (simp add: without_ids_def)
  then have "int (length (without_ids ids (ob_rows ob))) \<le> ob_max_rows ob" using assms by (simp add: outbox_ok_def)
  moreover have "sorted_wrt (<) (map row_id (without_ids ids (ob_rows ob)))"
    unfolding without_ids_def using assms by (intro sorted_filter_ids) (simp add: outbox_ok_def ids_of_def)
  moreover have "\<forall>i \<in> set (map row_id (without_ids ids (ob_rows ob))). i \<le> ob_seq ob"
    using assms by (auto simp: outbox_ok_def ids_of_def without_ids_def)
  ultimately show ?thesis using assms by (simp add: ack_def Let_def outbox_ok_def ids_of_def)
qed

lemma pump_step_fifo:
  assumes "pump_step limit s s'" and "fifo_inv s"
  shows "fifo_inv s'"
  using assms(1)
proof cases
  case (enqueue now event)
  note D = fifo_invD [OF assms(2)]
  have sub: "set (ids_of (put now event (pm_outbox s))) \<subseteq> insert (ob_seq (pm_outbox s) + 1) (set (ids_of (pm_outbox s)))"
    by (rule put_ids_subset [OF D(1)])
  have below: "i < ob_seq (pm_outbox s) + 1" if "i \<in> set (pm_sent s @ batch_ids s)" for i
    using D(3) [OF that] by simp
  show ?thesis
  proof (rule fifo_invI)
    show "outbox_ok (pm_outbox s')" using put_ok [OF D(1)] by (simp add: enqueue)
    show "sorted_wrt (<) (pm_sent s' @ batch_ids s')" using D(2) by (simp add: enqueue batch_ids_def)
    show "i \<le> ob_seq (pm_outbox s')" if "i \<in> set (pm_sent s' @ batch_ids s')" for i
      using below that by (fastforce simp: enqueue batch_ids_def put_params)
    show "set (pm_acked s') \<subseteq> set (pm_sent s')" using D(4) by (simp add: enqueue)
    show "i < r" if "r \<in> set (ids_of (pm_outbox s'))" "r \<notin> set (pm_acked s')" "i \<in> set (pm_sent s')" for r i
      using that sub below [of i] D(5) [of r i] by (auto simp: enqueue)
    show "b < r" if "r \<in> set (ids_of (pm_outbox s'))" "r \<notin> set (pm_acked s')" "r \<notin> set (batch_ids s')" "b \<in> set (batch_ids s')" for r b
      using that sub below [of b] D(6) [of r b] by (auto simp: enqueue batch_ids_def)
  qed
next
  case poll
  note D = fifo_invD [OF assms(2)]
  obtain k where k: "map row_id (peek limit (pm_outbox s)) = take k (ids_of (pm_outbox s))" using peek_ids [OF D(1)] by blast
  have b: "batch_ids s' = take k (ids_of (pm_outbox s))" and acked: "pm_acked s = []" and same: "pm_outbox s' = pm_outbox s" "pm_sent s' = pm_sent s" "pm_acked s' = pm_acked s"
    using k poll by (simp_all add: batch_ids_def)
  have sorted: "sorted_wrt (<) (ids_of (pm_outbox s))" using D(1) by (simp add: outbox_ok_def)
  show ?thesis
  proof (rule fifo_invI)
    show "outbox_ok (pm_outbox s')" using D(1) by (simp add: same)
    have "i < r" if "i \<in> set (pm_sent s)" "r \<in> set (take k (ids_of (pm_outbox s)))" for i r
      using D(5) [OF in_set_takeD [OF that(2)] _ that(1)] acked by simp
    then show "sorted_wrt (<) (pm_sent s' @ batch_ids s')" using D(2) sorted by (simp add: same b sorted_wrt_append sorted_wrt_take)
    show "i \<le> ob_seq (pm_outbox s')" if "i \<in> set (pm_sent s' @ batch_ids s')" for i
      using that D(1,3) by (auto simp: same b outbox_ok_def dest: in_set_takeD)
    show "set (pm_acked s') \<subseteq> set (pm_sent s')" using D(4) by (simp add: same)
    show "i < r" if "r \<in> set (ids_of (pm_outbox s'))" "r \<notin> set (pm_acked s')" "i \<in> set (pm_sent s')" for r i
      using that D(5) by (simp add: same)
    show "b < r" if "r \<in> set (ids_of (pm_outbox s'))" "r \<notin> set (pm_acked s')" "r \<notin> set (batch_ids s')" "b \<in> set (batch_ids s')" for r b
      using that sorted_take_below [OF sorted] by (simp add: same b)
  qed
next
  case (published r rest)
  note D = fifo_invD [OF assms(2)]
  have batch: "batch_ids s = row_id r # map row_id rest" using published by (simp add: batch_ids_def)
  have b: "batch_ids s' = map row_id rest" using published by (simp add: batch_ids_def)
  have same: "pm_outbox s' = pm_outbox s" "pm_sent s' = pm_sent s @ [row_id r]" "pm_acked s' = pm_acked s @ [row_id r]"
    using published by simp_all
  have sorted: "sorted_wrt (<) ((pm_sent s @ [row_id r]) @ map row_id rest)" using D(2) batch by simp
  show ?thesis
  proof (rule fifo_invI)
    show "outbox_ok (pm_outbox s')" using D(1) by (simp add: same)
    show "sorted_wrt (<) (pm_sent s' @ batch_ids s')" using sorted by (simp only: same b)
    show "i \<le> ob_seq (pm_outbox s')" if "i \<in> set (pm_sent s' @ batch_ids s')" for i
      using that D(3) [of i] batch by (auto simp: same b)
    show "set (pm_acked s') \<subseteq> set (pm_sent s')" using D(4) by (auto simp: same)
    show "i < q" if "q \<in> set (ids_of (pm_outbox s'))" "q \<notin> set (pm_acked s')" "i \<in> set (pm_sent s')" for q i
      using that D(5) [of q i] D(6) [of q "row_id r"] sorted batch by (auto simp: same sorted_wrt_append)
    show "x < q" if "q \<in> set (ids_of (pm_outbox s'))" "q \<notin> set (pm_acked s')" "q \<notin> set (batch_ids s')" "x \<in> set (batch_ids s')" for q x
      using that D(6) [of q x] batch by (auto simp: same b)
  qed
next
  case publish_failed
  note D = fifo_invD [OF assms(2)]
  have same: "pm_outbox s' = pm_outbox s" "pm_sent s' = pm_sent s" "pm_acked s' = pm_acked s" "batch_ids s' = []"
    using publish_failed by (simp_all add: batch_ids_def)
  show ?thesis
    by (rule fifo_invI) (use D(1,2,3,4,5) in \<open>auto simp: same sorted_wrt_append\<close>)
next
  case acknowledge
  note D = fifo_invD [OF assms(2)]
  have same: "pm_outbox s' = snd (ack (pm_acked s) (pm_outbox s))" "pm_sent s' = pm_sent s" "pm_acked s' = []" "batch_ids s' = []" "batch_ids s = []"
    using acknowledge by (simp_all add: batch_ids_def)
  show ?thesis
    by (rule fifo_invI) (use D(2,3,5) ack_ok [OF D(1)] in \<open>auto simp: same ack_ids\<close>)
next
  case restart
  then show ?thesis using fifo_invD(1) [OF assms(2)] by (intro fifo_invI) (simp_all add: batch_ids_def)
qed

subsection \<open>No loss\<close>

definition loss_inv :: "outbox \<Rightarrow> pump \<Rightarrow> bool" where
  "loss_inv ob s \<longleftrightarrow> set (ids_of (pm_outbox s)) \<subseteq> set (pm_accepted s)
     \<and> set (pm_accepted s) \<subseteq> set (ids_of (pm_outbox s)) \<union> pm_delivered s \<union> pm_evicted s
     \<and> set (pm_acked s) \<subseteq> pm_delivered s
     \<and> ob_max_rows (pm_outbox s) = ob_max_rows ob \<and> ob_max_age_s (pm_outbox s) = ob_max_age_s ob
     \<and> (\<not> ob_max_age_s ob > 0 \<and> int (length (pm_accepted s)) \<le> ob_max_rows ob \<longrightarrow> pm_evicted s = {})"

lemma rows_le_accepted:
  assumes "outbox_ok ob" and "set (ids_of ob) \<subseteq> set xs"
  shows "length (ob_rows ob) \<le> length xs"
proof -
  have "distinct (ids_of ob)" using assms(1) by (simp add: outbox_ok_def strict_sorted_iff)
  then have "length (ob_rows ob) = card (set (ids_of ob))" by (metis distinct_card ids_of_def length_map)
  also have "\<dots> \<le> length xs" using card_mono [OF finite_set assms(2)] card_length [of xs] by linarith
  finally show ?thesis .
qed

lemma pump_step_loss:
  assumes "pump_step limit s s'" and "outbox_ok (pm_outbox s)" and "loss_inv ob s"
  shows "loss_inv ob s'"
  using assms(1)
proof cases
  case (enqueue now event)
  let ?ob' = "put now event (pm_outbox s)" and ?new = "ob_seq (pm_outbox s) + 1"
  have "pm_evicted s' = {}" if "\<not> ob_max_age_s ob > 0" "int (length (pm_accepted s')) \<le> ob_max_rows ob"
  proof -
    have "length (ob_rows (pm_outbox s)) \<le> length (pm_accepted s)"
      using assms(3) by (intro rows_le_accepted [OF assms(2)]) (simp add: loss_inv_def)
    then have "int (length (ob_rows (pm_outbox s))) < ob_max_rows (pm_outbox s)"
      using that(2) assms(3) enqueue by (simp add: loss_inv_def)
    with put_keeps [OF assms(2)] that assms(3) have "set (ids_of ?ob') = insert ?new (set (ids_of (pm_outbox s)))"
      by (simp add: loss_inv_def)
    with that enqueue assms(3) show ?thesis by (simp add: loss_inv_def)
  qed
  then show ?thesis
    using assms(3) put_ids_subset [OF assms(2), of now event] enqueue by (auto simp: loss_inv_def put_params)
next
  case acknowledge
  have "ob_max_rows (snd (ack ids ob)) = ob_max_rows ob" "ob_max_age_s (snd (ack ids ob)) = ob_max_age_s ob" for ids ob
    by (simp_all add: ack_def Let_def)
  with acknowledge assms(3) show ?thesis by (auto simp: loss_inv_def ack_ids)
next
  case (published r rest)
  with assms(3) show ?thesis by (auto simp: loss_inv_def)
qed (use assms(3) in \<open>simp_all add: loss_inv_def\<close>)

text \<open>C6: however the threads interleave, the connection fails and the process restarts: the outbox never exceeds its
  bound; the events published since the start of the process are in the order in which they were
  enqueued, and none is published twice; every event ever enqueued is still stored, or was published, or
  was evicted; and without an age limit nothing is evicted before the bound is reached.\<close>

theorem outbox_in_order_without_loss:
  assumes "new_outbox max_rows max_age = Inr ob" and "pump_reachable limit ob s"
  shows "int (length (ob_rows (pm_outbox s))) \<le> max_rows \<and> sorted_wrt (<) (pm_sent s)
    \<and> set (pm_accepted s) \<subseteq> set (ids_of (pm_outbox s)) \<union> pm_delivered s \<union> pm_evicted s
    \<and> (max_age \<le> 0 \<and> int (length (pm_accepted s)) \<le> max_rows \<longrightarrow> pm_evicted s = {})"
proof -
  have ob: "ob_rows ob = []" "ob_max_rows ob = max_rows" "ob_max_age_s ob = max_age" "0 < max_rows" "ob_seq ob = 0"
    using assms(1) by (auto simp: new_outbox_def split: if_splits)
  from assms(2) have "fifo_inv s \<and> loss_inv ob s"
  proof induction
    case start
    have "outbox_ok ob" using ob by (simp add: outbox_ok_def ids_of_def)
    then show ?case by (simp add: fifo_inv_def loss_inv_def idle_pump_def batch_ids_def ids_of_def ob)
  next
    case (step s s')
    then show ?case using pump_step_fifo pump_step_loss fifo_invD(1) by blast
  qed
  then show ?thesis using ob fifo_invD(1,2) [of s] by (auto simp: loss_inv_def outbox_ok_def sorted_wrt_append)
qed

text \<open>Two events, the first one published, the second refused.\<close>

definition demo_event :: out_event where
  "demo_event = \<lparr>oe_kind = ''status'', oe_topic = [], oe_payload = [], oe_enqueued_at = 0\<rparr>"

lemma enqueue_reachable:
  assumes "pump_reachable limit ob s"
  shows "\<exists>s'. pump_reachable limit ob s' \<and> pm_outbox s' = put now event (pm_outbox s) \<and>
     pm_accepted s' = pm_accepted s @ [ob_seq (pm_outbox s) + 1] \<and> pm_sent s' = pm_sent s \<and> pm_batch s' = pm_batch s \<and> pm_acked s' = pm_acked s"
  by (rule exI, rule conjI, rule pump_reachable.step [OF assms pump_step.enqueue [of limit s now event]]) simp

theorem outbox_in_order_without_loss_witness:
  "\<exists>ob s. new_outbox 2 0 = Inr ob \<and> pump_reachable 10 ob s \<and> pm_sent s = [1] \<and> pm_accepted s = [1, 2]
     \<and> ids_of (pm_outbox s) = [2] \<and> pm_evicted s = {}"
proof -
  obtain ob where new: "new_outbox 2 0 = Inr ob" by (simp add: new_outbox_def)
  then have ob: "ob_rows ob = []" "ob_seq ob = 0" "ob_max_rows ob = 2" "ob_max_age_s ob = 0" by (auto simp: new_outbox_def)
  let ?p = "put 0 demo_event"
  have rows: "ob_rows (?p (?p ob)) = [\<lparr>row_id = 1, row_event = demo_event\<rparr>, \<lparr>row_id = 2, row_event = demo_event\<rparr>]"
    by (simp add: put_def evict_def ob)
  have "\<exists>s. pump_reachable 10 ob s \<and> pm_sent s = [] \<and> pm_accepted s = [1, 2] \<and> pm_outbox s = ?p (?p ob) \<and> pm_batch s = [] \<and> pm_acked s = []"
  proof -
    obtain s1 where s1: "pump_reachable 10 ob s1" "pm_outbox s1 = ?p ob" "pm_accepted s1 = [1]" "pm_sent s1 = []" "pm_batch s1 = []" "pm_acked s1 = []"
      using enqueue_reachable [OF pump_reachable.start [of 10 ob], of 0 demo_event] by (auto simp: idle_pump_def ob)
    from enqueue_reachable [OF s1(1), of 0 demo_event] s1(2-6) show ?thesis by (auto simp: put_params ob)
  qed
  then obtain s2 where s2: "pump_reachable 10 ob s2" "pm_sent s2 = []" "pm_accepted s2 = [1, 2]" "pm_outbox s2 = ?p (?p ob)" "pm_batch s2 = []" "pm_acked s2 = []"
    by blast
  let ?s3 = "s2\<lparr>pm_batch := peek 10 (pm_outbox s2)\<rparr>"
  have r3: "pump_reachable 10 ob ?s3" by (rule pump_reachable.step [OF s2(1) pump_step.poll [OF s2(5,6)]])
  obtain r1 r2 where batch: "pm_batch ?s3 = [r1, r2]" and ids: "row_id r1 = 1"
    by (simp add: s2 peek_def oldest_rows_def rows)
  let ?s4 = "?s3\<lparr>pm_batch := [r2], pm_acked := pm_acked ?s3 @ [row_id r1], pm_sent := pm_sent ?s3 @ [row_id r1],
      pm_delivered := insert (row_id r1) (pm_delivered ?s3)\<rparr>"
  have r4: "pump_reachable 10 ob ?s4" by (rule pump_reachable.step [OF r3 pump_step.published [OF batch]])
  let ?s5 = "?s4\<lparr>pm_batch := []\<rparr>"
  have r5: "pump_reachable 10 ob ?s5" by (rule pump_reachable.step [OF r4 pump_step.publish_failed [of _ r2 "[]"]]) simp
  let ?s6 = "?s5\<lparr>pm_outbox := snd (ack (pm_acked ?s5) (pm_outbox ?s5)), pm_acked := []\<rparr>"
  have r6: "pump_reachable 10 ob ?s6" by (rule pump_reachable.step [OF r5 pump_step.acknowledge]) simp_all
  have "ids_of (pm_outbox ?s6) = [2]" by (simp add: s2 ids ack_def ids_of_def without_ids_def rows)
  moreover have "pm_evicted ?s6 = {}" using outbox_in_order_without_loss [OF new r6] by (simp add: s2)
  ultimately show ?thesis using new r6 s2 ids by (intro exI [of _ ob] exI [of _ ?s6]) simp
qed

section \<open>Reconnection\<close>

text \<open>
  \<open>_full_jitter\<close>: the power of two is an integer, which its product with the float \<open>base\<close> first converts;
  \<open>u\<close> is the number that \<open>random.uniform\<close> draws from the unit interval.
\<close>

definition full_jitter :: "int \<Rightarrow> real \<Rightarrow> real \<Rightarrow> real \<Rightarrow> py_exn + real" where
  "full_jitter attempt base cap u =
     (let n = 2 ^ nat (max 0 (attempt - 1)) :: int in
      if float_limit \<le> n then Inl OverflowError else Inr (u * min cap (base * of_int n)))"

text \<open>The loop: each pass connects or fails; the result is the delays slept, and the exception that ends the thread.\<close>

datatype attempt_outcome = Connects | Fails real

fun reconnect_loop :: "real \<Rightarrow> real \<Rightarrow> attempt_outcome list \<Rightarrow> int \<Rightarrow> real list \<times> py_exn option" where
  "reconnect_loop base cap [] attempt = ([], None)"
| "reconnect_loop base cap (Connects # outs) attempt = reconnect_loop base cap outs 0"
| "reconnect_loop base cap (Fails u # outs) attempt =
     (case full_jitter (attempt + 1) base cap u of
        Inl e \<Rightarrow> ([], Some e)
      | Inr delay \<Rightarrow> (let (delays, exn) = reconnect_loop base cap outs (attempt + 1) in (delay # delays, exn)))"

text \<open>The longest run of failures, of which the first \<open>k\<close> are over.\<close>

fun longest_outage :: "nat \<Rightarrow> attempt_outcome list \<Rightarrow> nat" where
  "longest_outage k [] = k"
| "longest_outage k (Connects # outs) = max k (longest_outage 0 outs)"
| "longest_outage k (Fails _ # outs) = longest_outage (k + 1) outs"

lemma longest_outage_ge: "k \<le> longest_outage k outs"
  by (induction k outs rule: longest_outage.induct) auto

lemma float_limit_power: "float_limit \<le> 2 ^ k \<longleftrightarrow> 1024 \<le> k"
proof
  assume "1024 \<le> k"
  then have "(2 :: int) ^ 1024 \<le> 2 ^ k" by (intro power_increasing) simp_all
  then show "float_limit \<le> 2 ^ k" by (simp add: float_limit_def)
next
  assume le: "float_limit \<le> 2 ^ k"
  show "1024 \<le> k"
  proof (rule ccontr)
    assume "\<not> 1024 \<le> k"
    then have "(2 :: int) ^ k \<le> 2 ^ 1023" by (intro power_increasing) simp_all
    with le show False by (simp add: float_limit_def)
  qed
qed

lemma full_jitter_eq:
  "full_jitter (int k + 1) base cap u = (if 1024 \<le> k then Inl OverflowError else Inr (u * min cap (base * 2 ^ k)))"
  by (simp add: full_jitter_def float_limit_power)

lemma reconnect_loop_spec:
  assumes "0 \<le> base" and "0 \<le> cap" and "\<forall>u. Fails u \<in> set outs \<longrightarrow> 0 \<le> u \<and> u \<le> 1" and "k \<le> 1024"
  shows "(snd (reconnect_loop base cap outs (int k)) = None \<longleftrightarrow> longest_outage k outs \<le> 1024)
    \<and> (\<forall>d \<in> set (fst (reconnect_loop base cap outs (int k))). 0 \<le> d \<and> d \<le> cap)"
  using assms(3,4)
proof (induction k outs rule: longest_outage.induct)
  case (2 k outs)
  then show ?case by simp
next
  case (3 k u outs)
  show ?case
  proof (cases "k = 1024")
    case True
    have "full_jitter (int k + 1) base cap u = Inl OverflowError" unfolding full_jitter_eq using True by simp
    moreover have "\<not> longest_outage (k + 1) outs \<le> 1024" using longest_outage_ge [of "k + 1" outs] True by simp
    ultimately show ?thesis by simp
  next
    case False
    have IH: "(snd (reconnect_loop base cap outs (int (k + 1))) = None \<longleftrightarrow> longest_outage (k + 1) outs \<le> 1024)
        \<and> (\<forall>d \<in> set (fst (reconnect_loop base cap outs (int (k + 1)))). 0 \<le> d \<and> d \<le> cap)"
      using 3 False by simp
    have u: "0 \<le> u" "u \<le> 1" using "3.prems"(1) by auto
    have m: "0 \<le> min cap (base * 2 ^ k)" "min cap (base * 2 ^ k) \<le> cap" using assms(1,2) by simp_all
    then have d: "0 \<le> u * min cap (base * 2 ^ k)" "u * min cap (base * 2 ^ k) \<le> cap"
      using u mult_left_le_one_le [of "min cap (base * 2 ^ k)" u] by (auto intro: order_trans)
    have "full_jitter (int k + 1) base cap u = Inr (u * min cap (base * 2 ^ k))"
      using False "3.prems"(2) by (simp add: full_jitter_eq)
    with IH d show ?thesis by (simp add: case_prod_beta add.commute)
  qed
qed simp

text \<open>Every delay between two attempts to connect is between zero and the configured maximum; and the reconnect
  thread survives exactly as long as no outage takes more than 1024 attempts in a row: at the next one the
  power of two no longer fits a float and the exception, which nothing catches, ends the thread.\<close>

theorem reconnect_backoff:
  assumes "0 \<le> base" and "0 \<le> cap" and "\<forall>u. Fails u \<in> set outs \<longrightarrow> 0 \<le> u \<and> u \<le> 1"
  shows "(\<forall>d \<in> set (fst (reconnect_loop base cap outs 0)). 0 \<le> d \<and> d \<le> cap)
    \<and> (snd (reconnect_loop base cap outs 0) = None \<longleftrightarrow> longest_outage 0 outs \<le> 1024)"
  using reconnect_loop_spec [OF assms, of 0] by simp

lemma longest_outage_fails: "longest_outage k (map Fails us) = k + length us"
  by (induction us arbitrary: k) auto

theorem reconnect_backoff_witness:
  "snd (reconnect_loop 1 60 (map (\<lambda>_. Fails (1 / 2)) [0..<1024]) 0) = None
    \<and> snd (reconnect_loop 1 60 (map (\<lambda>_. Fails (1 / 2)) [0..<1025]) 0) \<noteq> None"
proof -
  define outage :: "nat \<Rightarrow> attempt_outcome list" where "outage n = map Fails (replicate n (1 / 2))" for n
  have "map (\<lambda>_. Fails (1 / 2)) [0..<n] = outage n" for n
    unfolding outage_def map_replicate_const map_replicate length_upt by simp
  moreover have "snd (reconnect_loop 1 60 (outage n) 0) = None \<longleftrightarrow> n \<le> 1024" for n
  proof -
    have "\<forall>u. Fails u \<in> set (outage n) \<longrightarrow> 0 \<le> u \<and> u \<le> 1" by (auto simp: outage_def)
    moreover have "longest_outage 0 (outage n) = n" unfolding outage_def longest_outage_fails by simp
    ultimately show ?thesis using reconnect_backoff [of 1 60 "outage n"] by simp
  qed
  ultimately show ?thesis by (simp only:) simp
qed

section \<open>The tick thread is the tracker's tick\<close>

definition tag_read_event :: "edge_config \<Rightarrow> readings \<Rightarrow> string \<Rightarrow> presence_ev \<Rightarrow> presence_extras \<Rightarrow> out_event" where
  "tag_read_event config rd tp ev px =
     \<lparr>oe_kind = ''tag-reads'', oe_topic = tp, oe_payload = presence_payload config rd ev px, oe_enqueued_at = rd_enqueued rd\<rparr>"

lemma tick_keys_spec:
  assumes "topic config ''tag-reads'' = Inr tp"
  shows "tick_keys config rds now keys ag =
    (None, ag\<lparr>ea_tracker := (ea_tracker ag)\<lparr>tr_present := fold dict_pop keys (tr_present (ea_tracker ag))\<rparr>,
       ea_outbox := fold (\<lambda>key. put (rd_evict (rds key)) (tag_read_event config (rds key) tp (exit_event now key) no_extras)) keys (ea_outbox ag)\<rparr>)"
  using assms by (induction keys arbitrary: ag) (simp_all add: enqueue_presence_def enqueue_def tag_read_event_def)

text \<open>
  A pass of the tick thread that can name its topic does to the tracker what \<open>tick\<close> does, and enqueues
  exactly its events, in their order.
\<close>

lemma tick_pass_spec:
  assumes "topic config ''tag-reads'' = Inr tp"
  shows "fst (tick_pass config rds now ag) = None"
    and "ea_tracker (snd (tick_pass config rds now ag)) = snd (tick now (ea_tracker ag))"
    and "ea_outbox (snd (tick_pass config rds now ag)) =
      fold (\<lambda>ev. put (rd_evict (rds (pv_key ev))) (tag_read_event config (rds (pv_key ev)) tp ev no_extras))
        (fst (tick now (ea_tracker ag))) (ea_outbox ag)"
  unfolding tick_pass_def tick_keys_spec [OF assms] by (simp_all add: tick_def Let_def fold_map o_def exit_event_def)

end
