(* ===== verification/Consolidation.thy ===== *)
theory Consolidation
  imports Overlapping
begin

text \<open>
  Asset state consolidation: the fusion of an asset's reads (\<open>src/tagpulse/services/consolidation.py\<close>) and the
  resolution of raw reads to a frame and a zone
  (\<open>src/tagpulse/repositories/timescaledb/consolidation_source.py\<close>).  The reference definition \<open>support\<close> sums
  the weights of the reads that vote for a (frame, zone); the loop's buckets hold exactly these sums.
\<close>

section \<open>Data\<close>

record sla_config =
  sla_temp_min :: "real option"
  sla_temp_max :: "real option"
  sla_humidity_max :: "real option"
  excursion_tolerance_s :: int

record fusion_strategy =
  half_life_s :: real
  lookback_s :: real
  rssi_floor_dbm :: "real option"
  min_reads :: int
  fs_sla :: "sla_config option"

record resolved_read =
  rr_asset_id :: uuid
  rr_tag_key :: string
  rr_ts :: datetime
  rr_read_count :: int
  rr_rssi :: "real option"
  rr_frame :: string
  rr_zone_id :: "uuid option"
  rr_site_id :: "uuid option"
  rr_lat :: "real option"
  rr_lon :: "real option"
  rr_x :: "real option"
  rr_y :: "real option"
  rr_temperature_c :: "real option"
  rr_humidity_pct :: "real option"

record snapshot =
  ss_asset_id :: uuid
  ss_time :: datetime
  ss_frame :: string
  ss_zone_id :: "uuid option"
  ss_site_id :: "uuid option"
  ss_lat :: "real option"
  ss_lon :: "real option"
  ss_x :: "real option"
  ss_y :: "real option"
  ss_temperature_c :: "real option"
  ss_humidity_pct :: "real option"
  ss_sample_count :: nat
  ss_tag_count :: nat
  ss_confidence :: real

section \<open>The fusion\<close>

definition LOCATING_FRAMES :: "string set" where
  "LOCATING_FRAMES = {''reader'', ''floor'', ''geo''}"

definition decay :: "real \<Rightarrow> real \<Rightarrow> real" where
  "decay age_s half_life = (1 / 2) powr (max 0 age_s / half_life)"

definition weighted_mean :: "(real \<times> real) list \<Rightarrow> real option" where
  "weighted_mean pairs =
     (let t = sum_list (map snd pairs) in
      if t \<le> 0 then None else Some (sum_list (map (\<lambda>(v, w). v * w) pairs) / t))"

text \<open>\<open>max(xs, key=f)\<close>: the first of the largest.\<close>

fun max_by :: "('a \<Rightarrow> 'b::linorder) \<Rightarrow> 'a \<Rightarrow> 'a list \<Rightarrow> 'a" where
  "max_by f best [] = best"
| "max_by f best (x # xs) = max_by f (if f best < f x then x else best) xs"

definition age_of :: "datetime \<Rightarrow> resolved_read \<Rightarrow> real" where
  "age_of now r = total_seconds (now - rr_ts r)"

definition weight_of_read :: "fusion_strategy \<Rightarrow> datetime \<Rightarrow> resolved_read \<Rightarrow> real" where
  "weight_of_read config now r =
     (let rc = (if rr_read_count r \<ge> 1 then rr_read_count r else 1) in
      if half_life_s config \<le> 0 then of_int rc else of_int rc * decay (age_of now r) (half_life_s config))"

record vote_bucket =
  vb_weight :: real
  vb_newest :: datetime
  vb_site_id :: "uuid option"
  vb_reads :: "resolved_read list"

type_synonym vote_key = "string \<times> uuid option"

definition locates :: "fusion_strategy \<Rightarrow> resolved_read \<Rightarrow> bool" where
  "locates config r \<longleftrightarrow> rr_frame r \<in> LOCATING_FRAMES \<and>
     \<not> (case (rssi_floor_dbm config, rr_rssi r) of (Some lo, Some s) \<Rightarrow> s < lo | _ \<Rightarrow> False)"

definition key_of_read :: "resolved_read \<Rightarrow> vote_key" where
  "key_of_read r = (rr_frame r, rr_zone_id r)"

definition vote :: "fusion_strategy \<Rightarrow> datetime \<Rightarrow> resolved_read \<Rightarrow> (vote_key, vote_bucket) pydict \<times> real
    \<Rightarrow> (vote_key, vote_bucket) pydict \<times> real" where
  "vote config now r = (\<lambda>(buckets, located_weight).
     if \<not> locates config r then (buckets, located_weight)
     else (let w = weight_of_read config now r in
       (dict_set (key_of_read r)
          (case map_of buckets (key_of_read r) of
             None \<Rightarrow> \<lparr>vb_weight = 0 + w, vb_newest = rr_ts r, vb_site_id = rr_site_id r, vb_reads = [r]\<rparr>
           | Some b \<Rightarrow> \<lparr>vb_weight = vb_weight b + w, vb_newest = (if rr_ts r > vb_newest b then rr_ts r else vb_newest b),
               vb_site_id = rr_site_id r, vb_reads = vb_reads b @ [r]\<rparr>) buckets,
        located_weight + w)))"

text \<open>The weighted mean of a field over the reads that carry it.\<close>

definition mean_of :: "fusion_strategy \<Rightarrow> datetime \<Rightarrow> (resolved_read \<Rightarrow> real option) \<Rightarrow> resolved_read list \<Rightarrow> real option" where
  "mean_of config now f reads =
     weighted_mean (List.map_filter (\<lambda>r. map_option (\<lambda>v. (v, weight_of_read config now r)) (f r)) reads)"

text \<open>Steps 1 and 2: the window, and for a half-life of zero the freshest read alone.\<close>

definition in_window :: "fusion_strategy \<Rightarrow> datetime \<Rightarrow> resolved_read list \<Rightarrow> resolved_read list" where
  "in_window config now reads = filter (\<lambda>r. age_of now r \<le> lookback_s config) reads"

definition kept_reads :: "fusion_strategy \<Rightarrow> datetime \<Rightarrow> resolved_read list \<Rightarrow> resolved_read list" where
  "kept_reads config now reads =
     (if half_life_s config \<le> 0
      then (case in_window config now reads of [] \<Rightarrow> [] | r # rs \<Rightarrow> [max_by rr_ts r rs])
      else in_window config now reads)"

definition freshness :: "fusion_strategy \<Rightarrow> datetime \<Rightarrow> resolved_read list \<Rightarrow> real" where
  "freshness config now kept =
     (if half_life_s config \<le> 0 then 1
      else if kept = [] then 0
      else sum_list (map (\<lambda>r. decay (age_of now r) (half_life_s config)) kept) / of_nat (length kept))"

definition consolidate :: "resolved_read list \<Rightarrow> uuid \<Rightarrow> datetime \<Rightarrow> fusion_strategy \<Rightarrow> snapshot option" where
  "consolidate reads asset_id now config =
     (if int (length (in_window config now reads)) < min_reads config then None
      else (let kept = kept_reads config now reads;
                (buckets, located_weight) = fold (vote config now) kept ([], 0);
                environment =
                  \<lparr>ss_asset_id = asset_id, ss_time = now, ss_frame = ''none'', ss_zone_id = None, ss_site_id = None,
                   ss_lat = None, ss_lon = None, ss_x = None, ss_y = None,
                   ss_temperature_c = mean_of config now rr_temperature_c kept,
                   ss_humidity_pct = mean_of config now rr_humidity_pct kept,
                   ss_sample_count = length kept, ss_tag_count = card (rr_tag_key ` set kept), ss_confidence = 0\<rparr>
        in case buckets of
             [] \<Rightarrow> Some environment
           | b0 # bs \<Rightarrow>
               (let ((frame, zone_id), win) = max_by (\<lambda>(_, b). (vb_weight b, vb_newest b)) b0 bs;
                    location_share = (if located_weight > 0 then vb_weight win / located_weight else 0)
                in Some (environment\<lparr>ss_frame := frame, ss_zone_id := zone_id, ss_site_id := vb_site_id win,
                     ss_lat := mean_of config now rr_lat (vb_reads win), ss_lon := mean_of config now rr_lon (vb_reads win),
                     ss_x := mean_of config now rr_x (vb_reads win), ss_y := mean_of config now rr_y (vb_reads win),
                     ss_confidence := round_nd 2 (max 0 (min 1 (location_share * freshness config now kept)))\<rparr>))))"

section \<open>Resolution of raw reads\<close>

record raw_read =
  rc_asset_id :: uuid
  rc_tag_key :: string
  rc_reader_id :: uuid
  rc_ts :: datetime
  rc_rssi :: "real option"
  rc_lat :: "real option"
  rc_lon :: "real option"
  rc_sensor_data :: "jobj option"

text \<open>A number of the sensor data; JSONB stores no NaN and no infinity, a number beyond the floats is an integer.\<close>

definition num_field :: "jobj option \<Rightarrow> string \<Rightarrow> py_exn + real option" where
  "num_field sensor_data key =
     (case sensor_data of
        None \<Rightarrow> Inr None
      | Some d \<Rightarrow> if d = [] then Inr None
          else (case jget d key of
              JInt i \<Rightarrow> map_sum id Some (to_real (JInt i))
            | JFloat x \<Rightarrow> map_sum id Some (to_real (JFloat x))
            | _ \<Rightarrow> Inr None))"

definition read_count_of :: "jobj option \<Rightarrow> py_exn + int" where
  "read_count_of sensor_data =
     and_then (num_field sensor_data ''read_count'') (\<lambda>v. case v of
       None \<Rightarrow> Inr 1
     | Some x \<Rightarrow> Inr (if py_trunc x \<ge> 1 then py_trunc x else 1))"

definition resolve_one :: "raw_read \<Rightarrow> zone_candidate list \<Rightarrow> (uuid, uuid) pydict \<Rightarrow> py_exn + resolved_read" where
  "resolve_one raw zones site_by_zone =
     and_then (attributable_zones_for_read
         \<lparr>ar_asset_id = rc_asset_id raw, ar_reader_id = rc_reader_id raw, ar_timestamp = rc_ts raw,
          ar_signal_strength = rc_rssi raw, ar_latitude = rc_lat raw, ar_longitude = rc_lon raw\<rparr> zones) (\<lambda>matched.
     and_then (read_count_of (rc_sensor_data raw)) (\<lambda>count.
     and_then (num_field (rc_sensor_data raw) ''temperature_c'') (\<lambda>temperature.
     and_then (num_field (rc_sensor_data raw) ''humidity_pct'') (\<lambda>humidity.
       let chosen = (case filter (\<lambda>z. zc_kind z = ''reader_bound'') matched of
             z # _ \<Rightarrow> Some z | [] \<Rightarrow> (case matched of [] \<Rightarrow> None | z # _ \<Rightarrow> Some z));
           frame = (case chosen of
             Some z \<Rightarrow> if zc_kind z = ''reader_bound'' then ''reader'' else ''geo''
           | None \<Rightarrow> if rc_lat raw \<noteq> None \<and> rc_lon raw \<noteq> None then ''geo'' else ''none'')
       in Inr \<lparr>rr_asset_id = rc_asset_id raw, rr_tag_key = rc_tag_key raw, rr_ts = rc_ts raw, rr_read_count = count,
            rr_rssi = rc_rssi raw, rr_frame = frame, rr_zone_id = map_option zc_id chosen,
            rr_site_id = (case chosen of None \<Rightarrow> None | Some z \<Rightarrow> map_of site_by_zone (zc_id z)),
            rr_lat = rc_lat raw, rr_lon = rc_lon raw, rr_x = None, rr_y = None,
            rr_temperature_c = temperature, rr_humidity_pct = humidity\<rparr>))))"

fun build_resolved_reads ::
    "zone_candidate list \<Rightarrow> (uuid, uuid) pydict \<Rightarrow> raw_read list \<Rightarrow> (uuid, resolved_read list) pydict
      \<Rightarrow> py_exn + (uuid, resolved_read list) pydict" where
  "build_resolved_reads zones site_by_zone [] out = Inr out"
| "build_resolved_reads zones site_by_zone (raw # raws) out =
     and_then (resolve_one raw zones site_by_zone) (\<lambda>r.
       build_resolved_reads zones site_by_zone raws
         (dict_set (rc_asset_id raw) ((case map_of out (rc_asset_id raw) of None \<Rightarrow> [] | Some rs \<Rightarrow> rs) @ [r]) out))"

section \<open>The vote\<close>

definition support :: "fusion_strategy \<Rightarrow> datetime \<Rightarrow> resolved_read list \<Rightarrow> vote_key \<Rightarrow> real" where
  "support config now reads key =
     sum_list (map (weight_of_read config now) (filter (\<lambda>r. locates config r \<and> key_of_read r = key) reads))"

lemma weight_of_read_pos: "0 < weight_of_read config now r"
  by (simp add: weight_of_read_def Let_def decay_def)

lemma support_snoc:
  "support config now (rs @ [r]) key = support config now rs key +
     (if locates config r \<and> key_of_read r = key then weight_of_read config now r else 0)"
  by (simp add: support_def)

lemma support_pos: "r \<in> set reads \<Longrightarrow> locates config r \<Longrightarrow> 0 < support config now reads (key_of_read r)"
proof -
  assume "r \<in> set reads" and "locates config r"
  then have "r \<in> set (filter (\<lambda>q. locates config q \<and> key_of_read q = key_of_read r) reads)" by simp
  then have "weight_of_read config now r \<le> support config now reads (key_of_read r)"
    unfolding support_def by (intro member_le_sum_list) (auto intro: less_imp_le weight_of_read_pos)
  then show ?thesis using weight_of_read_pos less_le_trans by blast
qed

lemma support_absent: "\<forall>r \<in> set reads. \<not> (locates config r \<and> key_of_read r = key) \<Longrightarrow> support config now reads key = 0"
proof -
  assume "\<forall>r \<in> set reads. \<not> (locates config r \<and> key_of_read r = key)"
  then have "filter (\<lambda>r. locates config r \<and> key_of_read r = key) reads = []" by (simp add: filter_empty_conv)
  then show ?thesis by (simp add: support_def)
qed

text \<open>The loop invariant: each bucket is the support of its key, and the total is that of all.\<close>

definition votes_for :: "fusion_strategy \<Rightarrow> vote_key \<Rightarrow> resolved_read \<Rightarrow> bool" where
  "votes_for config k r \<longleftrightarrow> locates config r \<and> key_of_read r = k"

definition bucket_ok :: "fusion_strategy \<Rightarrow> datetime \<Rightarrow> resolved_read list \<Rightarrow> vote_key \<Rightarrow> vote_bucket option \<Rightarrow> bool" where
  "bucket_ok config now rs k ob \<longleftrightarrow>
     (case ob of
        None \<Rightarrow> filter (votes_for config k) rs = []
      | Some b \<Rightarrow> vb_weight b = support config now rs k \<and> vb_reads b = filter (votes_for config k) rs \<and> vb_reads b \<noteq> [])"

definition vote_inv :: "fusion_strategy \<Rightarrow> datetime \<Rightarrow> resolved_read list \<Rightarrow> (vote_key, vote_bucket) pydict \<times> real \<Rightarrow> bool" where
  "vote_inv config now rs = (\<lambda>(buckets, located_weight).
     wf_dict buckets \<and> located_weight = sum_list (map (weight_of_read config now) (filter (locates config) rs))
     \<and> (\<forall>k. bucket_ok config now rs k (map_of buckets k)))"

lemma bucket_ok_other: "\<not> votes_for config k r \<Longrightarrow> bucket_ok config now (rs @ [r]) k ob = bucket_ok config now rs k ob"
  by (auto simp: bucket_ok_def support_snoc votes_for_def split: option.split)

lemma vote_inv_step:
  assumes "vote_inv config now rs st"
  shows "vote_inv config now (rs @ [r]) (vote config now r st)"
proof -
  obtain bs lw where st: "st = (bs, lw)" by (cases st)
  have wf: "wf_dict bs" and lw: "lw = sum_list (map (weight_of_read config now) (filter (locates config) rs))"
    and ok: "bucket_ok config now rs k (map_of bs k)" for k
    using assms unfolding st vote_inv_def by blast+
  show ?thesis
  proof (cases "locates config r")
    case False
    have "bucket_ok config now (rs @ [r]) k (map_of bs k)" for k
      using ok [of k] bucket_ok_other [of config k r] False by (simp add: votes_for_def)
    with False wf lw show ?thesis by (simp add: st vote_inv_def vote_def)
  next
    case True
    let ?k = "key_of_read r" and ?w = "weight_of_read config now r"
    obtain b' where b': "vote config now r st = (dict_set ?k b' bs, lw + ?w)"
      and new: "map_of bs ?k = None \<Longrightarrow> vb_weight b' = ?w \<and> vb_reads b' = [r]"
      and old: "\<And>b. map_of bs ?k = Some b \<Longrightarrow> vb_weight b' = vb_weight b + ?w \<and> vb_reads b' = vb_reads b @ [r]"
      using True by (cases "map_of bs ?k") (simp_all add: st vote_def Let_def)
    have mine: "votes_for config ?k r" using True by (simp add: votes_for_def)
    have "bucket_ok config now (rs @ [r]) ?k (Some b')"
    proof (cases "map_of bs ?k")
      case None
      with ok [of ?k] have "filter (votes_for config ?k) rs = []" by (simp add: bucket_ok_def)
      moreover from this have "support config now rs ?k = 0" by (simp add: support_def votes_for_def [symmetric])
      ultimately show ?thesis using new [OF None] True mine by (simp add: bucket_ok_def support_snoc)
    next
      case (Some b)
      with ok [of ?k] old [OF Some] True mine show ?thesis by (simp add: bucket_ok_def support_snoc)
    qed
    moreover have "bucket_ok config now (rs @ [r]) k (map_of bs k)" if "k \<noteq> ?k" for k
      using ok [of k] bucket_ok_other [of config k r] that by (simp add: votes_for_def)
    ultimately have "bucket_ok config now (rs @ [r]) k (map_of (dict_set ?k b' bs) k)" for k
      by (cases "k = ?k") simp_all
    then show ?thesis unfolding b' vote_inv_def using wf lw True by simp
  qed
qed

lemma vote_loop: "vote_inv config now rs (fold (vote config now) rs ([], 0))"
proof (induction rs rule: rev_induct)
  case Nil
  then show ?case by (simp add: vote_inv_def bucket_ok_def)
next
  case (snoc r rs)
  from vote_inv_step [OF snoc] show ?case by simp
qed

lemma max_by_props:
  "max_by f b bs \<in> set (b # bs) \<and> (\<forall>x \<in> set (b # bs). f x \<le> f (max_by f b bs))"
proof (induction bs arbitrary: b)
  case (Cons x xs)
  show ?case using Cons [of "if f b < f x then x else b"] by (auto split: if_splits intro: order_trans)
qed simp

section \<open>What a snapshot says\<close>

lemma weighted_mean_between:
  assumes "weighted_mean pairs = Some m" and "\<forall>(v, w) \<in> set pairs. 0 \<le> w \<and> lo \<le> v \<and> v \<le> hi"
  shows "lo \<le> m \<and> m \<le> hi"
proof -
  let ?W = "sum_list (map snd pairs)" and ?S = "sum_list (map (\<lambda>(v, w). v * w) pairs)"
  from assms(1) have pos: "0 < ?W" and m: "m = ?S / ?W" by (auto simp: weighted_mean_def Let_def split: if_splits)
  have "lo * ?W \<le> ?S \<and> ?S \<le> hi * ?W"
    using assms(2)
  proof (induction pairs)
    case (Cons p ps)
    obtain v w where p: "p = (v, w)" by (cases p)
    with Cons.prems have "0 \<le> w" "lo \<le> v" "v \<le> hi" by auto
    then have "lo * w \<le> v * w" "v * w \<le> hi * w" by (auto intro: mult_right_mono)
    with Cons p show ?case by (auto simp: distrib_left)
  qed simp
  with pos show ?thesis by (simp add: m pos_le_divide_eq pos_divide_le_eq)
qed

lemma mean_of_between:
  assumes "mean_of config now f reads = Some m" and "\<forall>r \<in> set reads. \<forall>v. f r = Some v \<longrightarrow> lo \<le> v \<and> v \<le> hi"
  shows "lo \<le> m \<and> m \<le> hi"
proof (rule weighted_mean_between)
  show "weighted_mean (List.map_filter (\<lambda>r. map_option (\<lambda>v. (v, weight_of_read config now r)) (f r)) reads) = Some m"
    using assms(1) by (simp add: mean_of_def)
  show "\<forall>(v, w) \<in> set (List.map_filter (\<lambda>r. map_option (\<lambda>v. (v, weight_of_read config now r)) (f r)) reads). 0 \<le> w \<and> lo \<le> v \<and> v \<le> hi"
    using assms(2) weight_of_read_pos by (auto simp: List.map_filter_def less_imp_le)
qed

lemma kept_nonempty: "in_window config now reads \<noteq> [] \<Longrightarrow> kept_reads config now reads \<noteq> []"
  by (auto simp: kept_reads_def split: list.split)

lemma kept_subset: "set (kept_reads config now reads) \<subseteq> set (in_window config now reads)"
proof (cases "in_window config now reads")
  case (Cons r rs)
  then show ?thesis using max_by_props [of rr_ts r rs] by (simp add: kept_reads_def)
qed (simp add: kept_reads_def)

lemma freshness_unit: "0 \<le> freshness config now kept"
  by (auto simp: freshness_def decay_def intro!: divide_nonneg_nonneg sum_list_nonneg)

text \<open>The definition, with the loop evaluated: an asset nobody locates, or the winner of the vote.\<close>

lemma consolidate_cases:
  assumes "consolidate reads a now config = Some s"
  defines "kept \<equiv> kept_reads config now reads"
  shows "ss_temperature_c s = mean_of config now rr_temperature_c kept \<and> ss_humidity_pct s = mean_of config now rr_humidity_pct kept
     \<and> ss_sample_count s = length kept \<and> 0 \<le> ss_confidence s \<and> ss_confidence s \<le> 1 \<and>
    (filter (locates config) kept = [] \<and> ss_frame s = ''none'' \<and> ss_zone_id s = None \<and> ss_confidence s = 0
     \<or> (\<exists>r \<in> set kept. locates config r \<and> key_of_read r = (ss_frame s, ss_zone_id s))
       \<and> (\<forall>k. support config now kept k \<le> support config now kept (ss_frame s, ss_zone_id s)))"
proof -
  obtain bs lw where loop: "fold (vote config now) kept ([], 0) = (bs, lw)" by fastforce
  have inv: "wf_dict bs" and ok: "bucket_ok config now kept k (map_of bs k)" for k
    using vote_loop [of config now kept] unfolding loop vote_inv_def by blast+
  show ?thesis
  proof (cases bs)
    case Nil
    have "filter (votes_for config k) kept = []" for k using ok [of k] Nil by (simp add: bucket_ok_def)
    then have "\<not> votes_for config (key_of_read r) r" if "r \<in> set kept" for r
      using that unfolding filter_empty_conv by blast
    then have "filter (locates config) kept = []" by (simp add: filter_empty_conv votes_for_def)
    with assms loop Nil show ?thesis by (auto simp: consolidate_def Let_def split: if_splits)
  next
    case (Cons b0 bs')
    let ?m = "max_by (\<lambda>(_, b). (vb_weight b, vb_newest b)) b0 bs'"
    obtain k win where m: "?m = (k, win)" by fastforce
    obtain frame zone where k: "k = (frame, zone)" by (cases k)
    have mem: "(k, win) \<in> set bs" and best: "\<And>k' b. (k', b) \<in> set bs \<Longrightarrow> vb_weight b \<le> vb_weight win"
      using max_by_props [of "\<lambda>(_, b). (vb_weight b, vb_newest b)" b0 bs'] unfolding m Cons by fastforce+
    have ok_win: "bucket_ok config now kept k (Some win)"
      using ok [of k] mem inv by (simp add: map_of_is_SomeI)
    have "\<exists>r \<in> set kept. locates config r \<and> key_of_read r = k"
    proof -
      from ok_win have "filter (votes_for config k) kept \<noteq> []" unfolding bucket_ok_def option.case by metis
      then show ?thesis by (auto simp: filter_empty_conv votes_for_def)
    qed
    moreover have "support config now kept k' \<le> support config now kept k" for k'
    proof (cases "map_of bs k'")
      case None
      with ok [of k'] have "filter (votes_for config k') kept = []" by (simp add: bucket_ok_def)
      then have "support config now kept k' = 0" by (simp add: support_def votes_for_def [symmetric])
      moreover have "0 \<le> support config now kept k"
        unfolding support_def by (intro sum_list_nonneg) (auto intro: less_imp_le weight_of_read_pos)
      ultimately show ?thesis by simp
    next
      case (Some b)
      with ok [of k'] have "support config now kept k' = vb_weight b" by (simp add: bucket_ok_def)
      also have "\<dots> \<le> vb_weight win" by (rule best [OF map_of_SomeD [OF Some]])
      also have "\<dots> = support config now kept k" using ok_win by (simp add: bucket_ok_def)
      finally show ?thesis .
    qed
    moreover have fields: "ss_frame s = frame \<and> ss_zone_id s = zone \<and> ss_temperature_c s = mean_of config now rr_temperature_c kept
        \<and> ss_humidity_pct s = mean_of config now rr_humidity_pct kept \<and> ss_sample_count s = length kept
        \<and> ss_confidence s = round_nd 2 (max 0 (min 1 ((if lw > 0 then vb_weight win / lw else 0) * freshness config now kept)))"
    proof -
      have "\<not> int (length (in_window config now reads)) < min_reads config"
        using assms(1) by (auto simp: consolidate_def)
      with assms(1) loop Cons m k show ?thesis
        by (simp add: consolidate_def Let_def kept_def [symmetric]) auto
    qed
    moreover have "0 \<le> ss_confidence s \<and> ss_confidence s \<le> 1"
      using fields by (simp add: round_nd_unit)
    ultimately show ?thesis unfolding k by blast
  qed
qed

text \<open>C23: a snapshot reports the (frame, zone) that some read of the window votes for and that no other (frame, zone)
  outweighs, with a confidence between zero and one, or no location, with confidence zero, when no read
  locates the asset; its temperature and humidity lie between the readings of the kept reads.  There is
  no snapshot when fewer reads than the strategy requires are in the window, and only then.\<close>

theorem consolidate_winner:
  assumes "1 \<le> min_reads config"
  shows "case consolidate reads a now config of
      None \<Rightarrow> int (length (in_window config now reads)) < min_reads config
    | Some s \<Rightarrow> (let kept = kept_reads config now reads in
        min_reads config \<le> int (length (in_window config now reads)) \<and> kept \<noteq> [] \<and> set kept \<subseteq> set (in_window config now reads) \<and> 0 \<le> ss_confidence s \<and> ss_confidence s \<le> 1
        \<and> (if filter (locates config) kept = [] then ss_frame s = ''none'' \<and> ss_zone_id s = None \<and> ss_confidence s = 0
           else (\<exists>r \<in> set kept. locates config r \<and> key_of_read r = (ss_frame s, ss_zone_id s))
             \<and> (\<forall>k. support config now kept k \<le> support config now kept (ss_frame s, ss_zone_id s)))
        \<and> (\<forall>t lo hi. ss_temperature_c s = Some t \<longrightarrow>
             (\<forall>r \<in> set kept. \<forall>v. rr_temperature_c r = Some v \<longrightarrow> lo \<le> v \<and> v \<le> hi) \<longrightarrow> lo \<le> t \<and> t \<le> hi)
        \<and> (\<forall>h lo hi. ss_humidity_pct s = Some h \<longrightarrow>
             (\<forall>r \<in> set kept. \<forall>v. rr_humidity_pct r = Some v \<longrightarrow> lo \<le> v \<and> v \<le> hi) \<longrightarrow> lo \<le> h \<and> h \<le> hi))"
proof (cases "consolidate reads a now config")
  case None
  then show ?thesis
    by (auto simp: consolidate_def Let_def split: if_splits prod.splits list.splits)
next
  case (Some s)
  then have enough: "\<not> int (length (in_window config now reads)) < min_reads config" by (auto simp: consolidate_def)
  then have "kept_reads config now reads \<noteq> []" using assms by (intro kept_nonempty) auto
  then show ?thesis
    unfolding Some option.case Let_def
  proof (intro conjI allI impI)
    show "min_reads config \<le> int (length (in_window config now reads))" using enough by simp
    show "kept_reads config now reads \<noteq> []" by fact
    show "set (kept_reads config now reads) \<subseteq> set (in_window config now reads)" by (rule kept_subset)
    show "0 \<le> ss_confidence s" and "ss_confidence s \<le> 1" using consolidate_cases [OF Some] by blast+
    show "if filter (locates config) (kept_reads config now reads) = []
        then ss_frame s = ''none'' \<and> ss_zone_id s = None \<and> ss_confidence s = 0
        else (\<exists>r \<in> set (kept_reads config now reads). locates config r \<and> key_of_read r = (ss_frame s, ss_zone_id s))
          \<and> (\<forall>k. support config now (kept_reads config now reads) k
               \<le> support config now (kept_reads config now reads) (ss_frame s, ss_zone_id s))"
      using consolidate_cases [OF Some] by (auto simp: filter_empty_conv)
  next
    fix t lo hi
    assume "ss_temperature_c s = Some t"
      and "\<forall>r \<in> set (kept_reads config now reads). \<forall>v. rr_temperature_c r = Some v \<longrightarrow> lo \<le> v \<and> v \<le> hi"
    then have "lo \<le> t \<and> t \<le> hi" using consolidate_cases [OF Some] mean_of_between by metis
    then show "lo \<le> t" and "t \<le> hi" by blast+
  next
    fix h lo hi
    assume "ss_humidity_pct s = Some h"
      and "\<forall>r \<in> set (kept_reads config now reads). \<forall>v. rr_humidity_pct r = Some v \<longrightarrow> lo \<le> v \<and> v \<le> hi"
    then have "lo \<le> h \<and> h \<le> hi" using consolidate_cases [OF Some] mean_of_between by metis
    then show "lo \<le> h" and "h \<le> hi" by blast+
  qed
qed

definition dock_strategy :: fusion_strategy where
  "dock_strategy = \<lparr>half_life_s = 0, lookback_s = 60, rssi_floor_dbm = None, min_reads = 1, fs_sla = None\<rparr>"

definition dock_rr :: "string \<Rightarrow> datetime \<Rightarrow> resolved_read" where
  "dock_rr frame ts = \<lparr>rr_asset_id = 1, rr_tag_key = ''t'', rr_ts = ts, rr_read_count = 2, rr_rssi = None, rr_frame = frame,
     rr_zone_id = (if frame = ''reader'' then Some 9 else None), rr_site_id = None, rr_lat = None, rr_lon = None, rr_x = None,
     rr_y = None, rr_temperature_c = Some 4, rr_humidity_pct = None\<rparr>"

theorem consolidate_winner_witness:
  "\<exists>s. consolidate [dock_rr ''geo'' 0, dock_rr ''reader'' 1000000] 1 2000000 dock_strategy = Some s
     \<and> ss_frame s = ''reader'' \<and> 0 \<le> ss_confidence s \<and> ss_confidence s \<le> 1 \<and> ss_temperature_c s = Some 4"
proof -
  let ?reads = "[dock_rr ''geo'' 0, dock_rr ''reader'' 1000000]"
  have window: "in_window dock_strategy 2000000 ?reads = ?reads"
    by (simp add: in_window_def age_of_def dock_rr_def dock_strategy_def total_seconds_def)
  then have kept: "kept_reads dock_strategy 2000000 ?reads = [dock_rr ''reader'' 1000000]"
    by (simp add: kept_reads_def dock_strategy_def dock_rr_def)
  have loc: "locates dock_strategy (dock_rr ''reader'' 1000000)"
    by (simp add: locates_def LOCATING_FRAMES_def dock_rr_def dock_strategy_def)
  have mean: "mean_of dock_strategy 2000000 rr_temperature_c [dock_rr ''reader'' 1000000] = Some 4"
    by (simp add: mean_of_def weighted_mean_def List.map_filter_def dock_rr_def weight_of_read_def dock_strategy_def)
  have "\<not> int (length (in_window dock_strategy 2000000 ?reads)) < min_reads dock_strategy"
    unfolding window by (simp add: dock_strategy_def)
  moreover have m: "1 \<le> min_reads dock_strategy" by (simp add: dock_strategy_def)
  ultimately obtain s where s: "consolidate ?reads 1 2000000 dock_strategy = Some s"
    using consolidate_winner [OF m, where reads = ?reads and a = 1 and now = 2000000] by (auto split: option.splits)
  have "ss_frame s = ''reader'' \<and> 0 \<le> ss_confidence s \<and> ss_confidence s \<le> 1"
    using consolidate_winner [OF m, where reads = ?reads and a = 1 and now = 2000000] loc unfolding s option.case Let_def kept
    by (auto simp: key_of_read_def dock_rr_def)
  moreover have "ss_temperature_c s = Some 4" using consolidate_cases [OF s] unfolding kept mean by simp
  ultimately show ?thesis using s by blast
qed

end
