(* ===== verification/Legs.thy ===== *)
theory Legs
  imports Consolidation
begin

text \<open>
  The environment summary of a transit leg (\<open>src/tagpulse/services/legs.py\<close>): the envelope of the readings
  and the cold-chain verdict.  \<open>is_run\<close> is the reference notion of a contiguous out-of-range run; the
  loop's three variables (\<open>longest\<close>, \<open>run_start\<close>, \<open>prev\<close>) are shown to compute the longest one.
\<close>

section \<open>Data\<close>

record env_sample =
  sm_time :: datetime
  sm_temperature_c :: "real option"
  sm_humidity_pct :: "real option"

record leg_env_summary =
  le_temp_min_c :: "real option"
  le_temp_max_c :: "real option"
  le_temp_mean_c :: "real option"
  le_humidity_min :: "real option"
  le_humidity_max :: "real option"
  le_excursion_s :: "int option"
  le_in_range_pct :: "real option"
  le_sla_breached :: "bool option"

section \<open>The operations\<close>

definition min_opt :: "real list \<Rightarrow> real option" where
  "min_opt vals = (case vals of [] \<Rightarrow> None | v # vs \<Rightarrow> Some (fold min vs v))"

definition max_opt :: "real list \<Rightarrow> real option" where
  "max_opt vals = (case vals of [] \<Rightarrow> None | v # vs \<Rightarrow> Some (fold max vs v))"

definition mean_opt :: "real list \<Rightarrow> real option" where
  "mean_opt vals = (if vals = [] then None else Some (sum_list vals / of_nat (length vals)))"

definition below :: "real option \<Rightarrow> real \<Rightarrow> bool" where
  "below bound v = (case bound of None \<Rightarrow> False | Some b \<Rightarrow> v < b)"

definition above :: "real option \<Rightarrow> real \<Rightarrow> bool" where
  "above bound v = (case bound of None \<Rightarrow> False | Some b \<Rightarrow> v > b)"

definition in_range :: "sla_config \<Rightarrow> env_sample \<Rightarrow> bool" where
  "in_range sla s =
     (if (case sm_temperature_c s of None \<Rightarrow> False
          | Some t \<Rightarrow> below (sla_temp_min sla) t \<or> above (sla_temp_max sla) t) then False
      else \<not> (case sm_humidity_pct s of None \<Rightarrow> False | Some h \<Rightarrow> above (sla_humidity_max sla) h))"

definition sla_bounded :: "sla_config \<Rightarrow> bool" where
  "sla_bounded sla = list_ex (\<lambda>b. b \<noteq> None) [sla_temp_min sla, sla_temp_max sla, sla_humidity_max sla]"

text \<open>The state of the loop: \<open>longest\<close>, and \<open>(run_start, prev)\<close>, which are set and reset together.\<close>

type_synonym run_state = "real \<times> (datetime \<times> datetime) option"

definition close_run :: "run_state \<Rightarrow> real" where
  "close_run = (\<lambda>(longest, run). case run of
     None \<Rightarrow> longest | Some (run_start, prev) \<Rightarrow> max longest (total_seconds (prev - run_start)))"

definition excursion_step :: "datetime \<times> bool \<Rightarrow> run_state \<Rightarrow> run_state" where
  "excursion_step = (\<lambda>(time, ok) (longest, run).
     if \<not> ok then (longest, Some (case run of None \<Rightarrow> time | Some (run_start, prev) \<Rightarrow> run_start, time))
     else (close_run (longest, run), None))"

definition longest_excursion :: "(datetime \<times> bool) list \<Rightarrow> real" where
  "longest_excursion xs = close_run (fold excursion_step xs (0, None))"

definition summarize_leg_env :: "env_sample list \<Rightarrow> sla_config option \<Rightarrow> leg_env_summary" where
  "summarize_leg_env samples sla =
     (let ordered = sort_key sm_time samples;
          temps = List.map_filter sm_temperature_c ordered;
          hums = List.map_filter sm_humidity_pct ordered;
          envelope = \<lparr>le_temp_min_c = min_opt temps, le_temp_max_c = max_opt temps, le_temp_mean_c = mean_opt temps,
            le_humidity_min = min_opt hums, le_humidity_max = max_opt hums,
            le_excursion_s = None, le_in_range_pct = None, le_sla_breached = None\<rparr>
      in case sla of
           None \<Rightarrow> envelope
         | Some sla \<Rightarrow>
             if \<not> sla_bounded sla \<or> ordered = [] then envelope
             else (let flags = map (in_range sla) ordered;
                       ok_count = length (filter id flags);
                       excursion_s = py_trunc (longest_excursion (zip (map sm_time ordered) flags))
                   in envelope\<lparr>le_excursion_s := Some excursion_s,
                        le_in_range_pct := Some (round_nd 1 (100 * of_nat ok_count / of_nat (length flags))),
                        le_sla_breached := Some (excursion_s > excursion_tolerance_s sla)\<rparr>))"

section \<open>Runs\<close>

definition is_run :: "(datetime \<times> bool) list \<Rightarrow> nat \<Rightarrow> nat \<Rightarrow> bool" where
  "is_run xs i j \<longleftrightarrow> i \<le> j \<and> j < length xs \<and> (\<forall>k. i \<le> k \<and> k \<le> j \<longrightarrow> \<not> snd (xs ! k))"

definition elapsed :: "(datetime \<times> bool) list \<Rightarrow> nat \<Rightarrow> nat \<Rightarrow> real" where
  "elapsed xs i j = total_seconds (fst (xs ! j) - fst (xs ! i))"

text \<open>A bound that every run keeps and that is zero or reached.\<close>

definition longest_of :: "(datetime \<times> bool) list \<Rightarrow> real \<Rightarrow> bool" where
  "longest_of xs m \<longleftrightarrow> 0 \<le> m \<and> (\<forall>i j. is_run xs i j \<longrightarrow> elapsed xs i j \<le> m)
     \<and> (m = 0 \<or> (\<exists>i j. is_run xs i j \<and> elapsed xs i j = m))"

text \<open>The run that is open at the end of \<open>xs\<close>: the loop knows its first and its last time.\<close>

definition open_run :: "(datetime \<times> bool) list \<Rightarrow> (datetime \<times> datetime) option \<Rightarrow> bool" where
  "open_run xs run \<longleftrightarrow> (case run of
     None \<Rightarrow> \<forall>i. \<not> is_run xs i (length xs - 1)
   | Some (a, b) \<Rightarrow> \<exists>i. is_run xs i (length xs - 1) \<and> fst (xs ! i) = a \<and> fst (xs ! (length xs - 1)) = b
       \<and> (\<forall>k. is_run xs k (length xs - 1) \<longrightarrow> i \<le> k))"

lemma is_run_snoc: "is_run (xs @ [x]) i j \<longleftrightarrow>
    (if j = length xs then \<not> snd x \<and> (i = j \<or> is_run xs i (j - 1)) else is_run xs i j)"
  by (auto simp: is_run_def nth_append less_Suc_eq le_Suc_eq split: if_splits)

lemma elapsed_snoc: "is_run xs i j \<Longrightarrow> elapsed (xs @ [x]) i j = elapsed xs i j"
  by (auto simp: is_run_def elapsed_def nth_append)

text \<open>The loop invariant, over the samples seen so far.\<close>

definition reached :: "(datetime \<times> bool) list \<Rightarrow> real \<Rightarrow> bool" where
  "reached xs m \<longleftrightarrow> m = 0 \<or> (\<exists>i j. is_run xs i j \<and> elapsed xs i j = m)"

definition excursion_inv :: "(datetime \<times> bool) list \<Rightarrow> run_state \<Rightarrow> bool" where
  "excursion_inv xs st \<longleftrightarrow> 0 \<le> fst st \<and> reached xs (fst st) \<and> open_run xs (snd st)
     \<and> (\<forall>i j. is_run xs i j \<longrightarrow> elapsed xs i j \<le> close_run st)"

lemma reached_snoc: "reached xs m \<Longrightarrow> reached (xs @ [x]) m"
  unfolding reached_def using elapsed_snoc is_run_snoc
  by (metis is_run_def less_irrefl)

lemma open_run_elapsed: "open_run xs (Some (a, b)) \<Longrightarrow> reached xs (total_seconds (b - a))"
  by (auto simp: open_run_def reached_def elapsed_def)

lemma close_run_reached: "excursion_inv xs st \<Longrightarrow> 0 \<le> close_run st \<and> reached xs (close_run st)"
  using open_run_elapsed
  by (cases st) (auto simp: excursion_inv_def close_run_def max_def split: option.splits)

lemma excursion_inv_ok:
  assumes "excursion_inv xs st"
  shows "excursion_inv (xs @ [(t, True)]) (excursion_step (t, True) st)"
proof -
  have step: "excursion_step (t, True) st = (close_run st, None)" by (cases st) (simp add: excursion_step_def)
  have "open_run (xs @ [(t, True)]) None" by (simp add: open_run_def is_run_snoc)
  moreover have "elapsed (xs @ [(t, True)]) i j \<le> close_run st" if "is_run (xs @ [(t, True)]) i j" for i j
  proof -
    from that have "is_run xs i j" by (auto simp: is_run_snoc split: if_splits)
    with assms show ?thesis by (simp add: elapsed_snoc excursion_inv_def)
  qed
  ultimately show ?thesis
    using close_run_reached [OF assms] unfolding excursion_inv_def step by (simp add: reached_snoc close_run_def)
qed

lemma excursion_inv_bad:
  assumes "excursion_inv xs st" and "sorted (map fst (xs @ [(t, False)]))"
  shows "excursion_inv (xs @ [(t, False)]) (excursion_step (t, False) st)"
proof -
  obtain longest run where st: "st = (longest, run)" by (cases st)
  let ?xs = "xs @ [(t, False)]"
  define a where "a = (case run of None \<Rightarrow> t | Some (run_start, prev) \<Rightarrow> run_start)"
  have step: "excursion_step (t, False) st = (longest, Some (a, t))" by (simp add: st excursion_step_def a_def)
  have opened: "\<exists>i. is_run ?xs i (length xs) \<and> fst (?xs ! i) = a \<and> (\<forall>k. is_run ?xs k (length xs) \<longrightarrow> i \<le> k)"
  proof (cases run)
    case None
    with assms(1) have "\<not> is_run xs k (length xs - 1)" for k by (simp add: excursion_inv_def st open_run_def)
    then show ?thesis by (intro exI [of _ "length xs"]) (auto simp: is_run_snoc a_def None)
  next
    case (Some p)
    with assms(1) obtain i where i: "is_run xs i (length xs - 1)" "fst (xs ! i) = a" "\<forall>k. is_run xs k (length xs - 1) \<longrightarrow> i \<le> k"
      by (cases p) (auto simp: excursion_inv_def st open_run_def a_def)
    then have "i < length xs" by (auto simp: is_run_def)
    with i show ?thesis by (intro exI [of _ i]) (auto simp: is_run_snoc nth_append)
  qed
  then have "open_run ?xs (Some (a, t))" by (simp add: open_run_def)
  moreover have "elapsed ?xs i j \<le> max longest (total_seconds (t - a))" if run_ij: "is_run ?xs i j" for i j
  proof (cases "j = length xs")
    case True
    from opened obtain i0 where i0: "is_run ?xs i0 (length xs)" "fst (?xs ! i0) = a" "i0 \<le> i"
      using run_ij True by blast
    have "i < length ?xs" using run_ij True by (simp add: is_run_def)
    then have "fst (?xs ! i0) \<le> fst (?xs ! i)"
      using sorted_nth_mono [OF assms(2), of i0 i] i0(3) by (simp only: length_map nth_map order.strict_trans1)
    then show ?thesis using i0(2) True by (simp add: elapsed_def total_seconds_le_iff le_max_iff_disj)
  next
    case False
    with run_ij have old: "is_run xs i j" by (simp add: is_run_snoc)
    with assms(1) have le: "elapsed xs i j \<le> close_run st" by (simp add: excursion_inv_def)
    have "close_run st \<le> max longest (total_seconds (t - a))"
    proof (cases run)
      case (Some p)
      obtain c b where p: "p = (c, b)" by (cases p)
      from assms(1) have "xs \<noteq> [] \<and> b = fst (xs ! (length xs - 1))"
        by (auto simp: excursion_inv_def st open_run_def Some p is_run_def)
      then have "b \<le> t" using assms(2) by (auto simp: sorted_append)
      then have "total_seconds (b - a) \<le> total_seconds (t - a)" by (simp add: total_seconds_le_iff)
      then show ?thesis by (auto simp: st Some p close_run_def a_def max_def)
    qed (simp add: st close_run_def)
    with le show ?thesis by (simp add: elapsed_snoc [OF old])
  qed
  moreover have "0 \<le> longest" and "reached xs longest" using assms(1) by (simp_all add: excursion_inv_def st)
  ultimately show ?thesis unfolding excursion_inv_def step by (simp add: reached_snoc close_run_def)
qed

lemma excursion_loop_inv: "sorted (map fst xs) \<Longrightarrow> excursion_inv xs (fold excursion_step xs (0, None))"
proof (induction xs rule: rev_induct)
  case Nil
  then show ?case by (simp add: excursion_inv_def reached_def open_run_def is_run_def)
next
  case (snoc x xs)
  then have IH: "excursion_inv xs (fold excursion_step xs (0, None))" by (simp add: sorted_append)
  obtain t ok where x: "x = (t, ok)" by (cases x)
  show ?case using excursion_inv_ok [OF IH] excursion_inv_bad [OF IH] snoc.prems by (cases ok) (simp_all add: x)
qed

lemma longest_excursion_spec: "sorted (map fst xs) \<Longrightarrow> longest_of xs (longest_excursion xs)"
  using close_run_reached [OF excursion_loop_inv [of xs]] excursion_loop_inv [of xs]
  by (auto simp: longest_of_def longest_excursion_def reached_def excursion_inv_def)

section \<open>The summary\<close>

text \<open>The share of samples in range, in per cent.\<close>

lemma in_range_share:
  assumes "flags \<noteq> []"
  defines "p \<equiv> round_nd 1 (100 * of_nat (length (filter id flags)) / of_nat (length flags))"
  shows "0 \<le> p \<and> p \<le> 100 \<and> ((\<forall>b \<in> set flags. b) \<longrightarrow> p = 100)"
proof -
  define x :: real where "x = 100 * of_nat (length (filter id flags)) / of_nat (length flags) * 10"
  have x: "0 \<le> x \<and> x \<le> 1000" using assms(1) by (simp add: x_def pos_divide_le_eq)
  then have "0 \<le> py_round x" and "py_round x \<le> 1000"
    using py_round_ge_int [of 0 x] py_round_le_int [of x 1000] by simp_all
  moreover have "py_round x = 1000" if "\<forall>b \<in> set flags. b"
  proof -
    have "filter id flags = flags" using that by (simp add: filter_id_conv)
    then show ?thesis using assms(1) by (simp add: x_def)
  qed
  moreover have "p = of_int (py_round x) / 10" unfolding p_def round_nd_def x_def by simp
  ultimately show ?thesis by auto
qed

lemma py_trunc_nonneg: "0 \<le> x \<Longrightarrow> py_trunc x = \<lfloor>x\<rfloor>"
  by (simp add: py_trunc_def)

lemma mean_between:
  fixes vals :: "real list"
  assumes "vals \<noteq> []" and "\<forall>x \<in> set vals. lo \<le> x \<and> x \<le> hi"
  shows "lo \<le> sum_list vals / of_nat (length vals) \<and> sum_list vals / of_nat (length vals) \<le> hi"
proof -
  have "lo * of_nat (length vals) \<le> sum_list vals \<and> sum_list vals \<le> hi * of_nat (length vals)"
    using assms(2)
  proof (induction vals)
    case (Cons v vals)
    then have "lo * of_nat (length vals) \<le> sum_list vals \<and> sum_list vals \<le> hi * of_nat (length vals)" by simp
    moreover have "lo \<le> v" and "v \<le> hi" using Cons.prems by simp_all
    ultimately show ?case by (simp add: distrib_left)
  qed simp
  with assms(1) show ?thesis by (simp add: pos_le_divide_eq pos_divide_le_eq)
qed

text \<open>The three statistics of an axis: absent without readings, else the extremes and a mean between them.\<close>

definition axis_ok :: "real list \<Rightarrow> real option \<Rightarrow> real option \<Rightarrow> bool" where
  "axis_ok vals lo hi \<longleftrightarrow>
     (if vals = [] then lo = None \<and> hi = None
      else lo = Some (Min (set vals)) \<and> hi = Some (Max (set vals)))"

lemma extremes: "axis_ok vals (min_opt vals) (max_opt vals)"
  by (auto simp: axis_ok_def min_opt_def max_opt_def Min.set_eq_fold [symmetric] Max.set_eq_fold [symmetric]
      simp del: list.set split: list.split)

lemma set_readings: "set (List.map_filter f (sort_key g samples)) = set (List.map_filter f samples)"
  by (auto simp: List.map_filter_def)

lemma readings_Nil: "List.map_filter f (sort_key g samples) = [] \<longleftrightarrow> List.map_filter f samples = []"
  using set_readings [of f g samples] by (metis set_empty)

lemma axis_ok_sorted:
  "axis_ok (List.map_filter f samples) (min_opt (List.map_filter f (sort_key g samples)))
     (max_opt (List.map_filter f (sort_key g samples)))"
  using extremes [of "List.map_filter f (sort_key g samples)"] by (simp add: axis_ok_def set_readings readings_Nil)

lemma mean_opt_between:
  assumes "mean_opt (List.map_filter f (sort_key g samples)) = Some m"
  shows "Min (set (List.map_filter f samples)) \<le> m \<and> m \<le> Max (set (List.map_filter f samples))"
proof -
  let ?vals = "List.map_filter f (sort_key g samples)"
  from assms have "?vals \<noteq> []" and m: "m = sum_list ?vals / of_nat (length ?vals)"
    by (simp_all add: mean_opt_def split: if_splits)
  then have "Min (set ?vals) \<le> m \<and> m \<le> Max (set ?vals)" unfolding m by (intro mean_between) simp_all
  then show ?thesis unfolding set_readings .
qed

text \<open>The samples in time order with their verdicts.\<close>

definition verdicts :: "sla_config \<Rightarrow> env_sample list \<Rightarrow> (datetime \<times> bool) list" where
  "verdicts sla samples = map (\<lambda>s. (sm_time s, in_range sla s)) (sort_key sm_time samples)"

text \<open>C33: the verdict of a leg, for samples in any order: without a bound or without samples there is none; else the
  excursion is the whole seconds of the longest contiguous out-of-range run of the samples in
  time order, and the leg is breached exactly when some such run exceeds the tolerance by a second or
  more; the in-range share is a percentage, and it is 100 when every sample is in range.\<close>

theorem leg_verdict:
  assumes "0 \<le> excursion_tolerance_s sla"
  shows "let s = summarize_leg_env samples (Some sla); xs = verdicts sla samples in
    if \<not> sla_bounded sla \<or> samples = [] then le_excursion_s s = None \<and> le_in_range_pct s = None \<and> le_sla_breached s = None
    else (\<exists>e p. le_excursion_s s = Some e \<and> le_in_range_pct s = Some p \<and>
      (\<forall>i j. is_run xs i j \<longrightarrow> \<lfloor>elapsed xs i j\<rfloor> \<le> e) \<and> (e = 0 \<or> (\<exists>i j. is_run xs i j \<and> \<lfloor>elapsed xs i j\<rfloor> = e)) \<and>
      le_sla_breached s = Some (\<exists>i j. is_run xs i j \<and> of_int (excursion_tolerance_s sla) + 1 \<le> elapsed xs i j) \<and>
      0 \<le> p \<and> p \<le> 100 \<and> ((\<forall>x \<in> set samples. in_range sla x) \<longrightarrow> p = 100))"
proof (cases "\<not> sla_bounded sla \<or> samples = []")
  case True
  then show ?thesis by (auto simp: summarize_leg_env_def Let_def)
next
  case False
  define xs where "xs = verdicts sla samples"
  define ordered where "ordered = sort_key sm_time samples"
  define s where "s = summarize_leg_env samples (Some sla)"
  let ?flags = "map (in_range sla) ordered"
  define m where "m = longest_excursion xs"
  have xs: "zip (map sm_time ordered) ?flags = xs" by (simp add: xs_def verdicts_def ordered_def zip_map_map zip_same_conv_map)
  have "map fst xs = map sm_time ordered" by (simp add: xs_def verdicts_def ordered_def)
  then have spec: "longest_of xs m" using longest_excursion_spec [of xs] by (simp add: m_def ordered_def)
  then have e: "py_trunc m = \<lfloor>m\<rfloor>" by (simp add: longest_of_def py_trunc_nonneg)
  have nonempty: "ordered \<noteq> []" using False by (simp add: ordered_def) (metis length_0_conv length_sort)
  have summary: "le_excursion_s s = Some \<lfloor>m\<rfloor>" "le_sla_breached s = Some (\<lfloor>m\<rfloor> > excursion_tolerance_s sla)"
    "le_in_range_pct s = Some (round_nd 1 (100 * of_nat (length (filter id ?flags)) / of_nat (length ?flags)))"
    using False e by (simp_all add: nonempty s_def summarize_leg_env_def Let_def xs m_def flip: ordered_def)
  have runs: "is_run xs i j \<Longrightarrow> \<lfloor>elapsed xs i j\<rfloor> \<le> \<lfloor>m\<rfloor>" for i j
    using spec by (simp add: longest_of_def floor_mono)
  moreover have best: "\<lfloor>m\<rfloor> = 0 \<or> (\<exists>i j. is_run xs i j \<and> \<lfloor>elapsed xs i j\<rfloor> = \<lfloor>m\<rfloor>)"
    using spec by (auto simp: longest_of_def)
  moreover have "\<lfloor>m\<rfloor> > excursion_tolerance_s sla \<longleftrightarrow> (\<exists>i j. is_run xs i j \<and> of_int (excursion_tolerance_s sla) + 1 \<le> elapsed xs i j)"
  proof -
    have "of_int (excursion_tolerance_s sla) + 1 \<le> x \<longleftrightarrow> excursion_tolerance_s sla < \<lfloor>x\<rfloor>" for x :: real
      by linarith
    with runs best assms(1) show ?thesis by (metis leD less_le_trans)
  qed
  moreover obtain p where "le_in_range_pct s = Some p" and "0 \<le> p \<and> p \<le> 100 \<and> ((\<forall>x \<in> set samples. in_range sla x) \<longrightarrow> p = 100)"
    using in_range_share [of ?flags] nonempty summary(3) by (simp add: ordered_def)
  ultimately show ?thesis
    using False summary(1,2) unfolding s_def [symmetric] xs_def [symmetric] Let_def by (simp only: if_False) blast
qed

definition cold_chain :: sla_config where
  "cold_chain = \<lparr>sla_temp_min = Some 2, sla_temp_max = Some 8, sla_humidity_max = None, excursion_tolerance_s = 30\<rparr>"

definition reading :: "int \<Rightarrow> real \<Rightarrow> env_sample" where
  "reading t v = \<lparr>sm_time = seconds t, sm_temperature_c = Some v, sm_humidity_pct = None\<rparr>"

theorem leg_verdict_witness:
  "le_sla_breached (summarize_leg_env [reading 60 9, reading 0 5, reading 20 10] (Some cold_chain)) = Some True"
proof -
  let ?samples = "[reading 60 9, reading 0 5, reading 20 10]"
  have points: "verdicts cold_chain ?samples = [(0, True), (20000000, False), (60000000, False)]"
    by (simp add: verdicts_def reading_def seconds_def in_range_def below_def above_def cold_chain_def)
  have "is_run (verdicts cold_chain ?samples) 1 2
      \<and> of_int (excursion_tolerance_s cold_chain) + 1 \<le> elapsed (verdicts cold_chain ?samples) 1 2"
    unfolding points by (auto simp: is_run_def elapsed_def total_seconds_def cold_chain_def le_Suc_eq numeral_2_eq_2)
  then have "\<exists>i j. is_run (verdicts cold_chain ?samples) i j
      \<and> of_int (excursion_tolerance_s cold_chain) + 1 \<le> elapsed (verdicts cold_chain ?samples) i j" by blast
  moreover have "sla_bounded cold_chain" and "0 \<le> excursion_tolerance_s cold_chain" by (simp_all add: sla_bounded_def cold_chain_def)
  ultimately show ?thesis using leg_verdict [of cold_chain ?samples] by (auto simp: Let_def)
qed

text \<open>The envelope of a leg: an axis nobody measured has no statistics; else its minimum and maximum are those of
  the readings and its mean lies between them, whether there is an SLA or not.\<close>

theorem leg_envelope:
  "let s = summarize_leg_env samples sla; temps = List.map_filter sm_temperature_c samples;
       hums = List.map_filter sm_humidity_pct samples in
     axis_ok temps (le_temp_min_c s) (le_temp_max_c s) \<and> axis_ok hums (le_humidity_min s) (le_humidity_max s)
     \<and> (case le_temp_mean_c s of None \<Rightarrow> temps = [] | Some m \<Rightarrow> Min (set temps) \<le> m \<and> m \<le> Max (set temps))"
proof -
  let ?s = "summarize_leg_env samples sla" and ?temps = "List.map_filter sm_temperature_c (sort_key sm_time samples)"
  have fields: "le_temp_min_c ?s = min_opt ?temps" "le_temp_max_c ?s = max_opt ?temps" "le_temp_mean_c ?s = mean_opt ?temps"
    "le_humidity_min ?s = min_opt (List.map_filter sm_humidity_pct (sort_key sm_time samples))"
    "le_humidity_max ?s = max_opt (List.map_filter sm_humidity_pct (sort_key sm_time samples))"
    by (simp_all add: summarize_leg_env_def Let_def split: option.split)
  have "case mean_opt ?temps of None \<Rightarrow> List.map_filter sm_temperature_c samples = []
      | Some m \<Rightarrow> Min (set (List.map_filter sm_temperature_c samples)) \<le> m \<and> m \<le> Max (set (List.map_filter sm_temperature_c samples))"
  proof (cases "mean_opt ?temps")
    case None
    then show ?thesis by (auto simp: mean_opt_def readings_Nil split: if_splits)
  next
    case (Some m)
    show ?thesis using mean_opt_between [OF Some] by (simp add: Some)
  qed
  then show ?thesis unfolding Let_def fields by (intro conjI axis_ok_sorted)
qed

end
