(* ===== verification/EventBus.thy ===== *)
theory EventBus
  imports PyJson "HOL-Library.Sublist"
begin

text \<open>
  The in-process event bus (\<open>src/tagpulse/events/protocol.py\<close>, \<open>events/async_bus.py\<close>): one bounded queue per
  topic with three overflow policies, handlers in subscription order, dead letters.  The tasks of the
  event loop are steps that interleave in any order; taking an event and running its handlers is one
  step.  What a handler publishes is a step of its own.  The interface \<open>ordered_channel\<close> is what a client
  of one topic relies on: what it takes and what still waits is a subsequence of what was put.
\<close>

section \<open>Topics and events\<close>

datatype topic =
    TAG_READ_CREATED | DEVICE_STATUS_CHANGED | DEVICE_REGISTERED | DEVICE_DECOMMISSIONED | ALERT_TRIGGERED
  | TELEMETRY_OUT_OF_RANGE | SUBJECT_ZONE_CHANGED | ASSET_LOADED | ASSET_UNLOADED | EXTERNAL_LOCATION_RECORDED
  | TELEMETRY_RECORDED | SIGNALING_ATTRIBUTION_SETTLED | SIGNALING_TAG_APPEARED | SIGNALING_TAG_DISAPPEARED
  | ASSET_CUSTODY_CHANGED

fun topic_value :: "topic \<Rightarrow> string" where
  "topic_value TAG_READ_CREATED = ''tag_read.created''"
| "topic_value DEVICE_STATUS_CHANGED = ''device.status_changed''"
| "topic_value DEVICE_REGISTERED = ''device.registered''"
| "topic_value DEVICE_DECOMMISSIONED = ''device.decommissioned''"
| "topic_value ALERT_TRIGGERED = ''alert.triggered''"
| "topic_value TELEMETRY_OUT_OF_RANGE = ''telemetry.out_of_range''"
| "topic_value SUBJECT_ZONE_CHANGED = ''subject.zone_changed''"
| "topic_value ASSET_LOADED = ''asset.loaded''"
| "topic_value ASSET_UNLOADED = ''asset.unloaded''"
| "topic_value EXTERNAL_LOCATION_RECORDED = ''asset.external_location_recorded''"
| "topic_value TELEMETRY_RECORDED = ''telemetry.recorded''"
| "topic_value SIGNALING_ATTRIBUTION_SETTLED = ''signaling.attribution_settled''"
| "topic_value SIGNALING_TAG_APPEARED = ''signaling.tag_appeared''"
| "topic_value SIGNALING_TAG_DISAPPEARED = ''signaling.tag_disappeared''"
| "topic_value ASSET_CUSTODY_CHANGED = ''asset.custody_changed''"

text \<open>An event; its random id, which only log records show, is left out.\<close>

record event =
  ev_topic :: topic
  ev_timestamp :: datetime
  ev_payload :: jobj

section \<open>The bus\<close>

text \<open>Handlers are names; what a handler does is given by a function that runs it on a state.\<close>

record 'h bus =
  bus_capacity :: int
  bus_overflow :: string
  bus_queues :: "(topic, event list) pydict"
  bus_handlers :: "(topic, 'h list) pydict"
  bus_tasks :: "topic list"
  bus_drop_count :: "(topic, nat) pydict"
  bus_running :: bool

definition new_bus :: "int \<Rightarrow> string \<Rightarrow> 'h bus" where
  "new_bus capacity policy =
     \<lparr>bus_capacity = capacity, bus_overflow = policy, bus_queues = [], bus_handlers = [], bus_tasks = [],
      bus_drop_count = [], bus_running = False\<rparr>"

definition queue_of :: "topic \<Rightarrow> 'h bus \<Rightarrow> event list" where
  "queue_of t b = (case map_of (bus_queues b) t of None \<Rightarrow> [] | Some q \<Rightarrow> q)"

definition drops_of :: "topic \<Rightarrow> 'h bus \<Rightarrow> nat" where
  "drops_of t b = (case map_of (bus_drop_count b) t of None \<Rightarrow> 0 | Some n \<Rightarrow> n)"

text \<open>\<open>asyncio.Queue.full\<close>: a size of zero or less means no bound.\<close>

definition queue_full :: "int \<Rightarrow> event list \<Rightarrow> bool" where
  "queue_full capacity q \<longleftrightarrow> 0 < capacity \<and> capacity \<le> int (length q)"

definition set_queue :: "topic \<Rightarrow> event list \<Rightarrow> 'h bus \<Rightarrow> 'h bus" where
  "set_queue t q b = b\<lparr>bus_queues := dict_set t q (bus_queues b)\<rparr>"

definition count_drop :: "topic \<Rightarrow> 'h bus \<Rightarrow> 'h bus" where
  "count_drop t b = b\<lparr>bus_drop_count := dict_set t (drops_of t b + 1) (bus_drop_count b)\<rparr>"

definition publish :: "topic \<Rightarrow> event \<Rightarrow> 'h bus \<Rightarrow> py_exn option \<times> 'h bus" where
  "publish t e b =
     (let q = queue_of t b; b = set_queue t q b in
      if queue_full (bus_capacity b) q
      then (if bus_overflow b = ''drop_oldest'' then (None, set_queue t (tl q @ [e]) (count_drop t b))
            else if bus_overflow b = ''drop_newest'' then (None, count_drop t b)
            else if bus_overflow b = ''raise'' then (Some (OtherError ''EventBusFullError''), b)
            else (Some (OtherError ''QueueFull''), b))
      else (None, set_queue t (q @ [e]) b))"

definition subscribe :: "topic \<Rightarrow> 'h \<Rightarrow> 'h bus \<Rightarrow> 'h bus" where
  "subscribe t h b =
     b\<lparr>bus_handlers := dict_set t ((case map_of (bus_handlers b) t of None \<Rightarrow> [] | Some hs \<Rightarrow> hs) @ [h]) (bus_handlers b)\<rparr>"

definition unsubscribe :: "topic \<Rightarrow> 'h \<Rightarrow> 'h bus \<Rightarrow> 'h bus" where
  "unsubscribe t h b = (case map_of (bus_handlers b) t of
     None \<Rightarrow> b | Some hs \<Rightarrow> b\<lparr>bus_handlers := dict_set t (remove1 h hs) (bus_handlers b)\<rparr>)"

definition start :: "'h bus \<Rightarrow> 'h bus" where
  "start b = fold (\<lambda>t b. (set_queue t (queue_of t b) b)\<lparr>bus_tasks := bus_tasks b @ [t]\<rparr>)
     (dict_keys (bus_handlers b)) (b\<lparr>bus_running := True\<rparr>)"

definition stop :: "'h bus \<Rightarrow> 'h bus" where
  "stop b = b\<lparr>bus_running := False, bus_tasks := []\<rparr>"

section \<open>Delivery\<close>

record dead_letter =
  dl_tenant_id :: "uuid option"
  dl_topic :: string
  dl_payload :: jobj
  dl_error :: py_exn

text \<open>A tenant that is no UUID text raises inside the method, which logs it and keeps nothing.\<close>

definition persist_dead_letter :: "bool \<Rightarrow> topic \<Rightarrow> event \<Rightarrow> py_exn \<Rightarrow> dead_letter list" where
  "persist_dead_letter has_factory t e err =
     (if \<not> has_factory then []
      else (let raw = jget (ev_payload e) ''tenant_id'' in
        case (if truthy raw then map_sum id Some (uuid_of_json raw) else Inr None) of
          Inl _ \<Rightarrow> []
        | Inr tenant \<Rightarrow> [\<lparr>dl_tenant_id = tenant, dl_topic = topic_value t, dl_payload = ev_payload e, dl_error = err\<rparr>]))"

type_synonym ('h, 's) runner = "'h \<Rightarrow> event \<Rightarrow> 's \<Rightarrow> py_exn option \<times> 's"

fun deliver :: "('h, 's) runner \<Rightarrow> bool \<Rightarrow> topic \<Rightarrow> event \<Rightarrow> 'h list \<Rightarrow> 's \<Rightarrow> dead_letter list \<times> 's" where
  "deliver run has_factory t e [] w = ([], w)"
| "deliver run has_factory t e (h # hs) w =
     (case run h e w of (err, w1) \<Rightarrow>
        (case deliver run has_factory t e hs w1 of (letters, w2) \<Rightarrow>
           ((case err of None \<Rightarrow> [] | Some x \<Rightarrow> persist_dead_letter has_factory t e x) @ letters, w2)))"

datatype 'h bus_op =
    Publish topic event | Consume topic | Drain topic | Subscribe topic 'h | Unsubscribe topic 'h | Start | Stop

text \<open>
  The state of a run: the bus, the state the handlers work on, the events taken so far, the publications
  that raised and the dead letters.  A consumer runs while its task does; \<open>drain\<close> takes events of any
  queue and leaves no dead letter.
\<close>

record ('h, 's) bus_state =
  bs_bus :: "'h bus"
  bs_world :: 's
  bs_taken :: "(topic \<times> event) list"
  bs_refused :: "(topic \<times> event) list"
  bs_letters :: "dead_letter list"

definition take_event :: "('h, 's) runner \<Rightarrow> bool \<Rightarrow> topic \<Rightarrow> ('h, 's) bus_state \<Rightarrow> ('h, 's) bus_state" where
  "take_event run has_factory t s =
     (case queue_of t (bs_bus s) of
        [] \<Rightarrow> s
      | e # q \<Rightarrow>
          (let hs = (case map_of (bus_handlers (bs_bus s)) t of None \<Rightarrow> [] | Some hs \<Rightarrow> hs);
               (letters, w) = deliver run has_factory t e hs (bs_world s)
           in s\<lparr>bs_bus := set_queue t q (bs_bus s), bs_world := w, bs_taken := bs_taken s @ [(t, e)],
                bs_letters := bs_letters s @ letters\<rparr>))"

fun bus_step :: "('h, 's) runner \<Rightarrow> bool \<Rightarrow> 'h bus_op \<Rightarrow> ('h, 's) bus_state \<Rightarrow> ('h, 's) bus_state" where
  "bus_step run has_factory (Publish t e) s =
     (case publish t e (bs_bus s) of (err, b) \<Rightarrow>
        s\<lparr>bs_bus := b, bs_refused := bs_refused s @ (if err = None then [] else [(t, e)])\<rparr>)"
| "bus_step run has_factory (Consume t) s =
     (if bus_running (bs_bus s) \<and> t \<in> set (bus_tasks (bs_bus s)) then take_event run has_factory t s else s)"
| "bus_step run has_factory (Drain t) s =
     (let s' = take_event run False t s in s'\<lparr>bs_bus := bs_bus s'\<lparr>bus_running := False\<rparr>\<rparr>)"
| "bus_step run has_factory (Subscribe t h) s = s\<lparr>bs_bus := subscribe t h (bs_bus s)\<rparr>"
| "bus_step run has_factory (Unsubscribe t h) s = s\<lparr>bs_bus := unsubscribe t h (bs_bus s)\<rparr>"
| "bus_step run has_factory Start s = s\<lparr>bs_bus := start (bs_bus s)\<rparr>"
| "bus_step run has_factory Stop s = s\<lparr>bs_bus := stop (bs_bus s)\<rparr>"

section \<open>Channels\<close>

datatype 'e chan_op = Put 'e | Take

fun chan_step :: "('e \<Rightarrow> 'q \<Rightarrow> 'q) \<Rightarrow> ('q \<Rightarrow> ('e \<times> 'q) option) \<Rightarrow> 'e chan_op \<Rightarrow> 'e list \<times> 'q \<Rightarrow> 'e list \<times> 'q" where
  "chan_step put get (Put e) (taken, q) = (taken, put e q)"
| "chan_step put get Take (taken, q) = (case get q of None \<Rightarrow> (taken, q) | Some (e, q') \<Rightarrow> (taken @ [e], q'))"

definition puts :: "'e chan_op list \<Rightarrow> 'e list" where
  "puts ops = List.map_filter (\<lambda>op. case op of Put e \<Rightarrow> Some e | Take \<Rightarrow> None) ops"

lemma puts_simps [simp]: "puts [] = []" "puts (ops @ [Put e]) = puts ops @ [e]" "puts (ops @ [Take]) = puts ops"
  by (simp_all add: puts_def List.map_filter_def)

locale ordered_channel =
  fixes put :: "'e \<Rightarrow> 'q \<Rightarrow> 'q" and get :: "'q \<Rightarrow> ('e \<times> 'q) option" and contents :: "'q \<Rightarrow> 'e list"
  assumes put_order: "subseq (contents (put e q)) (contents q @ [e])"
    and get_first: "get q = Some (e, q') \<Longrightarrow> contents q = e # contents q'"
begin

lemma channel_order:
  "case fold (chan_step put get) ops ([], q) of (taken, q') \<Rightarrow> subseq (taken @ contents q') (contents q @ puts ops)"
proof (induction ops rule: rev_induct)
  case (snoc op ops)
  obtain taken q1 where run: "fold (chan_step put get) ops ([], q) = (taken, q1)" by fastforce
  with snoc have IH: "subseq (taken @ contents q1) (contents q @ puts ops)" by simp
  show ?case
  proof (cases op)
    case (Put e)
    have "subseq (taken @ contents (put e q1)) (taken @ contents q1 @ [e])" using put_order by (simp add: subseq_append')
    also have "subseq (taken @ contents q1 @ [e]) (contents q @ puts ops @ [e])"
      using list_emb_append_mono [OF IH subseq_order.refl [of "[e]"]] by simp
    finally show ?thesis by (simp add: Put run)
  next
    case Take
    then show ?thesis using IH get_first [of q1] by (cases "get q1") (auto simp: run)
  qed
qed simp

text \<open>A channel that has lost nothing has delivered what was put, in that order.\<close>

lemma channel_lossless:
  assumes "fold (chan_step put get) ops ([], q) = (taken, q')" and "contents q = []"
    and "length taken + length (contents q') = length (puts ops)"
  shows "taken @ contents q' = puts ops"
  using channel_order [where ops = ops and q = q] assms by (auto intro: subseq_same_length)

end

section \<open>The queue of a topic\<close>

definition put_queue :: "int \<Rightarrow> string \<Rightarrow> event \<Rightarrow> event list \<Rightarrow> event list" where
  "put_queue capacity policy e q =
     (if queue_full capacity q then (if policy = ''drop_oldest'' then tl q @ [e] else q) else q @ [e])"

definition get_queue :: "event list \<Rightarrow> (event \<times> event list) option" where
  "get_queue q = (case q of [] \<Rightarrow> None | e # q' \<Rightarrow> Some (e, q'))"

interpretation topic_queue: ordered_channel "put_queue capacity policy" get_queue "\<lambda>q. q" for capacity policy
proof
  fix e :: event and q q' :: "event list"
  have "subseq (tl q) q" by (cases q) auto
  then show "subseq (put_queue capacity policy e q) (q @ [e])"
    using list_emb_append_mono [of "(=)" "tl q" q "[e]" "[e]"] list_emb_append_mono [of "(=)" q q "[]" "[e]"] by (simp add: put_queue_def)
  show "get_queue q = Some (e, q') \<Longrightarrow> q = e # q'" by (auto simp: get_queue_def split: list.splits)
qed

lemma queue_of_set [simp]: "queue_of t (set_queue t' q b) = (if t = t' then q else queue_of t b)"
  by (simp add: queue_of_def set_queue_def)

lemma queue_of_drop [simp]: "queue_of t (count_drop t' b) = queue_of t b"
  by (simp add: queue_of_def count_drop_def)

lemma bus_params [simp]:
  "bus_capacity (set_queue t q b) = bus_capacity b" "bus_overflow (set_queue t q b) = bus_overflow b"
  "bus_capacity (count_drop t b) = bus_capacity b" "bus_overflow (count_drop t b) = bus_overflow b"
  by (simp_all add: set_queue_def count_drop_def)

lemma drops_of_simps [simp]: "drops_of t (set_queue t' q b) = drops_of t b"
  "drops_of t (count_drop t' b) = (if t = t' then drops_of t b + 1 else drops_of t b)"
  by (simp_all add: drops_of_def set_queue_def count_drop_def)

text \<open>What a publication does to the queues, the counters and the caller.\<close>

lemma publish_spec:
  assumes "publish t e b = (err, b')"
  shows "queue_of t' b' = (if t' = t then put_queue (bus_capacity b) (bus_overflow b) e (queue_of t b) else queue_of t' b)"
    and "bus_capacity b' = bus_capacity b" and "bus_overflow b' = bus_overflow b"
    and "drops_of t' b' = drops_of t' b + (if t' = t \<and> queue_full (bus_capacity b) (queue_of t b)
            \<and> bus_overflow b \<in> {''drop_oldest'', ''drop_newest''} then 1 else 0)"
    and "err \<noteq> None \<longleftrightarrow> queue_full (bus_capacity b) (queue_of t b) \<and> bus_overflow b \<notin> {''drop_oldest'', ''drop_newest''}"
  using assms by (auto simp: publish_def Let_def put_queue_def split: if_splits)

section \<open>Runs of the bus\<close>

definition bus_run :: "('h, 's) runner \<Rightarrow> bool \<Rightarrow> 'h bus_op list \<Rightarrow> ('h, 's) bus_state \<Rightarrow> ('h, 's) bus_state" where
  "bus_run run has_factory ops s = fold (bus_step run has_factory) ops s"

definition bus_init :: "int \<Rightarrow> string \<Rightarrow> 's \<Rightarrow> ('h, 's) bus_state" where
  "bus_init capacity policy w =
     \<lparr>bs_bus = new_bus capacity policy, bs_world = w, bs_taken = [], bs_refused = [], bs_letters = []\<rparr>"

definition published_on :: "topic \<Rightarrow> 'h bus_op list \<Rightarrow> event list" where
  "published_on t ops = List.map_filter (\<lambda>op. case op of Publish t' e \<Rightarrow> if t' = t then Some e else None | _ \<Rightarrow> None) ops"

definition on_topic :: "topic \<Rightarrow> (topic \<times> event) list \<Rightarrow> event list" where
  "on_topic t es = map snd (filter (\<lambda>(t', e). t' = t) es)"

lemma on_topic_snoc [simp]: "on_topic t [] = []" "on_topic t (es @ [(t', e)]) = on_topic t es @ (if t' = t then [e] else [])"
  by (simp_all add: on_topic_def)

lemma published_on_snoc:
  "published_on t (ops @ [op]) = published_on t ops @ (case op of Publish t' e \<Rightarrow> if t' = t then [e] else [] | _ \<Rightarrow> [])"
  by (cases op) (simp_all add: published_on_def List.map_filter_def)

text \<open>Subscriptions, starts and stops leave the queues and the counters alone.\<close>

lemma queue_of_start [simp]:
  "queue_of t (start b) = queue_of t b" "drops_of t (start b) = drops_of t b"
  "bus_capacity (start b) = bus_capacity b" "bus_overflow (start b) = bus_overflow b"
proof -
  have "queue_of t (fold (\<lambda>t b. (set_queue t (queue_of t b) b)\<lparr>bus_tasks := bus_tasks b @ [t]\<rparr>) ts b) = queue_of t b
      \<and> drops_of t (fold (\<lambda>t b. (set_queue t (queue_of t b) b)\<lparr>bus_tasks := bus_tasks b @ [t]\<rparr>) ts b) = drops_of t b
      \<and> bus_capacity (fold (\<lambda>t b. (set_queue t (queue_of t b) b)\<lparr>bus_tasks := bus_tasks b @ [t]\<rparr>) ts b) = bus_capacity b
      \<and> bus_overflow (fold (\<lambda>t b. (set_queue t (queue_of t b) b)\<lparr>bus_tasks := bus_tasks b @ [t]\<rparr>) ts b) = bus_overflow b"
    for ts :: "topic list" and b :: "'a bus"
    by (induction ts arbitrary: b) (simp_all add: queue_of_def drops_of_def set_queue_def)
  then show "queue_of t (start b) = queue_of t b" "drops_of t (start b) = drops_of t b"
    "bus_capacity (start b) = bus_capacity b" "bus_overflow (start b) = bus_overflow b"
    by (simp_all add: start_def queue_of_def drops_of_def)
qed

lemma quiet_ops [simp]:
  "queue_of t (subscribe t' h b) = queue_of t b" "drops_of t (subscribe t' h b) = drops_of t b"
  "bus_capacity (subscribe t' h b) = bus_capacity b" "bus_overflow (subscribe t' h b) = bus_overflow b"
  "queue_of t (unsubscribe t' h b) = queue_of t b" "drops_of t (unsubscribe t' h b) = drops_of t b"
  "bus_capacity (unsubscribe t' h b) = bus_capacity b" "bus_overflow (unsubscribe t' h b) = bus_overflow b"
  "queue_of t (stop b) = queue_of t b" "drops_of t (stop b) = drops_of t b"
  "bus_capacity (stop b) = bus_capacity b" "bus_overflow (stop b) = bus_overflow b"
  by (simp_all add: subscribe_def unsubscribe_def stop_def queue_of_def drops_of_def split: option.split)

text \<open>The view of one topic: it is a run of its channel, and every publication is accounted for.\<close>

definition bus_inv :: "int \<Rightarrow> string \<Rightarrow> topic \<Rightarrow> event list \<Rightarrow> ('h, 's) bus_state \<Rightarrow> bool" where
  "bus_inv capacity policy t published s \<longleftrightarrow>
     (let taken = on_topic t (bs_taken s); q = queue_of t (bs_bus s) in
      bus_capacity (bs_bus s) = capacity \<and> bus_overflow (bs_bus s) = policy
      \<and> (\<exists>ops. fold (chan_step (put_queue capacity policy) get_queue) ops ([], []) = (taken, q) \<and> puts ops = published)
      \<and> length taken + length q + drops_of t (bs_bus s) + length (on_topic t (bs_refused s)) = length published
      \<and> (0 < capacity \<longrightarrow> int (length q) \<le> capacity))"

lemma bus_invI:
  assumes "bus_capacity (bs_bus s) = capacity" and "bus_overflow (bs_bus s) = policy"
    and "fold (chan_step (put_queue capacity policy) get_queue) ops ([], []) = (on_topic t (bs_taken s), queue_of t (bs_bus s))"
    and "puts ops = published"
    and "length (on_topic t (bs_taken s)) + length (queue_of t (bs_bus s)) + drops_of t (bs_bus s)
           + length (on_topic t (bs_refused s)) = length published"
    and "0 < capacity \<longrightarrow> int (length (queue_of t (bs_bus s))) \<le> capacity"
  shows "bus_inv capacity policy t published s"
  using assms unfolding bus_inv_def Let_def by blast

lemma bus_inv_same:
  assumes "bus_inv capacity policy t published s"
    and "on_topic t (bs_taken s') = on_topic t (bs_taken s)" and "queue_of t (bs_bus s') = queue_of t (bs_bus s)"
    and "drops_of t (bs_bus s') = drops_of t (bs_bus s)" and "on_topic t (bs_refused s') = on_topic t (bs_refused s)"
    and "bus_capacity (bs_bus s') = bus_capacity (bs_bus s)" and "bus_overflow (bs_bus s') = bus_overflow (bs_bus s)"
  shows "bus_inv capacity policy t published s'"
  using assms by (simp add: bus_inv_def)

lemma bus_inv_publish:
  assumes "bus_inv capacity policy t published s"
  shows "bus_inv capacity policy t (published @ (if t' = t then [e] else [])) (bus_step run f (Publish t' e) s)"
proof -
  obtain err b where pub: "publish t' e (bs_bus s) = (err, b)" by fastforce
  note spec = publish_spec [OF pub]
  have step: "bus_step run f (Publish t' e) s
      = s\<lparr>bs_bus := b, bs_refused := bs_refused s @ (if err = None then [] else [(t', e)])\<rparr>" by (simp add: pub)
  show ?thesis
  proof (cases "t' = t")
    case False
    then have "bus_inv capacity policy t published
        (s\<lparr>bs_bus := b, bs_refused := bs_refused s @ (if err = None then [] else [(t', e)])\<rparr>)"
      by (intro bus_inv_same [OF assms]) (simp_all add: spec(1-4))
    with False show ?thesis unfolding step by simp
  next
    case True
    let ?q = "queue_of t (bs_bus s)"
    obtain ops where ops: "fold (chan_step (put_queue capacity policy) get_queue) ops ([], []) = (on_topic t (bs_taken s), ?q)"
      "puts ops = published"
      using assms by (auto simp: bus_inv_def Let_def)
    have params: "bus_capacity (bs_bus s) = capacity" "bus_overflow (bs_bus s) = policy" using assms by (simp_all add: bus_inv_def Let_def)
    have "fold (chan_step (put_queue capacity policy) get_queue) (ops @ [Put e]) ([], [])
        = (on_topic t (bs_taken s), put_queue capacity policy e ?q)" "puts (ops @ [Put e]) = published @ [e]"
      using ops by simp_all
    moreover have one: "length (put_queue capacity policy e ?q) + drops_of t b + (if err = None then 0 else 1)
        = Suc (length ?q + drops_of t (bs_bus s))"
      using spec(4) [of t] spec(5) params True by (cases ?q) (auto simp: put_queue_def queue_full_def)
    moreover have "0 < capacity \<longrightarrow> int (length (put_queue capacity policy e ?q)) \<le> capacity"
      using assms by (auto simp: bus_inv_def Let_def put_queue_def queue_full_def)
    moreover have "length (on_topic t (bs_taken s)) + length (put_queue capacity policy e ?q) + drops_of t b
        + length (on_topic t (bs_refused s @ (if err = None then [] else [(t', e)]))) = length (published @ [e])"
      using assms one True by (cases err) (simp_all add: bus_inv_def Let_def)
    moreover have "queue_of t b = put_queue capacity policy e ?q" using spec(1) [of t] params True by simp
    ultimately show ?thesis unfolding step
      by (intro bus_invI [where ops = "ops @ [Put e]"]) (simp_all add: spec(2,3) params True)
  qed
qed

lemma bus_inv_take:
  assumes "bus_inv capacity policy t published s"
  shows "bus_inv capacity policy t published (take_event run f t' s)"
proof (cases "queue_of t' (bs_bus s)")
  case Nil
  with assms show ?thesis by (simp add: take_event_def)
next
  case (Cons e q)
  obtain letters w where run: "deliver run f t' e (case map_of (bus_handlers (bs_bus s)) t' of None \<Rightarrow> [] | Some hs \<Rightarrow> hs) (bs_world s) = (letters, w)"
    by fastforce
  have step: "take_event run f t' s = s\<lparr>bs_bus := set_queue t' q (bs_bus s), bs_world := w, bs_taken := bs_taken s @ [(t', e)],
      bs_letters := bs_letters s @ letters\<rparr>" by (simp add: take_event_def Cons run Let_def)
  show ?thesis
  proof (cases "t' = t")
    case False
    then show ?thesis unfolding step by (intro bus_inv_same [OF assms]) simp_all
  next
    case True
    obtain ops where "fold (chan_step (put_queue capacity policy) get_queue) ops ([], []) = (on_topic t (bs_taken s), e # q)"
      "puts ops = published"
      using assms Cons True by (auto simp: bus_inv_def Let_def)
    then have "fold (chan_step (put_queue capacity policy) get_queue) (ops @ [Take]) ([], []) = (on_topic t (bs_taken s) @ [e], q)"
      "puts (ops @ [Take]) = published"
      by (simp_all add: get_queue_def)
    then show ?thesis using assms Cons True unfolding step
      by (intro bus_invI [where ops = "ops @ [Take]"]) (simp_all add: bus_inv_def Let_def, linarith)
  qed
qed

lemma bus_inv_step:
  assumes "bus_inv capacity policy t (published_on t ops) s"
  shows "bus_inv capacity policy t (published_on t (ops @ [op])) (bus_step run f op s)"
proof (cases op)
  case (Publish t' e)
  then show ?thesis using bus_inv_publish [OF assms, of t' e run f] by (simp add: published_on_snoc)
next
  case (Consume t')
  then show ?thesis using assms bus_inv_take [OF assms, of run f t'] by (simp add: published_on_snoc)
next
  case (Drain t')
  have "bus_inv capacity policy t (published_on t ops) (bus_step run f (Drain t') s)"
    by (rule bus_inv_same [OF bus_inv_take [OF assms, of run False t']]) (simp_all add: Let_def queue_of_def drops_of_def)
  with Drain show ?thesis by (simp add: published_on_snoc)
qed (use assms in \<open>auto simp: published_on_snoc intro: bus_inv_same\<close>)

text \<open>C19: however publications, consumers, subscriptions, starts and stops interleave, the events taken from a topic
  and then those still waiting are a subsequence of those published on it, in that order; every
  publication is taken, waits, was counted as a drop, or raised; so without drops and refusals nothing is
  missing; and a bounded queue keeps its bound.\<close>

theorem bus_in_order:
  assumes "bus_run run has_factory ops (bus_init capacity policy w) = s"
  shows "subseq (on_topic t (bs_taken s) @ queue_of t (bs_bus s)) (published_on t ops)
    \<and> length (on_topic t (bs_taken s)) + length (queue_of t (bs_bus s)) + drops_of t (bs_bus s) + length (on_topic t (bs_refused s))
        = length (published_on t ops)
    \<and> (drops_of t (bs_bus s) = 0 \<and> on_topic t (bs_refused s) = []
        \<longrightarrow> on_topic t (bs_taken s) @ queue_of t (bs_bus s) = published_on t ops)
    \<and> (0 < capacity \<longrightarrow> int (length (queue_of t (bs_bus s))) \<le> capacity)"
proof -
  have inv: "bus_inv capacity policy t (published_on t ops) s" unfolding assms [symmetric]
  proof (induction ops rule: rev_induct)
    case Nil
    show ?case by (rule bus_invI [where ops = "[]"])
        (simp_all add: bus_run_def bus_init_def new_bus_def queue_of_def drops_of_def published_on_def List.map_filter_def)
  next
    case (snoc op ops)
    then show ?case using bus_inv_step by (simp add: bus_run_def)
  qed
  then obtain cs where cs: "fold (chan_step (put_queue capacity policy) get_queue) cs ([], []) = (on_topic t (bs_taken s), queue_of t (bs_bus s))"
    "puts cs = published_on t ops"
    by (auto simp: bus_inv_def Let_def)
  have "subseq (on_topic t (bs_taken s) @ queue_of t (bs_bus s)) (published_on t ops)"
    using topic_queue.channel_order [where ops = cs and q = "[]" and capacity = capacity and policy = policy] cs by simp
  with inv topic_queue.channel_lossless [OF cs(1)] cs(2) show ?thesis by (auto simp: bus_inv_def Let_def)
qed

definition note_event :: "nat \<Rightarrow> event" where
  "note_event n = \<lparr>ev_topic = TAG_READ_CREATED, ev_timestamp = int n, ev_payload = []\<rparr>"

definition demo_runner :: "(nat, nat) runner" where
  "demo_runner h e w = (None, w + h)"

theorem bus_in_order_witness:
  "\<exists>s. bus_run demo_runner True [Subscribe TAG_READ_CREATED (5::nat), Publish TAG_READ_CREATED (note_event 1), Start,
      Consume TAG_READ_CREATED, Publish TAG_READ_CREATED (note_event 2), Publish TAG_READ_CREATED (note_event 3)]
      (bus_init 1 ''drop_oldest'' 0) = s
    \<and> on_topic TAG_READ_CREATED (bs_taken s) = [note_event 1] \<and> queue_of TAG_READ_CREATED (bs_bus s) = [note_event 3]
    \<and> drops_of TAG_READ_CREATED (bs_bus s) = 1
    \<and> subseq [note_event 1, note_event 3] [note_event 1, note_event 2, note_event 3]"
proof (intro exI conjI)
  let ?ops = "[Subscribe TAG_READ_CREATED (5::nat), Publish TAG_READ_CREATED (note_event 1), Start,
      Consume TAG_READ_CREATED, Publish TAG_READ_CREATED (note_event 2), Publish TAG_READ_CREATED (note_event 3)]"
  let ?s = "bus_run demo_runner True ?ops (bus_init 1 ''drop_oldest'' 0)"
  show "?s = ?s" ..
  show taken: "on_topic TAG_READ_CREATED (bs_taken ?s) = [note_event 1]" by code_simp
  show queue: "queue_of TAG_READ_CREATED (bs_bus ?s) = [note_event 3]" by code_simp
  show "drops_of TAG_READ_CREATED (bs_bus ?s) = 1" by code_simp
  have "published_on TAG_READ_CREATED ?ops = [note_event 1, note_event 2, note_event 3]" by (simp add: published_on_def List.map_filter_def)
  then show "subseq [note_event 1, note_event 3] [note_event 1, note_event 2, note_event 3]"
    using bus_in_order [OF refl, of TAG_READ_CREATED demo_runner True ?ops 1 "''drop_oldest''" 0] taken queue by simp
qed

end
