(* ===== verification/ConsolidationWorker.thy ===== *)
theory ConsolidationWorker
  imports Consolidation PyTime EventBus
begin

text \<open>
  The consolidation worker (\<open>src/tagpulse/workers/consolidation_worker.py\<close>) with the sources it reads
  (\<open>repositories/timescaledb/consolidation_source.py\<close>): one tick over the opted-in tenants, the history
  rows it appends and the custody events it publishes.  \<open>custody_events\<close> is the reference: the changes of
  frame along an asset's history.
\<close>

section \<open>Sources\<close>

record sensed_read_row = tag_read_row +
  tr_sensor_data :: "jobj option"

definition load_raw_reads ::
    "sensed_read_row list \<Rightarrow> binding_row list \<Rightarrow> uuid \<Rightarrow> datetime \<Rightarrow> datetime \<Rightarrow> raw_read list" where
  "load_raw_reads tag_reads bindings tenant_id window_start window_end =
     [ \<lparr>rc_asset_id = bd_asset_id b, rc_tag_key = bd_value b, rc_reader_id = tr_device_id tr, rc_ts = tr_timestamp tr,
        rc_rssi = tr_signal_strength tr, rc_lat = tr_latitude tr, rc_lon = tr_longitude tr, rc_sensor_data = tr_sensor_data tr\<rparr>.
       tr \<leftarrow> tag_reads, b \<leftarrow> bindings,
       binding_matches b (tag_read_row.truncate tr), tr_tenant_id tr = tenant_id,
       tr_timestamp tr \<ge> window_start, tr_timestamp tr \<le> window_end ]"

record read_tables =
  rt_zones :: "zone_row list"
  rt_reads :: "sensed_read_row list"
  rt_bindings :: "binding_row list"

definition resolved_reads ::
    "read_tables \<Rightarrow> uuid \<Rightarrow> datetime \<Rightarrow> datetime \<Rightarrow> py_exn + (uuid, resolved_read list) pydict" where
  "resolved_reads db tenant_id window_start window_end =
     (let raws = load_raw_reads (rt_reads db) (rt_bindings db) tenant_id window_start window_end in
      if raws = [] then Inr []
      else (let (zones, site_by_zone) = load_zones (rt_zones db) tenant_id in build_resolved_reads zones site_by_zone raws []))"

text \<open>\<open>validate\<close> stands for \<open>FusionStrategy.model_validate\<close>; \<open>None\<close> is its \<open>ValidationError\<close>.\<close>

definition tenants_with_strategy ::
    "(json \<Rightarrow> fusion_strategy option) \<Rightarrow> (uuid \<times> json option) list \<Rightarrow> (uuid \<times> fusion_strategy) list" where
  "tenants_with_strategy validate tenants =
     List.map_filter (\<lambda>(tenant_id, raw). case raw of None \<Rightarrow> None | Some j \<Rightarrow> map_option (Pair tenant_id) (validate j)) tenants"

section \<open>The worker\<close>

type_synonym asset_key = "uuid \<times> uuid"
type_synonym fused_state = "string \<times> uuid option \<times> uuid option"

record 'b worker =
  cw_last_state :: "(asset_key, fused_state) pydict"
  cw_history :: "(uuid \<times> snapshot) list" \<comment> \<open>the rows of \<open>asset_state_history\<close>, with their tenant\<close>
  cw_bus :: 'b

definition new_worker :: "'b \<Rightarrow> 'b worker" where
  "new_worker bus = \<lparr>cw_last_state = [], cw_history = [], cw_bus = bus\<rparr>"

definition opt_uuid :: "uuid option \<Rightarrow> json" where
  "opt_uuid u = (case u of None \<Rightarrow> JNull | Some x \<Rightarrow> JStr (str_uuid x))"

definition custody_event :: "uuid \<Rightarrow> fused_state \<Rightarrow> snapshot \<Rightarrow> event" where
  "custody_event tenant_id prev snap =
     (case prev of (from_frame, from_zone_id, from_site_id) \<Rightarrow>
        \<lparr>ev_topic = ASSET_CUSTODY_CHANGED, ev_timestamp = ss_time snap,
         ev_payload =
           [(''tenant_id'', JStr (str_uuid tenant_id)), (''asset_id'', JStr (str_uuid (ss_asset_id snap))),
            (''from_frame'', JStr from_frame), (''to_frame'', JStr (ss_frame snap)),
            (''from_zone_id'', opt_uuid from_zone_id), (''from_site_id'', opt_uuid from_site_id),
            (''zone_id'', opt_uuid (ss_zone_id snap)), (''site_id'', opt_uuid (ss_site_id snap)),
            (''confidence'', JFloat (Fin (ss_confidence snap))), (''timestamp'', JStr (isoformat (ss_time snap)))]\<rparr>)"

text \<open>\<open>pub\<close> is the event bus's \<open>publish\<close>, absent for a worker without a bus; an exception it raises leaves the loop.\<close>

fun emit_custody ::
    "(event \<Rightarrow> 'b \<Rightarrow> py_exn option \<times> 'b) option \<Rightarrow> uuid \<Rightarrow> snapshot list \<Rightarrow> 'b worker \<Rightarrow> py_exn option \<times> 'b worker" where
  "emit_custody pub tenant_id [] w = (None, w)"
| "emit_custody pub tenant_id (snap # snaps) w =
     (let key = (tenant_id, ss_asset_id snap); prev = map_of (cw_last_state w) key;
          w1 = w\<lparr>cw_last_state := dict_set key (ss_frame snap, ss_zone_id snap, ss_site_id snap) (cw_last_state w)\<rparr>
      in case (prev, pub) of
           (Some p, Some publish_to) \<Rightarrow>
             if fst p = ss_frame snap then emit_custody pub tenant_id snaps w1
             else (case publish_to (custody_event tenant_id p snap) (cw_bus w1) of
                 (None, bus) \<Rightarrow> emit_custody pub tenant_id snaps (w1\<lparr>cw_bus := bus\<rparr>)
               | (Some e, bus) \<Rightarrow> (Some e, w1\<lparr>cw_bus := bus\<rparr>))
         | _ \<Rightarrow> emit_custody pub tenant_id snaps w1)"

definition persist :: "uuid \<Rightarrow> snapshot list \<Rightarrow> 'b worker \<Rightarrow> 'b worker" where
  "persist tenant_id snapshots w = w\<lparr>cw_history := cw_history w @ map (Pair tenant_id) snapshots\<rparr>"

definition DATETIME_MIN_US :: datetime where
  "DATETIME_MIN_US = - 62135596800000000"

text \<open>\<open>now - timedelta(seconds=lookback_s)\<close>: rounded to microseconds; before the year 1 it raises.\<close>

definition window_start :: "fusion_strategy \<Rightarrow> datetime \<Rightarrow> py_exn + datetime" where
  "window_start config now =
     (let t = now - py_round (lookback_s config * 1000000) in
      if t < DATETIME_MIN_US then Inl OverflowError else Inr t)"

definition run_tenant ::
    "(event \<Rightarrow> 'b \<Rightarrow> py_exn option \<times> 'b) option \<Rightarrow> read_tables \<Rightarrow> datetime \<Rightarrow> uuid \<Rightarrow> fusion_strategy \<Rightarrow> 'b worker
      \<Rightarrow> (py_exn + nat) \<times> 'b worker" where
  "run_tenant pub db now tenant_id config w =
     (case and_then (window_start config now) (\<lambda>start. resolved_reads db tenant_id start now) of
        Inl e \<Rightarrow> (Inl e, w)
      | Inr by_asset \<Rightarrow>
          (let snapshots = List.map_filter (\<lambda>(asset_id, reads). consolidate reads asset_id now config) by_asset in
           if snapshots = [] then (Inr 0, w)
           else (case emit_custody pub tenant_id snapshots (persist tenant_id snapshots w) of
               (None, w') \<Rightarrow> (Inr (length snapshots), w')
             | (Some e, w') \<Rightarrow> (Inl e, w'))))"

fun run_tenants ::
    "(event \<Rightarrow> 'b \<Rightarrow> py_exn option \<times> 'b) option \<Rightarrow> read_tables \<Rightarrow> datetime \<Rightarrow> (uuid \<times> fusion_strategy) list \<Rightarrow> nat \<Rightarrow> 'b worker
      \<Rightarrow> (py_exn + nat) \<times> 'b worker" where
  "run_tenants pub db now [] written w = (Inr written, w)"
| "run_tenants pub db now ((tenant_id, config) # rest) written w =
     (case run_tenant pub db now tenant_id config w of
        (Inl e, w') \<Rightarrow> (Inl e, w')
      | (Inr n, w') \<Rightarrow> run_tenants pub db now rest (written + n) w')"

record tick =
  tk_now :: datetime
  tk_tables :: read_tables
  tk_tenants :: "(uuid \<times> json option) list"

definition consolidation_run_once ::
    "(json \<Rightarrow> fusion_strategy option) \<Rightarrow> (event \<Rightarrow> 'b \<Rightarrow> py_exn option \<times> 'b) option \<Rightarrow> tick \<Rightarrow> 'b worker
      \<Rightarrow> (py_exn + nat) \<times> 'b worker" where
  "consolidation_run_once validate pub tk w =
     run_tenants pub (tk_tables tk) (tk_now tk) (tenants_with_strategy validate (tk_tenants tk)) 0 w"

text \<open>\<open>_loop\<close>: a tick that raises is logged, and the next one follows.\<close>

definition consolidation_loop ::
    "(json \<Rightarrow> fusion_strategy option) \<Rightarrow> (event \<Rightarrow> 'b \<Rightarrow> py_exn option \<times> 'b) option \<Rightarrow> tick list \<Rightarrow> 'b worker \<Rightarrow> 'b worker" where
  "consolidation_loop validate pub ticks w = fold (\<lambda>tk w. snd (consolidation_run_once validate pub tk w)) ticks w"

section \<open>The custody timeline\<close>

definition fused_state_of :: "snapshot \<Rightarrow> fused_state" where
  "fused_state_of s = (ss_frame s, ss_zone_id s, ss_site_id s)"

definition rows_of :: "asset_key \<Rightarrow> (uuid \<times> snapshot) list \<Rightarrow> snapshot list" where
  "rows_of key history = map snd (filter (\<lambda>(t, s). (t, ss_asset_id s) = key) history)"

text \<open>One event at each change of frame between consecutive snapshots.\<close>

fun custody_events :: "uuid \<Rightarrow> snapshot list \<Rightarrow> event list" where
  "custody_events t (p # q # rows) =
     (if ss_frame p = ss_frame q then [] else [custody_event t (fused_state_of p) q]) @ custody_events t (q # rows)"
| "custody_events t rows = []"

definition event_key :: "event \<Rightarrow> json \<times> json" where
  "event_key e = (jget (ev_payload e) ''tenant_id'', jget (ev_payload e) ''asset_id'')"

definition events_for :: "asset_key \<Rightarrow> event list \<Rightarrow> event list" where
  "events_for key evs = filter (\<lambda>e. event_key e = (JStr (str_uuid (fst key)), JStr (str_uuid (snd key)))) evs"

lemma rows_of_simps [simp]:
  "rows_of key [] = []" "rows_of key (h @ h') = rows_of key h @ rows_of key h'"
  "rows_of key ((t, s) # h) = (if (t, ss_asset_id s) = key then [s] else []) @ rows_of key h"
  by (simp_all add: rows_of_def)

lemma custody_events_snoc:
  "custody_events t (rows @ [s]) = custody_events t rows
     @ (if rows = [] \<or> ss_frame (last rows) = ss_frame s then [] else [custody_event t (fused_state_of (last rows)) s])"
  by (induction t rows rule: custody_events.induct) auto

lemma event_key_custody: "event_key (custody_event t prev s) = (JStr (str_uuid t), JStr (str_uuid (ss_asset_id s)))"
  by (simp add: event_key_def custody_event_def jget_def split: prod.split)

lemma events_for_snoc:
  "events_for key (evs @ [custody_event t prev s]) = events_for key evs @ (if (t, ss_asset_id s) = key then [custody_event t prev s] else [])"
  by (cases key) (auto simp: events_for_def event_key_custody)

text \<open>A bus that takes everything, as a log.\<close>

definition log_pub :: "event \<Rightarrow> event list \<Rightarrow> py_exn option \<times> event list" where
  "log_pub e evs = (None, evs @ [e])"

text \<open>The invariant, with respect to the history whose custody has been emitted.\<close>

definition is_custody :: "event \<Rightarrow> bool" where
  "is_custody e \<longleftrightarrow> (\<exists>t prev s. e = custody_event t prev s)"

lemma is_custody [simp]: "is_custody (custody_event t prev s)"
  unfolding is_custody_def by blast

definition custody_inv :: "(uuid \<times> snapshot) list \<Rightarrow> event list worker \<Rightarrow> bool" where
  "custody_inv h w \<longleftrightarrow> (\<forall>e \<in> set (cw_bus w). is_custody e) \<and> (\<forall>key.
     map_of (cw_last_state w) key = (if rows_of key h = [] then None else Some (fused_state_of (last (rows_of key h))))
     \<and> events_for key (cw_bus w) = custody_events (fst key) (rows_of key h))"

lemma custody_invD:
  assumes "custody_inv h w"
  shows "map_of (cw_last_state w) key = (if rows_of key h = [] then None else Some (fused_state_of (last (rows_of key h))))"
    and "events_for key (cw_bus w) = custody_events (fst key) (rows_of key h)"
    and "\<forall>e \<in> set (cw_bus w). is_custody e"
  using assms unfolding custody_inv_def by blast+

lemma emit_custody_inv:
  assumes "custody_inv h w" and "emit_custody (Some log_pub) t snaps w = (err, w')"
  shows "err = None \<and> custody_inv (h @ map (Pair t) snaps) w' \<and> cw_history w' = cw_history w"
  using assms
proof (induction snaps arbitrary: h w)
  case (Cons s snaps)
  let ?key = "(t, ss_asset_id s)"
  define w1 where "w1 = w\<lparr>cw_last_state := dict_set ?key (ss_frame s, ss_zone_id s, ss_site_id s) (cw_last_state w)\<rparr>"
  define new where "new = custody_events t (rows_of ?key h @ [s])"
  define evs where "evs = (if rows_of ?key h = [] \<or> ss_frame (last (rows_of ?key h)) = ss_frame s then []
      else [custody_event t (fused_state_of (last (rows_of ?key h))) s])"
  define w2 where "w2 = w1\<lparr>cw_bus := cw_bus w @ evs\<rparr>"
  have step: "emit_custody (Some log_pub) t (s # snaps) w = emit_custody (Some log_pub) t snaps w2"
    using custody_invD(1) [OF Cons.prems(1), of ?key]
    by (auto simp: w2_def w1_def evs_def log_pub_def fused_state_of_def Let_def split: option.splits)
  have "custody_inv (h @ [(t, s)]) w2"
    unfolding custody_inv_def
  proof (intro allI conjI)
    show "\<forall>e \<in> set (cw_bus w2). is_custody e"
      using custody_invD(3) [OF Cons.prems(1)] by (auto simp: w2_def w1_def evs_def)
    fix key
    show "map_of (cw_last_state w2) key = (if rows_of key (h @ [(t, s)]) = [] then None
        else Some (fused_state_of (last (rows_of key (h @ [(t, s)])))))"
      using custody_invD(1) [OF Cons.prems(1), of key] by (simp add: w2_def w1_def fused_state_of_def)
    show "events_for key (cw_bus w2) = custody_events (fst key) (rows_of key (h @ [(t, s)]))"
      using custody_invD(2) [OF Cons.prems(1), of key]
      by (auto simp: w2_def w1_def evs_def events_for_snoc custody_events_snoc)
  qed
  from Cons.IH [OF this] Cons.prems(2) step show ?case by (simp add: w2_def w1_def)
qed simp

lemma custody_inv_persist: "custody_inv h (persist t snaps w) = custody_inv h w"
  by (simp add: custody_inv_def persist_def)

lemma run_tenant_inv:
  assumes "custody_inv (cw_history w) w"
  shows "custody_inv (cw_history (snd (run_tenant (Some log_pub) db now t config w))) (snd (run_tenant (Some log_pub) db now t config w))"
proof (cases "and_then (window_start config now) (\<lambda>start. resolved_reads db t start now)")
  case (Inl e)
  then show ?thesis using assms by (simp add: run_tenant_def)
next
  case (Inr by_asset)
  define snaps where "snaps = List.map_filter (\<lambda>(asset_id, reads). consolidate reads asset_id now config) by_asset"
  show ?thesis
  proof (cases "snaps = []")
    case True
    then show ?thesis using assms by (simp add: run_tenant_def Inr flip: snaps_def)
  next
    case False
    obtain err w' where emit: "emit_custody (Some log_pub) t snaps (persist t snaps w) = (err, w')" by fastforce
    have "custody_inv (cw_history w) (persist t snaps w)" using assms by (simp add: custody_inv_persist)
    from emit_custody_inv [OF this emit] have "err = None" and "custody_inv (cw_history w') w'"
      by (simp_all add: persist_def)
    with False emit show ?thesis by (simp add: run_tenant_def Inr flip: snaps_def)
  qed
qed

lemma run_tenants_inv:
  "custody_inv (cw_history w) w \<Longrightarrow>
     custody_inv (cw_history (snd (run_tenants (Some log_pub) db now ts n w))) (snd (run_tenants (Some log_pub) db now ts n w))"
proof (induction ts arbitrary: n w)
  case (Cons p ts)
  obtain t config where p: "p = (t, config)" by (cases p)
  obtain r w' where run: "run_tenant (Some log_pub) db now t config w = (r, w')" by fastforce
  have "custody_inv (cw_history w') w'" using run_tenant_inv [OF Cons.prems, of db now t config] run by simp
  then show ?case using Cons.IH by (cases r) (simp_all add: p run)
qed simp

lemma loop_inv:
  "custody_inv (cw_history (consolidation_loop validate (Some log_pub) ticks (new_worker [])))
     (consolidation_loop validate (Some log_pub) ticks (new_worker []))"
proof (induction ticks rule: rev_induct)
  case Nil
  then show ?case by (simp add: consolidation_loop_def new_worker_def custody_inv_def events_for_def)
next
  case (snoc tk ticks)
  then show ?case
    using run_tenants_inv by (simp add: consolidation_loop_def consolidation_run_once_def)
qed

text \<open>C20: over any sequence of ticks of a fresh worker, on any tables and clocks and whatever ticks raise, the custody
  events of an asset are exactly the changes of frame between consecutive rows of its history, each
  with the frame, zone and site it left: none for the first row, none between equal frames.\<close>

theorem custody_is_frame_changes:
  "let w = consolidation_loop validate (Some log_pub) ticks (new_worker []) in
     events_for (tenant, asset) (cw_bus w) = custody_events tenant (rows_of (tenant, asset) (cw_history w))"
  using custody_invD(2) [OF loop_inv, where key = "(tenant, asset)"] by (simp add: Let_def)

end
