(* ===== verification/LegTracker.thy ===== *)
theory LegTracker
  imports Legs ConsolidationWorker
begin

text \<open>
  The leg tracker (\<open>src/tagpulse/workers/leg_tracker.py\<close>): the table \<open>asset_legs\<close> as a dictionary from the
  primary key to rows, and the handler of custody events.  Together with the consolidation worker: the
  open leg of an asset is the trailing stretch of \<open>geo\<close> rows of its history.
\<close>

section \<open>The table\<close>

record leg =
  lg_tenant_id :: uuid
  lg_asset_id :: uuid
  lg_status :: string
  lg_origin_zone_id :: "uuid option"
  lg_origin_site_id :: "uuid option"
  lg_dest_zone_id :: "uuid option"
  lg_dest_site_id :: "uuid option"
  lg_departed_at :: datetime
  lg_arrived_at :: "datetime option"
  lg_summary :: "leg_env_summary option" \<comment> \<open>the eight summary columns; \<open>None\<close>: never written\<close>

type_synonym leg_table = "(uuid, leg) pydict"

text \<open>What a handler call finds: the clock, the database and the id of a row it may insert.\<close>

record leg_env =
  lt_fromisoformat :: "string \<Rightarrow> datetime option" \<comment> \<open>\<open>None\<close>: \<open>ValueError\<close>\<close>
  lt_validate :: "json \<Rightarrow> fusion_strategy option" \<comment> \<open>\<open>FusionStrategy.model_validate\<close>\<close>
  lt_now :: datetime
  lt_tenants :: "(uuid \<times> json option) list" \<comment> \<open>\<open>tenants.fusion_strategy\<close>\<close>
  lt_history :: "(uuid \<times> snapshot) list" \<comment> \<open>\<open>asset_state_history\<close>\<close>
  lt_new_id :: uuid

definition is_open :: "asset_key \<Rightarrow> leg \<Rightarrow> bool" where
  "is_open key l \<longleftrightarrow> (lg_tenant_id l, lg_asset_id l) = key \<and> lg_status l = ''open''"

section \<open>The handler\<close>

definition parse_ts :: "leg_env \<Rightarrow> json \<Rightarrow> datetime" where
  "parse_ts env raw = (case raw of
     JStr s \<Rightarrow> (case lt_fromisoformat env s of Some t \<Rightarrow> t | None \<Rightarrow> lt_now env)
   | _ \<Rightarrow> lt_now env)"

definition uuid_or_none :: "json \<Rightarrow> py_exn + uuid option" where
  "uuid_or_none raw = (case raw of
     JStr s \<Rightarrow> if s = [] then Inr None else map_sum id Some (uuid_of_string s)
   | _ \<Rightarrow> Inr None)"

text \<open>\<open>UUID(str(raw))\<close>: of the texts of other values only an integer's can have 32 hexadecimal digits.\<close>

definition uuid_of_text_of :: "json \<Rightarrow> py_exn + uuid" where
  "uuid_of_text_of raw = (case raw of
     JStr s \<Rightarrow> uuid_of_string s
   | JInt i \<Rightarrow> uuid_of_string (str_int i)
   | _ \<Rightarrow> Inl (ValueError ''badly formed hexadecimal UUID string''))"

definition FACILITY_FRAMES :: "string set" where
  "FACILITY_FRAMES = {''reader'', ''floor''}"

definition in_facility_frames :: "json \<Rightarrow> py_exn + bool" where
  "in_facility_frames frame =
     (if hashable frame then Inr (case frame of JStr s \<Rightarrow> s \<in> FACILITY_FRAMES | _ \<Rightarrow> False) else Inl TypeError)"

text \<open>An id that exists already violates the primary key; the transaction is rolled back.\<close>

definition open_leg ::
    "uuid \<Rightarrow> uuid \<Rightarrow> uuid \<Rightarrow> uuid option \<Rightarrow> uuid option \<Rightarrow> datetime \<Rightarrow> leg_table \<Rightarrow> py_exn + leg_table" where
  "open_leg new_id tenant_id asset_id origin_zone_id origin_site_id departed_at legs =
     (if new_id \<in> set (dict_keys legs) then Inl (OtherError ''IntegrityError'')
      else Inr (map (\<lambda>(i, l). (i, if is_open (tenant_id, asset_id) l
                               then l\<lparr>lg_status := ''closed'', lg_arrived_at := Some departed_at\<rparr> else l)) legs
        @ [(new_id, \<lparr>lg_tenant_id = tenant_id, lg_asset_id = asset_id, lg_status = ''open'',
             lg_origin_zone_id = origin_zone_id, lg_origin_site_id = origin_site_id, lg_dest_zone_id = None,
             lg_dest_site_id = None, lg_departed_at = departed_at, lg_arrived_at = None, lg_summary = None\<rparr>)]))"

definition tenant_sla :: "leg_env \<Rightarrow> uuid \<Rightarrow> sla_config option" where
  "tenant_sla env tenant_id = (case map_of (lt_tenants env) tenant_id of
     Some (Some raw) \<Rightarrow> if \<not> truthy raw then None
       else (case lt_validate env raw of None \<Rightarrow> None | Some strategy \<Rightarrow> fs_sla strategy)
   | _ \<Rightarrow> None)"

definition leg_samples :: "(uuid \<times> snapshot) list \<Rightarrow> asset_key \<Rightarrow> datetime \<Rightarrow> datetime \<Rightarrow> env_sample list" where
  "leg_samples history key departed_at arrived_at =
     map (\<lambda>s. \<lparr>sm_time = ss_time s, sm_temperature_c = ss_temperature_c s, sm_humidity_pct = ss_humidity_pct s\<rparr>)
       (sort_key ss_time (filter (\<lambda>s. departed_at \<le> ss_time s \<and> ss_time s \<le> arrived_at) (rows_of key history)))"

definition close_leg ::
    "leg_env \<Rightarrow> uuid \<Rightarrow> uuid \<Rightarrow> uuid option \<Rightarrow> uuid option \<Rightarrow> datetime \<Rightarrow> leg_table \<Rightarrow> leg_table" where
  "close_leg env tenant_id asset_id dest_zone_id dest_site_id arrived_at legs =
     (case filter (\<lambda>(i, l). is_open (tenant_id, asset_id) l) legs of
        [] \<Rightarrow> legs
      | row # rows \<Rightarrow>
          (let (leg_id, leg) = max_by (\<lambda>(i, l). lg_departed_at l) row rows;
               samples = leg_samples (lt_history env) (tenant_id, asset_id) (lg_departed_at leg) arrived_at;
               summary = summarize_leg_env samples (tenant_sla env tenant_id)
           in map (\<lambda>(i, l). (i, if i = leg_id
                     then l\<lparr>lg_status := ''closed'', lg_dest_zone_id := dest_zone_id, lg_dest_site_id := dest_site_id,
                            lg_arrived_at := Some arrived_at, lg_summary := Some summary\<rparr> else l)) legs))"

definition custody_step :: "leg_env \<Rightarrow> uuid \<Rightarrow> uuid \<Rightarrow> jobj \<Rightarrow> leg_table \<Rightarrow> py_exn + leg_table" where
  "custody_step env tenant_id asset_id payload legs =
     (let to_frame = jget payload ''to_frame''; from_frame = jget payload ''from_frame'';
          ts = parse_ts env (jget payload ''timestamp'') in
      and_then (if to_frame = JStr ''geo'' then in_facility_frames from_frame else Inr False) (\<lambda>departs.
      if departs
      then and_then (uuid_or_none (jget payload ''from_zone_id'')) (\<lambda>zone.
           and_then (uuid_or_none (jget payload ''from_site_id'')) (\<lambda>site.
             open_leg (lt_new_id env) tenant_id asset_id zone site ts legs))
      else and_then (in_facility_frames to_frame) (\<lambda>arrives.
        if arrives
        then and_then (uuid_or_none (jget payload ''zone_id'')) (\<lambda>zone.
             and_then (uuid_or_none (jget payload ''site_id'')) (\<lambda>site.
               Inr (close_leg env tenant_id asset_id zone site ts legs)))
        else Inr legs)))"

definition on_custody_changed :: "leg_env \<Rightarrow> event \<Rightarrow> leg_table \<Rightarrow> py_exn option \<times> leg_table" where
  "on_custody_changed env ev legs =
     (let payload = ev_payload ev; tenant_raw = jget payload ''tenant_id''; asset_raw = jget payload ''asset_id'' in
      if \<not> truthy tenant_raw \<or> \<not> truthy asset_raw then (None, legs)
      else (case and_then (uuid_of_text_of tenant_raw) (\<lambda>t. and_then (uuid_of_text_of asset_raw) (\<lambda>a. Inr (t, a))) of
          Inl e \<Rightarrow> (Some e, legs)
        | Inr (tenant_id, asset_id) \<Rightarrow>
            (None, case custody_step env tenant_id asset_id payload legs of Inl _ \<Rightarrow> legs | Inr legs' \<Rightarrow> legs')))"

text \<open>The events of a run, each with what its handler call finds.\<close>

definition track :: "(leg_env \<times> event) list \<Rightarrow> leg_table \<Rightarrow> leg_table" where
  "track calls legs = fold (\<lambda>(env, ev) legs. snd (on_custody_changed env ev legs)) calls legs"

section \<open>At most one open leg\<close>

definition open_of :: "asset_key \<Rightarrow> leg_table \<Rightarrow> leg list" where
  "open_of key legs = map snd (filter (\<lambda>(i, l). is_open key l) legs)"

definition legs_inv :: "leg_table \<Rightarrow> bool" where
  "legs_inv legs \<longleftrightarrow> wf_dict legs \<and> (\<forall>key. length (open_of key legs) \<le> 1)"

lemma open_of_Nil [simp]: "open_of key [] = []"
  by (simp add: open_of_def)

lemma open_of_append [simp]: "open_of key (xs @ ys) = open_of key xs @ open_of key ys"
  by (simp add: open_of_def)

lemma open_of_Cons [simp]: "open_of key ((i, l) # legs) = (if is_open key l then [l] else []) @ open_of key legs"
  by (simp add: open_of_def)

text \<open>Closing every open leg of a key, and opening a new one.\<close>

lemma open_of_close_all:
  "open_of key (map (\<lambda>(i, l). (i, if is_open key' l then l\<lparr>lg_status := ''closed'', lg_arrived_at := t\<rparr> else l)) legs)
     = (if key = key' then [] else open_of key legs)"
  by (induction legs) (auto simp: is_open_def)

lemma open_leg_ok:
  assumes "open_leg new_id t a zone site departed legs = Inr legs'"
  shows "open_of key legs' = (if key = (t, a) then [\<lparr>lg_tenant_id = t, lg_asset_id = a, lg_status = ''open'',
      lg_origin_zone_id = zone, lg_origin_site_id = site, lg_dest_zone_id = None, lg_dest_site_id = None,
      lg_departed_at = departed, lg_arrived_at = None, lg_summary = None\<rparr>] else open_of key legs)"
    and "dict_keys legs' = dict_keys legs @ [new_id]"
    and "new_id \<notin> set (dict_keys legs)"
proof -
  have new: "is_open k \<lparr>lg_tenant_id = t, lg_asset_id = a, lg_status = ''open'',
      lg_origin_zone_id = zone, lg_origin_site_id = site, lg_dest_zone_id = None, lg_dest_site_id = None,
      lg_departed_at = departed, lg_arrived_at = None, lg_summary = None\<rparr> \<longleftrightarrow> k = (t, a)" for k by (auto simp: is_open_def)
  show "open_of key legs' = (if key = (t, a) then [\<lparr>lg_tenant_id = t, lg_asset_id = a, lg_status = ''open'',
      lg_origin_zone_id = zone, lg_origin_site_id = site, lg_dest_zone_id = None, lg_dest_site_id = None,
      lg_departed_at = departed, lg_arrived_at = None, lg_summary = None\<rparr>] else open_of key legs)"
    using assms by (auto simp: open_leg_def open_of_close_all new split: if_splits)
  show "dict_keys legs' = dict_keys legs @ [new_id]" and "new_id \<notin> set (dict_keys legs)"
    using assms by (auto simp: open_leg_def o_def case_prod_beta split: if_splits)
qed

text \<open>Closing the one open leg of a key.\<close>

lemma open_of_update:
  assumes "wf_dict legs" and "(i, l) \<in> set legs" and "is_open key l" and "\<And>l. lg_status (f l) = ''closed''"
  shows "key' \<noteq> key \<Longrightarrow> open_of key' (map (\<lambda>(j, l). (j, if j = i then f l else l)) legs) = open_of key' legs"
    and "Suc (length (open_of key (map (\<lambda>(j, l). (j, if j = i then f l else l)) legs))) = length (open_of key legs)"
proof -
  have "(key' \<noteq> key \<longrightarrow> open_of key' (map (\<lambda>(j, l). (j, if j = i then f l else l)) legs) = open_of key' legs)
      \<and> Suc (length (open_of key (map (\<lambda>(j, l). (j, if j = i then f l else l)) legs))) = length (open_of key legs)"
    using assms(1,2)
  proof (induction legs)
    case (Cons p legs)
    obtain j l' where p: "p = (j, l')" by (cases p)
    show ?case
    proof (cases "j = i")
      case True
      with Cons.prems p have l': "l' = l" by (auto simp: image_iff)
      have "map (\<lambda>(j, l). (j, if j = i then f l else l)) legs = legs"
        using Cons.prems(1) p True by (intro map_idI) (auto simp: image_iff)
      then show ?thesis using assms(3,4) p True l' by (auto simp: is_open_def)
    next
      case False
      with Cons.prems p have "(i, l) \<in> set legs" and "wf_dict legs" by auto
      with Cons.IH False show ?thesis by (auto simp: p)
    qed
  qed simp
  then show "key' \<noteq> key \<Longrightarrow> open_of key' (map (\<lambda>(j, l). (j, if j = i then f l else l)) legs) = open_of key' legs"
    and "Suc (length (open_of key (map (\<lambda>(j, l). (j, if j = i then f l else l)) legs))) = length (open_of key legs)"
    by blast+
qed

lemma close_leg_ok:
  assumes "legs_inv legs" and "close_leg env t a zone site arrived legs = legs'"
  shows "open_of key legs' = (if key = (t, a) then [] else open_of key legs)" and "dict_keys legs' = dict_keys legs"
proof -
  have *: "open_of key legs' = (if key = (t, a) then [] else open_of key legs) \<and> dict_keys legs' = dict_keys legs"
  proof (cases "filter (\<lambda>(i, l). is_open (t, a) l) legs")
    case Nil
    then have "open_of (t, a) legs = []" by (simp add: open_of_def)
    with Nil assms(2) show ?thesis by (simp add: close_leg_def)
  next
    case (Cons row rows)
    obtain i l where m: "max_by (\<lambda>(i, l). lg_departed_at l) row rows = (i, l)" by fastforce
    then have "(i, l) \<in> set (filter (\<lambda>(i, l). is_open (t, a) l) legs)"
      using max_by_props [of "\<lambda>(i, l). lg_departed_at l" row rows] unfolding Cons by simp
    then have l: "(i, l) \<in> set legs" "is_open (t, a) l" by auto
    define f where "f = (\<lambda>x::leg. x\<lparr>lg_status := ''closed'', lg_dest_zone_id := zone, lg_dest_site_id := site, lg_arrived_at := Some arrived,
        lg_summary := Some (summarize_leg_env (leg_samples (lt_history env) (t, a) (lg_departed_at l) arrived) (tenant_sla env t))\<rparr>)"
    have f: "\<And>l. lg_status (f l) = ''closed''" by (simp add: f_def)
    have legs': "legs' = map (\<lambda>(j, l). (j, if j = i then f l else l)) legs"
      using assms(2) [symmetric] by (auto simp: close_leg_def Cons m Let_def f_def)
    have wf: "wf_dict legs" and one: "length (open_of (t, a) legs) \<le> 1" using assms(1) by (simp_all add: legs_inv_def)
    have "open_of (t, a) legs' = []"
    proof -
      have "length (open_of (t, a) legs') = 0" using open_of_update(2) [where f = f, OF wf l f] one unfolding legs' by linarith
      then show ?thesis by simp
    qed
    moreover have "key \<noteq> (t, a) \<Longrightarrow> open_of key legs' = open_of key legs"
      unfolding legs' by (rule open_of_update(1) [where f = f, OF wf l f])
    moreover have "dict_keys legs' = dict_keys legs" by (simp add: legs' o_def case_prod_beta)
    ultimately show ?thesis by simp
  qed
  then show "open_of key legs' = (if key = (t, a) then [] else open_of key legs)" and "dict_keys legs' = dict_keys legs" by blast+
qed

lemma custody_step_inv:
  assumes "legs_inv legs" and "custody_step env t a payload legs = Inr legs'"
  shows "legs_inv legs'"
proof -
  consider "legs' = legs" | zone site ts where "open_leg (lt_new_id env) t a zone site ts legs = Inr legs'"
    | zone site ts where "close_leg env t a zone site ts legs = legs'"
    using assms(2) by (auto simp: custody_step_def and_then_eq_Inr Let_def split: if_splits)
  then show ?thesis
  proof cases
    case 2
    note o = open_leg_ok [OF 2]
    show ?thesis using assms(1) o(3) unfolding legs_inv_def o(1,2) by auto
  next
    case 3
    note c = close_leg_ok [OF assms(1) 3]
    show ?thesis using assms(1) unfolding legs_inv_def c by auto
  qed (use assms(1) in simp)
qed

lemma on_custody_changed_inv: "legs_inv legs \<Longrightarrow> legs_inv (snd (on_custody_changed env ev legs))"
  using custody_step_inv by (auto simp: on_custody_changed_def Let_def split: sum.splits)

text \<open>Whatever custody events arrive, in whatever order, well-formed or not, and whatever each handler call finds,
  no asset ever has two open legs and no id occurs twice.\<close>

theorem one_open_leg:
  "wf_dict (track calls []) \<and> length (filter (\<lambda>(i, l). is_open key l) (track calls [])) \<le> 1"
proof -
  have "legs_inv (track calls [])"
  proof (induction calls rule: rev_induct)
    case (snoc call calls)
    then show ?case by (cases call) (simp add: track_def on_custody_changed_inv)
  qed (simp add: track_def legs_inv_def)
  then have "wf_dict (track calls [])" and "length (open_of key (track calls [])) \<le> 1" unfolding legs_inv_def by blast+
  then show ?thesis by (simp add: open_of_def)
qed

section \<open>The open leg and the history\<close>

type_synonym trip_view = "datetime \<times> uuid option \<times> uuid option"

definition view_of :: "asset_key \<Rightarrow> leg_table \<Rightarrow> trip_view option" where
  "view_of key legs = (case open_of key legs of
     [] \<Rightarrow> None | l # _ \<Rightarrow> Some (lg_departed_at l, lg_origin_zone_id l, lg_origin_site_id l))"

text \<open>The reference: the trailing stretch of \<open>geo\<close> rows, if some row precedes it.\<close>

definition trip :: "snapshot list \<Rightarrow> trip_view option" where
  "trip rows =
     (let geo = (\<lambda>s. ss_frame s = ''geo'') in
      case (takeWhile geo (rev rows), dropWhile geo (rev rows)) of
        (g # gs, f # fs) \<Rightarrow> Some (ss_time (List.last (g # gs)), ss_zone_id f, ss_site_id f)
      | _ \<Rightarrow> None)"

definition leg_change :: "fused_state \<Rightarrow> snapshot \<Rightarrow> trip_view option \<Rightarrow> trip_view option" where
  "leg_change = (\<lambda>(frame, zone, site) s v.
     if ss_frame s = ''geo'' \<and> frame \<in> FACILITY_FRAMES then Some (ss_time s, zone, site)
     else if ss_frame s \<in> FACILITY_FRAMES then None else v)"

fun leg_fold :: "snapshot list \<Rightarrow> trip_view option \<Rightarrow> trip_view option" where
  "leg_fold (p # q # rows) v = leg_fold (q # rows) (if ss_frame p = ss_frame q then v else leg_change (fused_state_of p) q v)"
| "leg_fold rows v = v"

lemma leg_fold_snoc:
  "leg_fold (rows @ [s]) v = (if rows = [] \<or> ss_frame (last rows) = ss_frame s then leg_fold rows v
     else leg_change (fused_state_of (last rows)) s (leg_fold rows v))"
  by (induction rows v rule: leg_fold.induct) auto

lemma trip_snoc:
  "ss_frame s \<noteq> ''geo'' \<Longrightarrow> trip (rows @ [s]) = None"
  "ss_frame s = ''geo'' \<Longrightarrow> ss_frame p \<noteq> ''geo'' \<Longrightarrow> trip (ps @ [p, s]) = Some (ss_time s, ss_zone_id p, ss_site_id p)"
  "ss_frame s = ''geo'' \<Longrightarrow> ss_frame p = ''geo'' \<Longrightarrow> trip (ps @ [p, s]) = trip (ps @ [p])"
  "trip [s] = None"
proof -
  show "trip (ps @ [p, s]) = trip (ps @ [p])" if "ss_frame s = ''geo''" and "ss_frame p = ''geo''"
  proof (cases "dropWhile (\<lambda>s. ss_frame s = ''geo'') (rev ps)")
    case Nil
    show ?thesis by (simp add: trip_def Let_def Nil that)
  next
    case (Cons f fs)
    show ?thesis by (simp add: trip_def Let_def Cons that)
  qed
qed (simp_all add: trip_def Let_def split: list.split)

lemma leg_fold_trip:
  assumes "\<forall>s \<in> set rows. ss_frame s \<in> {''reader'', ''floor'', ''geo''}"
  shows "leg_fold rows None = trip rows"
  using assms
proof (induction rows rule: rev_induct)
  case (snoc s rows)
  then have IH: "leg_fold rows None = trip rows" by simp
  have s: "ss_frame s \<noteq> ''geo'' \<Longrightarrow> ss_frame s \<in> FACILITY_FRAMES" using snoc.prems by (auto simp: FACILITY_FRAMES_def)
  show ?case
  proof (cases rows rule: rev_cases)
    case Nil
    then show ?thesis by (simp add: trip_snoc(4))
  next
    case (snoc ps p)
    have p: "ss_frame p \<noteq> ''geo'' \<Longrightarrow> ss_frame p \<in> FACILITY_FRAMES" using snoc.prems snoc by (auto simp: FACILITY_FRAMES_def)
    have fold: "leg_fold (rows @ [s]) None = (if ss_frame p = ss_frame s then trip rows else leg_change (fused_state_of p) s (trip rows))"
      unfolding leg_fold_snoc [of rows s] IH by (simp add: snoc)
    show ?thesis
    proof (cases "ss_frame s = ''geo''")
      case True
      then show ?thesis using p trip_snoc(2,3) [OF True, of p ps] unfolding fold
        by (auto simp: snoc leg_change_def fused_state_of_def)
    next
      case False
      then show ?thesis using s trip_snoc(1) [of p ps] trip_snoc(1) [of s "ps @ [p]"] unfolding fold
        by (auto simp: snoc leg_change_def fused_state_of_def)
    qed
  qed
qed (simp add: trip_def)

text \<open>The same step, read off an event.\<close>

definition opt_uuid_of :: "json \<Rightarrow> uuid option" where
  "opt_uuid_of j = (case uuid_or_none j of Inr u \<Rightarrow> u | Inl _ \<Rightarrow> None)"

definition leg_event :: "event \<Rightarrow> trip_view option \<Rightarrow> trip_view option" where
  "leg_event e v =
     (let p = ev_payload e in
      if jget p ''to_frame'' = JStr ''geo'' \<and> jget p ''from_frame'' \<in> JStr ` FACILITY_FRAMES
      then Some (ev_timestamp e, opt_uuid_of (jget p ''from_zone_id''), opt_uuid_of (jget p ''from_site_id''))
      else if jget p ''to_frame'' \<in> JStr ` FACILITY_FRAMES then None else v)"

lemma uuid_or_none_opt [simp]: "uuid_or_none (opt_uuid u) = Inr u"
  by (cases u) (simp_all add: uuid_or_none_def opt_uuid_def)

lemma opt_uuid_of_opt [simp]: "opt_uuid_of (opt_uuid u) = u"
  by (simp add: opt_uuid_of_def)

lemma payload_custody:
  "jget (ev_payload (custody_event t (f, z, st) s)) k =
     (if k = ''tenant_id'' then JStr (str_uuid t) else if k = ''asset_id'' then JStr (str_uuid (ss_asset_id s))
      else if k = ''from_frame'' then JStr f else if k = ''to_frame'' then JStr (ss_frame s)
      else if k = ''from_zone_id'' then opt_uuid z else if k = ''from_site_id'' then opt_uuid st
      else if k = ''zone_id'' then opt_uuid (ss_zone_id s) else if k = ''site_id'' then opt_uuid (ss_site_id s)
      else if k = ''confidence'' then JFloat (Fin (ss_confidence s))
      else if k = ''timestamp'' then JStr (isoformat (ss_time s)) else JNull)"
  by (simp add: custody_event_def jget_def)

lemma leg_event_custody: "leg_event (custody_event t prev s) v = leg_change prev s v"
proof -
  obtain f z st where prev: "prev = (f, z, st)" by (cases prev)
  have "ev_timestamp (custody_event t prev s) = ss_time s" by (simp add: custody_event_def prev)
  then show ?thesis by (auto simp: leg_event_def leg_change_def prev payload_custody Let_def)
qed

lemma leg_fold_events: "fold leg_event (custody_events t rows) v = leg_fold rows v"
  by (induction t rows arbitrary: v rule: custody_events.induct) (simp_all add: leg_event_custody)

section \<open>Worker and tracker together\<close>

text \<open>\<open>datetime.fromisoformat\<close> reads what \<open>isoformat\<close> writes.\<close>

definition reads_back :: "leg_env \<Rightarrow> datetime \<Rightarrow> bool" where
  "reads_back env t \<longleftrightarrow> lt_fromisoformat env (isoformat t) = Some t"

lemma on_custody_custody:
  fixes t :: uuid and prev :: fused_state and s :: snapshot
  assumes "legs_inv legs" and "reads_back env (ss_time s)" and "lt_new_id env \<notin> set (dict_keys legs)"
  defines "legs' \<equiv> snd (on_custody_changed env (custody_event t prev s) legs)"
  shows "view_of key legs' = (if key = (t, ss_asset_id s) then leg_change prev s (view_of key legs) else view_of key legs)"
    and "set (dict_keys legs') \<subseteq> insert (lt_new_id env) (set (dict_keys legs))"
proof -
  obtain f z st where prev: "prev = (f, z, st)" by (cases prev)
  let ?a = "ss_asset_id s"
  have ts: "parse_ts env (JStr (isoformat (ss_time s))) = ss_time s" using assms(2) by (simp add: parse_ts_def reads_back_def)
  have step: "custody_step env t ?a (ev_payload (custody_event t prev s)) legs =
      (if ss_frame s = ''geo'' \<and> f \<in> FACILITY_FRAMES then open_leg (lt_new_id env) t ?a z st (ss_time s) legs
       else if ss_frame s \<in> FACILITY_FRAMES then Inr (close_leg env t ?a (ss_zone_id s) (ss_site_id s) (ss_time s) legs)
       else Inr legs)"
    by (simp add: custody_step_def prev payload_custody ts in_facility_frames_def Let_def)
  have legs': "legs' = (case custody_step env t ?a (ev_payload (custody_event t prev s)) legs of Inl _ \<Rightarrow> legs | Inr l \<Rightarrow> l)"
    by (simp add: legs'_def on_custody_changed_def prev payload_custody uuid_of_text_of_def Let_def)
  consider (departs) "ss_frame s = ''geo'' \<and> f \<in> FACILITY_FRAMES" | (arrives) "ss_frame s \<in> FACILITY_FRAMES"
    | (neither) "\<not> (ss_frame s = ''geo'' \<and> f \<in> FACILITY_FRAMES)" "ss_frame s \<notin> FACILITY_FRAMES" by blast
  then have "view_of key legs' = (if key = (t, ?a) then leg_change prev s (view_of key legs) else view_of key legs)
      \<and> set (dict_keys legs') \<subseteq> insert (lt_new_id env) (set (dict_keys legs))"
  proof cases
    case departs
    then obtain l where l: "open_leg (lt_new_id env) t ?a z st (ss_time s) legs = Inr l"
      using assms(3) by (simp add: open_leg_def)
    with departs step legs' have "legs' = l" by simp
    with open_leg_ok [OF l] departs show ?thesis by (simp add: view_of_def leg_change_def prev)
  next
    case arrives
    then have "ss_frame s \<noteq> ''geo''" by (auto simp: FACILITY_FRAMES_def)
    moreover from this arrives step legs' have "close_leg env t ?a (ss_zone_id s) (ss_site_id s) (ss_time s) legs = legs'" by simp
    note close_leg_ok [OF assms(1) this]
    ultimately show ?thesis using arrives by (auto simp: view_of_def leg_change_def prev)
  next
    case neither
    with step legs' have "legs' = legs" by simp
    with neither show ?thesis by (auto simp: leg_change_def prev)
  qed
  then show "view_of key legs' = (if key = (t, ?a) then leg_change prev s (view_of key legs) else view_of key legs)"
    and "set (dict_keys legs') \<subseteq> insert (lt_new_id env) (set (dict_keys legs))" by blast+
qed

text \<open>Handler calls with fresh ids, one for each event of a list.\<close>

definition good_calls :: "(leg_env \<times> event) list \<Rightarrow> bool" where
  "good_calls calls \<longleftrightarrow> distinct (map (\<lambda>(env, e). lt_new_id env) calls) \<and> (\<forall>(env, e) \<in> set calls. reads_back env (ev_timestamp e))"

lemma track_view:
  assumes "good_calls calls" and "\<forall>e \<in> set (map snd calls). is_custody e"
  shows "legs_inv (track calls []) \<and> set (dict_keys (track calls [])) \<subseteq> set (map (\<lambda>(env, e). lt_new_id env) calls)
    \<and> view_of key (track calls []) = fold leg_event (events_for key (map snd calls)) None"
  using assms
proof (induction calls rule: rev_induct)
  case Nil
  then show ?case by (simp add: track_def legs_inv_def view_of_def events_for_def)
next
  case (snoc call calls)
  obtain env e where call: "call = (env, e)" by (cases call)
  let ?legs = "track calls []"
  have IH: "legs_inv ?legs" "set (dict_keys ?legs) \<subseteq> set (map (\<lambda>(env, e). lt_new_id env) calls)"
    "view_of key ?legs = fold leg_event (events_for key (map snd calls)) None"
    using snoc by (simp_all add: good_calls_def)
  obtain t prev s where e: "e = custody_event t prev s" using snoc.prems(2) by (auto simp: call is_custody_def)
  have "reads_back env (ss_time s)" and "lt_new_id env \<notin> set (dict_keys ?legs)"
    using snoc.prems(1) IH(2) by (auto simp: good_calls_def call e custody_event_def split: prod.splits)
  note step = on_custody_custody [OF IH(1) this, where t = t and prev = prev, folded e]
  have track: "track (calls @ [call]) [] = snd (on_custody_changed env e ?legs)" by (simp add: track_def call)
  have "view_of key (track (calls @ [call]) []) = fold leg_event (events_for key (map snd (calls @ [call]))) None"
    using IH(3) step(1) [where key = key] unfolding track
    by (cases "key = (t, ss_asset_id s)") (simp_all add: call e events_for_snoc leg_event_custody)
  moreover have "set (dict_keys (track (calls @ [call]) [])) \<subseteq> set (map (\<lambda>(env, e). lt_new_id env) (calls @ [call]))"
    using subset_trans [OF step(2) insert_mono [OF IH(2)]] unfolding track by (simp add: call)
  ultimately show ?case using on_custody_changed_inv [OF IH(1)] by (simp add: track)
qed

text \<open>C3: when the tracker handles the custody events of a fresh worker in order, then for an asset that was never in
  the ambiguous frame there is an open leg exactly while the newest rows of its history are in transit
  and some facility row precedes them; its departure is the time of the first of those rows, its origin
  the zone and site of the last facility row.\<close>

theorem legs_follow_history:
  assumes "w = consolidation_loop validate (Some log_pub) ticks (new_worker [])"
    and "map snd calls = cw_bus w" and "good_calls calls"
    and "\<forall>s \<in> set (rows_of (tenant, asset) (cw_history w)). ss_frame s \<in> {''reader'', ''floor'', ''geo''}"
  shows "map (\<lambda>l. (lg_departed_at l, lg_origin_zone_id l, lg_origin_site_id l)) (open_of (tenant, asset) (track calls []))
    = (case trip (rows_of (tenant, asset) (cw_history w)) of None \<Rightarrow> [] | Some v \<Rightarrow> [v])"
proof -
  let ?key = "(tenant, asset)"
  have inv: "custody_inv (cw_history w) w" unfolding assms(1) by (rule loop_inv)
  have view: "view_of ?key (track calls []) = fold leg_event (events_for ?key (cw_bus w)) None"
    and one: "length (open_of ?key (track calls [])) \<le> 1"
    using track_view [OF assms(3), of ?key] custody_invD(3) [OF inv] assms(2) unfolding legs_inv_def by simp_all
  have "trip (rows_of ?key (cw_history w)) = view_of ?key (track calls [])"
    unfolding view custody_invD(2) [OF inv] leg_fold_events using leg_fold_trip [OF assms(4)] by simp
  with one show ?thesis by (cases "open_of ?key (track calls [])") (simp_all add: view_of_def)
qed

section \<open>A trip\<close>

lemma consolidate_single:
  assumes "half_life_s c \<le> 0" and "min_reads c = 1" and "age_of now r \<le> lookback_s c" and "locates c r"
  shows "\<exists>s. consolidate [r] a now c = Some s \<and> ss_asset_id s = a \<and> ss_time s = now \<and> ss_frame s = rr_frame r
    \<and> ss_zone_id s = rr_zone_id r \<and> ss_site_id s = rr_site_id r"
  using assms by (simp add: consolidate_def kept_reads_def in_window_def vote_def key_of_read_def Let_def)

definition trip_read :: "uuid \<Rightarrow> real option \<Rightarrow> datetime \<Rightarrow> sensed_read_row" where
  "trip_read device lat t = \<lparr>tr_tenant_id = 1, tr_device_id = device, tr_tag_id = ''E2'', tr_epc = None, tr_epc_hex = Some ''E2'',
     tr_tid = None, tr_timestamp = t, tr_signal_strength = None, tr_latitude = lat, tr_longitude = lat, tr_sensor_data = None\<rparr>"

definition trip_tick :: "sensed_read_row \<Rightarrow> tick" where
  "trip_tick r = \<lparr>tk_now = tr_timestamp r, tk_tables = \<lparr>rt_zones = [dock_zone], rt_reads = [r], rt_bindings = [dock_binding]\<rparr>,
     tk_tenants = [(1, Some JNull)]\<rparr>"

definition trip_ticks :: "tick list" where
  "trip_ticks = [trip_tick (trip_read 5 None 0), trip_tick (trip_read 6 (Some 40) 60000000)]"

lemma trip_resolved:
  "resolved_reads (tk_tables (trip_tick (trip_read 5 None 0))) 1 (- 60000000) 0 =
     Inr [(3, [\<lparr>rr_asset_id = 3, rr_tag_key = ''E2'', rr_ts = 0, rr_read_count = 1, rr_rssi = None, rr_frame = ''reader'',
       rr_zone_id = Some 7, rr_site_id = Some 9, rr_lat = None, rr_lon = None, rr_x = None, rr_y = None,
       rr_temperature_c = None, rr_humidity_pct = None\<rparr>])]"
  "resolved_reads (tk_tables (trip_tick (trip_read 6 (Some 40) 60000000))) 1 0 60000000 =
     Inr [(3, [\<lparr>rr_asset_id = 3, rr_tag_key = ''E2'', rr_ts = 60000000, rr_read_count = 1, rr_rssi = None, rr_frame = ''geo'',
       rr_zone_id = None, rr_site_id = None, rr_lat = Some 40, rr_lon = Some 40, rr_x = None, rr_y = None,
       rr_temperature_c = None, rr_humidity_pct = None\<rparr>])]"
  by (simp_all add: resolved_reads_def load_raw_reads_def trip_tick_def trip_read_def dock_binding_def dock_zone_def
      binding_matches_def tag_read_row.defs load_zones_def candidate_of_row_def resolve_one_def read_count_of_def num_field_def
      Let_def)

lemma trip_worker:
  "\<exists>s1 s2. consolidation_loop (\<lambda>_. Some dock_strategy) (Some log_pub) trip_ticks (new_worker [])
      = \<lparr>cw_last_state = [((1, 3), fused_state_of s2)], cw_history = [(1, s1), (1, s2)],
         cw_bus = [custody_event 1 (''reader'', Some 7, Some 9) s2]\<rparr>
    \<and> ss_asset_id s1 = 3 \<and> ss_frame s1 = ''reader'' \<and> ss_zone_id s1 = Some 7 \<and> ss_site_id s1 = Some 9
    \<and> ss_asset_id s2 = 3 \<and> ss_frame s2 = ''geo'' \<and> ss_time s2 = 60000000"
proof -
  have tenants: "tenants_with_strategy (\<lambda>_. Some dock_strategy) [(1, Some JNull)] = [(1, dock_strategy)]"
    by (simp add: tenants_with_strategy_def List.map_filter_def)
  have window: "window_start dock_strategy 0 = Inr (- 60000000)" "window_start dock_strategy 60000000 = Inr 0"
    by (simp_all add: window_start_def dock_strategy_def DATETIME_MIN_US_def)
  let ?r1 = "\<lparr>rr_asset_id = 3, rr_tag_key = ''E2'', rr_ts = 0, rr_read_count = 1, rr_rssi = None, rr_frame = ''reader'',
       rr_zone_id = Some 7, rr_site_id = Some 9, rr_lat = None, rr_lon = None, rr_x = None, rr_y = None,
       rr_temperature_c = None, rr_humidity_pct = None\<rparr>"
  let ?r2 = "\<lparr>rr_asset_id = 3, rr_tag_key = ''E2'', rr_ts = 60000000, rr_read_count = 1, rr_rssi = None, rr_frame = ''geo'',
       rr_zone_id = None, rr_site_id = None, rr_lat = Some 40, rr_lon = Some 40, rr_x = None, rr_y = None,
       rr_temperature_c = None, rr_humidity_pct = None\<rparr>"
  obtain s1 where s1: "consolidate [?r1] 3 0 dock_strategy = Some s1" "ss_asset_id s1 = 3" "ss_frame s1 = ''reader''"
    "ss_zone_id s1 = Some 7" "ss_site_id s1 = Some 9"
    using consolidate_single [of dock_strategy 0 ?r1 3]
    by (auto simp: dock_strategy_def age_of_def total_seconds_def locates_def LOCATING_FRAMES_def)
  obtain s2 where s2: "consolidate [?r2] 3 60000000 dock_strategy = Some s2" "ss_asset_id s2 = 3" "ss_frame s2 = ''geo''"
    "ss_time s2 = 60000000"
    using consolidate_single [of dock_strategy 60000000 ?r2 3]
    by (auto simp: dock_strategy_def age_of_def total_seconds_def locates_def LOCATING_FRAMES_def)
  define t1 where "t1 = trip_tick (trip_read 5 None 0)"
  define t2 where "t2 = trip_tick (trip_read 6 (Some 40) 60000000)"
  have sel: "tk_now t1 = 0" "tk_now t2 = 60000000" "tk_tenants t1 = [(1, Some JNull)]" "tk_tenants t2 = [(1, Some JNull)]"
    by (simp_all add: t1_def t2_def trip_tick_def trip_read_def)
  have run1: "snd (consolidation_run_once (\<lambda>_. Some dock_strategy) (Some log_pub) t1 (new_worker []))
      = \<lparr>cw_last_state = [((1, 3), (''reader'', Some 7, Some 9))], cw_history = [(1, s1)], cw_bus = []\<rparr>"
    by (simp add: consolidation_run_once_def sel tenants run_tenant_def window trip_resolved(1) [folded t1_def] List.map_filter_def s1
        persist_def new_worker_def Let_def)
  have run2: "snd (consolidation_run_once (\<lambda>_. Some dock_strategy) (Some log_pub) t2
        \<lparr>cw_last_state = [((1, 3), (''reader'', Some 7, Some 9))], cw_history = [(1, s1)], cw_bus = []\<rparr>)
      = \<lparr>cw_last_state = [((1, 3), fused_state_of s2)], cw_history = [(1, s1), (1, s2)],
         cw_bus = [custody_event 1 (''reader'', Some 7, Some 9) s2]\<rparr>"
    by (simp add: consolidation_run_once_def sel tenants run_tenant_def window trip_resolved(2) [folded t2_def] List.map_filter_def s2
        persist_def log_pub_def fused_state_of_def Let_def)
  show ?thesis
    using s1(2-) s2(2-) by (intro exI [of _ s1] exI [of _ s2]) (simp add: consolidation_loop_def trip_ticks_def run1 run2 flip: t1_def t2_def)
qed

definition trip_env :: leg_env where
  "trip_env = \<lparr>lt_fromisoformat = (\<lambda>s. if s = isoformat 60000000 then Some 60000000 else None),
     lt_validate = (\<lambda>_. Some dock_strategy), lt_now = 61000000, lt_tenants = [(1, Some JNull)], lt_history = [], lt_new_id = 77\<rparr>"

theorem legs_follow_history_witness:
  "\<exists>ev. cw_bus (consolidation_loop (\<lambda>_. Some dock_strategy) (Some log_pub) trip_ticks (new_worker [])) = [ev]
     \<and> map (\<lambda>l. (lg_departed_at l, lg_origin_zone_id l, lg_origin_site_id l)) (open_of (1, 3) (track [(trip_env, ev)] []))
       = [(60000000, Some 7, Some 9)]"
proof -
  define w where "w = consolidation_loop (\<lambda>_. Some dock_strategy) (Some log_pub) trip_ticks (new_worker [])"
  obtain s1 s2 where w': "w = \<lparr>cw_last_state = [((1, 3), fused_state_of s2)], cw_history = [(1, s1), (1, s2)],
         cw_bus = [custody_event 1 (''reader'', Some 7, Some 9) s2]\<rparr>"
    and s1: "ss_asset_id s1 = 3" "ss_frame s1 = ''reader''" "ss_zone_id s1 = Some 7" "ss_site_id s1 = Some 9"
    and s2: "ss_asset_id s2 = 3" "ss_frame s2 = ''geo''" "ss_time s2 = 60000000"
    using trip_worker unfolding w_def by blast
  define ev where "ev = custody_event 1 (''reader'', Some 7, Some 9) s2"
  have bus: "cw_bus w = [ev]" by (simp add: w' ev_def)
  have calls: "good_calls [(trip_env, ev)]"
    by (simp add: good_calls_def reads_back_def trip_env_def ev_def custody_event_def s2)
  have rows: "rows_of (1, 3) (cw_history w) = [s1, s2]" by (simp add: w' s1 s2)
  have events: "map snd [(trip_env, ev)] = cw_bus w" by (simp add: bus)
  have frames: "\<forall>s \<in> set (rows_of (1, 3) (cw_history w)). ss_frame s \<in> {''reader'', ''floor'', ''geo''}"
    unfolding rows using s1 s2 by simp
  have trip: "trip [s1, s2] = Some (60000000, Some 7, Some 9)" using trip_snoc(2) [of s2 s1 "[]"] s1 s2 by simp
  have "map (\<lambda>l. (lg_departed_at l, lg_origin_zone_id l, lg_origin_site_id l)) (open_of (1, 3) (track [(trip_env, ev)] []))
      = [(60000000, Some 7, Some 9)]"
    using legs_follow_history [OF w_def events calls frames] unfolding rows trip option.case .
  with bus have "cw_bus w = [ev] \<and> map (\<lambda>l. (lg_departed_at l, lg_origin_zone_id l, lg_origin_site_id l)) (open_of (1, 3) (track [(trip_env, ev)] []))
      = [(60000000, Some 7, Some 9)]" by (rule conjI)
  then show ?thesis unfolding w_def by (rule exI)
qed

text \<open>A departure that is first seen through an ambiguous snapshot opens no leg, although the asset is then in transit.\<close>

lemma ambiguous_departure_is_lost:
  assumes "ss_frame p \<in> FACILITY_FRAMES" and "ss_frame n = ''none''" and "ss_frame g = ''geo''"
  shows "leg_fold [p, n, g] None = None" and "trip [p, n, g] \<noteq> None"
  using assms by (auto simp: leg_change_def fused_state_of_def FACILITY_FRAMES_def trip_def Let_def)

end
