(* ===== verification/Devices.thy ===== *)
theory Devices
  imports PyJson Tables
begin

text \<open>
  The device registry (\<open>repositories/timescaledb/devices.py\<close>) as ingestion uses it: the rows, look-ups, the marks of
  life, and the effective connection state (\<open>core/device_status.py\<close>).  Labels, tokens and certificates are left out.
\<close>

record device =
  d_id :: uuid
  d_tenant_id :: uuid
  d_name :: string
  d_device_type :: string
  d_status :: string
  d_mobility :: string
  d_site_id :: "uuid option"
  d_firmware_version :: "string option"
  d_connection_state :: string
  d_last_seen :: "datetime option"

definition ONLINE_WINDOW :: timedelta where
  "ONLINE_WINDOW = seconds 300"

definition is_fresh :: "datetime option \<Rightarrow> datetime \<Rightarrow> bool" where
  "is_fresh last_seen now = (case last_seen of None \<Rightarrow> False | Some t \<Rightarrow> t > now - ONLINE_WINDOW)"

definition effective_connection_state :: "string \<Rightarrow> datetime option \<Rightarrow> datetime \<Rightarrow> string" where
  "effective_connection_state connection_state last_seen now =
     (if connection_state = ''online'' \<and> \<not> is_fresh last_seen now then ''offline'' else connection_state)"

definition device_to_response :: "datetime \<Rightarrow> device \<Rightarrow> device" where
  "device_to_response now d =
     d\<lparr>d_connection_state := effective_connection_state (d_connection_state d) (d_last_seen d) now\<rparr>"

definition is_device :: "uuid \<Rightarrow> uuid \<Rightarrow> device \<Rightarrow> bool" where
  "is_device tenant_id device_id d \<longleftrightarrow> d_id d = device_id \<and> d_tenant_id d = tenant_id"

definition device_get :: "datetime \<Rightarrow> uuid \<Rightarrow> uuid \<Rightarrow> device list \<Rightarrow> device option" where
  "device_get now tenant_id device_id ds = map_option (device_to_response now) (find (is_device tenant_id device_id) ds)"

definition record_last_seen :: "uuid \<Rightarrow> uuid \<Rightarrow> datetime \<Rightarrow> device list \<Rightarrow> device list" where
  "record_last_seen tenant_id device_id seen_at ds =
     map (\<lambda>d. if is_device tenant_id device_id d then d\<lparr>d_last_seen := Some seen_at\<rparr> else d) ds"

definition record_connection_state :: "uuid \<Rightarrow> uuid \<Rightarrow> string \<Rightarrow> device list \<Rightarrow> device list" where
  "record_connection_state tenant_id device_id connection_state ds =
     map (\<lambda>d. if is_device tenant_id device_id d then d\<lparr>d_connection_state := connection_state\<rparr> else d) ds"

definition device_update_status ::
    "datetime \<Rightarrow> uuid \<Rightarrow> uuid \<Rightarrow> string \<Rightarrow> string option \<Rightarrow> device list \<Rightarrow> device option \<times> device list" where
  "device_update_status now tenant_id device_id connection_state firmware_version ds =
     (let upd = (\<lambda>d. d\<lparr>d_connection_state := connection_state,
            d_firmware_version := (case firmware_version of None \<Rightarrow> d_firmware_version d | Some v \<Rightarrow> Some v)\<rparr>)
      in case find (is_device tenant_id device_id) ds of
           None \<Rightarrow> (None, ds)
         | Some row \<Rightarrow> (Some (device_to_response now (upd row)), map (\<lambda>d. if is_device tenant_id device_id d then upd d else d) ds))"

definition decommission :: "datetime \<Rightarrow> uuid \<Rightarrow> uuid \<Rightarrow> device list \<Rightarrow> device option \<times> device list" where
  "decommission now tenant_id device_id ds =
     (let upd = (\<lambda>d. d\<lparr>d_status := ''decommissioned'', d_connection_state := ''offline''\<rparr>)
      in case find (is_device tenant_id device_id) ds of
           None \<Rightarrow> (None, ds)
         | Some row \<Rightarrow> (Some (device_to_response now (upd row)), map (\<lambda>d. if is_device tenant_id device_id d then upd d else d) ds))"

lemma find_map_keeps:
  assumes "\<And>d. P (f d) = P d"
  shows "find P (map f ds) = map_option f (find P ds)"
  using assms by (induction ds) auto

end
