(* ===== verification/Telemetry.thy ===== *)
theory Telemetry
  imports Devices EventBus PyTime
begin

text \<open>
  Telemetry (\<open>api/services/telemetry_service.py\<close>, \<open>repositories/timescaledb/telemetry.py\<close>): each reading is
  checked against the tenant's model of its device type, then stored and announced, or quarantined with a reason.
  The random identifiers of rows are left out.
\<close>

section \<open>Data\<close>

record telemetry_reading =
  g_timestamp :: datetime
  g_metric_name :: string
  g_metric_value :: pfloat
  g_unit :: "string option"
  g_metadata :: "jobj option"

record metric_definition =
  md_name :: string
  md_unit :: string
  md_min_value :: "pfloat option"
  md_max_value :: "pfloat option"

record telemetry_model =
  tmo_tenant_id :: uuid
  tmo_subject_kind :: string
  tmo_device_type :: "string option"
  tmo_metrics :: "metric_definition list"

record reading_row =
  rr_tenant_id :: uuid
  rr_subject_kind :: string
  rr_subject_id :: uuid
  rr_device_id :: "uuid option"
  rr_timestamp :: datetime
  rr_metric_name :: string
  rr_metric_value :: pfloat
  rr_unit :: "string option"
  rr_source :: string
  rr_metadata :: "jobj option"

record quarantine_row =
  qr_tenant_id :: uuid
  qr_device_id :: uuid
  qr_raw_payload :: telemetry_reading
  qr_reason :: string

record telemetry_db =
  td_readings :: "reading_row list"
  td_quarantine :: "quarantine_row list"
  td_events :: "event list"

datatype quarantine_reason = UNKNOWN_METRIC | OUT_OF_RANGE | UNIT_MISMATCH | STALE_TIMESTAMP

fun reason_value :: "quarantine_reason \<Rightarrow> string" where
  "reason_value UNKNOWN_METRIC = ''unknown_metric''"
| "reason_value OUT_OF_RANGE = ''out_of_range''"
| "reason_value UNIT_MISMATCH = ''unit_mismatch''"
| "reason_value STALE_TIMESTAMP = ''stale_timestamp''"

definition MAX_AGE :: timedelta where
  "MAX_AGE = seconds 86400"

definition MAX_FUTURE_SKEW :: timedelta where
  "MAX_FUTURE_SKEW = seconds 300"

definition timestamp_acceptable :: "datetime \<Rightarrow> datetime \<Rightarrow> bool" where
  "timestamp_acceptable now ts = (let delta = ts - now in if delta > MAX_FUTURE_SKEW then False else - delta \<le> MAX_AGE)"

section \<open>The repository\<close>

definition telemetry_insert :: "reading_row \<Rightarrow> telemetry_db \<Rightarrow> telemetry_db" where
  "telemetry_insert row db = db\<lparr>td_readings := td_readings db @ [row]\<rparr>"

text \<open>\<open>{**(reading.metadata or {}), **(metadata or {})}\<close>, or nothing when that is empty.\<close>

definition merged_metadata :: "jobj option \<Rightarrow> jobj option \<Rightarrow> jobj option" where
  "merged_metadata a b =
     (let merged = fold (\<lambda>(k, v) d. dict_set k v d) (case b of None \<Rightarrow> [] | Some d \<Rightarrow> d) (case a of None \<Rightarrow> [] | Some d \<Rightarrow> d)
      in if merged = [] then None else Some merged)"

definition insert_reading :: "uuid \<Rightarrow> uuid \<Rightarrow> telemetry_reading \<Rightarrow> jobj option \<Rightarrow> telemetry_db \<Rightarrow> reading_row \<times> telemetry_db" where
  "insert_reading tenant_id device_id reading metadata db =
     (let row = \<lparr>rr_tenant_id = tenant_id, rr_subject_kind = ''device'', rr_subject_id = device_id, rr_device_id = Some device_id,
            rr_timestamp = g_timestamp reading, rr_metric_name = g_metric_name reading, rr_metric_value = g_metric_value reading,
            rr_unit = g_unit reading, rr_source = ''device'', rr_metadata = merged_metadata (g_metadata reading) metadata\<rparr>
      in (row, telemetry_insert row db))"

definition quarantine :: "uuid \<Rightarrow> uuid \<Rightarrow> telemetry_reading \<Rightarrow> quarantine_reason \<Rightarrow> telemetry_db \<Rightarrow> telemetry_db" where
  "quarantine tenant_id device_id reading reason db =
     db\<lparr>td_quarantine := td_quarantine db @
       [\<lparr>qr_tenant_id = tenant_id, qr_device_id = device_id, qr_raw_payload = reading, qr_reason = reason_value reason\<rparr>]\<rparr>"

definition get_by_device_type :: "uuid \<Rightarrow> string \<Rightarrow> telemetry_model list \<Rightarrow> py_exn + telemetry_model option" where
  "get_by_device_type tenant_id device_type models =
     scalar_one_or_none (filter (\<lambda>m. tmo_tenant_id m = tenant_id \<and> tmo_subject_kind m = ''device'' \<and>
       tmo_device_type m = Some device_type) models)"

text \<open>\<open>{m.name: m for m in metrics}\<close>\<close>

definition metrics_by_name :: "telemetry_model option \<Rightarrow> (string, metric_definition) pydict" where
  "metrics_by_name model = (case model of None \<Rightarrow> [] | Some m \<Rightarrow> fold (\<lambda>d. dict_set (md_name d) d) (tmo_metrics m) [])"

section \<open>Events\<close>

definition json_text :: "string option \<Rightarrow> json" where
  "json_text s = (case s of None \<Rightarrow> JNull | Some t \<Rightarrow> JStr t)"

definition json_float :: "pfloat option \<Rightarrow> json" where
  "json_float x = (case x of None \<Rightarrow> JNull | Some v \<Rightarrow> JFloat v)"

definition recorded_payload :: "uuid \<Rightarrow> string \<Rightarrow> uuid \<Rightarrow> string \<Rightarrow> pfloat \<Rightarrow> string option \<Rightarrow> uuid \<Rightarrow> string \<Rightarrow> datetime \<Rightarrow> jobj" where
  "recorded_payload tenant_id subject_kind subject_id metric_name metric_value u device_id source ts =
     [(''tenant_id'', JStr (str_uuid tenant_id)), (''subject_kind'', JStr subject_kind), (''subject_id'', JStr (str_uuid subject_id)),
      (''metric_name'', JStr metric_name), (''metric_value'', JFloat metric_value), (''unit'', json_text u),
      (''device_id'', JStr (str_uuid device_id)), (''source'', JStr source), (''timestamp'', JStr (isoformat ts))]"

definition publish_event :: "topic \<Rightarrow> datetime \<Rightarrow> jobj \<Rightarrow> telemetry_db \<Rightarrow> telemetry_db" where
  "publish_event t ts payload db = db\<lparr>td_events := td_events db @ [\<lparr>ev_topic = t, ev_timestamp = ts, ev_payload = payload\<rparr>]\<rparr>"

definition publish_telemetry_recorded :: "uuid \<Rightarrow> uuid \<Rightarrow> reading_row \<Rightarrow> string \<Rightarrow> telemetry_db \<Rightarrow> telemetry_db" where
  "publish_telemetry_recorded tenant_id device_id row source db =
     publish_event TELEMETRY_RECORDED (rr_timestamp row)
       (recorded_payload tenant_id ''device'' device_id (rr_metric_name row) (rr_metric_value row) (rr_unit row) device_id source
         (rr_timestamp row)) db"

definition out_of_range_payload :: "uuid \<Rightarrow> uuid \<Rightarrow> telemetry_reading \<Rightarrow> metric_definition \<Rightarrow> jobj" where
  "out_of_range_payload tenant_id device_id reading d =
     [(''tenant_id'', JStr (str_uuid tenant_id)), (''device_id'', JStr (str_uuid device_id)), (''metric_name'', JStr (g_metric_name reading)),
      (''metric_value'', JFloat (g_metric_value reading)), (''min_value'', json_float (md_min_value d)),
      (''max_value'', json_float (md_max_value d)), (''timestamp'', JStr (isoformat (g_timestamp reading)))]"

section \<open>The service\<close>

definition out_of_range :: "metric_definition \<Rightarrow> pfloat \<Rightarrow> bool" where
  "out_of_range d v \<longleftrightarrow> (case md_min_value d of None \<Rightarrow> False | Some lo \<Rightarrow> pf_less v lo) \<or>
     (case md_max_value d of None \<Rightarrow> False | Some hi \<Rightarrow> pf_less hi v)"

definition process_reading ::
    "datetime \<Rightarrow> uuid \<Rightarrow> uuid \<Rightarrow> telemetry_reading \<Rightarrow> (string, metric_definition) pydict \<Rightarrow> telemetry_db \<Rightarrow> reading_row option \<times> telemetry_db" where
  "process_reading now tenant_id device_id reading metrics db =
     (if \<not> timestamp_acceptable now (g_timestamp reading)
      then (None, quarantine tenant_id device_id reading STALE_TIMESTAMP db)
      else case map_of metrics (g_metric_name reading) of
        None \<Rightarrow> (None, quarantine tenant_id device_id reading UNKNOWN_METRIC db)
      | Some d \<Rightarrow>
          if out_of_range d (g_metric_value reading)
          then (None, publish_event TELEMETRY_OUT_OF_RANGE now (out_of_range_payload tenant_id device_id reading d)
                  (quarantine tenant_id device_id reading OUT_OF_RANGE db))
          else (let (row, db) = insert_reading tenant_id device_id reading None db
                in (Some row, publish_telemetry_recorded tenant_id device_id row ''device'' db)))"

definition type_of_device :: "device option \<Rightarrow> string" where
  "type_of_device d = (case d of None \<Rightarrow> ''rfid_reader'' | Some row \<Rightarrow> d_device_type row)"

definition ingest_reading ::
    "datetime \<Rightarrow> device list \<Rightarrow> telemetry_model list \<Rightarrow> uuid \<Rightarrow> uuid \<Rightarrow> telemetry_reading \<Rightarrow> telemetry_db
      \<Rightarrow> py_exn + reading_row option \<times> telemetry_db" where
  "ingest_reading now devices models tenant_id device_id reading db =
     (let device_type = (case type_of_device (device_get now tenant_id device_id devices) of [] \<Rightarrow> ''rfid_reader'' | s \<Rightarrow> s) in
      and_then (get_by_device_type tenant_id device_type models) (\<lambda>model.
        Inr (process_reading now tenant_id device_id reading (metrics_by_name model) db)))"

definition telemetry_ingest_batch ::
    "datetime \<Rightarrow> device list \<Rightarrow> telemetry_model list \<Rightarrow> uuid \<Rightarrow> uuid \<Rightarrow> telemetry_reading list \<Rightarrow> telemetry_db
      \<Rightarrow> py_exn + (nat \<times> nat) \<times> telemetry_db" where
  "telemetry_ingest_batch now devices models tenant_id device_id readings db =
     and_then (get_by_device_type tenant_id (type_of_device (device_get now tenant_id device_id devices)) models) (\<lambda>model.
       Inr (fold (\<lambda>reading ((accepted, quarantined), db).
              case process_reading now tenant_id device_id reading (metrics_by_name model) db of
                (Some row, db') \<Rightarrow> ((accepted + 1, quarantined), db')
              | (None, db') \<Rightarrow> ((accepted, quarantined + 1), db')) readings ((0, 0), db)))"

record location_payload =
  lp_device_id :: uuid
  lp_timestamp :: datetime
  lp_latitude :: real
  lp_longitude :: real
  lp_accuracy_m :: "pfloat option"
  lp_source :: string

definition ingest_location :: "datetime \<Rightarrow> uuid \<Rightarrow> location_payload \<Rightarrow> telemetry_db \<Rightarrow> telemetry_db" where
  "ingest_location now tenant_id payload db =
     (if \<not> timestamp_acceptable now (lp_timestamp payload) then db
      else fold (\<lambda>(metric_name, v) db.
             let (row, db) = insert_reading tenant_id (lp_device_id payload)
                   \<lparr>g_timestamp = lp_timestamp payload, g_metric_name = metric_name, g_metric_value = Fin v, g_unit = Some ''deg'', g_metadata = None\<rparr>
                   (Some [(''source'', JStr (lp_source payload)), (''accuracy_m'', json_float (lp_accuracy_m payload))]) db
             in publish_telemetry_recorded tenant_id (lp_device_id payload) row ''device'' db)
           [(''location.latitude'', lp_latitude payload), (''location.longitude'', lp_longitude payload)] db)"

section \<open>A batch is sorted out\<close>

text \<open>The verdict on a reading, by what it says: outside the window of a day back and five minutes ahead, without a
  definition, outside the range of its definition, or none of these.\<close>

definition verdict :: "datetime \<Rightarrow> (string, metric_definition) pydict \<Rightarrow> telemetry_reading \<Rightarrow> quarantine_reason option" where
  "verdict now metrics g =
     (if g_timestamp g \<notin> {now - 86400000000 .. now + 300000000} then Some STALE_TIMESTAMP
      else case map_of metrics (g_metric_name g) of
        None \<Rightarrow> Some UNKNOWN_METRIC
      | Some d \<Rightarrow> if (\<exists>lo. md_min_value d = Some lo \<and> pf_less (g_metric_value g) lo) \<or> (\<exists>hi. md_max_value d = Some hi \<and> pf_less hi (g_metric_value g))
                  then Some OUT_OF_RANGE else None)"

definition row_of :: "uuid \<Rightarrow> uuid \<Rightarrow> telemetry_reading \<Rightarrow> reading_row" where
  "row_of t dev g = \<lparr>rr_tenant_id = t, rr_subject_kind = ''device'', rr_subject_id = dev, rr_device_id = Some dev,
     rr_timestamp = g_timestamp g, rr_metric_name = g_metric_name g, rr_metric_value = g_metric_value g, rr_unit = g_unit g,
     rr_source = ''device'', rr_metadata = merged_metadata (g_metadata g) None\<rparr>"

definition quarantine_row_of :: "datetime \<Rightarrow> (string, metric_definition) pydict \<Rightarrow> uuid \<Rightarrow> uuid \<Rightarrow> telemetry_reading \<Rightarrow> quarantine_row" where
  "quarantine_row_of now metrics t dev g = \<lparr>qr_tenant_id = t, qr_device_id = dev, qr_raw_payload = g,
     qr_reason = reason_value (the (verdict now metrics g))\<rparr>"

definition events_of :: "datetime \<Rightarrow> (string, metric_definition) pydict \<Rightarrow> uuid \<Rightarrow> uuid \<Rightarrow> telemetry_reading \<Rightarrow> event list" where
  "events_of now metrics t dev g = (case verdict now metrics g of
     None \<Rightarrow> [\<lparr>ev_topic = TELEMETRY_RECORDED, ev_timestamp = g_timestamp g, ev_payload =
        recorded_payload t ''device'' dev (g_metric_name g) (g_metric_value g) (g_unit g) dev ''device'' (g_timestamp g)\<rparr>]
   | Some OUT_OF_RANGE \<Rightarrow> [\<lparr>ev_topic = TELEMETRY_OUT_OF_RANGE, ev_timestamp = now, ev_payload =
        out_of_range_payload t dev g (the (map_of metrics (g_metric_name g)))\<rparr>]
   | Some _ \<Rightarrow> [])"

lemma acceptable_iff: "timestamp_acceptable now ts \<longleftrightarrow> ts \<in> {now - 86400000000 .. now + 300000000}"
  by (auto simp: timestamp_acceptable_def MAX_AGE_def MAX_FUTURE_SKEW_def seconds_def Let_def)

lemma out_of_range_iff:
  "out_of_range d v \<longleftrightarrow> (\<exists>lo. md_min_value d = Some lo \<and> pf_less v lo) \<or> (\<exists>hi. md_max_value d = Some hi \<and> pf_less hi v)"
  by (auto simp: out_of_range_def split: option.splits)

lemma process_reading_verdict:
  "process_reading now t dev g metrics db =
     (if verdict now metrics g = None then Some (row_of t dev g) else None,
      db\<lparr>td_readings := td_readings db @ (if verdict now metrics g = None then [row_of t dev g] else []),
         td_quarantine := td_quarantine db @ (if verdict now metrics g = None then [] else [quarantine_row_of now metrics t dev g]),
         td_events := td_events db @ events_of now metrics t dev g\<rparr>)"
  by (auto simp: process_reading_def verdict_def acceptable_iff out_of_range_iff quarantine_def publish_event_def insert_reading_def
      telemetry_insert_def publish_telemetry_recorded_def row_of_def quarantine_row_of_def events_of_def Let_def split: option.split)

text \<open>A batch of readings is sorted out exactly by verdict: the accepted ones are stored in order and announced, the others are
  quarantined in order with the first reason that applies, each out-of-range one is announced, and the counts say so.\<close>

theorem telemetry_batch_sorted_out:
  "telemetry_ingest_batch now devices models t dev readings db =
     and_then (get_by_device_type t (type_of_device (device_get now t dev devices)) models) (\<lambda>model.
       let metrics = metrics_by_name model; good = filter (\<lambda>g. verdict now metrics g = None) readings;
           bad = filter (\<lambda>g. verdict now metrics g \<noteq> None) readings
       in Inr ((length good, length bad),
            db\<lparr>td_readings := td_readings db @ map (row_of t dev) good,
               td_quarantine := td_quarantine db @ map (quarantine_row_of now metrics t dev) bad,
               td_events := td_events db @ concat (map (events_of now metrics t dev) readings)\<rparr>))"
proof -
  have "fold (\<lambda>reading ((accepted, quarantined), db).
              case process_reading now t dev reading metrics db of
                (Some row, db') \<Rightarrow> ((accepted + 1, quarantined), db')
              | (None, db') \<Rightarrow> ((accepted, quarantined + 1), db')) readings ((a, q), db) =
      ((a + length (filter (\<lambda>g. verdict now metrics g = None) readings), q + length (filter (\<lambda>g. verdict now metrics g \<noteq> None) readings)),
       db\<lparr>td_readings := td_readings db @ map (row_of t dev) (filter (\<lambda>g. verdict now metrics g = None) readings),
          td_quarantine := td_quarantine db @ map (quarantine_row_of now metrics t dev) (filter (\<lambda>g. verdict now metrics g \<noteq> None) readings),
          td_events := td_events db @ concat (map (events_of now metrics t dev) readings)\<rparr>)" for metrics a q db
    by (induction readings arbitrary: a q db) (auto simp: process_reading_verdict)
  then show ?thesis by (simp add: telemetry_ingest_batch_def Let_def)
qed

end
