(* ===== verification/TagReads.thy ===== *)
theory TagReads
  imports Epc PyTime
begin

text \<open>
  A tag read on its way into the database: the shape (\<open>models/schemas.py\<close>), the clock window
  (\<open>ingestion/clock.py\<close>), the cap on free-form tag data (\<open>ingestion/tag_data.py\<close>) and the normalisation of
  \<open>ingestion/service.py\<close>.  The length of a float's text is a parameter of the size of a JSON text.
\<close>

section \<open>Data\<close>

record location =
  lc_latitude :: real
  lc_longitude :: real
  lc_accuracy_m :: "pfloat option"
  lc_source :: string

record identity =
  id_epc :: "string option"
  id_epc_hex :: "string option"
  id_epc_scheme :: "string option"
  id_epc_decoded :: "jobj option"
  id_tid :: "string option"
  id_user_memory_hex :: "string option"

record tag_read =
  rd_device_id :: uuid
  rd_tag_id :: "string option"
  rd_timestamp :: datetime
  rd_signal_strength :: "pfloat option"
  rd_sensor_data :: "jobj option"
  rd_location :: "location option"
  rd_identity :: "identity option"
  rd_tag_data :: "jobj option"
  rd_reader_antenna :: "int option"

section \<open>The clock window\<close>

definition MAX_PAST :: timedelta where
  "MAX_PAST = seconds 86400"

definition MAX_FUTURE :: timedelta where
  "MAX_FUTURE = seconds 300"

definition check_clock_window :: "datetime \<Rightarrow> datetime \<Rightarrow> string option" where
  "check_clock_window timestamp now =
     (let skew = timestamp - now in
      if skew < - MAX_PAST then Some ''event_too_old''
      else if skew > MAX_FUTURE then Some ''event_in_future''
      else None)"

section \<open>The cap on tag data\<close>

text \<open>The length of \<open>json.dumps(x, separators=(",", ":"))\<close>; \<open>rep\<close> is the length of the text of a finite float.\<close>

definition char_size :: "char \<Rightarrow> nat" where
  "char_size c = (let n = ord_of c in
     if n = 34 \<or> n = 92 \<or> n = 8 \<or> n = 9 \<or> n = 10 \<or> n = 12 \<or> n = 13 then 2
     else if 32 \<le> n \<and> n \<le> 126 then 1 else 6)"

definition str_size :: "string \<Rightarrow> nat" where
  "str_size s = 2 + sum_list (map char_size s)"

definition with_commas :: "nat list \<Rightarrow> nat" where
  "with_commas ns = 2 + sum_list ns + (length ns - 1)"

function json_size :: "(real \<Rightarrow> nat) \<Rightarrow> json \<Rightarrow> nat" where
  "json_size rep JNull = 4"
| "json_size rep (JBool b) = (if b then 4 else 5)"
| "json_size rep (JInt i) = length (str_int i)"
| "json_size rep (JFloat x) = (case x of Fin r \<Rightarrow> rep r | NaN \<Rightarrow> 3 | PInf \<Rightarrow> 8 | NInf \<Rightarrow> 9)"
| "json_size rep (JStr s) = str_size s"
| "json_size rep (JList xs) = with_commas (map (json_size rep) xs)"
| "json_size rep (JObj d) = with_commas (map (\<lambda>(k, v). str_size k + 1 + json_size rep v) d)"
  by pat_completeness auto
termination by (relation "measure (\<lambda>(rep, j). size j)") (auto dest: size_obj_less simp: less_Suc_eq_le size_list_estimation')

definition TAG_DATA_MAX_BYTES :: nat where
  "TAG_DATA_MAX_BYTES = 4096"

definition TRUNCATION_OVERHEAD :: nat where
  "TRUNCATION_OVERHEAD = 19"

fun cap_loop :: "(real \<Rightarrow> nat) \<Rightarrow> jobj \<Rightarrow> jobj \<Rightarrow> jobj" where
  "cap_loop rep [] capped = capped"
| "cap_loop rep ((key, val) # items) capped =
     (let candidate = dict_set key val capped in
      if json_size rep (JObj candidate) + TRUNCATION_OVERHEAD > TAG_DATA_MAX_BYTES then capped
      else cap_loop rep items (dict_set key val capped))"

definition cap_tag_data :: "(real \<Rightarrow> nat) \<Rightarrow> jobj option \<Rightarrow> jobj option" where
  "cap_tag_data rep payload = (case payload of
     None \<Rightarrow> None
   | Some p \<Rightarrow> if p = [] \<or> json_size rep (JObj p) \<le> TAG_DATA_MAX_BYTES then Some p
               else Some (dict_set ''_truncated'' (JBool True) (cap_loop rep p [])))"

section \<open>Normalisation\<close>

definition nonempty :: "string option \<Rightarrow> bool" where
  "nonempty s = (case s of None \<Rightarrow> False | Some t \<Rightarrow> t \<noteq> [])"

text \<open>\<open>a or b\<close> on texts that may be absent.\<close>

definition text_or :: "string option \<Rightarrow> string option \<Rightarrow> string option" where
  "text_or a b = (if nonempty a then a else b)"

definition uri_of :: "jobj \<Rightarrow> string option" where
  "uri_of decoded = (case jget decoded ''uri'' of JStr s \<Rightarrow> Some s | _ \<Rightarrow> None)"

definition normalize_identity :: "identity option \<Rightarrow> py_exn + identity option" where
  "normalize_identity ident = (case ident of
     None \<Rightarrow> Inr None
   | Some i \<Rightarrow>
       if nonempty (id_epc_hex i) \<and> \<not> nonempty (id_epc i)
       then and_then (decode_epc_hex (the (id_epc_hex i))) (\<lambda>(scheme, decoded).
              Inr (Some \<lparr>id_epc = text_or (uri_of decoded) (id_epc_hex i), id_epc_hex = id_epc_hex i, id_epc_scheme = Some scheme,
                id_epc_decoded = (if decoded = [] then None else Some decoded), id_tid = id_tid i,
                id_user_memory_hex = id_user_memory_hex i\<rparr>))
       else Inr (Some i))"

definition effective_tag_id :: "string option \<Rightarrow> identity option \<Rightarrow> string" where
  "effective_tag_id tag_id ident =
     (case text_or tag_id (case ident of None \<Rightarrow> tag_id | Some i \<Rightarrow> text_or (text_or (id_epc i) (id_tid i)) (id_epc_hex i)) of
        None \<Rightarrow> [] | Some s \<Rightarrow> s)"

definition normalize :: "(real \<Rightarrow> nat) \<Rightarrow> tag_read \<Rightarrow> py_exn + tag_read" where
  "normalize rep rd =
     and_then (normalize_identity (rd_identity rd)) (\<lambda>ident.
       Inr (rd\<lparr>rd_tag_id := Some (effective_tag_id (rd_tag_id rd) ident), rd_identity := ident,
              rd_tag_data := cap_tag_data rep (rd_tag_data rd)\<rparr>))"

section \<open>The cap holds\<close>

definition entry_size :: "(real \<Rightarrow> nat) \<Rightarrow> string \<times> json \<Rightarrow> nat" where
  "entry_size rep = (\<lambda>(k, v). str_size k + 1 + json_size rep v)"

lemma obj_size: "json_size rep (JObj d) = 2 + sum_list (map (entry_size rep) d) + (length d - 1)"
  by (simp add: with_commas_def entry_size_def)

lemma entries_set:
  "sum_list (map (entry_size rep) (dict_set k v d)) \<le> sum_list (map (entry_size rep) d) + entry_size rep (k, v)
   \<and> length (dict_set k v d) \<le> length d + 1"
  by (induction d) (auto simp: entry_size_def)

text \<open>Marking a text as truncated costs at most 18 bytes more, 19 in an empty one, which is the overhead reserved.\<close>

lemma flag_size: "entry_size rep (''_truncated'', JBool True) = 17"
  by code_simp

lemma truncated_size:
  "d \<noteq> [] \<Longrightarrow> json_size rep (JObj (dict_set ''_truncated'' (JBool True) d)) \<le> json_size rep (JObj d) + 18"
  using entries_set [where k = "''_truncated''" and v = "JBool True" and rep = rep and d = d] unfolding flag_size obj_size
  by (cases d) auto

lemma cap_loop_size:
  "capped = [] \<or> json_size rep (JObj capped) + 19 \<le> 4096 \<Longrightarrow>
     cap_loop rep items capped = [] \<or> json_size rep (JObj (cap_loop rep items capped)) + 19 \<le> 4096"
proof (induction items arbitrary: capped)
  case (Cons p items)
  then show ?case by (cases p) (auto simp: Let_def TRUNCATION_OVERHEAD_def TAG_DATA_MAX_BYTES_def simp del: json_size.simps)
qed simp

lemma cap_loop_prefix:
  "wf_dict (capped @ items) \<Longrightarrow> \<exists>k \<le> length items. cap_loop rep items capped = capped @ take k items"
proof (induction items arbitrary: capped)
  case (Cons p items)
  obtain key val where p: "p = (key, val)" by (cases p)
  have fresh: "key \<notin> fst ` set capped" using Cons.prems p by auto
  then have "dict_set key val capped = capped @ [(key, val)]" by (induction capped) auto
  moreover from Cons.IH [of "capped @ [(key, val)]"] Cons.prems p
  obtain k where "k \<le> length items" "cap_loop rep items (capped @ [(key, val)]) = (capped @ [(key, val)]) @ take k items" by auto
  ultimately have step: "k \<le> length items" "cap_loop rep items (dict_set key val capped) = capped @ take (Suc k) (p # items)"
    by (simp_all add: p)
  show ?case
  proof (cases "json_size rep (JObj (dict_set key val capped)) + TRUNCATION_OVERHEAD > TAG_DATA_MAX_BYTES")
    case True
    then show ?thesis by (intro exI [of _ 0]) (simp add: p Let_def del: json_size.simps)
  next
    case False
    with step show ?thesis by (intro exI [of _ "Suc k"]) (simp add: p Let_def del: json_size.simps)
  qed
qed simp

text \<open>What is stored of the tag data never exceeds 4096 bytes of JSON; data that fits is stored as it is; else
  what is stored is a prefix of its keys, in order and unchanged, with the mark of a truncation.\<close>

theorem tag_data_fits:
  assumes "wf_dict p"
  shows "\<exists>q. cap_tag_data rep (Some p) = Some q \<and> json_size rep (JObj q) \<le> 4096 \<and>
    (if json_size rep (JObj p) \<le> 4096 then q = p
     else (\<exists>k. q = dict_set ''_truncated'' (JBool True) (take k p)))"
proof (cases "p = [] \<or> json_size rep (JObj p) \<le> 4096")
  case True
  moreover have "json_size rep (JObj []) = 2" by (simp add: with_commas_def)
  ultimately show ?thesis by (auto simp: cap_tag_data_def TAG_DATA_MAX_BYTES_def simp del: json_size.simps)
next
  case False
  let ?c = "cap_loop rep p []"
  have q: "cap_tag_data rep (Some p) = Some (dict_set ''_truncated'' (JBool True) ?c)"
    using False by (simp add: cap_tag_data_def TAG_DATA_MAX_BYTES_def del: json_size.simps)
  obtain k where k: "?c = take k p" using cap_loop_prefix [of "[]" p rep] assms by auto
  have "json_size rep (JObj (dict_set ''_truncated'' (JBool True) ?c)) \<le> 4096"
  proof (cases "?c = []")
    case True
    then show ?thesis using flag_size [of rep] by (simp add: obj_size del: json_size.simps)
  next
    case False
    then show ?thesis using truncated_size [OF False, of rep] cap_loop_size [of "[]" rep p] by (simp del: json_size.simps)
  qed
  with q k False show ?thesis by (auto simp del: json_size.simps)
qed

theorem tag_data_fits_witness:
  "\<exists>q. cap_tag_data (\<lambda>_. 3) (Some [(''a'', JInt 1), (''b'', JStr (replicate 5000 CHR ''x''))]) = Some q
     \<and> json_size (\<lambda>_. 3) (JObj q) \<le> 4096"
  using tag_data_fits [of "[(''a'', JInt 1), (''b'', JStr (replicate 5000 CHR ''x''))]" "\<lambda>_. 3"] by auto

end
