(* ===== verification/Inventory.thy ===== *)
theory Inventory
  imports PyJson Tables
begin

text \<open>
  Inventory: products, lots, stock items, the movement ledger and tag-data mappings
  (\<open>repositories/timescaledb/inventory.py\<close>, \<open>api/services/inventory_service.py\<close>, the tables of
  \<open>models/database.py\<close> with the constraints of \<open>migrations/versions/020_inventory.py\<close> and
  \<open>021_inventory_hardening.py\<close>).  An operation is one transaction: an exception leaves the tables as they were.
\<close>

section \<open>Rows\<close>

datatype product_unit = Each | Case | Pallet

datatype stock_state = InStock | InTransit | Consumed | Expired | Lost

record product =
  p_id :: uuid
  p_tenant_id :: uuid
  p_sku :: string
  p_gtin :: "string option"
  p_name :: string
  p_category :: "string option"
  p_unit :: product_unit
  p_attributes :: "jobj option"
  p_created_at :: datetime
  p_updated_at :: datetime

record lot =
  l_id :: uuid
  l_tenant_id :: uuid
  l_product_id :: uuid
  l_lot_code :: string
  l_manufactured_at :: "datetime option"
  l_expires_at :: "datetime option"
  l_metadata :: "jobj option"
  l_created_at :: datetime

record stock_item =
  s_id :: uuid
  s_tenant_id :: uuid
  s_product_id :: uuid
  s_lot_id :: "uuid option"
  s_parent_id :: "uuid option"
  s_binding_value :: string
  s_binding_kind :: string
  s_state :: stock_state
  s_current_zone_id :: "uuid option"
  s_first_seen_at :: datetime
  s_last_seen_at :: datetime
  s_consumed_at :: "datetime option"
  s_metadata :: "jobj option"

record movement =
  m_id :: uuid
  m_tenant_id :: uuid
  m_stock_item_id :: uuid
  m_from_zone_id :: "uuid option"
  m_to_zone_id :: "uuid option"
  m_movement_type :: string
  m_quantity :: int
  m_device_id :: "uuid option"
  m_occurred_at :: datetime

record mapping =
  t_id :: uuid
  t_tenant_id :: uuid
  t_scope_kind :: string
  t_scope_id :: "uuid option"
  t_semantic_field :: string
  t_tag_data_key :: string
  t_transform :: "string option"
  t_created_at :: datetime

record audit =
  a_tenant_id :: uuid
  a_user_id :: "uuid option"
  a_action :: string
  a_resource_type :: string
  a_resource_id :: uuid
  a_changes :: "jobj option"

record inventory =
  products :: "product list"
  lots :: "lot list"
  stock_items :: "stock_item list"
  movements :: "movement list"
  mappings :: "mapping list"
  audits :: "audit list"

section \<open>Requests\<close>

record product_create_body =
  pc_sku :: string
  pc_gtin :: "string option"
  pc_name :: string
  pc_category :: "string option"
  pc_unit :: product_unit
  pc_attributes :: "jobj option"

record product_update_body =
  pu_sku :: "string option option"
  pu_gtin :: "string option option"
  pu_name :: "string option option"
  pu_category :: "string option option"
  pu_unit :: "product_unit option option"
  pu_attributes :: "jobj option option"

record lot_create_body =
  lc_lot_code :: string
  lc_manufactured_at :: "datetime option"
  lc_expires_at :: "datetime option"
  lc_metadata :: "jobj option"

record lot_update_body =
  lu_lot_code :: "string option option"
  lu_manufactured_at :: "datetime option option"
  lu_expires_at :: "datetime option option"
  lu_metadata :: "jobj option option"

record stock_item_create =
  sc_product_id :: uuid
  sc_lot_id :: "uuid option"
  sc_parent_id :: "uuid option"
  sc_binding_value :: string
  sc_binding_kind :: string
  sc_metadata :: "jobj option"

record stock_item_update =
  su_state :: "stock_state option option"
  su_lot_id :: "uuid option option"
  su_parent_id :: "uuid option option"
  su_metadata :: "jobj option option"

record stock_movement_create =
  mc_product_id :: uuid
  mc_lot_id :: "uuid option"
  mc_zone_id :: "uuid option"
  mc_movement_type :: string
  mc_quantity :: int
  mc_reason :: string
  mc_stock_item_id :: "uuid option"

record mapping_create_body =
  tc_scope_kind :: string
  tc_scope_id :: "uuid option"
  tc_semantic_field :: string
  tc_tag_data_key :: string
  tc_transform :: "string option"

record mapping_update_body =
  tu_semantic_field :: "string option option"
  tu_tag_data_key :: "string option option"
  tu_transform :: "string option option"

definition check_scope_consistency :: "mapping_create_body \<Rightarrow> py_exn + mapping_create_body" where
  "check_scope_consistency c =
     (if tc_scope_kind c = ''tenant'' \<and> tc_scope_id c \<noteq> None then Inl (ValueError ''scope_id must be null when scope_kind=tenant'')
      else if tc_scope_kind c \<noteq> ''tenant'' \<and> tc_scope_id c = None then Inl (ValueError ''scope_id is required'')
      else Inr c)"

section \<open>The constraints of the tables\<close>

definition integrity_error :: py_exn where
  "integrity_error = OtherError ''IntegrityError''"

definition active_state :: "stock_state \<Rightarrow> bool" where
  "active_state st \<longleftrightarrow> st \<notin> {Consumed, Expired, Lost}"

abbreviation always :: "'r \<Rightarrow> bool" where
  "always \<equiv> \<lambda>_. True"

definition sku_key :: "product \<Rightarrow> uuid \<times> string" where
  "sku_key p = (p_tenant_id p, p_sku p)"

definition lot_key :: "lot \<Rightarrow> uuid \<times> uuid \<times> string" where
  "lot_key l = (l_tenant_id l, l_product_id l, l_lot_code l)"

definition active_item :: "stock_item \<Rightarrow> bool" where
  "active_item s \<longleftrightarrow> active_state (s_state s)"

definition binding_key :: "stock_item \<Rightarrow> uuid \<times> string \<times> string" where
  "binding_key s = (s_tenant_id s, s_binding_kind s, s_binding_value s)"

text \<open>A null is distinct from every null in a unique constraint.\<close>

definition scoped_mapping :: "mapping \<Rightarrow> bool" where
  "scoped_mapping m \<longleftrightarrow> t_scope_id m \<noteq> None"

definition mapping_key :: "mapping \<Rightarrow> uuid \<times> string \<times> uuid option \<times> string" where
  "mapping_key m = (t_tenant_id m, t_scope_kind m, t_scope_id m, t_semantic_field m)"

text \<open>A reference to a row that must exist; an absent one is none.\<close>

definition ref_ok :: "uuid option \<Rightarrow> ('r \<Rightarrow> uuid) \<Rightarrow> 'r list \<Rightarrow> bool" where
  "ref_ok r pk rows \<longleftrightarrow> (case r of None \<Rightarrow> True | Some i \<Rightarrow> i \<in> pk ` set rows)"

definition product_fits :: "product \<Rightarrow> inventory \<Rightarrow> bool" where
  "product_fits p db \<longleftrightarrow> \<not> clashes always sku_key p_id p (products db)"

definition lot_fits :: "lot \<Rightarrow> inventory \<Rightarrow> bool" where
  "lot_fits l db \<longleftrightarrow> \<not> clashes always lot_key l_id l (lots db) \<and> l_product_id l \<in> p_id ` set (products db)"

definition item_fits :: "stock_item \<Rightarrow> inventory \<Rightarrow> bool" where
  "item_fits s db \<longleftrightarrow> s_binding_kind s \<in> {''epc'', ''tid''} \<and>
     \<not> clashes active_item binding_key s_id s (stock_items db) \<and> s_product_id s \<in> p_id ` set (products db) \<and>
     ref_ok (s_lot_id s) l_id (lots db) \<and> (s_parent_id s = Some (s_id s) \<or> ref_ok (s_parent_id s) s_id (stock_items db))"

definition movement_fits :: "movement \<Rightarrow> inventory \<Rightarrow> bool" where
  "movement_fits m db \<longleftrightarrow> m_movement_type m \<in> {''enter'', ''exit'', ''transfer'', ''consume''} \<and>
     m_stock_item_id m \<in> s_id ` set (stock_items db)"

definition mapping_fits :: "mapping \<Rightarrow> inventory \<Rightarrow> bool" where
  "mapping_fits m db \<longleftrightarrow> t_scope_kind m \<in> {''tenant'', ''product''} \<and>
     (t_scope_kind m = ''tenant'' \<longleftrightarrow> t_scope_id m = None) \<and>
     \<not> clashes scoped_mapping mapping_key t_id m (mappings db)"

section \<open>The audit log\<close>

text \<open>
  The changes of an audit row are stored as JSON; a value that is not JSON (a date, a UUID) makes the
  commit fail, and with it the whole transaction.
\<close>

definition audit_log ::
    "uuid \<Rightarrow> uuid option \<Rightarrow> string \<Rightarrow> string \<Rightarrow> uuid \<Rightarrow> (string \<times> json option) list option \<Rightarrow> inventory \<Rightarrow> py_exn + inventory" where
  "audit_log tenant_id user_id action resource_type resource_id changes db =
     (if \<exists>cs. changes = Some cs \<and> None \<in> snd ` set cs then Inl (OtherError ''StatementError'')
      else Inr (db\<lparr>audits := audits db @
        [\<lparr>a_tenant_id = tenant_id, a_user_id = user_id, a_action = action, a_resource_type = resource_type,
          a_resource_id = resource_id,
          a_changes = map_option (map (\<lambda>(k, v). (k, case v of None \<Rightarrow> JNull | Some j \<Rightarrow> j))) changes\<rparr>]\<rparr>))"

text \<open>\<open>model_dump(exclude_unset=True)\<close>, field by field.\<close>

definition dumped :: "string \<Rightarrow> ('a \<Rightarrow> json option) \<Rightarrow> 'a option \<Rightarrow> (string \<times> json option) list" where
  "dumped name dump u = (case u of None \<Rightarrow> [] | Some v \<Rightarrow> [(name, dump v)])"

definition dump_text :: "string option \<Rightarrow> json option" where
  "dump_text v = Some (case v of None \<Rightarrow> JNull | Some s \<Rightarrow> JStr s)"

definition dump_obj :: "jobj option \<Rightarrow> json option" where
  "dump_obj v = Some (case v of None \<Rightarrow> JNull | Some d \<Rightarrow> JObj d)"

definition dump_python :: "'a option \<Rightarrow> json option" where \<comment> \<open>dates and UUIDs\<close>
  "dump_python v = (case v of None \<Rightarrow> Some JNull | Some _ \<Rightarrow> None)"

fun unit_text :: "product_unit \<Rightarrow> string" where
  "unit_text Each = ''each''"
| "unit_text Case = ''case''"
| "unit_text Pallet = ''pallet''"

fun state_text :: "stock_state \<Rightarrow> string" where
  "state_text InStock = ''in_stock''"
| "state_text InTransit = ''in_transit''"
| "state_text Consumed = ''consumed''"
| "state_text Expired = ''expired''"
| "state_text Lost = ''lost''"

section \<open>Products\<close>

definition product_create :: "uuid \<Rightarrow> datetime \<Rightarrow> uuid \<Rightarrow> product_create_body \<Rightarrow> inventory \<Rightarrow> py_exn + product \<times> inventory" where
  "product_create new_id now tenant_id payload db =
     (let row = \<lparr>p_id = new_id, p_tenant_id = tenant_id, p_sku = pc_sku payload, p_gtin = pc_gtin payload, p_name = pc_name payload,
            p_category = pc_category payload, p_unit = pc_unit payload, p_attributes = pc_attributes payload,
            p_created_at = now, p_updated_at = now\<rparr>
      in if new_id \<in> p_id ` set (products db) \<or> \<not> product_fits row db then Inl (ValueError ''sku already in use for this tenant'')
         else Inr (row, db\<lparr>products := products db @ [row]\<rparr>))"

definition product_get :: "uuid \<Rightarrow> uuid \<Rightarrow> inventory \<Rightarrow> product option" where
  "product_get tenant_id product_id db = find (\<lambda>p. p_id p = product_id \<and> p_tenant_id p = tenant_id) (products db)"

definition product_get_by_gtin :: "uuid \<Rightarrow> string \<Rightarrow> inventory \<Rightarrow> py_exn + product option" where
  "product_get_by_gtin tenant_id gtin db =
     scalar_one_or_none (filter (\<lambda>p. p_tenant_id p = tenant_id \<and> p_gtin p = Some gtin) (products db))"

text \<open>\<open>ILIKE\<close> on ASCII texts: \<open>%\<close> any text, \<open>_\<close> any character, a backslash quotes.\<close>

fun ilike :: "string \<Rightarrow> string \<Rightarrow> bool" where
  "ilike [] s = (s = [])"
| "ilike (c # p) [] = (c = CHR ''%'' \<and> ilike p [])"
| "ilike (c # p) (x # s) =
     (if c = CHR ''%'' then ilike p (x # s) \<or> ilike (c # p) s
      else if c = CHR ''_'' then ilike p s
      else if c = CHR 0x5C then (case p of [] \<Rightarrow> False | e # p' \<Rightarrow> lower_char e = lower_char x \<and> ilike p' s)
      else lower_char c = lower_char x \<and> ilike p s)"

definition ilike_opt :: "string \<Rightarrow> string option \<Rightarrow> bool" where
  "ilike_opt like v = (case v of None \<Rightarrow> False | Some s \<Rightarrow> ilike like s)"

definition opt_filter :: "'a option \<Rightarrow> ('r \<Rightarrow> 'a \<Rightarrow> bool) \<Rightarrow> 'r list \<Rightarrow> 'r list" where
  "opt_filter v test rows = (case v of None \<Rightarrow> rows | Some x \<Rightarrow> filter (\<lambda>r. test r x) rows)"

definition product_list :: "uuid \<Rightarrow> string option \<Rightarrow> string option \<Rightarrow> nat \<Rightarrow> nat \<Rightarrow> inventory \<Rightarrow> product list" where
  "product_list tenant_id category q limit offset db =
     page limit offset (order_desc p_created_at
       (opt_filter (case q of Some t \<Rightarrow> if t = [] then None else Some (''%'' @ t @ ''%'') | None \<Rightarrow> None)
          (\<lambda>p like. ilike like (p_name p) \<or> ilike like (p_sku p) \<or> ilike_opt like (p_gtin p))
       (opt_filter category (\<lambda>p c. p_category p = Some c)
       (filter (\<lambda>p. p_tenant_id p = tenant_id) (products db)))))"

definition product_patch :: "product_update_body \<Rightarrow> product \<Rightarrow> product" where
  "product_patch u p = p\<lparr>p_sku := patched_not_null (pu_sku u) (p_sku p), p_gtin := patched (pu_gtin u) (p_gtin p),
     p_name := patched_not_null (pu_name u) (p_name p), p_category := patched (pu_category u) (p_category p),
     p_unit := patched_not_null (pu_unit u) (p_unit p), p_attributes := patched (pu_attributes u) (p_attributes p)\<rparr>"

definition product_update :: "uuid \<Rightarrow> uuid \<Rightarrow> product_update_body \<Rightarrow> inventory \<Rightarrow> py_exn + product option \<times> inventory" where
  "product_update tenant_id product_id u db =
     (case product_get tenant_id product_id db of
        None \<Rightarrow> Inr (None, db)
      | Some row \<Rightarrow>
          if sets_null (pu_sku u) \<or> sets_null (pu_name u) \<or> sets_null (pu_unit u) \<or> \<not> product_fits (product_patch u row) db
          then Inl (ValueError ''sku already in use for this tenant'')
          else Inr (Some (product_patch u row), db\<lparr>products := update_row p_id product_id (product_patch u) (products db)\<rparr>))"

definition clear_lots :: "uuid set \<Rightarrow> stock_item \<Rightarrow> stock_item" where \<comment> \<open>\<open>ON DELETE SET NULL\<close>\<close>
  "clear_lots gone s = (case s_lot_id s of Some l \<Rightarrow> if l \<in> gone then s\<lparr>s_lot_id := None\<rparr> else s | None \<Rightarrow> s)"

definition product_delete :: "uuid \<Rightarrow> uuid \<Rightarrow> inventory \<Rightarrow> py_exn + bool \<times> inventory" where
  "product_delete tenant_id product_id db =
     (if \<exists>s \<in> set (stock_items db). s_tenant_id s = tenant_id \<and> s_product_id s = product_id
      then Inl (ValueError ''cannot delete product with stock items (retire it instead)'')
      else case product_get tenant_id product_id db of
        None \<Rightarrow> Inr (False, db)
      | Some row \<Rightarrow>
          if \<exists>s \<in> set (stock_items db). s_product_id s = product_id then Inl integrity_error
          else Inr (True, db\<lparr>products := delete_row p_id product_id (products db),
                  lots := filter (\<lambda>l. l_product_id l \<noteq> product_id) (lots db),
                  stock_items := map (clear_lots (l_id ` {l \<in> set (lots db). l_product_id l = product_id})) (stock_items db)\<rparr>))"

section \<open>Lots\<close>

definition lot_create :: "uuid \<Rightarrow> datetime \<Rightarrow> uuid \<Rightarrow> uuid \<Rightarrow> lot_create_body \<Rightarrow> inventory \<Rightarrow> py_exn + lot \<times> inventory" where
  "lot_create new_id now tenant_id product_id payload db =
     (let row = \<lparr>l_id = new_id, l_tenant_id = tenant_id, l_product_id = product_id, l_lot_code = lc_lot_code payload,
            l_manufactured_at = lc_manufactured_at payload, l_expires_at = lc_expires_at payload,
            l_metadata = lc_metadata payload, l_created_at = now\<rparr>
      in if new_id \<in> l_id ` set (lots db) \<or> \<not> lot_fits row db then Inl (ValueError ''lot_code already exists for this product'')
         else Inr (row, db\<lparr>lots := lots db @ [row]\<rparr>))"

definition lot_get :: "uuid \<Rightarrow> uuid \<Rightarrow> inventory \<Rightarrow> lot option" where
  "lot_get tenant_id lot_id db = find (\<lambda>l. l_id l = lot_id \<and> l_tenant_id l = tenant_id) (lots db)"

text \<open>\<open>ORDER BY expires_at ASC NULLS LAST\<close>\<close>

definition by_expiry :: "lot list \<Rightarrow> lot list" where
  "by_expiry ls = sort_key (\<lambda>l. case l_expires_at l of None \<Rightarrow> DATETIME_MAX + 1 | Some t \<Rightarrow> t) ls"

definition expires_by :: "datetime \<Rightarrow> lot \<Rightarrow> bool" where
  "expires_by cutoff l \<longleftrightarrow> (case l_expires_at l of None \<Rightarrow> False | Some t \<Rightarrow> t \<le> cutoff)"

definition lot_list_for_product ::
    "datetime \<Rightarrow> uuid \<Rightarrow> uuid \<Rightarrow> int option \<Rightarrow> nat \<Rightarrow> nat \<Rightarrow> inventory \<Rightarrow> py_exn + lot list" where
  "lot_list_for_product now tenant_id product_id expiring_within_days limit offset db =
     (let ls = filter (\<lambda>l. l_tenant_id l = tenant_id \<and> l_product_id l = product_id) (lots db)
      in case expiring_within_days of
           None \<Rightarrow> Inr (page limit offset (by_expiry ls))
         | Some days \<Rightarrow>
             (let cutoff = now + seconds (days * 86400)
              in if cutoff > DATETIME_MAX then Inl (ValueError ''year is out of range'')
                 else Inr (page limit offset (by_expiry (filter (expires_by cutoff) ls)))))"

definition lot_list_all :: "datetime \<Rightarrow> uuid \<Rightarrow> int option \<Rightarrow> nat \<Rightarrow> nat \<Rightarrow> inventory \<Rightarrow> py_exn + lot list" where
  "lot_list_all now tenant_id expiring_within_days limit offset db =
     (let ls = filter (\<lambda>l. l_tenant_id l = tenant_id) (lots db)
      in case expiring_within_days of
           None \<Rightarrow> Inr (page limit offset (by_expiry ls))
         | Some days \<Rightarrow>
             (let cutoff = now + seconds (days * 86400)
              in if cutoff > DATETIME_MAX then Inl OverflowError
                 else Inr (page limit offset (by_expiry (filter (expires_by cutoff) ls)))))"

definition lot_patch :: "lot_update_body \<Rightarrow> lot \<Rightarrow> lot" where
  "lot_patch u l = l\<lparr>l_lot_code := patched_not_null (lu_lot_code u) (l_lot_code l),
     l_manufactured_at := patched (lu_manufactured_at u) (l_manufactured_at l),
     l_expires_at := patched (lu_expires_at u) (l_expires_at l), l_metadata := patched (lu_metadata u) (l_metadata l)\<rparr>"

definition lot_update :: "uuid \<Rightarrow> uuid \<Rightarrow> lot_update_body \<Rightarrow> inventory \<Rightarrow> py_exn + lot option \<times> inventory" where
  "lot_update tenant_id lot_id u db =
     (case lot_get tenant_id lot_id db of
        None \<Rightarrow> Inr (None, db)
      | Some row \<Rightarrow>
          if sets_null (lu_lot_code u) \<or> \<not> lot_fits (lot_patch u row) db
          then Inl (ValueError ''lot_code already exists for this product'')
          else Inr (Some (lot_patch u row), db\<lparr>lots := update_row l_id lot_id (lot_patch u) (lots db)\<rparr>))"

definition lot_delete :: "uuid \<Rightarrow> uuid \<Rightarrow> inventory \<Rightarrow> py_exn + bool \<times> inventory" where
  "lot_delete tenant_id lot_id db =
     (if \<exists>s \<in> set (stock_items db). s_tenant_id s = tenant_id \<and> s_lot_id s = Some lot_id
      then Inl (ValueError ''Cannot delete lot: stock item(s) reference it'')
      else case lot_get tenant_id lot_id db of
        None \<Rightarrow> Inr (False, db)
      | Some row \<Rightarrow> Inr (True, db\<lparr>lots := delete_row l_id lot_id (lots db),
                 stock_items := map (clear_lots {lot_id}) (stock_items db)\<rparr>))"

section \<open>Stock items\<close>

definition stock_create :: "uuid \<Rightarrow> datetime \<Rightarrow> uuid \<Rightarrow> stock_item_create \<Rightarrow> inventory \<Rightarrow> py_exn + stock_item \<times> inventory" where
  "stock_create new_id now tenant_id payload db =
     (let row = \<lparr>s_id = new_id, s_tenant_id = tenant_id, s_product_id = sc_product_id payload, s_lot_id = sc_lot_id payload,
            s_parent_id = sc_parent_id payload, s_binding_value = sc_binding_value payload,
            s_binding_kind = sc_binding_kind payload, s_state = InStock, s_current_zone_id = None,
            s_first_seen_at = now, s_last_seen_at = now, s_consumed_at = None, s_metadata = sc_metadata payload\<rparr>
      in if new_id \<in> s_id ` set (stock_items db) \<or> \<not> item_fits row db
         then Inl (ValueError ''active stock item with this binding_value already exists'')
         else Inr (row, db\<lparr>stock_items := stock_items db @ [row]\<rparr>))"

definition stock_get :: "uuid \<Rightarrow> uuid \<Rightarrow> inventory \<Rightarrow> stock_item option" where
  "stock_get tenant_id stock_item_id db = find (\<lambda>s. s_id s = stock_item_id \<and> s_tenant_id s = tenant_id) (stock_items db)"

definition get_active_by_binding :: "uuid \<Rightarrow> string \<Rightarrow> string \<Rightarrow> inventory \<Rightarrow> py_exn + stock_item option" where
  "get_active_by_binding tenant_id binding_kind binding_value db =
     scalar_one_or_none (filter (\<lambda>s. s_tenant_id s = tenant_id \<and> s_binding_kind s = binding_kind \<and>
       s_binding_value s = binding_value \<and> active_item s) (stock_items db))"

definition stock_list ::
    "uuid \<Rightarrow> uuid option \<Rightarrow> uuid option \<Rightarrow> uuid option \<Rightarrow> stock_state option \<Rightarrow> nat \<Rightarrow> nat \<Rightarrow> inventory \<Rightarrow> stock_item list" where
  "stock_list tenant_id product_id lot_id zone_id st limit offset db =
     page limit offset (order_desc s_last_seen_at
       (opt_filter st (\<lambda>s x. s_state s = x)
       (opt_filter zone_id (\<lambda>s z. s_current_zone_id s = Some z)
       (opt_filter lot_id (\<lambda>s l. s_lot_id s = Some l)
       (opt_filter product_id (\<lambda>s p. s_product_id s = p)
       (filter (\<lambda>s. s_tenant_id s = tenant_id) (stock_items db)))))))"

definition stock_patch :: "datetime \<Rightarrow> stock_item_update \<Rightarrow> stock_item \<Rightarrow> stock_item" where
  "stock_patch now u s =
     s\<lparr>s_consumed_at := (if su_state u = Some (Some Consumed) \<and> s_consumed_at s = None then Some now else s_consumed_at s),
       s_state := patched_not_null (su_state u) (s_state s), s_lot_id := patched (su_lot_id u) (s_lot_id s),
       s_parent_id := patched (su_parent_id u) (s_parent_id s), s_metadata := patched (su_metadata u) (s_metadata s)\<rparr>"

text \<open>No handler: a violated constraint leaves the repository as it is.\<close>

definition stock_update :: "datetime \<Rightarrow> uuid \<Rightarrow> uuid \<Rightarrow> stock_item_update \<Rightarrow> inventory \<Rightarrow> py_exn + stock_item option \<times> inventory" where
  "stock_update now tenant_id stock_item_id u db =
     (case stock_get tenant_id stock_item_id db of
        None \<Rightarrow> Inr (None, db)
      | Some row \<Rightarrow>
          if sets_null (su_state u) \<or> \<not> item_fits (stock_patch now u row) db then Inl integrity_error
          else Inr (Some (stock_patch now u row),
                 db\<lparr>stock_items := update_row s_id stock_item_id (stock_patch now u) (stock_items db)\<rparr>))"

text \<open>The zone before and after, or nothing for an item that is missing or no longer active.\<close>

definition record_observation ::
    "uuid \<Rightarrow> uuid \<Rightarrow> uuid option \<Rightarrow> datetime \<Rightarrow> inventory \<Rightarrow> (uuid option \<times> uuid option) option \<times> inventory" where
  "record_observation tenant_id stock_item_id zone_id observed_at db =
     (case find (\<lambda>s. s_id s = stock_item_id \<and> s_tenant_id s = tenant_id \<and> active_item s) (stock_items db) of
        None \<Rightarrow> (None, db)
      | Some row \<Rightarrow> (Some (s_current_zone_id row, zone_id),
          db\<lparr>stock_items := update_row s_id stock_item_id
             (\<lambda>s. s\<lparr>s_last_seen_at := observed_at, s_current_zone_id := zone_id\<rparr>) (stock_items db)\<rparr>))"

text \<open>The view \<open>stock_levels\<close>: the number of items in stock by tenant, product, lot and zone.\<close>

type_synonym level_key = "uuid \<times> uuid \<times> uuid option \<times> uuid option"

definition level_of :: "stock_item \<Rightarrow> level_key" where
  "level_of s = (s_tenant_id s, s_product_id s, s_lot_id s, s_current_zone_id s)"

definition stock_levels_view :: "inventory \<Rightarrow> (level_key, int) pydict" where
  "stock_levels_view db =
     fold (\<lambda>s d. dict_set (level_of s) (1 + (case map_of d (level_of s) of None \<Rightarrow> 0 | Some n \<Rightarrow> n)) d)
       (filter (\<lambda>s. s_state s = InStock) (stock_items db)) []"

definition stock_levels :: "uuid \<Rightarrow> uuid option \<Rightarrow> uuid option \<Rightarrow> inventory \<Rightarrow> (uuid \<times> uuid option \<times> uuid option \<times> int) list" where
  "stock_levels tenant_id product_id zone_id db =
     order_desc (\<lambda>(p, l, z, n). n)
       (map (\<lambda>((t, p, l, z), n). (p, l, z, n))
         (opt_filter zone_id (\<lambda>((t, p, l, z), n) z'. z = Some z')
         (opt_filter product_id (\<lambda>((t, p, l, z), n) p'. p = p')
         (filter (\<lambda>((t, p, l, z), n). t = tenant_id) (stock_levels_view db)))))"

definition clear_parent :: "uuid \<Rightarrow> stock_item \<Rightarrow> stock_item" where
  "clear_parent gone s = (if s_parent_id s = Some gone then s\<lparr>s_parent_id := None\<rparr> else s)"

text \<open>The last check is the foreign key of the ledger; the service asks the ledger first (\<open>svc_delete_stock_item\<close>), so that
  only a movement of another tenant gets that far.\<close>

definition stock_delete :: "uuid \<Rightarrow> uuid \<Rightarrow> bool \<Rightarrow> inventory \<Rightarrow> py_exn + bool \<times> inventory" where
  "stock_delete tenant_id stock_item_id force db =
     (case stock_get tenant_id stock_item_id db of
        None \<Rightarrow> Inr (False, db)
      | Some row \<Rightarrow>
          if s_state row = InStock \<and> \<not> force
          then Inl (ValueError ''Cannot delete an in_stock item; use ?force=true or change state first'')
          else if \<exists>m \<in> set (movements db). m_stock_item_id m = stock_item_id then Inl integrity_error
          else Inr (True, db\<lparr>stock_items := map (clear_parent stock_item_id) (delete_row s_id stock_item_id (stock_items db))\<rparr>))"

section \<open>The movement ledger\<close>

definition movement_insert ::
    "uuid \<Rightarrow> uuid \<Rightarrow> uuid \<Rightarrow> uuid option \<Rightarrow> uuid option \<Rightarrow> string \<Rightarrow> uuid option \<Rightarrow> datetime \<Rightarrow> int \<Rightarrow> inventory
      \<Rightarrow> py_exn + movement \<times> inventory" where
  "movement_insert new_id tenant_id stock_item_id from_zone_id to_zone_id movement_type device_id occurred_at quantity db =
     (let row = \<lparr>m_id = new_id, m_tenant_id = tenant_id, m_stock_item_id = stock_item_id, m_from_zone_id = from_zone_id,
            m_to_zone_id = to_zone_id, m_movement_type = movement_type, m_quantity = quantity, m_device_id = device_id,
            m_occurred_at = occurred_at\<rparr>
      in if (new_id, occurred_at) \<in> (\<lambda>m. (m_id m, m_occurred_at m)) ` set (movements db) \<or> \<not> movement_fits row db
         then Inl integrity_error
         else Inr (row, db\<lparr>movements := movements db @ [row]\<rparr>))"

definition count_for_stock_item :: "uuid \<Rightarrow> uuid \<Rightarrow> inventory \<Rightarrow> nat" where
  "count_for_stock_item tenant_id stock_item_id db =
     length (filter (\<lambda>m. m_tenant_id m = tenant_id \<and> m_stock_item_id m = stock_item_id) (movements db))"

definition movement_list ::
    "uuid \<Rightarrow> uuid option \<Rightarrow> uuid option \<Rightarrow> uuid option \<Rightarrow> datetime option \<Rightarrow> datetime option \<Rightarrow> nat \<Rightarrow> nat \<Rightarrow> inventory
      \<Rightarrow> movement list" where
  "movement_list tenant_id stock_item_id product_id zone_id since until limit offset db =
     page limit offset (order_desc m_occurred_at
       (opt_filter until (\<lambda>m t. m_occurred_at m \<le> t)
       (opt_filter since (\<lambda>m t. m_occurred_at m \<ge> t)
       (opt_filter zone_id (\<lambda>m z. m_from_zone_id m = Some z \<or> m_to_zone_id m = Some z)
       (opt_filter product_id (\<lambda>m p. m_stock_item_id m \<in>
          s_id ` {s \<in> set (stock_items db). s_tenant_id s = tenant_id \<and> s_product_id s = p})
       (opt_filter stock_item_id (\<lambda>m i. m_stock_item_id m = i)
       (filter (\<lambda>m. m_tenant_id m = tenant_id) (movements db))))))))"

section \<open>Tag-data mappings\<close>

definition mapping_create :: "uuid \<Rightarrow> datetime \<Rightarrow> uuid \<Rightarrow> mapping_create_body \<Rightarrow> inventory \<Rightarrow> py_exn + mapping \<times> inventory" where
  "mapping_create new_id now tenant_id payload db =
     (let row = \<lparr>t_id = new_id, t_tenant_id = tenant_id, t_scope_kind = tc_scope_kind payload, t_scope_id = tc_scope_id payload,
            t_semantic_field = tc_semantic_field payload, t_tag_data_key = tc_tag_data_key payload,
            t_transform = tc_transform payload, t_created_at = now\<rparr>
      in if new_id \<in> t_id ` set (mappings db) \<or> \<not> mapping_fits row db
         then Inl (ValueError ''mapping already exists for this scope + semantic_field'')
         else Inr (row, db\<lparr>mappings := mappings db @ [row]\<rparr>))"

definition mapping_list :: "uuid \<Rightarrow> string option \<Rightarrow> uuid option \<Rightarrow> inventory \<Rightarrow> mapping list" where
  "mapping_list tenant_id scope_kind scope_id db =
     sort_key t_created_at
       (opt_filter scope_id (\<lambda>m i. t_scope_id m = Some i)
       (opt_filter scope_kind (\<lambda>m k. t_scope_kind m = k)
       (filter (\<lambda>m. t_tenant_id m = tenant_id) (mappings db))))"

definition mapping_get :: "uuid \<Rightarrow> uuid \<Rightarrow> inventory \<Rightarrow> mapping option" where
  "mapping_get tenant_id mapping_id db = find (\<lambda>m. t_id m = mapping_id \<and> t_tenant_id m = tenant_id) (mappings db)"

definition mapping_patch :: "mapping_update_body \<Rightarrow> mapping \<Rightarrow> mapping" where
  "mapping_patch u m = m\<lparr>t_semantic_field := patched_not_null (tu_semantic_field u) (t_semantic_field m),
     t_tag_data_key := patched_not_null (tu_tag_data_key u) (t_tag_data_key m), t_transform := patched (tu_transform u) (t_transform m)\<rparr>"

definition mapping_update :: "uuid \<Rightarrow> uuid \<Rightarrow> mapping_update_body \<Rightarrow> inventory \<Rightarrow> py_exn + mapping option \<times> inventory" where
  "mapping_update tenant_id mapping_id u db =
     (case mapping_get tenant_id mapping_id db of
        None \<Rightarrow> Inr (None, db)
      | Some row \<Rightarrow>
          if sets_null (tu_semantic_field u) \<or> sets_null (tu_tag_data_key u) \<or> \<not> mapping_fits (mapping_patch u row) db
          then Inl (ValueError ''mapping already exists for this scope + semantic_field'')
          else Inr (Some (mapping_patch u row), db\<lparr>mappings := update_row t_id mapping_id (mapping_patch u) (mappings db)\<rparr>))"

definition mapping_delete :: "uuid \<Rightarrow> uuid \<Rightarrow> inventory \<Rightarrow> bool \<times> inventory" where
  "mapping_delete tenant_id mapping_id db =
     (case mapping_get tenant_id mapping_id db of
        None \<Rightarrow> (False, db)
      | Some row \<Rightarrow> (True, db\<lparr>mappings := delete_row t_id mapping_id (mappings db)\<rparr>))"

section \<open>The service\<close>

definition not_found :: py_exn where
  "not_found = OtherError ''ProductNotFoundError''"

definition svc_create_product ::
    "uuid \<Rightarrow> datetime \<Rightarrow> uuid \<Rightarrow> uuid option \<Rightarrow> product_create_body \<Rightarrow> inventory \<Rightarrow> py_exn + product \<times> inventory" where
  "svc_create_product new_id now tenant_id user_id payload db =
     and_then (product_create new_id now tenant_id payload db) (\<lambda>(p, db).
     and_then (audit_log tenant_id user_id ''product.created'' ''product'' (p_id p)
         (Some [(''sku'', Some (JStr (p_sku p))), (''name'', Some (JStr (p_name p)))]) db) (\<lambda>db. Inr (p, db)))"

definition product_changes :: "product_update_body \<Rightarrow> (string \<times> json option) list" where
  "product_changes u = dumped ''sku'' dump_text (pu_sku u) @ dumped ''gtin'' dump_text (pu_gtin u) @ dumped ''name'' dump_text (pu_name u) @
     dumped ''category'' dump_text (pu_category u) @ dumped ''unit'' (\<lambda>v. dump_text (map_option unit_text v)) (pu_unit u) @
     dumped ''attributes'' dump_obj (pu_attributes u)"

text \<open>An audited update: a row that is missing leaves no trace.\<close>

definition audited_update ::
    "uuid \<Rightarrow> uuid option \<Rightarrow> string \<Rightarrow> string \<Rightarrow> uuid \<Rightarrow> (string \<times> json option) list \<Rightarrow> py_exn + 'r option \<times> inventory
      \<Rightarrow> py_exn + 'r option \<times> inventory" where
  "audited_update tenant_id user_id action resource_type i changes outcome =
     and_then outcome (\<lambda>(r, db). case r of
        None \<Rightarrow> Inr (None, db)
      | Some row \<Rightarrow> and_then (audit_log tenant_id user_id action resource_type i (Some changes) db) (\<lambda>db. Inr (Some row, db)))"

definition audited_delete ::
    "uuid \<Rightarrow> uuid option \<Rightarrow> string \<Rightarrow> string \<Rightarrow> uuid \<Rightarrow> py_exn + bool \<times> inventory \<Rightarrow> py_exn + bool \<times> inventory" where
  "audited_delete tenant_id user_id action resource_type i outcome =
     and_then outcome (\<lambda>(deleted, db).
        if deleted then and_then (audit_log tenant_id user_id action resource_type i None db) (\<lambda>db. Inr (True, db))
        else Inr (False, db))"

definition svc_update_product :: "uuid \<Rightarrow> uuid option \<Rightarrow> uuid \<Rightarrow> product_update_body \<Rightarrow> inventory \<Rightarrow> py_exn + product option \<times> inventory" where
  "svc_update_product tenant_id user_id product_id u db =
     audited_update tenant_id user_id ''product.updated'' ''product'' product_id (product_changes u) (product_update tenant_id product_id u db)"

definition svc_delete_product :: "uuid \<Rightarrow> uuid option \<Rightarrow> uuid \<Rightarrow> inventory \<Rightarrow> py_exn + bool \<times> inventory" where
  "svc_delete_product tenant_id user_id product_id db =
     audited_delete tenant_id user_id ''product.deleted'' ''product'' product_id (product_delete tenant_id product_id db)"

definition svc_create_lot ::
    "uuid \<Rightarrow> datetime \<Rightarrow> uuid \<Rightarrow> uuid option \<Rightarrow> uuid \<Rightarrow> lot_create_body \<Rightarrow> inventory \<Rightarrow> py_exn + lot \<times> inventory" where
  "svc_create_lot new_id now tenant_id user_id product_id payload db =
     (if product_get tenant_id product_id db = None then Inl not_found
      else and_then (lot_create new_id now tenant_id product_id payload db) (\<lambda>(l, db).
           and_then (audit_log tenant_id user_id ''lot.created'' ''lot'' (l_id l)
               (Some [(''lot_code'', Some (JStr (l_lot_code l))), (''product_id'', Some (JStr (str_uuid product_id)))]) db)
             (\<lambda>db. Inr (l, db))))"

definition lot_changes :: "lot_update_body \<Rightarrow> (string \<times> json option) list" where
  "lot_changes u = dumped ''lot_code'' dump_text (lu_lot_code u) @ dumped ''manufactured_at'' dump_python (lu_manufactured_at u) @
     dumped ''expires_at'' dump_python (lu_expires_at u) @ dumped ''metadata'' dump_obj (lu_metadata u)"

definition svc_update_lot :: "uuid \<Rightarrow> uuid option \<Rightarrow> uuid \<Rightarrow> lot_update_body \<Rightarrow> inventory \<Rightarrow> py_exn + lot option \<times> inventory" where
  "svc_update_lot tenant_id user_id lot_id u db =
     audited_update tenant_id user_id ''lot.updated'' ''lot'' lot_id (lot_changes u) (lot_update tenant_id lot_id u db)"

definition svc_delete_lot :: "uuid \<Rightarrow> uuid option \<Rightarrow> uuid \<Rightarrow> inventory \<Rightarrow> py_exn + bool \<times> inventory" where
  "svc_delete_lot tenant_id user_id lot_id db =
     audited_delete tenant_id user_id ''lot.deleted'' ''lot'' lot_id (lot_delete tenant_id lot_id db)"

definition svc_create_stock_item ::
    "uuid \<Rightarrow> datetime \<Rightarrow> uuid \<Rightarrow> uuid option \<Rightarrow> stock_item_create \<Rightarrow> inventory \<Rightarrow> py_exn + stock_item \<times> inventory" where
  "svc_create_stock_item new_id now tenant_id user_id payload db =
     (if product_get tenant_id (sc_product_id payload) db = None then Inl not_found
      else and_then (stock_create new_id now tenant_id payload db) (\<lambda>(s, db).
           and_then (audit_log tenant_id user_id ''stock_item.created'' ''stock_item'' (s_id s)
               (Some [(''product_id'', Some (JStr (str_uuid (s_product_id s)))), (''binding_value'', Some (JStr (s_binding_value s)))]) db)
             (\<lambda>db. Inr (s, db))))"

definition stock_changes :: "stock_item_update \<Rightarrow> (string \<times> json option) list" where
  "stock_changes u = dumped ''state'' (\<lambda>v. dump_text (map_option state_text v)) (su_state u) @ dumped ''lot_id'' dump_python (su_lot_id u) @
     dumped ''parent_stock_item_id'' dump_python (su_parent_id u) @ dumped ''metadata'' dump_obj (su_metadata u)"

definition svc_update_stock_item ::
    "datetime \<Rightarrow> uuid \<Rightarrow> uuid option \<Rightarrow> uuid \<Rightarrow> stock_item_update \<Rightarrow> inventory \<Rightarrow> py_exn + stock_item option \<times> inventory" where
  "svc_update_stock_item now tenant_id user_id stock_item_id u db =
     audited_update tenant_id user_id ''stock_item.updated'' ''stock_item'' stock_item_id (stock_changes u)
       (stock_update now tenant_id stock_item_id u db)"

definition svc_delete_stock_item :: "uuid \<Rightarrow> uuid option \<Rightarrow> uuid \<Rightarrow> bool \<Rightarrow> inventory \<Rightarrow> py_exn + bool \<times> inventory" where
  "svc_delete_stock_item tenant_id user_id stock_item_id force db =
     (if count_for_stock_item tenant_id stock_item_id db > 0 then Inl (ValueError ''StockItemLedgerError'')
      else audited_delete tenant_id user_id ''stock_item.deleted'' ''stock_item'' stock_item_id
             (stock_delete tenant_id stock_item_id force db))"

definition svc_create_manual_movement ::
    "uuid \<Rightarrow> datetime \<Rightarrow> uuid \<Rightarrow> uuid option \<Rightarrow> stock_movement_create \<Rightarrow> inventory \<Rightarrow> py_exn + movement \<times> inventory" where
  "svc_create_manual_movement new_id now tenant_id user_id payload db =
     (let from_zone = (if mc_movement_type payload = ''exit'' then mc_zone_id payload else None);
          to_zone = (if mc_movement_type payload = ''exit'' then None else mc_zone_id payload);
          item_id = (case mc_stock_item_id payload of
              Some i \<Rightarrow> Some i
            | None \<Rightarrow> (case stock_list tenant_id (Some (mc_product_id payload)) (mc_lot_id payload) (mc_zone_id payload) (Some InStock) 1 0 db of
                 [] \<Rightarrow> None | s # _ \<Rightarrow> Some (s_id s)))
      in case item_id of
           None \<Rightarrow> Inl (ValueError ''No matching in_stock item found; provide stock_item_id explicitly'')
         | Some i \<Rightarrow>
             and_then (movement_insert new_id tenant_id i from_zone to_zone (mc_movement_type payload) None now (mc_quantity payload) db)
               (\<lambda>(m, db). and_then (audit_log tenant_id user_id ''stock_movement.created'' ''stock_movement'' (m_id m)
                   (Some [(''movement_type'', Some (JStr (mc_movement_type payload))), (''quantity'', Some (JInt (mc_quantity payload))),
                          (''reason'', Some (JStr (mc_reason payload))), (''source'', Some (JStr ''manual''))]) db)
                 (\<lambda>db. Inr (m, db))))"

definition svc_create_mapping ::
    "uuid \<Rightarrow> datetime \<Rightarrow> uuid \<Rightarrow> uuid option \<Rightarrow> mapping_create_body \<Rightarrow> inventory \<Rightarrow> py_exn + mapping \<times> inventory" where
  "svc_create_mapping new_id now tenant_id user_id payload db =
     and_then (check_scope_consistency payload) (\<lambda>payload.
     and_then (mapping_create new_id now tenant_id payload db) (\<lambda>(m, db).
     and_then (audit_log tenant_id user_id ''tag_data_mapping.created'' ''tag_data_mapping'' (t_id m)
         (Some [(''scope_kind'', Some (JStr (t_scope_kind m))), (''semantic_field'', Some (JStr (t_semantic_field m))),
                (''tag_data_key'', Some (JStr (t_tag_data_key m)))]) db) (\<lambda>db. Inr (m, db))))"

definition mapping_changes :: "mapping_update_body \<Rightarrow> (string \<times> json option) list" where
  "mapping_changes u = dumped ''semantic_field'' dump_text (tu_semantic_field u) @ dumped ''tag_data_key'' dump_text (tu_tag_data_key u) @
     dumped ''transform'' dump_text (tu_transform u)"

definition svc_update_mapping :: "uuid \<Rightarrow> uuid option \<Rightarrow> uuid \<Rightarrow> mapping_update_body \<Rightarrow> inventory \<Rightarrow> py_exn + mapping option \<times> inventory" where
  "svc_update_mapping tenant_id user_id mapping_id u db =
     audited_update tenant_id user_id ''tag_data_mapping.updated'' ''tag_data_mapping'' mapping_id (mapping_changes u)
       (mapping_update tenant_id mapping_id u db)"

definition svc_delete_mapping :: "uuid \<Rightarrow> uuid option \<Rightarrow> uuid \<Rightarrow> inventory \<Rightarrow> py_exn + bool \<times> inventory" where
  "svc_delete_mapping tenant_id user_id mapping_id db =
     audited_delete tenant_id user_id ''tag_data_mapping.deleted'' ''tag_data_mapping'' mapping_id (Inr (mapping_delete tenant_id mapping_id db))"

end
