(* ===== verification/UsageMeter.thy ===== *)
theory UsageMeter
  imports PyJson
begin

text \<open>
  The usage meter (\<open>src/tagpulse/core/usage_meter.py\<close>): counts buffered in memory, flushed to the daily table
  in two moments (the buffer is emptied, then the transaction commits, fails or is cancelled), gauges and
  quotas.  What is conserved is stated over every interleaving of these moments with new counts.
\<close>

section \<open>State\<close>

datatype quota_result = ALLOWED | THROTTLED | REJECTED

record quota =
  q_max_quantity :: int
  q_action_on_exceed :: string

type_synonym usage_key = "uuid \<times> string \<times> string" \<comment> \<open>tenant, dimension, unit\<close>
type_synonym usage_buffer = "(usage_key, int) pydict"

text \<open>The table \<open>tenant_usage_detail\<close>: the primary key (tenant, day, dimension), the quantity and the unit.\<close>

type_synonym usage_table = "(uuid \<times> int \<times> string, int \<times> string) pydict"

record meter =
  um_buffer :: usage_buffer
  um_quota_cache :: "(uuid \<times> string, quota option) pydict"
  um_inflight :: "usage_buffer option" \<comment> \<open>the snapshot of a flush whose transaction is still open\<close>

definition new_meter :: meter where
  "new_meter = \<lparr>um_buffer = [], um_quota_cache = [], um_inflight = None\<rparr>"

section \<open>Operations\<close>

definition buffered :: "usage_buffer \<Rightarrow> usage_key \<Rightarrow> int" where
  "buffered buf k = (case map_of buf k of None \<Rightarrow> 0 | Some n \<Rightarrow> n)"

definition add_count :: "usage_key \<Rightarrow> int \<Rightarrow> usage_buffer \<Rightarrow> usage_buffer" where
  "add_count k n buf = dict_set k (buffered buf k + n) buf"

definition record_usage :: "uuid \<Rightarrow> string \<Rightarrow> string \<Rightarrow> int \<Rightarrow> meter \<Rightarrow> meter" where
  "record_usage tenant_id dimension u count m = m\<lparr>um_buffer := add_count (tenant_id, dimension, u) count (um_buffer m)\<rparr>"

definition record_snapshot :: "uuid \<Rightarrow> string \<Rightarrow> string \<Rightarrow> int \<Rightarrow> int \<Rightarrow> usage_table \<Rightarrow> usage_table" where
  "record_snapshot tenant_id dimension u val today tbl = dict_set (tenant_id, today, dimension) (val, u) tbl"

text \<open>The buffer is read under the unit \<open>\"\"\<close>.\<close>

definition check_quota ::
    "(uuid \<times> string, quota) pydict \<Rightarrow> uuid \<Rightarrow> string \<Rightarrow> int \<Rightarrow> usage_table \<Rightarrow> meter \<Rightarrow> quota_result \<times> meter" where
  "check_quota quotas tenant_id dimension today tbl m =
     (let cache_key = (tenant_id, dimension);
          m = (if cache_key \<in> set (dict_keys (um_quota_cache m)) then m
               else m\<lparr>um_quota_cache := dict_set cache_key (map_of quotas cache_key) (um_quota_cache m)\<rparr>)
      in case map_of (um_quota_cache m) cache_key of
           Some (Some q) \<Rightarrow>
             (let db_quantity = (case map_of tbl (tenant_id, today, dimension) of None \<Rightarrow> 0 | Some (n, u) \<Rightarrow> n) in
              if db_quantity + buffered (um_buffer m) (tenant_id, dimension, '''') \<ge> q_max_quantity q
              then (if q_action_on_exceed q = ''reject'' then REJECTED else THROTTLED, m)
              else (ALLOWED, m))
         | _ \<Rightarrow> (ALLOWED, m))"

text \<open>\<open>_flush\<close>, in its moments.\<close>

definition flush_begin :: "meter \<Rightarrow> meter" where
  "flush_begin m = (if um_buffer m = [] then m else m\<lparr>um_buffer := [], um_inflight := Some (um_buffer m)\<rparr>)"

definition write_usage :: "int \<Rightarrow> usage_key \<times> int \<Rightarrow> usage_table \<Rightarrow> usage_table" where
  "write_usage today = (\<lambda>((tenant_id, dimension, u), quantity) tbl.
     dict_set (tenant_id, today, dimension)
       (case map_of tbl (tenant_id, today, dimension) of None \<Rightarrow> (quantity, u) | Some (n, u0) \<Rightarrow> (n + quantity, u0)) tbl)"

definition flush_commit :: "int \<Rightarrow> meter \<Rightarrow> usage_table \<Rightarrow> meter \<times> usage_table" where
  "flush_commit today m tbl = (case um_inflight m of
     None \<Rightarrow> (m, tbl) | Some snapshot \<Rightarrow> (m\<lparr>um_inflight := None\<rparr>, fold (write_usage today) snapshot tbl))"

definition flush_fail :: "meter \<Rightarrow> meter" where
  "flush_fail m = (case um_inflight m of
     None \<Rightarrow> m
   | Some snapshot \<Rightarrow> m\<lparr>um_inflight := None, um_buffer := fold (\<lambda>(k, n). add_count k n) snapshot (um_buffer m)\<rparr>)"

text \<open>\<open>stop\<close> cancels the task; a cancellation is no \<open>Exception\<close>, so the snapshot in flight is not put back.\<close>

definition stop_cancel :: "meter \<Rightarrow> meter" where
  "stop_cancel m = m\<lparr>um_inflight := None\<rparr>"

section \<open>Runs\<close>

datatype meter_op =
    Record uuid string string int
  | Snapshot uuid string string int int
  | CheckQuota uuid string int
  | FlushBegin
  | FlushCommit int
  | FlushFail
  | StopCancel

text \<open>The last component counts what a cancellation loses; a flush begins when none is in flight.\<close>

fun meter_step :: "(uuid \<times> string, quota) pydict \<Rightarrow> meter_op \<Rightarrow> meter \<times> usage_table \<times> usage_buffer list \<Rightarrow> meter \<times> usage_table \<times> usage_buffer list" where
  "meter_step quotas (Record t d u n) (m, tbl, lost) = (record_usage t d u n m, tbl, lost)"
| "meter_step quotas (Snapshot t d u v day) (m, tbl, lost) = (m, record_snapshot t d u v day tbl, lost)"
| "meter_step quotas (CheckQuota t d day) (m, tbl, lost) = (snd (check_quota quotas t d day tbl m), tbl, lost)"
| "meter_step quotas FlushBegin (m, tbl, lost) = (if um_inflight m = None then flush_begin m else m, tbl, lost)"
| "meter_step quotas (FlushCommit day) (m, tbl, lost) = (case flush_commit day m tbl of (m', tbl') \<Rightarrow> (m', tbl', lost))"
| "meter_step quotas FlushFail (m, tbl, lost) = (flush_fail m, tbl, lost)"
| "meter_step quotas StopCancel (m, tbl, lost) =
     (stop_cancel m, tbl, lost @ (case um_inflight m of None \<Rightarrow> [] | Some s \<Rightarrow> [s]))"

definition meter_run ::
    "(uuid \<times> string, quota) pydict \<Rightarrow> meter_op list \<Rightarrow> meter \<times> usage_table \<times> usage_buffer list \<Rightarrow> meter \<times> usage_table \<times> usage_buffer list" where
  "meter_run quotas ops st = fold (meter_step quotas) ops st"

section \<open>Conservation\<close>

definition pending :: "uuid \<Rightarrow> string \<Rightarrow> usage_buffer \<Rightarrow> real" where
  "pending t d = dict_sum (\<lambda>(t', d', u) n. if t' = t \<and> d' = d then of_int n else 0)"

definition stored :: "uuid \<Rightarrow> string \<Rightarrow> usage_table \<Rightarrow> real" where
  "stored t d = dict_sum (\<lambda>(t', day, d') (n, u). if t' = t \<and> d' = d then of_int n else 0)"

definition in_flight :: "uuid \<Rightarrow> string \<Rightarrow> meter \<Rightarrow> real" where
  "in_flight t d m = (case um_inflight m of None \<Rightarrow> 0 | Some s \<Rightarrow> pending t d s)"

definition recorded :: "uuid \<Rightarrow> string \<Rightarrow> meter_op list \<Rightarrow> real" where
  "recorded t d ops = (\<Sum>op \<leftarrow> ops. case op of Record t' d' u n \<Rightarrow> if t' = t \<and> d' = d then of_int n else 0 | _ \<Rightarrow> 0)"

lemma pending_add: "pending t d (add_count (t', d', u) n buf) = pending t d buf + (if t' = t \<and> d' = d then of_int n else 0)"
  by (simp add: pending_def add_count_def dict_sum_set buffered_def split: option.split)

lemma pending_restore: "pending t d (fold (\<lambda>(k, n). add_count k n) s buf) = pending t d buf + pending t d s"
proof (induction s arbitrary: buf)
  case (Cons p s)
  obtain t' d' u n where p: "p = ((t', d', u), n)" by (metis prod.exhaust)
  have "pending t d (p # s) = (if t' = t \<and> d' = d then of_int n else 0) + pending t d s" by (simp add: pending_def p)
  with Cons show ?case by (simp add: p pending_add)
qed (simp add: pending_def)

lemma stored_write: "stored t d (write_usage day ((t', d', u), n) tbl) = stored t d tbl + (if t' = t \<and> d' = d then of_int n else 0)"
  by (auto simp: stored_def write_usage_def dict_sum_set split: option.split)

lemma stored_writes: "stored t d (fold (write_usage day) s tbl) = stored t d tbl + pending t d s"
proof (induction s arbitrary: tbl)
  case (Cons p s)
  obtain t' d' u n where p: "p = ((t', d', u), n)" by (metis prod.exhaust)
  have "pending t d (p # s) = (if t' = t \<and> d' = d then of_int n else 0) + pending t d s" by (simp add: pending_def p)
  with Cons show ?case by (simp add: p stored_write)
qed (simp add: pending_def)

lemma pending_Nil [simp]: "pending t d [] = 0"
  by (simp add: pending_def)

lemma check_quota_keeps: "um_buffer (snd (check_quota qs t d day tbl m)) = um_buffer m \<and> um_inflight (snd (check_quota qs t d day tbl m)) = um_inflight m"
  by (simp add: check_quota_def Let_def split: option.split)

definition accounted :: "uuid \<Rightarrow> string \<Rightarrow> meter \<times> usage_table \<times> usage_buffer list \<Rightarrow> real" where
  "accounted t d = (\<lambda>(m, tbl, lost). stored t d tbl + pending t d (um_buffer m) + in_flight t d m + (\<Sum>s \<leftarrow> lost. pending t d s))"

lemma meter_step_accounts:
  assumes "\<forall>u v day. op \<noteq> Snapshot t d u v day"
  shows "accounted t d (meter_step quotas op st) = accounted t d st + recorded t d [op]"
proof -
  obtain m tbl lost where st: "st = (m, tbl, lost)" by (cases st)
  show ?thesis
  proof (cases op)
    case (Snapshot t' d' u v day)
    with assms have "\<not> (t' = t \<and> d' = d)" by auto
    then show ?thesis
      by (auto simp: st Snapshot accounted_def recorded_def stored_def record_snapshot_def dict_sum_set split: option.split)
  next
    case (CheckQuota t' d' day)
    then show ?thesis using check_quota_keeps [of quotas t' d' day tbl m]
      by (simp add: st accounted_def recorded_def in_flight_def)
  qed (auto simp: st accounted_def recorded_def in_flight_def record_usage_def pending_add flush_begin_def flush_commit_def stored_writes
      flush_fail_def pending_restore stop_cancel_def split: option.split)
qed

text \<open>C21: for a dimension that is no gauge, every count ever recorded is in the table, in the buffer, in a flush under way,
  or was in a flush that \<open>stop\<close> cancelled, however counts, flushes, failures and stops interleave; so
  nothing is lost or counted twice unless a stop interrupts a flush.\<close>

theorem usage_conserved:
  assumes "\<forall>u v day. Snapshot t d u v day \<notin> set ops"
    and "meter_run quotas ops (new_meter, [], []) = (m, tbl, lost)"
  shows "stored t d tbl + pending t d (um_buffer m) + in_flight t d m + (\<Sum>s \<leftarrow> lost. pending t d s) = recorded t d ops"
proof -
  have "accounted t d (meter_run quotas ops (new_meter, [], [])) = recorded t d ops"
    using assms(1)
  proof (induction ops rule: rev_induct)
    case Nil
    then show ?case by (simp add: meter_run_def accounted_def new_meter_def stored_def in_flight_def recorded_def)
  next
    case (snoc op ops)
    then have "\<forall>u v day. op \<noteq> Snapshot t d u v day" by auto
    moreover have "recorded t d (ops @ [op]) = recorded t d ops + recorded t d [op]" by (simp add: recorded_def)
    ultimately show ?case
      using snoc meter_step_accounts [of op t d quotas "meter_run quotas ops (new_meter, [], [])"] by (simp add: meter_run_def)
  qed
  then show ?thesis unfolding assms(2) by (simp add: accounted_def)
qed

theorem usage_conserved_witness:
  "\<exists>m tbl. meter_run [] [Record 1 ''d'' ''events'' 2, FlushBegin, Record 1 ''d'' ''events'' 3, FlushFail, FlushBegin, FlushCommit 7] (new_meter, [], [])
      = (m, tbl, []) \<and> stored 1 ''d'' tbl + pending 1 ''d'' (um_buffer m) + in_flight 1 ''d'' m = 5"
proof -
  let ?ops = "[Record 1 ''d'' ''events'' 2, FlushBegin, Record 1 ''d'' ''events'' 3, FlushFail, FlushBegin, FlushCommit 7]"
  obtain m tbl lost where run: "meter_run [] ?ops (new_meter, [], []) = (m, tbl, lost)" by (metis prod.exhaust)
  have "lost = []"
    using run by (simp add: meter_run_def new_meter_def record_usage_def flush_begin_def flush_fail_def flush_commit_def add_count_def)
  moreover have "recorded 1 ''d'' ?ops = 5" by (simp add: recorded_def)
  ultimately show ?thesis using usage_conserved [OF _ run, of 1 "''d''"] run by auto
qed

text \<open>\<open>check_quota\<close> does not see what the program records: a count under any unit but the empty one leaves the verdict as
  it was until the next flush, so a quota can be exceeded by everything that is buffered.\<close>

theorem quota_ignores_buffer:
  assumes "u \<noteq> ''''"
  shows "fst (check_quota quotas t d day tbl (record_usage t' d' u n m)) = fst (check_quota quotas t d day tbl m)"
  using assms by (simp add: check_quota_def record_usage_def add_count_def buffered_def Let_def split: option.split)

theorem quota_ignores_buffer_witness:
  "fst (check_quota [((1, ''d''), \<lparr>q_max_quantity = 10, q_action_on_exceed = ''reject''\<rparr>)] 1 ''d'' 7 []
      (record_usage 1 ''d'' ''events'' 1000 new_meter)) = ALLOWED"
  using quota_ignores_buffer [of "''events''" "[((1, ''d''), \<lparr>q_max_quantity = 10, q_action_on_exceed = ''reject''\<rparr>)]" 1 "''d''" 7 "[]" 1 "''d''" 1000 new_meter]
  by (simp add: check_quota_def new_meter_def buffered_def)

end
