(* ===== verification/Steps.thy ===== *)
theory Steps
  imports Prelude
begin

text \<open>
  State passing with exceptions, as the services use it: a step either returns a value or raises, and in both cases
  leaves a state.  The laws are those of a relation between states that elementary steps respect; they carry over to
  every composition, which the locale \<open>step_relation\<close> states once.
\<close>

section \<open>Steps that may fail\<close>

text \<open>A step returns its value or an exception together with the state it leaves; the next step runs only after a value.\<close>

type_synonym ('s, 'a) step = "'s \<Rightarrow> (py_exn + 'a) \<times> 's"

definition run_then :: "('s, 'a) step \<Rightarrow> ('a \<Rightarrow> ('s, 'b) step) \<Rightarrow> ('s, 'b) step" where
  "run_then m k st = (case m st of (Inl e, st') \<Rightarrow> (Inl e, st') | (Inr a, st') \<Rightarrow> k a st')"

definition give :: "'a \<Rightarrow> ('s, 'a) step" where
  "give a st = (Inr a, st)"

definition lift_res :: "py_exn + 'a \<Rightarrow> ('s, 'a) step" where
  "lift_res r st = (r, st)"

definition change :: "('s \<Rightarrow> 's) \<Rightarrow> ('s, unit) step" where
  "change f st = (Inr (), f st)"

definition query :: "('s \<Rightarrow> 'a) \<Rightarrow> ('s, 'a) step" where
  "query f st = (Inr (f st), st)"

fun each :: "('a \<Rightarrow> ('s, unit) step) \<Rightarrow> 'a list \<Rightarrow> ('s, unit) step" where
  "each f [] = give ()"
| "each f (x # xs) = run_then (f x) (\<lambda>_. each f xs)"

section \<open>Relations that every step respects\<close>

definition keeps :: "('s \<Rightarrow> 's \<Rightarrow> bool) \<Rightarrow> ('s, 'a) step \<Rightarrow> bool" where
  "keeps R m \<longleftrightarrow> (\<forall>st. R st (snd (m st)))"

lemma keepsI: "(\<And>st. R st (snd (m st))) \<Longrightarrow> keeps R m"
  by (simp add: keeps_def)

lemma keepsD: "keeps R m \<Longrightarrow> R st (snd (m st))"
  by (simp add: keeps_def)

locale step_relation =
  fixes R :: "'s \<Rightarrow> 's \<Rightarrow> bool"
  assumes refl: "R st st"
    and trans: "R s1 s2 \<Longrightarrow> R s2 s3 \<Longrightarrow> R s1 s3"
begin

lemma give: "keeps R (give a)"
  by (simp add: keeps_def give_def refl)

lemma lift: "keeps R (lift_res r)"
  by (simp add: keeps_def lift_res_def refl)

lemma lift': "keeps R (\<lambda>st. lift_res (r st) st)"
  by (simp add: keeps_def lift_res_def refl)

lemma run_then:
  assumes "keeps R m" and "\<And>a. keeps R (k a)"
  shows "keeps R (run_then m k)"
proof (rule keepsI)
  fix st
  obtain r st' where m: "m st = (r, st')" by (cases "m st")
  have first: "R st st'" using keepsD [OF assms(1), of st] m by simp
  show "R st (snd (run_then m k st))"
  proof (cases r)
    case (Inl e)
    then show ?thesis using first m by (simp add: run_then_def)
  next
    case (Inr a)
    then show ?thesis using trans [OF first keepsD [OF assms(2)]] m by (simp add: run_then_def)
  qed
qed

lemma query: "keeps R (query f)"
  by (simp add: keeps_def query_def refl)

lemma lift_then: "(\<And>a. r = Inr a \<Longrightarrow> keeps R (k a)) \<Longrightarrow> keeps R (run_then (lift_res r) k)"
  by (auto simp: keeps_def run_then_def lift_res_def refl split: sum.split)

lemma at_then: "R st (snd (m st)) \<Longrightarrow> (\<And>a st'. m st = (Inr a, st') \<Longrightarrow> R st' (snd (k a st'))) \<Longrightarrow> R st (snd (run_then m k st))"
  using trans by (auto simp: run_then_def split: prod.split sum.split)

lemma each: "(\<And>x. x \<in> set xs \<Longrightarrow> keeps R (f x)) \<Longrightarrow> keeps R (each f xs)"
  by (induction xs) (auto intro!: give run_then)

end

section \<open>Success and failure\<close>

lemma run_then_Inr: "run_then m k st = (Inr b, st2) \<longleftrightarrow> (\<exists>a st1. m st = (Inr a, st1) \<and> k a st1 = (Inr b, st2))"
  by (auto simp: run_then_def split: prod.splits sum.splits)

lemma give_Inr [simp]: "give a st = (Inr b, st') \<longleftrightarrow> b = a \<and> st' = st"
  by (auto simp: give_def)

lemma lift_res_Inr [simp]: "lift_res r st = (Inr b, st') \<longleftrightarrow> r = Inr b \<and> st' = st"
  by (auto simp: lift_res_def)

lemma query_Inr [simp]: "query f st = (Inr b, st') \<longleftrightarrow> b = f st \<and> st' = st"
  by (auto simp: query_def)

lemma change_Inr [simp]: "change f st = (Inr b, st') \<longleftrightarrow> st' = f st"
  by (auto simp: change_def)

lemma run_then_fails: "isl (fst (run_then m k st))" if "isl (fst (m st)) \<or> (\<forall>a st'. isl (fst (k a st')))"
  using that by (auto simp: run_then_def split: prod.split sum.split)

lemma each_fails: "x \<in> set xs \<Longrightarrow> (\<And>st. isl (fst (f x st))) \<Longrightarrow> isl (fst (each f xs st))"
  by (induction xs arbitrary: st) (auto intro!: run_then_fails)

end
