(* ===== verification/Ingestion.thy ===== *)
theory Ingestion
  imports Telemetry TagReads Inventory Overlapping RateLimits UsageMeter Steps
begin

text \<open>
  The ingestion service (\<open>ingestion/service.py\<close>): a read is normalised, checked against the clock window, stored,
  mirrored into telemetry, matched to an asset and to a stock item, and announced.  The database is one
  transaction per request (\<open>repositories/timescaledb/session.py\<close>); the process-local caches, the usage meter and
  what is published outlive a rollback.  A request sees one reading of each clock.
\<close>

section \<open>State\<close>

record caches =
  ca_binding :: "(uuid \<times> string, uuid option) pydict" \<comment> \<open>\<open>_BINDING_BY_VALUE\<close>: the asset, or a known miss\<close>
  ca_mobility :: "(uuid \<times> uuid, string) pydict"
  ca_zone_asset :: "(uuid \<times> uuid, uuid option) pydict"
  ca_zone_stock :: "(uuid \<times> uuid, uuid option) pydict"
  ca_fence_asset :: "(uuid \<times> uuid, uuid option) pydict"
  ca_fence_stock :: "(uuid \<times> uuid, uuid option) pydict"
  ca_gtin :: "(uuid \<times> string, uuid option) pydict"
  ca_modes :: "(uuid, string list) pydict"
  ca_kinds :: "(uuid, string list) ttl_cache"
  ca_geofences :: "(uuid, real \<times> zone_candidate list) pydict"

record dead_letter_event =
  rj_tenant_id :: uuid
  rj_topic :: string
  rj_payload :: jobj
  rj_error_message :: string
  rj_status :: string
  rj_source :: string

record stored_read =
  sr_id :: uuid
  sr_tenant_id :: uuid
  sr_read :: tag_read

record intake =
  in_reads :: "stored_read list"
  in_dead_letters :: "dead_letter_event list"
  in_devices :: "device list"
  in_telemetry :: telemetry_db
  in_inventory :: inventory
  in_meter :: meter
  in_caches :: caches
  in_fresh :: nat \<comment> \<open>how many identifiers \<open>uuid4\<close> has drawn\<close>

text \<open>What a request reads and never writes: the settings, the clocks, and the other tables.\<close>

record ingest_env =
  ie_now :: datetime
  ie_monotonic :: real
  ie_uuid4 :: "nat \<Rightarrow> uuid"
  ie_backfill :: bool
  ie_clock_enforce :: bool
  ie_geofence_evaluation_enabled :: bool
  ie_float_text :: "real \<Rightarrow> nat"
  ie_bindings :: "binding_row list"
  ie_zones :: "zone_row list"
  ie_models :: "telemetry_model list"
  ie_tags :: "(uuid \<times> string \<times> string) list" \<comment> \<open>tenant, \<open>epc_hex\<close>, status\<close>
  ie_tracking_modes :: "(uuid, string list) pydict"
  ie_subject_kinds :: "(uuid, string list) pydict"

definition ZONE_CACHE_MAX :: nat where "ZONE_CACHE_MAX = 10000"
definition GTIN_CACHE_MAX :: nat where "GTIN_CACHE_MAX = 4096"
definition TRACKING_MODES_CACHE_MAX :: nat where "TRACKING_MODES_CACHE_MAX = 1024"
definition BINDING_CACHE_MAX :: nat where "BINDING_CACHE_MAX = 8192"
definition MOBILITY_CACHE_MAX :: nat where "MOBILITY_CACHE_MAX = 4096"
definition GEOFENCE_CACHE_TTL_S :: real where "GEOFENCE_CACHE_TTL_S = 30"
definition GEOFENCE_CACHE_MAX_TENANTS :: nat where "GEOFENCE_CACHE_MAX_TENANTS = 1024"

definition NON_TELEMETRY_SENSOR_KEYS :: "string set" where
  "NON_TELEMETRY_SENSOR_KEYS = {''read_count''}"

definition no_caches :: caches where
  "no_caches = \<lparr>ca_binding = [], ca_mobility = [], ca_zone_asset = [], ca_zone_stock = [], ca_fence_asset = [], ca_fence_stock = [],
     ca_gtin = [], ca_modes = [], ca_kinds = \<lparr>ttl = 30, maxsize = 1024, cache_data = []\<rparr>, ca_geofences = []\<rparr>"

section \<open>Events\<close>

definition event_payload :: "ingest_env \<Rightarrow> jobj \<Rightarrow> jobj" where
  "event_payload env payload = (if ie_backfill env then dict_set ''backfill'' (JBool True) payload else payload)"

definition emit :: "topic \<Rightarrow> datetime \<Rightarrow> jobj \<Rightarrow> (intake, unit) step" where
  "emit t ts payload = change (\<lambda>st. st\<lparr>in_telemetry := publish_event t ts payload (in_telemetry st)\<rparr>)"

definition read_epc :: "tag_read \<Rightarrow> string option" where
  "read_epc rd = (case rd_identity rd of None \<Rightarrow> None | Some i \<Rightarrow> id_epc i)"

definition read_tid :: "tag_read \<Rightarrow> string option" where
  "read_tid rd = (case rd_identity rd of None \<Rightarrow> None | Some i \<Rightarrow> id_tid i)"

definition tag_text :: "tag_read \<Rightarrow> string" where
  "tag_text rd = (case rd_tag_id rd of None \<Rightarrow> '''' | Some s \<Rightarrow> s)"

definition created_payload :: "uuid \<Rightarrow> uuid \<Rightarrow> tag_read \<Rightarrow> jobj" where
  "created_payload tenant_id tag_read_id rd =
     [(''tag_read_id'', JStr (str_uuid tag_read_id)), (''tenant_id'', JStr (str_uuid tenant_id)),
      (''device_id'', JStr (str_uuid (rd_device_id rd))), (''tag_id'', JStr (tag_text rd)), (''epc'', json_text (read_epc rd)),
      (''tid'', json_text (read_tid rd)), (''signal_strength'', json_float (rd_signal_strength rd))]"

definition zone_changed_payload ::
    "uuid \<Rightarrow> string \<Rightarrow> uuid \<Rightarrow> string \<Rightarrow> uuid option \<Rightarrow> uuid option \<Rightarrow> tag_read \<Rightarrow> uuid \<Rightarrow> jobj \<Rightarrow> jobj" where
  "zone_changed_payload tenant_id subject_kind subject_id zone_kind from_zone to_zone rd tag_read_id position =
     [(''tenant_id'', JStr (str_uuid tenant_id)), (''subject_kind'', JStr subject_kind), (''subject_id'', JStr (str_uuid subject_id)),
      (''zone_kind'', JStr zone_kind), (''from_zone_id'', json_uuid from_zone), (''to_zone_id'', json_uuid to_zone),
      (''device_id'', JStr (str_uuid (rd_device_id rd))), (''tag_id'', JStr (tag_text rd)), (''epc'', json_text (read_epc rd)),
      (''tid'', json_text (read_tid rd)), (''tag_read_id'', JStr (str_uuid tag_read_id))] @ position @
     [(''timestamp'', JStr (isoformat (rd_timestamp rd)))]"

definition stock_zone_changed_payload ::
    "uuid \<Rightarrow> uuid \<Rightarrow> uuid \<Rightarrow> uuid option \<Rightarrow> uuid option \<Rightarrow> string \<Rightarrow> tag_read \<Rightarrow> uuid \<Rightarrow> jobj" where
  "stock_zone_changed_payload tenant_id item_id product_id from_zone to_zone epc rd tag_read_id =
     [(''tenant_id'', JStr (str_uuid tenant_id)), (''subject_kind'', JStr ''stock_item''), (''subject_id'', JStr (str_uuid item_id)),
      (''zone_kind'', JStr ''reader_bound''), (''product_id'', JStr (str_uuid product_id)), (''from_zone_id'', json_uuid from_zone),
      (''to_zone_id'', json_uuid to_zone), (''device_id'', JStr (str_uuid (rd_device_id rd))), (''epc'', JStr epc),
      (''tag_read_id'', JStr (str_uuid tag_read_id)), (''timestamp'', JStr (isoformat (rd_timestamp rd)))]"

section \<open>Look-ups\<close>

definition get_active_by_value :: "uuid \<Rightarrow> string \<Rightarrow> binding_row list \<Rightarrow> py_exn + uuid option" where
  "get_active_by_value tenant_id binding_value rows =
     map_sum id (map_option bd_asset_id)
       (scalar_one_or_none (filter (\<lambda>b. bd_tenant_id b = tenant_id \<and> bd_value b = binding_value \<and> bd_unbound_at b = None) rows))"

text \<open>The binding cache in front of it, which is never invalidated.\<close>

definition binding_of :: "ingest_env \<Rightarrow> uuid \<Rightarrow> string \<Rightarrow> (intake, uuid option) step" where
  "binding_of env tenant_id binding_value st =
     (case map_of (ca_binding (in_caches st)) (tenant_id, binding_value) of
        Some cached \<Rightarrow> (Inr cached, st)
      | None \<Rightarrow> (case get_active_by_value tenant_id binding_value (ie_bindings env) of
          Inl e \<Rightarrow> (Inl e, st)
        | Inr found \<Rightarrow> (Inr found, st\<lparr>in_caches := (in_caches st)\<lparr>ca_binding :=
            bounded_set BINDING_CACHE_MAX (tenant_id, binding_value) found (ca_binding (in_caches st))\<rparr>\<rparr>)))"

definition lookup_device_mobility :: "ingest_env \<Rightarrow> uuid \<Rightarrow> uuid \<Rightarrow> (intake, string) step" where
  "lookup_device_mobility env tenant_id device_id st =
     (case map_of (ca_mobility (in_caches st)) (tenant_id, device_id) of
        Some cached \<Rightarrow> (Inr cached, st)
      | None \<Rightarrow>
          (let mobility = (case device_get (ie_now env) tenant_id device_id (in_devices st) of None \<Rightarrow> ''fixed'' | Some d \<Rightarrow> d_mobility d)
           in (Inr mobility, st\<lparr>in_caches := (in_caches st)\<lparr>ca_mobility :=
                bounded_set MOBILITY_CACHE_MAX (tenant_id, device_id) mobility (ca_mobility (in_caches st))\<rparr>\<rparr>)))"

definition get_tracking_modes :: "uuid \<Rightarrow> (uuid, string list) pydict \<Rightarrow> string list" where
  "get_tracking_modes tenant_id tenants = (case map_of tenants tenant_id of None \<Rightarrow> [''asset''] | Some modes \<Rightarrow> modes)"

definition tenant_has_inventory_mode :: "ingest_env \<Rightarrow> uuid \<Rightarrow> (intake, bool) step" where
  "tenant_has_inventory_mode env tenant_id st =
     (case map_of (ca_modes (in_caches st)) tenant_id of
        Some cached \<Rightarrow> (Inr (''inventory'' \<in> set cached), st)
      | None \<Rightarrow>
          (let modes = get_tracking_modes tenant_id (ie_tracking_modes env)
           in (Inr (''inventory'' \<in> set modes), st\<lparr>in_caches := (in_caches st)\<lparr>ca_modes :=
                bounded_set TRACKING_MODES_CACHE_MAX tenant_id modes (ca_modes (in_caches st))\<rparr>\<rparr>)))"

definition lookup_product_id_by_gtin :: "uuid \<Rightarrow> string \<Rightarrow> (intake, uuid option) step" where
  "lookup_product_id_by_gtin tenant_id gtin st =
     (case map_of (ca_gtin (in_caches st)) (tenant_id, gtin) of
        Some cached \<Rightarrow> (Inr cached, st)
      | None \<Rightarrow> (case product_get_by_gtin tenant_id gtin (in_inventory st) of
          Inl e \<Rightarrow> (Inl e, st)
        | Inr found \<Rightarrow> (Inr (map_option p_id found), st\<lparr>in_caches := (in_caches st)\<lparr>ca_gtin :=
            bounded_set GTIN_CACHE_MAX (tenant_id, gtin) (map_option p_id found) (ca_gtin (in_caches st))\<rparr>\<rparr>)))"

definition subject_kinds_row :: "uuid \<Rightarrow> (uuid, string list) pydict \<Rightarrow> string list" where
  "subject_kinds_row tenant_id tenants = (case map_of tenants tenant_id of None \<Rightarrow> [''device''] | Some kinds \<Rightarrow> kinds)"

definition get_telemetry_subject_kinds :: "ingest_env \<Rightarrow> uuid \<Rightarrow> (intake, string list) step" where
  "get_telemetry_subject_kinds env tenant_id st =
     (case cache_get tenant_id (ie_monotonic env) (ca_kinds (in_caches st)) of
        (Some cached, c) \<Rightarrow> (Inr cached, st\<lparr>in_caches := (in_caches st)\<lparr>ca_kinds := c\<rparr>\<rparr>)
      | (None, c) \<Rightarrow>
          (let kinds = subject_kinds_row tenant_id (ie_subject_kinds env)
           in (Inr kinds, st\<lparr>in_caches := (in_caches st)\<lparr>ca_kinds := cache_set tenant_id kinds (ie_monotonic env) c\<rparr>\<rparr>)))"

text \<open>The oldest reader-bound zone that lists the reader.\<close>

definition get_zone_for_reader :: "uuid \<Rightarrow> uuid \<Rightarrow> zone_row list \<Rightarrow> uuid option" where
  "get_zone_for_reader tenant_id device_id rows =
     (case sort_key zr_created_at (filter (\<lambda>z. zr_tenant_id z = tenant_id \<and> zr_kind z = ''reader_bound'' \<and>
         (case zr_fixed_reader_ids z of None \<Rightarrow> False | Some rs \<Rightarrow> str_uuid device_id \<in> set rs)) rows) of
        [] \<Rightarrow> None
      | z # _ \<Rightarrow> Some (zr_id z))"

definition geofence_rows :: "uuid \<Rightarrow> zone_row list \<Rightarrow> zone_candidate list" where
  "geofence_rows tenant_id rows =
     map candidate_of_row (sort_key zr_created_at
       (filter (\<lambda>z. zr_tenant_id z = tenant_id \<and> zr_kind z = ''geofence'' \<and> zr_polygon_geojson z \<noteq> JNull) rows))"

definition find_geofence_candidates :: "ingest_env \<Rightarrow> uuid \<Rightarrow> real \<Rightarrow> real \<Rightarrow> (intake, zone_candidate list) step" where
  "find_geofence_candidates env tenant_id lat lon st =
     (let now = ie_monotonic env; cache = ca_geofences (in_caches st); loaded = geofence_rows tenant_id (ie_zones env);
          (zones, cache') = (case map_of cache tenant_id of
             Some (cached_at, zs) \<Rightarrow> if now - cached_at < GEOFENCE_CACHE_TTL_S then (zs, cache)
               else (loaded, bounded_set GEOFENCE_CACHE_MAX_TENANTS tenant_id (now, loaded) cache)
           | None \<Rightarrow> (loaded, bounded_set GEOFENCE_CACHE_MAX_TENANTS tenant_id (now, loaded) cache))
      in (Inr (filter (\<lambda>z. bbox_contains (bbox_min_lat z) (bbox_max_lat z) (bbox_min_lon z) (bbox_max_lon z) lat lon) zones),
          st\<lparr>in_caches := (in_caches st)\<lparr>ca_geofences := cache'\<rparr>\<rparr>))"

section \<open>Telemetry carried by tags\<close>

definition json_number :: "json \<Rightarrow> bool" where
  "json_number v = (case v of JInt _ \<Rightarrow> True | JFloat _ \<Rightarrow> True | _ \<Rightarrow> False)"

fun merge_numerics :: "jobj \<Rightarrow> (string, pfloat) pydict \<Rightarrow> py_exn + (string, pfloat) pydict" where
  "merge_numerics [] merged = Inr merged"
| "merge_numerics ((k, v) # items) merged =
     (if starts_with k ''_'' \<or> k \<in> NON_TELEMETRY_SENSOR_KEYS \<or> \<not> json_number v then merge_numerics items merged
      else and_then (to_float v) (\<lambda>x. merge_numerics items (dict_set k x merged)))"

definition blob :: "jobj option \<Rightarrow> jobj" where
  "blob b = (case b of None \<Rightarrow> [] | Some d \<Rightarrow> d)"

definition numeric_items :: "tag_read \<Rightarrow> py_exn + (string, pfloat) pydict" where
  "numeric_items rd = and_then (merge_numerics (blob (rd_sensor_data rd)) []) (merge_numerics (blob (rd_tag_data rd)))"

definition provenance_of :: "tag_read \<Rightarrow> uuid \<Rightarrow> jobj" where
  "provenance_of rd tag_read_id =
     [(''source'', JStr ''tag''), (''tag_read_id'', JStr (str_uuid tag_read_id))] @
     (if nonempty (read_epc rd) then [(''epc'', json_text (read_epc rd))] else []) @
     (if nonempty (read_tid rd) then [(''tid'', json_text (read_tid rd))] else [])"

text \<open>
  The reading is validated outside the handler: its name must have 1 to 100 characters.  An exception of the
  telemetry service is logged.
\<close>

definition mirror_to_device :: "ingest_env \<Rightarrow> uuid \<Rightarrow> tag_read \<Rightarrow> jobj \<Rightarrow> string \<times> pfloat \<Rightarrow> (intake, unit) step" where
  "mirror_to_device env tenant_id rd provenance = (\<lambda>(key, val) st.
     if length key = 0 \<or> 100 < length key then (Inl (ValueError ''metric_name''), st)
     else case ingest_reading (ie_now env) (in_devices st) (ie_models env) tenant_id (rd_device_id rd)
            \<lparr>g_timestamp = rd_timestamp rd, g_metric_name = key, g_metric_value = val, g_unit = None, g_metadata = Some provenance\<rparr>
            (in_telemetry st) of
         Inl e \<Rightarrow> (Inr (), st)
       | Inr (row, tdb) \<Rightarrow> (Inr (), st\<lparr>in_telemetry := tdb\<rparr>))"

definition mirror_to_subject ::
    "ingest_env \<Rightarrow> uuid \<Rightarrow> tag_read \<Rightarrow> jobj \<Rightarrow> string \<times> uuid \<Rightarrow> string \<times> pfloat \<Rightarrow> (intake, unit) step" where
  "mirror_to_subject env tenant_id rd provenance = (\<lambda>(kind, subject_id) (key, val).
     run_then (change (\<lambda>st. st\<lparr>in_telemetry := telemetry_insert
         \<lparr>rr_tenant_id = tenant_id, rr_subject_kind = kind, rr_subject_id = subject_id, rr_device_id = Some (rd_device_id rd),
          rr_timestamp = rd_timestamp rd, rr_metric_name = key, rr_metric_value = val, rr_unit = None, rr_source = ''tag'',
          rr_metadata = Some provenance\<rparr> (in_telemetry st)\<rparr>))
       (\<lambda>_. emit TELEMETRY_RECORDED (rd_timestamp rd) (event_payload env
         (recorded_payload tenant_id kind subject_id key val None (rd_device_id rd) ''tag'' (rd_timestamp rd)))))"

definition stock_of_tag :: "uuid \<Rightarrow> string \<Rightarrow> inventory \<Rightarrow> py_exn + stock_item option" where
  "stock_of_tag tenant_id tag_id db =
     and_then (get_active_by_binding tenant_id ''epc'' tag_id db) (\<lambda>found. case found of
       Some s \<Rightarrow> Inr (Some s)
     | None \<Rightarrow> get_active_by_binding tenant_id ''tid'' tag_id db)"

definition resolve_telemetry_subjects :: "ingest_env \<Rightarrow> uuid \<Rightarrow> tag_read \<Rightarrow> (intake, (string \<times> uuid) list) step" where
  "resolve_telemetry_subjects env tenant_id rd =
     (if tag_text rd = [] then give []
      else run_then (binding_of env tenant_id (tag_text rd)) (\<lambda>asset.
           run_then (\<lambda>st. lift_res (stock_of_tag tenant_id (tag_text rd) (in_inventory st)) st) (\<lambda>stock.
             give ((case asset of None \<Rightarrow> [] | Some a \<Rightarrow> [(''asset'', a)]) @
                   (case stock of None \<Rightarrow> [] | Some s \<Rightarrow> (''stock_item'', s_id s) #
                      (case s_lot_id s of None \<Rightarrow> [] | Some l \<Rightarrow> [(''lot'', l)]))))))"

definition mirror_tag_borne_sensors :: "ingest_env \<Rightarrow> uuid \<Rightarrow> tag_read \<Rightarrow> uuid \<Rightarrow> (intake, unit) step" where
  "mirror_tag_borne_sensors env tenant_id rd tag_read_id =
     run_then (lift_res (numeric_items rd)) (\<lambda>items.
       if items = [] then give ()
       else let provenance = provenance_of rd tag_read_id in
         run_then (each (mirror_to_device env tenant_id rd provenance) items) (\<lambda>_.
         run_then (get_telemetry_subject_kinds env tenant_id) (\<lambda>opted_in.
           let non_device = filter (\<lambda>k. k \<noteq> ''device'') opted_in in
           if non_device = [] then give ()
           else run_then (resolve_telemetry_subjects env tenant_id rd) (\<lambda>subjects.
             each (\<lambda>subject. if fst subject \<notin> set non_device then give ()
                             else each (mirror_to_subject env tenant_id rd provenance subject) items) subjects))))"

section \<open>Zones of assets and items\<close>

text \<open>The first candidate whose polygon contains the fix.\<close>

fun geofence_at :: "real \<Rightarrow> real \<Rightarrow> zone_candidate list \<Rightarrow> py_exn + uuid option" where
  "geofence_at lat lon [] = Inr None"
| "geofence_at lat lon (z # zs) =
     and_then (zone_ring z) (\<lambda>ring. case ring of
       None \<Rightarrow> geofence_at lat lon zs
     | Some r \<Rightarrow> if point_in_polygon lat lon r then Inr (Some (zc_id z)) else geofence_at lat lon zs)"

definition fence_cache :: "string \<Rightarrow> caches \<Rightarrow> (uuid \<times> uuid, uuid option) pydict" where
  "fence_cache subject_kind c = (if subject_kind = ''asset'' then ca_fence_asset c else ca_fence_stock c)"

definition set_fence :: "string \<Rightarrow> uuid \<times> uuid \<Rightarrow> uuid option \<Rightarrow> caches \<Rightarrow> caches" where
  "set_fence subject_kind k zone c =
     (if subject_kind = ''asset'' then c\<lparr>ca_fence_asset := bounded_set ZONE_CACHE_MAX k zone (ca_fence_asset c)\<rparr>
      else c\<lparr>ca_fence_stock := bounded_set ZONE_CACHE_MAX k zone (ca_fence_stock c)\<rparr>)"

text \<open>A subject seen before in another zone moves; the first sight only fills the cache.\<close>

definition moved :: "(uuid \<times> uuid, uuid option) pydict \<Rightarrow> uuid \<times> uuid \<Rightarrow> uuid option \<Rightarrow> bool" where
  "moved cache k zone \<longleftrightarrow> (case map_of cache k of None \<Rightarrow> False | Some prev \<Rightarrow> zone \<noteq> prev)"

definition last_zone :: "(uuid \<times> uuid, uuid option) pydict \<Rightarrow> uuid \<times> uuid \<Rightarrow> uuid option" where
  "last_zone cache k = (case map_of cache k of None \<Rightarrow> None | Some prev \<Rightarrow> prev)"

definition eval_geofence_for_subject :: "ingest_env \<Rightarrow> uuid \<Rightarrow> string \<Rightarrow> uuid \<Rightarrow> tag_read \<Rightarrow> uuid \<Rightarrow> (intake, unit) step" where
  "eval_geofence_for_subject env tenant_id subject_kind subject_id rd tag_read_id =
     (case rd_location rd of
        None \<Rightarrow> give ()
      | Some loc \<Rightarrow>
          if \<not> ie_geofence_evaluation_enabled env then give ()
          else let lat = lc_latitude loc; lon = lc_longitude loc; k = (tenant_id, subject_id) in
            run_then (find_geofence_candidates env tenant_id lat lon) (\<lambda>candidates.
            run_then (lift_res (geofence_at lat lon candidates)) (\<lambda>zone st.
              let cache = fence_cache subject_kind (in_caches st); st' = st\<lparr>in_caches := set_fence subject_kind k zone (in_caches st)\<rparr>
              in if moved cache k zone
                 then emit SUBJECT_ZONE_CHANGED (ie_now env) (event_payload env
                        (zone_changed_payload tenant_id subject_kind subject_id ''geofence'' (last_zone cache k) zone rd tag_read_id
                          [(''latitude'', JFloat (Fin lat)), (''longitude'', JFloat (Fin lon))])) st'
                 else (Inr (), st'))))"

definition identifiers :: "tag_read \<Rightarrow> string list" where
  "identifiers rd =
     (let known = map the (filter nonempty [read_epc rd, read_tid rd])
      in known @ (if tag_text rd \<noteq> [] \<and> tag_text rd \<notin> set known then [tag_text rd] else []))"

fun first_binding :: "ingest_env \<Rightarrow> uuid \<Rightarrow> string list \<Rightarrow> (intake, uuid option) step" where
  "first_binding env tenant_id [] = give None"
| "first_binding env tenant_id (v # vs) =
     run_then (binding_of env tenant_id v) (\<lambda>found. case found of
       Some a \<Rightarrow> give (Some a) | None \<Rightarrow> first_binding env tenant_id vs)"

definition asset_zone_seen :: "ingest_env \<Rightarrow> uuid \<Rightarrow> uuid \<Rightarrow> uuid option \<Rightarrow> tag_read \<Rightarrow> uuid \<Rightarrow> (intake, unit) step" where
  "asset_zone_seen env tenant_id asset_id zone rd tag_read_id st =
     (let cache = ca_zone_asset (in_caches st); k = (tenant_id, asset_id);
          st' = st\<lparr>in_caches := (in_caches st)\<lparr>ca_zone_asset := bounded_set ZONE_CACHE_MAX k zone cache\<rparr>\<rparr>
      in if k \<notin> set (dict_keys cache) then (Inr (), st')
         else if zone = last_zone cache k then (Inr (), st)
         else emit SUBJECT_ZONE_CHANGED (ie_now env) (event_payload env
                (zone_changed_payload tenant_id ''asset'' asset_id ''reader_bound'' (last_zone cache k) zone rd tag_read_id [])) st')"

definition enrich_with_asset_zone :: "ingest_env \<Rightarrow> uuid \<Rightarrow> tag_read \<Rightarrow> uuid \<Rightarrow> (intake, unit) step" where
  "enrich_with_asset_zone env tenant_id rd tag_read_id =
     run_then (first_binding env tenant_id (identifiers rd)) (\<lambda>binding. case binding of
       None \<Rightarrow> give ()
     | Some asset_id \<Rightarrow>
         run_then (lookup_device_mobility env tenant_id (rd_device_id rd)) (\<lambda>mobility.
         run_then (eval_geofence_for_subject env tenant_id ''asset'' asset_id rd tag_read_id) (\<lambda>_.
           if mobility \<noteq> ''fixed'' then give ()
           else asset_zone_seen env tenant_id asset_id (get_zone_for_reader tenant_id (rd_device_id rd) (ie_zones env)) rd tag_read_id)))"

section \<open>Stock items\<close>

definition tag_status :: "uuid \<Rightarrow> string \<Rightarrow> (uuid \<times> string \<times> string) list \<Rightarrow> py_exn + string option" where
  "tag_status tenant_id epc_hex tags =
     map_sum id (map_option (\<lambda>(t, e, status). status)) (scalar_one_or_none (filter (\<lambda>(t, e, status). t = tenant_id \<and> e = epc_hex) tags))"

definition registered_tag :: "ingest_env \<Rightarrow> uuid \<Rightarrow> string option \<Rightarrow> py_exn + bool" where
  "registered_tag env tenant_id epc_hex =
     (if \<not> nonempty epc_hex then Inr False
      else and_then (tag_status tenant_id (normalize_epc_hex (the epc_hex)) (ie_tags env)) (\<lambda>status.
             Inr (status \<in> {Some ''registered'', Some ''active''})))"

text \<open>The text of the first mapping to \<open>lot\<close> whose key the tag data has.\<close>

fun lot_text :: "jobj \<Rightarrow> mapping list \<Rightarrow> string option" where
  "lot_text tag_data [] = None"
| "lot_text tag_data (m # ms) =
     (if t_semantic_field m \<noteq> ''lot'' then lot_text tag_data ms
      else case jget tag_data (t_tag_data_key m) of JStr s \<Rightarrow> if s = [] then lot_text tag_data ms else Some s | _ \<Rightarrow> lot_text tag_data ms)"

definition infer_lot_id :: "datetime \<Rightarrow> uuid \<Rightarrow> uuid \<Rightarrow> jobj option \<Rightarrow> inventory \<Rightarrow> py_exn + uuid option" where
  "infer_lot_id now tenant_id product_id tag_data db =
     (case lot_text (blob tag_data) (mapping_list tenant_id (Some ''product'') (Some product_id) db @
             mapping_list tenant_id (Some ''tenant'') None db) of
        None \<Rightarrow> Inr None
      | Some code \<Rightarrow> and_then (lot_list_for_product now tenant_id product_id None 1000 0 db) (\<lambda>ls.
          Inr (map_option l_id (find (\<lambda>l. l_lot_code l = code) ls))))"

text \<open>
  A violated constraint ends the transaction of the session, so the handler's own query raises.
\<close>

definition create_item :: "ingest_env \<Rightarrow> uuid \<Rightarrow> uuid \<Rightarrow> uuid option \<Rightarrow> string \<Rightarrow> (intake, stock_item option) step" where
  "create_item env tenant_id product_id lot_id epc st =
     (case stock_create (ie_uuid4 env (in_fresh st)) (ie_now env) tenant_id
             \<lparr>sc_product_id = product_id, sc_lot_id = lot_id, sc_parent_id = None, sc_binding_value = epc, sc_binding_kind = ''epc'',
              sc_metadata = None\<rparr> (in_inventory st) of
        Inl e \<Rightarrow> (Inl (OtherError ''PendingRollbackError''), st\<lparr>in_fresh := Suc (in_fresh st)\<rparr>)
      | Inr (item, db) \<Rightarrow> (Inr (Some item), st\<lparr>in_inventory := db, in_fresh := Suc (in_fresh st)\<rparr>))"

definition auto_create :: "ingest_env \<Rightarrow> uuid \<Rightarrow> uuid \<Rightarrow> tag_read \<Rightarrow> string \<Rightarrow> (intake, stock_item option) step" where
  "auto_create env tenant_id product_id rd epc =
     run_then (lift_res (registered_tag env tenant_id (case rd_identity rd of None \<Rightarrow> None | Some i \<Rightarrow> id_epc_hex i))) (\<lambda>ok.
       if \<not> ok then give None
       else run_then (\<lambda>st. lift_res (infer_lot_id (ie_now env) tenant_id product_id (rd_tag_data rd) (in_inventory st)) st) (\<lambda>lot_id.
            create_item env tenant_id product_id lot_id epc))"

definition find_or_create_item :: "ingest_env \<Rightarrow> uuid \<Rightarrow> uuid \<Rightarrow> tag_read \<Rightarrow> string \<Rightarrow> (intake, stock_item option) step" where
  "find_or_create_item env tenant_id product_id rd epc =
     run_then (\<lambda>st. lift_res (get_active_by_binding tenant_id ''epc'' epc (in_inventory st)) st) (\<lambda>found. case found of
       Some item \<Rightarrow> give (Some item) | None \<Rightarrow> auto_create env tenant_id product_id rd epc)"

text \<open>
  The zone on the item's row is brought up to date; a zone other than the one on the row goes into the ledger and
  onto the meter, unless this process sees the item for the first time.  The value is the zone left, if any.  An
  insertion that violates a constraint ends the transaction, and the row's new zone is gone with it.
\<close>

definition observe_item :: "ingest_env \<Rightarrow> uuid \<Rightarrow> uuid \<Rightarrow> uuid option \<Rightarrow> tag_read \<Rightarrow> (intake, uuid option option) step" where
  "observe_item env tenant_id item_id zone rd st =
     (case record_observation tenant_id item_id zone (rd_timestamp rd) (in_inventory st) of
        (None, db) \<Rightarrow> (Inr None, st\<lparr>in_inventory := db\<rparr>)
      | (Some (prev_zone, _), db) \<Rightarrow>
          (let cache = ca_zone_stock (in_caches st); k = (tenant_id, item_id);
               st' = st\<lparr>in_inventory := db, in_caches := (in_caches st)\<lparr>ca_zone_stock := bounded_set ZONE_CACHE_MAX k zone cache\<rparr>\<rparr>
           in if k \<notin> set (dict_keys cache) \<or> zone = prev_zone then (Inr None, st')
              else case movement_insert (ie_uuid4 env (in_fresh st)) tenant_id item_id prev_zone zone
                     (if prev_zone = None then ''enter'' else ''transfer'') (Some (rd_device_id rd)) (rd_timestamp rd) 1 db of
                Inl e \<Rightarrow> (Inl e, st'\<lparr>in_inventory := in_inventory st, in_fresh := Suc (in_fresh st)\<rparr>)
              | Inr (m, db') \<Rightarrow> (Inr (Some prev_zone), st'\<lparr>in_inventory := db', in_fresh := Suc (in_fresh st),
                  in_meter := record_usage tenant_id ''inventory_movements'' ''events'' 1 (in_meter st)\<rparr>)))"

definition item_zone_seen :: "ingest_env \<Rightarrow> uuid \<Rightarrow> uuid \<Rightarrow> uuid \<Rightarrow> uuid option \<Rightarrow> string \<Rightarrow> tag_read \<Rightarrow> uuid \<Rightarrow> (intake, unit) step" where
  "item_zone_seen env tenant_id item_id product_id zone epc rd tag_read_id =
     run_then (observe_item env tenant_id item_id zone rd) (\<lambda>left. case left of
       None \<Rightarrow> give ()
     | Some prev_zone \<Rightarrow>
         run_then (emit SUBJECT_ZONE_CHANGED (ie_now env) (event_payload env
             (stock_zone_changed_payload tenant_id item_id product_id prev_zone zone epc rd tag_read_id))) (\<lambda>_.
           eval_geofence_for_subject env tenant_id ''stock_item'' item_id rd tag_read_id))"

definition enrich_with_inventory :: "ingest_env \<Rightarrow> uuid \<Rightarrow> tag_read \<Rightarrow> uuid \<Rightarrow> (intake, unit) step" where
  "enrich_with_inventory env tenant_id rd tag_read_id =
     (case rd_identity rd of
        None \<Rightarrow> give ()
      | Some ident \<Rightarrow> (case id_epc ident of
          None \<Rightarrow> give ()
        | Some epc \<Rightarrow>
            run_then (lift_res (gtin14_from_decoded (id_epc_decoded ident))) (\<lambda>gtin. case gtin of
              None \<Rightarrow> give ()
            | Some g \<Rightarrow>
                run_then (tenant_has_inventory_mode env tenant_id) (\<lambda>enabled. if \<not> enabled then give () else
                run_then (lookup_product_id_by_gtin tenant_id g) (\<lambda>product. case product of
                  None \<Rightarrow> give ()
                | Some product_id \<Rightarrow>
                    run_then (find_or_create_item env tenant_id product_id rd epc) (\<lambda>item. case item of
                      None \<Rightarrow> give ()
                    | Some s \<Rightarrow>
                        run_then (lookup_device_mobility env tenant_id (rd_device_id rd)) (\<lambda>mobility.
                          if mobility \<noteq> ''fixed'' then eval_geofence_for_subject env tenant_id ''stock_item'' (s_id s) rd tag_read_id
                          else item_zone_seen env tenant_id (s_id s) product_id
                                 (get_zone_for_reader tenant_id (rd_device_id rd) (ie_zones env)) epc rd tag_read_id)))))))"

section \<open>The service\<close>

definition record_rejection :: "uuid \<Rightarrow> tag_read \<Rightarrow> string \<Rightarrow> intake \<Rightarrow> intake" where
  "record_rejection tenant_id rd reason st =
     st\<lparr>in_dead_letters := in_dead_letters st @
       [\<lparr>rj_tenant_id = tenant_id, rj_topic = ''tag_read.rejected_clock'',
         rj_payload = [(''device_id'', JStr (str_uuid (rd_device_id rd))), (''tag_id'', JStr (tag_text rd)),
           (''timestamp'', JStr (isoformat (rd_timestamp rd))), (''epc'', json_text (read_epc rd)), (''tid'', json_text (read_tid rd))],
         rj_error_message = reason, rj_status = ''rejected'', rj_source = ''tag_read_rejected''\<rparr>]\<rparr>"

definition reject_read :: "uuid \<Rightarrow> tag_read \<Rightarrow> string \<Rightarrow> intake \<Rightarrow> intake" where
  "reject_read tenant_id rd reason st =
     (let st = record_rejection tenant_id rd reason st
      in st\<lparr>in_meter := record_usage tenant_id ''events_rejected_clock'' ''events'' 1 (in_meter st)\<rparr>)"

definition insert_read :: "ingest_env \<Rightarrow> uuid \<Rightarrow> tag_read \<Rightarrow> intake \<Rightarrow> stored_read \<times> intake" where
  "insert_read env tenant_id rd st =
     (let row = \<lparr>sr_id = ie_uuid4 env (in_fresh st), sr_tenant_id = tenant_id, sr_read = rd\<lparr>rd_tag_id := Some (tag_text rd)\<rparr>\<rparr>
      in (row, st\<lparr>in_reads := in_reads st @ [row], in_fresh := Suc (in_fresh st)\<rparr>))"

fun insert_batch :: "ingest_env \<Rightarrow> uuid \<Rightarrow> tag_read list \<Rightarrow> intake \<Rightarrow> stored_read list \<times> intake" where
  "insert_batch env tenant_id [] st = ([], st)"
| "insert_batch env tenant_id (rd # rds) st =
     (let (row, st1) = insert_read env tenant_id rd st; (rows, st2) = insert_batch env tenant_id rds st1 in (row # rows, st2))"

definition touch_device :: "ingest_env \<Rightarrow> uuid \<Rightarrow> uuid \<Rightarrow> intake \<Rightarrow> intake" where
  "touch_device env tenant_id device_id st =
     st\<lparr>in_devices := record_connection_state tenant_id device_id ''online'' (record_last_seen tenant_id device_id (ie_now env) (in_devices st))\<rparr>"

definition enrich_read :: "ingest_env \<Rightarrow> uuid \<Rightarrow> tag_read \<Rightarrow> uuid \<Rightarrow> (intake, unit) step" where
  "enrich_read env tenant_id rd tag_read_id =
     run_then (mirror_tag_borne_sensors env tenant_id rd tag_read_id) (\<lambda>_.
     run_then (enrich_with_asset_zone env tenant_id rd tag_read_id) (\<lambda>_.
     run_then (enrich_with_inventory env tenant_id rd tag_read_id) (\<lambda>_.
       emit TAG_READ_CREATED (ie_now env) (event_payload env (created_payload tenant_id tag_read_id rd)))))"

definition clock_rejection :: "string \<Rightarrow> py_exn" where
  "clock_rejection reason = OtherError (''ClockRejectionError: '' @ reason)"

definition ingest_one :: "ingest_env \<Rightarrow> uuid \<Rightarrow> tag_read \<Rightarrow> (intake, stored_read) step" where
  "ingest_one env tenant_id rd st =
     (case normalize (ie_float_text env) rd of
        Inl e \<Rightarrow> (Inl e, st)
      | Inr nread \<Rightarrow>
          (let reason = check_clock_window (rd_timestamp nread) (ie_now env);
               st1 = (case reason of None \<Rightarrow> st | Some r \<Rightarrow> reject_read tenant_id nread r st)
           in if reason \<noteq> None \<and> ie_clock_enforce env then (Inl (clock_rejection (the reason)), st1)
              else (let (row, st2) = insert_read env tenant_id nread st1
                    in run_then (enrich_read env tenant_id nread (sr_id row)) (\<lambda>_. give row)
                         (touch_device env tenant_id (rd_device_id nread) st2))))"

text \<open>The reads of a batch that go on, with every rejection recorded on the way.\<close>

fun admit :: "ingest_env \<Rightarrow> uuid \<Rightarrow> tag_read list \<Rightarrow> intake \<Rightarrow> (tag_read list \<times> nat) \<times> intake" where
  "admit env tenant_id [] st = (([], 0), st)"
| "admit env tenant_id (rd # rds) st =
     (case check_clock_window (rd_timestamp rd) (ie_now env) of
        None \<Rightarrow> (let ((admitted, rejected), st') = admit env tenant_id rds st in ((rd # admitted, rejected), st'))
      | Some reason \<Rightarrow>
          (let ((admitted, rejected), st') = admit env tenant_id rds (reject_read tenant_id rd reason st)
           in ((if ie_clock_enforce env then admitted else rd # admitted, Suc rejected), st')))"

definition ingest_batch :: "ingest_env \<Rightarrow> uuid \<Rightarrow> tag_read list \<Rightarrow> (intake, nat \<times> nat) step" where
  "ingest_batch env tenant_id rds st =
     (case map_res (normalize (ie_float_text env)) rds of
        Inl e \<Rightarrow> (Inl e, st)
      | Inr normalized_all \<Rightarrow>
          (let ((normalized, rejected), st1) = admit env tenant_id normalized_all st;
               (inserted, st2) = insert_batch env tenant_id normalized st1;
               st3 = fold (touch_device env tenant_id) (remdups (map rd_device_id normalized)) st2
           in run_then (each (\<lambda>(rd, row). enrich_read env tenant_id rd (sr_id row)) (zip normalized inserted))
                (\<lambda>_. give (length inserted, rejected)) st3))"

section \<open>Requests\<close>

text \<open>A device token may only bring reads of its own device, and no backfill.\<close>

definition enforce_device_ingest :: "uuid option \<Rightarrow> uuid list \<Rightarrow> bool \<Rightarrow> bool" where
  "enforce_device_ingest device_token device_ids backfill \<longleftrightarrow>
     (case device_token of None \<Rightarrow> True | Some own \<Rightarrow> \<not> backfill \<and> (\<forall>d \<in> set device_ids. d = own))"

text \<open>The session commits after a value and rolls back after any exception.\<close>

definition rollback :: "intake \<Rightarrow> intake \<Rightarrow> intake" where
  "rollback before st =
     st\<lparr>in_reads := in_reads before, in_dead_letters := in_dead_letters before, in_devices := in_devices before,
        in_telemetry := (in_telemetry before)\<lparr>td_events := td_events (in_telemetry st)\<rparr>, in_inventory := in_inventory before\<rparr>"

definition in_session :: "(intake, 'a) step \<Rightarrow> (intake, 'a) step" where
  "in_session m st = (case m st of (Inr a, st') \<Rightarrow> (Inr a, st') | (Inl e, st') \<Rightarrow> (Inl e, rollback st st'))"

definition forbidden :: py_exn where
  "forbidden = OtherError ''HTTPException 403''"

definition create_tag_read :: "uuid option \<Rightarrow> ingest_env \<Rightarrow> uuid \<Rightarrow> tag_read \<Rightarrow> (intake, stored_read) step" where
  "create_tag_read device_token env tenant_id body =
     in_session (if \<not> enforce_device_ingest device_token [rd_device_id body] (ie_backfill env) then lift_res (Inl forbidden)
                 else ingest_one env tenant_id body)"

definition create_tag_reads_batch :: "uuid option \<Rightarrow> ingest_env \<Rightarrow> uuid \<Rightarrow> tag_read list \<Rightarrow> (intake, nat \<times> nat) step" where
  "create_tag_reads_batch device_token env tenant_id body =
     in_session (if \<not> enforce_device_ingest device_token (map rd_device_id body) (ie_backfill env) then lift_res (Inl forbidden)
                 else ingest_batch env tenant_id body)"

end
