(* ===== verification/Mqtt.thy ===== *)
theory Mqtt
  imports Ingestion Presence
begin

text \<open>
  The MQTT subscriber (\<open>ingestion/mqtt_subscriber.py\<close>): a message is routed by its topic, its payload is
  validated, and its effects run in a session of their own.  A failed session is rolled back and logged; the
  drops are counted, and some of them stored as dead letters.  Reading JSON, Pydantic's coercions and its error lists,
  and which documents a JSONB column takes are parameters; the fields and limits of the schemas are definitions.
\<close>

section \<open>State\<close>

record mqtt_message =
  mm_topic :: string
  mm_payload :: string

datatype loaded = Loaded json | JSONDecodeError | UnicodeDecodeError

text \<open>An entry of \<open>ValidationError.errors()\<close>.\<close>

datatype loc_item = LocName string | LocIndex int

record error_entry =
  er_type :: string
  er_loc :: "loc_item list"
  er_msg :: string

record decoders =
  de_base :: coercions
  de_datetime :: "json \<Rightarrow> datetime option"
  de_uuid :: "json \<Rightarrow> uuid option"

record mqtt_env =
  me_ingest :: ingest_env
  me_loads :: "string \<Rightarrow> loaded"
  me_decoders :: decoders
  me_wm_errors :: "jobj \<Rightarrow> error_entry list"
  me_fromisoformat :: "string \<Rightarrow> datetime option"
  me_jsonb :: "jobj \<Rightarrow> bool"
  me_str :: "json \<Rightarrow> string"

record subscriber =
  su_intake :: intake
  su_presence :: presence_table
  su_rejected :: "(string \<times> string) list" \<comment> \<open>\<open>mqtt_messages_rejected_total\<close>: kind of topic, reason\<close>
  su_wm_rejected :: "string list"
  su_wm_large :: "string list"
  su_device_events :: "(uuid \<times> string) list"
  su_processed :: nat

definition KNOWN_SUFFIXES :: "string set" where
  "KNOWN_SUFFIXES = {''tag-reads'', ''status'', ''telemetry'', ''location'', ''events''}"

definition SUBJECT_KINDS :: "string set" where
  "SUBJECT_KINDS = {''device'', ''asset'', ''lot'', ''stock_item'', ''zone''}"

definition SNAP_SOFT_CAP_ENTRIES :: nat where
  "SNAP_SOFT_CAP_ENTRIES = 5000"

section \<open>Topics\<close>

fun split_on :: "char \<Rightarrow> string \<Rightarrow> string list" where
  "split_on c [] = [[]]"
| "split_on c (x # xs) =
     (if x = c then [] # split_on c xs else case split_on c xs of [] \<Rightarrow> [[x]] | p # ps \<Rightarrow> (x # p) # ps)"

definition parse_topic :: "string \<Rightarrow> (uuid \<times> uuid \<times> string) option" where
  "parse_topic topic =
     (case split_on CHR ''/'' topic of
        [p0, p1, p2, p3, p4] \<Rightarrow>
          if p0 = ''tenants'' \<and> p2 = ''devices''
          then (case uuid_of_string p1 of Inl _ \<Rightarrow> None
                | Inr tenant_id \<Rightarrow> (case uuid_of_string p3 of Inl _ \<Rightarrow> None | Inr device_id \<Rightarrow> Some (tenant_id, device_id, p4)))
          else None
      | _ \<Rightarrow> None)"

definition parse_subject_topic :: "string \<Rightarrow> (uuid \<times> string \<times> uuid) option" where
  "parse_subject_topic topic =
     (case split_on CHR ''/'' topic of
        [p0, p1, p2, p3, p4, p5] \<Rightarrow>
          if p0 = ''tenants'' \<and> p2 = ''subjects'' \<and> p5 = ''telemetry''
          then (case uuid_of_string p1 of Inl _ \<Rightarrow> None
                | Inr tenant_id \<Rightarrow> (case uuid_of_string p4 of Inl _ \<Rightarrow> None
                   | Inr subject_id \<Rightarrow> if p3 \<notin> SUBJECT_KINDS then None else Some (tenant_id, p3, subject_id)))
          else None
      | _ \<Rightarrow> None)"

section \<open>Schemas\<close>

definition at_most :: "nat \<Rightarrow> string \<Rightarrow> bool" where
  "at_most n s \<longleftrightarrow> length s \<le> n"

definition between_chars :: "nat \<Rightarrow> nat \<Rightarrow> string \<Rightarrow> bool" where
  "between_chars m n s \<longleftrightarrow> m \<le> length s \<and> length s \<le> n"

definition any_value :: "'a \<Rightarrow> bool" where
  "any_value x \<longleftrightarrow> True"

fun as_dict :: "json \<Rightarrow> jobj option" where
  "as_dict (JObj d) = Some d"
| "as_dict _ = None"

fun finite_real :: "pfloat \<Rightarrow> real option" where
  "finite_real (Fin x) = Some x"
| "finite_real _ = None"

definition coordinate :: "decoders \<Rightarrow> real \<Rightarrow> jobj \<Rightarrow> string \<Rightarrow> real option" where
  "coordinate D bound d k = bind_opt (field_req (as_float (de_base D)) (pf_between (- bound) bound) d k) finite_real"

definition accuracy_field :: "decoders \<Rightarrow> jobj \<Rightarrow> pfloat option option" where
  "accuracy_field D d = field_opt (as_float (de_base D)) (pf_le (Fin 0)) d ''accuracy_m''"

text \<open>\<open>LocationSource = "gps"\<close>: a literal with a default.\<close>

definition source_field :: "jobj \<Rightarrow> string option" where
  "source_field d =
     (case map_of d ''source'' of
        None \<Rightarrow> Some ''gps''
      | Some (JStr s) \<Rightarrow> if s \<in> {''gps'', ''fixed'', ''inferred'', ''reader_gnss''} then Some s else None
      | Some _ \<Rightarrow> None)"

definition location_model :: "decoders \<Rightarrow> json \<Rightarrow> location option" where
  "location_model D j =
     bind_opt (as_dict j) (\<lambda>d.
     bind_opt (coordinate D 90 d ''latitude'') (\<lambda>lat.
     bind_opt (coordinate D 180 d ''longitude'') (\<lambda>lon.
     bind_opt (accuracy_field D d) (\<lambda>acc.
     bind_opt (source_field d) (\<lambda>src. Some \<lparr>lc_latitude = lat, lc_longitude = lon, lc_accuracy_m = acc, lc_source = src\<rparr>)))))"

definition identity_model :: "decoders \<Rightarrow> json \<Rightarrow> identity option" where
  "identity_model D j =
     (let text = as_str (de_base D) in
      bind_opt (as_dict j) (\<lambda>d.
      bind_opt (field_opt text (at_most 256) d ''epc'') (\<lambda>epc.
      bind_opt (field_opt text (at_most 128) d ''epc_hex'') (\<lambda>epc_hex.
      bind_opt (field_opt text (at_most 32) d ''epc_scheme'') (\<lambda>scheme.
      bind_opt (field_opt as_dict any_value d ''epc_decoded'') (\<lambda>decoded.
      bind_opt (field_opt text (at_most 64) d ''tid'') (\<lambda>tid.
      bind_opt (field_opt text any_value d ''user_memory_hex'') (\<lambda>user.
        Some \<lparr>id_epc = epc, id_epc_hex = epc_hex, id_epc_scheme = scheme, id_epc_decoded = decoded, id_tid = tid,
              id_user_memory_hex = user\<rparr>))))))))"

definition tag_read_create :: "decoders \<Rightarrow> uuid \<Rightarrow> jobj \<Rightarrow> tag_read option" where
  "tag_read_create D device_id d =
     (let number = as_float (de_base D) in
      bind_opt (field_opt (as_str (de_base D)) (at_most 256) d ''tag_id'') (\<lambda>tag_id.
      bind_opt (field_req (de_datetime D) any_value d ''timestamp'') (\<lambda>ts.
      bind_opt (field_opt number any_value d ''signal_strength'') (\<lambda>signal.
      bind_opt (field_opt as_dict any_value d ''sensor_data'') (\<lambda>sensor.
      bind_opt (field_opt (location_model D) any_value d ''location'') (\<lambda>loc.
      bind_opt (field_opt (identity_model D) any_value d ''identity'') (\<lambda>ident.
      bind_opt (field_opt as_dict any_value d ''tag_data'') (\<lambda>tag_data.
      bind_opt (field_opt (as_int (de_base D)) antenna_ok d ''reader_antenna'') (\<lambda>antenna.
        Some \<lparr>rd_device_id = device_id, rd_tag_id = tag_id, rd_timestamp = ts, rd_signal_strength = signal, rd_sensor_data = sensor,
              rd_location = loc, rd_identity = ident, rd_tag_data = tag_data, rd_reader_antenna = antenna\<rparr>)))))))))"

definition device_status_update :: "decoders \<Rightarrow> jobj \<Rightarrow> (string \<times> string option) option" where
  "device_status_update D d =
     bind_opt (field_req (as_str (de_base D)) (at_most 50) d ''connection_state'') (\<lambda>state.
     bind_opt (field_opt (as_str (de_base D)) (at_most 50) d ''firmware_version'') (\<lambda>fw. Some (state, fw)))"

definition telemetry_reading_model :: "decoders \<Rightarrow> jobj \<Rightarrow> telemetry_reading option" where
  "telemetry_reading_model D d =
     bind_opt (field_req (de_datetime D) any_value d ''timestamp'') (\<lambda>ts.
     bind_opt (field_req (as_str (de_base D)) (between_chars 1 100) d ''metric_name'') (\<lambda>name.
     bind_opt (field_req (as_float (de_base D)) any_value d ''metric_value'') (\<lambda>x.
     bind_opt (field_opt (as_str (de_base D)) (at_most 20) d ''unit'') (\<lambda>u.
     bind_opt (field_opt as_dict any_value d ''metadata'') (\<lambda>meta.
       Some \<lparr>g_timestamp = ts, g_metric_name = name, g_metric_value = x, g_unit = u, g_metadata = meta\<rparr>)))))"

definition telemetry_single :: "decoders \<Rightarrow> jobj \<Rightarrow> (uuid \<times> telemetry_reading) option" where
  "telemetry_single D d =
     bind_opt (field_req (de_uuid D) any_value d ''device_id'') (\<lambda>device_id.
     bind_opt (telemetry_reading_model D d) (\<lambda>g. Some (device_id, g)))"

definition location_payload_model :: "decoders \<Rightarrow> jobj \<Rightarrow> location_payload option" where
  "location_payload_model D d =
     bind_opt (field_req (de_uuid D) any_value d ''device_id'') (\<lambda>device_id.
     bind_opt (field_req (de_datetime D) any_value d ''timestamp'') (\<lambda>ts.
     bind_opt (coordinate D 90 d ''latitude'') (\<lambda>lat.
     bind_opt (coordinate D 180 d ''longitude'') (\<lambda>lon.
     bind_opt (accuracy_field D d) (\<lambda>acc.
     bind_opt (source_field d) (\<lambda>src.
       Some \<lparr>lp_device_id = device_id, lp_timestamp = ts, lp_latitude = lat, lp_longitude = lon, lp_accuracy_m = acc,
             lp_source = src\<rparr>))))))"

record device_event =
  dv_device_id :: uuid
  dv_timestamp :: datetime
  dv_event_type :: string

definition device_event_payload :: "decoders \<Rightarrow> jobj \<Rightarrow> device_event option" where
  "device_event_payload D d =
     bind_opt (field_req (de_uuid D) any_value d ''device_id'') (\<lambda>device_id.
     bind_opt (field_req (de_datetime D) any_value d ''timestamp'') (\<lambda>ts.
     bind_opt (field_req (as_str (de_base D)) (between_chars 1 100) d ''event_type'') (\<lambda>etype.
     bind_opt (field_opt as_dict any_value d ''details'') (\<lambda>_.
       Some \<lparr>dv_device_id = device_id, dv_timestamp = ts, dv_event_type = etype\<rparr>))))"

section \<open>WM messages as tag reads\<close>

definition is_int :: "json \<Rightarrow> bool" where
  "is_int j = (case j of JInt _ \<Rightarrow> True | JBool _ \<Rightarrow> True | _ \<Rightarrow> False)"

definition within_text :: "string \<Rightarrow> string \<Rightarrow> bool" where
  "within_text needle s \<longleftrightarrow> list_ex (\<lambda>n. starts_with (drop n s) needle) [0..<Suc (length s)]"

text \<open>The reason of one error entry, if it has one.\<close>

definition error_reason :: "jobj \<Rightarrow> error_entry \<Rightarrow> string option" where
  "error_reason raw e =
     (let etype = er_type e; loc = er_loc e; final = (\<lambda>names. loc \<noteq> [] \<and> last loc \<in> LocName ` names) in
      if etype = ''union_tag_not_found'' then Some ''missing_type''
      else if etype = ''union_tag_invalid'' then Some ''unknown_type''
      else if final {''epc''} then Some ''invalid_epc''
      else if within_text ''explicit null'' (er_msg e) then Some ''explicit_null''
      else if etype = ''extra_forbidden'' \<and> LocName ''epcs'' \<in> set loc then Some ''epcs_wrong_type''
      else if etype = ''missing'' \<and> LocName ''epcs'' \<in> set loc \<and> is_int (jget raw ''t'') \<and> eq_int (jget raw ''t'') 0
        then Some ''missing_required_field''
      else if etype = ''missing'' \<and> final {''lat'', ''lon''} then Some ''missing_required_field''
      else if etype = ''missing'' \<and> 2 \<le> length loc \<and> hd loc = LocName ''epcs'' then Some ''invalid_snap_entry''
      else None)"

fun classify_wm_validation_error :: "jobj \<Rightarrow> error_entry list \<Rightarrow> string" where
  "classify_wm_validation_error raw [] = ''invalid_schema''"
| "classify_wm_validation_error raw (e # es) =
     (case error_reason raw e of Some reason \<Rightarrow> reason | None \<Rightarrow> classify_wm_validation_error raw es)"

text \<open>The coordinates have been checked to be in range, so they are finite.\<close>

definition wm_location :: "pfloat option \<Rightarrow> pfloat option \<Rightarrow> location option" where
  "wm_location lat lon =
     bind_opt (bind_opt lat finite_real) (\<lambda>x. bind_opt (bind_opt lon finite_real) (\<lambda>y.
       Some \<lparr>lc_latitude = x, lc_longitude = y, lc_accuracy_m = None, lc_source = ''reader_gnss''\<rparr>))"

definition wm_sensor_data :: "int option \<Rightarrow> pfloat option \<Rightarrow> pfloat option \<Rightarrow> jobj option" where
  "wm_sensor_data cnt tmp hum =
     (let out = (case cnt of None \<Rightarrow> [] | Some c \<Rightarrow> [(''read_count'', JInt c)]) @
                (case tmp of None \<Rightarrow> [] | Some x \<Rightarrow> [(''temperature_c'', JFloat x)]) @
                (case hum of None \<Rightarrow> [] | Some x \<Rightarrow> [(''humidity_pct'', JFloat x)])
      in if out = [] then None else Some out)"

definition hex_identity :: "string \<Rightarrow> identity" where
  "hex_identity epc = \<lparr>id_epc = None, id_epc_hex = Some epc, id_epc_scheme = None, id_epc_decoded = None, id_tid = None,
     id_user_memory_hex = None\<rparr>"

definition wm_snap_to_tag_reads :: "uuid \<Rightarrow> datetime \<Rightarrow> pfloat option \<Rightarrow> pfloat option \<Rightarrow> snap_entry list \<Rightarrow> tag_read list" where
  "wm_snap_to_tag_reads device_id ts lat lon entries =
     map (\<lambda>e. \<lparr>rd_device_id = device_id, rd_tag_id = Some (se_epc e), rd_timestamp = ts,
            rd_signal_strength = Some (Fin (of_int (se_rssi e))), rd_sensor_data = wm_sensor_data (Some (se_cnt e)) (se_tmp e) (se_hum e),
            rd_location = wm_location lat lon, rd_identity = Some (hex_identity (se_epc e)), rd_tag_data = None,
            rd_reader_antenna = Some (se_an e)\<rparr>) entries"

definition wm_appeared_to_tag_read :: "uuid \<Rightarrow> datetime \<Rightarrow> pfloat option \<Rightarrow> pfloat option \<Rightarrow> snap_entry \<Rightarrow> tag_read" where
  "wm_appeared_to_tag_read device_id ts lat lon e =
     \<lparr>rd_device_id = device_id, rd_tag_id = Some (se_epc e), rd_timestamp = ts,
      rd_signal_strength = Some (Fin (of_int (se_rssi e))), rd_sensor_data = wm_sensor_data None (se_tmp e) (se_hum e),
      rd_location = wm_location lat lon, rd_identity = Some (hex_identity (se_epc e)), rd_tag_data = None,
      rd_reader_antenna = Some (se_an e)\<rparr>"

text \<open>The compact dialect is lowered to the keyed one for the reconciler, whose models check the values again.\<close>

definition wm_v2_ts_ms :: "datetime \<Rightarrow> int" where
  "wm_v2_ts_ms dt = py_trunc (of_int dt / 1000)"

definition wm_v2_rssi_to_smallint :: "pfloat option \<Rightarrow> py_exn + int" where
  "wm_v2_rssi_to_smallint rssi =
     (case rssi of None \<Rightarrow> Inr 0 | Some x \<Rightarrow> and_then (round_int x) (\<lambda>n. Inr (max (- 127) (min 0 n))))"

definition lowered_ts :: "wm2_message \<Rightarrow> py_exn + int" where
  "lowered_ts msg = (let ts = wm_v2_ts_ms (w2_ts msg) in if ts < 0 then Inl (ValueError ''ts'') else Inr ts)"

definition lowered_epc :: "string \<Rightarrow> py_exn + string" where
  "lowered_epc epc = validate_epc epc"

definition lowered_entry :: "wm2_message \<Rightarrow> wm2_entry \<Rightarrow> py_exn + snap_entry" where
  "lowered_entry msg e =
     and_then (wm_v2_rssi_to_smallint (w2_rssi e)) (\<lambda>rssi.
     and_then (lowered_epc (w2_epc e)) (\<lambda>epc.
       Inr \<lparr>se_an = (case w2_ant msg of None \<Rightarrow> 0 | Some a \<Rightarrow> a), se_epc = epc, se_rssi = rssi, se_cnt = 1, se_tmp = None,
            se_hum = None\<rparr>))"

definition wm_v2_to_snap_model :: "wm2_message \<Rightarrow> py_exn + int \<times> snap_entry list" where
  "wm_v2_to_snap_model msg =
     and_then (map_res (lowered_entry msg) (w2_entries msg)) (\<lambda>entries. and_then (lowered_ts msg) (\<lambda>ts. Inr (ts, entries)))"

definition wm_v2_to_appeared_model :: "wm2_message \<Rightarrow> wm2_entry \<Rightarrow> py_exn + int \<times> snap_entry" where
  "wm_v2_to_appeared_model msg e = and_then (lowered_entry msg e) (\<lambda>entry. and_then (lowered_ts msg) (\<lambda>ts. Inr (ts, entry)))"

definition wm_v2_to_disappeared_model :: "wm2_message \<Rightarrow> wm2_entry \<Rightarrow> py_exn + int \<times> string" where
  "wm_v2_to_disappeared_model msg e = and_then (lowered_epc (w2_epc e)) (\<lambda>epc. and_then (lowered_ts msg) (\<lambda>ts. Inr (ts, epc)))"

definition wm_v2_entry_to_tag_read :: "uuid \<Rightarrow> wm2_message \<Rightarrow> wm2_entry \<Rightarrow> tag_read" where
  "wm_v2_entry_to_tag_read device_id msg e =
     \<lparr>rd_device_id = device_id, rd_tag_id = Some (w2_epc e), rd_timestamp = w2_ts msg, rd_signal_strength = w2_rssi e,
      rd_sensor_data = wm_sensor_data (w2_cnt e) (w2_tmp e) (w2_hum e), rd_location = wm_location (w2_lat msg) (w2_lon msg),
      rd_identity = Some (hex_identity (w2_epc e)), rd_tag_data = (if w2_fw msg = JNull then None else Some [(''_fw'', w2_fw msg)]),
      rd_reader_antenna = w2_ant msg\<rparr>"

section \<open>Drops and sessions\<close>

definition count_rejection :: "string \<Rightarrow> string \<Rightarrow> subscriber \<Rightarrow> subscriber" where
  "count_rejection topic_kind reason su = su\<lparr>su_rejected := su_rejected su @ [(topic_kind, reason)]\<rparr>"

text \<open>The row is committed in a session of its own; what the column does not take is not stored, and only logged.\<close>

definition persist_mqtt_drop :: "mqtt_env \<Rightarrow> uuid \<Rightarrow> string \<Rightarrow> json \<Rightarrow> string \<Rightarrow> string \<Rightarrow> subscriber \<Rightarrow> subscriber" where
  "persist_mqtt_drop env tenant_id topic_str payload topic_kind reason su =
     (let body = (case payload of JObj d \<Rightarrow> d | _ \<Rightarrow> [(''raw'', JStr (take 1000 (me_str env payload)))]);
          row = \<lparr>rj_tenant_id = tenant_id, rj_topic = take 50 topic_str, rj_payload = body,
                 rj_error_message = ''mqtt '' @ topic_kind @ '' '' @ reason, rj_status = ''rejected'', rj_source = ''mqtt_subscriber''\<rparr>
      in if me_jsonb env body
         then su\<lparr>su_intake := (su_intake su)\<lparr>in_dead_letters := in_dead_letters (su_intake su) @ [row]\<rparr>\<rparr> else su)"

definition drop_invalid :: "mqtt_env \<Rightarrow> uuid \<Rightarrow> string \<Rightarrow> jobj \<Rightarrow> string \<Rightarrow> subscriber \<Rightarrow> subscriber" where
  "drop_invalid env tenant_id topic_str payload topic_kind su =
     persist_mqtt_drop env tenant_id topic_str (JObj payload) topic_kind ''invalid_schema'' (count_rejection topic_kind ''invalid_schema'' su)"

definition on_intake :: "(intake, 'a) step \<Rightarrow> (subscriber, 'a) step" where
  "on_intake m su = (case m (su_intake su) of (r, st) \<Rightarrow> (r, su\<lparr>su_intake := st\<rparr>))"

text \<open>\<open>async with session\<close> under \<open>except Exception\<close>: commit after a value, else roll back and log.\<close>

definition mqtt_session :: "(subscriber, unit) step \<Rightarrow> subscriber \<Rightarrow> subscriber" where
  "mqtt_session m su =
     (case m su of
        (Inr _, su') \<Rightarrow> su'
      | (Inl _, su') \<Rightarrow> su'\<lparr>su_intake := rollback (su_intake su) (su_intake su'), su_presence := su_presence su\<rparr>)"

definition ingest_reads :: "mqtt_env \<Rightarrow> uuid \<Rightarrow> tag_read list \<Rightarrow> (subscriber, unit) step" where
  "ingest_reads env tenant_id rds =
     each (\<lambda>rd. on_intake (run_then (ingest_one (me_ingest env) tenant_id rd) (\<lambda>_. give ()))) rds"

section \<open>Tag reads\<close>

fun signal_topic :: "presence_event \<Rightarrow> topic" where
  "signal_topic (TagAppeared _ _ _ _ _) = SIGNALING_TAG_APPEARED"
| "signal_topic (TagDisappeared _ _ _ _ _) = SIGNALING_TAG_DISAPPEARED"

definition signal_payload :: "presence_event \<Rightarrow> jobj" where
  "signal_payload e =
     [(''tenant_id'', JStr (str_uuid (ev_tenant e))), (''device_id'', JStr (str_uuid (ev_device e))), (''epc'', JStr (ev_epc e)),
      (''observed_at'', JStr (isoformat (ev_observed_at e))), (''source'', JStr (ev_source e))]"

definition publish_signal :: "presence_event \<Rightarrow> intake \<Rightarrow> intake" where
  "publish_signal e st = st\<lparr>in_telemetry := publish_event (signal_topic e) (ev_observed_at e) (signal_payload e) (in_telemetry st)\<rparr>"

definition reconcile :: "(presence_table \<Rightarrow> py_exn + 'a \<times> presence_event list \<times> presence_table) \<Rightarrow> (subscriber, unit) step" where
  "reconcile f su =
     (case f (su_presence su) of
        Inl e \<Rightarrow> (Inl e, su)
      | Inr (_, evs, tbl) \<Rightarrow> (Inr (), su\<lparr>su_presence := tbl, su_intake := fold publish_signal evs (su_intake su)\<rparr>))"

definition wm_keyed_work :: "mqtt_env \<Rightarrow> uuid \<Rightarrow> uuid \<Rightarrow> wm_message \<Rightarrow> (subscriber, unit) step" where
  "wm_keyed_work env tenant_id device_id msg =
     (case msg of
        WmSnap _ ts lat lon entries \<Rightarrow>
          run_then (reconcile (reconcile_snap tenant_id device_id ts entries)) (\<lambda>_.
            ingest_reads env tenant_id (wm_snap_to_tag_reads device_id (ts * 1000) lat lon entries))
      | WmAppeared _ ts lat lon entry \<Rightarrow>
          run_then (reconcile (apply_appeared tenant_id device_id ts entry)) (\<lambda>_.
            ingest_reads env tenant_id [wm_appeared_to_tag_read device_id (ts * 1000) lat lon entry])
      | WmDisappeared _ ts epc _ _ _ \<Rightarrow> reconcile (apply_disappeared tenant_id device_id ts epc))"

definition wm_reject :: "mqtt_env \<Rightarrow> uuid \<Rightarrow> string \<Rightarrow> jobj \<Rightarrow> string \<Rightarrow> subscriber \<Rightarrow> subscriber" where
  "wm_reject env tenant_id topic_str raw reason su =
     (let su = count_rejection ''wm_v2'' reason su; su = su\<lparr>su_wm_rejected := su_wm_rejected su @ [reason]\<rparr>
      in persist_mqtt_drop env tenant_id topic_str (JObj raw) ''wm_v2'' reason su)"

definition count_large :: "string \<Rightarrow> subscriber \<Rightarrow> subscriber" where
  "count_large sn su = su\<lparr>su_wm_large := su_wm_large su @ [sn]\<rparr>"

definition handle_wm_v2_message :: "mqtt_env \<Rightarrow> uuid \<Rightarrow> uuid \<Rightarrow> string \<Rightarrow> jobj \<Rightarrow> subscriber \<Rightarrow> subscriber" where
  "handle_wm_v2_message env tenant_id device_id topic_str raw su =
     (case parse_wm_message (de_base (me_decoders env)) raw of
        None \<Rightarrow> wm_reject env tenant_id topic_str raw (classify_wm_validation_error raw (me_wm_errors env raw)) su
      | Some msg \<Rightarrow>
          (let su = (case msg of WmSnap sn _ _ _ entries \<Rightarrow> if length entries > SNAP_SOFT_CAP_ENTRIES then count_large (str_int sn) su else su
                     | _ \<Rightarrow> su)
           in mqtt_session (wm_keyed_work env tenant_id device_id msg) su))"

definition wm_compact_work :: "mqtt_env \<Rightarrow> uuid \<Rightarrow> uuid \<Rightarrow> wm2_message \<Rightarrow> (subscriber, unit) step" where
  "wm_compact_work env tenant_id device_id msg =
     (let reads = map (wm_v2_entry_to_tag_read device_id msg) (w2_entries msg) in
      if eq_int (w2_t msg) 0
      then run_then (lift_res (wm_v2_to_snap_model msg)) (\<lambda>(ts, entries).
           run_then (reconcile (reconcile_snap tenant_id device_id ts entries)) (\<lambda>_. ingest_reads env tenant_id reads))
      else if eq_int (w2_t msg) 1
      then run_then (each (\<lambda>e. run_then (lift_res (wm_v2_to_appeared_model msg e)) (\<lambda>(ts, entry).
             reconcile (apply_appeared tenant_id device_id ts entry))) (w2_entries msg)) (\<lambda>_. ingest_reads env tenant_id reads)
      else each (\<lambda>e. run_then (lift_res (wm_v2_to_disappeared_model msg e)) (\<lambda>(ts, epc).
             reconcile (apply_disappeared tenant_id device_id ts epc))) (w2_entries msg))"

text \<open>Only \<open>WmV2ParseError\<close> is caught; another exception of the parser leaves the handler.\<close>

definition handle_wm_v2_compact_message :: "mqtt_env \<Rightarrow> uuid \<Rightarrow> uuid \<Rightarrow> string \<Rightarrow> jobj \<Rightarrow> (subscriber, unit) step" where
  "handle_wm_v2_compact_message env tenant_id device_id topic_str raw su =
     (case parse_wm_v2 (me_fromisoformat env) raw of
        Inl (WmV2ParseError reason) \<Rightarrow> (Inr (), wm_reject env tenant_id topic_str raw reason su)
      | Inl (Escaped e) \<Rightarrow> (Inl e, su)
      | Inr msg \<Rightarrow>
          (let su = (if eq_int (w2_t msg) 0 \<and> length (w2_entries msg) > SNAP_SOFT_CAP_ENTRIES then count_large (w2_sn msg) su else su)
           in (Inr (), mqtt_session (wm_compact_work env tenant_id device_id msg) su)))"

fun collect_reads :: "mqtt_env \<Rightarrow> uuid \<Rightarrow> uuid \<Rightarrow> string \<Rightarrow> json list \<Rightarrow> subscriber \<Rightarrow> tag_read list \<times> subscriber" where
  "collect_reads env tenant_id device_id topic_str [] su = ([], su)"
| "collect_reads env tenant_id device_id topic_str (item # items) su =
     (case item of
        JObj d \<Rightarrow>
          (let payload = filter (\<lambda>(k, v). k \<noteq> ''device_id'') d in
           case tag_read_create (me_decoders env) device_id payload of
             Some rd \<Rightarrow> (let (rds, su') = collect_reads env tenant_id device_id topic_str items su in (rd # rds, su'))
           | None \<Rightarrow> collect_reads env tenant_id device_id topic_str items (drop_invalid env tenant_id topic_str payload ''tag_read'' su))
      | _ \<Rightarrow> collect_reads env tenant_id device_id topic_str items (count_rejection ''tag_read'' ''non_dict_payload'' su))"

definition handle_items :: "mqtt_env \<Rightarrow> uuid \<Rightarrow> uuid \<Rightarrow> string \<Rightarrow> json list \<Rightarrow> subscriber \<Rightarrow> subscriber" where
  "handle_items env tenant_id device_id topic_str items su =
     (let (rds, su') = collect_reads env tenant_id device_id topic_str items su
      in if rds = [] then count_rejection ''tag_read'' ''no_valid_items'' su'
         else mqtt_session (ingest_reads env tenant_id rds) su')"

definition handle_tag_read :: "mqtt_env \<Rightarrow> uuid \<Rightarrow> uuid \<Rightarrow> mqtt_message \<Rightarrow> (subscriber, unit) step" where
  "handle_tag_read env tenant_id device_id message su =
     (case me_loads env (mm_payload message) of
        Loaded raw \<Rightarrow>
          (case raw of
             JObj d \<Rightarrow>
               if map_of d ''v'' \<noteq> None then handle_wm_v2_compact_message env tenant_id device_id (mm_topic message) d su
               else if is_int (jget d ''t'') then (Inr (), handle_wm_v2_message env tenant_id device_id (mm_topic message) d su)
               else (Inr (), handle_items env tenant_id device_id (mm_topic message) [raw] su)
           | JList items \<Rightarrow> (Inr (), handle_items env tenant_id device_id (mm_topic message) items su)
           | _ \<Rightarrow> (Inr (), count_rejection ''tag_read'' ''non_dict_payload'' su))
      | _ \<Rightarrow> (Inr (), count_rejection ''tag_read'' ''invalid_json'' su))"

section \<open>The other device topics\<close>

text \<open>
  These handlers catch \<open>JSONDecodeError\<close> only, and \<open>ValueError\<close> of the schema only: bytes that are no text and
  payloads that are no objects leave them as other exceptions.
\<close>

definition setdefault :: "string \<Rightarrow> json \<Rightarrow> jobj \<Rightarrow> jobj" where
  "setdefault k v d = (if map_of d k = None then dict_set k v d else d)"

definition handle_status :: "mqtt_env \<Rightarrow> uuid \<Rightarrow> uuid \<Rightarrow> mqtt_message \<Rightarrow> (subscriber, unit) step" where
  "handle_status env tenant_id device_id message su =
     (case me_loads env (mm_payload message) of
        JSONDecodeError \<Rightarrow> (Inr (), count_rejection ''status'' ''invalid_json'' su)
      | UnicodeDecodeError \<Rightarrow> (Inl (ValueError ''UnicodeDecodeError''), su)
      | Loaded (JObj payload) \<Rightarrow>
          (case device_status_update (me_decoders env) payload of
             None \<Rightarrow> (Inr (), drop_invalid env tenant_id (mm_topic message) payload ''status'' su)
           | Some (state, fw) \<Rightarrow> (Inr (), mqtt_session (on_intake (\<lambda>st.
               case device_update_status (ie_now (me_ingest env)) tenant_id device_id state fw (in_devices st) of
                 (None, _) \<Rightarrow> (Inl (OtherError ''DeviceNotFoundError''), st)
               | (Some _, ds) \<Rightarrow> (Inr (), st\<lparr>in_devices := ds\<rparr>))) su))
      | Loaded _ \<Rightarrow> (Inl TypeError, su))"

definition store_reading :: "mqtt_env \<Rightarrow> uuid \<Rightarrow> uuid \<Rightarrow> telemetry_reading \<Rightarrow> (intake, unit) step" where
  "store_reading env tenant_id device_id g st =
     (let ie = me_ingest env in
      case ingest_reading (ie_now ie) (in_devices st) (ie_models ie) tenant_id device_id g (in_telemetry st) of
        Inl e \<Rightarrow> (Inl e, st)
      | Inr (_, db) \<Rightarrow> (Inr (), st\<lparr>in_telemetry := db\<rparr>))"

text \<open>\<open>[TelemetryReading(**r) for r in readings]\<close>: \<open>ValueError\<close> for an object that is not valid, \<open>TypeError\<close> for any other value.\<close>

fun readings_of :: "decoders \<Rightarrow> json list \<Rightarrow> py_exn + telemetry_reading list" where
  "readings_of D [] = Inr []"
| "readings_of D (JObj d # js) =
     (case telemetry_reading_model D d of
        None \<Rightarrow> Inl (ValueError ''ValidationError'')
      | Some g \<Rightarrow> and_then (readings_of D js) (\<lambda>gs. Inr (g # gs)))"
| "readings_of D (j # js) = Inl TypeError"

definition store_readings :: "mqtt_env \<Rightarrow> uuid \<Rightarrow> uuid \<Rightarrow> telemetry_reading list \<Rightarrow> subscriber \<Rightarrow> subscriber" where
  "store_readings env tenant_id device_id gs su = mqtt_session (on_intake (each (store_reading env tenant_id device_id) gs)) su"

definition handle_telemetry :: "mqtt_env \<Rightarrow> uuid \<Rightarrow> uuid \<Rightarrow> mqtt_message \<Rightarrow> (subscriber, unit) step" where
  "handle_telemetry env tenant_id device_id message su =
     (case me_loads env (mm_payload message) of
        JSONDecodeError \<Rightarrow> (Inr (), count_rejection ''telemetry'' ''invalid_json'' su)
      | UnicodeDecodeError \<Rightarrow> (Inl (ValueError ''UnicodeDecodeError''), su)
      | Loaded (JObj payload) \<Rightarrow>
          (case jget payload ''readings'' of
             JList js \<Rightarrow> (case readings_of (me_decoders env) js of
                 Inl (ValueError _) \<Rightarrow> (Inr (), count_rejection ''telemetry'' ''invalid_schema'' su)
               | Inl e \<Rightarrow> (Inl e, su)
               | Inr gs \<Rightarrow> (Inr (), store_readings env tenant_id device_id gs su))
           | _ \<Rightarrow>
               (let payload = setdefault ''device_id'' (JStr (str_uuid device_id)) payload in
                case telemetry_single (me_decoders env) payload of
                  None \<Rightarrow> (Inr (), drop_invalid env tenant_id (mm_topic message) payload ''telemetry'' su)
                | Some (_, g) \<Rightarrow> (Inr (), store_readings env tenant_id device_id [g] su)))
      | Loaded _ \<Rightarrow> (Inl (OtherError ''AttributeError''), su))"

definition handle_location :: "mqtt_env \<Rightarrow> uuid \<Rightarrow> uuid \<Rightarrow> mqtt_message \<Rightarrow> (subscriber, unit) step" where
  "handle_location env tenant_id device_id message su =
     (case me_loads env (mm_payload message) of
        JSONDecodeError \<Rightarrow> (Inr (), count_rejection ''location'' ''invalid_json'' su)
      | UnicodeDecodeError \<Rightarrow> (Inl (ValueError ''UnicodeDecodeError''), su)
      | Loaded (JObj payload) \<Rightarrow>
          (let payload = setdefault ''device_id'' (JStr (str_uuid device_id)) payload in
           case location_payload_model (me_decoders env) payload of
             None \<Rightarrow> (Inr (), drop_invalid env tenant_id (mm_topic message) payload ''location'' su)
           | Some location \<Rightarrow> (Inr (), mqtt_session (on_intake (change (\<lambda>st.
               st\<lparr>in_telemetry := ingest_location (ie_now (me_ingest env)) tenant_id location (in_telemetry st)\<rparr>))) su))
      | Loaded _ \<Rightarrow> (Inl (OtherError ''AttributeError''), su))"

definition ingest_device_event :: "datetime \<Rightarrow> uuid \<Rightarrow> device_event \<Rightarrow> subscriber \<Rightarrow> subscriber" where
  "ingest_device_event now tenant_id payload su =
     (if \<not> timestamp_acceptable now (dv_timestamp payload) then su
      else su\<lparr>su_device_events := su_device_events su @ [(tenant_id, dv_event_type payload)]\<rparr>)"

definition handle_device_event :: "mqtt_env \<Rightarrow> uuid \<Rightarrow> uuid \<Rightarrow> mqtt_message \<Rightarrow> (subscriber, unit) step" where
  "handle_device_event env tenant_id device_id message su =
     (case me_loads env (mm_payload message) of
        JSONDecodeError \<Rightarrow> (Inr (), count_rejection ''event'' ''invalid_json'' su)
      | UnicodeDecodeError \<Rightarrow> (Inl (ValueError ''UnicodeDecodeError''), su)
      | Loaded (JObj payload) \<Rightarrow>
          (let payload = setdefault ''device_id'' (JStr (str_uuid device_id)) payload in
           case device_event_payload (me_decoders env) payload of
             None \<Rightarrow> (Inr (), drop_invalid env tenant_id (mm_topic message) payload ''event'' su)
           | Some e \<Rightarrow> (Inr (), mqtt_session (change (ingest_device_event (ie_now (me_ingest env)) tenant_id e)) su))
      | Loaded _ \<Rightarrow> (Inl (OtherError ''AttributeError''), su))"

section \<open>Telemetry of subjects\<close>

definition external_row :: "uuid \<Rightarrow> string \<Rightarrow> uuid \<Rightarrow> telemetry_reading \<Rightarrow> reading_row" where
  "external_row tenant_id subject_kind subject_id g =
     \<lparr>rr_tenant_id = tenant_id, rr_subject_kind = subject_kind, rr_subject_id = subject_id, rr_device_id = None,
      rr_timestamp = g_timestamp g, rr_metric_name = g_metric_name g, rr_metric_value = g_metric_value g, rr_unit = g_unit g,
      rr_source = ''external'',
      rr_metadata = Some (setdefault ''source'' (JStr ''external'') (blob (g_metadata g)))\<rparr>"

definition external_payload :: "uuid \<Rightarrow> string \<Rightarrow> uuid \<Rightarrow> telemetry_reading \<Rightarrow> jobj" where
  "external_payload tenant_id subject_kind subject_id g =
     [(''tenant_id'', JStr (str_uuid tenant_id)), (''subject_kind'', JStr subject_kind), (''subject_id'', JStr (str_uuid subject_id)),
      (''metric_name'', JStr (g_metric_name g)), (''metric_value'', JFloat (g_metric_value g)), (''unit'', json_text (g_unit g)),
      (''device_id'', JNull), (''source'', JStr ''external''), (''timestamp'', JStr (isoformat (g_timestamp g)))]"

text \<open>The rows are committed together; then every one is announced.\<close>

definition store_external :: "uuid \<Rightarrow> string \<Rightarrow> uuid \<Rightarrow> telemetry_reading list \<Rightarrow> telemetry_db \<Rightarrow> telemetry_db" where
  "store_external tenant_id subject_kind subject_id gs db =
     fold (\<lambda>g. publish_event TELEMETRY_RECORDED (g_timestamp g) (external_payload tenant_id subject_kind subject_id g)) gs
       (fold (\<lambda>g. telemetry_insert (external_row tenant_id subject_kind subject_id g)) gs db)"

definition handle_subject_telemetry :: "mqtt_env \<Rightarrow> uuid \<Rightarrow> string \<Rightarrow> uuid \<Rightarrow> mqtt_message \<Rightarrow> (subscriber, unit) step" where
  "handle_subject_telemetry env tenant_id subject_kind subject_id message su =
     (case me_loads env (mm_payload message) of
        JSONDecodeError \<Rightarrow> (Inr (), count_rejection ''subject_telemetry'' ''invalid_json'' su)
      | UnicodeDecodeError \<Rightarrow> (Inl (ValueError ''UnicodeDecodeError''), su)
      | Loaded (JObj payload) \<Rightarrow>
          (let js = (case jget payload ''readings'' of JList js \<Rightarrow> js | _ \<Rightarrow> [JObj payload]) in
           case readings_of (me_decoders env) js of
             Inl (ValueError _) \<Rightarrow> (Inr (), drop_invalid env tenant_id (mm_topic message) payload ''subject_telemetry'' su)
           | Inl e \<Rightarrow> (Inl e, su)
           | Inr gs \<Rightarrow> (Inr (), mqtt_session (on_intake (change (\<lambda>st.
               st\<lparr>in_telemetry := store_external tenant_id subject_kind subject_id gs (in_telemetry st)\<rparr>))) su))
      | Loaded _ \<Rightarrow> (Inl (OtherError ''AttributeError''), su))"

section \<open>The loop\<close>

definition handle_message :: "mqtt_env \<Rightarrow> mqtt_message \<Rightarrow> (subscriber, unit) step" where
  "handle_message env message su =
     (case parse_subject_topic (mm_topic message) of
        Some (tenant_id, subject_kind, subject_id) \<Rightarrow> handle_subject_telemetry env tenant_id subject_kind subject_id message su
      | None \<Rightarrow> (case parse_topic (mm_topic message) of
          None \<Rightarrow> (Inr (), count_rejection ''unparseable'' ''invalid_topic'' su)
        | Some (tenant_id, device_id, topic_type) \<Rightarrow>
            if topic_type \<notin> KNOWN_SUFFIXES then (Inr (), count_rejection ''unknown_suffix'' ''unknown_suffix'' su)
            else if topic_type = ''tag-reads'' then handle_tag_read env tenant_id device_id message su
            else if topic_type = ''status'' then handle_status env tenant_id device_id message su
            else if topic_type = ''telemetry'' then handle_telemetry env tenant_id device_id message su
            else if topic_type = ''location'' then handle_location env tenant_id device_id message su
            else handle_device_event env tenant_id device_id message su))"

text \<open>Whatever a handler raises is logged, and the loop goes on.\<close>

definition consume :: "mqtt_env \<times> mqtt_message \<Rightarrow> subscriber \<Rightarrow> subscriber" where
  "consume = (\<lambda>(env, message) su.
     case handle_message env message su of
       (Inl _, su') \<Rightarrow> su'
     | (Inr _, su') \<Rightarrow> su'\<lparr>su_processed := Suc (su_processed su')\<rparr>)"

text \<open>
  The outer loop: a connection is refused, or it brings messages and then breaks, with an exception or not.  The
  result lists the reason of every attempt and every delay.
\<close>

datatype connection = Refused string | Served "(mqtt_env \<times> mqtt_message) list" "string option"

definition classify_connect_error :: "string \<Rightarrow> string" where
  "classify_connect_error class_name =
     (let name = py_lower class_name in
      if within_text ''auth'' name \<or> within_text ''unauthor'' name then ''auth_failed''
      else if within_text ''timeout'' name then ''timeout''
      else if within_text ''refused'' name \<or> within_text ''connection'' name then ''connection_refused''
      else ''other'')"

definition next_backoff :: "real \<Rightarrow> real" where
  "next_backoff backoff = min (backoff * 2) 30"

fun run_from :: "real \<Rightarrow> string \<Rightarrow> connection list \<Rightarrow> subscriber \<Rightarrow> (string list \<times> real list) \<times> subscriber" where
  "run_from backoff reason [] su = (([], []), su)"
| "run_from backoff reason (Refused e # cs) su =
     (let ((reasons, delays), su') = run_from (next_backoff backoff) (classify_connect_error e) cs su
      in ((reason # reasons, backoff # delays), su'))"
| "run_from backoff reason (Served msgs (Some e) # cs) su =
     (let ((reasons, delays), su') = run_from (next_backoff 1) (classify_connect_error e) cs (fold consume msgs su)
      in ((reason # reasons, 1 # delays), su'))"
| "run_from backoff reason (Served msgs None # cs) su =
     (let ((reasons, delays), su') = run_from 1 reason cs (fold consume msgs su)
      in ((reason # reasons, delays), su'))"

definition run_subscriber :: "connection list \<Rightarrow> subscriber \<Rightarrow> (string list \<times> real list) \<times> subscriber" where
  "run_subscriber = run_from 1 ''startup''"

end
