(* ===== verification/InventoryLaws.thy ===== *)
theory InventoryLaws
  imports Inventory
begin

text \<open>
  What the inventory guarantees: the invariant of its tables under every operation of the service and of the
  ingestion pipeline, the outcome of deletions, the stock levels, and the requests that can never succeed.
\<close>

section \<open>The invariant\<close>

type_synonym owners = "(uuid \<times> uuid) set" \<comment> \<open>product and tenant\<close>

definition owners_of :: "product list \<Rightarrow> owners" where
  "owners_of ps = (\<lambda>p. (p_id p, p_tenant_id p)) ` set ps"

definition products_ok :: "product list \<Rightarrow> bool" where
  "products_ok ps \<longleftrightarrow> primary p_id ps \<and> unique_on always sku_key ps"

definition lot_ok :: "owners \<Rightarrow> lot \<Rightarrow> bool" where
  "lot_ok ow l \<longleftrightarrow> (l_product_id l, l_tenant_id l) \<in> ow"

definition lots_ok :: "owners \<Rightarrow> lot list \<Rightarrow> bool" where
  "lots_ok ow ls \<longleftrightarrow> primary l_id ls \<and> unique_on always lot_key ls \<and> (\<forall>l \<in> set ls. lot_ok ow l)"

text \<open>The product must be of the item's own tenant; the lot and the parent need only exist, in whatever tenant, and so must
  the item of a movement (\<open>foreign_movement\<close>).\<close>

definition item_ok :: "owners \<Rightarrow> uuid set \<Rightarrow> uuid set \<Rightarrow> stock_item \<Rightarrow> bool" where
  "item_ok ow lot_ids item_ids s \<longleftrightarrow>
     (s_product_id s, s_tenant_id s) \<in> ow \<and> (\<forall>l. s_lot_id s = Some l \<longrightarrow> l \<in> lot_ids) \<and>
     (\<forall>i. s_parent_id s = Some i \<longrightarrow> i \<in> item_ids) \<and> s_binding_kind s \<in> {''epc'', ''tid''} \<and>
     (s_state s = Consumed \<longrightarrow> s_consumed_at s \<noteq> None)"

definition items_ok :: "owners \<Rightarrow> uuid set \<Rightarrow> stock_item list \<Rightarrow> bool" where
  "items_ok ow lot_ids ss \<longleftrightarrow> primary s_id ss \<and> unique_on active_item binding_key ss \<and>
     (\<forall>s \<in> set ss. item_ok ow lot_ids (s_id ` set ss) s)"

definition movement_ok :: "uuid set \<Rightarrow> movement \<Rightarrow> bool" where
  "movement_ok item_ids m \<longleftrightarrow> m_stock_item_id m \<in> item_ids \<and> m_movement_type m \<in> {''enter'', ''exit'', ''transfer'', ''consume''}"

definition movements_ok :: "uuid set \<Rightarrow> movement list \<Rightarrow> bool" where
  "movements_ok item_ids ms \<longleftrightarrow> unique_on always (\<lambda>m. (m_id m, m_occurred_at m)) ms \<and> (\<forall>m \<in> set ms. movement_ok item_ids m)"

definition mapping_ok :: "mapping \<Rightarrow> bool" where
  "mapping_ok m \<longleftrightarrow> t_scope_kind m \<in> {''tenant'', ''product''} \<and> (t_scope_kind m = ''tenant'' \<longleftrightarrow> t_scope_id m = None)"

definition mappings_ok :: "mapping list \<Rightarrow> bool" where
  "mappings_ok ms \<longleftrightarrow> primary t_id ms \<and> unique_on scoped_mapping mapping_key ms \<and> (\<forall>m \<in> set ms. mapping_ok m)"

definition inventory_ok :: "inventory \<Rightarrow> bool" where
  "inventory_ok db \<longleftrightarrow> products_ok (products db) \<and> lots_ok (owners_of (products db)) (lots db) \<and>
     items_ok (owners_of (products db)) (l_id ` set (lots db)) (stock_items db) \<and>
     movements_ok (s_id ` set (stock_items db)) (movements db) \<and> mappings_ok (mappings db)"

named_theorems ok_defs \<open>the parts of the invariant\<close>
declare products_ok_def [ok_defs] lots_ok_def [ok_defs] items_ok_def [ok_defs] movements_ok_def [ok_defs]
  mappings_ok_def [ok_defs] lot_ok_def [ok_defs] item_ok_def [ok_defs] movement_ok_def [ok_defs] mapping_ok_def [ok_defs]

subsection \<open>Rows looked up\<close>

lemma found_in: "find P rows = Some r \<Longrightarrow> r \<in> set rows \<and> P r"
  by (auto simp: find_Some_iff)

lemma row_by_unique: "row_by pk i rows = Some r \<Longrightarrow> primary pk rows \<Longrightarrow> r' \<in> set rows \<Longrightarrow> pk r' = i \<Longrightarrow> r' = r"
  by (rule unique_onD [where P = always and key = pk and rows = rows]) (auto dest: row_by_Some)

lemma find_by:
  assumes "find (\<lambda>r. pk r = i \<and> Q r) rows = Some r" and "primary pk rows"
  shows "row_by pk i rows = Some r \<and> Q r \<and> pk r = i"
proof -
  have r: "r \<in> set rows" "pk r = i" "Q r" using found_in [OF assms(1)] by auto
  then obtain r' where r': "row_by pk i rows = Some r'" using row_by_None [of pk i rows] by (cases "row_by pk i rows") auto
  with row_by_unique [OF r' assms(2) r(1,2)] r show ?thesis by simp
qed

subsection \<open>Owners and identifiers under the operations\<close>

lemma owners_append [simp]: "owners_of (ps @ [p]) = insert (p_id p, p_tenant_id p) (owners_of ps)"
  by (simp add: owners_of_def)

lemma owners_patch [simp]: "owners_of (update_row p_id i (product_patch u) ps) = owners_of ps"
  unfolding owners_of_def by (rule image_update_same) (simp add: product_patch_def)

lemma lots_ok_mono: "lots_ok ow ls \<Longrightarrow> ow \<subseteq> ow' \<Longrightarrow> lots_ok ow' ls"
  by (auto simp: ok_defs)

lemma items_ok_mono: "items_ok ow ids ss \<Longrightarrow> ow \<subseteq> ow' \<Longrightarrow> ids \<subseteq> ids' \<Longrightarrow> items_ok ow' ids' ss"
  unfolding items_ok_def item_ok_def by blast

lemma movements_ok_mono: "movements_ok ids ms \<Longrightarrow> ids \<subseteq> ids' \<Longrightarrow> movements_ok ids' ms"
  by (auto simp: ok_defs)

lemma audit_log_Inr: "audit_log t u a r i cs db = Inr db' \<Longrightarrow> inventory_ok db \<Longrightarrow> inventory_ok db'"
  by (auto simp: audit_log_def inventory_ok_def split: if_splits)

text \<open>The service writes an audit row after the repository's change, or fails.\<close>

lemma audited_create:
  "and_then outcome (\<lambda>(r, db). and_then (audit_log t u a k (i r) (c r) db) (\<lambda>db. Inr (r, db))) = Inr (r', db') \<Longrightarrow>
     (\<And>r db1. outcome = Inr (r, db1) \<Longrightarrow> inventory_ok db1) \<Longrightarrow> inventory_ok db'"
  by (auto simp: and_then_eq_Inr dest: audit_log_Inr split: prod.splits)

lemma audited_update_ok:
  "audited_update t u a k i cs outcome = Inr (r', db') \<Longrightarrow> (\<And>r db1. outcome = Inr (r, db1) \<Longrightarrow> inventory_ok db1) \<Longrightarrow> inventory_ok db'"
  by (auto simp: audited_update_def and_then_eq_Inr dest: audit_log_Inr split: prod.splits option.splits)

lemma audited_delete_ok:
  "audited_delete t u a k i outcome = Inr (r', db') \<Longrightarrow> (\<And>r db1. outcome = Inr (r, db1) \<Longrightarrow> inventory_ok db1) \<Longrightarrow> inventory_ok db'"
  by (auto simp: audited_delete_def and_then_eq_Inr dest: audit_log_Inr split: prod.splits if_splits)

section \<open>Every operation keeps the invariant\<close>

lemma insert_primary: "primary pk rows \<Longrightarrow> pk row \<notin> pk ` set rows \<Longrightarrow> primary pk (rows @ [row])"
  by (auto simp: unique_on_snoc image_iff)

lemma product_create_ok:
  assumes mk: "product_create i now t c db = Inr (r, db')" and ok: "inventory_ok db"
  shows "inventory_ok db'"
proof -
  have r: "p_id r \<notin> p_id ` set (products db)" "product_fits r db" "db' = db\<lparr>products := products db @ [r]\<rparr>"
    using mk by (auto simp: product_create_def Let_def split: if_splits)
  have "products_ok (products db @ [r])"
    using r ok by (simp add: inventory_ok_def products_ok_def product_fits_def insert_primary unique_on_insert [where pk = p_id])
  then show ?thesis using ok by (auto simp: r(3) inventory_ok_def elim!: lots_ok_mono items_ok_mono)
qed

lemma product_update_ok:
  assumes upd: "product_update t i u db = Inr (r, db')" and ok: "inventory_ok db"
  shows "inventory_ok db'"
proof (cases "product_get t i db")
  case (Some row)
  have pk: "primary p_id (products db)" using ok by (simp add: inventory_ok_def products_ok_def)
  have row: "row_by p_id i (products db) = Some row" "p_id row = i"
    using find_by [OF Some [unfolded product_get_def] pk] by auto
  have db': "db' = db\<lparr>products := update_row p_id i (product_patch u) (products db)\<rparr>" and fits: "product_fits (product_patch u row) db"
    using upd Some by (auto simp: product_update_def split: if_splits)
  have "products_ok (update_row p_id i (product_patch u) (products db))"
    using ok fits row unique_on_update [OF _ pk row(1), of always sku_key "product_patch u"]
    by (auto simp: inventory_ok_def products_ok_def product_fits_def primary_update product_patch_def)
  then show ?thesis using ok by (simp add: db' inventory_ok_def)
qed (use upd ok in \<open>auto simp: product_update_def\<close>)

lemma clear_lots_fields [simp]:
  "s_id (clear_lots g s) = s_id s" "s_product_id (clear_lots g s) = s_product_id s" "s_tenant_id (clear_lots g s) = s_tenant_id s"
  "active_item (clear_lots g s) = active_item s" "binding_key (clear_lots g s) = binding_key s" "s_state (clear_lots g s) = s_state s"
  "s_parent_id (clear_lots g s) = s_parent_id s" "s_binding_kind (clear_lots g s) = s_binding_kind s"
  "s_consumed_at (clear_lots g s) = s_consumed_at s"
  "s_lot_id (clear_lots g s) = (if \<exists>l \<in> g. s_lot_id s = Some l then None else s_lot_id s)"
  by (auto simp: clear_lots_def active_item_def binding_key_def split: option.split)

lemma items_clear_lots:
  assumes "items_ok ow ids ss" and "ids - g \<subseteq> ids'" and "\<forall>s \<in> set ss. (s_product_id s, s_tenant_id s) \<in> ow'"
  shows "items_ok ow' ids' (map (clear_lots g) ss)"
proof -
  have "s_id ` set (map (clear_lots g) ss) = s_id ` set ss" by (auto simp: image_iff)
  moreover have "primary s_id (map (clear_lots g) ss)" "unique_on active_item binding_key (map (clear_lots g) ss)"
    using assms(1) by (auto simp: items_ok_def intro!: unique_on_map)
  moreover have "item_ok ow' ids' (s_id ` set ss) (clear_lots g s)" if "s \<in> set ss" for s
    using assms that by (auto simp: items_ok_def item_ok_def)
  ultimately show ?thesis by (auto simp: items_ok_def)
qed

lemma owners_delete: "(i, t) \<in> owners_of ps \<Longrightarrow> i \<noteq> j \<Longrightarrow> (i, t) \<in> owners_of (delete_row p_id j ps)"
  by (auto simp: owners_of_def set_delete_row)

lemma product_delete_ok:
  assumes del: "product_delete t i db = Inr (r, db')" and ok: "inventory_ok db"
  shows "inventory_ok db'"
proof (cases "product_get t i db")
  case (Some row)
  let ?gone = "l_id ` {l \<in> set (lots db). l_product_id l = i}"
  have none: "\<forall>s \<in> set (stock_items db). s_product_id s \<noteq> i"
    and db': "db' = db\<lparr>products := delete_row p_id i (products db), lots := filter (\<lambda>l. l_product_id l \<noteq> i) (lots db),
       stock_items := map (clear_lots ?gone) (stock_items db)\<rparr>"
    using del Some by (auto simp: product_delete_def split: if_splits)
  have parts: "products_ok (products db)" "lots_ok (owners_of (products db)) (lots db)"
    "items_ok (owners_of (products db)) (l_id ` set (lots db)) (stock_items db)"
    using ok by (simp_all add: inventory_ok_def)
  have "products_ok (delete_row p_id i (products db))" using parts(1) by (simp add: products_ok_def unique_on_delete)
  moreover have "lots_ok (owners_of (delete_row p_id i (products db))) (filter (\<lambda>l. l_product_id l \<noteq> i) (lots db))"
    using parts(2) by (auto simp: lots_ok_def lot_ok_def unique_on_filter intro: owners_delete)
  moreover have "items_ok (owners_of (delete_row p_id i (products db))) (l_id ` set (filter (\<lambda>l. l_product_id l \<noteq> i) (lots db)))
      (map (clear_lots ?gone) (stock_items db))"
    using parts(3) none by (intro items_clear_lots [OF parts(3)]) (auto simp: items_ok_def item_ok_def intro: owners_delete)
  moreover have "s_id ` set (map (clear_lots ?gone) (stock_items db)) = s_id ` set (stock_items db)" by (auto simp: image_iff)
  ultimately show ?thesis using ok by (simp add: db' inventory_ok_def)
qed (use del ok in \<open>auto simp: product_delete_def split: if_splits\<close>)

lemma lot_create_ok:
  assumes mk: "lot_create i now t p c db = Inr (r, db')" and ok: "inventory_ok db" and owned: "(p, t) \<in> owners_of (products db)"
  shows "inventory_ok db'"
proof -
  have r: "l_id r \<notin> l_id ` set (lots db)" "lot_fits r db" "db' = db\<lparr>lots := lots db @ [r]\<rparr>"
    "l_product_id r = p" "l_tenant_id r = t"
    using mk by (auto simp: lot_create_def Let_def split: if_splits)
  have "lots_ok (owners_of (products db)) (lots db @ [r])"
    using r ok owned by (simp add: inventory_ok_def lots_ok_def lot_ok_def lot_fits_def insert_primary unique_on_insert [where pk = l_id])
  then show ?thesis using ok by (auto simp: r(3) inventory_ok_def elim!: items_ok_mono)
qed

lemma lot_update_ok:
  assumes upd: "lot_update t i u db = Inr (r, db')" and ok: "inventory_ok db"
  shows "inventory_ok db'"
proof (cases "lot_get t i db")
  case (Some row)
  have pk: "primary l_id (lots db)" using ok by (simp add: inventory_ok_def lots_ok_def)
  have row: "row_by l_id i (lots db) = Some row" "l_id row = i"
    using find_by [OF Some [unfolded lot_get_def] pk] by auto
  have db': "db' = db\<lparr>lots := update_row l_id i (lot_patch u) (lots db)\<rparr>" and fits: "lot_fits (lot_patch u row) db"
    using upd Some by (auto simp: lot_update_def split: if_splits)
  have same: "l_id (lot_patch u l) = l_id l" "lot_ok ow (lot_patch u l) = lot_ok ow l" for l ow
    by (simp_all add: lot_patch_def lot_ok_def)
  have "lots_ok (owners_of (products db)) (update_row l_id i (lot_patch u) (lots db))"
    using ok fits row unique_on_update [OF _ pk row(1), of always lot_key "lot_patch u"]
    by (auto simp: inventory_ok_def lots_ok_def lot_fits_def primary_update same dest: set_update_row)
  moreover have "l_id ` set (update_row l_id i (lot_patch u) (lots db)) = l_id ` set (lots db)"
    by (rule image_update_same) (rule same)
  ultimately show ?thesis using ok by (simp add: db' inventory_ok_def)
qed (use upd ok in \<open>auto simp: lot_update_def\<close>)

lemma lot_delete_ok:
  assumes del: "lot_delete t i db = Inr (r, db')" and ok: "inventory_ok db"
  shows "inventory_ok db'"
proof (cases "lot_get t i db")
  case (Some row)
  have db': "db' = db\<lparr>lots := delete_row l_id i (lots db), stock_items := map (clear_lots {i}) (stock_items db)\<rparr>"
    using del Some by (auto simp: lot_delete_def split: if_splits)
  have items: "items_ok (owners_of (products db)) (l_id ` set (lots db)) (stock_items db)"
    using ok by (simp add: inventory_ok_def)
  have "items_ok (owners_of (products db)) (l_id ` set (delete_row l_id i (lots db))) (map (clear_lots {i}) (stock_items db))"
    using items by (intro items_clear_lots [OF items]) (auto simp: items_ok_def item_ok_def set_delete_row)
  moreover have "s_id ` set (map (clear_lots {i}) (stock_items db)) = s_id ` set (stock_items db)" by (auto simp: image_iff)
  moreover have "lots_ok (owners_of (products db)) (delete_row l_id i (lots db))"
    using ok by (auto simp: inventory_ok_def lots_ok_def unique_on_delete set_delete_row)
  ultimately show ?thesis using ok by (simp add: db' inventory_ok_def)
qed (use del ok in \<open>auto simp: lot_delete_def split: if_splits\<close>)

lemma stock_create_ok:
  assumes mk: "stock_create i now t c db = Inr (r, db')" and ok: "inventory_ok db"
    and owned: "\<And>p. p \<in> set (products db) \<Longrightarrow> p_id p = sc_product_id c \<Longrightarrow> p_tenant_id p = t"
  shows "inventory_ok db'"
proof -
  let ?ids = "s_id ` set (stock_items db)"
  have r: "s_id r \<notin> ?ids" "item_fits r db" "db' = db\<lparr>stock_items := stock_items db @ [r]\<rparr>"
    "s_product_id r = sc_product_id c" "s_tenant_id r = t" "s_state r = InStock"
    using mk by (auto simp: stock_create_def Let_def split: if_splits)
  have mine: "(s_product_id r, s_tenant_id r) \<in> owners_of (products db)"
    using r(2,4,5) owned by (auto simp: item_fits_def owners_of_def)
  have "items_ok (owners_of (products db)) (l_id ` set (lots db)) (stock_items db @ [r])"
    using r(1,2,6) ok mine
    by (auto simp: inventory_ok_def items_ok_def item_ok_def item_fits_def ref_ok_def insert_primary unique_on_insert [where pk = s_id]
        split: option.splits)
  moreover have "movements_ok (s_id ` set (stock_items db @ [r])) (movements db)"
    using ok by (auto simp: inventory_ok_def elim!: movements_ok_mono)
  ultimately show ?thesis using ok by (simp add: r(3) inventory_ok_def)
qed

lemma stock_update_ok:
  assumes upd: "stock_update now t i u db = Inr (r, db')" and ok: "inventory_ok db"
  shows "inventory_ok db'"
proof (cases "stock_get t i db")
  case (Some row)
  let ?f = "stock_patch now u"
  have items: "items_ok (owners_of (products db)) (l_id ` set (lots db)) (stock_items db)" using ok by (simp add: inventory_ok_def)
  then have pk: "primary s_id (stock_items db)" by (simp add: items_ok_def)
  have row: "row_by s_id i (stock_items db) = Some row" "s_id row = i"
    using find_by [OF Some [unfolded stock_get_def] pk] by auto
  have db': "db' = db\<lparr>stock_items := update_row s_id i ?f (stock_items db)\<rparr>" and fits: "item_fits (?f row) db"
    using upd Some by (auto simp: stock_update_def split: if_splits)
  have same [simp]: "s_id (?f s) = s_id s" "s_product_id (?f s) = s_product_id s" "s_tenant_id (?f s) = s_tenant_id s"
    "s_binding_kind (?f s) = s_binding_kind s" for s
    by (simp_all add: stock_patch_def)
  have ids: "s_id ` set (update_row s_id i ?f (stock_items db)) = s_id ` set (stock_items db)"
    by (rule image_update_same) simp
  have mem: "row \<in> set (stock_items db)" using row_by_Some [OF row(1)] by simp
  have new: "item_ok (owners_of (products db)) (l_id ` set (lots db)) (s_id ` set (stock_items db)) (?f row)"
    using items mem fits
    by (auto simp: items_ok_def item_ok_def item_fits_def ref_ok_def stock_patch_def patched_not_null_def split: option.splits if_splits)
  have "unique_on active_item binding_key (update_row s_id i ?f (stock_items db))"
    using items pk fits row(2) by (intro unique_on_update [OF _ pk row(1)]) (auto simp: items_ok_def item_fits_def)
  moreover have "item_ok (owners_of (products db)) (l_id ` set (lots db)) (s_id ` set (stock_items db)) s"
    if "s \<in> set (update_row s_id i ?f (stock_items db))" for s
    using set_update_row [OF that] items new row_by_unique [OF row(1) pk] by (auto simp: items_ok_def)
  ultimately show ?thesis using ok pk by (simp add: db' inventory_ok_def items_ok_def ids primary_update)
qed (use upd ok in \<open>auto simp: stock_update_def\<close>)

lemma record_observation_ok:
  assumes obs: "record_observation t i z at' db = (r, db')" and ok: "inventory_ok db"
  shows "inventory_ok db'"
proof (cases r)
  case (Some res)
  let ?f = "\<lambda>s. s\<lparr>s_last_seen_at := at', s_current_zone_id := z\<rparr>"
  have db': "db' = db\<lparr>stock_items := update_row s_id i ?f (stock_items db)\<rparr>"
    using obs Some by (auto simp: record_observation_def split: option.splits)
  have ids: "s_id ` set (update_row s_id i ?f (stock_items db)) = s_id ` set (stock_items db)"
    by (rule image_update_same) simp
  have items: "items_ok (owners_of (products db)) (l_id ` set (lots db)) (stock_items db)" using ok by (simp add: inventory_ok_def)
  have "unique_on active_item binding_key (update_row s_id i ?f (stock_items db))"
    unfolding update_row_def using items by (intro unique_on_map) (auto simp: items_ok_def active_item_def binding_key_def)
  moreover have "item_ok ow ids jds (?f s) = item_ok ow ids jds s" for ow ids jds s by (simp add: item_ok_def)
  ultimately have "items_ok (owners_of (products db)) (l_id ` set (lots db)) (update_row s_id i ?f (stock_items db))"
    using items by (auto simp: items_ok_def ids primary_update dest: set_update_row)
  then show ?thesis using ok by (simp add: db' inventory_ok_def ids)
qed (use obs ok in \<open>auto simp: record_observation_def split: option.splits\<close>)

lemma stock_delete_ok:
  assumes del: "stock_delete t i force db = Inr (r, db')" and ok: "inventory_ok db"
  shows "inventory_ok db'"
proof (cases "stock_get t i db")
  case (Some row)
  let ?ss = "map (clear_parent i) (delete_row s_id i (stock_items db))"
  have db': "db' = db\<lparr>stock_items := ?ss\<rparr>" and unused: "\<forall>m \<in> set (movements db). m_stock_item_id m \<noteq> i"
    using del Some by (auto simp: stock_delete_def split: if_splits)
  have items: "items_ok (owners_of (products db)) (l_id ` set (lots db)) (stock_items db)" using ok by (simp add: inventory_ok_def)
  have same [simp]: "s_id (clear_parent i s) = s_id s" "active_item (clear_parent i s) = active_item s"
    "binding_key (clear_parent i s) = binding_key s" for s
    by (auto simp: clear_parent_def active_item_def binding_key_def)
  have ids: "s_id ` set ?ss = s_id ` set (stock_items db) - {i}" by (auto simp: set_delete_row image_iff)
  have "primary s_id ?ss" "unique_on active_item binding_key ?ss"
    using items by (auto simp: items_ok_def unique_on_delete intro!: unique_on_map)
  moreover have "item_ok (owners_of (products db)) (l_id ` set (lots db)) (s_id ` set (stock_items db) - {i}) (clear_parent i s)"
    if "s \<in> set (stock_items db)" for s
    using items that by (auto simp: items_ok_def item_ok_def clear_parent_def)
  ultimately have "items_ok (owners_of (products db)) (l_id ` set (lots db)) ?ss"
    unfolding items_ok_def ids by (auto simp: set_delete_row)
  moreover have "movements_ok (s_id ` set ?ss) (movements db)"
    using ok unused unfolding ids by (auto simp: inventory_ok_def movements_ok_def movement_ok_def)
  ultimately show ?thesis using ok by (simp add: db' inventory_ok_def)
qed (use del ok in \<open>auto simp: stock_delete_def\<close>)

lemma movement_insert_ok:
  assumes mk: "movement_insert i t s fz tz k d at' q db = Inr (r, db')" and ok: "inventory_ok db"
  shows "inventory_ok db'"
proof -
  have r: "(m_id r, m_occurred_at r) \<notin> (\<lambda>m. (m_id m, m_occurred_at m)) ` set (movements db)" "movement_fits r db"
    "db' = db\<lparr>movements := movements db @ [r]\<rparr>"
    using mk by (auto simp: movement_insert_def Let_def simp del: prod.inject split: if_splits)
  have "movement_ok (s_id ` set (stock_items db)) r" using r(2) by (simp add: movement_fits_def movement_ok_def)
  then show ?thesis using ok r(1)
    by (auto simp: r(3) inventory_ok_def movements_ok_def intro!: insert_primary [where pk = "\<lambda>m. (m_id m, m_occurred_at m)"])
qed

lemma mapping_create_ok:
  assumes mk: "mapping_create i now t c db = Inr (r, db')" and ok: "inventory_ok db"
  shows "inventory_ok db'"
proof -
  have r: "t_id r \<notin> t_id ` set (mappings db)" "mapping_fits r db" "db' = db\<lparr>mappings := mappings db @ [r]\<rparr>"
    using mk by (auto simp: mapping_create_def Let_def split: if_splits)
  then show ?thesis using ok
    by (auto simp: inventory_ok_def mappings_ok_def mapping_ok_def mapping_fits_def intro!: insert_primary unique_on_insert [where pk = t_id])
qed

lemma mapping_update_ok:
  assumes upd: "mapping_update t i u db = Inr (r, db')" and ok: "inventory_ok db"
  shows "inventory_ok db'"
proof (cases "mapping_get t i db")
  case (Some row)
  have pk: "primary t_id (mappings db)" using ok by (simp add: inventory_ok_def mappings_ok_def)
  have row: "row_by t_id i (mappings db) = Some row" "t_id row = i"
    using find_by [OF Some [unfolded mapping_get_def] pk] by auto
  have db': "db' = db\<lparr>mappings := update_row t_id i (mapping_patch u) (mappings db)\<rparr>" and fits: "mapping_fits (mapping_patch u row) db"
    using upd Some by (auto simp: mapping_update_def split: if_splits)
  have same [simp]: "t_id (mapping_patch u m) = t_id m" "mapping_ok (mapping_patch u m) = mapping_ok m" for m
    by (simp_all add: mapping_patch_def mapping_ok_def)
  have "mappings_ok (update_row t_id i (mapping_patch u) (mappings db))"
    using ok fits row unique_on_update [OF _ pk row(1), of scoped_mapping mapping_key "mapping_patch u"]
    by (auto simp: inventory_ok_def mappings_ok_def mapping_fits_def primary_update dest: set_update_row)
  then show ?thesis using ok by (simp add: db' inventory_ok_def)
qed (use upd ok in \<open>auto simp: mapping_update_def\<close>)

lemma mapping_delete_ok: "inventory_ok db \<Longrightarrow> inventory_ok (snd (mapping_delete t i db))"
  by (auto simp: mapping_delete_def inventory_ok_def mappings_ok_def unique_on_delete set_delete_row split: option.split)

section \<open>Runs\<close>

text \<open>The transactions of the service, and the two that ingestion makes of its own.\<close>

datatype inventory_op =
    CreateProduct uuid datetime uuid "uuid option" product_create_body
  | UpdateProduct uuid "uuid option" uuid product_update_body
  | DeleteProduct uuid "uuid option" uuid
  | CreateLot uuid datetime uuid "uuid option" uuid lot_create_body
  | UpdateLot uuid "uuid option" uuid lot_update_body
  | DeleteLot uuid "uuid option" uuid
  | CreateItem uuid datetime uuid "uuid option" stock_item_create
  | UpdateItem datetime uuid "uuid option" uuid stock_item_update
  | DeleteItem uuid "uuid option" uuid bool
  | ManualMovement uuid datetime uuid "uuid option" stock_movement_create
  | CreateMapping uuid datetime uuid "uuid option" mapping_create_body
  | UpdateMapping uuid "uuid option" uuid mapping_update_body
  | DeleteMapping uuid "uuid option" uuid
  | Observe uuid uuid "uuid option" datetime
  | Transfer uuid uuid uuid "uuid option" "uuid option" string "uuid option" datetime int

definition committed :: "inventory \<Rightarrow> py_exn + 'r \<times> inventory \<Rightarrow> inventory" where
  "committed db outcome = (case outcome of Inl e \<Rightarrow> db | Inr (r, db') \<Rightarrow> db')"

fun inventory_step :: "inventory_op \<Rightarrow> inventory \<Rightarrow> inventory" where
  "inventory_step (CreateProduct i now t u c) db = committed db (svc_create_product i now t u c db)"
| "inventory_step (UpdateProduct t u i p) db = committed db (svc_update_product t u i p db)"
| "inventory_step (DeleteProduct t u i) db = committed db (svc_delete_product t u i db)"
| "inventory_step (CreateLot i now t u p c) db = committed db (svc_create_lot i now t u p c db)"
| "inventory_step (UpdateLot t u i p) db = committed db (svc_update_lot t u i p db)"
| "inventory_step (DeleteLot t u i) db = committed db (svc_delete_lot t u i db)"
| "inventory_step (CreateItem i now t u c) db = committed db (svc_create_stock_item i now t u c db)"
| "inventory_step (UpdateItem now t u i p) db = committed db (svc_update_stock_item now t u i p db)"
| "inventory_step (DeleteItem t u i force) db = committed db (svc_delete_stock_item t u i force db)"
| "inventory_step (ManualMovement i now t u c) db = committed db (svc_create_manual_movement i now t u c db)"
| "inventory_step (CreateMapping i now t u c) db = committed db (svc_create_mapping i now t u c db)"
| "inventory_step (UpdateMapping t u i p) db = committed db (svc_update_mapping t u i p db)"
| "inventory_step (DeleteMapping t u i) db = committed db (svc_delete_mapping t u i db)"
| "inventory_step (Observe t i z seen) db = snd (record_observation t i z seen db)"
| "inventory_step (Transfer i t s fz tz k d seen q) db = committed db (movement_insert i t s fz tz k d seen q db)"

definition empty_inventory :: inventory where
  "empty_inventory = \<lparr>products = [], lots = [], stock_items = [], movements = [], mappings = [], audits = []\<rparr>"

definition inventory_run :: "inventory_op list \<Rightarrow> inventory \<Rightarrow> inventory" where
  "inventory_run ops db = fold inventory_step ops db"

lemma empty_inventory_ok: "inventory_ok empty_inventory"
  by (simp add: inventory_ok_def empty_inventory_def ok_defs)

lemma committed_ok: "inventory_ok db \<Longrightarrow> (\<And>r db'. outcome = Inr (r, db') \<Longrightarrow> inventory_ok db') \<Longrightarrow> inventory_ok (committed db outcome)"
  by (auto simp: committed_def split: sum.split)

lemma owner_of_product:
  "product_get t i db = Some p \<Longrightarrow> (i, t) \<in> owners_of (products db)"
  by (auto simp: product_get_def owners_of_def dest!: found_in)

lemma only_owner:
  assumes "inventory_ok db" and "product_get t i db = Some p" and "q \<in> set (products db)" and "p_id q = i"
  shows "p_tenant_id q = t"
proof -
  have "p \<in> set (products db)" "p_id p = i" "p_tenant_id p = t"
    using found_in [OF assms(2) [unfolded product_get_def]] by auto
  moreover have "primary p_id (products db)" using assms(1) by (simp add: inventory_ok_def products_ok_def)
  ultimately show ?thesis using unique_onD [of always p_id "products db" p q] assms(3,4) by simp
qed

lemma inventory_step_ok:
  assumes ok: "inventory_ok db"
  shows "inventory_ok (inventory_step op db)"
proof (cases op)
  case (CreateProduct i now t u c)
  have "inventory_ok db'" if "svc_create_product i now t u c db = Inr (r, db')" for r db'
    using that unfolding svc_create_product_def by (rule audited_create) (erule product_create_ok [OF _ ok])
  then show ?thesis by (simp add: CreateProduct committed_ok [OF ok])
next
  case (CreateLot i now t u p c)
  have "inventory_ok db'" if run: "svc_create_lot i now t u p c db = Inr (r, db')" for r db'
  proof (cases "product_get t p db")
    case (Some row)
    from run Some have "and_then (lot_create i now t p c db) (\<lambda>(l, db). and_then (audit_log t u ''lot.created'' ''lot'' (l_id l)
        (Some [(''lot_code'', Some (JStr (l_lot_code l))), (''product_id'', Some (JStr (str_uuid p)))]) db) (\<lambda>db. Inr (l, db))) = Inr (r, db')"
      by (simp add: svc_create_lot_def)
    then show ?thesis by (rule audited_create) (erule lot_create_ok [OF _ ok owner_of_product [OF Some]])
  qed (use run in \<open>simp add: svc_create_lot_def\<close>)
  then show ?thesis by (simp add: CreateLot committed_ok [OF ok])
next
  case (CreateItem i now t u c)
  have "inventory_ok db'" if run: "svc_create_stock_item i now t u c db = Inr (r, db')" for r db'
  proof (cases "product_get t (sc_product_id c) db")
    case (Some row)
    from run Some have "and_then (stock_create i now t c db) (\<lambda>(s, db). and_then (audit_log t u ''stock_item.created'' ''stock_item'' (s_id s)
        (Some [(''product_id'', Some (JStr (str_uuid (s_product_id s)))), (''binding_value'', Some (JStr (s_binding_value s)))]) db)
        (\<lambda>db. Inr (s, db))) = Inr (r, db')"
      by (simp add: svc_create_stock_item_def)
    then show ?thesis by (rule audited_create) (erule stock_create_ok [OF _ ok only_owner [OF ok Some]])
  qed (use run in \<open>simp add: svc_create_stock_item_def\<close>)
  then show ?thesis by (simp add: CreateItem committed_ok [OF ok])
next
  case (ManualMovement i now t u c)
  have "inventory_ok db'" if run: "svc_create_manual_movement i now t u c db = Inr (r, db')" for r db'
    using run by (auto simp: svc_create_manual_movement_def Let_def and_then_eq_Inr ok split: option.splits list.splits if_splits
        dest!: audit_log_Inr movement_insert_ok)
  then show ?thesis by (simp add: ManualMovement committed_ok [OF ok])
next
  case (CreateMapping i now t u c)
  have "inventory_ok db'" if run: "svc_create_mapping i now t u c db = Inr (r, db')" for r db'
    using run by (auto simp: svc_create_mapping_def and_then_eq_Inr ok dest!: audit_log_Inr mapping_create_ok)
  then show ?thesis by (simp add: CreateMapping committed_ok [OF ok])
next
  case (DeleteItem t u i force)
  have "inventory_ok db'" if "svc_delete_stock_item t u i force db = Inr (r, db')" for r db'
    using that by (auto simp: svc_delete_stock_item_def elim!: audited_delete_ok intro: stock_delete_ok [OF _ ok] split: if_splits)
  then show ?thesis by (simp add: DeleteItem committed_ok [OF ok])
next
  case (DeleteMapping t u i)
  have "inventory_ok db'" if "svc_delete_mapping t u i db = Inr (r, db')" for r db'
    using that mapping_delete_ok [OF ok, of t i] unfolding svc_delete_mapping_def
    by (elim audited_delete_ok) (auto simp: prod_eq_iff)
  then show ?thesis by (simp add: DeleteMapping committed_ok [OF ok])
next
  case (Observe t i z seen)
  then show ?thesis using record_observation_ok [OF _ ok, of t i z seen] by (cases "record_observation t i z seen db") simp
qed (auto simp: svc_update_product_def svc_delete_product_def svc_update_lot_def svc_delete_lot_def svc_update_stock_item_def
    svc_update_mapping_def ok intro!: committed_ok elim!: audited_update_ok audited_delete_ok
    intro: product_update_ok product_delete_ok lot_update_ok lot_delete_ok stock_update_ok mapping_update_ok movement_insert_ok)

lemma inventory_run_ok: "inventory_ok (inventory_run ops empty_inventory)"
proof -
  have "inventory_ok db \<Longrightarrow> inventory_ok (inventory_run ops db)" for db
    by (induction ops arbitrary: db) (simp_all add: inventory_run_def inventory_step_ok)
  then show ?thesis using empty_inventory_ok by blast
qed


section \<open>Stock levels\<close>

definition count_level :: "level_key \<Rightarrow> stock_item list \<Rightarrow> int" where
  "count_level k ss = int (length (filter (\<lambda>s. s_state s = InStock \<and> level_of s = k) ss))"

definition tally :: "stock_item list \<Rightarrow> (level_key, int) pydict \<Rightarrow> (level_key, int) pydict" where
  "tally = fold (\<lambda>s d. dict_set (level_of s) (1 + (case map_of d (level_of s) of None \<Rightarrow> 0 | Some n \<Rightarrow> n)) d)"

lemma tally_lookup:
  "map_of (tally ss d) k = (let n = int (length (filter (\<lambda>s. level_of s = k) ss)) in
     if n = 0 then map_of d k else Some (n + (case map_of d k of None \<Rightarrow> 0 | Some m \<Rightarrow> m)))"
proof (induction ss arbitrary: d)
  case (Cons s ss)
  show ?case unfolding tally_def fold_Cons o_apply by (subst Cons.IH [unfolded tally_def]) (auto simp: Let_def split: option.split)
qed (simp add: tally_def)

lemma tally_wf: "wf_dict d \<Longrightarrow> wf_dict (tally ss d)"
  by (induction ss arbitrary: d) (simp_all add: tally_def)

lemma view_is_tally: "stock_levels_view db = tally (filter (\<lambda>s. s_state s = InStock) (stock_items db)) []"
  by (simp add: stock_levels_view_def tally_def)

lemma view_lookup: "map_of (stock_levels_view db) k = (let n = count_level k (stock_items db) in if n = 0 then None else Some n)"
proof -
  have "filter (\<lambda>s. level_of s = k) (filter (\<lambda>s. s_state s = InStock) (stock_items db))
      = filter (\<lambda>s. s_state s = InStock \<and> level_of s = k) (stock_items db)"
    unfolding filter_filter by (rule filter_cong) auto
  then show ?thesis by (simp add: view_is_tally tally_lookup count_level_def Let_def)
qed

lemma wf_view: "wf_dict (stock_levels_view db)"
  by (simp add: view_is_tally tally_wf)

lemma in_view: "(k, n) \<in> set (stock_levels_view db) \<longleftrightarrow> 0 < n \<and> n = count_level k (stock_items db)"
proof -
  have "(k, n) \<in> set (stock_levels_view db) \<longleftrightarrow> map_of (stock_levels_view db) k = Some n"
    using wf_view [of db] by simp
  then show ?thesis by (auto simp: view_lookup Let_def count_level_def)
qed

text \<open>A stock level is reported exactly for each product, lot and zone, within the filters asked for, in which the tenant has
  items in stock, once, and its quantity is their number.\<close>

theorem stock_levels_exact:
  "distinct (stock_levels t po zo db) \<and>
   ((p, l, z, n) \<in> set (stock_levels t po zo db) \<longleftrightarrow>
      po \<in> {None, Some p} \<and> zo \<in> {None} \<union> Some ` set_option z \<and> 0 < n \<and> n = count_level (t, p, l, z) (stock_items db))"
proof
  have "distinct (stock_levels_view db)" using wf_view [of db] by (simp add: distinct_map)
  then show "distinct (stock_levels t po zo db)"
    by (auto simp: stock_levels_def order_desc_def opt_filter_def distinct_map inj_on_def split: option.split)
next
  show "(p, l, z, n) \<in> set (stock_levels t po zo db) \<longleftrightarrow>
      po \<in> {None, Some p} \<and> zo \<in> {None} \<union> Some ` set_option z \<and> 0 < n \<and> n = count_level (t, p, l, z) (stock_items db)"
    using in_view [of "(t, p, l, z)" n db]
    by (cases po; cases zo; cases z) (force simp: stock_levels_def opt_filter_def)+
qed

section \<open>The ledger is kept\<close>

definition grows :: "inventory \<Rightarrow> inventory \<Rightarrow> bool" where
  "grows db db' \<longleftrightarrow> (\<exists>ms as. movements db' = movements db @ ms \<and> audits db' = audits db @ as)"

lemma grows_refl [simp]: "grows db db"
  by (simp add: grows_def)

lemma grows_trans: "grows db db' \<Longrightarrow> grows db' db'' \<Longrightarrow> grows db db''"
  by (auto simp: grows_def)

lemma audit_grows: "audit_log t u a k i cs db = Inr db' \<Longrightarrow> grows db db'"
  by (auto simp: audit_log_def grows_def split: if_splits)

lemma committed_grows: "(\<And>r db'. outcome = Inr (r, db') \<Longrightarrow> grows db db') \<Longrightarrow> grows db (committed db outcome)"
  by (auto simp: committed_def split: sum.split)

lemma audited_grows:
  "audited_update t u a k i cs outcome = Inr (r', db') \<Longrightarrow> (\<And>r db1. outcome = Inr (r, db1) \<Longrightarrow> grows db db1) \<Longrightarrow> grows db db'"
  "audited_delete t u a k i outcomd = Inr (d', db') \<Longrightarrow> (\<And>r db1. outcomd = Inr (r, db1) \<Longrightarrow> grows db db1) \<Longrightarrow> grows db db'"
  by (auto simp: audited_update_def audited_delete_def and_then_eq_Inr dest!: audit_grows
      intro: grows_trans split: prod.splits option.splits if_splits)

lemma repository_grows:
  "product_create i now t pc db = Inr (p, db1) \<Longrightarrow> grows db db1" "product_update t i pu db = Inr (po, db1) \<Longrightarrow> grows db db1"
  "product_delete t i db = Inr (b, db1) \<Longrightarrow> grows db db1" "lot_create i now t q lc db = Inr (l, db1) \<Longrightarrow> grows db db1"
  "lot_update t i lu db = Inr (lo, db1) \<Longrightarrow> grows db db1" "lot_delete t i db = Inr (b, db1) \<Longrightarrow> grows db db1"
  "stock_create i now t sc db = Inr (s, db1) \<Longrightarrow> grows db db1" "stock_update now t i su db = Inr (so, db1) \<Longrightarrow> grows db db1"
  "stock_delete t i force db = Inr (b, db1) \<Longrightarrow> grows db db1" "movement_insert i t j fz tz k d seen n db = Inr (m, db1) \<Longrightarrow> grows db db1"
  "mapping_create i now t mc db = Inr (ma, db1) \<Longrightarrow> grows db db1" "mapping_update t i mu db = Inr (mo, db1) \<Longrightarrow> grows db db1"
  "grows db (snd (mapping_delete t i db))" "grows db (snd (record_observation t i z seen db))"
  by (auto simp: grows_def product_create_def product_update_def product_delete_def lot_create_def lot_update_def lot_delete_def
      stock_create_def stock_update_def stock_delete_def movement_insert_def mapping_create_def mapping_update_def mapping_delete_def
      record_observation_def Let_def split: if_splits option.splits)

lemma created_grows:
  "and_then outcome (\<lambda>(r, db). and_then (audit_log t u a k (i r) (c r) db) (\<lambda>db. Inr (r, db))) = Inr (r', db') \<Longrightarrow>
     (\<And>r db1. outcome = Inr (r, db1) \<Longrightarrow> grows db db1) \<Longrightarrow> grows db db'"
  by (auto simp: and_then_eq_Inr dest!: audit_grows intro: grows_trans split: prod.splits)

lemma svc_grows:
  "svc_create_product i now t u pc db = Inr (p, db') \<Longrightarrow> grows db db'"
  "svc_create_lot i now t u j lc db = Inr (l, db') \<Longrightarrow> grows db db'"
  "svc_create_stock_item i now t u sc db = Inr (s, db') \<Longrightarrow> grows db db'"
  "svc_create_manual_movement i now t u mc db = Inr (m, db') \<Longrightarrow> grows db db'"
  "svc_create_mapping i now t u tc db = Inr (ma, db') \<Longrightarrow> grows db db'"
  "svc_update_product t u i pu db = Inr (po, db') \<Longrightarrow> grows db db'"
  "svc_update_lot t u i lu db = Inr (lo, db') \<Longrightarrow> grows db db'"
  "svc_update_stock_item now t u i su db = Inr (so, db') \<Longrightarrow> grows db db'"
  "svc_update_mapping t u i tu db = Inr (mo, db') \<Longrightarrow> grows db db'"
  "svc_delete_product t u i db = Inr (b, db') \<Longrightarrow> grows db db'"
  "svc_delete_lot t u i db = Inr (b, db') \<Longrightarrow> grows db db'"
  "svc_delete_stock_item t u i force db = Inr (b, db') \<Longrightarrow> grows db db'"
  "svc_delete_mapping t u i db = Inr (b, db') \<Longrightarrow> grows db db'"
  subgoal unfolding svc_create_product_def by (erule created_grows) (rule repository_grows(1))
  subgoal unfolding svc_create_lot_def by (simp split: if_splits) (erule created_grows, rule repository_grows(4))
  subgoal unfolding svc_create_stock_item_def by (simp split: if_splits) (erule created_grows, rule repository_grows(7))
  subgoal unfolding svc_create_manual_movement_def Let_def
    by (simp split: option.splits list.splits; erule created_grows; rule repository_grows(10))
  subgoal unfolding svc_create_mapping_def
    by (subst (asm) and_then_eq_Inr) (elim exE conjE, erule created_grows, rule repository_grows(11))
  subgoal unfolding svc_update_product_def by (erule audited_grows(1)) (rule repository_grows(2))
  subgoal unfolding svc_update_lot_def by (erule audited_grows(1)) (rule repository_grows(5))
  subgoal unfolding svc_update_stock_item_def by (erule audited_grows(1)) (rule repository_grows(8))
  subgoal unfolding svc_update_mapping_def by (erule audited_grows(1)) (rule repository_grows(12))
  subgoal unfolding svc_delete_product_def by (erule audited_grows(2)) (rule repository_grows(3))
  subgoal unfolding svc_delete_lot_def by (erule audited_grows(2)) (rule repository_grows(6))
  subgoal unfolding svc_delete_stock_item_def by (simp split: if_splits) (erule audited_grows(2), rule repository_grows(9))
  subgoal unfolding svc_delete_mapping_def using repository_grows(13) [of db t i] by (elim audited_grows(2)) (simp add: prod_eq_iff)
  done

lemma inventory_step_grows: "grows db (inventory_step op db)"
  by (cases op) (simp_all add: committed_grows svc_grows repository_grows)

text \<open>C25: whatever the service and ingestion do, the movement ledger and the audit log only grow at their end, every item
  with a movement stays in its table for good, and from its first movement on every request of the movement's tenant to
  delete the item, forced or not and whatever its state, is refused by the service with the error of the ledger guard
  (ADR-031), before the table's own constraint could.\<close>

theorem ledger_is_kept:
  "(\<exists>ms as. movements (inventory_run (ops @ ops') empty_inventory) = movements (inventory_run ops empty_inventory) @ ms \<and>
      audits (inventory_run (ops @ ops') empty_inventory) = audits (inventory_run ops empty_inventory) @ as) \<and>
   m_stock_item_id ` set (movements (inventory_run ops empty_inventory))
     \<subseteq> s_id ` set (stock_items (inventory_run (ops @ ops') empty_inventory)) \<and>
   (\<forall>m \<in> set (movements (inventory_run ops empty_inventory)).
      svc_delete_stock_item (m_tenant_id m) user_id (m_stock_item_id m) force (inventory_run (ops @ ops') empty_inventory) =
        Inl (ValueError ''StockItemLedgerError''))"
proof -
  have "grows db (inventory_run xs db)" for xs db
    by (induction xs arbitrary: db) (auto simp: inventory_run_def intro: grows_trans inventory_step_grows)
  from this [of "inventory_run ops empty_inventory" ops']
  have grow: "grows (inventory_run ops empty_inventory) (inventory_run (ops @ ops') empty_inventory)"
    by (simp add: inventory_run_def)
  moreover have "\<forall>m \<in> set (movements (inventory_run (ops @ ops') empty_inventory)).
      m_stock_item_id m \<in> s_id ` set (stock_items (inventory_run (ops @ ops') empty_inventory))"
    using inventory_run_ok [of "ops @ ops'"] by (simp add: inventory_ok_def movements_ok_def movement_ok_def)
  moreover have "0 < count_for_stock_item (m_tenant_id m) (m_stock_item_id m) (inventory_run (ops @ ops') empty_inventory)"
    if "m \<in> set (movements (inventory_run ops empty_inventory))" for m
    using that grow by (auto simp: grows_def count_for_stock_item_def filter_empty_conv)
  ultimately show ?thesis by (auto simp: grows_def svc_delete_stock_item_def)
qed

section \<open>Requests that cannot succeed\<close>

text \<open>Setting a date of a lot, or the lot or the parent of a stock item, never takes effect: the audit row of the change is
  not JSON, so the request fails unless the row is missing; and a manual movement of the documented type
  \<open>adjustment\<close> always fails, because the table does not admit it.\<close>

theorem requests_that_never_succeed:
  "svc_update_lot t usr i (lu\<lparr>lu_expires_at := Some (Some d)\<rparr>) db \<in> {Inr (None, db)} \<union> range Inl \<and>
   svc_update_stock_item now t usr i (su\<lparr>su_lot_id := Some (Some j)\<rparr>) db \<in> {Inr (None, db)} \<union> range Inl \<and>
   svc_create_manual_movement n now t usr (mc\<lparr>mc_movement_type := ''adjustment''\<rparr>) db \<in> range Inl"
proof (intro conjI)
  show "svc_update_lot t usr i (lu\<lparr>lu_expires_at := Some (Some d)\<rparr>) db \<in> {Inr (None, db)} \<union> range Inl"
    by (auto simp: svc_update_lot_def audited_update_def audit_log_def lot_update_def lot_changes_def dumped_def dump_python_def
        split: option.splits if_splits)
  show "svc_update_stock_item now t usr i (su\<lparr>su_lot_id := Some (Some j)\<rparr>) db \<in> {Inr (None, db)} \<union> range Inl"
    by (auto simp: svc_update_stock_item_def audited_update_def audit_log_def stock_update_def stock_changes_def dumped_def
        dump_python_def split: option.splits if_splits)
  show "svc_create_manual_movement n now t usr (mc\<lparr>mc_movement_type := ''adjustment''\<rparr>) db \<in> range Inl"
    by (auto simp: svc_create_manual_movement_def movement_insert_def movement_fits_def Let_def split: option.splits list.splits)
qed

text \<open>A manual movement may name an item of another tenant; it is written to the ledger, and from then on the item's own
  tenant, who sees no movement of it, gets an integrity error instead of deleting it.\<close>

theorem foreign_movement:
  assumes "stock_get t i db = Some s" and "count_for_stock_item t i db = 0" and "t' \<noteq> t"
    and "(n, now) \<notin> (\<lambda>m. (m_id m, m_occurred_at m)) ` set (movements db)"
    and "mc_stock_item_id c = Some i" and "mc_movement_type c \<in> {''enter'', ''exit''}"
  shows "\<exists>m db'. svc_create_manual_movement n now t' usr c db = Inr (m, db') \<and> m_tenant_id m = t' \<and>
    count_for_stock_item t i db' = 0 \<and> svc_delete_stock_item t usr' i True db' = Inl integrity_error"
proof -
  let ?z = "mc_zone_id c" and ?k = "mc_movement_type c"
  obtain fz tz where zones: "(if ?k = ''exit'' then ?z else None) = fz" "(if ?k = ''exit'' then None else ?z) = tz" by simp
  let ?m = "\<lparr>m_id = n, m_tenant_id = t', m_stock_item_id = i, m_from_zone_id = fz, m_to_zone_id = tz, m_movement_type = ?k,
    m_quantity = mc_quantity c, m_device_id = None, m_occurred_at = now\<rparr>"
  have mem: "i \<in> s_id ` set (stock_items db)" using found_in [OF assms(1) [unfolded stock_get_def]] by auto
  have ins: "movement_insert n t' i fz tz ?k None now (mc_quantity c) db = Inr (?m, db\<lparr>movements := movements db @ [?m]\<rparr>)"
    using assms(4,6) mem by (auto simp: movement_insert_def movement_fits_def Let_def)
  obtain db' where db': "audit_log t' usr ''stock_movement.created'' ''stock_movement'' n
      (Some [(''movement_type'', Some (JStr ?k)), (''quantity'', Some (JInt (mc_quantity c))), (''reason'', Some (JStr (mc_reason c))),
        (''source'', Some (JStr ''manual''))]) (db\<lparr>movements := movements db @ [?m]\<rparr>) = Inr db'"
    and tabs: "movements db' = movements db @ [?m]" "stock_items db' = stock_items db"
    by (simp add: audit_log_def)
  have "svc_create_manual_movement n now t' usr c db = Inr (?m, db')"
    using ins db' assms(5) by (simp add: svc_create_manual_movement_def Let_def zones)
  moreover have "count_for_stock_item t i db' = 0" using assms(2,3) tabs by (simp add: count_for_stock_item_def)
  moreover have "svc_delete_stock_item t usr' i True db' = Inl integrity_error"
    using calculation(2) assms(1) tabs by (simp add: svc_delete_stock_item_def audited_delete_def stock_delete_def stock_get_def)
  ultimately show ?thesis by auto
qed

definition demo_item :: stock_item where
  "demo_item = \<lparr>s_id = 7, s_tenant_id = 1, s_product_id = 5, s_lot_id = None, s_parent_id = None, s_binding_value = ''E2'',
     s_binding_kind = ''epc'', s_state = InStock, s_current_zone_id = None, s_first_seen_at = 0, s_last_seen_at = 0,
     s_consumed_at = None, s_metadata = None\<rparr>"

definition demo_product :: product where
  "demo_product = \<lparr>p_id = 5, p_tenant_id = 1, p_sku = ''A'', p_gtin = None, p_name = ''A'', p_category = None, p_unit = Each,
     p_attributes = None, p_created_at = 0, p_updated_at = 0\<rparr>"

definition demo_movement :: stock_movement_create where
  "demo_movement = \<lparr>mc_product_id = 5, mc_lot_id = None, mc_zone_id = None, mc_movement_type = ''enter'', mc_quantity = 1,
     mc_reason = ''r'', mc_stock_item_id = Some 7\<rparr>"

definition demo_db :: inventory where
  "demo_db = empty_inventory\<lparr>products := [demo_product], stock_items := [demo_item]\<rparr>"

theorem foreign_movement_witness:
  "\<exists>m db'. svc_create_manual_movement 9 3 2 None demo_movement demo_db = Inr (m, db') \<and> svc_delete_stock_item 1 None 7 True db' = Inl integrity_error"
proof -
  have "stock_get 1 7 demo_db = Some demo_item" "count_for_stock_item 1 7 demo_db = 0" "movements demo_db = []"
    by (simp_all add: demo_db_def empty_inventory_def stock_get_def demo_item_def count_for_stock_item_def)
  then show ?thesis using foreign_movement [of 1 7 demo_db demo_item 2 9 3 demo_movement None None]
    by (auto simp: demo_movement_def)
qed

text \<open>An item that has been moved by hand is not deleted any more, not even by force.\<close>

definition demo_operations :: "inventory_op list" where
  "demo_operations =
     [CreateProduct 5 0 1 None \<lparr>pc_sku = ''A'', pc_gtin = None, pc_name = ''A'', pc_category = None, pc_unit = Each, pc_attributes = None\<rparr>,
      CreateItem 7 0 1 None \<lparr>sc_product_id = 5, sc_lot_id = None, sc_parent_id = None, sc_binding_value = ''E2'', sc_binding_kind = ''epc'',
        sc_metadata = None\<rparr>,
      ManualMovement 9 3 1 None demo_movement]"

lemma demo_moved:
  "movements (inventory_run demo_operations empty_inventory) =
     [\<lparr>m_id = 9, m_tenant_id = 1, m_stock_item_id = 7, m_from_zone_id = None, m_to_zone_id = None, m_movement_type = ''enter'',
       m_quantity = 1, m_device_id = None, m_occurred_at = 3\<rparr>]"
  by (simp add: inventory_run_def demo_operations_def demo_movement_def committed_def svc_create_product_def product_create_def
      svc_create_stock_item_def svc_create_manual_movement_def stock_create_def product_get_def movement_insert_def audit_log_def
      empty_inventory_def product_fits_def item_fits_def movement_fits_def clashes_def ref_ok_def Let_def)

theorem ledger_is_kept_witness:
  "length (movements (inventory_run demo_operations empty_inventory)) = 1 \<and>
   svc_delete_stock_item 1 None 7 True (inventory_run (demo_operations @ [DeleteItem 1 None 7 True]) empty_inventory) =
     Inl (ValueError ''StockItemLedgerError'')"
  using ledger_is_kept [of demo_operations "[DeleteItem 1 None 7 True]" None True] by (simp add: demo_moved)

end
