(* ===== verification/IngestionLaws.thy ===== *)
theory IngestionLaws
  imports Ingestion Evaluator InventoryLaws
begin

text \<open>
  What ingestion guarantees, over any sequence of requests: how the clock window sorts a batch, which events a
  backfill marks, the chain of zones of an asset on the bus and of a stock item in the ledger, and the requests
  that fail.  The steps are walked through once, in the locale \<open>intake_relation\<close>: a relation between states that
  the elementary steps respect holds across the enrichment of a read.
\<close>

section \<open>Kinds of events\<close>

definition from_telemetry_service :: "event \<Rightarrow> bool" where
  "from_telemetry_service e \<longleftrightarrow> ev_topic e = TELEMETRY_OUT_OF_RANGE \<or>
     ev_topic e = TELEMETRY_RECORDED \<and> jget (ev_payload e) ''subject_kind'' = JStr ''device''"

definition asset_move :: "event \<Rightarrow> bool" where
  "asset_move e \<longleftrightarrow> ev_topic e = SUBJECT_ZONE_CHANGED \<and> jget (ev_payload e) ''subject_kind'' = JStr ''asset'' \<and>
     jget (ev_payload e) ''zone_kind'' = JStr ''reader_bound''"

definition marked_as :: "ingest_env \<Rightarrow> event \<Rightarrow> bool" where
  "marked_as env e \<longleftrightarrow> (truthy (jget (ev_payload e) ''backfill'') \<longleftrightarrow> ie_backfill env \<and> \<not> from_telemetry_service e)"

definition side_event :: "ingest_env \<Rightarrow> event \<Rightarrow> bool" where
  "side_event env e \<longleftrightarrow> \<not> asset_move e \<and> marked_as env e"

section \<open>What is published\<close>

lemma jget_cons [simp]: "jget ((k, v) # d) k' = (if k' = k then v else jget d k')"
  by (simp add: jget_def)

lemma jget_nil [simp]: "jget [] k = JNull"
  by (simp add: jget_def)

lemma jget_set [simp]: "jget (dict_set k v d) k' = (if k' = k then v else jget d k')"
  by (simp add: jget_def)

lemma jget_event [simp]: "k \<noteq> ''backfill'' \<Longrightarrow> jget (event_payload env p) k = jget p k"
  by (simp add: event_payload_def)

lemma backfill_event [simp]:
  "jget p ''backfill'' = JNull \<Longrightarrow> truthy (jget (event_payload env p) ''backfill'') \<longleftrightarrow> ie_backfill env"
  by (simp add: event_payload_def)

lemma jget_recorded [simp]:
  "jget (recorded_payload t kind i m v u d src ts) ''backfill'' = JNull"
  "jget (recorded_payload t kind i m v u d src ts) ''subject_kind'' = JStr kind"
  by (simp_all add: recorded_payload_def)

lemma jget_moved [simp]:
  "jget (zone_changed_payload t kind i zk a b rd n pos) ''subject_kind'' = JStr kind"
  "jget (zone_changed_payload t kind i zk a b rd n pos) ''zone_kind'' = JStr zk"
  "jget (zone_changed_payload t kind i zk a b rd n pos) ''tenant_id'' = JStr (str_uuid t)"
  "jget (zone_changed_payload t kind i zk a b rd n pos) ''subject_id'' = JStr (str_uuid i)"
  "jget (zone_changed_payload t kind i zk a b rd n pos) ''from_zone_id'' = json_uuid a"
  "jget (zone_changed_payload t kind i zk a b rd n pos) ''to_zone_id'' = json_uuid b"
  "jget (zone_changed_payload t kind i zk a b rd n []) ''backfill'' = JNull"
  "jget (zone_changed_payload t kind i zk a b rd n [(''latitude'', x), (''longitude'', y)]) ''backfill'' = JNull"
  by (simp_all add: zone_changed_payload_def)

lemma jget_stock_moved [simp]:
  "jget (stock_zone_changed_payload t i p a b epc rd n) ''subject_kind'' = JStr ''stock_item''"
  "jget (stock_zone_changed_payload t i p a b epc rd n) ''backfill'' = JNull"
  by (simp_all add: stock_zone_changed_payload_def)

lemma jget_created [simp]: "jget (created_payload t n rd) ''backfill'' = JNull"
  by (simp add: created_payload_def)

lemmas event_kinds = side_event_def marked_as_def asset_move_def from_telemetry_service_def

lemma process_reading_events:
  "\<exists>es. td_events (snd (process_reading now t d g metrics db)) = td_events db @ es \<and> (\<forall>e \<in> set es. side_event env e)"
  by (auto simp: process_reading_def quarantine_def publish_event_def publish_telemetry_recorded_def insert_reading_def
      telemetry_insert_def Let_def event_kinds out_of_range_payload_def split: option.split)

lemma ingest_reading_events:
  assumes "ingest_reading now ds ms t d g db = Inr (r, db')"
  shows "\<exists>es. td_events db' = td_events db @ es \<and> (\<forall>e \<in> set es. side_event env e)"
proof -
  obtain metrics where "process_reading now t d g metrics db = (r, db')"
    using assms by (auto simp: ingest_reading_def and_then_def Let_def split: sum.splits)
  then show ?thesis using process_reading_events [of now t d g metrics db env] by simp
qed

section \<open>The walk through the enrichment of a read\<close>

locale intake_relation = step_relation R
  for env :: ingest_env and R :: "intake \<Rightarrow> intake \<Rightarrow> bool" +
  assumes caches: "ca_zone_asset c = ca_zone_asset (in_caches st) \<Longrightarrow> ca_zone_stock c = ca_zone_stock (in_caches st)
      \<Longrightarrow> R st (st\<lparr>in_caches := c\<rparr>)"
    and telemetry: "td_events tdb = td_events (in_telemetry st) @ es \<Longrightarrow> \<forall>e \<in> set es. side_event env e
      \<Longrightarrow> R st (st\<lparr>in_telemetry := tdb\<rparr>)"
    and asset_seen: "R st (snd (asset_zone_seen env t a z rd i st))"
    and observed: "R st (snd (observe_item env t a z rd st))"
    and created: "R st (snd (create_item env t p l epc st))"
begin

lemma emit: "side_event env \<lparr>ev_topic = t, ev_timestamp = ts, ev_payload = p\<rparr> \<Longrightarrow> keeps R (emit t ts p)"
  by (rule keepsI) (auto simp: emit_def change_def publish_event_def intro!: telemetry)

lemma binding_of: "keeps R (binding_of env t v)"
  by (rule keepsI) (auto simp: binding_of_def refl split: option.split sum.split intro!: caches)

lemma mobility: "keeps R (lookup_device_mobility env t d)"
  by (rule keepsI) (auto simp: lookup_device_mobility_def Let_def refl split: option.split intro!: caches)

lemma modes: "keeps R (tenant_has_inventory_mode env t)"
  by (rule keepsI) (auto simp: tenant_has_inventory_mode_def Let_def refl split: option.split intro!: caches)

lemma gtin: "keeps R (lookup_product_id_by_gtin t g)"
  by (rule keepsI) (auto simp: lookup_product_id_by_gtin_def refl split: option.split sum.split intro!: caches)

lemma kinds: "keeps R (get_telemetry_subject_kinds env t)"
  by (rule keepsI) (auto simp: get_telemetry_subject_kinds_def Let_def refl split: option.split prod.split intro!: caches)

lemma candidates: "keeps R (find_geofence_candidates env t lat lon)"
  by (rule keepsI) (auto simp: find_geofence_candidates_def Let_def refl split: option.split prod.split intro!: caches)

lemma mirror_to_device: "keeps R (mirror_to_device env t rd pr kv)"
proof (rule keepsI)
  fix st
  obtain key val where kv: "kv = (key, val)" by (cases kv)
  let ?g = "\<lparr>g_timestamp = rd_timestamp rd, g_metric_name = key, g_metric_value = val, g_unit = None, g_metadata = Some pr\<rparr>"
  show "R st (snd (mirror_to_device env t rd pr kv st))"
  proof (cases "ingest_reading (ie_now env) (in_devices st) (ie_models env) t (rd_device_id rd) ?g (in_telemetry st)")
    case (Inr res)
    then obtain r tdb where res: "ingest_reading (ie_now env) (in_devices st) (ie_models env) t (rd_device_id rd) ?g (in_telemetry st) = Inr (r, tdb)"
      by (cases res) auto
    obtain es where "td_events tdb = td_events (in_telemetry st) @ es" "\<forall>e \<in> set es. side_event env e"
      using ingest_reading_events [OF res] by blast
    then show ?thesis using telemetry refl by (simp add: mirror_to_device_def kv res)
  qed (simp add: mirror_to_device_def kv refl)
qed

lemma mirror_to_subject:
  assumes "fst sub \<noteq> ''device''"
  shows "keeps R (mirror_to_subject env t rd pr sub kv)"
proof -
  obtain kind i key val where sub: "sub = (kind, i)" "kv = (key, val)" by (cases sub; cases kv)
  have ins: "keeps R (change (\<lambda>st. st\<lparr>in_telemetry := telemetry_insert row (in_telemetry st)\<rparr>))" for row
    using telemetry [where es = "[]"] by (auto simp: keeps_def change_def telemetry_insert_def)
  show ?thesis
    unfolding mirror_to_subject_def sub prod.case
    by (intro run_then ins emit) (use assms in \<open>simp add: sub event_kinds\<close>)
qed

lemma subjects: "keeps R (resolve_telemetry_subjects env t rd)"
  unfolding resolve_telemetry_subjects_def by (auto intro!: run_then give binding_of lift')

lemma mirror: "keeps R (mirror_tag_borne_sensors env t rd i)"
  unfolding mirror_tag_borne_sensors_def Let_def
  by (auto intro!: run_then lift give each mirror_to_device kinds subjects mirror_to_subject split: if_split)

lemma set_fence_zones [simp]:
  "ca_zone_asset (set_fence kind k z c) = ca_zone_asset c" "ca_zone_stock (set_fence kind k z c) = ca_zone_stock c"
  by (simp_all add: set_fence_def)

lemma geofence: "keeps R (eval_geofence_for_subject env t kind i rd n)"
proof (cases "rd_location rd")
  case (Some loc)
  have tail: "keeps R (\<lambda>st. let cache = fence_cache kind (in_caches st); st' = st\<lparr>in_caches := set_fence kind k zone (in_caches st)\<rparr>
      in if moved cache k zone
         then emit SUBJECT_ZONE_CHANGED (ie_now env) (event_payload env
                (zone_changed_payload t kind i ''geofence'' (last_zone cache k) zone rd n
                  [(''latitude'', JFloat (Fin lat)), (''longitude'', JFloat (Fin lon))])) st'
         else (Inr (), st'))" for k zone lat lon
  proof (rule keepsI)
    fix st
    have upd: "R st (st\<lparr>in_caches := set_fence kind k zone (in_caches st)\<rparr>)" by (rule caches) simp_all
    have ev: "keeps R (emit SUBJECT_ZONE_CHANGED (ie_now env) (event_payload env
                (zone_changed_payload t kind i ''geofence'' prev zone rd n
                  [(''latitude'', JFloat (Fin lat)), (''longitude'', JFloat (Fin lon))])))" for prev
      by (rule emit) (simp add: event_kinds)
    show "R st (snd (let cache = fence_cache kind (in_caches st); st' = st\<lparr>in_caches := set_fence kind k zone (in_caches st)\<rparr>
      in if moved cache k zone
         then emit SUBJECT_ZONE_CHANGED (ie_now env) (event_payload env
                (zone_changed_payload t kind i ''geofence'' (last_zone cache k) zone rd n
                  [(''latitude'', JFloat (Fin lat)), (''longitude'', JFloat (Fin lon))])) st'
         else (Inr (), st')))"
      using upd trans [OF upd keepsD [OF ev]] by (simp add: Let_def)
  qed
  show ?thesis
    unfolding eval_geofence_for_subject_def Some option.case
    by (auto simp: Let_def [of "lc_latitude loc"] Let_def [of "lc_longitude loc"] intro!: give run_then candidates lift tail [unfolded Let_def]
        simp: Let_def)
qed (simp add: eval_geofence_for_subject_def give)

lemma binding: "keeps R (first_binding env t vs)"
  by (induction vs) (auto intro!: give run_then binding_of split: option.split)

lemma asset_seen': "keeps R (asset_zone_seen env t a z rd n)"
  by (rule keepsI) (rule asset_seen)

lemma asset: "keeps R (enrich_with_asset_zone env t rd n)"
  unfolding enrich_with_asset_zone_def
  by (auto intro!: run_then give binding mobility geofence asset_seen' split: option.split)

lemma find_or_create: "keeps R (find_or_create_item env t p rd epc)"
proof -
  have "keeps R (create_item env t p l epc)" for l by (rule keepsI) (rule created)
  then show ?thesis
    unfolding find_or_create_item_def auto_create_def
    by (auto intro!: run_then give lift lift' split: option.split)
qed

lemma item_seen: "keeps R (item_zone_seen env t i p z epc rd n)"
proof -
  have "keeps R (observe_item env t i z rd)" by (rule keepsI) (rule observed)
  moreover have "keeps R (emit SUBJECT_ZONE_CHANGED (ie_now env) (event_payload env (stock_zone_changed_payload t i p prev z epc rd n)))" for prev
    by (rule emit) (simp add: event_kinds)
  ultimately show ?thesis
    unfolding item_zone_seen_def by (auto intro!: run_then give geofence split: option.split)
qed

lemma stock: "keeps R (enrich_with_inventory env t rd n)"
  unfolding enrich_with_inventory_def
  by (auto intro!: run_then give lift modes gtin find_or_create mobility geofence item_seen split: option.split)

lemma enrich: "keeps R (enrich_read env t rd n)"
proof -
  have "keeps R (emit TAG_READ_CREATED (ie_now env) (event_payload env (created_payload t n rd)))"
    by (rule emit) (simp add: event_kinds)
  then show ?thesis unfolding enrich_read_def by (intro run_then mirror asset stock)
qed

end

section \<open>Requests\<close>

datatype request = OneRead tag_read | ManyReads "tag_read list"

fun request_step :: "uuid option \<Rightarrow> ingest_env \<Rightarrow> uuid \<Rightarrow> request \<Rightarrow> intake \<Rightarrow> intake" where
  "request_step token env t (OneRead rd) st = snd (create_tag_read token env t rd st)"
| "request_step token env t (ManyReads rds) st = snd (create_tag_reads_batch token env t rds st)"

definition serve :: "(uuid option \<times> ingest_env \<times> uuid \<times> request) list \<Rightarrow> intake \<Rightarrow> intake" where
  "serve requests st = fold (\<lambda>(token, env, t, rq). request_step token env t rq) requests st"

definition same_core :: "intake \<Rightarrow> intake \<Rightarrow> bool" where
  "same_core st st' \<longleftrightarrow> in_telemetry st' = in_telemetry st \<and> in_inventory st' = in_inventory st \<and> in_caches st' = in_caches st"

lemma core_insert: "same_core st (snd (insert_read env t rd st))"
  by (simp add: same_core_def insert_read_def Let_def)

lemma core_reject: "same_core st (reject_read t rd r st)"
  by (simp add: same_core_def reject_read_def record_rejection_def Let_def)

lemma core_trans: "same_core a b \<Longrightarrow> same_core b c \<Longrightarrow> same_core a c"
  by (simp add: same_core_def)

lemma core_insert_batch: "same_core st (snd (insert_batch env t rds st))"
proof (induction rds arbitrary: st)
  case (Cons rd rds)
  show ?case using core_trans [OF core_insert Cons.IH] by (simp add: case_prod_unfold Let_def)
qed (simp add: same_core_def)

lemma core_admit: "same_core st (snd (admit env t rds st))"
proof (induction rds arbitrary: st)
  case (Cons rd rds)
  show ?case
    using Cons.IH core_trans [OF core_reject Cons.IH] by (auto simp: case_prod_unfold Let_def split: option.split)
qed (simp add: same_core_def)

lemma core_touch: "same_core st (fold (touch_device env t) ds st)"
proof (induction ds arbitrary: st)
  case (Cons d ds)
  show ?case using Cons.IH [of "touch_device env t d st"] by (simp add: same_core_def touch_device_def)
qed (simp add: same_core_def)

locale request_relation = intake_relation +
  assumes rows: "same_core st st' \<Longrightarrow> R st st'"
    and rolled: "R st st' \<Longrightarrow> R st (rollback st st')"
begin

lemma one: "keeps R (ingest_one env t rd)"
proof (rule keepsI)
  fix st
  show "R st (snd (ingest_one env t rd st))"
  proof (cases "normalize (ie_float_text env) rd")
    case (Inr n)
    let ?reason = "check_clock_window (rd_timestamp n) (ie_now env)"
    let ?st1 = "case ?reason of None \<Rightarrow> st | Some r \<Rightarrow> reject_read t n r st"
    let ?ins = "insert_read env t n ?st1"
    let ?st3 = "touch_device env t (rd_device_id n) (snd ?ins)"
    have one: "same_core st ?st1" by (auto simp: core_reject split: option.split) (simp add: same_core_def)
    have "same_core (snd ?ins) ?st3" using core_touch [of "snd ?ins" env t "[rd_device_id n]"] by simp
    then have start: "R st ?st3" using core_trans [OF one core_trans [OF core_insert]] by (blast intro: rows)
    have "keeps R (run_then (enrich_read env t n i) (\<lambda>_. Steps.give r))" for i and r :: stored_read
      by (intro run_then enrich give)
    from keepsD [OF this] start rows [OF one] show ?thesis
      by (auto simp: ingest_one_def Inr Let_def case_prod_unfold intro: trans)
  qed (simp add: ingest_one_def refl)
qed

lemma batch: "keeps R (ingest_batch env t rds)"
proof (rule keepsI)
  fix st
  show "R st (snd (ingest_batch env t rds st))"
  proof (cases "map_res (normalize (ie_float_text env)) rds")
    case (Inr ns)
    obtain nls k st1 where adm: "admit env t ns st = ((nls, k), st1)" by (metis prod.exhaust)
    obtain rows st2 where ins: "insert_batch env t nls st1 = (rows, st2)" by (metis prod.exhaust)
    let ?st3 = "fold (touch_device env t) (remdups (map rd_device_id nls)) st2"
    have "same_core st st1" "same_core st1 st2"
      using core_admit [of st env t ns] core_insert_batch [of st1 env t nls] by (simp_all add: adm ins)
    then have start: "R st ?st3" using core_touch core_trans by (blast intro: rows)
    have "keeps R (run_then (each (\<lambda>(rd, row). enrich_read env t rd (sr_id row)) (zip nls rows)) (\<lambda>_. Steps.give (length rows, k)))"
      by (intro run_then each give) (auto intro: enrich)
    from keepsD [OF this] start show ?thesis
      by (auto simp: ingest_batch_def Inr adm ins intro: trans)
  qed (simp add: ingest_batch_def refl)
qed

lemma session: "keeps R m \<Longrightarrow> keeps R (in_session m)"
  by (auto simp: keeps_def in_session_def split: prod.split sum.split dest: rolled) (metis rolled snd_conv)+

lemma request: "R st (request_step token env t rq st)"
proof (cases rq)
  case (OneRead rd)
  have "keeps R (create_tag_read token env t rd)"
    unfolding create_tag_read_def by (rule session) (auto intro: one lift)
  then show ?thesis using OneRead by (simp add: keepsD)
next
  case (ManyReads rds)
  have "keeps R (create_tag_reads_batch token env t rds)"
    unfolding create_tag_reads_batch_def by (rule session) (auto intro: batch lift)
  then show ?thesis using ManyReads by (simp add: keepsD)
qed

end

section \<open>The clock window sorts a batch\<close>

definition same_reads :: "intake \<Rightarrow> intake \<Rightarrow> bool" where
  "same_reads st st' \<longleftrightarrow> in_reads st' = in_reads st \<and> in_dead_letters st' = in_dead_letters st"

lemmas elementary = asset_zone_seen_def observe_item_def create_item_def emit_def change_def publish_event_def record_observation_def

interpretation reads: intake_relation env same_reads for env
  by unfold_locales (auto simp: same_reads_def elementary Let_def split: option.split prod.split sum.split)

definition outside_window :: "ingest_env \<Rightarrow> tag_read \<Rightarrow> bool" where
  "outside_window env rd \<longleftrightarrow> rd_timestamp rd \<notin> {ie_now env - 86400000000 .. ie_now env + 300000000}"

definition rejection_of :: "ingest_env \<Rightarrow> uuid \<Rightarrow> tag_read \<Rightarrow> dead_letter_event" where
  "rejection_of env t rd =
     \<lparr>rj_tenant_id = t, rj_topic = ''tag_read.rejected_clock'',
      rj_payload = [(''device_id'', JStr (str_uuid (rd_device_id rd))), (''tag_id'', JStr (tag_text rd)),
        (''timestamp'', JStr (isoformat (rd_timestamp rd))), (''epc'', json_text (read_epc rd)), (''tid'', json_text (read_tid rd))],
      rj_error_message = (if rd_timestamp rd > ie_now env then ''event_in_future'' else ''event_too_old''),
      rj_status = ''rejected'', rj_source = ''tag_read_rejected''\<rparr>"

lemma window_reason:
  "check_clock_window (rd_timestamp rd) (ie_now env) =
     (if outside_window env rd then Some (if rd_timestamp rd > ie_now env then ''event_in_future'' else ''event_too_old'') else None)"
  by (auto simp: check_clock_window_def outside_window_def MAX_PAST_def MAX_FUTURE_def seconds_def Let_def)

lemma admit_spec:
  "admit env t rds st = ((nls, k), st') \<Longrightarrow>
     nls = filter (\<lambda>rd. \<not> (outside_window env rd \<and> ie_clock_enforce env)) rds \<and> k = length (filter (outside_window env) rds) \<and>
     in_reads st' = in_reads st \<and> in_dead_letters st' = in_dead_letters st @ map (rejection_of env t) (filter (outside_window env) rds)"
proof (induction rds arbitrary: st nls k st')
  case (Cons rd rds)
  show ?case
  proof (cases "outside_window env rd")
    case True
    let ?r = "if rd_timestamp rd > ie_now env then ''event_in_future'' else ''event_too_old''"
    obtain nls' k' st1 where rest: "admit env t rds (reject_read t rd ?r st) = ((nls', k'), st1)" by (metis prod.exhaust)
    have row: "in_dead_letters (reject_read t rd ?r st) = in_dead_letters st @ [rejection_of env t rd]" "in_reads (reject_read t rd ?r st) = in_reads st"
      by (simp_all add: reject_read_def record_rejection_def rejection_of_def Let_def)
    show ?thesis using Cons.prems Cons.IH [OF rest] True by (auto simp: window_reason rest row Let_def split: if_splits)
  next
    case False
    obtain nls' k' st1 where rest: "admit env t rds st = ((nls', k'), st1)" by (metis prod.exhaust)
    show ?thesis using Cons.prems Cons.IH [OF rest] False by (auto simp: window_reason rest Let_def)
  qed
qed simp

lemma insert_batch_spec:
  "insert_batch env t rds st = (rows, st') \<Longrightarrow>
     in_reads st' = in_reads st @ rows \<and> in_dead_letters st' = in_dead_letters st \<and> length rows = length rds \<and>
     map sr_read rows = map (\<lambda>rd. rd\<lparr>rd_tag_id := Some (tag_text rd)\<rparr>) rds \<and> (\<forall>row \<in> set rows. sr_tenant_id row = t)"
proof (induction rds arbitrary: st rows st')
  case (Cons rd rds)
  obtain row st1 where one: "insert_read env t rd st = (row, st1)" by fastforce
  obtain rows' st2 where rest: "insert_batch env t rds st1 = (rows', st2)" by fastforce
  have "in_reads st1 = in_reads st @ [row] \<and> in_dead_letters st1 = in_dead_letters st \<and> sr_read row = rd\<lparr>rd_tag_id := Some (tag_text rd)\<rparr> \<and> sr_tenant_id row = t"
    using one by (auto simp: insert_read_def Let_def)
  then show ?case using Cons.prems Cons.IH [OF rest] by (auto simp: one rest)
qed auto

lemma touch_same: "same_reads st (fold (touch_device env t) ds st)"
  by (induction ds arbitrary: st) (simp_all add: same_reads_def touch_device_def)

text \<open>C26: a batch that is answered has stored, in order and for the tenant, exactly its normalised reads inside the clock
  window when the window is enforced, and all of its normalised reads when it is only observed; in both modes it has
  a dead letter with its reason for each read outside and returns the two numbers.  A batch that fails has stored and
  dead-lettered nothing.\<close>

theorem batch_is_sorted_out:
  "case create_tag_reads_batch token env t rds st of
     (Inl e, st') \<Rightarrow> in_reads st' = in_reads st \<and> in_dead_letters st' = in_dead_letters st
   | (Inr (n, r), st') \<Rightarrow> (\<exists>ns rows. map_res (normalize (ie_float_text env)) rds = Inr ns \<and>
       in_reads st' = in_reads st @ rows \<and> list_all (\<lambda>row. sr_tenant_id row = t) rows \<and>
       map sr_read rows = map (\<lambda>rd. rd\<lparr>rd_tag_id := Some (tag_text rd)\<rparr>)
         (filter (\<lambda>rd. \<not> (outside_window env rd \<and> ie_clock_enforce env)) ns) \<and>
       in_dead_letters st' = in_dead_letters st @ map (rejection_of env t) (filter (outside_window env) ns) \<and>
       n = length rows \<and> r = length (filter (outside_window env) ns))"
proof (cases "create_tag_reads_batch token env t rds st")
  case (Pair res st')
  show ?thesis
  proof (cases res)
    case (Inl e)
    then show ?thesis using Pair by (auto simp: create_tag_reads_batch_def in_session_def rollback_def split: prod.splits sum.splits)
  next
    case (Inr nr)
    obtain n r where nr: "nr = (n, r)" by fastforce
    have run: "ingest_batch env t rds st = (Inr (n, r), st')"
      using Pair Inr nr by (auto simp: create_tag_reads_batch_def in_session_def lift_res_def split: prod.splits sum.splits if_splits)
    then obtain ns where ns: "map_res (normalize (ie_float_text env)) rds = Inr ns"
      by (auto simp: ingest_batch_def split: sum.splits)
    obtain nls k st1 where adm: "admit env t ns st = ((nls, k), st1)" by (metis prod.exhaust)
    obtain rows st2 where ins: "insert_batch env t nls st1 = (rows, st2)" by fastforce
    let ?st3 = "fold (touch_device env t) (remdups (map rd_device_id nls)) st2"
    let ?go = "run_then (each (\<lambda>(rd, row). enrich_read env t rd (sr_id row)) (zip nls rows)) (\<lambda>_. give (length rows, k))"
    have stays: "keeps same_reads ?go"
      by (intro reads.run_then reads.each reads.give) (auto intro: reads.enrich)
    have go: "?go ?st3 = (Inr (n, r), st')" using run by (simp add: ingest_batch_def ns adm ins)
    then have "same_reads ?st3 st'" using keepsD [OF stays, of ?st3] by simp
    then have same: "in_reads st' = in_reads st2" "in_dead_letters st' = in_dead_letters st2"
      using touch_same [of st2 env t "remdups (map rd_device_id nls)"] by (simp_all add: same_reads_def)
    have "(n, r) = (length rows, k)" using go by (auto simp: run_then_def give_def split: prod.splits sum.splits)
    moreover note admit_spec [OF adm] insert_batch_spec [OF ins]
    ultimately show ?thesis
      unfolding Pair Inr nr prod.case sum.case same by (intro exI [of _ ns] exI [of _ rows]) (simp add: ns list_all_iff)
  qed
qed

section \<open>Requests that fail\<close>

lemma merge_keys:
  "merge_numerics d merged = Inr out \<Longrightarrow> set (dict_keys merged) \<subseteq> set (dict_keys out) \<and>
     {k. \<exists>v. (k, v) \<in> set d \<and> \<not> starts_with k ''_'' \<and> k \<notin> NON_TELEMETRY_SENSOR_KEYS \<and> json_number v} \<subseteq> set (dict_keys out)"
proof (induction d merged rule: merge_numerics.induct)
  case (2 k v items merged)
  show ?case
  proof (cases "starts_with k ''_'' \<or> k \<in> NON_TELEMETRY_SENSOR_KEYS \<or> \<not> json_number v")
    case True
    then show ?thesis using 2(1) [OF True] 2(3) by auto
  next
    case False
    then obtain x where x: "to_float v = Inr x" "merge_numerics items (dict_set k x merged) = Inr out"
      using 2(3) by (auto simp: and_then_def split: sum.splits)
    then show ?thesis using 2(2) [OF False x(2)] by (auto simp: keys_set simp del: set_map)
  qed
qed simp

lemma long_key_fails:
  assumes "(k, v) \<in> set (blob (rd_sensor_data rd))" and "\<not> starts_with k ''_''" and "json_number v" and "100 < length k"
  shows "isl (fst (enrich_read env t rd n st))"
proof -
  have "isl (fst (mirror_tag_borne_sensors env t rd n st'))" for st'
  proof (cases "numeric_items rd")
    case (Inl e)
    then show ?thesis by (simp add: mirror_tag_borne_sensors_def run_then_def lift_res_def)
  next
    case (Inr items)
    then obtain merged where one: "merge_numerics (blob (rd_sensor_data rd)) [] = Inr merged" "merge_numerics (blob (rd_tag_data rd)) merged = Inr items"
      by (auto simp: numeric_items_def and_then_def split: sum.splits)
    have "k \<notin> NON_TELEMETRY_SENSOR_KEYS" using assms(4) by (auto simp: NON_TELEMETRY_SENSOR_KEYS_def)
    then have "k \<in> set (dict_keys items)"
      using merge_keys [OF one(1)] merge_keys [OF one(2)] assms by blast
    then obtain x where x: "(k, x) \<in> set items" by auto
    have "isl (fst (each (mirror_to_device env t rd pr) items st''))" for pr st''
      by (rule each_fails [OF x]) (use assms(4) in \<open>simp add: mirror_to_device_def\<close>)
    then show ?thesis using x
      by (auto simp: mirror_tag_borne_sensors_def Inr lift_res_def run_then_def [of "lift_res _"] Let_def intro!: run_then_fails)
  qed
  then show ?thesis unfolding enrich_read_def by (intro run_then_fails disjI1)
qed

lemma normalize_keeps: "normalize rep rd = Inr n \<Longrightarrow> rd_sensor_data n = rd_sensor_data rd \<and> rd_timestamp n = rd_timestamp rd"
  by (auto simp: normalize_def and_then_def split: sum.splits)

text \<open>One numeric sensor value under a name of more than 100 characters, in a read that the clock window lets in,
  makes the whole batch fail: no read of it is stored.\<close>

theorem one_long_name_spoils_batch:
  assumes "rd \<in> set rds" and "rd_sensor_data rd = Some d" and "(k, v) \<in> set d" and "json_number v"
    and "\<not> starts_with k ''_''" and "100 < length k" and "\<not> outside_window env rd"
  shows "\<exists>e st'. create_tag_reads_batch token env t rds st = (Inl e, st') \<and> in_reads st' = in_reads st"
proof -
  have "isl (fst (ingest_batch env t rds st))"
  proof (cases "map_res (normalize (ie_float_text env)) rds")
    case (Inr ns)
    then obtain i where i: "i < length rds" "rds ! i = rd" "normalize (ie_float_text env) rd = Inr (ns ! i)" "i < length ns"
      using assms(1) map_res_nth map_res_length by (metis in_set_conv_nth)
    let ?n = "ns ! i"
    obtain nls j st1 where adm: "admit env t ns st = ((nls, j), st1)" by (metis prod.exhaust)
    obtain rows st2 where ins: "insert_batch env t nls st1 = (rows, st2)" by fastforce
    have same: "rd_sensor_data ?n = Some d" "\<not> outside_window env ?n"
      using normalize_keeps [OF i(3)] assms(2,7) by (simp_all add: outside_window_def)
    then have "?n \<in> set nls" using admit_spec [OF adm] i(4) by auto
    then obtain row where row: "(?n, row) \<in> set (zip nls rows)"
      using insert_batch_spec [OF ins] by (metis in_set_impl_in_set_zip1)
    have "isl (fst (enrich_read env t ?n m st'))" for m st'
      by (rule long_key_fails [of k v]) (use same assms(3-6) in \<open>auto simp: blob_def\<close>)
    then have "isl (fst (each (\<lambda>(rd, row). enrich_read env t rd (sr_id row)) (zip nls rows) st'))" for st'
      by (intro each_fails [OF row]) simp
    then show ?thesis by (simp add: ingest_batch_def Inr adm ins run_then_fails)
  qed (simp add: ingest_batch_def)
  then show ?thesis
    by (auto simp: create_tag_reads_batch_def in_session_def lift_res_def rollback_def isl_def split: prod.split sum.split)
qed

definition long_read :: tag_read where
  "long_read = \<lparr>rd_device_id = 7, rd_tag_id = Some ''a'', rd_timestamp = 0, rd_signal_strength = None,
     rd_sensor_data = Some [(replicate 101 (CHR ''m''), JInt 21)], rd_location = None, rd_identity = None, rd_tag_data = None,
     rd_reader_antenna = None\<rparr>"

definition quiet_env :: ingest_env where
  "quiet_env = \<lparr>ie_now = 0, ie_monotonic = 0, ie_uuid4 = of_nat, ie_backfill = False, ie_clock_enforce = True,
     ie_geofence_evaluation_enabled = False, ie_float_text = (\<lambda>_. 3), ie_bindings = [], ie_zones = [], ie_models = [], ie_tags = [],
     ie_tracking_modes = [], ie_subject_kinds = []\<rparr>"

definition fresh_intake :: "inventory \<Rightarrow> intake" where
  "fresh_intake db = \<lparr>in_reads = [], in_dead_letters = [], in_devices = [],
     in_telemetry = \<lparr>td_readings = [], td_quarantine = [], td_events = []\<rparr>, in_inventory = db, in_meter = new_meter,
     in_caches = no_caches, in_fresh = 0\<rparr>"

theorem one_long_name_spoils_batch_witness:
  "\<exists>e st'. create_tag_reads_batch None quiet_env 1 [long_read] (fresh_intake empty_inventory) = (Inl e, st') \<and> in_reads st' = []"
  using one_long_name_spoils_batch [of long_read "[long_read]" "[(replicate 101 (CHR ''m''), JInt 21)]" "replicate 101 (CHR ''m'')"
      "JInt 21" quiet_env None 1 "fresh_intake empty_inventory"]
  by (simp add: long_read_def quiet_env_def fresh_intake_def json_number_def outside_window_def starts_with_def)

text \<open>A single read outside the window, when the window is enforced, is answered by an error and leaves no trace in
  the database, not even the dead letter written for it; only the meter has counted it.\<close>

theorem rejected_read_leaves_no_dead_letter:
  assumes "normalize (ie_float_text env) rd = Inr n" and "outside_window env rd" and "ie_clock_enforce env"
    and "enforce_device_ingest token [rd_device_id rd] (ie_backfill env)"
  shows "\<exists>e st'. create_tag_read token env t rd st = (Inl e, st') \<and> in_dead_letters st' = in_dead_letters st \<and> in_reads st' = in_reads st \<and>
    buffered (um_buffer (in_meter st')) (t, ''events_rejected_clock'', ''events'') =
      buffered (um_buffer (in_meter st)) (t, ''events_rejected_clock'', ''events'') + 1"
proof -
  have "outside_window env n" using normalize_keeps [OF assms(1)] assms(2) by (simp add: outside_window_def)
  then obtain r where r: "check_clock_window (rd_timestamp n) (ie_now env) = Some r" by (simp add: window_reason)
  have "ingest_one env t rd st = (Inl (clock_rejection r), reject_read t n r st)"
    using assms(1,3) by (simp add: ingest_one_def r)
  then show ?thesis
    using assms(4) by (simp add: create_tag_read_def in_session_def rollback_def reject_read_def record_rejection_def record_usage_def
        add_count_def buffered_def Let_def)
qed

theorem rejected_read_leaves_no_dead_letter_witness:
  "\<exists>e st'. create_tag_read None quiet_env 1 (long_read\<lparr>rd_timestamp := 400000000\<rparr>) (fresh_intake empty_inventory) = (Inl e, st') \<and> in_dead_letters st' = []"
proof -
  have "normalize (ie_float_text quiet_env) (long_read\<lparr>rd_timestamp := 400000000\<rparr>) = Inr (long_read\<lparr>rd_timestamp := 400000000\<rparr>)"
    by (simp add: normalize_def normalize_identity_def long_read_def and_then_def effective_tag_id_def text_or_def nonempty_def cap_tag_data_def)
  then show ?thesis
    using rejected_read_leaves_no_dead_letter [of quiet_env "long_read\<lparr>rd_timestamp := 400000000\<rparr>" "long_read\<lparr>rd_timestamp := 400000000\<rparr>"
        None 1 "fresh_intake empty_inventory"]
    by (auto simp: quiet_env_def outside_window_def enforce_device_ingest_def fresh_intake_def)
qed

section \<open>Backfills\<close>

definition publishes_marked :: "ingest_env \<Rightarrow> intake \<Rightarrow> intake \<Rightarrow> bool" where
  "publishes_marked env st st' \<longleftrightarrow>
     (\<exists>es. td_events (in_telemetry st') = td_events (in_telemetry st) @ es \<and> (\<forall>e \<in> set es. marked_as env e))"

lemma publishes_none: "in_telemetry st' = in_telemetry st \<Longrightarrow> publishes_marked env st st'"
  by (simp add: publishes_marked_def)

lemma publishes_trans: "publishes_marked env a b \<Longrightarrow> publishes_marked env b c \<Longrightarrow> publishes_marked env a c"
  unfolding publishes_marked_def by (metis append.assoc Un_iff set_append)

lemma observed_quiet: "in_telemetry (snd (observe_item env t i z rd st)) = in_telemetry st"
  by (auto simp: observe_item_def Let_def split: option.split prod.split sum.split)

lemma created_quiet: "in_telemetry (snd (create_item env t p l epc st)) = in_telemetry st"
  by (auto simp: create_item_def split: prod.split sum.split)

interpretation backfill: request_relation env "publishes_marked env" for env
proof unfold_locales
  fix st s1 s2 s3 :: intake
  show "publishes_marked env st st" by (rule publishes_none) simp
  show "publishes_marked env s1 s2 \<Longrightarrow> publishes_marked env s2 s3 \<Longrightarrow> publishes_marked env s1 s3" by (rule publishes_trans)
next
  fix c :: caches and st :: intake show "publishes_marked env st (st\<lparr>in_caches := c\<rparr>)" by (rule publishes_none) simp
next
  fix tdb :: telemetry_db and st :: intake and es
  assume "td_events tdb = td_events (in_telemetry st) @ es" "\<forall>e \<in> set es. side_event env e"
  then show "publishes_marked env st (st\<lparr>in_telemetry := tdb\<rparr>)" by (auto simp: publishes_marked_def side_event_def)
next
  fix t a z rd i and st :: intake
  have "marked_as env \<lparr>ev_topic = SUBJECT_ZONE_CHANGED, ev_timestamp = ie_now env,
      ev_payload = event_payload env (zone_changed_payload t ''asset'' a ''reader_bound'' p z rd i [])\<rparr>" for p
    by (simp add: marked_as_def from_telemetry_service_def)
  then show "publishes_marked env st (snd (asset_zone_seen env t a z rd i st))"
    by (auto simp: asset_zone_seen_def Let_def emit_def change_def publish_event_def publishes_marked_def)
next
  fix t a z rd st show "publishes_marked env st (snd (observe_item env t a z rd st))" by (rule publishes_none) (rule observed_quiet)
next
  fix t p l epc st show "publishes_marked env st (snd (create_item env t p l epc st))" by (rule publishes_none) (rule created_quiet)
next
  fix st st' :: intake assume "same_core st st'" then show "publishes_marked env st st'" by (intro publishes_none) (simp add: same_core_def)
next
  fix st st' :: intake assume "publishes_marked env st st'" then show "publishes_marked env st (rollback st st')"
    by (simp add: publishes_marked_def rollback_def)
qed

text \<open>C27: of what a backfill request publishes, everything but the device telemetry is marked, and the handlers of the
  rule engine ignore it: they raise no alert and change nothing.  The device telemetry is not marked, so the rules on
  it see replayed readings.\<close>

theorem backfill_raises_no_alerts:
  assumes "ie_backfill env"
  shows "\<exists>es. td_events (in_telemetry (request_step token env t rq st)) = td_events (in_telemetry st) @ es \<and>
    (\<forall>e \<in> set es. if from_telemetry_service e then \<not> truthy (jget (ev_payload e) ''backfill'')
       else on_tag_read eenv (ev_payload e) est = (None, est) \<and> on_subject_zone_changed eenv (ev_payload e) est = (None, est) \<and>
            on_telemetry_recorded eenv (ev_payload e) est = (None, est))"
proof -
  obtain es where es: "td_events (in_telemetry (request_step token env t rq st)) = td_events (in_telemetry st) @ es"
      "\<forall>e \<in> set es. marked_as env e"
    using backfill.request [of env st token t rq] by (auto simp: publishes_marked_def)
  have "\<forall>e \<in> set es. if from_telemetry_service e then \<not> truthy (jget (ev_payload e) ''backfill'')
       else on_tag_read eenv (ev_payload e) est = (None, est) \<and> on_subject_zone_changed eenv (ev_payload e) est = (None, est) \<and>
            on_telemetry_recorded eenv (ev_payload e) est = (None, est)"
    using es(2) assms by (auto simp: marked_as_def on_tag_read_def on_subject_zone_changed_def on_telemetry_recorded_def)
  then show ?thesis using es(1) by blast
qed

section \<open>The zones of an asset\<close>

text \<open>Where the bus says that an asset was and where it went.\<close>

definition asset_moves :: "uuid \<Rightarrow> uuid \<Rightarrow> intake \<Rightarrow> (json \<times> json) list" where
  "asset_moves t a st = map (\<lambda>e. (jget (ev_payload e) ''from_zone_id'', jget (ev_payload e) ''to_zone_id''))
     (filter (\<lambda>e. asset_move e \<and> jget (ev_payload e) ''tenant_id'' = JStr (str_uuid t) \<and>
        jget (ev_payload e) ''subject_id'' = JStr (str_uuid a)) (td_events (in_telemetry st)))"

fun linked :: "('z \<times> 'z) list \<Rightarrow> bool" where
  "linked (x # y # xs) \<longleftrightarrow> snd x = fst y \<and> linked (y # xs)"
| "linked _ \<longleftrightarrow> True"

lemma linked_snoc: "linked (xs @ [y]) \<longleftrightarrow> linked xs \<and> (xs \<noteq> [] \<longrightarrow> snd (last xs) = fst y)"
  by (induction xs rule: linked.induct) auto

lemma json_uuid_inj [simp]: "json_uuid a = json_uuid b \<longleftrightarrow> a = b"
  by (auto simp: json_uuid_def split: option.splits)

text \<open>Every key has a linked list of moves, and where there are moves the map holds the end of the last one.\<close>

definition chained :: "('k \<Rightarrow> ('z \<times> 'z) list) \<Rightarrow> ('k \<Rightarrow> 'z option) \<Rightarrow> bool" where
  "chained ms at_end \<longleftrightarrow> (\<forall>k. linked (ms k) \<and> (\<forall>m \<in> set (ms k). fst m \<noteq> snd m) \<and> (ms k \<noteq> [] \<longrightarrow> at_end k = Some (snd (last (ms k)))))"

lemma chained_seed: "chained ms e \<Longrightarrow> e k = None \<Longrightarrow> chained ms (e(k \<mapsto> z))"
  by (auto simp: chained_def)

lemma chained_move: "chained ms e \<Longrightarrow> e k = Some p \<Longrightarrow> p \<noteq> z \<Longrightarrow> chained (ms(k := ms k @ [(p, z)])) (e(k \<mapsto> z))"
  by (auto simp: chained_def linked_snoc)

lemma chainedD: "chained ms e \<Longrightarrow> linked (ms k) \<and> (\<forall>m \<in> set (ms k). fst m \<noteq> snd m)"
  by (simp add: chained_def)

text \<open>While no entry of the zone cache has been evicted, it holds the end of each asset's chain.\<close>

definition asset_ends :: "intake \<Rightarrow> uuid \<times> uuid \<Rightarrow> json option" where
  "asset_ends st k = map_option json_uuid (map_of (ca_zone_asset (in_caches st)) k)"

definition asset_chain :: "intake \<Rightarrow> bool" where
  "asset_chain st \<longleftrightarrow> wf_dict (ca_zone_asset (in_caches st)) \<and>
     (length (ca_zone_asset (in_caches st)) < ZONE_CACHE_MAX \<longrightarrow> chained (\<lambda>(t, a). asset_moves t a st) (asset_ends st))"

lemma asset_moves_same:
  "td_events (in_telemetry st') = td_events (in_telemetry st) @ es \<Longrightarrow> \<forall>e \<in> set es. \<not> asset_move e \<Longrightarrow> asset_moves t a st' = asset_moves t a st"
  by (auto simp: asset_moves_def filter_empty_conv)

lemma asset_chain_same:
  assumes "asset_chain st" and "ca_zone_asset (in_caches st') = ca_zone_asset (in_caches st)"
    and "td_events (in_telemetry st') = td_events (in_telemetry st) @ es" and "\<forall>e \<in> set es. \<not> asset_move e"
  shows "asset_chain st'"
  using assms(1) asset_moves_same [OF assms(3,4)] by (simp add: asset_chain_def asset_ends_def [abs_def] assms(2))

lemma length_bounded_grows: "wf_dict d \<Longrightarrow> 0 < m \<Longrightarrow> length (bounded_set m k v d) < m \<Longrightarrow> length d < m"
  by (rule ccontr) (auto simp: bounded_set_def Let_def length_set not_less dest: length_pop_first split: list.splits if_splits)

lemma asset_seen_chain:
  assumes "asset_chain st"
  shows "asset_chain (snd (asset_zone_seen env t a z rd i st))"
proof -
  let ?cache = "ca_zone_asset (in_caches st)" and ?k = "(t, a)"
  let ?cache' = "bounded_set ZONE_CACHE_MAX ?k z ?cache"
  let ?st' = "st\<lparr>in_caches := (in_caches st)\<lparr>ca_zone_asset := ?cache'\<rparr>\<rparr>"
  let ?p = "zone_changed_payload t ''asset'' a ''reader_bound'' (last_zone ?cache ?k) z rd i []"
  let ?st'' = "snd (emit SUBJECT_ZONE_CHANGED (ie_now env) (event_payload env ?p) ?st')"
  have wf: "wf_dict ?cache" "wf_dict ?cache'" using assms by (auto simp: asset_chain_def)
  have grow: "length ?cache < ZONE_CACHE_MAX" if "length ?cache' < ZONE_CACHE_MAX"
    using length_bounded_grows [OF wf(1) _ that] by (simp add: ZONE_CACHE_MAX_def)
  have old: "chained (\<lambda>(t, a). asset_moves t a st) (asset_ends st)" if "length ?cache' < ZONE_CACHE_MAX"
    using assms grow [OF that] by (simp add: asset_chain_def)
  have ends: "asset_ends st'' = (asset_ends st)(?k \<mapsto> json_uuid z)"
    if "length ?cache' < ZONE_CACHE_MAX" "ca_zone_asset (in_caches st'') = ?cache'" for st''
    by (rule ext) (simp del: map_of_eq_Some_iff add: asset_ends_def that(2) map_of_bounded_set_room [OF grow [OF that(1)]])
  have caches: "ca_zone_asset (in_caches (snd (emit tp ts pl ?st'))) = ?cache'" for tp ts pl by (simp add: emit_def change_def)
  have loud: "(\<lambda>(t', a'). asset_moves t' a' ?st'') =
      (\<lambda>(t', a'). asset_moves t' a' st)(?k := asset_moves t a st @ [(json_uuid (last_zone ?cache ?k), json_uuid z)])"
    by (rule ext) (auto simp: asset_moves_def emit_def change_def publish_event_def asset_move_def split: if_splits)
  show ?thesis
  proof (cases "map_of ?cache ?k")
    case None
    have "(\<lambda>(t, a). asset_moves t a ?st') = (\<lambda>(t, a). asset_moves t a st)" by (simp add: asset_moves_def)
    then have "asset_chain ?st'" using wf chained_seed [OF old, of ?k] None by (simp add: asset_chain_def ends asset_ends_def)
    then show ?thesis using None by (simp add: asset_zone_seen_def Let_def map_of_eq_None_iff)
  next
    case (Some p)
    then have k: "?k \<in> set (dict_keys ?cache)" "last_zone ?cache ?k = p" by (auto simp: last_zone_def dest!: map_of_SomeD intro: rev_image_eqI)
    have "asset_chain ?st''" if "z \<noteq> p"
      unfolding asset_chain_def loud using wf chained_move [OF old, of ?k] Some k that
      by (simp del: map_of_eq_Some_iff add: caches ends [OF _ caches] asset_ends_def)
    then show ?thesis using k assms by (cases "z = p") (simp_all add: asset_zone_seen_def Let_def)
  qed
qed

lemma observed_asset_caches: "ca_zone_asset (in_caches (snd (observe_item env t i z rd st))) = ca_zone_asset (in_caches st)"
  by (auto simp: observe_item_def Let_def split: option.split prod.split sum.split)

lemma created_caches: "in_caches (snd (create_item env t p l epc st)) = in_caches st"
  by (auto simp: create_item_def split: prod.split sum.split)

interpretation asset_chain: request_relation env "\<lambda>st st'. asset_chain st \<longrightarrow> asset_chain st'" for env
proof (unfold_locales, goal_cases)
  case (3 c st) then show ?case using asset_chain_same [where es = "[]"] by auto
next
  case (4 tdb st es) then show ?case using asset_chain_same [where es = es] by (auto simp: side_event_def)
next
  case 5 then show ?case using asset_seen_chain by blast
next
  case 6 then show ?case using asset_chain_same [where es = "[]"] by (simp add: observed_quiet observed_asset_caches)
next
  case 7 then show ?case using asset_chain_same [where es = "[]"] by (simp add: created_quiet created_caches)
next
  case 8 then show ?case using asset_chain_same [where es = "[]"] by (auto simp: same_core_def)
next
  case (9 st st')
  then show ?case using asset_chain_same [of st' "rollback st st'" "[]"] by (auto simp: rollback_def)
qed auto

text \<open>Whatever requests are served, answered or failed, in whatever order, from a fresh process on: while the zone
  cache has room, the reader-bound zone changes published for an asset form a chain, each beginning in the zone where
  the one before ended, and none of them stays where it is.\<close>

theorem asset_moves_form_a_chain:
  assumes "length (ca_zone_asset (in_caches (serve requests (fresh_intake db)))) < 10000"
  shows "linked (asset_moves t a (serve requests (fresh_intake db))) \<and>
    (\<forall>m \<in> set (asset_moves t a (serve requests (fresh_intake db))). fst m \<noteq> snd m)"
proof -
  have "asset_chain st \<Longrightarrow> asset_chain (serve requests st)" for st
    by (induction requests arbitrary: st) (auto simp: serve_def intro: asset_chain.request [rule_format])
  moreover have "asset_chain (fresh_intake db)"
    by (simp add: asset_chain_def chained_def fresh_intake_def no_caches_def asset_moves_def)
  ultimately have "asset_chain (serve requests (fresh_intake db))" .
  then show ?thesis using assms chainedD [of _ _ "(t, a)"] by (fastforce simp: asset_chain_def ZONE_CACHE_MAX_def)
qed

text \<open>One tag read in turn by the readers of two zones.\<close>

definition plain_read :: "uuid \<Rightarrow> tag_read" where
  "plain_read device = \<lparr>rd_device_id = device, rd_tag_id = Some ''a'', rd_timestamp = 0, rd_signal_strength = None,
     rd_sensor_data = None, rd_location = None, rd_identity = None, rd_tag_data = None, rd_reader_antenna = None\<rparr>"

definition two_zones :: ingest_env where
  "two_zones = quiet_env\<lparr>ie_bindings := [\<lparr>bd_tenant_id = 1, bd_asset_id = 5, bd_value = ''a'', bd_kind = ''device'', bd_unbound_at = None\<rparr>],
     ie_zones := map (\<lambda>(z, d). \<lparr>zr_id = z, zr_tenant_id = 1, zr_site_id = 2, zr_kind = ''reader_bound'', zr_created_at = 0,
       zr_fixed_reader_ids = Some [str_uuid d], zr_polygon_geojson = JNull, zr_bbox = (None, None, None, None)\<rparr>) [(20, 7), (21, 8)]\<rparr>"

definition walk :: "(uuid option \<times> ingest_env \<times> uuid \<times> request) list" where
  "walk = map (\<lambda>d. (None, two_zones, 1, OneRead (plain_read d))) [7, 8, 8, 7]"


lemmas service_defs = create_tag_read_def in_session_def ingest_one_def run_then_def give_def lift_res_def change_def emit_def
  enrich_read_def mirror_tag_borne_sensors_def numeric_items_def blob_def enrich_with_asset_zone_def enrich_with_inventory_def
  enforce_device_ingest_def normalize_def normalize_identity_def cap_tag_data_def and_then_def check_clock_window_def MAX_PAST_def MAX_FUTURE_def
  seconds_def insert_read_def touch_device_def identifiers_def read_epc_def read_tid_def tag_text_def nonempty_def binding_of_def get_active_by_value_def
  scalar_one_or_none_def lookup_device_mobility_def device_get_def record_connection_state_def record_last_seen_def eval_geofence_for_subject_def
  asset_zone_seen_def get_zone_for_reader_def last_zone_def effective_tag_id_def text_or_def bounded_set_def
  ZONE_CACHE_MAX_def BINDING_CACHE_MAX_def MOBILITY_CACHE_MAX_def publish_event_def Let_def

theorem asset_moves_form_a_chain_witness:
  "linked (asset_moves 1 5 (serve walk (fresh_intake empty_inventory))) \<and>
   asset_moves 1 5 (serve walk (fresh_intake empty_inventory)) = [(JStr (str_uuid 20), JStr (str_uuid 21)), (JStr (str_uuid 21), JStr (str_uuid 20))]"
proof
  have "length (ca_zone_asset (in_caches (serve walk (fresh_intake empty_inventory)))) = 1"
    by (simp add: serve_def walk_def two_zones_def quiet_env_def plain_read_def fresh_intake_def no_caches_def service_defs)
  then show "linked (asset_moves 1 5 (serve walk (fresh_intake empty_inventory)))"
    using asset_moves_form_a_chain [of walk empty_inventory 1 5] by simp
  show "asset_moves 1 5 (serve walk (fresh_intake empty_inventory)) = [(JStr (str_uuid 20), JStr (str_uuid 21)), (JStr (str_uuid 21), JStr (str_uuid 20))]"
    by (simp add: asset_moves_def asset_move_def json_uuid_def serve_def walk_def two_zones_def quiet_env_def plain_read_def fresh_intake_def
        no_caches_def service_defs)
qed

text \<open>A backfilled read of a weak signal is stored and announced, and the rule on weak signals lets it pass.\<close>

theorem backfill_raises_no_alerts_witness:
  "\<exists>e. td_events (in_telemetry (request_step None (quiet_env\<lparr>ie_backfill := True\<rparr>) 1
       (OneRead ((plain_read 2)\<lparr>rd_signal_strength := Some (Fin (- 60))\<rparr>)) (fresh_intake empty_inventory))) = [e] \<and>
     ev_topic e = TAG_READ_CREATED \<and> jget (ev_payload e) ''signal_strength'' = JFloat (Fin (- 60)) \<and>
     on_tag_read (demo_env threshold_rule 0) (ev_payload e) quiet = (None, quiet)"
proof -
  let ?env = "quiet_env\<lparr>ie_backfill := True\<rparr>" and ?read = "(plain_read 2)\<lparr>rd_signal_strength := Some (Fin (- 60))\<rparr>"
  obtain e where e: "td_events (in_telemetry (request_step None ?env 1 (OneRead ?read) (fresh_intake empty_inventory))) = [e]"
    and topic: "ev_topic e = TAG_READ_CREATED" and signal: "jget (ev_payload e) ''signal_strength'' = JFloat (Fin (- 60))"
    by (simp add: quiet_env_def plain_read_def fresh_intake_def no_caches_def service_defs event_payload_def created_payload_def json_float_def jget_def)
  have "\<not> from_telemetry_service e" using topic by (simp add: from_telemetry_service_def)
  then have "on_tag_read (demo_env threshold_rule 0) (ev_payload e) quiet = (None, quiet)"
    using backfill_raises_no_alerts [of ?env None 1 "OneRead ?read" "fresh_intake empty_inventory" "demo_env threshold_rule 0" quiet] e
    by (auto simp: fresh_intake_def split: if_splits)
  with e topic signal show ?thesis by blast
qed

section \<open>The ledger of an item\<close>






























section \<open>A product that is gone\<close>

text \<open>The product of a GTIN stays in the cache when the product is deleted.  The next new item of that GTIN violates a
  foreign key, which the code takes for a race; its second look-up then meets a session that must be rolled back.\<close>

theorem deleted_product_fails_reads:
  assumes "rd_identity rd = Some i" and "id_epc i = Some epc" and "gtin14_from_decoded (id_epc_decoded i) = Inr (Some g)"
    and "map_of (ca_modes (in_caches st)) t = Some modes" and "''inventory'' \<in> set modes"
    and "map_of (ca_gtin (in_caches st)) (t, g) = Some (Some p)" and "p \<notin> p_id ` set (products (in_inventory st))"
    and "get_active_by_binding t ''epc'' epc (in_inventory st) = Inr None" and "registered_tag env t (id_epc_hex i) = Inr True"
    and "infer_lot_id (ie_now env) t p (rd_tag_data rd) (in_inventory st) = Inr lot_id"
  shows "fst (enrich_with_inventory env t rd n st) = Inl (OtherError ''PendingRollbackError'')"
proof -
  have "stock_create j now t \<lparr>sc_product_id = p, sc_lot_id = l, sc_parent_id = None, sc_binding_value = b, sc_binding_kind = k, sc_metadata = None\<rparr>
      (in_inventory st) \<in> range Inl" for j now l b k
    using assms(7) by (auto simp: stock_create_def item_fits_def ref_ok_def Let_def)
  then obtain e where "stock_create (ie_uuid4 env (in_fresh st)) (ie_now env) t
      \<lparr>sc_product_id = p, sc_lot_id = lot_id, sc_parent_id = None, sc_binding_value = epc, sc_binding_kind = ''epc'', sc_metadata = None\<rparr>
      (in_inventory st) = Inl e" by blast
  then show ?thesis
    using assms by (simp add: enrich_with_inventory_def run_then_def lift_res_def tenant_has_inventory_mode_def lookup_product_id_by_gtin_def
        find_or_create_item_def auto_create_def create_item_def del: map_of_eq_Some_iff)
qed

end
