(* ===== verification/MqttLaws.thy ===== *)
theory MqttLaws
  imports Mqtt IngestionLaws
begin

text \<open>
  What the subscriber guarantees.  A message only touches the reads and the presence of the device its topic names,
  a snapshot takes effect wholly or not at all, and the run of the loop is the fold of its messages; but some bad
  payloads leave no trace, a stale entry costs all of its message, and the location topic trusts the body.
\<close>

section \<open>A message stays with its topic\<close>

definition owned :: "uuid \<Rightarrow> uuid \<Rightarrow> subscriber \<Rightarrow> subscriber \<Rightarrow> bool" where
  "owned t d su su' \<longleftrightarrow>
     (\<exists>rows. in_reads (su_intake su') = in_reads (su_intake su) @ rows \<and>
        list_all (\<lambda>r. sr_tenant_id r = t \<and> rd_device_id (sr_read r) = d) rows) \<and>
     (\<exists>letters. in_dead_letters (su_intake su') = in_dead_letters (su_intake su) @ letters \<and>
        list_all (\<lambda>l. rj_tenant_id l = t) letters) \<and>
     (table_ok (su_presence su) \<longrightarrow> table_ok (su_presence su') \<and>
        (\<forall>t' d'. (t', d') \<noteq> (t, d) \<longrightarrow> present_set (su_presence su') t' d' = present_set (su_presence su) t' d'))"

lemma owned_refl: "owned t d su su"
  by (auto simp: owned_def)

lemma owned_trans: "owned t d a b \<Longrightarrow> owned t d b c \<Longrightarrow> owned t d a c"
  unfolding owned_def by (elim conjE exE, intro conjI) (fastforce+)

interpretation own: step_relation "owned t d" for t d
  by unfold_locales (auto intro: owned_refl owned_trans)

lemma owned_reads_kept:
  "in_reads (su_intake su') = in_reads (su_intake su) \<Longrightarrow> in_dead_letters (su_intake su') = in_dead_letters (su_intake su)
    \<Longrightarrow> su_presence su' = su_presence su \<Longrightarrow> owned t d su su'"
  by (auto simp: owned_def)

text \<open>One read brings its own row, whatever the enrichment does, and perhaps the dead letter of the clock window.\<close>

lemma normalize_device: "normalize rep rd = Inr n \<Longrightarrow> rd_device_id n = rd_device_id rd"
  by (auto simp: normalize_def and_then_def split: sum.splits)

lemma ingest_one_rows:
  assumes "ingest_one env t rd st = (r, st')"
  shows "(\<exists>rows. in_reads st' = in_reads st @ rows \<and>
        list_all (\<lambda>x. sr_tenant_id x = t \<and> rd_device_id (sr_read x) = rd_device_id rd \<and> rd_timestamp (sr_read x) = rd_timestamp rd) rows \<and>
        (\<forall>row. r = Inr row \<longrightarrow> rows = [row]))
    \<and> (\<exists>letters. in_dead_letters st' = in_dead_letters st @ letters \<and> list_all (\<lambda>l. rj_tenant_id l = t) letters)"
proof (cases "normalize (ie_float_text env) rd")
  case (Inr n)
  note same = normalize_device [OF Inr] normalize_keeps [OF Inr]
  let ?reason = "check_clock_window (rd_timestamp n) (ie_now env)"
  define st1 where "st1 = (case ?reason of None \<Rightarrow> st | Some q \<Rightarrow> reject_read t n q st)"
  have st1: "in_reads st1 = in_reads st \<and>
      (\<exists>letters. in_dead_letters st1 = in_dead_letters st @ letters \<and> list_all (\<lambda>l. rj_tenant_id l = t) letters)"
    by (auto simp: st1_def reject_read_def record_rejection_def Let_def split: option.split)
  show ?thesis
  proof (cases "?reason \<noteq> None \<and> ie_clock_enforce env")
    case True
    then have "r = Inl (clock_rejection (the ?reason)) \<and> st' = st1"
      using assms by (simp add: ingest_one_def Inr st1_def Let_def)
    then show ?thesis using st1 by simp
  next
    case False
    obtain row st2 where ins: "insert_read env t n st1 = (row, st2)" by fastforce
    have row: "in_reads st2 = in_reads st1 @ [row]" "in_dead_letters st2 = in_dead_letters st1" "sr_tenant_id row = t"
        "rd_device_id (sr_read row) = rd_device_id rd" "rd_timestamp (sr_read row) = rd_timestamp rd"
      using ins same by (auto simp: insert_read_def Let_def)
    let ?go = "run_then (enrich_read env t n (sr_id row)) (\<lambda>_. give row)"
    have "ingest_one env t rd st = (if ?reason \<noteq> None \<and> ie_clock_enforce env then (Inl (clock_rejection (the ?reason)), st1)
        else (let (row, st2) = insert_read env t n st1
              in run_then (enrich_read env t n (sr_id row)) (\<lambda>_. give row) (touch_device env t (rd_device_id n) st2)))"
      by (simp add: ingest_one_def Inr st1_def Let_def)
    then have run: "?go (touch_device env t (rd_device_id n) st2) = (r, st')"
      using assms ins by (simp only: False if_False Let_def prod.case)
    have stays: "keeps same_reads ?go" by (intro reads.run_then reads.enrich reads.give)
    have "same_reads (touch_device env t (rd_device_id n) st2) st'"
      using keepsD [OF stays, of "touch_device env t (rd_device_id n) st2"] by (simp add: run)
    then have "in_reads st' = in_reads st @ [row]" "in_dead_letters st' = in_dead_letters st1"
      using row st1 by (simp_all add: same_reads_def touch_device_def)
    moreover have "r = Inr row'\<Longrightarrow> row' = row" for row'
      using run by (auto simp: run_then_def give_def split: prod.splits sum.splits)
    ultimately show ?thesis using st1 row by auto
  qed
qed (use assms in \<open>auto simp: ingest_one_def\<close>)

lemma owned_ingest_one: "rd_device_id rd = d \<Longrightarrow> keeps (owned t d) (on_intake (run_then (ingest_one env t rd) (\<lambda>_. give ())))"
proof (rule keepsI)
  fix su :: subscriber assume d: "rd_device_id rd = d"
  obtain r st' where one: "ingest_one env t rd (su_intake su) = (r, st')" by fastforce
  have "snd (on_intake (run_then (ingest_one env t rd) (\<lambda>_. give ())) su) = su\<lparr>su_intake := st'\<rparr>"
    using one by (simp add: on_intake_def run_then_def give_def split: sum.split)
  then show "owned t d su (snd (on_intake (run_then (ingest_one env t rd) (\<lambda>_. give ())) su))"
    using ingest_one_rows [OF one] d by (auto simp: owned_def list_all_iff)
qed

lemma owned_ingest_reads: "list_all (\<lambda>rd. rd_device_id rd = d) rds \<Longrightarrow> keeps (owned t d) (ingest_reads env t rds)"
  unfolding ingest_reads_def by (rule own.each) (auto simp: list_all_iff owned_ingest_one)

lemma rollback_keeps [simp]: "in_reads (rollback a b) = in_reads a" "in_dead_letters (rollback a b) = in_dead_letters a"
  by (simp_all add: rollback_def)

lemma owned_session: "keeps (owned t d) m \<Longrightarrow> owned t d su (mqtt_session m su)"
  using keepsD [of "owned t d" m su] by (auto simp: mqtt_session_def owned_reads_kept split: prod.splits sum.splits)

text \<open>The reconciler, as the protocol sees it.\<close>

definition signal_message :: "uuid \<Rightarrow> uuid \<Rightarrow> wm_message \<Rightarrow> subscriber \<Rightarrow> subscriber" where
  "signal_message t d m su = (let (evs, tbl) = apply_message t d m (su_presence su)
     in su\<lparr>su_presence := tbl, su_intake := fold publish_signal evs (su_intake su)\<rparr>)"

lemma reconcile_messages:
  "snd (reconcile (reconcile_snap t d ts es) su) = signal_message t d (WmSnap sn ts lat lon es) su"
  "snd (reconcile (apply_appeared t d ts e) su) = signal_message t d (WmAppeared sn ts lat lon e) su"
  "snd (reconcile (apply_disappeared t d ts epc) su) = signal_message t d (WmDisappeared sn ts epc lat lon an) su"
  by (auto simp: reconcile_def signal_message_def apply_message_def split: sum.split)

lemma publish_signals [simp]:
  "in_reads (fold publish_signal evs st) = in_reads st" "in_dead_letters (fold publish_signal evs st) = in_dead_letters st"
  by (induction evs arbitrary: st) (simp_all add: publish_signal_def)

lemma owned_signal: "owned t d su (signal_message t d m su)"
proof -
  obtain evs tbl where m: "apply_message t d m (su_presence su) = (evs, tbl)" by fastforce
  show ?thesis
    using apply_message_spec(1,3) [OF _ m] by (auto simp: signal_message_def m owned_def)
qed

lemma owned_reconcile:
  "keeps (owned t d) (reconcile (reconcile_snap t d ts es))"
  "keeps (owned t d) (reconcile (apply_appeared t d ts e))"
  "keeps (owned t d) (reconcile (apply_disappeared t d ts epc))"
  by (rule keepsI, simp only: reconcile_messages(1,2) [where sn = 0 and lat = None and lon = None]
      reconcile_messages(3) [where sn = 0 and lat = None and lon = None and an = None] owned_signal)+

lemma owned_drops:
  "owned t d su (count_rejection k r su)" "owned t d su (persist_mqtt_drop env t topic p k r su)"
  "owned t d su (count_large sn su)"
  by (auto simp: owned_def count_rejection_def persist_mqtt_drop_def count_large_def Let_def)

lemma owned_drop_invalid: "owned t d su (drop_invalid env t topic p k su)"
  unfolding drop_invalid_def by (rule owned_trans [OF owned_drops(1) owned_drops(2)])

lemma owned_wm_reject: "owned t d su (wm_reject env t topic p r su)"
proof -
  have "owned t d (count_rejection k r su) (count_rejection k r su\<lparr>su_wm_rejected := w\<rparr>)" for k w
    by (rule owned_reads_kept) simp_all
  then show ?thesis
    unfolding wm_reject_def Let_def by (rule owned_trans [OF owned_drops(1) owned_trans [OF _ owned_drops(2)]])
qed

lemma owned_keyed: "owned t d su (handle_wm_v2_message env t d topic raw su)"
proof -
  have "keeps (owned t d) (wm_keyed_work env t d m)" for m
    by (cases m) (auto simp: wm_keyed_work_def wm_snap_to_tag_reads_def wm_appeared_to_tag_read_def list_all_iff
        intro!: own.run_then owned_reconcile owned_ingest_reads)
  then have "owned t d su' (mqtt_session (wm_keyed_work env t d m) su')" for m su'
    by (rule owned_session)
  then show ?thesis
    unfolding handle_wm_v2_message_def Let_def
    by (auto intro: owned_wm_reject owned_trans [OF owned_drops(3)] split: option.split wm_message.split)
qed

lemma owned_compact: "keeps (owned t d) (handle_wm_v2_compact_message env t d topic raw)"
proof (rule keepsI)
  fix su
  have "keeps (owned t d) (wm_compact_work env t d m)" for m
    unfolding wm_compact_work_def Let_def
    by (auto simp: wm_v2_entry_to_tag_read_def list_all_iff
        intro!: own.run_then own.each own.lift owned_reconcile owned_ingest_reads split: prod.split)
  then have "owned t d su' (mqtt_session (wm_compact_work env t d m) su')" for m su'
    by (rule owned_session)
  then show "owned t d su (snd (handle_wm_v2_compact_message env t d topic raw su))"
    unfolding handle_wm_v2_compact_message_def Let_def
    by (auto intro: owned_wm_reject owned_refl owned_trans [OF owned_drops(3)] split: sum.split wm2_error.split)
qed

lemma tag_read_create_device: "tag_read_create D d obj = Some rd \<Longrightarrow> rd_device_id rd = d"
  by (auto simp: tag_read_create_def Let_def bind_opt_eq_Some)

lemma collect_owned:
  "collect_reads env t d topic items su = (rds, su') \<Longrightarrow> owned t d su su' \<and> list_all (\<lambda>rd. rd_device_id rd = d) rds"
proof (induction items arbitrary: su rds su')
  case (Cons item items)
  have skip: "owned t d su su' \<and> list_all (\<lambda>rd. rd_device_id rd = d) rds"
    if "collect_reads env t d topic items su1 = (rds, su')" and "owned t d su su1" for su1
    using Cons.IH [OF that(1)] owned_trans [OF that(2)] by blast
  show ?case
  proof (cases item)
    case (JObj obj)
    let ?p = "filter (\<lambda>(k, v). k \<noteq> ''device_id'') obj"
    show ?thesis
    proof (cases "tag_read_create (me_decoders env) d ?p")
      case None
      then show ?thesis using Cons.prems JObj skip owned_drop_invalid by (simp add: Let_def)
    next
      case (Some rd)
      obtain rds' su1 where rest: "collect_reads env t d topic items su = (rds', su1)" by fastforce
      then show ?thesis using Cons.prems JObj Some Cons.IH [OF rest] tag_read_create_device [OF Some] by (auto simp: Let_def)
    qed
  qed (use Cons.prems skip owned_drops(1) in simp_all)
qed (simp add: owned_refl)

lemma owned_items: "owned t d su (handle_items env t d topic items su)"
proof -
  obtain rds su1 where items: "collect_reads env t d topic items su = (rds, su1)" by fastforce
  have "owned t d su1 (mqtt_session (ingest_reads env' t rds) su1)" for env'
    using collect_owned [OF items] by (intro owned_session owned_ingest_reads) simp
  then show ?thesis
    using collect_owned [OF items] owned_trans owned_drops(1) by (simp add: handle_items_def items) blast
qed

lemma owned_tag_read: "keeps (owned t d) (handle_tag_read env t d msg)"
  by (rule keepsI) (auto simp: handle_tag_read_def owned_items owned_keyed owned_drops keepsD [OF owned_compact] split: loaded.split json.split)

lemma owned_on_intake: "keeps same_reads m \<Longrightarrow> keeps (owned t d) (on_intake m)"
  unfolding keeps_def by (auto simp: on_intake_def same_reads_def intro!: owned_reads_kept split: prod.splits) (metis snd_conv)+

lemma owned_telemetry_change: "owned t d su (mqtt_session (on_intake (change (\<lambda>st. st\<lparr>in_telemetry := f st\<rparr>))) su)"
  by (intro owned_session owned_on_intake keepsI) (simp add: change_def same_reads_def)

lemma owned_status: "keeps (owned t d) (handle_status env t d msg)"
proof (rule keepsI)
  fix su
  have "owned t d su (mqtt_session (on_intake (\<lambda>st.
      case device_update_status now t d state fw (in_devices st) of
        (None, _) \<Rightarrow> (Inl e, st) | (Some _, ds) \<Rightarrow> (Inr (), st\<lparr>in_devices := ds\<rparr>))) su)" for now state fw e
    by (intro owned_session owned_on_intake keepsI) (auto simp: same_reads_def split: prod.split option.split)
  then show "owned t d su (snd (handle_status env t d msg su))"
    by (auto simp: handle_status_def owned_drops owned_drop_invalid owned_refl split: loaded.split json.split option.split)
qed

lemma owned_readings: "owned t d su (store_readings env t' d' gs su)"
proof -
  have "keeps same_reads (store_reading env t' d' g)" for g
    by (rule keepsI) (auto simp: store_reading_def same_reads_def Let_def split: sum.split)
  then show ?thesis unfolding store_readings_def by (intro owned_session owned_on_intake reads.each)
qed

lemma owned_telemetry: "keeps (owned t d) (handle_telemetry env t d msg)"
  by (rule keepsI) (auto simp: handle_telemetry_def Let_def owned_drops owned_drop_invalid owned_refl owned_readings
      split: loaded.split json.split option.split sum.split py_exn.split)

lemma owned_location: "keeps (owned t d) (handle_location env t d msg)"
  by (rule keepsI) (auto simp: handle_location_def Let_def owned_drops owned_drop_invalid owned_refl owned_telemetry_change
      split: loaded.split json.split option.split)

lemma owned_event: "keeps (owned t d) (handle_device_event env t d msg)"
proof (rule keepsI)
  fix su
  have "owned t d su (mqtt_session (change (ingest_device_event now t' e)) su)" for now t' e
    by (intro owned_session keepsI) (auto simp: change_def ingest_device_event_def intro!: owned_reads_kept)
  then show "owned t d su (snd (handle_device_event env t d msg su))"
    by (auto simp: handle_device_event_def Let_def owned_drops owned_drop_invalid owned_refl split: loaded.split json.split option.split)
qed

lemma topics_disjoint: "parse_topic s = Some r \<Longrightarrow> parse_subject_topic s = None"
  by (auto simp: parse_topic_def parse_subject_topic_def split: list.splits)

lemma owned_message:
  assumes "parse_topic (mm_topic msg) = Some (t, d, kind)"
  shows "owned t d su (consume (env, msg) su)"
proof -
  have "keeps (owned t d) (handle_message env msg)"
    by (rule keepsI) (auto simp: handle_message_def assms topics_disjoint [OF assms] owned_drops
        keepsD [OF owned_tag_read] keepsD [OF owned_status] keepsD [OF owned_telemetry] keepsD [OF owned_location] keepsD [OF owned_event])
  from keepsD [OF this, of su] have one: "owned t d su (snd (handle_message env msg su))" .
  have "owned t d su' (su'\<lparr>su_processed := n\<rparr>)" for su' :: subscriber and n by (rule owned_reads_kept) simp_all
  with one show ?thesis
    by (auto simp: consume_def split: prod.splits sum.splits intro: owned_trans)
qed

section \<open>Topics\<close>

lemma split_on_step: "c \<notin> set p \<Longrightarrow> split_on c (p @ c # s) = p # split_on c s"
  by (induction p) auto

lemma split_on_none: "c \<notin> set p \<Longrightarrow> split_on c p = [p]"
  by (induction p) auto

lemma no_slash_uuid: "CHR ''/'' \<notin> set (str_uuid u)"
proof -
  have "set (str_uuid u) \<subseteq> insert CHR ''-'' (set ''0123456789abcdef'')"
    unfolding str_uuid_def using set_dash_groups set_fixed_hex by (rule subset_trans [OF _ insert_mono])
  moreover have "CHR ''/'' \<notin> insert CHR ''-'' (set ''0123456789abcdef'')" by simp
  ultimately show ?thesis by blast
qed

definition device_topic :: "uuid \<Rightarrow> uuid \<Rightarrow> string \<Rightarrow> string" where
  "device_topic t d kind = ''tenants/'' @ str_uuid t @ ''/devices/'' @ str_uuid d @ ''/'' @ kind"

lemma split_segments: "c \<notin> set p \<Longrightarrow> split_on c (p @ [c] @ s) = p # split_on c s"
  by (simp add: split_on_step)

lemma parse_device_topic: "CHR ''/'' \<notin> set kind \<Longrightarrow> parse_topic (device_topic t d kind) = Some (t, d, kind)"
proof -
  assume kind: "CHR ''/'' \<notin> set kind"
  have eq: "device_topic t d kind = ''tenants'' @ CHR ''/'' # (str_uuid t @ CHR ''/'' # (''devices'' @ CHR ''/'' # (str_uuid d @ CHR ''/'' # kind)))"
    by (simp add: device_topic_def)
  have q: "CHR ''/'' \<notin> set ''tenants''" "CHR ''/'' \<notin> set ''devices''" by simp_all
  have "split_on CHR ''/'' (device_topic t d kind) = [''tenants'', str_uuid t, ''devices'', str_uuid d, kind]"
    by (simp only: eq split_on_step [OF q(1)] split_on_step [OF q(2)] split_on_step [OF no_slash_uuid] split_on_none [OF kind])
  then show ?thesis by (simp add: parse_topic_def)
qed

text \<open>C7: whatever a message says, on a topic of device \<open>d\<close> of tenant \<open>t\<close> it only adds reads of that device and tenant and
  dead letters of that tenant, and leaves the presence of every other device as it was.\<close>

theorem message_stays_with_its_topic:
  assumes "CHR ''/'' \<notin> set kind" and "mm_topic message = device_topic t d kind" and "table_ok (su_presence su)"
  shows "(\<exists>rows. in_reads (su_intake (consume (env, message) su)) = in_reads (su_intake su) @ rows \<and>
        list_all (\<lambda>r. sr_tenant_id r = t \<and> rd_device_id (sr_read r) = d) rows)
    \<and> (\<exists>letters. in_dead_letters (su_intake (consume (env, message) su)) = in_dead_letters (su_intake su) @ letters \<and>
        list_all (\<lambda>l. rj_tenant_id l = t) letters)
    \<and> (\<forall>t' d'. (t', d') \<noteq> (t, d) \<longrightarrow>
        present_set (su_presence (consume (env, message) su)) t' d' = present_set (su_presence su) t' d')"
  using owned_message [of message t d kind su env] parse_device_topic [OF assms(1), of t d] assms(2,3)
  by (simp add: owned_def)

section \<open>A snapshot takes effect wholly or not at all\<close>

definition stored_for :: "uuid \<Rightarrow> tag_read \<Rightarrow> stored_read \<Rightarrow> bool" where
  "stored_for t rd row \<longleftrightarrow> sr_tenant_id row = t \<and> rd_device_id (sr_read row) = rd_device_id rd \<and>
     rd_timestamp (sr_read row) = rd_timestamp rd \<and> (nonempty (rd_tag_id rd) \<longrightarrow> rd_tag_id (sr_read row) = rd_tag_id rd)"

lemma ingest_one_tag: "ingest_one env t rd st = (Inr row, st') \<Longrightarrow> nonempty (rd_tag_id rd) \<Longrightarrow> rd_tag_id (sr_read row) = rd_tag_id rd"
  by (auto simp: ingest_one_def normalize_def and_then_def insert_read_def tag_text_def effective_tag_id_def text_or_def nonempty_def
      run_then_def give_def Let_def split: sum.splits if_splits prod.splits option.splits)

lemma ingest_reads_rows:
  "ingest_reads env t rds su = (Inr u, su') \<Longrightarrow>
     su_presence su' = su_presence su \<and> (\<exists>rows. in_reads (su_intake su') = in_reads (su_intake su) @ rows \<and> list_all2 (stored_for t) rds rows)"
proof (induction rds arbitrary: su)
  case Nil
  then show ?case by (simp add: ingest_reads_def give_def)
next
  case (Cons rd rds)
  obtain r st1 where one: "ingest_one (me_ingest env) t rd (su_intake su) = (r, st1)" by fastforce
  have first: "on_intake (run_then (ingest_one (me_ingest env) t rd) (\<lambda>_. give ())) su = (map_sum id (\<lambda>_. ()) r, su\<lparr>su_intake := st1\<rparr>)"
    using one by (simp add: on_intake_def run_then_def give_def split: sum.split)
  with Cons.prems obtain row where r: "r = Inr row" and rest: "ingest_reads env t rds (su\<lparr>su_intake := st1\<rparr>) = (Inr u, su')"
    by (cases r) (simp_all add: ingest_reads_def run_then_def)
  obtain rows where rows: "in_reads (su_intake su') = in_reads st1 @ rows" "list_all2 (stored_for t) rds rows" "su_presence su' = su_presence su"
    using Cons.IH [OF rest] by auto
  have "in_reads st1 = in_reads (su_intake su) @ [row]" "stored_for t rd row"
    using ingest_one_rows [OF one] ingest_one_tag [OF one [unfolded r]] by (auto simp: r stored_for_def)
  with rows show ?case by (intro conjI exI [of _ "row # rows"]) simp_all
qed

lemma case_list_Some: "(case j of JList xs \<Rightarrow> f xs | _ \<Rightarrow> None) = Some y \<longleftrightarrow> (\<exists>xs. j = JList xs \<and> f xs = Some y)"
  by (cases j) auto

lemma parsed_epcs: "parse_wm_message C raw = Some (WmSnap sn ts lat lon es) \<Longrightarrow> e \<in> set es \<Longrightarrow> se_epc e \<noteq> []"
proof -
  assume parse: "parse_wm_message C raw = Some (WmSnap sn ts lat lon es)" and e: "e \<in> set es"
  have "map_opt f xs = Some ys \<Longrightarrow> y \<in> set ys \<Longrightarrow> \<exists>x. f x = Some y" for f :: "json \<Rightarrow> snap_entry option" and xs ys y
    by (induction xs arbitrary: ys) (auto simp: bind_opt_eq_Some)
  moreover have "\<exists>xs. map_opt (parse_snap_entry C) xs = Some es"
    using parse by (auto simp: parse_wm_message_def parse_snap_def parse_appeared_def parse_disappeared_def bind_opt_eq_Some
        case_list_Some split: if_splits)
  ultimately obtain x where "parse_snap_entry C x = Some e" using e by blast
  then obtain s where "normalize_epc s = Some (se_epc e)"
    by (auto simp: parse_snap_entry_def entry_fields_def epc_field_def bind_opt_eq_Some split: json.splits if_splits)
  then have "epc_shape (se_epc e)" using validate_epc_shape by (auto simp: normalize_epc_def split: sum.splits)
  then show ?thesis by (auto simp: epc_shape_def EPC_MIN_HEX_CHARS_def)
qed

lemma count_large_same [simp]: "su_presence (count_large sn su) = su_presence su" "su_intake (count_large sn su) = su_intake su"
  by (simp_all add: count_large_def)

text \<open>C8: a keyed snapshot that parses either makes the EPCs it lists exactly the present ones of the device and stores one
  read for each of its entries, in order and at its time, or it leaves presence, reads and dead letters as they
  were.\<close>

theorem snapshot_all_or_nothing:
  assumes "parse_wm_message (de_base (me_decoders env)) raw = Some (WmSnap sn ts lat lon entries)" and "table_ok (su_presence su)"
    and "su' = handle_wm_v2_message env t d topic raw su"
  shows "(present_set (su_presence su') t d = se_epc ` set entries \<and>
      (\<exists>rows. in_reads (su_intake su') = in_reads (su_intake su) @ rows \<and>
         map (\<lambda>r. rd_tag_id (sr_read r)) rows = map (\<lambda>e. Some (se_epc e)) entries \<and>
         list_all (\<lambda>r. sr_tenant_id r = t \<and> rd_device_id (sr_read r) = d \<and> rd_timestamp (sr_read r) = ts * 1000) rows))
    \<or> (su_presence su' = su_presence su \<and> in_reads (su_intake su') = in_reads (su_intake su) \<and>
       in_dead_letters (su_intake su') = in_dead_letters (su_intake su))"
proof -
  define su0 where "su0 = (if length entries > SNAP_SOFT_CAP_ENTRIES then count_large (str_int sn) su else su)"
  have su0: "su_presence su0 = su_presence su" "su_intake su0 = su_intake su" by (simp_all add: su0_def)
  let ?rds = "wm_snap_to_tag_reads d (ts * 1000) lat lon entries"
  let ?work = "wm_keyed_work env t d (WmSnap sn ts lat lon entries)"
  have su': "su' = mqtt_session ?work su0"
    using assms(1,3) by (simp add: handle_wm_v2_message_def su0_def Let_def)
  obtain r su1 where work: "?work su0 = (r, su1)" by fastforce
  show ?thesis
  proof (cases r)
    case (Inl e)
    then show ?thesis using work by (simp add: su' mqtt_session_def su0)
  next
    case (Inr u)
    obtain evs tbl where rec: "reconcile (reconcile_snap t d ts entries) su0 = (Inr (), su0\<lparr>su_presence := tbl, su_intake := fold publish_signal evs (su_intake su0)\<rparr>)"
        and snap: "\<exists>x. reconcile_snap t d ts entries (su_presence su0) = Inr (x, evs, tbl)"
      using work Inr by (auto simp: wm_keyed_work_def reconcile_def run_then_def split: sum.splits)
    let ?su2 = "su0\<lparr>su_presence := tbl, su_intake := fold publish_signal evs (su_intake su0)\<rparr>"
    have "ingest_reads env t ?rds ?su2 = (Inr u, su1)"
      using work Inr rec by (simp add: wm_keyed_work_def run_then_def)
    from ingest_reads_rows [OF this] obtain rows where rows: "su_presence su1 = tbl"
        "in_reads (su_intake su1) = in_reads (su_intake su) @ rows" "list_all2 (stored_for t) ?rds rows"
      by (auto simp: su0)
    have "apply_message t d (WmSnap sn ts lat lon entries) (su_presence su) = (evs, tbl)" "\<not> ts * 1000 > DATETIME_MAX"
      using snap by (auto simp: apply_message_def su0 reconcile_snap_def ts_to_datetime_def)
    then have "present_set tbl t d = se_epc ` set entries" using apply_message_spec(2) [OF assms(2)] by simp
    moreover have "map (\<lambda>r. rd_tag_id (sr_read r)) rows = map (\<lambda>e. Some (se_epc e)) entries \<and>
        list_all (\<lambda>r. sr_tenant_id r = t \<and> rd_device_id (sr_read r) = d \<and> rd_timestamp (sr_read r) = ts * 1000) rows"
      using rows(3) parsed_epcs [OF assms(1)] unfolding wm_snap_to_tag_reads_def
    proof (induction entries arbitrary: rows)
      case (Cons e es)
      then show ?case by (auto simp: list_all2_Cons1 stored_for_def nonempty_def)
    qed simp
    ultimately show ?thesis using rows work Inr by (auto simp: su' mqtt_session_def)
  qed
qed

section \<open>Messages that cost more than they should\<close>

lemma outside_fails:
  "outside_window env rd \<Longrightarrow> ie_clock_enforce env \<Longrightarrow>
     \<exists>e st'. ingest_one env t rd st = (Inl e, st') \<and> in_telemetry st' = in_telemetry st"
proof (cases "normalize (ie_float_text env) rd")
  case (Inr n)
  assume "outside_window env rd" and enforce: "ie_clock_enforce env"
  then have "outside_window env n" using normalize_keeps [OF Inr] by (simp add: outside_window_def)
  then obtain r where "check_clock_window (rd_timestamp n) (ie_now env) = Some r" by (simp add: window_reason)
  then show ?thesis
    using enforce core_reject [of st t n r] by (simp add: ingest_one_def Inr same_core_def)
qed (simp add: ingest_one_def)

definition signal_event :: "presence_event \<Rightarrow> event" where
  "signal_event e = \<lparr>ev_topic = signal_topic e, ev_timestamp = ev_observed_at e, ev_payload = signal_payload e\<rparr>"

lemma published_signals: "td_events (in_telemetry (fold publish_signal evs st)) = td_events (in_telemetry st) @ map signal_event evs"
  by (induction evs arbitrary: st) (simp_all add: publish_signal_def publish_event_def signal_event_def)

lemma stale_snapshot:
  assumes "parse_wm_message (de_base (me_decoders env)) raw = Some (WmSnap sn ts lat lon entries)" and "entries \<noteq> []"
    and "ie_clock_enforce (me_ingest env)" and "ts * 1000 \<notin> {ie_now (me_ingest env) - 86400000000 .. ie_now (me_ingest env) + 300000000}"
    and "su' = handle_wm_v2_message env t d topic raw su"
  shows "su_presence su' = su_presence su \<and> in_reads (su_intake su') = in_reads (su_intake su) \<and>
    in_dead_letters (su_intake su') = in_dead_letters (su_intake su) \<and>
    td_events (in_telemetry (su_intake su')) = td_events (in_telemetry (su_intake su)) @
      map signal_event (fst (apply_message t d (WmSnap sn ts lat lon entries) (su_presence su)))"
proof -
  define su0 where "su0 = (if length entries > SNAP_SOFT_CAP_ENTRIES then count_large (str_int sn) su else su)"
  have su0: "su_presence su0 = su_presence su" "su_intake su0 = su_intake su" by (simp_all add: su0_def)
  let ?work = "wm_keyed_work env t d (WmSnap sn ts lat lon entries)"
  have su': "su' = mqtt_session ?work su0"
    using assms(1,5) by (simp add: handle_wm_v2_message_def su0_def Let_def)
  show ?thesis
  proof (cases "reconcile_snap t d ts entries (su_presence su)")
    case (Inl e)
    then have "?work su0 = (Inl e, su0)" by (simp add: wm_keyed_work_def run_then_def reconcile_def su0)
    moreover have "fst (apply_message t d (WmSnap sn ts lat lon entries) (su_presence su)) = []" by (simp add: apply_message_def Inl)
    ultimately show ?thesis by (simp add: su' mqtt_session_def su0 rollback_def)
  next
    case (Inr p)
    obtain x evs tbl where p: "p = (x, evs, tbl)" by (metis surj_pair)
    let ?su2 = "su0\<lparr>su_presence := tbl, su_intake := fold publish_signal evs (su_intake su0)\<rparr>"
    obtain rd rds where rds: "wm_snap_to_tag_reads d (ts * 1000) lat lon entries = rd # rds" and "rd_timestamp rd = ts * 1000"
      using assms(2) by (cases entries) (simp_all add: wm_snap_to_tag_reads_def)
    then obtain e st' where one: "ingest_one (me_ingest env) t rd (su_intake ?su2) = (Inl e, st')"
        "in_telemetry st' = in_telemetry (su_intake ?su2)"
      using outside_fails [of "me_ingest env" rd t "su_intake ?su2"] assms(3,4) by (auto simp: outside_window_def)
    then have "?work su0 = (Inl e, ?su2\<lparr>su_intake := st'\<rparr>)"
      by (simp add: wm_keyed_work_def run_then_def reconcile_def su0 Inr p rds ingest_reads_def on_intake_def)
    then show ?thesis
      using one(2) by (simp add: su' mqtt_session_def su0 rollback_def apply_message_def Inr p published_signals)
  qed
qed

text \<open>C39: when the clock window is enforced, a snapshot from outside it is rolled back although its appearances and
  departures have been published: nothing is stored, not even a dead letter, and because the table has not changed,
  sending it again publishes the same transitions again.\<close>

theorem stale_snapshot_is_announced_again:
  assumes "parse_wm_message (de_base (me_decoders env)) raw = Some (WmSnap sn ts lat lon entries)" and "entries \<noteq> []"
    and "ie_clock_enforce (me_ingest env)" and "ts * 1000 \<notin> {ie_now (me_ingest env) - 86400000000 .. ie_now (me_ingest env) + 300000000}"
  shows "let once = handle_wm_v2_message env t d topic raw su; twice = handle_wm_v2_message env t d topic raw once;
      es = map signal_event (fst (apply_message t d (WmSnap sn ts lat lon entries) (su_presence su)))
    in su_presence twice = su_presence su \<and> in_reads (su_intake twice) = in_reads (su_intake su) \<and>
      in_dead_letters (su_intake twice) = in_dead_letters (su_intake su) \<and>
      td_events (in_telemetry (su_intake twice)) = td_events (in_telemetry (su_intake su)) @ es @ es"
proof -
  define once where "once = handle_wm_v2_message env t d topic raw su"
  define twice where "twice = handle_wm_v2_message env t d topic raw once"
  show ?thesis
    using stale_snapshot [OF assms once_def] stale_snapshot [OF assms twice_def]
    by (simp add: Let_def once_def [symmetric] twice_def [symmetric])
qed

definition unreadable :: "loaded \<Rightarrow> bool" where
  "unreadable l \<longleftrightarrow> (case l of UnicodeDecodeError \<Rightarrow> True | Loaded JNull \<Rightarrow> True | Loaded (JStr _) \<Rightarrow> True | Loaded (JInt _) \<Rightarrow> True
     | Loaded (JFloat _) \<Rightarrow> True | Loaded (JBool _) \<Rightarrow> True | _ \<Rightarrow> False)"

lemma unreadable_escapes:
  assumes "unreadable (me_loads env (mm_payload message))"
  shows "\<exists>e. handle_status env t d message su = (Inl e, su)" "\<exists>e. handle_telemetry env t d message su = (Inl e, su)"
    "\<exists>e. handle_location env t d message su = (Inl e, su)" "\<exists>e. handle_device_event env t d message su = (Inl e, su)"
    "\<exists>r. handle_tag_read env t d message su = (Inr (), count_rejection ''tag_read'' r su)"
  using assms by (auto simp: unreadable_def handle_status_def handle_telemetry_def handle_location_def handle_device_event_def
      handle_tag_read_def split: loaded.splits json.splits)

lemma routed:
  assumes "CHR ''/'' \<notin> set kind" and "message = \<lparr>mm_topic = device_topic t d kind, mm_payload = payload\<rparr>"
  shows "handle_message env message su =
     (if kind \<notin> KNOWN_SUFFIXES then (Inr (), count_rejection ''unknown_suffix'' ''unknown_suffix'' su)
      else if kind = ''tag-reads'' then handle_tag_read env t d message su
      else if kind = ''status'' then handle_status env t d message su
      else if kind = ''telemetry'' then handle_telemetry env t d message su
      else if kind = ''location'' then handle_location env t d message su
      else handle_device_event env t d message su)"
proof -
  note topic = parse_device_topic [OF assms(1), of t d]
  show ?thesis by (simp add: handle_message_def assms(2) topic topics_disjoint [OF topic])
qed

text \<open>On the status, telemetry, location and events topics, bytes that are no text and payloads that are no objects
  are dropped without a trace: nothing is counted or kept.  On the tag-reads topic the same payload is counted.\<close>

lemma bad_payloads_leave_no_trace:
  assumes "kind \<in> {''status'', ''telemetry'', ''location'', ''events''}"
    and "unreadable (me_loads env payload)"
  shows "consume (env, \<lparr>mm_topic = device_topic t d kind, mm_payload = payload\<rparr>) su = su \<and>
    length (su_rejected (consume (env, \<lparr>mm_topic = device_topic t d ''tag-reads'', mm_payload = payload\<rparr>) su)) = Suc (length (su_rejected su))"
proof -
  have q: "CHR ''/'' \<notin> set kind" "CHR ''/'' \<notin> set ''tag-reads''" using assms(1) by auto
  let ?m = "\<lambda>k. \<lparr>mm_topic = device_topic t d k, mm_payload = payload\<rparr>"
  have bad: "unreadable (me_loads env (mm_payload (?m k)))" for k using assms(2) by simp
  have "\<exists>e. handle_message env (?m kind) su = (Inl e, su)"
    unfolding routed [OF q(1) refl] using assms(1) unreadable_escapes(1-4) [OF bad [of kind], of t d su]
    by (elim insertE) (simp_all add: KNOWN_SUFFIXES_def)
  then have "consume (env, ?m kind) su = su" by (auto simp: consume_def)
  moreover have "length (su_rejected (consume (env, ?m ''tag-reads'') su)) = Suc (length (su_rejected su))"
    using unreadable_escapes(5) [OF bad [of "''tag-reads''"], of t d su]
    by (auto simp: consume_def routed [OF q(2) refl] KNOWN_SUFFIXES_def count_rejection_def)
  ultimately show ?thesis by simp
qed

text \<open>The location topic trusts the body: a fix whose body names a device is stored and announced for that device,
  whichever device's topic it came in on.\<close>

theorem location_follows_the_body:
  assumes "me_loads env payload = Loaded (JObj obj)" and "map_of obj ''device_id'' = Some j"
    and "location_payload_model (me_decoders env) obj = Some loc"
    and "timestamp_acceptable (ie_now (me_ingest env)) (lp_timestamp loc)"
  shows "\<exists>rows. td_readings (in_telemetry (su_intake (consume (env, \<lparr>mm_topic = device_topic t d ''location'', mm_payload = payload\<rparr>) su))) =
      td_readings (in_telemetry (su_intake su)) @ rows \<and>
    map (\<lambda>r. (rr_tenant_id r, rr_device_id r, rr_metric_name r, rr_metric_value r)) rows =
      [(t, Some (lp_device_id loc), ''location.latitude'', Fin (lp_latitude loc)), (t, Some (lp_device_id loc), ''location.longitude'', Fin (lp_longitude loc))]"
proof -
  have q: "CHR ''/'' \<notin> set ''location''" by simp
  show ?thesis
    using assms by (simp add: consume_def routed [OF q refl] KNOWN_SUFFIXES_def handle_location_def
        setdefault_def mqtt_session_def on_intake_def change_def ingest_location_def insert_reading_def telemetry_insert_def
        publish_telemetry_recorded_def publish_event_def Let_def)
qed

section \<open>The run of the loop\<close>

fun delivered :: "connection \<Rightarrow> (mqtt_env \<times> mqtt_message) list" where
  "delivered (Refused e) = []"
| "delivered (Served msgs e) = msgs"

definition backoffs :: "real set" where
  "backoffs = {1, 2, 4, 8, 16, 30}"

lemma next_backoff_in: "b \<in> backoffs \<Longrightarrow> next_backoff b \<in> backoffs"
  by (auto simp: backoffs_def next_backoff_def)

lemma run_from_spec:
  "b \<in> backoffs \<Longrightarrow> snd (run_from b reason cs su) = fold consume (concat (map delivered cs)) su \<and>
     length (fst (fst (run_from b reason cs su))) = length cs \<and> list_all (\<lambda>x. x \<in> backoffs) (snd (fst (run_from b reason cs su)))"
proof (induction b reason cs su rule: run_from.induct)
  case (2 b reason e cs su)
  then show ?case using next_backoff_in [of b] by (simp add: case_prod_unfold Let_def)
next
  case (3 b reason msgs e cs su)
  have "1 \<in> backoffs" "next_backoff 1 \<in> backoffs" using next_backoff_in [of 1] by (simp_all add: backoffs_def)
  then show ?case using 3 by (simp add: case_prod_unfold Let_def)
next
  case (4 b reason msgs cs su)
  have "1 \<in> backoffs" by (simp add: backoffs_def)
  then show ?case using 4 by (simp add: case_prod_unfold Let_def)
qed simp

text \<open>However often the connection is refused or breaks, the subscriber has handled exactly the messages delivered, in
  their order, whatever any of them raised; it connects once more for every failure, after one of six delays.\<close>

theorem loop_survives_everything:
  "\<exists>reasons delays. run_subscriber cs su = ((reasons, delays), fold consume (concat (map delivered cs)) su) \<and>
     length reasons = length cs \<and> list_all (\<lambda>x. x \<in> {1, 2, 4, 8, 16, 30}) delays"
proof -
  obtain reasons delays su' where run: "run_from 1 ''startup'' cs su = ((reasons, delays), su')" by (metis prod.exhaust)
  have "1 \<in> backoffs" by (simp add: backoffs_def)
  from run_from_spec [OF this, of "''startup''" cs su] show ?thesis
    by (simp add: run_subscriber_def run backoffs_def)
qed

section \<open>Concrete messages\<close>

definition demo_mqtt :: "json \<Rightarrow> mqtt_env" where
  "demo_mqtt j = \<lparr>me_ingest = quiet_env, me_loads = (\<lambda>_. Loaded j),
     me_decoders = \<lparr>de_base = strict, de_datetime = (\<lambda>j. case j of JInt i \<Rightarrow> Some i | _ \<Rightarrow> None),
       de_uuid = (\<lambda>j. case j of JStr s \<Rightarrow> (case uuid_of_string s of Inr u \<Rightarrow> Some u | Inl _ \<Rightarrow> None) | _ \<Rightarrow> None)\<rparr>,
     me_wm_errors = (\<lambda>_. []), me_fromisoformat = (\<lambda>_. None), me_jsonb = (\<lambda>_. True), me_str = (\<lambda>_. [])\<rparr>"

definition new_subscriber :: subscriber where
  "new_subscriber = \<lparr>su_intake = fresh_intake empty_inventory, su_presence = [], su_rejected = [], su_wm_rejected = [],
     su_wm_large = [], su_device_events = [], su_processed = 0\<rparr>"

theorem message_stays_with_its_topic_witness:
  "\<exists>rows. in_reads (su_intake (consume (demo_mqtt (JList [JObj [(''tag_id'', JStr ''a''), (''timestamp'', JInt 0)]]),
       \<lparr>mm_topic = device_topic 1 7 ''tag-reads'', mm_payload = []\<rparr>) new_subscriber)) = rows \<and>
     list_all (\<lambda>r. sr_tenant_id r = 1 \<and> rd_device_id (sr_read r) = 7) rows"
  using message_stays_with_its_topic [of "''tag-reads''" "\<lparr>mm_topic = device_topic 1 7 ''tag-reads'', mm_payload = []\<rparr>" 1 7 new_subscriber]
  by (simp add: new_subscriber_def fresh_intake_def table_ok_def)

definition demo_snapshot :: "int \<Rightarrow> jobj" where
  "demo_snapshot ts = [(''t'', JInt 0), (''sn'', JInt 7), (''ts'', JInt ts), (''lat'', JNull), (''lon'', JNull),
     (''epcs'', JList [JObj [(''an'', JInt 1), (''epc'', JStr ''e2801160''), (''rssi'', JInt (- 60)), (''cnt'', JInt 1)]])]"

lemma demo_snapshot_parses:
  "0 \<le> ts \<Longrightarrow> parse_wm_message strict (demo_snapshot ts) =
     Some (WmSnap 7 ts None None [demo_entry ''E2801160'' (- 60)])"
  by (simp add: demo_snapshot_def parse_wm_message_def parse_snap_def forbid_extra_def field_req_def field_null_def strict_def nonneg_def
      parse_snap_entry_def entry_fields_def reject_explicit_null_optional_def antenna_ok_def rssi_ok_def cnt_ok_def epc_field_def
      normalize_epc_def demo_epc field_opt_def demo_entry_def)

theorem stale_snapshot_is_announced_again_witness:
  "in_reads (su_intake (handle_wm_v2_message (demo_mqtt JNull) 1 7 [] (demo_snapshot 400000)
      (handle_wm_v2_message (demo_mqtt JNull) 1 7 [] (demo_snapshot 400000) new_subscriber))) = []"
  using stale_snapshot_is_announced_again [of "demo_mqtt JNull" "demo_snapshot 400000" 7 400000 None None "[demo_entry ''E2801160'' (- 60)]" 1 7
      "[]" new_subscriber] demo_snapshot_parses [of 400000]
  by (simp add: demo_mqtt_def quiet_env_def Let_def new_subscriber_def fresh_intake_def)

theorem snapshot_all_or_nothing_witness:
  "\<exists>S. present_set (su_presence (handle_wm_v2_message (demo_mqtt JNull) 1 7 [] (demo_snapshot 5) new_subscriber)) 1 7 = S \<and>
     (S = {''E2801160''} \<or> su_presence (handle_wm_v2_message (demo_mqtt JNull) 1 7 [] (demo_snapshot 5) new_subscriber) = [])"
  using snapshot_all_or_nothing [of "demo_mqtt JNull" "demo_snapshot 5" 7 5 None None "[demo_entry ''E2801160'' (- 60)]" new_subscriber, OF _ _ refl, of 1 7 "[]"]
    demo_snapshot_parses [of 5]
  by (auto simp: demo_mqtt_def new_subscriber_def fresh_intake_def table_ok_def demo_entry_def)

definition demo_fix :: jobj where
  "demo_fix = [(''device_id'', JStr (str_uuid 9)), (''timestamp'', JInt 0), (''latitude'', JFloat (Fin 47)), (''longitude'', JFloat (Fin 8))]"

theorem location_follows_the_body_witness:
  "\<exists>rows. td_readings (in_telemetry (su_intake (consume (demo_mqtt (JObj demo_fix),
       \<lparr>mm_topic = device_topic 1 7 ''location'', mm_payload = []\<rparr>) new_subscriber))) = rows \<and> map rr_device_id rows = [Some 9, Some 9]"
proof -
  have fix9: "location_payload_model (me_decoders (demo_mqtt (JObj demo_fix))) demo_fix =
      Some \<lparr>lp_device_id = 9, lp_timestamp = 0, lp_latitude = 47, lp_longitude = 8, lp_accuracy_m = None, lp_source = ''gps''\<rparr>"
    by (simp add: demo_fix_def demo_mqtt_def location_payload_model_def field_req_def any_value_def coordinate_def strict_def
        pf_between_def accuracy_field_def field_opt_def source_field_def)
  show ?thesis
    using location_follows_the_body [OF _ _ fix9, of "[]" "JStr (str_uuid 9)" 1 7 new_subscriber]
    by (auto simp: demo_mqtt_def demo_fix_def acceptable_iff quiet_env_def new_subscriber_def fresh_intake_def map_eq_Cons_conv)
qed

end
