(* ===== verification/MqttEdge.thy ===== *)
theory MqttEdge
  imports MqttLaws EdgeAgent
begin

text \<open>
  The edge agent and the subscriber together: the topics the agent publishes on by default are those the
  subscriber routes back to the same tenant and device, and each presence event of the agent is one read on
  the server, an EXIT as well as an ENTER.
\<close>

section \<open>Topics\<close>

text \<open>The defaults of \<open>EdgeConfig\<close>.\<close>

definition default_topics :: "(string, string) pydict" where
  "default_topics =
     [(''tag-reads'', ''tenants/{t}/devices/{d}/tag-reads''), (''telemetry'', ''tenants/{t}/devices/{d}/telemetry''),
      (''location'', ''tenants/{t}/devices/{d}/location''), (''status'', ''tenants/{t}/devices/{d}/status''),
      (''events'', ''tenants/{t}/devices/{d}/events'')]"

lemma default_topic_text:
  assumes "ec_topics config = default_topics" and "topic config kind = Inr tp"
  shows "tp = device_topic (ec_tenant_id config) (ec_device_id config) kind \<and> kind \<in> KNOWN_SUFFIXES"
  using assms by (auto simp: EdgeAgent.topic_def default_topics_def device_topic_def KNOWN_SUFFIXES_def split: if_splits)

text \<open>A topic that an agent with the default templates publishes on is one the subscriber knows, and it parses back to
  the agent's tenant and device.\<close>

lemma agent_topics_reach_their_device:
  assumes "ec_topics config = default_topics" and "topic config kind = Inr tp"
  shows "parse_topic tp = Some (ec_tenant_id config, ec_device_id config, kind) \<and> kind \<in> KNOWN_SUFFIXES \<and>
    parse_subject_topic tp = None"
proof -
  note d = default_topic_text [OF assms]
  then have "CHR ''/'' \<notin> set kind" by (auto simp: KNOWN_SUFFIXES_def)
  then show ?thesis using d parse_device_topic topics_disjoint by simp
qed

section \<open>Presence events\<close>

text \<open>The read an event should be: its tag, its time, its signal, and the extras of an ENTER; the transition is in none of its fields.\<close>

definition extra_text :: "presence_extras \<Rightarrow> string \<Rightarrow> string option" where
  "extra_text px k = (case map_of (px_identity px) k of Some v \<Rightarrow> v | None \<Rightarrow> None)"

definition extra_identity :: "presence_extras \<Rightarrow> identity option" where
  "extra_identity px =
     (if list_all (\<lambda>k. extra_text px k = None) [''epc'', ''epc_hex'', ''tid'', ''user_memory_hex''] then None
      else Some \<lparr>id_epc = extra_text px ''epc'', id_epc_hex = extra_text px ''epc_hex'', id_epc_scheme = None, id_epc_decoded = None,
             id_tid = extra_text px ''tid'', id_user_memory_hex = extra_text px ''user_memory_hex''\<rparr>)"

definition read_of_event :: "edge_config \<Rightarrow> readings \<Rightarrow> presence_ev \<Rightarrow> presence_extras \<Rightarrow> tag_read" where
  "read_of_event config rd ev px =
     (let extras = (\<lambda>x. if pv_transition ev = ENTER then x else None) in
      \<lparr>rd_device_id = ec_device_id config, rd_tag_id = Some (fst (pv_key ev)), rd_timestamp = to_utc rd (px_observed_at px),
       rd_signal_strength = pv_signal ev, rd_sensor_data = extras (px_sensor_data px), rd_location = None,
       rd_identity = extra_identity px, rd_tag_data = extras (px_tag_data px), rd_reader_antenna = px_reader_antenna px\<rparr>)"

definition fits :: "nat \<Rightarrow> string option \<Rightarrow> bool" where
  "fits n s \<longleftrightarrow> (case s of None \<Rightarrow> True | Some t \<Rightarrow> length t \<le> n)"

definition event_fits :: "presence_ev \<Rightarrow> presence_extras \<Rightarrow> bool" where
  "event_fits ev px \<longleftrightarrow> length (fst (pv_key ev)) \<le> 256 \<and> fits 256 (extra_text px ''epc'') \<and> fits 128 (extra_text px ''epc_hex'') \<and>
     fits 64 (extra_text px ''tid'') \<and> (case px_reader_antenna px of None \<Rightarrow> True | Some a \<Rightarrow> antenna_ok a)"

text \<open>The identity as the agent builds it: these four texts, or nothing for an EXIT.\<close>

definition agent_identity :: "presence_extras \<Rightarrow> bool" where
  "agent_identity px \<longleftrightarrow> px_identity px = [] \<or>
     (\<exists>e h i u. px_identity px = [(''epc'', e), (''epc_hex'', h), (''tid'', i), (''user_memory_hex'', u)])"

lemma map_of_opt_field: "map_of (opt_field k f x) k' = (if k' = k then map_option f x else None)"
  by (cases x) (auto simp: opt_field_def)

lemma map_of_without: "map_of (filter (\<lambda>(k, v). k \<noteq> a) d) k = (if k = a then None else map_of d k)"
  by (induction d) auto

lemma field_opt_present:
  assumes "map_of d k = map_option f x" and "\<And>v. x = Some v \<Longrightarrow> f v \<noteq> JNull \<and> coerce (f v) = Some v \<and> ok v"
  shows "field_opt coerce ok d k = Some x"
  using assms by (cases x) (auto simp: field_opt_def field_null_def)

definition stripped_identity :: "presence_extras \<Rightarrow> jobj" where
  "stripped_identity px = List.map_filter (\<lambda>(k, v). map_option (\<lambda>s. (k, JStr s)) v) (px_identity px)"

lemma stripped_lookup:
  assumes "agent_identity px" and "k \<in> {''epc'', ''epc_hex'', ''tid'', ''user_memory_hex''}"
  shows "map_of (stripped_identity px) k = map_option JStr (extra_text px k)"
  using assms by (auto simp: agent_identity_def stripped_identity_def extra_text_def List.map_filter_simps split: option.splits)

lemma stripped_others:
  assumes "agent_identity px" and "k \<in> {''epc_scheme'', ''epc_decoded''}"
  shows "map_of (stripped_identity px) k = None"
  using assms by (auto simp: agent_identity_def stripped_identity_def List.map_filter_simps split: option.splits)

lemma stripped_empty:
  assumes "agent_identity px"
  shows "stripped_identity px = [] \<longleftrightarrow> list_all (\<lambda>k. extra_text px k = None) [''epc'', ''epc_hex'', ''tid'', ''user_memory_hex'']"
  using assms by (auto simp: agent_identity_def stripped_identity_def extra_text_def List.map_filter_simps split: option.splits)

lemma identity_model_stripped:
  assumes "plain_coercions (de_base D)" and "agent_identity px" and "event_fits ev px"
  shows "identity_model D (JObj (stripped_identity px)) =
     Some \<lparr>id_epc = extra_text px ''epc'', id_epc_hex = extra_text px ''epc_hex'', id_epc_scheme = None, id_epc_decoded = None,
             id_tid = extra_text px ''tid'', id_user_memory_hex = extra_text px ''user_memory_hex''\<rparr>"
proof -
  have str: "as_str (de_base D) (JStr s) = Some s" for s using assms(1) by (simp add: plain_coercions_def)
  note look = stripped_lookup [OF assms(2)] stripped_others [OF assms(2)]
  have texts: "field_opt (as_str (de_base D)) ok (stripped_identity px) k = Some (extra_text px k)"
    if "k \<in> {''epc'', ''epc_hex'', ''tid'', ''user_memory_hex''}" and "\<And>s. extra_text px k = Some s \<Longrightarrow> ok s" for ok k
    by (rule field_opt_present [OF look(1) [OF that(1)]]) (simp add: str that(2))
  have none: "field_opt c ok (stripped_identity px) k = Some None" if "k \<in> {''epc_scheme'', ''epc_decoded''}"
    for c :: "json \<Rightarrow> 'a option" and ok k
    using look(2) [OF that] by (simp add: field_opt_def)
  have fit: "\<And>s. extra_text px ''epc'' = Some s \<Longrightarrow> at_most 256 s" "\<And>s. extra_text px ''epc_hex'' = Some s \<Longrightarrow> at_most 128 s"
      "\<And>s. extra_text px ''tid'' = Some s \<Longrightarrow> at_most 64 s"
    using assms(3) by (simp_all add: event_fits_def fits_def at_most_def)
  show ?thesis
    by (simp add: identity_model_def Let_def texts [of "''epc''", OF _ fit(1)] texts [of "''epc_hex''", OF _ fit(2)] texts [of "''tid''", OF _ fit(3)]
        texts [of "''user_memory_hex''"] any_value_def none)
qed

text \<open>What the server finds in the agent's payload.\<close>

definition event_body :: "edge_config \<Rightarrow> readings \<Rightarrow> presence_ev \<Rightarrow> presence_extras \<Rightarrow> jobj" where
  "event_body config rd ev px = filter (\<lambda>(k, v). k \<noteq> ''device_id'') (presence_payload config rd ev px)"

lemma event_lookup:
  "map_of (event_body config rd ev px) ''tag_id'' = Some (JStr (fst (pv_key ev)))"
  "map_of (event_body config rd ev px) ''timestamp'' = Some (JStr (isoformat (to_utc rd (px_observed_at px))))"
  "map_of (event_body config rd ev px) ''signal_strength'' = map_option JFloat (pv_signal ev)"
  "map_of (event_body config rd ev px) ''sensor_data'' = map_option JObj (if pv_transition ev = ENTER then px_sensor_data px else None)"
  "map_of (event_body config rd ev px) ''location'' = None"
  "map_of (event_body config rd ev px) ''identity'' = (if stripped_identity px = [] then None else Some (JObj (stripped_identity px)))"
  "map_of (event_body config rd ev px) ''tag_data'' = map_option JObj (if pv_transition ev = ENTER then px_tag_data px else None)"
  "map_of (event_body config rd ev px) ''reader_antenna'' = map_option JInt (px_reader_antenna px)"
  "map_of (presence_payload config rd ev px) ''v'' = None" "map_of (presence_payload config rd ev px) ''t'' = None"
  by (simp_all add: event_body_def map_of_without presence_payload_def Let_def map_of_opt_field map_add_def stripped_identity_def [symmetric]
      split: option.split)

lemma event_is_accepted:
  assumes D: "plain_coercions (de_base D)" 
    and ts: "de_datetime D (JStr (isoformat (to_utc rd (px_observed_at px)))) = Some (to_utc rd (px_observed_at px))"
    and "agent_identity px" and fit: "event_fits ev px"
  shows "tag_read_create D (ec_device_id config) (event_body config rd ev px) = Some (read_of_event config rd ev px)"
proof -
  let ?b = "event_body config rd ev px"
  note look = event_lookup [of config rd ev px]
  have str: "as_str (de_base D) (JStr s) = Some s" "as_float (de_base D) (JFloat x) = Some x" "as_int (de_base D) (JInt n) = Some n" for s x n
    using D by (simp_all add: plain_coercions_def)
  have "field_opt (as_str (de_base D)) (at_most 256) ?b ''tag_id'' = Some (Some (fst (pv_key ev)))"
    using fit by (simp add: field_opt_def field_null_def look(1) str at_most_def event_fits_def)
  moreover have "field_req (de_datetime D) any_value ?b ''timestamp'' = Some (to_utc rd (px_observed_at px))"
    by (simp add: field_req_def look(2) ts any_value_def)
  moreover have "field_opt (as_float (de_base D)) any_value ?b ''signal_strength'' = Some (pv_signal ev)"
    by (rule field_opt_present [OF look(3)]) (simp add: str any_value_def)
  moreover have "field_opt as_dict any_value ?b ''sensor_data'' = Some (if pv_transition ev = ENTER then px_sensor_data px else None)"
    by (rule field_opt_present [OF look(4)]) (simp add: any_value_def)
  moreover have "field_opt (location_model D) any_value ?b ''location'' = Some None"
    by (simp add: field_opt_def look(5))
  moreover have "field_opt (identity_model D) any_value ?b ''identity'' = Some (extra_identity px)"
    by (simp add: field_opt_def field_null_def look(6) identity_model_stripped [OF D assms(3) fit] any_value_def extra_identity_def
        stripped_empty [OF assms(3)])
  moreover have "field_opt as_dict any_value ?b ''tag_data'' = Some (if pv_transition ev = ENTER then px_tag_data px else None)"
    by (rule field_opt_present [OF look(7)]) (simp add: any_value_def)
  moreover have "field_opt (as_int (de_base D)) antenna_ok ?b ''reader_antenna'' = Some (px_reader_antenna px)"
    by (rule field_opt_present [OF look(8)]) (use fit in \<open>simp add: str event_fits_def\<close>)
  ultimately show ?thesis
    by (simp add: tag_read_create_def Let_def read_of_event_def)
qed

text \<open>A presence event that the agent publishes is accepted by the subscriber as exactly one read, of its device, tag and time;
  an EXIT becomes a read like an ENTER, because the transition has no field on the server.\<close>

theorem agent_event_is_one_read:
  assumes "ec_topics config = default_topics" and "topic config ''tag-reads'' = Inr tp"
    and "me_loads env payload = Loaded (JObj (presence_payload config rd ev px))"
    and "plain_coercions (de_base (me_decoders env))" 
    and "de_datetime (me_decoders env) (JStr (isoformat (to_utc rd (px_observed_at px)))) = Some (to_utc rd (px_observed_at px))"
    and "agent_identity px" and "event_fits ev px"
  shows "handle_message env \<lparr>mm_topic = tp, mm_payload = payload\<rparr> su =
    (Inr (), mqtt_session (ingest_reads env (ec_tenant_id config) [read_of_event config rd ev px]) su)"
proof -
  have tp: "tp = device_topic (ec_tenant_id config) (ec_device_id config) ''tag-reads''" using default_topic_text [OF assms(1,2)] by simp
  have "collect_reads env t (ec_device_id config) topic' [JObj (presence_payload config rd ev px)] su = ([read_of_event config rd ev px], su)" for t topic'
    using event_is_accepted [OF assms(4,5,6,7), of config] by (simp add: event_body_def Let_def)
  then show ?thesis
    by (simp add: tp routed [OF _ refl] KNOWN_SUFFIXES_def handle_tag_read_def assms(3) event_lookup(9,10) jget_def is_int_def handle_items_def)
qed

definition demo_config :: edge_config where
  "demo_config = \<lparr>ec_tenant_id = 1, ec_device_id = 7, ec_batch_max_events = 10, ec_topics = default_topics, ec_firmware_version = []\<rparr>"

definition demo_readings :: readings where
  "demo_readings = \<lparr>rd_guard = 0, rd_log = 0, rd_mono = 0, rd_utc = 0, rd_enqueued = 0, rd_evict = 0\<rparr>"

lemma demo_topic: "topic demo_config ''tag-reads'' = Inr (device_topic 1 7 ''tag-reads'')"
  by (simp add: EdgeAgent.topic_def demo_config_def default_topics_def device_topic_def)

definition demo_leaving :: mqtt_env where
  "demo_leaving = (demo_mqtt (JObj (presence_payload demo_config demo_readings (exit_event 5 (''E280'', ''1'')) no_extras)))
     \<lparr>me_decoders := \<lparr>de_base = strict, de_datetime = (\<lambda>_. Some 0), de_uuid = (\<lambda>_. None)\<rparr>\<rparr>"

theorem agent_event_is_one_read_witness:
  "\<exists>rd. handle_message demo_leaving \<lparr>mm_topic = device_topic 1 7 ''tag-reads'', mm_payload = []\<rparr> new_subscriber =
       (Inr (), mqtt_session (ingest_reads demo_leaving 1 [rd]) new_subscriber) \<and> rd_tag_id rd = Some ''E280''"
proof -
  let ?ev = "exit_event 5 (''E280'', ''1'')"
  have "ec_topics demo_config = default_topics" by (simp add: demo_config_def)
  moreover have "me_loads demo_leaving [] = Loaded (JObj (presence_payload demo_config demo_readings ?ev no_extras))"
    by (simp add: demo_leaving_def demo_mqtt_def)
  moreover have "plain_coercions (de_base (me_decoders demo_leaving))" by (simp add: demo_leaving_def plain_coercions_def strict_def)
  moreover have "de_datetime (me_decoders demo_leaving) (JStr (isoformat (to_utc demo_readings (px_observed_at no_extras)))) =
      Some (to_utc demo_readings (px_observed_at no_extras))"
    by (simp add: demo_leaving_def to_utc_def no_extras_def demo_readings_def)
  moreover have "agent_identity no_extras" by (simp add: agent_identity_def no_extras_def)
  moreover have "event_fits ?ev no_extras" by (simp add: event_fits_def exit_event_def extra_text_def no_extras_def fits_def)
  ultimately have "handle_message demo_leaving \<lparr>mm_topic = device_topic 1 7 ''tag-reads'', mm_payload = []\<rparr> new_subscriber =
      (Inr (), mqtt_session (ingest_reads demo_leaving (ec_tenant_id demo_config) [read_of_event demo_config demo_readings ?ev no_extras]) new_subscriber)"
    using demo_topic by (intro agent_event_is_one_read)
  moreover have "ec_tenant_id demo_config = 1" by (simp add: demo_config_def)
  moreover have "rd_tag_id (read_of_event demo_config demo_readings ?ev no_extras) = Some ''E280''"
    by (simp add: read_of_event_def exit_event_def Let_def)
  ultimately show ?thesis by metis
qed

end
