(* ===== verification/InventoryWorker.thy ===== *)
theory InventoryWorker
  imports InventoryLaws Evaluator UsageMeter PyTime "HOL-Library.Multiset"
begin

text \<open>
  The periodic evaluator of inventory rules (\<open>workers/inventory_rule_worker.py\<close>): rules on low stock at every
  pass, rules on expiring lots and the gauge of items in stock once a day.  A pass is one transaction on the
  alerts; counters and published events outlive an exception.
\<close>

section \<open>State\<close>

record iw_state =
  iw_alerts :: "alert list"
  iw_meter :: UsageMeter.meter
  iw_usage :: usage_table
  iw_published :: "alert_event list"
  iw_last_expiring_run_date :: "int option"
  iw_last_snapshot_date :: "int option"

text \<open>What a pass reads: the rules, the inventory, the clock, the local date of the usage meter, fresh identifiers.\<close>

record iw_env =
  we_rules :: "rule list"
  we_db :: inventory
  we_now :: datetime
  we_local_today :: int
  we_uuid4 :: "nat \<Rightarrow> uuid"

definition DATETIME_MIN :: datetime where
  "DATETIME_MIN = - 62135596800000000"

text \<open>\<open>UUID(str(x))\<close>: the text of any other JSON value is no UUID.\<close>

fun uuid_of_str :: "json \<Rightarrow> py_exn + uuid" where
  "uuid_of_str (JStr s) = uuid_of_string s"
| "uuid_of_str (JInt i) = uuid_of_string (str_int i)"
| "uuid_of_str _ = Inl (ValueError ''badly formed hexadecimal UUID string'')"

fun str_of :: "json \<Rightarrow> string" where
  "str_of (JStr s) = s"
| "str_of (JInt i) = str_int i"
| "str_of _ = ''''"

definition opt_uuid_of :: "json \<Rightarrow> py_exn + uuid option" where
  "opt_uuid_of raw = (if truthy raw then map_sum id Some (uuid_of_str raw) else Inr None)"

section \<open>Operations\<close>

definition tick_meter :: "uuid \<Rightarrow> string \<Rightarrow> string \<Rightarrow> iw_state \<Rightarrow> iw_state" where
  "tick_meter tenant_id dimension u st = st\<lparr>iw_meter := record_usage tenant_id dimension u 1 (iw_meter st)\<rparr>"

definition fire_inventory_alert :: "iw_env \<Rightarrow> rule \<Rightarrow> alert_message \<Rightarrow> jobj \<Rightarrow> iw_state \<Rightarrow> iw_state" where
  "fire_inventory_alert env rule message context_extra st =
     (let alert = create_alert (we_uuid4 env (length (iw_published st))) (we_now env) (r_tenant_id rule) (r_id rule) None ''warning''
            message (r_name rule, condition_type rule, condition_config rule, context_extra);
          st1 = tick_meter (r_tenant_id rule) ''alerts_fired'' ''events'' (st\<lparr>iw_alerts := iw_alerts st @ [alert]\<rparr>)
      in st1\<lparr>iw_published := iw_published st1 @
           [\<lparr>pe_alert = alert, pe_action_type = action_type rule, pe_action_config = action_config rule\<rparr>]\<rparr>)"

definition level_sum :: "uuid option \<Rightarrow> (uuid \<times> uuid option \<times> uuid option \<times> int) list \<Rightarrow> int" where
  "level_sum lot_id levels =
     fold (\<lambda>(p, l, z, n) qty. if lot_id \<noteq> None \<and> l \<noteq> lot_id then qty else qty + n) levels 0"

definition below_product_threshold :: "jobj \<Rightarrow> py_exn + uuid \<times> int" where
  "below_product_threshold cfg =
     and_then (uuid_of_str (jget cfg ''product_id'')) (\<lambda>product_id.
     and_then (to_int (jget_or cfg ''threshold'' (JInt 0))) (\<lambda>threshold. Inr (product_id, threshold)))"

definition scan_below_rule :: "iw_env \<Rightarrow> rule \<Rightarrow> iw_state \<Rightarrow> py_exn option \<times> iw_state" where
  "scan_below_rule env rule st =
     (let st = tick_meter (r_tenant_id rule) ''rule_evaluations'' ''evaluations'' st; cfg = condition_config rule
      in case below_product_threshold cfg of
           Inl e \<Rightarrow> (if value_or_type_error e then None else Some e, st)
         | Inr (product_id, threshold) \<Rightarrow>
             (case opt_uuid_of (jget cfg ''lot_id'') of
                Inl e \<Rightarrow> (Some e, st)
              | Inr lot_id \<Rightarrow> (case opt_uuid_of (jget cfg ''zone_id'') of
                  Inl e \<Rightarrow> (Some e, st)
                | Inr zone_id \<Rightarrow>
                    (let qty = level_sum lot_id (stock_levels (r_tenant_id rule) (Some product_id) zone_id (we_db env))
                     in if qty \<ge> threshold then (None, st)
                        else (None, fire_inventory_alert env rule (StockBelow (r_name rule) product_id qty threshold)
                          [(''current_quantity'', JInt qty), (''threshold'', JInt threshold), (''product_id'', JStr (str_uuid product_id)),
                           (''lot_id'', json_uuid lot_id), (''zone_id'', json_uuid zone_id)] st)))))"

definition scan_below_threshold :: "iw_env \<Rightarrow> iw_state \<Rightarrow> py_exn option \<times> iw_state" where
  "scan_below_threshold env st =
     for_each (scan_below_rule env) (get_active_rules_by_condition_types_all_tenants (we_rules env) [''stock.below_threshold'']) st"

definition expiring_lots :: "iw_env \<Rightarrow> uuid \<Rightarrow> datetime \<Rightarrow> uuid option \<Rightarrow> lot list" where
  "expiring_lots env tenant_id cutoff product_id =
     opt_filter product_id (\<lambda>l p. l_product_id l = p)
       (filter (\<lambda>l. l_tenant_id l = tenant_id \<and> (\<exists>t. l_expires_at l = Some t \<and> we_now env \<le> t \<and> t \<le> cutoff)) (lots (we_db env)))"

definition scan_expiring_rule :: "iw_env \<Rightarrow> rule \<Rightarrow> iw_state \<Rightarrow> py_exn option \<times> iw_state" where
  "scan_expiring_rule env rule st =
     (let st = tick_meter (r_tenant_id rule) ''rule_evaluations'' ''evaluations'' st; cfg = condition_config rule
      in case to_int (jget_or cfg ''days'' (JInt 0)) of
           Inl e \<Rightarrow> (if value_or_type_error e then None else Some e, st)
         | Inr days \<Rightarrow>
             (let cutoff = we_now env + seconds (days * 86400); raw = jget cfg ''product_id''
              in if cutoff > DATETIME_MAX \<or> cutoff < DATETIME_MIN then (Some OverflowError, st)
                 else case opt_uuid_of raw of
                   Inl e \<Rightarrow> (if value_or_type_error e then None else Some e, st)
                 | Inr product_id \<Rightarrow>
                     (let found = expiring_lots env (r_tenant_id rule) cutoff product_id
                      in if found = [] then (None, st)
                         else (None, fire_inventory_alert env rule (LotsExpiring (r_name rule) (length found) days)
                           [(''lot_ids'', JList (map (\<lambda>l. JStr (str_uuid (l_id l))) found)), (''days'', JInt days),
                            (''product_id'', if truthy raw then JStr (str_of raw) else JNull)] st))))"

definition scan_expiring_within :: "iw_env \<Rightarrow> iw_state \<Rightarrow> py_exn option \<times> iw_state" where
  "scan_expiring_within env st =
     for_each (scan_expiring_rule env) (get_active_rules_by_condition_types_all_tenants (we_rules env) [''stock.expiring_within'']) st"

definition in_stock_by_tenant :: "inventory \<Rightarrow> (uuid, int) pydict" where
  "in_stock_by_tenant db =
     fold (\<lambda>s d. dict_set (s_tenant_id s) (1 + (case map_of d (s_tenant_id s) of None \<Rightarrow> 0 | Some n \<Rightarrow> n)) d)
       (filter (\<lambda>s. s_state s = InStock) (stock_items db)) []"

definition snapshot_active_stock :: "iw_env \<Rightarrow> iw_state \<Rightarrow> iw_state" where
  "snapshot_active_stock env st =
     st\<lparr>iw_usage := fold (\<lambda>(t, n) tbl. record_snapshot t ''stock_items_active'' ''items'' n (we_local_today env) tbl)
          (in_stock_by_tenant (we_db env)) (iw_usage st)\<rparr>"

text \<open>A failed scan ends the pass without a commit: the alerts of the pass are gone, the rest stays.\<close>

definition iw_run_once :: "iw_env \<Rightarrow> iw_state \<Rightarrow> py_exn option \<times> iw_state" where
  "iw_run_once env st =
     (let today = we_now env div us_per_day; before = iw_alerts st
      in case scan_below_threshold env st of
           (Some e, st1) \<Rightarrow> (Some e, st1\<lparr>iw_alerts := before\<rparr>)
         | (None, st1) \<Rightarrow>
             (case (if iw_last_expiring_run_date st1 \<noteq> Some today
                    then (case scan_expiring_within env st1 of
                            (Some e, st2) \<Rightarrow> (Some e, st2) | (None, st2) \<Rightarrow> (None, st2\<lparr>iw_last_expiring_run_date := Some today\<rparr>))
                    else (None, st1)) of
                (Some e, st2) \<Rightarrow> (Some e, st2\<lparr>iw_alerts := before\<rparr>)
              | (None, st2) \<Rightarrow>
                  (None, if iw_last_snapshot_date st2 \<noteq> Some today
                         then (snapshot_active_stock env st2)\<lparr>iw_last_snapshot_date := Some today\<rparr> else st2)))"

text \<open>The loop logs an exception and goes on.\<close>

definition iw_loop :: "iw_env list \<Rightarrow> iw_state \<Rightarrow> iw_state" where
  "iw_loop envs st = fold (\<lambda>env st. snd (iw_run_once env st)) envs st"

section \<open>Low stock\<close>

definition in_stock_count :: "uuid \<Rightarrow> uuid \<Rightarrow> uuid option \<Rightarrow> uuid option \<Rightarrow> inventory \<Rightarrow> int" where
  "in_stock_count t p lot_id zone_id db =
     int (length (filter (\<lambda>s. s_state s = InStock \<and> s_tenant_id s = t \<and> s_product_id s = p \<and>
       lot_id \<in> {None, s_lot_id s} \<and> zone_id \<in> {None, s_current_zone_id s}) (stock_items db)))"

lemma tally_sum:
  "(\<Sum>(k, n) \<leftarrow> tally ss d. if Q k then n else 0) =
     (\<Sum>(k, n) \<leftarrow> d. if Q k then n else 0) + int (length (filter (\<lambda>s. Q (level_of s)) ss))"
proof (induction ss arbitrary: d)
  case (Cons s ss)
  have "(\<Sum>(k, n) \<leftarrow> dict_set k0 v d. if Q k then n else 0) =
      (\<Sum>(k, n) \<leftarrow> d. if Q k then n else 0) + (if Q k0 then v - (case map_of d k0 of None \<Rightarrow> 0 | Some n \<Rightarrow> n) else 0)" for k0 v
    by (induction d) auto
  note set_sum = this
  have "tally (s # ss) d = tally ss (dict_set (level_of s) (1 + (case map_of d (level_of s) of None \<Rightarrow> 0 | Some n \<Rightarrow> n)) d)"
    by (simp add: tally_def)
  then show ?case by (simp add: Cons.IH set_sum)
qed (simp add: tally_def)

lemma level_sum_is_sum:
  "level_sum lot_id levels = (\<Sum>(p, l, z, n) \<leftarrow> levels. if lot_id \<noteq> None \<and> l \<noteq> lot_id then 0 else n)"
proof -
  have "fold (\<lambda>(p, l, z, n) qty. if lot_id \<noteq> None \<and> l \<noteq> lot_id then qty else qty + n) levels q =
      q + (\<Sum>(p, l, z, n) \<leftarrow> levels. if lot_id \<noteq> None \<and> l \<noteq> lot_id then 0 else n)" for q :: int
    by (induction levels arbitrary: q) (auto split: if_splits)
  then show ?thesis by (simp add: level_sum_def)
qed

lemma sum_order_desc: "(\<Sum>x \<leftarrow> order_desc key xs. f x) = (\<Sum>x \<leftarrow> xs. f x :: int)"
  unfolding order_desc_def sum_mset_sum_list [symmetric] by simp

lemma level_sum_counts: "level_sum lot_id (stock_levels t (Some p) zone_id db) = in_stock_count t p lot_id zone_id db"
proof -
  let ?Q = "\<lambda>(t', p', l, z). t' = t \<and> p' = p \<and> lot_id \<in> {None, l} \<and> zone_id \<in> {None, z}"
  have filt: "(\<Sum>x \<leftarrow> filter P xs. f x) = (\<Sum>x \<leftarrow> xs. if P x then f x else 0 :: int)" for P f and xs :: "(level_key \<times> int) list"
    by (induction xs) auto
  have "level_sum lot_id (stock_levels t (Some p) zone_id db) = (\<Sum>(k, n) \<leftarrow> stock_levels_view db. if ?Q k then n else 0)"
    unfolding level_sum_is_sum stock_levels_def sum_order_desc
    by (cases zone_id) (auto simp: opt_filter_def filt o_def case_prod_unfold intro!: arg_cong [where f = sum_list] map_cong)
  also have "\<dots> = int (length (filter (\<lambda>s. ?Q (level_of s)) (filter (\<lambda>s. s_state s = InStock) (stock_items db))))"
    by (simp add: view_is_tally tally_sum)
  also have "\<dots> = in_stock_count t p lot_id zone_id db"
    unfolding in_stock_count_def filter_filter level_of_def by (rule arg_cong [where f = "\<lambda>xs. int (length xs)"], rule filter_cong) auto
  finally show ?thesis .
qed

text \<open>A rule whose optional lot and zone are UUIDs; and a rule that such stock is low for.\<close>

definition scannable :: "rule \<Rightarrow> bool" where
  "scannable rule \<longleftrightarrow> (case below_product_threshold (condition_config rule) of
     Inl e \<Rightarrow> value_or_type_error e
   | Inr _ \<Rightarrow> (\<exists>l. opt_uuid_of (jget (condition_config rule) ''lot_id'') = Inr l) \<and>
       (\<exists>z. opt_uuid_of (jget (condition_config rule) ''zone_id'') = Inr z))"

definition low :: "iw_env \<Rightarrow> rule \<Rightarrow> bool" where
  "low env rule \<longleftrightarrow> (\<exists>p threshold l z. below_product_threshold (condition_config rule) = Inr (p, threshold) \<and>
     opt_uuid_of (jget (condition_config rule) ''lot_id'') = Inr l \<and> opt_uuid_of (jget (condition_config rule) ''zone_id'') = Inr z \<and>
     in_stock_count (r_tenant_id rule) p l z (we_db env) < threshold)"

lemma scan_below_rule_alerts:
  assumes "scannable rule"
  shows "\<exists>st'. scan_below_rule env rule st = (None, st') \<and>
    map al_rule_id (iw_alerts st') = map al_rule_id (iw_alerts st) @ (if low env rule then [r_id rule] else []) \<and>
    map pe_alert (iw_published st') = map pe_alert (iw_published st) @ drop (length (iw_alerts st)) (iw_alerts st')"
  using assms unfolding scan_below_rule_def
  by (cases "below_product_threshold (condition_config rule)")
    (auto simp: scannable_def low_def level_sum_counts Let_def tick_meter_def fire_inventory_alert_def create_alert_def split: if_splits)

text \<open>C24: provided that no rule on low stock of any tenant names a lot or zone that is no UUID (one such rule ends the scan,
  \<open>malformed_rule_stops_worker\<close>), a scan does not fail, and it raises one alert for each enabled rule whose product has
  fewer items in stock (in the rule's lot and zone) than its threshold, in the order of the rules, and no other; each
  alert is published.\<close>

theorem low_stock_alerts:
  assumes "\<forall>rule \<in> set (get_active_rules_by_condition_types_all_tenants (we_rules env) [''stock.below_threshold'']). scannable rule"
  shows "\<exists>st'. scan_below_threshold env st = (None, st') \<and>
    map al_rule_id (iw_alerts st') = map al_rule_id (iw_alerts st) @
      map r_id (filter (low env) (get_active_rules_by_condition_types_all_tenants (we_rules env) [''stock.below_threshold''])) \<and>
    length (iw_published st') - length (iw_published st) = length (iw_alerts st') - length (iw_alerts st)"
proof -
  have "\<forall>rule \<in> set rules. scannable rule \<Longrightarrow> \<exists>st'. for_each (scan_below_rule env) rules st = (None, st') \<and>
      map al_rule_id (iw_alerts st') = map al_rule_id (iw_alerts st) @ map r_id (filter (low env) rules) \<and>
      length (iw_published st') + length (iw_alerts st) = length (iw_published st) + length (iw_alerts st')" for rules st
  proof (induction rules arbitrary: st)
    case (Cons rule rules)
    obtain st1 where st1: "scan_below_rule env rule st = (None, st1)"
      "map al_rule_id (iw_alerts st1) = map al_rule_id (iw_alerts st) @ (if low env rule then [r_id rule] else [])"
      "map pe_alert (iw_published st1) = map pe_alert (iw_published st) @ drop (length (iw_alerts st)) (iw_alerts st1)"
      using scan_below_rule_alerts [of rule env st] Cons.prems by auto
    have "length (iw_published st1) = length (iw_published st) + (length (iw_alerts st1) - length (iw_alerts st))"
      using arg_cong [OF st1(3), of length] by simp
    moreover have "length (iw_alerts st) \<le> length (iw_alerts st1)" using arg_cong [OF st1(2), of length] by (auto split: if_splits)
    moreover obtain st2 where "for_each (scan_below_rule env) rules st1 = (None, st2)"
      "map al_rule_id (iw_alerts st2) = map al_rule_id (iw_alerts st1) @ map r_id (filter (low env) rules)"
      "length (iw_published st2) + length (iw_alerts st1) = length (iw_published st1) + length (iw_alerts st2)"
      using Cons.IH [of st1] Cons.prems by auto
    ultimately show ?case using st1(1,2) by auto
  qed simp
  from this [OF assms, of st] show ?thesis unfolding scan_below_threshold_def by (elim exE) (intro exI, auto)
qed

definition low_rule :: "string \<Rightarrow> rule" where
  "low_rule lot_id = \<lparr>r_id = 11, r_tenant_id = 1, r_name = ''low'', r_description = None, condition_type = ''stock.below_threshold'',
     condition_config = [(''product_id'', JStr (str_uuid 5)), (''threshold'', JInt 3), (''lot_id'', JStr lot_id)], action_type = ''webhook'',
     action_config = [], scope_device_id = None, enabled = True, r_created_at = 0, r_updated_at = 0, event_type = None, trigger = None,
     processor = None, confidence_threshold = 0, category_ids = [], asset_label_filters = JNull, zone_label_filters = JNull,
     site_label_filters = JNull, integration_ids = None\<rparr>"

section \<open>One malformed rule\<close>

text \<open>What a scan of rules on low stock leaves alone.\<close>

lemma scan_below_keeps:
  "iw_usage (snd (scan_below_threshold env st)) = iw_usage st \<and>
   iw_last_expiring_run_date (snd (scan_below_threshold env st)) = iw_last_expiring_run_date st \<and>
   iw_last_snapshot_date (snd (scan_below_threshold env st)) = iw_last_snapshot_date st"
  unfolding scan_below_threshold_def
  by (rule for_each_inv [where P = "\<lambda>st'. iw_usage st' = iw_usage st \<and>
        iw_last_expiring_run_date st' = iw_last_expiring_run_date st \<and> iw_last_snapshot_date st' = iw_last_snapshot_date st"])
    (auto simp: scan_below_rule_def fire_inventory_alert_def tick_meter_def Let_def split: sum.split if_splits)

definition poisoned :: "iw_env \<Rightarrow> bool" where
  "poisoned env \<longleftrightarrow> (\<exists>rule \<in> set (get_active_rules_by_condition_types_all_tenants (we_rules env) [''stock.below_threshold'']).
     isl (opt_uuid_of (jget (condition_config rule) ''lot_id'')) \<and> \<not> isl (below_product_threshold (condition_config rule)))"

lemma poisoned_run:
  assumes "poisoned env"
  shows "\<exists>e. fst (iw_run_once env st) = Some e \<and> iw_alerts (snd (iw_run_once env st)) = iw_alerts st \<and>
    iw_usage (snd (iw_run_once env st)) = iw_usage st \<and>
    iw_last_expiring_run_date (snd (iw_run_once env st)) = iw_last_expiring_run_date st \<and>
    iw_last_snapshot_date (snd (iw_run_once env st)) = iw_last_snapshot_date st"
proof -
  obtain rule where rule: "rule \<in> set (get_active_rules_by_condition_types_all_tenants (we_rules env) [''stock.below_threshold''])"
    "isl (opt_uuid_of (jget (condition_config rule) ''lot_id''))" "\<not> isl (below_product_threshold (condition_config rule))"
    using assms by (auto simp: poisoned_def)
  obtain p where p: "below_product_threshold (condition_config rule) = Inr p"
    using rule(3) by (cases "below_product_threshold (condition_config rule)") auto
  obtain e where e: "opt_uuid_of (jget (condition_config rule) ''lot_id'') = Inl e"
    using rule(2) by (cases "opt_uuid_of (jget (condition_config rule) ''lot_id'')") auto
  have "\<exists>e. fst (scan_below_rule env rule st) = Some e" for st
    by (cases p) (simp add: scan_below_rule_def Let_def p e)
  then obtain e where "fst (scan_below_threshold env st) = Some e"
    unfolding scan_below_threshold_def by (rule for_each_fails [OF rule(1), THEN exE])
  then obtain st1 where st1: "scan_below_threshold env st = (Some e, st1)" by (cases "scan_below_threshold env st") simp
  with scan_below_keeps [of env st] show ?thesis by (simp add: iw_run_once_def Let_def)
qed

text \<open>While any tenant has one enabled rule on low stock whose lot is no UUID, the worker is dead for all tenants: no pass
  ever stores an alert, looks for expiring lots or writes the daily gauge.\<close>

theorem malformed_rule_stops_worker:
  assumes "\<forall>env \<in> set envs. poisoned env"
  shows "iw_alerts (iw_loop envs st) = iw_alerts st \<and> iw_usage (iw_loop envs st) = iw_usage st \<and>
    iw_last_expiring_run_date (iw_loop envs st) = iw_last_expiring_run_date st \<and>
    iw_last_snapshot_date (iw_loop envs st) = iw_last_snapshot_date st"
  using assms
proof (induction envs arbitrary: st)
  case (Cons env envs)
  then obtain e where "iw_alerts (snd (iw_run_once env st)) = iw_alerts st" "iw_usage (snd (iw_run_once env st)) = iw_usage st"
    "iw_last_expiring_run_date (snd (iw_run_once env st)) = iw_last_expiring_run_date st"
    "iw_last_snapshot_date (snd (iw_run_once env st)) = iw_last_snapshot_date st"
    using poisoned_run [of env st] by auto
  moreover have "iw_loop (env # envs) st = iw_loop envs (snd (iw_run_once env st))" by (simp add: iw_loop_def)
  ultimately show ?case using Cons.IH [of "snd (iw_run_once env st)"] Cons.prems by simp
qed (simp add: iw_loop_def)

definition demo_iw_env :: "string \<Rightarrow> iw_env" where
  "demo_iw_env lot_id = \<lparr>we_rules = [low_rule lot_id], we_db = demo_db, we_now = 0, we_local_today = 0, we_uuid4 = of_nat\<rparr>"

definition iw_start :: iw_state where
  "iw_start = \<lparr>iw_alerts = [], iw_meter = new_meter, iw_usage = [], iw_published = [], iw_last_expiring_run_date = None,
     iw_last_snapshot_date = None\<rparr>"

lemma demo_rules [simp]:
  "get_active_rules_by_condition_types_all_tenants (we_rules (demo_iw_env lot_id)) [''stock.below_threshold''] = [low_rule lot_id]"
  by (simp add: demo_iw_env_def low_rule_def get_active_rules_by_condition_types_all_tenants_def rule_to_response_def)

lemma demo_threshold: "below_product_threshold (condition_config (low_rule lot_id)) = Inr (5, 3)"
proof -
  have "uuid_of_string (str_uuid 5) = Inr 5" by code_simp
  then show ?thesis by (simp add: low_rule_def below_product_threshold_def jget_def jget_or_def)
qed

theorem malformed_rule_stops_worker_witness: "iw_alerts (iw_loop [demo_iw_env ''x'', demo_iw_env ''x''] iw_start) = []"
proof -
  have "isl (opt_uuid_of (JStr ''x''))" by code_simp
  then have "poisoned (demo_iw_env ''x'')"
    by (simp add: poisoned_def demo_threshold) (simp add: low_rule_def jget_def)
  then show ?thesis using malformed_rule_stops_worker [of "[demo_iw_env ''x'', demo_iw_env ''x'']" iw_start] by (simp add: iw_start_def)
qed

theorem low_stock_alerts_witness:
  "\<exists>st'. scan_below_threshold (demo_iw_env '''') iw_start = (None, st') \<and> map al_rule_id (iw_alerts st') = [11]"
proof -
  have lot: "jget (condition_config (low_rule '''')) ''lot_id'' = JStr ''''" "jget (condition_config (low_rule '''')) ''zone_id'' = JNull"
    "r_id (low_rule '''') = 11" "r_tenant_id (low_rule '''') = 1"
    by (simp_all add: low_rule_def jget_def)
  have "scannable (low_rule '''')" by (simp add: scannable_def demo_threshold lot opt_uuid_of_def)
  moreover have "low (demo_iw_env '''') (low_rule '''')"
    by (simp add: low_def demo_threshold lot opt_uuid_of_def demo_iw_env_def in_stock_count_def demo_db_def demo_item_def)
  ultimately show ?thesis using low_stock_alerts [of "demo_iw_env ''''" iw_start] lot(3) by (auto simp: iw_start_def)
qed

end
