(* ===== verification/TagRegistry.thy ===== *)
theory TagRegistry
  imports Steps Epc Tables RateLimits
begin

text \<open>
  The tag registry (\<open>services/tags.py\<close>, \<open>repositories/timescaledb/tags.py\<close>, \<open>api/routes/tags.py\<close>): the EPCs a tenant
  owns and their life cycle, the CSV import, the bulk changes with their confirmation tokens
  (\<open>core/bulk_confirmation_tokens.py\<close>), transfers to other tenants, and the two-person rule
  (\<open>services/pending_bulk_operations.py\<close>, \<open>api/routes/bulk_operations.py\<close>).  A request runs in one transaction; the
  tokens and the hourly limiter live in the process and are not rolled back.  Reading CSV and JSON, SHA-256 and the
  random tokens are parameters; bodies have passed their schemas.
\<close>

section \<open>State\<close>

record tag_row =
  tg_id :: uuid
  tg_tenant_id :: uuid
  tg_epc_hex :: string
  tg_gs1_uri :: "string option"
  tg_status :: string
  tg_source :: string
  tg_metadata :: "jobj option"
  tg_first_seen_at :: "datetime option"
  tg_last_seen_at :: "datetime option"

record pending_row =
  pb_id :: uuid
  pb_tenant_id :: uuid
  pb_operation :: string
  pb_status :: string
  pb_requested_by :: "uuid option"
  pb_decided_by :: "uuid option"
  pb_content_hash :: string
  pb_row_count :: nat
  pb_sample :: "string list"
  pb_payload :: string
  pb_request_id :: "uuid option"
  pb_created_at :: datetime
  pb_decided_at :: "datetime option"
  pb_executed_at :: "datetime option"
  pb_expires_at :: datetime

record transfer_row =
  tt_id :: uuid
  tt_request_id :: uuid
  tt_from_tenant_id :: uuid
  tt_to_tenant_id :: uuid
  tt_epc_hex :: string
  tt_status :: string
  tt_requested_by :: uuid

record audit_entry =
  al_tenant_id :: uuid
  al_user_id :: "uuid option"
  al_action :: string
  al_resource_type :: string
  al_resource_id :: uuid
  al_changes :: jobj
  al_request_id :: "uuid option"
  al_batch :: "string option"
  al_count :: "nat option"
  al_pending_id :: "uuid option"
  al_approved_by :: "uuid option"

record token_entry =
  te_tenant_id :: uuid
  te_user_id :: "uuid option"
  te_operation :: string
  te_content_hash :: string
  te_expires_at :: real

record registry =
  rg_tags :: "tag_row list"
  rg_pending :: "pending_row list"
  rg_transfers :: "transfer_row list"
  rg_audit :: "audit_entry list"
  rg_tokens :: "(string, token_entry) pydict"
  rg_imports :: hourly
  rg_fresh :: nat \<comment> \<open>how many identifiers \<open>uuid4\<close> has drawn\<close>
  rg_minted :: nat \<comment> \<open>how many tokens have been drawn\<close>

record tenant_settings =
  ts_id :: uuid
  ts_slug :: string
  ts_status :: string
  ts_import_limit :: int
  ts_two_person_threshold :: int

text \<open>A row of \<open>entity_labels\<close> joined with its label.\<close>

record label_row =
  lb_tenant_id :: uuid
  lb_entity_type :: string
  lb_key :: string
  lb_entity_id :: uuid
  lb_value :: string

datatype csv_text = NotUtf8 | NoHeader | CsvTable "string list" "(string, string option) pydict list"

record registry_env =
  re_now :: datetime
  re_monotonic :: real
  re_uuid4 :: "nat \<Rightarrow> uuid"
  re_token :: "nat \<Rightarrow> string"
  re_sha256 :: "string \<Rightarrow> string"
  re_dumps :: "json \<Rightarrow> string"
  re_loads :: "string \<Rightarrow> jobj"
  re_csv :: "string \<Rightarrow> csv_text"
  re_tenants :: "tenant_settings list"
  re_bindings :: "(uuid \<times> string \<times> string) list" \<comment> \<open>\<open>stock_items\<close>: tenant, kind, bound text\<close>
  re_labels :: "label_row list"

record actor =
  ac_tenant_id :: uuid
  ac_user_id :: "uuid option"
  ac_role :: string

definition http_error :: "nat \<Rightarrow> py_exn" where
  "http_error code = OtherError (''HTTPException '' @ str_nat code)"

definition require_role :: "string set \<Rightarrow> actor \<Rightarrow> ('s, unit) step" where
  "require_role roles user = (if ac_role user \<in> roles then give () else lift_res (Inl (http_error 403)))"

definition fresh_uuid :: "registry_env \<Rightarrow> (registry, uuid) step" where
  "fresh_uuid env st = (Inr (re_uuid4 env (rg_fresh st)), st\<lparr>rg_fresh := Suc (rg_fresh st)\<rparr>)"

definition audit :: "audit_entry \<Rightarrow> (registry, unit) step" where
  "audit entry = change (\<lambda>st. st\<lparr>rg_audit := rg_audit st @ [entry]\<rparr>)"

text \<open>\<open>AuditLogger.log\<close> without its optional columns.\<close>

definition audit_entry_of :: "uuid \<Rightarrow> string \<Rightarrow> string \<Rightarrow> uuid \<Rightarrow> jobj \<Rightarrow> uuid option \<Rightarrow> audit_entry" where
  "audit_entry_of tenant_id action resource_type resource_id changes user_id =
     \<lparr>al_tenant_id = tenant_id, al_user_id = user_id, al_action = action, al_resource_type = resource_type, al_resource_id = resource_id,
      al_changes = changes, al_request_id = None, al_batch = None, al_count = None, al_pending_id = None, al_approved_by = None\<rparr>"

text \<open>\<open>get_session\<close>: the tables of a failed request are as before.\<close>

definition in_request :: "(registry, 'a) step \<Rightarrow> (registry, 'a) step" where
  "in_request m st =
     (case m st of
        (Inr a, st') \<Rightarrow> (Inr a, st')
      | (Inl e, st') \<Rightarrow> (Inl e, st'\<lparr>rg_tags := rg_tags st, rg_pending := rg_pending st, rg_transfers := rg_transfers st, rg_audit := rg_audit st\<rparr>))"

section \<open>The service\<close>

definition RESERVED_LABEL_KEYS :: "string set" where
  "RESERVED_LABEL_KEYS = {''batch'', ''batch.received_at'', ''batch.description'', ''batch.supplier''}"

definition is_reserved_label_key :: "string \<Rightarrow> bool" where
  "is_reserved_label_key key \<longleftrightarrow> key \<in> RESERVED_LABEL_KEYS"

definition parse_gs1_uri :: "string \<Rightarrow> py_exn + string option" where
  "parse_gs1_uri epc_hex =
     and_then (decode_epc_hex epc_hex) (\<lambda>(scheme, decoded).
       Inr (if scheme = ''raw'' then None else (case jget decoded ''uri'' of JStr s \<Rightarrow> Some s | _ \<Rightarrow> None)))"

definition OPERATOR_TRANSITIONS :: "(string, string list) pydict" where
  "OPERATOR_TRANSITIONS = [(''registered'', [''retired'', ''defective'']), (''active'', [''retired'', ''defective'']),
     (''retired'', []), (''defective'', []), (''transferred_out'', [])]"

definition transition_permitted :: "string \<Rightarrow> string \<Rightarrow> bool" where
  "transition_permitted cur target \<longleftrightarrow>
     cur = target \<or> target \<in> set (case map_of OPERATOR_TRANSITIONS cur of None \<Rightarrow> [] | Some allowed \<Rightarrow> allowed)"

definition epc_pattern :: "string \<Rightarrow> bool" where
  "epc_pattern s \<longleftrightarrow> 16 \<le> length s \<and> length s \<le> 128 \<and> list_all (\<lambda>c. c \<in> set ''0123456789ABCDEF'') s"

datatype import_error = FileNotUtf8 | CsvEmpty | MissingColumn | EpcRequired nat | BadEpc nat string | DuplicateEpc nat string nat

definition epc_column :: "string list \<Rightarrow> string option" where
  "epc_column fieldnames = map_of (rev (map (\<lambda>h. (py_lower (py_strip h), h)) fieldnames)) ''epc_hex''"

fun import_rows :: "string \<Rightarrow> nat \<Rightarrow> (string, nat) pydict \<Rightarrow> (string, string option) pydict list \<Rightarrow> string list \<times> import_error list" where
  "import_rows epc_col idx seen [] = ([], [])"
| "import_rows epc_col idx seen (row # rows) =
     (let raw_value = py_strip (case map_of row epc_col of Some (Some s) \<Rightarrow> s | _ \<Rightarrow> []); normalised = normalize_epc_hex raw_value in
      if raw_value = [] then (let (vs, es) = import_rows epc_col (Suc idx) seen rows in (vs, EpcRequired idx # es))
      else if \<not> epc_pattern normalised then (let (vs, es) = import_rows epc_col (Suc idx) seen rows in (vs, BadEpc idx raw_value # es))
      else case map_of seen normalised of
          Some prior \<Rightarrow> (let (vs, es) = import_rows epc_col (Suc idx) seen rows in (vs, DuplicateEpc idx raw_value prior # es))
        | None \<Rightarrow> (let (vs, es) = import_rows epc_col (Suc idx) (dict_set normalised idx seen) rows in (normalised # vs, es)))"

definition parse_tag_import_csv :: "csv_text \<Rightarrow> string list \<times> import_error list" where
  "parse_tag_import_csv t =
     (case t of
        NotUtf8 \<Rightarrow> ([], [FileNotUtf8])
      | NoHeader \<Rightarrow> ([], [CsvEmpty])
      | CsvTable fieldnames rows \<Rightarrow>
          (case epc_column fieldnames of None \<Rightarrow> ([], [MissingColumn]) | Some epc_col \<Rightarrow> import_rows epc_col 1 [] rows))"

section \<open>The repository\<close>

definition is_tag :: "uuid \<Rightarrow> uuid \<Rightarrow> tag_row \<Rightarrow> bool" where
  "is_tag tenant_id tag_id t \<longleftrightarrow> tg_id t = tag_id \<and> tg_tenant_id t = tenant_id"

definition has_epc :: "uuid \<Rightarrow> string \<Rightarrow> tag_row \<Rightarrow> bool" where
  "has_epc tenant_id epc_hex t \<longleftrightarrow> tg_tenant_id t = tenant_id \<and> tg_epc_hex t = epc_hex"

definition tag_get :: "uuid \<Rightarrow> uuid \<Rightarrow> tag_row list \<Rightarrow> tag_row option" where
  "tag_get tenant_id tag_id tags = find (is_tag tenant_id tag_id) tags"

definition tag_get_by_epc :: "uuid \<Rightarrow> string \<Rightarrow> tag_row list \<Rightarrow> py_exn + tag_row option" where
  "tag_get_by_epc tenant_id epc_hex tags = scalar_one_or_none (filter (has_epc tenant_id epc_hex) tags)"

definition new_tag :: "uuid \<Rightarrow> uuid \<Rightarrow> string \<Rightarrow> string option \<Rightarrow> string \<Rightarrow> jobj option \<Rightarrow> tag_row" where
  "new_tag i tenant_id epc_hex uri source metadata =
     \<lparr>tg_id = i, tg_tenant_id = tenant_id, tg_epc_hex = epc_hex, tg_gs1_uri = uri, tg_status = ''registered'', tg_source = source,
      tg_metadata = metadata, tg_first_seen_at = None, tg_last_seen_at = None\<rparr>"

definition epc_conflict :: py_exn where
  "epc_conflict = ValueError ''TagEpcConflictError''"

text \<open>The insertion, with the constraints of the table: the shape of an EPC, and the uniqueness of identifiers and EPCs, whose
  violation the repository reports as a conflict.\<close>

definition repo_create :: "registry_env \<Rightarrow> uuid \<Rightarrow> string \<Rightarrow> string \<Rightarrow> jobj option \<Rightarrow> (registry, tag_row) step" where
  "repo_create env tenant_id epc_hex source metadata =
     run_then (fresh_uuid env) (\<lambda>i. run_then (lift_res (parse_gs1_uri epc_hex)) (\<lambda>uri. \<lambda>st.
       let row = new_tag i tenant_id epc_hex uri source metadata in
       if \<not> epc_pattern epc_hex then (Inl (OtherError ''IntegrityError''), st)
       else if list_ex (\<lambda>t. has_epc tenant_id epc_hex t \<or> tg_id t = i) (rg_tags st) then (Inl epc_conflict, st)
       else (Inr row, st\<lparr>rg_tags := rg_tags st @ [row]\<rparr>)))"

text \<open>\<open>INSERT ... ON CONFLICT DO NOTHING RETURNING\<close>: the rows are built first, then inserted one after the other;
  the other constraints of the table still hold: the primary key and the shape of an EPC.\<close>

fun import_values :: "registry_env \<Rightarrow> uuid \<Rightarrow> string list \<Rightarrow> (registry, tag_row list) step" where
  "import_values env tenant_id [] = give []"
| "import_values env tenant_id (epc # epcs) =
     run_then (fresh_uuid env) (\<lambda>i. run_then (lift_res (parse_gs1_uri epc)) (\<lambda>uri.
       run_then (import_values env tenant_id epcs) (\<lambda>rows. give (new_tag i tenant_id epc uri ''csv_import'' None # rows))))"

fun insert_all :: "tag_row list \<Rightarrow> tag_row list \<Rightarrow> py_exn + tag_row list" where
  "insert_all [] tags = Inr tags"
| "insert_all (row # rows) tags =
     (if \<not> epc_pattern (tg_epc_hex row) then Inl (OtherError ''IntegrityError'')
      else if list_ex (has_epc (tg_tenant_id row) (tg_epc_hex row)) tags then insert_all rows tags
      else if list_ex (\<lambda>t. tg_id t = tg_id row) tags then Inl (OtherError ''IntegrityError'')
      else insert_all rows (tags @ [row]))"

definition bulk_create :: "registry_env \<Rightarrow> uuid \<Rightarrow> string list \<Rightarrow> (registry, nat \<times> nat) step" where
  "bulk_create env tenant_id epc_hexes =
     (if epc_hexes = [] then give (0, 0)
      else run_then (import_values env tenant_id epc_hexes) (\<lambda>rows st.
        case insert_all rows (rg_tags st) of
          Inl e \<Rightarrow> (Inl e, st)
        | Inr tags' \<Rightarrow>
            (let created = length tags' - length (rg_tags st) in (Inr (created, length rows - created), st\<lparr>rg_tags := tags'\<rparr>))))"

definition in_batch :: "registry_env \<Rightarrow> uuid \<Rightarrow> string \<Rightarrow> tag_row \<Rightarrow> bool" where
  "in_batch env tenant_id batch_label t \<longleftrightarrow>
     list_ex (\<lambda>l. lb_entity_id l = tg_id t \<and> lb_value l = batch_label \<and> lb_tenant_id l = tenant_id \<and>
        lb_entity_type l = ''tag'' \<and> py_lower (lb_key l) = ''batch'') (re_labels env)"

datatype scope = LabelBatch string | EpcList "string list"

definition resolve_bulk_scope :: "registry_env \<Rightarrow> uuid \<Rightarrow> scope \<Rightarrow> tag_row list \<Rightarrow> tag_row list" where
  "resolve_bulk_scope env tenant_id scope tags =
     sort_key tg_epc_hex (filter (\<lambda>t. tg_tenant_id t = tenant_id \<and>
       (case scope of LabelBatch b \<Rightarrow> in_batch env tenant_id b t | EpcList epcs \<Rightarrow> tg_epc_hex t \<in> set epcs)) tags)"

text \<open>What a change sets: a status or none, and metadata if it is to be touched.\<close>

record mutation =
  mu_status :: "string option"
  mu_metadata :: "jobj option option"

definition mutate :: "mutation \<Rightarrow> tag_row \<Rightarrow> tag_row" where
  "mutate m t =
     (let t = (case mu_status m of None \<Rightarrow> t | Some s \<Rightarrow> t\<lparr>tg_status := s\<rparr>)
      in case mu_metadata m of None \<Rightarrow> t | Some metadata \<Rightarrow> t\<lparr>tg_metadata := metadata\<rparr>)"

definition TAG_STATUSES :: "string list" where
  "TAG_STATUSES = [''registered'', ''active'', ''retired'', ''defective'', ''transferred_out'']"

text \<open>The table admits no other status.\<close>

definition bulk_apply :: "tag_row list \<Rightarrow> mutation \<Rightarrow> (registry, nat) step" where
  "bulk_apply rows m st =
     (if rows = [] then (Inr 0, st)
      else if (case mu_status m of None \<Rightarrow> False | Some s \<Rightarrow> s \<notin> set TAG_STATUSES) then (Inl (OtherError ''IntegrityError''), st)
      else (Inr (length rows), st\<lparr>rg_tags := map (\<lambda>t. if tg_id t \<in> tg_id ` set rows then mutate m t else t) (rg_tags st)\<rparr>))"

definition transition_error :: py_exn where
  "transition_error = ValueError ''StatusTransitionError''"

definition repo_update :: "uuid \<Rightarrow> uuid \<Rightarrow> mutation \<Rightarrow> (registry, tag_row option) step" where
  "repo_update tenant_id tag_id m st =
     (case tag_get tenant_id tag_id (rg_tags st) of
        None \<Rightarrow> (Inr None, st)
      | Some row \<Rightarrow>
          if (case mu_status m of None \<Rightarrow> False | Some s \<Rightarrow> \<not> transition_permitted (tg_status row) s) then (Inl transition_error, st)
          else (Inr (Some (mutate m row)), st\<lparr>rg_tags := map (\<lambda>t. if is_tag tenant_id tag_id t then mutate m t else t) (rg_tags st)\<rparr>))"

definition update_status_to_transferred_out :: "uuid \<Rightarrow> string \<Rightarrow> (registry, tag_row option) step" where
  "update_status_to_transferred_out tenant_id epc_hex st =
     (case tag_get_by_epc tenant_id epc_hex (rg_tags st) of
        Inl e \<Rightarrow> (Inl e, st)
      | Inr None \<Rightarrow> (Inr None, st)
      | Inr (Some row) \<Rightarrow>
          (Inr (Some (row\<lparr>tg_status := ''transferred_out''\<rparr>)),
           st\<lparr>rg_tags := map (\<lambda>t. if has_epc tenant_id epc_hex t then t\<lparr>tg_status := ''transferred_out''\<rparr> else t) (rg_tags st)\<rparr>))"

definition count_bindings :: "registry_env \<Rightarrow> uuid \<Rightarrow> string \<Rightarrow> nat" where
  "count_bindings env tenant_id epc_hex = length (filter (\<lambda>b. b = (tenant_id, ''epc'', epc_hex)) (re_bindings env))"

definition repo_delete :: "uuid \<Rightarrow> uuid \<Rightarrow> registry \<Rightarrow> registry" where
  "repo_delete tenant_id tag_id st = st\<lparr>rg_tags := filter (\<lambda>t. \<not> is_tag tenant_id tag_id t) (rg_tags st)\<rparr>"

fun create_transfers :: "registry_env \<Rightarrow> uuid \<Rightarrow> uuid \<Rightarrow> uuid \<Rightarrow> uuid \<Rightarrow> string list \<Rightarrow> (registry, transfer_row list) step" where
  "create_transfers env request_id from_tenant_id to_tenant_id requested_by [] = give []"
| "create_transfers env request_id from_tenant_id to_tenant_id requested_by (epc # epcs) =
     run_then (fresh_uuid env) (\<lambda>i.
       let row = \<lparr>tt_id = i, tt_request_id = request_id, tt_from_tenant_id = from_tenant_id, tt_to_tenant_id = to_tenant_id,
                  tt_epc_hex = epc, tt_status = ''requested'', tt_requested_by = requested_by\<rparr>
       in run_then (change (\<lambda>st. st\<lparr>rg_transfers := rg_transfers st @ [row]\<rparr>)) (\<lambda>_.
          run_then (create_transfers env request_id from_tenant_id to_tenant_id requested_by epcs) (\<lambda>rows. give (row # rows))))"

definition create_request :: "registry_env \<Rightarrow> uuid \<Rightarrow> uuid \<Rightarrow> string list \<Rightarrow> uuid \<Rightarrow> (registry, transfer_row list) step" where
  "create_request env from_tenant_id to_tenant_id epcs requested_by =
     run_then (fresh_uuid env) (\<lambda>request_id. create_transfers env request_id from_tenant_id to_tenant_id requested_by epcs)"

section \<open>Confirmation tokens\<close>

definition DEFAULT_TTL_SECONDS :: real where
  "DEFAULT_TTL_SECONDS = 900"

datatype confirmation = Confirmed | TokenNotFound | TokenExpired | ContentMismatch | TenantMismatch | UserMismatch | OperationMismatch

definition purge_expired :: "real \<Rightarrow> (string, token_entry) pydict \<Rightarrow> (string, token_entry) pydict" where
  "purge_expired ts entries = filter (\<lambda>(t, e). \<not> te_expires_at e < ts) entries"

definition mint :: "registry_env \<Rightarrow> uuid \<Rightarrow> uuid option \<Rightarrow> string \<Rightarrow> string \<Rightarrow> (registry, string) step" where
  "mint env tenant_id user_id operation content_hash st =
     (let ts = re_monotonic env; token = re_token env (rg_minted st);
          entry = \<lparr>te_tenant_id = tenant_id, te_user_id = user_id, te_operation = operation, te_content_hash = content_hash,
                   te_expires_at = ts + DEFAULT_TTL_SECONDS\<rparr>
      in (Inr token, st\<lparr>rg_tokens := dict_set token entry (purge_expired ts (rg_tokens st)), rg_minted := Suc (rg_minted st)\<rparr>))"

definition consume_token :: "registry_env \<Rightarrow> string \<Rightarrow> uuid \<Rightarrow> uuid option \<Rightarrow> string \<Rightarrow> string \<Rightarrow> registry \<Rightarrow> confirmation \<times> registry" where
  "consume_token env token tenant_id user_id operation content_hash st =
     (case map_of (rg_tokens st) token of
        None \<Rightarrow> (TokenNotFound, st)
      | Some e \<Rightarrow>
          if te_expires_at e < re_monotonic env then (TokenExpired, st\<lparr>rg_tokens := dict_pop token (rg_tokens st)\<rparr>)
          else if te_tenant_id e \<noteq> tenant_id then (TenantMismatch, st)
          else if te_user_id e \<noteq> user_id then (UserMismatch, st)
          else if te_operation e \<noteq> operation then (OperationMismatch, st)
          else if te_content_hash e \<noteq> content_hash then (ContentMismatch, st)
          else (Confirmed, st\<lparr>rg_tokens := dict_pop token (rg_tokens st)\<rparr>))"

definition confirm_token :: "registry_env \<Rightarrow> actor \<Rightarrow> string \<Rightarrow> string \<Rightarrow> string \<Rightarrow> (registry, unit) step" where
  "confirm_token env user token operation content_hash st =
     (case consume_token env token (ac_tenant_id user) (ac_user_id user) operation content_hash st of
        (Confirmed, st') \<Rightarrow> (Inr (), st')
      | (_, st') \<Rightarrow> (Inl (http_error 409), st'))"

section \<open>The two-person rule\<close>

definition PENDING_BULK_OP_TTL :: timedelta where
  "PENDING_BULK_OP_TTL = seconds 86400"

text \<open>The table wants a positive row count.\<close>

definition create_pending ::
    "registry_env \<Rightarrow> uuid \<Rightarrow> string \<Rightarrow> uuid option \<Rightarrow> string \<Rightarrow> nat \<Rightarrow> string list \<Rightarrow> string \<Rightarrow> (registry, pending_row) step" where
  "create_pending env tenant_id operation requested_by content_hash row_count sample payload =
     run_then (fresh_uuid env) (\<lambda>i. \<lambda>st.
       let row = \<lparr>pb_id = i, pb_tenant_id = tenant_id, pb_operation = operation, pb_status = ''pending'', pb_requested_by = requested_by,
             pb_decided_by = None, pb_content_hash = content_hash, pb_row_count = row_count, pb_sample = sample, pb_payload = payload,
             pb_request_id = None, pb_created_at = re_now env, pb_decided_at = None, pb_executed_at = None,
             pb_expires_at = re_now env + PENDING_BULK_OP_TTL\<rparr>
       in if row_count = 0 \<or> list_ex (\<lambda>p. pb_id p = i) (rg_pending st) then (Inl (OtherError ''IntegrityError''), st)
          else (Inr row, st\<lparr>rg_pending := rg_pending st @ [row]\<rparr>))"

definition is_pending_row :: "uuid \<Rightarrow> uuid \<Rightarrow> pending_row \<Rightarrow> bool" where
  "is_pending_row tenant_id pending_id p \<longleftrightarrow> pb_id p = pending_id \<and> pb_tenant_id p = tenant_id"

definition load_pending :: "uuid \<Rightarrow> uuid \<Rightarrow> registry \<Rightarrow> pending_row option" where
  "load_pending tenant_id pending_id st = find (is_pending_row tenant_id pending_id) (rg_pending st)"

definition set_pending :: "uuid \<Rightarrow> uuid \<Rightarrow> (pending_row \<Rightarrow> pending_row) \<Rightarrow> registry \<Rightarrow> registry" where
  "set_pending tenant_id pending_id f st =
     st\<lparr>rg_pending := map (\<lambda>p. if is_pending_row tenant_id pending_id p then f p else p) (rg_pending st)\<rparr>"

definition expire_if_due :: "datetime \<Rightarrow> pending_row \<Rightarrow> pending_row" where
  "expire_if_due now row = (if pb_status row = ''pending'' \<and> pb_expires_at row \<le> now then row\<lparr>pb_status := ''expired''\<rparr> else row)"

datatype decision = DecisionOk | NotFound | Expired | AlreadyDecided | SelfApproval | ContentTamper

text \<open>What speaks against a decision, in the order of the checks.\<close>

definition objection :: "uuid \<Rightarrow> pending_row \<Rightarrow> decision option" where
  "objection decided_by row =
     (if pb_status row = ''expired'' then Some Expired
      else if pb_status row \<noteq> ''pending'' then Some AlreadyDecided
      else if pb_requested_by row = Some decided_by then Some SelfApproval
      else None)"

definition pending_approve ::
    "registry_env \<Rightarrow> (pending_row \<Rightarrow> uuid \<Rightarrow> (registry, jobj) step) \<Rightarrow> (pending_row \<Rightarrow> py_exn + string)
      \<Rightarrow> uuid \<Rightarrow> uuid \<Rightarrow> uuid \<Rightarrow> (registry, decision \<times> pending_row option \<times> jobj) step" where
  "pending_approve env executor content_hasher pending_id tenant_id decided_by =
     run_then (query (load_pending tenant_id pending_id)) (\<lambda>found. case found of
        None \<Rightarrow> give (NotFound, None, [])
      | Some row0 \<Rightarrow>
          (let row = expire_if_due (re_now env) row0 in
           run_then (change (set_pending tenant_id pending_id (\<lambda>_. row))) (\<lambda>_. case objection decided_by row of
             Some outcome \<Rightarrow> give (outcome, Some row, [])
           | None \<Rightarrow> run_then (lift_res (content_hasher row)) (\<lambda>recomputed.
               if recomputed \<noteq> pb_content_hash row then give (ContentTamper, Some row, [])
               else run_then (fresh_uuid env) (\<lambda>request_id. run_then (executor row request_id) (\<lambda>summary.
                 let decided = row\<lparr>pb_status := ''executed'', pb_decided_by := Some decided_by, pb_decided_at := Some (re_now env),
                       pb_executed_at := Some (re_now env), pb_request_id := Some request_id\<rparr>
                 in run_then (change (set_pending tenant_id pending_id (\<lambda>_. decided))) (\<lambda>_. give (DecisionOk, Some decided, summary))))))))"

definition pending_reject :: "registry_env \<Rightarrow> uuid \<Rightarrow> uuid \<Rightarrow> uuid \<Rightarrow> (registry, decision \<times> pending_row option) step" where
  "pending_reject env pending_id tenant_id decided_by =
     run_then (query (load_pending tenant_id pending_id)) (\<lambda>found. case found of
        None \<Rightarrow> give (NotFound, None)
      | Some row0 \<Rightarrow>
          (let row = expire_if_due (re_now env) row0 in
           run_then (change (set_pending tenant_id pending_id (\<lambda>_. row))) (\<lambda>_. case objection decided_by row of
             Some outcome \<Rightarrow> give (outcome, Some row)
           | None \<Rightarrow>
               (let decided = row\<lparr>pb_status := ''rejected'', pb_decided_by := Some decided_by, pb_decided_at := Some (re_now env)\<rparr>
                in run_then (change (set_pending tenant_id pending_id (\<lambda>_. decided))) (\<lambda>_. give (DecisionOk, Some decided))))))"

section \<open>Requests on single tags\<close>

definition json_status :: "string option \<Rightarrow> json" where
  "json_status s = (case s of None \<Rightarrow> JNull | Some t \<Rightarrow> JStr t)"

definition json_blob :: "jobj option \<Rightarrow> json" where
  "json_blob b = (case b of None \<Rightarrow> JNull | Some d \<Rightarrow> JObj d)"

definition from_to :: "json \<Rightarrow> json \<Rightarrow> json" where
  "from_to a b = JObj [(''from'', a), (''to'', b)]"

text \<open>\<open>except TagEpcConflictError\<close> and \<open>except StatusTransitionError\<close>, which become a 409.\<close>

definition as_conflict :: "py_exn \<Rightarrow> (registry, 'a) step \<Rightarrow> (registry, 'a) step" where
  "as_conflict caught m st = (case m st of (Inl e, st') \<Rightarrow> (Inl (if e = caught then http_error 409 else e), st') | r \<Rightarrow> r)"

definition create_tag :: "registry_env \<Rightarrow> actor \<Rightarrow> string \<Rightarrow> string \<Rightarrow> jobj option \<Rightarrow> (registry, tag_row) step" where
  "create_tag env user epc_hex source metadata =
     in_request (run_then (require_role {''admin'', ''editor''} user) (\<lambda>_.
       run_then (as_conflict epc_conflict (repo_create env (ac_tenant_id user) (normalize_epc_hex epc_hex) source metadata)) (\<lambda>created.
       run_then (audit (audit_entry_of (ac_tenant_id user) ''tag.created'' ''tag'' (tg_id created)
           [(''epc_hex'', JStr (tg_epc_hex created)), (''source'', JStr (tg_source created)), (''gs1_uri'', json_status (tg_gs1_uri created))]
           (ac_user_id user))) (\<lambda>_. give created))))"

definition update_tag :: "registry_env \<Rightarrow> actor \<Rightarrow> uuid \<Rightarrow> mutation \<Rightarrow> (registry, tag_row) step" where
  "update_tag env user tag_id body =
     in_request (run_then (require_role {''admin'', ''editor''} user) (\<lambda>_.
       run_then (query (\<lambda>st. tag_get (ac_tenant_id user) tag_id (rg_tags st))) (\<lambda>found. case found of
         None \<Rightarrow> lift_res (Inl (http_error 404))
       | Some before \<Rightarrow> run_then (as_conflict transition_error (repo_update (ac_tenant_id user) tag_id body)) (\<lambda>updated. case updated of
             None \<Rightarrow> lift_res (Inl (http_error 404))
           | Some row \<Rightarrow>
               (let changes = (if tg_status before \<noteq> tg_status row then [(''status'', from_to (JStr (tg_status before)) (JStr (tg_status row)))] else []) @
                      (if \<not> py_eq (json_blob (tg_metadata before)) (json_blob (tg_metadata row)) then [(''metadata'', from_to (json_blob (tg_metadata before)) (json_blob (tg_metadata row)))] else [])
                in run_then (if changes = [] then give ()
                      else audit (audit_entry_of (ac_tenant_id user) ''tag.updated'' ''tag'' tag_id changes (ac_user_id user))) (\<lambda>_. give row))))))"

definition delete_tag :: "registry_env \<Rightarrow> actor \<Rightarrow> uuid \<Rightarrow> (registry, unit) step" where
  "delete_tag env user tag_id =
     in_request (run_then (require_role {''admin''} user) (\<lambda>_.
       run_then (query (\<lambda>st. tag_get (ac_tenant_id user) tag_id (rg_tags st))) (\<lambda>found. case found of
         None \<Rightarrow> lift_res (Inl (http_error 404))
       | Some existing \<Rightarrow>
           if count_bindings env (ac_tenant_id user) (tg_epc_hex existing) > 0 then lift_res (Inl (http_error 409))
           else run_then (change (repo_delete (ac_tenant_id user) tag_id)) (\<lambda>_.
             audit (audit_entry_of (ac_tenant_id user) ''tag.deleted'' ''tag'' tag_id [(''epc_hex'', JStr (tg_epc_hex existing))]
               (ac_user_id user))))))"

section \<open>Import\<close>

definition MAX_TAG_IMPORT_BYTES :: nat where "MAX_TAG_IMPORT_BYTES = 8 * 1024 * 1024"
definition MAX_TAG_IMPORT_ROWS :: nat where "MAX_TAG_IMPORT_ROWS = 10000"
definition TAG_IMPORT_SAMPLE_SIZE :: nat where "TAG_IMPORT_SAMPLE_SIZE = 10"

fun join_lines :: "string list \<Rightarrow> string" where
  "join_lines [] = []"
| "join_lines [x] = x"
| "join_lines (x # xs) = x @ [CHR 10] @ join_lines xs"

definition content_hash_of :: "registry_env \<Rightarrow> string list \<Rightarrow> string" where
  "content_hash_of env epc_hexes = re_sha256 env (join_lines (sort epc_hexes))"

definition tenant_row :: "registry_env \<Rightarrow> uuid \<Rightarrow> py_exn + tenant_settings" where
  "tenant_row env tenant_id = (case find (\<lambda>t. ts_id t = tenant_id) (re_tenants env) of
     None \<Rightarrow> Inl (OtherError ''NoResultFound'') | Some t \<Rightarrow> Inr t)"

text \<open>Preview first, then confirm: exactly one of the two.\<close>

definition require_xor_flow :: "bool \<Rightarrow> string option \<Rightarrow> (registry, unit) step" where
  "require_xor_flow dry_run confirm =
     (if dry_run = (confirm \<noteq> None) then lift_res (Inl (http_error 400)) else give ())"

datatype 'e outcome =
    Refused "'e list" \<comment> \<open>422, nothing is written\<close>
  | Previewed nat string
  | Queued nat uuid
  | Applied nat nat uuid \<comment> \<open>the rows in scope, those written, the request\<close>

definition execute_tag_import ::
    "registry_env \<Rightarrow> uuid \<Rightarrow> string list \<Rightarrow> uuid option \<Rightarrow> string option \<Rightarrow> uuid option \<Rightarrow> uuid option \<Rightarrow> uuid option
      \<Rightarrow> (registry, nat \<times> nat \<times> uuid) step" where
  "execute_tag_import env tenant_id epc_hexes actor_user_id confirmation_token approved_by pending_id request_id =
     run_then (bulk_create env tenant_id epc_hexes) (\<lambda>(created, skipped).
     run_then (case request_id of Some r \<Rightarrow> give r | None \<Rightarrow> fresh_uuid env) (\<lambda>rid.
       let changes = [(''rows_total'', JInt (int (length epc_hexes))), (''rows_created'', JInt (int created)), (''rows_skipped'', JInt (int skipped)),
             (''request_id'', JStr (str_uuid rid)), (''source'', JStr ''csv_import''), (''confirmation_token'', json_status confirmation_token)] @
             (case approved_by of None \<Rightarrow> [] | Some u \<Rightarrow> [(''approved_by'', JStr (str_uuid u))]) @
             (case pending_id of None \<Rightarrow> [] | Some u \<Rightarrow> [(''pending_id'', JStr (str_uuid u))])
       in run_then (audit ((audit_entry_of tenant_id ''tag.bulk_imported'' ''tag'' rid changes actor_user_id)
            \<lparr>al_request_id := Some rid, al_count := Some created, al_pending_id := pending_id, al_approved_by := approved_by\<rparr>)) (\<lambda>_.
          give (created, skipped, rid))))"

definition request_import_approval ::
    "registry_env \<Rightarrow> actor \<Rightarrow> tenant_settings \<Rightarrow> string \<Rightarrow> string list \<Rightarrow> string \<Rightarrow> (registry, import_error outcome) step" where
  "request_import_approval env user settings raw epc_hexes token =
     (let content_hash = content_hash_of env epc_hexes; sample = take TAG_IMPORT_SAMPLE_SIZE epc_hexes in
      run_then (create_pending env (ac_tenant_id user) ''tags.import'' (ac_user_id user) content_hash (length epc_hexes) sample raw) (\<lambda>p.
      run_then (audit ((audit_entry_of (ac_tenant_id user) ''tag.bulk_import_requested'' ''pending_bulk_operation'' (pb_id p)
          [(''rows_total'', JInt (int (length epc_hexes))), (''row_count'', JInt (int (length epc_hexes))),
           (''threshold'', JInt (ts_two_person_threshold settings)), (''operation'', JStr ''tags.import''),
           (''confirmation_token'', JStr token), (''content_hash'', JStr content_hash)] (ac_user_id user))
          \<lparr>al_count := Some (length epc_hexes), al_pending_id := Some (pb_id p)\<rparr>)) (\<lambda>_. give (Queued (length epc_hexes) (pb_id p)))))"

definition import_confirmed ::
    "registry_env \<Rightarrow> actor \<Rightarrow> tenant_settings \<Rightarrow> string \<Rightarrow> string list \<Rightarrow> string \<Rightarrow> (registry, import_error outcome) step" where
  "import_confirmed env user settings raw epc_hexes token =
     run_then (confirm_token env user token ''tags.import'' (content_hash_of env epc_hexes)) (\<lambda>_.
       if int (length epc_hexes) \<ge> ts_two_person_threshold settings then request_import_approval env user settings raw epc_hexes token
       else run_then (execute_tag_import env (ac_tenant_id user) epc_hexes (ac_user_id user) (Some token) None None None)
              (\<lambda>(created, skipped, rid). give (Applied (length epc_hexes) created rid)))"

definition count_import :: "registry_env \<Rightarrow> uuid \<Rightarrow> int \<Rightarrow> (registry, bool) step" where
  "count_import env tenant_id cap st =
     (let (admitted, imports) = check_and_record tenant_id cap (re_monotonic env) (rg_imports st) in (Inr admitted, st\<lparr>rg_imports := imports\<rparr>))"

text \<open>What follows once the limiter has admitted the upload: its size, its rows, then the preview or the confirmation.\<close>

definition import_body ::
    "registry_env \<Rightarrow> actor \<Rightarrow> tenant_settings \<Rightarrow> string \<Rightarrow> string option \<Rightarrow> (registry, import_error outcome) step" where
  "import_body env user settings raw confirm =
     (if length raw > MAX_TAG_IMPORT_BYTES then lift_res (Inl (http_error 413))
      else (case parse_tag_import_csv (re_csv env raw) of (epc_hexes, errors) \<Rightarrow>
        if length epc_hexes + length errors > MAX_TAG_IMPORT_ROWS then lift_res (Inl (http_error 413))
        else if errors \<noteq> [] then give (Refused errors)
        else (case confirm of
            None \<Rightarrow> run_then (mint env (ac_tenant_id user) (ac_user_id user) ''tags.import'' (content_hash_of env epc_hexes)) (\<lambda>token.
                give (Previewed (length epc_hexes) token))
          | Some token \<Rightarrow> import_confirmed env user settings raw epc_hexes token)))"

definition import_tags :: "registry_env \<Rightarrow> actor \<Rightarrow> string \<Rightarrow> bool \<Rightarrow> string option \<Rightarrow> (registry, import_error outcome) step" where
  "import_tags env user raw dry_run confirm =
     in_request (run_then (require_role {''admin'', ''editor''} user) (\<lambda>_.
     run_then (require_xor_flow dry_run confirm) (\<lambda>_.
     run_then (lift_res (tenant_row env (ac_tenant_id user))) (\<lambda>settings.
     run_then (count_import env (ac_tenant_id user) (ts_import_limit settings)) (\<lambda>admitted.
       if \<not> admitted then lift_res (Inl (http_error 429)) else import_body env user settings raw confirm)))))"

section \<open>Bulk changes\<close>

definition BULK_MUTATE_SAMPLE_SIZE :: nat where "BULK_MUTATE_SAMPLE_SIZE = 10"

definition json_epcs :: "string list \<Rightarrow> json" where
  "json_epcs epcs = JList (map JStr epcs)"

definition json_metadata :: "mutation \<Rightarrow> json" where
  "json_metadata m = (case mu_metadata m of Some (Some d) \<Rightarrow> JObj d | _ \<Rightarrow> JNull)"

definition bulk_mutation_content_hash :: "registry_env \<Rightarrow> string list \<Rightarrow> mutation \<Rightarrow> string" where
  "bulk_mutation_content_hash env epc_hexes m = re_sha256 env (re_dumps env (JObj
     [(''epcs'', json_epcs (sort epc_hexes)), (''status'', json_status (mu_status m)),
      (''metadata_set'', JBool (mu_metadata m \<noteq> None)), (''metadata'', json_metadata m)]))"

fun json_scope :: "scope \<Rightarrow> json" where
  "json_scope (LabelBatch b) = JStr b"
| "json_scope (EpcList epcs) = json_epcs epcs"

fun scope_kind :: "scope \<Rightarrow> string" where
  "scope_kind (LabelBatch b) = ''label_batch''"
| "scope_kind (EpcList epcs) = ''epc_list''"

definition serialize_bulk_payload :: "registry_env \<Rightarrow> scope \<Rightarrow> mutation \<Rightarrow> string list \<Rightarrow> string" where
  "serialize_bulk_payload env scope m resolved_epcs = re_dumps env (JObj
     [(''scope_kind'', JStr (scope_kind scope)), (''scope_value'', json_scope scope), (''status'', json_status (mu_status m)),
      (''metadata_set'', JBool (mu_metadata m \<noteq> None)), (''metadata'', json_metadata m), (''resolved_epcs'', json_epcs (sort resolved_epcs))])"

text \<open>A stored payload read back: \<open>list(decoded["resolved_epcs"])\<close> and the mutation.\<close>

definition payload_epcs :: "jobj \<Rightarrow> py_exn + string list" where
  "payload_epcs d =
     (case map_of d ''resolved_epcs'' of
        Some (JList js) \<Rightarrow> map_res (\<lambda>j. case j of JStr s \<Rightarrow> Inr s | _ \<Rightarrow> Inl TypeError) js
      | None \<Rightarrow> Inl KeyError | Some _ \<Rightarrow> Inl TypeError)"

definition payload_mutation :: "jobj \<Rightarrow> mutation" where
  "payload_mutation d =
     \<lparr>mu_status = (case jget d ''status'' of JStr s \<Rightarrow> Some s | _ \<Rightarrow> None),
      mu_metadata = (if truthy (jget d ''metadata_set'') then Some (case jget d ''metadata'' of JObj m \<Rightarrow> Some m | _ \<Rightarrow> None) else None)\<rparr>"

definition bulk_payload_content_hash :: "registry_env \<Rightarrow> string \<Rightarrow> py_exn + string" where
  "bulk_payload_content_hash env payload =
     (let d = re_loads env payload in and_then (payload_epcs d) (\<lambda>epcs. Inr (bulk_mutation_content_hash env epcs (payload_mutation d))))"

text \<open>The body's scope: labels, or a list of EPCs.  Of the labels only \<open>batch\<close> goes on.\<close>

datatype scope_body = ByLabels "(string, string) pydict" | ByEpcs "string list"

definition scope_epc_ok :: "string \<Rightarrow> bool" where \<comment> \<open>\<open>re.match\<close>: the dollar matches before a final newline\<close>
  "scope_epc_ok s \<longleftrightarrow> epc_pattern s \<or> (s \<noteq> [] \<and> last s = CHR 10 \<and> epc_pattern (butlast s))"

definition scope_valid :: "scope_body \<Rightarrow> bool" where
  "scope_valid body =
     (case body of
        ByLabels labels \<Rightarrow> (case map_of labels ''batch'' of None \<Rightarrow> False | Some b \<Rightarrow> py_strip b \<noteq> [])
      | ByEpcs epcs \<Rightarrow> epcs \<noteq> [] \<and> length epcs \<le> 1000 \<and> list_all scope_epc_ok epcs \<and> distinct epcs)"

definition normalize_scope :: "scope_body \<Rightarrow> py_exn + scope" where
  "normalize_scope body =
     (case body of
        ByEpcs epcs \<Rightarrow> (let normalised = map normalize_epc_hex epcs in
          if \<not> distinct normalised then Inl (http_error 400) else Inr (EpcList normalised))
      | ByLabels labels \<Rightarrow> (case map_of labels ''batch'' of None \<Rightarrow> Inl KeyError | Some b \<Rightarrow> Inr (LabelBatch b)))"

definition transition_failures :: "tag_row list \<Rightarrow> string option \<Rightarrow> string list" where
  "transition_failures rows target_status =
     (case target_status of None \<Rightarrow> [] | Some s \<Rightarrow> map tg_epc_hex (filter (\<lambda>t. \<not> transition_permitted (tg_status t) s) rows))"

definition batch_of :: "scope \<Rightarrow> string option" where
  "batch_of scope = (case scope of LabelBatch b \<Rightarrow> Some b | EpcList _ \<Rightarrow> None)"

definition execute_bulk_mutation ::
    "registry_env \<Rightarrow> uuid \<Rightarrow> tag_row list \<Rightarrow> mutation \<Rightarrow> uuid option \<Rightarrow> string \<Rightarrow> json \<Rightarrow> json \<Rightarrow> string option \<Rightarrow> string option
      \<Rightarrow> uuid option \<Rightarrow> uuid option \<Rightarrow> uuid \<Rightarrow> jobj \<Rightarrow> (registry, nat) step" where
  "execute_bulk_mutation env tenant_id rows m actor_user_id audit_action kind scope_value batch confirmation_token approved_by pending_id
       request_id extra_audit =
     run_then (bulk_apply rows m) (\<lambda>updated.
       let changes = [(''operation'', JStr audit_action), (''scope_kind'', kind), (''scope_value'', scope_value),
            (''matched'', JInt (int (length rows))), (''updated'', JInt (int updated)), (''request_id'', JStr (str_uuid request_id)),
            (''target_status'', json_status (mu_status m)), (''metadata_set'', JBool (mu_metadata m \<noteq> None)),
            (''confirmation_token'', json_status confirmation_token)] @
            (case approved_by of None \<Rightarrow> [] | Some u \<Rightarrow> [(''approved_by'', JStr (str_uuid u))]) @
            (case pending_id of None \<Rightarrow> [] | Some u \<Rightarrow> [(''pending_id'', JStr (str_uuid u))]) @ extra_audit
       in run_then (audit ((audit_entry_of tenant_id audit_action ''tag'' request_id changes actor_user_id)
            \<lparr>al_request_id := Some request_id, al_count := Some updated, al_pending_id := pending_id, al_approved_by := approved_by,
             al_batch := batch\<rparr>)) (\<lambda>_. give updated))"

definition request_mutation_approval ::
    "registry_env \<Rightarrow> actor \<Rightarrow> tenant_settings \<Rightarrow> string \<Rightarrow> string \<Rightarrow> scope \<Rightarrow> mutation \<Rightarrow> tag_row list \<Rightarrow> jobj \<Rightarrow> string
      \<Rightarrow> (registry, string outcome) step" where
  "request_mutation_approval env user settings operation requested scope m rows extra_audit token =
     (let epc_hexes = map tg_epc_hex rows; content_hash = bulk_mutation_content_hash env epc_hexes m; matched = length rows;
          sample = take BULK_MUTATE_SAMPLE_SIZE epc_hexes in
      run_then (create_pending env (ac_tenant_id user) operation (ac_user_id user) content_hash matched sample
          (serialize_bulk_payload env scope m epc_hexes)) (\<lambda>p.
      run_then (audit ((audit_entry_of (ac_tenant_id user) requested ''pending_bulk_operation'' (pb_id p)
          ([(''operation'', JStr operation), (''scope_kind'', JStr (scope_kind scope)), (''scope_value'', json_scope scope),
            (''matched'', JInt (int matched)), (''threshold'', JInt (ts_two_person_threshold settings)), (''confirmation_token'', JStr token),
            (''content_hash'', JStr content_hash), (''target_status'', json_status (mu_status m)),
            (''metadata_set'', JBool (mu_metadata m \<noteq> None))] @ extra_audit) (ac_user_id user))
          \<lparr>al_count := Some matched, al_pending_id := Some (pb_id p), al_batch := batch_of scope\<rparr>)) (\<lambda>_.
        give (Queued matched (pb_id p)))))"

definition mutation_confirmed ::
    "registry_env \<Rightarrow> actor \<Rightarrow> string \<Rightarrow> string \<Rightarrow> string \<Rightarrow> scope \<Rightarrow> mutation \<Rightarrow> tag_row list \<Rightarrow> jobj \<Rightarrow> string
      \<Rightarrow> (registry, string outcome) step" where
  "mutation_confirmed env user operation requested applied scope m rows extra_audit token =
     run_then (confirm_token env user token operation (bulk_mutation_content_hash env (map tg_epc_hex rows) m)) (\<lambda>_.
     run_then (lift_res (tenant_row env (ac_tenant_id user))) (\<lambda>settings.
       if int (length rows) \<ge> ts_two_person_threshold settings
       then request_mutation_approval env user settings operation requested scope m rows extra_audit token
       else run_then (fresh_uuid env) (\<lambda>request_id.
            run_then (execute_bulk_mutation env (ac_tenant_id user) rows m (ac_user_id user) applied (JStr (scope_kind scope)) (json_scope scope)
                (batch_of scope) (Some token) None None request_id extra_audit) (\<lambda>updated. give (Applied (length rows) updated request_id)))))"

definition run_bulk_mutation ::
    "registry_env \<Rightarrow> actor \<Rightarrow> string \<Rightarrow> string \<Rightarrow> string \<Rightarrow> scope_body \<Rightarrow> mutation \<Rightarrow> bool \<Rightarrow> string option \<Rightarrow> jobj
      \<Rightarrow> (registry, string outcome) step" where
  "run_bulk_mutation env user operation requested applied body m dry_run confirm extra_audit =
     run_then (require_xor_flow dry_run confirm) (\<lambda>_.
     run_then (lift_res (normalize_scope body)) (\<lambda>scope.
     run_then (query (\<lambda>st. resolve_bulk_scope env (ac_tenant_id user) scope (rg_tags st))) (\<lambda>rows.
       let failures = transition_failures rows (mu_status m) in
        if rows = [] then give (Refused [''''])
        else if failures \<noteq> [] then give (Refused failures)
        else case confirm of
            None \<Rightarrow> run_then (mint env (ac_tenant_id user) (ac_user_id user) operation (bulk_mutation_content_hash env (map tg_epc_hex rows) m)) (\<lambda>token.
                give (Previewed (length rows) token))
          | Some token \<Rightarrow> mutation_confirmed env user operation requested applied scope m rows extra_audit token)))"

definition bulk_patch_tags :: "registry_env \<Rightarrow> actor \<Rightarrow> scope_body \<Rightarrow> mutation \<Rightarrow> bool \<Rightarrow> string option \<Rightarrow> (registry, string outcome) step" where
  "bulk_patch_tags env user body m dry_run confirm =
     in_request (run_then (require_role {''admin'', ''editor''} user) (\<lambda>_.
       run_bulk_mutation env user ''tags.bulk_patch'' ''tag.bulk_patch_requested'' ''tag.bulk_patched'' body m dry_run confirm []))"

definition bulk_retire_tags :: "registry_env \<Rightarrow> actor \<Rightarrow> scope_body \<Rightarrow> string option \<Rightarrow> bool \<Rightarrow> string option \<Rightarrow> (registry, string outcome) step" where
  "bulk_retire_tags env user body reason dry_run confirm =
     in_request (run_then (require_role {''admin''} user) (\<lambda>_.
       run_bulk_mutation env user ''tags.bulk_retire'' ''tag.bulk_retire_requested'' ''tag.bulk_retired'' body
         \<lparr>mu_status = Some ''retired'', mu_metadata = None\<rparr> dry_run confirm
         (case reason of None \<Rightarrow> [] | Some r \<Rightarrow> if r = [] then [] else [(''reason'', JStr r)])))"

section \<open>Decisions\<close>

text \<open>What the approval runs: the row still says that nobody has decided.\<close>

definition tag_import_executor :: "registry_env \<Rightarrow> pending_row \<Rightarrow> uuid \<Rightarrow> (registry, jobj) step" where
  "tag_import_executor env row request_id =
     (case parse_tag_import_csv (re_csv env (pb_payload row)) of (epc_hexes, errors) \<Rightarrow>
        if errors \<noteq> [] then lift_res (Inl (OtherError ''RuntimeError''))
        else run_then (execute_tag_import env (pb_tenant_id row) epc_hexes (pb_requested_by row) None (pb_decided_by row) (Some (pb_id row))
               (Some request_id)) (\<lambda>(created, skipped, rid).
             give [(''rows_created'', JInt (int created)), (''rows_skipped'', JInt (int skipped)), (''request_id'', JStr (str_uuid request_id))]))"

definition bulk_mutation_executor :: "registry_env \<Rightarrow> pending_row \<Rightarrow> uuid \<Rightarrow> (registry, jobj) step" where
  "bulk_mutation_executor env row request_id =
     (let d = re_loads env (pb_payload row) in
      run_then (lift_res (payload_epcs d)) (\<lambda>resolved_epcs.
      run_then (lift_res (json_key (JObj d) ''scope_kind'')) (\<lambda>kind.
      run_then (lift_res (json_key (JObj d) ''scope_value'')) (\<lambda>scope_value.
      run_then (query (\<lambda>st. resolve_bulk_scope env (pb_tenant_id row) (EpcList resolved_epcs) (rg_tags st))) (\<lambda>rows.
        let audit_action = (if pb_operation row = ''tags.bulk_patch'' then ''tag.bulk_patched'' else ''tag.bulk_retired'');
            batch = (case (kind, scope_value) of (JStr k, JStr b) \<Rightarrow> if k = ''label_batch'' then Some b else None | _ \<Rightarrow> None)
        in run_then (execute_bulk_mutation env (pb_tenant_id row) rows (payload_mutation d) (pb_requested_by row) audit_action kind scope_value
             batch None (pb_decided_by row) (Some (pb_id row)) request_id []) (\<lambda>updated.
             give [(''matched'', JInt (int (length rows))), (''updated'', JInt (int updated)), (''request_id'', JStr (str_uuid request_id))]))))))"

definition executor_of :: "registry_env \<Rightarrow> pending_row \<Rightarrow> uuid \<Rightarrow> (registry, jobj) step" where
  "executor_of env row request_id =
     (if pb_operation row = ''tags.import'' then tag_import_executor env row request_id
      else if pb_operation row \<in> {''tags.bulk_patch'', ''tags.bulk_retire''} then bulk_mutation_executor env row request_id
      else lift_res (Inl (OtherError ''LookupError'')))"

definition hasher_of :: "registry_env \<Rightarrow> pending_row \<Rightarrow> py_exn + string" where
  "hasher_of env row =
     (if pb_operation row = ''tags.import'' then Inr (content_hash_of env (fst (parse_tag_import_csv (re_csv env (pb_payload row)))))
      else bulk_payload_content_hash env (pb_payload row))"

text \<open>\<open>_outcome_to_http\<close>.\<close>

definition outcome_to_http :: "decision \<Rightarrow> nat" where
  "outcome_to_http outcome = (if outcome = SelfApproval then 403 else 409)"

definition json_requester :: "pending_row \<Rightarrow> json" where
  "json_requester row = (case pb_requested_by row of None \<Rightarrow> JNull | Some u \<Rightarrow> JStr (str_uuid u))"

definition approved_entry :: "actor \<Rightarrow> uuid \<Rightarrow> pending_row \<Rightarrow> jobj \<Rightarrow> audit_entry" where
  "approved_entry user me row summary =
     (audit_entry_of (ac_tenant_id user) (pb_operation row @ ''.approved'') ''pending_bulk_operation'' (pb_id row)
        ([(''operation'', JStr (pb_operation row)), (''requested_by'', json_requester row), (''approved_by'', JStr (str_uuid me)),
          (''row_count'', JInt (int (pb_row_count row)))] @ summary) (Some me))
     \<lparr>al_request_id := pb_request_id row, al_count := Some (pb_row_count row), al_pending_id := Some (pb_id row), al_approved_by := Some me\<rparr>"

definition rejected_entry :: "actor \<Rightarrow> uuid \<Rightarrow> pending_row \<Rightarrow> audit_entry" where
  "rejected_entry user me row =
     (audit_entry_of (ac_tenant_id user) (pb_operation row @ ''.rejected'') ''pending_bulk_operation'' (pb_id row)
        [(''operation'', JStr (pb_operation row)), (''requested_by'', json_requester row), (''rejected_by'', JStr (str_uuid me)),
         (''row_count'', JInt (int (pb_row_count row)))] (Some me))
     \<lparr>al_count := Some (pb_row_count row), al_pending_id := Some (pb_id row)\<rparr>"

text \<open>The end of both routes: an outcome other than success raises, a success is audited.  The summary of an executor
  repeats the request's identifier.\<close>

definition conclude :: "(pending_row \<Rightarrow> audit_entry) \<Rightarrow> decision \<Rightarrow> pending_row option \<Rightarrow> (registry, pending_row) step" where
  "conclude entry outcome decided_row =
     (if outcome \<noteq> DecisionOk then lift_res (Inl (http_error (outcome_to_http outcome)))
      else case decided_row of
          None \<Rightarrow> lift_res (Inl (OtherError ''AssertionError''))
        | Some decided \<Rightarrow> run_then (audit (entry decided)) (\<lambda>_. give decided))"

definition approve_operation :: "registry_env \<Rightarrow> actor \<Rightarrow> uuid \<Rightarrow> (registry, pending_row) step" where
  "approve_operation env user pending_id =
     in_request (run_then (require_role {''admin''} user) (\<lambda>_. case ac_user_id user of
         None \<Rightarrow> lift_res (Inl (http_error 403))
       | Some me \<Rightarrow> run_then (query (load_pending (ac_tenant_id user) pending_id)) (\<lambda>found. case found of
           None \<Rightarrow> lift_res (Inl (http_error 404))
         | Some row \<Rightarrow>
             if pb_operation row \<notin> {''tags.import'', ''tags.bulk_patch'', ''tags.bulk_retire''} then lift_res (Inl (http_error 409))
             else run_then (pending_approve env (executor_of env) (hasher_of env) pending_id (ac_tenant_id user) me) (\<lambda>(outcome, decided_row, summary).
               conclude (\<lambda>decided. approved_entry user me decided summary) outcome decided_row))))"

definition reject_operation :: "registry_env \<Rightarrow> actor \<Rightarrow> uuid \<Rightarrow> (registry, pending_row) step" where
  "reject_operation env user pending_id =
     in_request (run_then (require_role {''admin''} user) (\<lambda>_. case ac_user_id user of
         None \<Rightarrow> lift_res (Inl (http_error 403))
       | Some me \<Rightarrow> run_then (query (load_pending (ac_tenant_id user) pending_id)) (\<lambda>found. case found of
           None \<Rightarrow> lift_res (Inl (http_error 404))
         | Some _ \<Rightarrow> run_then (pending_reject env pending_id (ac_tenant_id user) me) (\<lambda>(outcome, decided_row).
             conclude (rejected_entry user me) outcome decided_row))))"

section \<open>Transfers\<close>

definition create_tag_transfer :: "registry_env \<Rightarrow> actor \<Rightarrow> string \<Rightarrow> string list \<Rightarrow> (registry, transfer_row list) step" where
  "create_tag_transfer env user to_tenant_slug epcs =
     in_request (run_then (require_role {''admin''} user) (\<lambda>_.
       case find (\<lambda>t. ts_slug t = to_tenant_slug) (re_tenants env) of
         None \<Rightarrow> lift_res (Inl (http_error 404))
       | Some to_tenant \<Rightarrow>
           if ts_status to_tenant \<noteq> ''active'' then lift_res (Inl (http_error 404))
           else if ts_id to_tenant = ac_tenant_id user then lift_res (Inl (http_error 400))
           else (case ac_user_id user of
               None \<Rightarrow> lift_res (Inl (http_error 403))
             | Some me \<Rightarrow>
                 (let normalised = map normalize_epc_hex epcs in
                  if \<not> distinct normalised then lift_res (Inl (http_error 400))
                  else run_then (query (\<lambda>st. map_res (\<lambda>epc. tag_get_by_epc (ac_tenant_id user) epc (rg_tags st)) normalised)) (\<lambda>r.
                      run_then (lift_res r) (\<lambda>found.
                        if list_ex (\<lambda>t. case t of None \<Rightarrow> True | Some row \<Rightarrow> tg_status row \<noteq> ''active'') found then lift_res (Inl (http_error 409))
                        else run_then (create_request env (ac_tenant_id user) (ts_id to_tenant) normalised me) (\<lambda>rows.
                          case rows of
                            [] \<Rightarrow> lift_res (Inl IndexError)
                          | r # _ \<Rightarrow>
                              run_then (audit ((audit_entry_of (ac_tenant_id user) ''tag_transfer.requested'' ''tag_transfer'' (tt_request_id r)
                                [(''to_tenant_id'', JStr (str_uuid (ts_id to_tenant))), (''to_tenant_slug'', JStr (ts_slug to_tenant)),
                                 (''epc_count'', JInt (int (length rows)))] (Some me))
                                \<lparr>al_request_id := Some (tt_request_id r), al_count := Some (length rows)\<rparr>)) (\<lambda>_. give rows))))))))"

section \<open>Sequences of requests\<close>

text \<open>What reaches the routes, each with the environment and the caller it meets.\<close>

datatype tag_request =
    CreateTag string string "jobj option"
  | UpdateTag uuid mutation
  | DeleteTag uuid
  | ImportTags string bool "string option"
  | PatchTags scope_body mutation bool "string option"
  | RetireTags scope_body "string option" bool "string option"
  | TransferTags string "string list"
  | ApproveOperation uuid
  | RejectOperation uuid

datatype tag_reply = NoReply | ImportReply "import_error outcome" | BulkReply "string outcome" | Decided pending_row

definition replying :: "('a \<Rightarrow> tag_reply) \<Rightarrow> (registry, 'a) step \<Rightarrow> (registry, tag_reply) step" where
  "replying f m = run_then m (\<lambda>a. give (f a))"

fun tag_request_step :: "registry_env \<Rightarrow> actor \<Rightarrow> tag_request \<Rightarrow> (registry, tag_reply) step" where
  "tag_request_step env user (CreateTag epc source metadata) = replying (\<lambda>_. NoReply) (create_tag env user epc source metadata)"
| "tag_request_step env user (UpdateTag i m) = replying (\<lambda>_. NoReply) (update_tag env user i m)"
| "tag_request_step env user (DeleteTag i) = replying (\<lambda>_. NoReply) (delete_tag env user i)"
| "tag_request_step env user (ImportTags raw dry_run confirm) = replying ImportReply (import_tags env user raw dry_run confirm)"
| "tag_request_step env user (PatchTags body m dry_run confirm) = replying BulkReply (bulk_patch_tags env user body m dry_run confirm)"
| "tag_request_step env user (RetireTags body reason dry_run confirm) = replying BulkReply (bulk_retire_tags env user body reason dry_run confirm)"
| "tag_request_step env user (TransferTags slug epcs) = replying (\<lambda>_. NoReply) (create_tag_transfer env user slug epcs)"
| "tag_request_step env user (ApproveOperation i) = replying Decided (approve_operation env user i)"
| "tag_request_step env user (RejectOperation i) = replying Decided (reject_operation env user i)"

fun tag_requests :: "(registry_env \<times> actor \<times> tag_request) list \<Rightarrow> registry \<Rightarrow> registry" where
  "tag_requests [] st = st"
| "tag_requests ((env, user, rq) # rqs) st = tag_requests rqs (snd (tag_request_step env user rq st))"

definition empty_registry :: registry where
  "empty_registry = \<lparr>rg_tags = [], rg_pending = [], rg_transfers = [], rg_audit = [], rg_tokens = [], rg_imports = [], rg_fresh = 0, rg_minted = 0\<rparr>"

end
