(* ===== verification/TagRegistryLaws.thy ===== *)
theory TagRegistryLaws
  imports TagRegistry
begin

text \<open>
  What the tag registry guarantees over any sequence of requests: the table stays well formed, and the
  service's own checks keep its requests from violating a constraint of the table; statuses move along the operators'
  graph unless an approval intervenes; large changes wait for a second person, who is never the one that asked, and
  what was asked is never altered.  The laws of the steps come from \<open>step_relation\<close>.
\<close>

section \<open>The table of tags\<close>

definition tag_ok :: "tag_row \<Rightarrow> bool" where
  "tag_ok t \<longleftrightarrow> epc_pattern (tg_epc_hex t) \<and> tg_status t \<in> set TAG_STATUSES \<and> parse_gs1_uri (tg_epc_hex t) = Inr (tg_gs1_uri t)"

definition tag_key :: "tag_row \<Rightarrow> uuid \<times> string" where
  "tag_key t = (tg_tenant_id t, tg_epc_hex t)"

definition tags_ok :: "tag_row list \<Rightarrow> bool" where
  "tags_ok tags \<longleftrightarrow> distinct (map tg_id tags) \<and> distinct (map tag_key tags) \<and> list_all tag_ok tags"

definition stays_ok :: "registry \<Rightarrow> registry \<Rightarrow> bool" where
  "stays_ok st st' \<longleftrightarrow> (tags_ok (rg_tags st) \<longrightarrow> tags_ok (rg_tags st'))"

definition same_tags :: "registry \<Rightarrow> registry \<Rightarrow> bool" where
  "same_tags st st' \<longleftrightarrow> rg_tags st' = rg_tags st"

definition same_pending :: "registry \<Rightarrow> registry \<Rightarrow> bool" where
  "same_pending st st' \<longleftrightarrow> rg_pending st' = rg_pending st"

interpretation ok: step_relation stays_ok by unfold_locales (auto simp: stays_ok_def)
interpretation tags: step_relation same_tags by unfold_locales (auto simp: same_tags_def)
interpretation pending: step_relation same_pending by unfold_locales (auto simp: same_pending_def)

lemma keeps_ok_if_same: "keeps same_tags m \<Longrightarrow> keeps stays_ok m"
  by (simp add: keeps_def same_tags_def stays_ok_def)

lemma has_epc_key: "has_epc t e r \<longleftrightarrow> tag_key r = (t, e)"
  by (auto simp: has_epc_def tag_key_def)

lemma tags_ok_snoc:
  assumes "tags_ok tags" and "tag_ok r" and "\<not> list_ex (has_epc (tg_tenant_id r) (tg_epc_hex r)) tags" and "\<not> list_ex (\<lambda>t. tg_id t = tg_id r) tags"
  shows "tags_ok (tags @ [r])"
  using assms by (auto simp: tags_ok_def has_epc_key list_ex_iff tag_key_def [of r])

lemma tags_ok_update:
  assumes "tags_ok tags"
    and "\<And>t. t \<in> set tags \<Longrightarrow> tg_id (f t) = tg_id t \<and> tag_key (f t) = tag_key t \<and> tg_gs1_uri (f t) = tg_gs1_uri t \<and> tg_status (f t) \<in> set TAG_STATUSES"
  shows "tags_ok (map f tags)"
proof -
  have ids: "map tg_id (map f tags) = map tg_id tags" and keys: "map tag_key (map f tags) = map tag_key tags" using assms(2) by auto
  have "list_all tag_ok (map f tags)"
    using assms by (auto simp: list_all_iff tags_ok_def tag_ok_def tag_key_def)
  then show ?thesis using assms(1) unfolding tags_ok_def ids keys by simp
qed

lemma tags_ok_filter: "tags_ok tags \<Longrightarrow> tags_ok (filter P tags)"
  by (auto simp: tags_ok_def distinct_map_filter list_all_iff)

lemma mutate_same [simp]:
  "tg_id (mutate m t) = tg_id t" "tag_key (mutate m t) = tag_key t" "tg_gs1_uri (mutate m t) = tg_gs1_uri t"
  "tg_tenant_id (mutate m t) = tg_tenant_id t" "tg_epc_hex (mutate m t) = tg_epc_hex t"
  by (auto simp: mutate_def tag_key_def Let_def split: option.split)

lemma mutate_status: "tg_status (mutate m t) = (case mu_status m of None \<Rightarrow> tg_status t | Some s \<Rightarrow> s)"
  by (auto simp: mutate_def Let_def split: option.split)

section \<open>Steps that leave the tags alone\<close>

lemma same_tags_fresh: "keeps same_tags (fresh_uuid env)"
  by (simp add: keeps_def same_tags_def fresh_uuid_def)

lemma same_tags_audit: "keeps same_tags (audit e)"
  by (simp add: keeps_def same_tags_def audit_def change_def)

lemma same_tags_role: "keeps same_tags (require_role roles user)"
  by (simp add: require_role_def tags.give tags.lift)

lemma same_tags_xor: "keeps same_tags (require_xor_flow d c)"
  by (simp add: require_xor_flow_def tags.give tags.lift)

lemma same_tags_mint: "keeps same_tags (mint env t u op h)"
  by (simp add: keeps_def same_tags_def mint_def Let_def)

lemma consume_token_tags: "consume_token env token t u op h st = (c, st') \<Longrightarrow> rg_tags st' = rg_tags st \<and> rg_pending st' = rg_pending st"
  by (auto simp: consume_token_def split: option.splits if_splits)

lemma same_tags_confirm: "keeps same_tags (confirm_token env user token op h)"
  by (auto simp: keeps_def same_tags_def confirm_token_def split: prod.split confirmation.split dest: consume_token_tags)

lemma same_tags_create_pending: "keeps same_tags (create_pending env t op u h n smp pl)"
  unfolding create_pending_def
  by (rule tags.run_then [OF same_tags_fresh]) (auto simp: keeps_def same_tags_def Let_def)

lemma same_tags_transfers: "keeps same_tags (create_transfers env r a b u epcs)"
proof (induction epcs)
  case (Cons epc epcs)
  have "keeps same_tags (change (\<lambda>st. st\<lparr>rg_transfers := rg_transfers st @ [row]\<rparr>))" for row
    by (simp add: keeps_def same_tags_def change_def)
  with Cons show ?case by (simp add: Let_def) (intro tags.run_then tags.give same_tags_fresh)
qed (simp add: tags.give)

lemma same_tags_count: "keeps same_tags (count_import env t cap)"
  by (simp add: keeps_def same_tags_def count_import_def split: prod.split)

lemmas same_tags_leaves = same_tags_count same_tags_fresh same_tags_audit same_tags_role same_tags_xor same_tags_mint
  same_tags_confirm same_tags_create_pending same_tags_transfers

lemmas same_tags_steps = tags.run_then tags.give tags.lift tags.lift_then tags.query same_tags_leaves

section \<open>The writes keep the table well formed\<close>

lemma epc_registered: "''registered'' \<in> set TAG_STATUSES"
  by (simp add: TAG_STATUSES_def)

lemma new_tag_ok: "epc_pattern e \<Longrightarrow> parse_gs1_uri e = Inr u \<Longrightarrow> tag_ok (new_tag i t e u src m)"
  by (simp add: tag_ok_def new_tag_def epc_registered)

lemma ok_repo_create: "keeps stays_ok (repo_create env t e src m)"
proof -
  have "keeps stays_ok (\<lambda>st. let row = new_tag i t e u src m in
      if \<not> epc_pattern e then (Inl (OtherError ''IntegrityError''), st)
      else if list_ex (\<lambda>t'. has_epc t e t' \<or> tg_id t' = i) (rg_tags st) then (Inl epc_conflict, st)
      else (Inr row, st\<lparr>rg_tags := rg_tags st @ [row]\<rparr>))" if "parse_gs1_uri e = Inr u" for i u
    using that tags_ok_snoc [of _ "new_tag i t e u src m"] new_tag_ok [of e u i t src m]
    by (auto simp: keeps_def stays_ok_def Let_def list_ex_iff new_tag_def)
  then show ?thesis
    unfolding repo_create_def by (intro ok.run_then ok.lift_then keeps_ok_if_same [OF same_tags_fresh])
qed

lemma insert_all_ok:
  "insert_all rows tags = Inr tags' \<Longrightarrow> tags_ok tags \<Longrightarrow> list_all (\<lambda>r. epc_pattern (tg_epc_hex r) \<longrightarrow> tag_ok r) rows \<Longrightarrow> tags_ok tags'"
  by (induction rows tags rule: insert_all.induct) (auto split: if_splits intro: tags_ok_snoc)

lemma import_values_rows:
  "import_values env t epcs st = (Inr rows, st') \<Longrightarrow>
     rg_tags st' = rg_tags st \<and> map tg_epc_hex rows = epcs \<and>
     list_all (\<lambda>r. tg_tenant_id r = t \<and> tg_status r = ''registered'' \<and> (epc_pattern (tg_epc_hex r) \<longrightarrow> tag_ok r)) rows"
proof (induction epcs arbitrary: st rows)
  case (Cons e epcs)
  then obtain i u rest st1 where *: "rows = new_tag i t e u ''csv_import'' None # rest" "parse_gs1_uri e = Inr u"
      "import_values env t epcs st1 = (Inr rest, st')" "rg_tags st1 = rg_tags st"
    by (auto simp: run_then_Inr fresh_uuid_def)
  from Cons.IH [OF *(3)] *(1,2,4) show ?case using new_tag_ok [of e u] by (auto simp: new_tag_def)
qed simp

lemma same_tags_values: "keeps same_tags (import_values env t epcs)"
  by (induction epcs) (auto intro!: same_tags_steps)

lemma ok_bulk_create: "keeps stays_ok (bulk_create env t epcs)"
proof (rule keepsI)
  fix st
  obtain r st1 where vals: "import_values env t epcs st = (r, st1)" by fastforce
  have same: "rg_tags st1 = rg_tags st" using keepsD [OF same_tags_values, of st env t epcs] vals by (simp add: same_tags_def)
  show "stays_ok st (snd (bulk_create env t epcs st))"
  proof (cases r)
    case (Inl e)
    with same show ?thesis by (simp add: bulk_create_def stays_ok_def run_then_def vals give_def)
  next
    case (Inr rows)
    with import_values_rows vals have rows: "list_all (\<lambda>r. epc_pattern (tg_epc_hex r) \<longrightarrow> tag_ok r) rows" by (fastforce simp: list_all_iff)
    show ?thesis using insert_all_ok [OF _ _ rows] same
      by (auto simp: bulk_create_def stays_ok_def run_then_def vals give_def Inr Let_def split: sum.split)
  qed
qed

lemma ok_bulk_apply: "keeps stays_ok (bulk_apply rows m)"
proof (rule keepsI)
  fix st :: registry
  have "tags_ok (map (\<lambda>t. if tg_id t \<in> tg_id ` set rows then mutate m t else t) (rg_tags st))"
    if "tags_ok (rg_tags st)" and "\<not> (case mu_status m of None \<Rightarrow> False | Some s \<Rightarrow> s \<notin> set TAG_STATUSES)"
    by (rule tags_ok_update [OF that(1)])
      (use that in \<open>auto simp: mutate_status tags_ok_def list_all_iff tag_ok_def split: option.splits\<close>)
  then show "stays_ok st (snd (bulk_apply rows m st))" by (auto simp: bulk_apply_def stays_ok_def)
qed

lemma permitted_target: "transition_permitted s s' \<Longrightarrow> s \<in> set TAG_STATUSES \<Longrightarrow> s' \<in> set TAG_STATUSES"
  by (auto simp: transition_permitted_def OPERATOR_TRANSITIONS_def TAG_STATUSES_def split: if_splits)

lemma find_is_tag: "tag_get t i tags = Some r \<Longrightarrow> r \<in> set tags \<and> tg_id r = i \<and> tg_tenant_id r = t"
  by (auto simp: tag_get_def is_tag_def find_Some_iff)

lemma tags_ok_id: "tags_ok tags \<Longrightarrow> a \<in> set tags \<Longrightarrow> b \<in> set tags \<Longrightarrow> tg_id a = tg_id b \<Longrightarrow> a = b"
  by (auto simp: tags_ok_def distinct_map inj_on_def)

lemma ok_repo_update: "keeps stays_ok (repo_update t i m)"
proof (rule keepsI)
  fix st :: registry
  have "tags_ok (map (\<lambda>r. if is_tag t i r then mutate m r else r) (rg_tags st))"
    if ok: "tags_ok (rg_tags st)" and r: "tag_get t i (rg_tags st) = Some r"
      and tr: "\<not> (case mu_status m of None \<Rightarrow> False | Some s \<Rightarrow> \<not> transition_permitted (tg_status r) s)" for r
  proof (rule tags_ok_update [OF ok])
    fix t' assume t': "t' \<in> set (rg_tags st)"
    have st: "tg_status t' \<in> set TAG_STATUSES" using ok t' by (auto simp: tags_ok_def list_all_iff tag_ok_def)
    have "is_tag t i t' \<Longrightarrow> t' = r" using tags_ok_id [OF ok t'] find_is_tag [OF r] by (auto simp: is_tag_def)
    with st tr permitted_target show "tg_id (if is_tag t i t' then mutate m t' else t') = tg_id t' \<and>
        tag_key (if is_tag t i t' then mutate m t' else t') = tag_key t' \<and>
        tg_gs1_uri (if is_tag t i t' then mutate m t' else t') = tg_gs1_uri t' \<and>
        tg_status (if is_tag t i t' then mutate m t' else t') \<in> set TAG_STATUSES"
      by (auto simp: mutate_status split: option.splits)
  qed
  then show "stays_ok st (snd (repo_update t i m st))"
    by (auto simp: repo_update_def stays_ok_def split: option.splits if_splits)
qed

lemma ok_delete: "keeps stays_ok (change (repo_delete t i))"
  by (auto simp: keeps_def stays_ok_def change_def repo_delete_def tags_ok_filter)

section \<open>Every request keeps the table well formed\<close>

lemma snd_in_request: "snd (in_request m st) = (case m st of (Inr a, st') \<Rightarrow> st'
   | (Inl e, st') \<Rightarrow> st'\<lparr>rg_tags := rg_tags st, rg_pending := rg_pending st, rg_transfers := rg_transfers st, rg_audit := rg_audit st\<rparr>)"
  by (simp add: in_request_def split: prod.split sum.split)

lemma in_request_Inr: "in_request m st = (Inr a, st') \<longleftrightarrow> m st = (Inr a, st')"
  by (auto simp: in_request_def split: prod.splits sum.splits)

lemma ok_in_request:
  assumes "keeps stays_ok m"
  shows "keeps stays_ok (in_request m)"
proof (rule keepsI)
  fix st
  show "stays_ok st (snd (in_request m st))"
    using keepsD [OF assms, of st] by (cases "m st") (auto simp: stays_ok_def snd_in_request split: sum.split)
qed

lemma snd_as_conflict [simp]: "snd (as_conflict e m st) = snd (m st)"
  by (simp add: as_conflict_def split: prod.split sum.split)

lemma keeps_as_conflict: "keeps R m \<Longrightarrow> keeps R (as_conflict e m)"
  by (simp add: keeps_def)

lemma keeps_snd_replying [simp]: "snd (replying f m st) = snd (m st)"
  by (simp add: replying_def run_then_def give_def split: prod.split sum.split)

lemmas ok_steps = ok.run_then ok.give ok.lift ok.lift_then ok.query ok_in_request same_tags_leaves [THEN keeps_ok_if_same]

lemma ok_create_tag: "keeps stays_ok (create_tag env user e src m)"
  unfolding create_tag_def
  by (intro ok_in_request ok.run_then ok.give keeps_as_conflict ok_repo_create keeps_ok_if_same [OF same_tags_role] keeps_ok_if_same [OF same_tags_audit])

lemma ok_update_tag: "keeps stays_ok (update_tag env user i m)"
  unfolding update_tag_def Let_def
  by (auto split: option.split intro!: ok_steps keeps_as_conflict ok_repo_update)

lemma ok_delete_tag: "keeps stays_ok (delete_tag env user i)"
  unfolding delete_tag_def by (auto split: option.split intro!: ok_steps ok_delete)

lemma ok_execute_import: "keeps stays_ok (execute_tag_import env t epcs u tok ap pid rid)"
  unfolding execute_tag_import_def Let_def
  by (auto split: prod.split option.split intro!: ok_steps ok_bulk_create)

lemma same_tags_import_approval: "keeps same_tags (request_import_approval env user settings raw epcs tok)"
  unfolding request_import_approval_def Let_def by (intro same_tags_steps)

lemma same_tags_mutation_approval: "keeps same_tags (request_mutation_approval env user settings op rq sc m rows x tok)"
  unfolding request_mutation_approval_def Let_def by (intro same_tags_steps)

lemma ok_import_confirmed: "keeps stays_ok (import_confirmed env user settings raw epcs tok)"
  unfolding import_confirmed_def Let_def
  by (auto split: prod.split intro!: ok_steps ok_execute_import keeps_ok_if_same [OF same_tags_import_approval])

lemma ok_execute_mutation: "keeps stays_ok (execute_bulk_mutation env t rows m u act kd v b tok ap pid rid x)"
  unfolding execute_bulk_mutation_def Let_def
  by (auto intro!: ok_steps ok_bulk_apply)

lemma ok_mutation_confirmed: "keeps stays_ok (mutation_confirmed env user op rq ap sc m rows x tok)"
  unfolding mutation_confirmed_def Let_def
  by (auto intro!: ok_steps ok_execute_mutation keeps_ok_if_same [OF same_tags_mutation_approval])

lemma ok_run_bulk: "keeps stays_ok (run_bulk_mutation env user op rq ap body m d c x)"
  unfolding run_bulk_mutation_def Let_def by (auto split: option.split intro!: ok_steps ok_mutation_confirmed)

lemma ok_import_tags: "keeps stays_ok (import_tags env user raw d c)"
  unfolding import_tags_def import_body_def by (auto split: prod.split option.split intro!: ok_steps ok_import_confirmed)

lemma ok_transfer: "keeps stays_ok (create_tag_transfer env user slug epcs)"
  unfolding create_tag_transfer_def create_request_def Let_def
  by (auto split: option.split sum.split list.split intro!: ok_steps)

lemma same_tags_set_pending: "keeps same_tags (change (set_pending t i f))"
  by (simp add: keeps_def same_tags_def change_def set_pending_def)

lemma ok_executor: "keeps stays_ok (executor_of env row rid)"
  unfolding executor_of_def tag_import_executor_def bulk_mutation_executor_def Let_def
  by (auto split: prod.split intro!: ok_steps ok_execute_import ok_execute_mutation)

lemma ok_pending_approve: "keeps stays_ok (pending_approve env (executor_of env) h i t u)"
  unfolding pending_approve_def Let_def
  by (auto split: option.split intro!: ok_steps ok_executor keeps_ok_if_same [OF same_tags_set_pending])

lemma same_tags_conclude: "keeps same_tags (conclude entry outcome row)"
  unfolding conclude_def by (auto split: option.split intro!: same_tags_steps)

lemma ok_approve: "keeps stays_ok (approve_operation env user i)"
  unfolding approve_operation_def
  by (auto split: option.split prod.split intro!: ok_steps ok_pending_approve keeps_ok_if_same [OF same_tags_conclude])

lemma same_tags_reject: "keeps same_tags (pending_reject env i t u)"
  unfolding pending_reject_def Let_def
  by (auto split: option.split intro!: same_tags_steps same_tags_set_pending)

lemma ok_reject: "keeps stays_ok (reject_operation env user i)"
  unfolding reject_operation_def
  by (auto split: option.split prod.split intro!: ok_steps keeps_ok_if_same [OF same_tags_reject] keeps_ok_if_same [OF same_tags_conclude])

lemma ok_patch: "keeps stays_ok (bulk_patch_tags env user body m d c)"
  unfolding bulk_patch_tags_def by (intro ok_steps ok_run_bulk)

lemma ok_retire: "keeps stays_ok (bulk_retire_tags env user body r d c)"
  unfolding bulk_retire_tags_def by (intro ok_steps ok_run_bulk)

lemma ok_request: "stays_ok st (snd (tag_request_step env user rq st))"
  by (cases rq) (simp_all add: keepsD ok_create_tag ok_update_tag ok_delete_tag ok_import_tags ok_patch ok_retire ok_transfer ok_approve ok_reject)

lemma ok_requests: "tags_ok (rg_tags st) \<Longrightarrow> tags_ok (rg_tags (tag_requests rqs st))"
  using ok_request by (induction rqs st rule: tag_requests.induct) (auto simp: stays_ok_def)

section \<open>The service's checks suffice\<close>

text \<open>
  The table has constraints of its own: identifiers and EPCs per tenant are unique, an EPC has its shape, a status is one
  of the five, and the row count of a pending operation is positive.  A violated one surfaces as an \<open>IntegrityError\<close>
  that no route handles (the duplicate EPC of a create apart).  \<open>safe P m Q\<close>: from \<open>P\<close> the step does not raise it, and a
  value leaves \<open>Q\<close>.
\<close>

definition constraint_error :: py_exn where
  "constraint_error = OtherError ''IntegrityError''"

definition safe :: "(registry \<Rightarrow> bool) \<Rightarrow> (registry, 'a) step \<Rightarrow> ('a \<Rightarrow> registry \<Rightarrow> bool) \<Rightarrow> bool" where
  "safe P m Q \<longleftrightarrow> (\<forall>st. P st \<longrightarrow> (case m st of (Inl e, st') \<Rightarrow> e \<noteq> constraint_error | (Inr a, st') \<Rightarrow> Q a st'))"

text \<open>What \<open>uuid4\<close> draws next, for as many rows as a request can create, is new and does not repeat.\<close>

definition unused_ids :: "registry_env \<Rightarrow> registry \<Rightarrow> bool" where
  "unused_ids env st \<longleftrightarrow> inj_on (re_uuid4 env) {rg_fresh st ..< rg_fresh st + MAX_TAG_IMPORT_ROWS} \<and>
     (\<forall>n \<in> {rg_fresh st ..< rg_fresh st + MAX_TAG_IMPORT_ROWS}.
        re_uuid4 env n \<notin> tg_id ` set (rg_tags st) \<and> re_uuid4 env n \<notin> pb_id ` set (rg_pending st))"

definition ready :: "registry_env \<Rightarrow> registry \<Rightarrow> bool" where
  "ready env st \<longleftrightarrow> tags_ok (rg_tags st) \<and> unused_ids env st"

definition calm :: "registry_env \<Rightarrow> (registry, 'a) step \<Rightarrow> bool" where
  "calm env m \<longleftrightarrow> safe (ready env) m (\<lambda>_. ready env)"

definition soft :: "registry_env \<Rightarrow> (registry, 'a) step \<Rightarrow> bool" where
  "soft env m \<longleftrightarrow> safe (ready env) m (\<lambda>_ _. True)"

definition mild :: "(registry, 'a) step \<Rightarrow> bool" where
  "mild m \<longleftrightarrow> safe (\<lambda>_. True) m (\<lambda>_ _. True)"

lemma safe_then: "safe P m Q \<Longrightarrow> (\<And>a. safe (Q a) (k a) R) \<Longrightarrow> safe P (run_then m k) R"
  by (fastforce simp: safe_def run_then_def split: prod.splits sum.splits)

lemma safe_weaken: "safe P m Q \<Longrightarrow> (\<And>st. P' st \<Longrightarrow> P st) \<Longrightarrow> (\<And>a st. Q a st \<Longrightarrow> Q' a st) \<Longrightarrow> safe P' m Q'"
  by (fastforce simp: safe_def split: prod.splits sum.splits)

lemma soft_mild: "mild m \<Longrightarrow> soft env m"
  unfolding mild_def soft_def by (erule safe_weaken) simp_all

lemma mild_then: "mild m \<Longrightarrow> (\<And>a. mild (k a)) \<Longrightarrow> mild (run_then m k)"
  unfolding mild_def by (rule safe_then) simp_all

lemma soft_then: "soft env m \<Longrightarrow> (\<And>a. mild (k a)) \<Longrightarrow> soft env (run_then m k)"
  unfolding mild_def soft_def by (rule safe_then) simp_all

lemma calm_then: "calm env m \<Longrightarrow> (\<And>a. soft env (k a)) \<Longrightarrow> soft env (run_then m k)"
  unfolding calm_def soft_def by (rule safe_then) simp_all

text \<open>A step whose value the rest needs to know something about.\<close>

lemma knowing:
  "safe (ready env) m (\<lambda>a st. ready env st \<and> C a) \<Longrightarrow> (\<And>a. C a \<Longrightarrow> soft env (k a)) \<Longrightarrow> soft env (run_then m k)"
  unfolding soft_def by (erule safe_then) (fastforce simp: safe_def)

lemma http_not_constraint [simp]: "http_error n \<noteq> constraint_error" "OtherError (''HTTPException '' @ s) \<noteq> constraint_error"
  by (simp_all add: http_error_def constraint_error_def)

lemma mild_leaves:
  "mild (give a)" "mild (query f)" "mild (lift_res (Inl (http_error n)))" "mild (change h)" "mild (audit entry)" "mild (fresh_uuid env)"
  "mild (require_role roles user)" "mild (mint env t u op h')"
  by (simp_all add: mild_def safe_def give_def query_def lift_res_def change_def audit_def fresh_uuid_def require_role_def mint_def Let_def)

lemma mild_lift: "(\<And>e. r = Inl e \<Longrightarrow> e \<noteq> constraint_error) \<Longrightarrow> mild (lift_res r)"
  by (cases r) (simp_all add: mild_def safe_def lift_res_def)

lemmas mild_steps = mild_then mild_leaves

lemma no_error: "(case x of (Inl e, st) \<Rightarrow> e \<noteq> c | (Inr a, st) \<Rightarrow> True) \<longleftrightarrow> fst x \<noteq> Inl c"
  by (cases x; cases "fst x") auto

lemma soft_iff: "soft env m \<longleftrightarrow> (\<forall>st. ready env st \<longrightarrow> fst (m st) \<noteq> Inl constraint_error)"
  unfolding soft_def safe_def no_error ..

lemma mild_iff: "mild m \<longleftrightarrow> (\<forall>st. fst (m st) \<noteq> Inl constraint_error)"
  unfolding mild_def safe_def no_error by simp

lemma error_in_request: "fst (in_request m st) = Inl e \<longleftrightarrow> fst (m st) = Inl e"
  by (auto simp: in_request_def split: prod.split sum.split)

lemma error_as_conflict: "fst (as_conflict c m st) = Inl constraint_error \<Longrightarrow> fst (m st) = Inl constraint_error"
  by (auto simp: as_conflict_def split: prod.splits sum.splits if_splits)

lemma in_request_soft: "soft env m \<Longrightarrow> soft env (in_request m)" "mild m \<Longrightarrow> mild (in_request m)"
  by (simp_all add: soft_iff mild_iff error_in_request)

lemma conflict_soft: "soft env m \<Longrightarrow> soft env (as_conflict c m)" "mild m \<Longrightarrow> mild (as_conflict c m)"
  using error_as_conflict unfolding soft_iff mild_iff by blast+

lemma replying_soft: "soft env m \<Longrightarrow> soft env (replying f m)"
  unfolding replying_def by (erule soft_then) (rule mild_leaves)

lemma calm_leaves:
  "calm env (require_role roles user)" "calm env (require_xor_flow d c)" "calm env (count_import env t cap)" "calm env (mint env t u op h)"
  "calm env (lift_res (tenant_row env' t))" "calm env (lift_res (normalize_scope body))"
  by (auto simp: calm_def safe_def require_role_def require_xor_flow_def count_import_def mint_def give_def lift_res_def ready_def unused_ids_def Let_def
      tenant_row_def normalize_scope_def constraint_error_def http_error_def split: prod.split option.split scope_body.split)

lemma consume_token_fresh: "consume_token env token t u op h st = (c, st') \<Longrightarrow> rg_fresh st' = rg_fresh st"
  by (auto simp: consume_token_def split: option.splits if_splits)

lemma ready_same: "rg_tags st' = rg_tags st \<Longrightarrow> rg_pending st' = rg_pending st \<Longrightarrow> rg_fresh st' = rg_fresh st \<Longrightarrow> ready env st' = ready env st"
  by (simp add: ready_def unused_ids_def)

lemma calm_confirm: "calm env (confirm_token env' user token op h)"
  unfolding calm_def safe_def confirm_token_def
  by (auto split: prod.split confirmation.split) (metis ready_same consume_token_tags consume_token_fresh)

text \<open>A drawn identifier is new.\<close>

lemma draw:
  "safe (ready env) (fresh_uuid env) (\<lambda>i st. i \<notin> tg_id ` set (rg_tags st) \<and> i \<notin> pb_id ` set (rg_pending st))"
  by (auto simp: safe_def fresh_uuid_def ready_def unused_ids_def MAX_TAG_IMPORT_ROWS_def)

lemma uri_decodes: "\<exists>u. parse_gs1_uri e = Inr u"
  using decode_epc_hex_total [of e] by (auto simp: parse_gs1_uri_def)

section \<open>No write violates a constraint\<close>

lemma safe_repo_create:
  assumes "epc_pattern e"
  shows "soft env (repo_create env t e src m)"
  unfolding repo_create_def soft_def
proof (rule safe_then [OF draw])
  fix i
  obtain u where u: "parse_gs1_uri e = Inr u" using uri_decodes by blast
  show "safe (\<lambda>st. i \<notin> tg_id ` set (rg_tags st) \<and> i \<notin> pb_id ` set (rg_pending st)) (run_then (lift_res (parse_gs1_uri e)) (\<lambda>uri. \<lambda>st.
       let row = new_tag i t e uri src m in
       if \<not> epc_pattern e then (Inl (OtherError ''IntegrityError''), st)
       else if list_ex (\<lambda>t'. has_epc t e t' \<or> tg_id t' = i) (rg_tags st) then (Inl epc_conflict, st)
       else (Inr row, st\<lparr>rg_tags := rg_tags st @ [row]\<rparr>))) (\<lambda>_ _. True)"
    using assms by (auto simp: safe_def run_then_def lift_res_def u Let_def epc_conflict_def constraint_error_def)
qed

lemma import_values_ids:
  "\<exists>rows st'. import_values env t epcs st = (Inr rows, st') \<and> map tg_epc_hex rows = epcs \<and> rg_tags st' = rg_tags st \<and>
     map tg_id rows = map (re_uuid4 env) [rg_fresh st ..< rg_fresh st + length epcs]"
proof (induction epcs arbitrary: st)
  case (Cons e epcs)
  obtain u where u: "parse_gs1_uri e = Inr u" using uri_decodes by blast
  let ?st = "st\<lparr>rg_fresh := Suc (rg_fresh st)\<rparr>"
  obtain rows st' where "import_values env t epcs ?st = (Inr rows, st')" "map tg_epc_hex rows = epcs" "rg_tags st' = rg_tags st"
      "map tg_id rows = map (re_uuid4 env) [Suc (rg_fresh st) ..< Suc (rg_fresh st) + length epcs]"
    using Cons [of ?st] by auto
  then show ?case
    by (simp add: run_then_def fresh_uuid_def lift_res_def u give_def new_tag_def upt_conv_Cons del: upt_Suc)
qed (simp add: give_def)

lemma insert_all_safe:
  "list_all (\<lambda>r. epc_pattern (tg_epc_hex r)) rows \<Longrightarrow> distinct (map tg_id rows) \<Longrightarrow> tg_id ` set rows \<inter> tg_id ` set tags = {} \<Longrightarrow>
     \<exists>tags'. insert_all rows tags = Inr tags'"
  by (induction rows tags rule: insert_all.induct) (auto simp: list_ex_iff image_iff)

lemma safe_bulk_create:
  assumes "list_all epc_pattern epcs" and "length epcs \<le> MAX_TAG_IMPORT_ROWS"
  shows "soft env (bulk_create env t epcs)"
proof -
  have "\<exists>r. fst (bulk_create env t epcs st) = Inr r" if ready: "ready env st" for st
  proof (cases "epcs = []")
    case False
    obtain rows st' where rows: "import_values env t epcs st = (Inr rows, st')" "map tg_epc_hex rows = epcs" "rg_tags st' = rg_tags st"
        "map tg_id rows = map (re_uuid4 env) [rg_fresh st ..< rg_fresh st + length epcs]"
      using import_values_ids by blast
    let ?drawn = "{rg_fresh st ..< rg_fresh st + length epcs}"
    have "?drawn \<subseteq> {rg_fresh st ..< rg_fresh st + MAX_TAG_IMPORT_ROWS}" using assms(2) by auto
    then have inj: "inj_on (re_uuid4 env) ?drawn" and new: "\<forall>n \<in> ?drawn. re_uuid4 env n \<notin> tg_id ` set (rg_tags st)"
      using ready by (auto simp: ready_def unused_ids_def intro: inj_on_subset)
    have "distinct (map tg_id rows)" unfolding rows(4) using inj by (simp add: distinct_map)
    moreover have "tg_id ` set rows = re_uuid4 env ` {rg_fresh st ..< rg_fresh st + length epcs}" using rows(4) by (metis list.set_map set_upt)
    moreover have "re_uuid4 env ` {rg_fresh st ..< rg_fresh st + length epcs} \<inter> tg_id ` set (rg_tags st) = {}"
      using new by (auto simp: image_iff)
    ultimately have "distinct (map tg_id rows)" and "tg_id ` set rows \<inter> tg_id ` set (rg_tags st') = {}" by (simp_all add: rows(3))
    moreover have "list_all (\<lambda>r. epc_pattern (tg_epc_hex r)) rows" using assms rows(2) by (auto simp: list_all_iff)
    ultimately obtain tags' where "insert_all rows (rg_tags st') = Inr tags'" using insert_all_safe by blast
    then show ?thesis using False by (simp add: bulk_create_def run_then_def rows(1) Let_def)
  qed (simp add: bulk_create_def give_def)
  then show ?thesis unfolding soft_def safe_def by (auto split: prod.split sum.split) (metis fst_conv sum.distinct(1))
qed

lemma safe_create_pending:
  assumes "0 < n"
  shows "soft env (create_pending env t op u h n smp pl)"
  unfolding create_pending_def soft_def
  by (rule safe_then [OF draw]) (use assms in \<open>auto simp: safe_def Let_def list_ex_iff image_iff\<close>)

lemma safe_bulk_apply:
  assumes "\<And>s. mu_status m = Some s \<Longrightarrow> s \<in> set TAG_STATUSES"
  shows "mild (bulk_apply rows m)"
  using assms by (auto simp: mild_def safe_def bulk_apply_def constraint_error_def split: option.split)

section \<open>No request violates a constraint\<close>

text \<open>The tenant asks for a second person from one row on, at the earliest.\<close>

definition positive_threshold :: "registry_env \<Rightarrow> actor \<Rightarrow> bool" where
  "positive_threshold env user \<longleftrightarrow> (case tenant_row env (ac_tenant_id user) of Inl _ \<Rightarrow> True | Inr settings \<Rightarrow> 1 \<le> ts_two_person_threshold settings)"

text \<open>The body of a create names an EPC, in any case and padding (the schema of the route is stricter).\<close>

fun in_form :: "tag_request \<Rightarrow> bool" where
  "in_form (CreateTag epc source metadata) = epc_pattern (normalize_epc_hex epc)"
| "in_form (ApproveOperation i) = False"
| "in_form _ = True"

lemma safe_create_tag:
  assumes "epc_pattern (normalize_epc_hex e)"
  shows "soft env (create_tag env user e src m)"
  unfolding create_tag_def
  by (intro in_request_soft calm_then [OF calm_leaves(1)] soft_then [OF conflict_soft(1) [OF safe_repo_create [OF assms]]] mild_steps)

lemma mild_update_tag: "mild (update_tag env user i m)"
proof -
  have "mild (repo_update t i m)" for t
    by (auto simp: mild_def safe_def repo_update_def transition_error_def constraint_error_def split: option.split)
  then show ?thesis
    unfolding update_tag_def Let_def
    by (auto intro!: in_request_soft mild_steps conflict_soft split: option.split)
qed

lemma mild_delete_tag: "mild (delete_tag env user i)"
  unfolding delete_tag_def by (auto intro!: in_request_soft mild_steps split: option.split)

lemma imported_epcs:
  "import_rows c idx seen rows = (vs, es) \<Longrightarrow> list_all epc_pattern vs"
  by (induction c idx seen rows arbitrary: vs es rule: import_rows.induct) (auto simp: Let_def split: if_splits prod.splits option.splits)

lemma csv_epcs_ok: "parse_tag_import_csv t = (vs, es) \<Longrightarrow> list_all epc_pattern vs"
  by (auto simp: parse_tag_import_csv_def split: csv_text.splits option.splits dest: imported_epcs)

lemma safe_execute_import:
  "list_all epc_pattern epcs \<Longrightarrow> length epcs \<le> MAX_TAG_IMPORT_ROWS \<Longrightarrow> soft env (execute_tag_import env t epcs u tok ap pid rid)"
  unfolding execute_tag_import_def Let_def
  by (rule soft_then [OF safe_bulk_create]) (auto intro!: mild_steps split: prod.split option.split)

lemma safe_import_confirmed:
  assumes "list_all epc_pattern epcs" and "length epcs \<le> MAX_TAG_IMPORT_ROWS" and "1 \<le> ts_two_person_threshold settings"
  shows "soft env (import_confirmed env user settings raw epcs tok)"
  unfolding import_confirmed_def
proof (rule calm_then [OF calm_confirm])
  have "soft env (request_import_approval env user settings raw epcs tok)"
    if "int (length epcs) \<ge> ts_two_person_threshold settings"
    unfolding request_import_approval_def Let_def
    by (rule soft_then [OF safe_create_pending]) (use that assms(3) in \<open>auto intro!: mild_steps\<close>)
  moreover have "soft env (run_then (execute_tag_import env (ac_tenant_id user) epcs (ac_user_id user) (Some tok) None None None)
      (\<lambda>(created, skipped, rid). give (Applied (length epcs) created rid)))"
    by (rule soft_then [OF safe_execute_import [OF assms(1,2)]]) (auto intro: mild_leaves split: prod.split)
  ultimately show "soft env (if int (length epcs) \<ge> ts_two_person_threshold settings
      then request_import_approval env user settings raw epcs tok
      else run_then (execute_tag_import env (ac_tenant_id user) epcs (ac_user_id user) (Some tok) None None None)
        (\<lambda>(created, skipped, rid). give (Applied (length epcs) created rid)))"
    by (cases "int (length epcs) \<ge> ts_two_person_threshold settings") (simp_all only: if_True if_False)
qed

lemma safe_import_body:
  "1 \<le> ts_two_person_threshold settings \<Longrightarrow> soft env (import_body env user settings raw c)"
  unfolding import_body_def
  by (auto intro!: soft_mild [OF mild_leaves(3)] soft_mild [OF mild_then] mild_leaves safe_import_confirmed soft_mild [OF mild_leaves(1)]
      intro: csv_epcs_ok split: prod.split option.split)

lemma tenant_settings:
  "positive_threshold env user \<Longrightarrow>
     safe (ready env) (lift_res (tenant_row env (ac_tenant_id user))) (\<lambda>settings st. ready env st \<and> 1 \<le> ts_two_person_threshold settings)"
  by (auto simp: safe_def lift_res_def positive_threshold_def tenant_row_def constraint_error_def split: option.splits)

lemma safe_import_tags:
  assumes "positive_threshold env user"
  shows "soft env (import_tags env user raw d c)"
  unfolding import_tags_def
  by (intro in_request_soft(1) calm_then [OF calm_leaves(1)] calm_then [OF calm_leaves(2)] knowing [OF tenant_settings [OF assms]]
      calm_then [OF calm_leaves(3)]) (simp add: soft_mild [OF mild_leaves(3)] safe_import_body)

text \<open>The rows of a scope whose transitions are permitted keep a status of the five.\<close>

definition target_known :: "mutation \<Rightarrow> bool" where
  "target_known m \<longleftrightarrow> (\<forall>s. mu_status m = Some s \<longrightarrow> s \<in> set TAG_STATUSES)"

lemma permitted_rows:
  assumes "\<forall>t \<in> set rows. tg_status t \<in> set TAG_STATUSES" and "rows \<noteq> []" and "transition_failures rows (mu_status m) = []"
  shows "target_known m"
proof -
  obtain t where t: "t \<in> set rows" using assms(2) by (cases rows) auto
  have "transition_permitted (tg_status t) s" if "mu_status m = Some s" for s
    using assms(3) t that by (auto simp: transition_failures_def filter_empty_conv)
  then show ?thesis using permitted_target assms(1) t by (auto simp: target_known_def)
qed

lemma mild_execute_mutation: "target_known m \<Longrightarrow> mild (execute_bulk_mutation env t rows m u act kd v b tok ap pid rid x)"
  unfolding execute_bulk_mutation_def Let_def
  by (rule mild_then [OF safe_bulk_apply]) (auto simp: target_known_def intro!: mild_steps)

lemma safe_mutation_confirmed:
  assumes "positive_threshold env user" and "target_known m"
  shows "soft env (mutation_confirmed env user op rq ap sc m rows x tok)"
  unfolding mutation_confirmed_def
proof (rule calm_then [OF calm_confirm], rule knowing [OF tenant_settings [OF assms(1)]])
  fix settings :: tenant_settings assume pos: "1 \<le> ts_two_person_threshold settings"
  have "soft env (request_mutation_approval env user settings op rq sc m rows x tok)"
    if "int (length rows) \<ge> ts_two_person_threshold settings"
    unfolding request_mutation_approval_def Let_def
    by (rule soft_then [OF safe_create_pending]) (use that pos in \<open>auto intro!: mild_steps\<close>)
  moreover have "soft env (run_then (fresh_uuid env) (\<lambda>request_id.
            run_then (execute_bulk_mutation env (ac_tenant_id user) rows m (ac_user_id user) ap (JStr (scope_kind sc)) (json_scope sc)
                (batch_of sc) (Some tok) None None request_id x) (\<lambda>updated. give (Applied (length rows) updated request_id))))"
    by (rule soft_mild) (intro mild_steps mild_execute_mutation assms(2))
  ultimately show "soft env (if int (length rows) \<ge> ts_two_person_threshold settings
       then request_mutation_approval env user settings op rq sc m rows x tok
       else run_then (fresh_uuid env) (\<lambda>request_id.
            run_then (execute_bulk_mutation env (ac_tenant_id user) rows m (ac_user_id user) ap (JStr (scope_kind sc)) (json_scope sc)
                (batch_of sc) (Some tok) None None request_id x) (\<lambda>updated. give (Applied (length rows) updated request_id))))"
    by (cases "int (length rows) \<ge> ts_two_person_threshold settings") (simp_all only: if_True if_False)
qed

lemma resolved_rows:
  "safe (ready env) (query (\<lambda>st. resolve_bulk_scope env' t sc (rg_tags st))) (\<lambda>rows st. ready env st \<and> (\<forall>r \<in> set rows. tg_status r \<in> set TAG_STATUSES))"
  by (auto simp: safe_def query_def ready_def tags_ok_def tag_ok_def list_all_iff resolve_bulk_scope_def)

lemma safe_run_bulk:
  assumes "positive_threshold env user"
  shows "soft env (run_bulk_mutation env user op rq ap body m d c x)"
  unfolding run_bulk_mutation_def Let_def
proof (rule calm_then [OF calm_leaves(2)], rule calm_then [OF calm_leaves(6)], rule knowing [OF resolved_rows])
  fix sc and rows :: "tag_row list" assume "\<forall>r \<in> set rows. tg_status r \<in> set TAG_STATUSES"
  then have "soft env (mutation_confirmed env user op rq ap sc m rows x tok)"
    if "rows \<noteq> []" "transition_failures rows (mu_status m) = []" for tok
    using permitted_rows safe_mutation_confirmed [OF assms] that by blast
  then show "soft env (if rows = [] then give (Refused [''''])
      else if transition_failures rows (mu_status m) \<noteq> [] then give (Refused (transition_failures rows (mu_status m)))
      else case c of
          None \<Rightarrow> run_then (mint env (ac_tenant_id user) (ac_user_id user) op (bulk_mutation_content_hash env (map tg_epc_hex rows) m)) (\<lambda>token.
              give (Previewed (length rows) token))
        | Some token \<Rightarrow> mutation_confirmed env user op rq ap sc m rows x token)"
    by (auto intro!: soft_mild [OF mild_leaves(1)] soft_mild [OF mild_then] mild_leaves split: option.split)
qed

lemma mild_create_request: "mild (create_request env t t' epcs u)"
proof -
  have "mild (create_transfers env r t t' u epcs)" for r
    by (induction epcs) (auto simp: Let_def intro!: mild_steps)
  then show ?thesis unfolding create_request_def by (intro mild_steps)
qed

lemma map_res_error: "map_res f xs = Inl e \<Longrightarrow> \<exists>x \<in> set xs. f x = Inl e"
  by (induction xs) (auto simp: and_then_def split: sum.splits)

lemma lookup_error: "tag_get_by_epc t epc tags = Inl e \<Longrightarrow> e \<noteq> constraint_error"
  by (auto simp: tag_get_by_epc_def scalar_one_or_none_def constraint_error_def split: list.splits)

lemma mild_transfer: "mild (create_tag_transfer env user slug epcs)"
proof -
  have lookup: "mild (run_then (query (\<lambda>st. map_res (\<lambda>epc. tag_get_by_epc (ac_tenant_id user) epc (rg_tags st)) es)) (\<lambda>r.
      run_then (lift_res r) k))" if "\<And>found. mild (k found)" for es and k :: "tag_row option list \<Rightarrow> (registry, transfer_row list) step"
    using that by (auto simp: mild_iff run_then_def query_def lift_res_def split: sum.split dest!: map_res_error lookup_error)
  have "mild (lift_res (Inl IndexError))" by (rule mild_lift) (simp add: constraint_error_def)
  then show ?thesis
    unfolding create_tag_transfer_def Let_def
    by (auto intro!: in_request_soft lookup mild_steps mild_create_request split: option.split list.split)
qed

lemma mild_reject: "mild (reject_operation env user i)"
proof -
  have "mild (pending_reject env i t u)" for t u
    unfolding pending_reject_def Let_def by (auto intro!: mild_steps split: option.split)
  moreover have "mild (lift_res (Inl (OtherError ''AssertionError'')))" by (rule mild_lift) (simp add: constraint_error_def)
  then have "mild (conclude entry outcome row)" for entry outcome row
    unfolding conclude_def by (auto intro!: mild_steps split: option.split)
  ultimately show ?thesis
    unfolding reject_operation_def by (auto intro!: in_request_soft mild_steps split: option.split prod.split)
qed

lemma request_soft:
  assumes "in_form rq" and "positive_threshold env user"
  shows "soft env (tag_request_step env user rq)"
  using assms
  by (cases rq) (auto simp: bulk_patch_tags_def bulk_retire_tags_def intro!: replying_soft safe_create_tag soft_mild [OF mild_update_tag]
      soft_mild [OF mild_delete_tag] safe_import_tags in_request_soft(1) calm_then [OF calm_leaves(1)] safe_run_bulk
      soft_mild [OF mild_transfer] soft_mild [OF mild_reject])

text \<open>C10: After any sequence of requests no two tags share an identifier, a tenant has one row per EPC, every EPC is
  canonical, every status is one of the five, and the stored URI is the one its EPC decodes to.  And the service does not
  leave this to the constraints of the table: with new identifiers, a positive threshold of the tenant and, for a create,
  a text whose trimmed upper-case form is an EPC, no further request except an approval violates one, whatever
  status, scope or file it names: what the table would not take has been normalised or refused before.\<close>

theorem registry_well_formed:
  "tags_ok (rg_tags (tag_requests rqs empty_registry)) \<and>
   (in_form rq \<and> positive_threshold env user \<and> unused_ids env (tag_requests rqs empty_registry) \<longrightarrow>
      fst (tag_request_step env user rq (tag_requests rqs empty_registry)) \<noteq> Inl constraint_error)"
proof -
  have ok: "tags_ok (rg_tags (tag_requests rqs empty_registry))" by (rule ok_requests) (simp add: tags_ok_def empty_registry_def)
  then show ?thesis using request_soft by (auto simp: soft_iff ready_def)
qed

section \<open>What one request may change\<close>

text \<open>A tag stays itself and moves along the operators' graph, or it is new and registered.\<close>

definition moves_along :: "tag_row list \<Rightarrow> tag_row list \<Rightarrow> bool" where
  "moves_along tags tags' \<longleftrightarrow> list_all (\<lambda>t'.
     list_ex (\<lambda>t. tg_id t = tg_id t' \<and> tag_key t = tag_key t' \<and> transition_permitted (tg_status t) (tg_status t')) tags \<or>
     tg_status t' = ''registered'' \<and> list_all (\<lambda>t. tg_id t \<noteq> tg_id t') tags) tags'"

definition changed_rows :: "tag_row list \<Rightarrow> tag_row list \<Rightarrow> nat" where
  "changed_rows tags tags' = length (filter (\<lambda>t. t \<notin> set tags) tags')"

lemma permitted_refl [simp]: "transition_permitted s s"
  by (simp add: transition_permitted_def)

lemma moves_along_subset: "set tags' \<subseteq> set tags \<Longrightarrow> moves_along tags tags'"
  by (force simp: moves_along_def list_all_iff list_ex_iff)

lemma changed_subset: "set tags' \<subseteq> set tags \<Longrightarrow> changed_rows tags tags' = 0"
  by (auto simp: changed_rows_def filter_empty_conv)

lemma moves_along_same [simp]: "moves_along tags tags" "changed_rows tags tags = 0"
  by (simp_all add: moves_along_subset changed_subset)

lemma moves_along_map:
  assumes "\<And>t. t \<in> set tags \<Longrightarrow> P t \<Longrightarrow> transition_permitted (tg_status t) (tg_status (mutate m t))"
  shows "moves_along tags (map (\<lambda>t. if P t then mutate m t else t) tags)"
    and "changed_rows tags (map (\<lambda>t. if P t then mutate m t else t) tags) \<le> length (filter P tags)"
proof -
  show "moves_along tags (map (\<lambda>t. if P t then mutate m t else t) tags)"
    using assms by (fastforce simp: moves_along_def list_all_iff list_ex_iff)
  have "length (filter (\<lambda>t. t \<notin> S) (map (\<lambda>t. if P t then mutate m t else t) xs)) \<le> length (filter P xs)" if "set xs \<subseteq> S" for xs S
    using that by (induction xs) auto
  then show "changed_rows tags (map (\<lambda>t. if P t then mutate m t else t) tags) \<le> length (filter P tags)"
    by (simp add: changed_rows_def)
qed

lemma moves_along_append:
  assumes "list_all (\<lambda>r. tg_status r = ''registered'' \<and> list_all (\<lambda>t. tg_id t \<noteq> tg_id r) tags) new"
  shows "moves_along tags (tags @ new)" and "changed_rows tags (tags @ new) \<le> length new"
proof -
  show "moves_along tags (tags @ new)"
    using assms by (fastforce simp: moves_along_def list_all_iff list_ex_iff)
  have "filter (\<lambda>t. t \<notin> set tags) tags = []" by (simp add: filter_empty_conv)
  then show "changed_rows tags (tags @ new) \<le> length new" by (simp add: changed_rows_def)
qed

lemma insert_all_new:
  "insert_all rows tags = Inr tags' \<Longrightarrow>
     \<exists>new. tags' = tags @ new \<and> set new \<subseteq> set rows \<and> length new \<le> length rows \<and> list_all (\<lambda>r. list_all (\<lambda>t. tg_id t \<noteq> tg_id r) tags) new"
proof (induction rows tags rule: insert_all.induct)
  case (2 row rows tags)
  show ?case
  proof (cases "list_ex (has_epc (tg_tenant_id row) (tg_epc_hex row)) tags")
    case True
    with 2 obtain new where "tags' = tags @ new" "set new \<subseteq> set rows" "length new \<le> length rows"
        "list_all (\<lambda>r. list_all (\<lambda>t. tg_id t \<noteq> tg_id r) tags) new" by (auto split: if_splits)
    then show ?thesis by (intro exI [of _ new]) auto
  next
    case False
    with 2 obtain new where "tags' = (tags @ [row]) @ new" "set new \<subseteq> set rows" "length new \<le> length rows"
        "list_all (\<lambda>r. list_all (\<lambda>t. tg_id t \<noteq> tg_id r) (tags @ [row])) new" "\<not> list_ex (\<lambda>t. tg_id t = tg_id row) tags"
      by (auto split: if_splits)
    then show ?thesis by (intro exI [of _ "row # new"]) (auto simp: list_all_iff list_ex_iff)
  qed
qed simp

lemma same_at: "keeps same_tags m \<Longrightarrow> m st = (r, st') \<Longrightarrow> rg_tags st' = rg_tags st"
  using keepsD [of same_tags m st] by (simp add: same_tags_def)

definition allowed_change :: "nat \<Rightarrow> tag_row list \<Rightarrow> tag_row list \<Rightarrow> bool" where
  "allowed_change n tags tags' \<longleftrightarrow> moves_along tags tags' \<and> changed_rows tags tags' \<le> n"

lemma allowed_same [simp]: "allowed_change n tags tags"
  by (simp add: allowed_change_def)

lemma create_allowed:
  assumes "repo_create env t e src m st = (Inr row, st')"
  shows "allowed_change 1 (rg_tags st) (rg_tags st')"
proof -
  obtain u where s: "rg_tags st' = rg_tags st @ [new_tag (re_uuid4 env (rg_fresh st)) t e u src m]"
      "\<not> list_ex (\<lambda>t'. has_epc t e t' \<or> tg_id t' = re_uuid4 env (rg_fresh st)) (rg_tags st)"
    using assms by (auto simp: repo_create_def run_then_Inr fresh_uuid_def Let_def split: if_splits)
  then show ?thesis
    using moves_along_append [of "rg_tags st" "[new_tag (re_uuid4 env (rg_fresh st)) t e u src m]"]
    by (auto simp: allowed_change_def new_tag_def list_all_iff list_ex_iff)
qed

lemma update_allowed:
  assumes "repo_update t i m st = (r, st')" and "tags_ok (rg_tags st)"
  shows "allowed_change 1 (rg_tags st) (rg_tags st')"
proof (cases "rg_tags st' = rg_tags st")
  case False
  then obtain r where r: "tag_get t i (rg_tags st) = Some r"
      and ok: "\<not> (case mu_status m of None \<Rightarrow> False | Some s \<Rightarrow> \<not> transition_permitted (tg_status r) s)"
      and st': "rg_tags st' = map (\<lambda>r. if is_tag t i r then mutate m r else r) (rg_tags st)"
    using assms(1) by (auto simp: repo_update_def split: option.splits if_splits)
  have only: "x = r" if "x \<in> set (rg_tags st)" "is_tag t i x" for x
    using tags_ok_id [OF assms(2)] find_is_tag [OF r] that by (auto simp: is_tag_def)
  have "distinct (rg_tags st)" using assms(2) by (auto simp: tags_ok_def distinct_map)
  then have "length (filter (is_tag t i) (rg_tags st)) = card {x \<in> set (rg_tags st). is_tag t i x}"
    by (simp add: distinct_length_filter Collect_conj_eq inf_commute)
  also have "\<dots> \<le> card {r}" using only by (intro card_mono) auto
  finally have one: "length (filter (is_tag t i) (rg_tags st)) \<le> 1" by simp
  have "transition_permitted (tg_status x) (tg_status (mutate m x))" if "x \<in> set (rg_tags st)" "is_tag t i x" for x
    using ok only [OF that] by (auto simp: mutate_status split: option.splits)
  from moves_along_map [of "rg_tags st" "is_tag t i", OF this] one show ?thesis
    unfolding st' allowed_change_def by (meson le_trans)
qed simp

lemma bulk_apply_allowed:
  assumes rows: "rows = resolve_bulk_scope env t sc (rg_tags st)" and ok: "tags_ok (rg_tags st)"
    and fine: "transition_failures rows (mu_status m) = []" and run: "bulk_apply rows m st = (r, st')"
  shows "allowed_change (length rows) (rg_tags st) (rg_tags st')"
proof (cases "rg_tags st' = rg_tags st")
  case False
  let ?P = "\<lambda>t. tg_id t \<in> tg_id ` set rows"
  have st': "rg_tags st' = map (\<lambda>t. if ?P t then mutate m t else t) (rg_tags st)"
    using run False by (auto simp: bulk_apply_def split: if_splits)
  obtain Q where Q: "set rows = {t \<in> set (rg_tags st). Q t}" "length rows = length (filter Q (rg_tags st))"
    unfolding rows resolve_bulk_scope_def by (cases sc) (auto intro: that)
  have same: "?P x \<longleftrightarrow> Q x" if "x \<in> set (rg_tags st)" for x
    using tags_ok_id [OF ok that] that Q(1) by auto
  have "transition_permitted (tg_status x) (tg_status (mutate m x))" if "x \<in> set (rg_tags st)" "?P x" for x
    using fine same [OF that(1)] that Q(1)
    by (auto simp: transition_failures_def mutate_status filter_empty_conv split: option.splits)
  from moves_along_map [of "rg_tags st" ?P, OF this] show ?thesis
    using filter_cong [OF HOL.refl same, of "rg_tags st"] unfolding st' allowed_change_def Q(2) by simp
qed simp

lemma bulk_create_allowed:
  assumes "bulk_create env t epcs st = (Inr r, st')"
  shows "allowed_change (length epcs) (rg_tags st) (rg_tags st')"
proof (cases "epcs = []")
  case False
  then obtain rows st1 where vals: "import_values env t epcs st = (Inr rows, st1)"
      and k: "(case insert_all rows (rg_tags st1) of Inl e \<Rightarrow> (Inl e, st1)
        | Inr tags' \<Rightarrow> (let created = length tags' - length (rg_tags st1) in (Inr (created, length rows - created), st1\<lparr>rg_tags := tags'\<rparr>))) = (Inr r, st')"
    using assms by (auto simp: bulk_create_def run_then_Inr)
  then obtain tags' where ins: "insert_all rows (rg_tags st1) = Inr tags'" and st': "rg_tags st' = tags'"
    by (cases "insert_all rows (rg_tags st1)") (auto simp: Let_def)
  note v = import_values_rows [OF vals]
  obtain new where new: "tags' = rg_tags st @ new" "set new \<subseteq> set rows" "length new \<le> length rows"
      "list_all (\<lambda>r. list_all (\<lambda>t. tg_id t \<noteq> tg_id r) (rg_tags st)) new"
    using insert_all_new [OF ins] v by auto
  have "length rows = length epcs" using v by (metis length_map)
  moreover have "list_all (\<lambda>r. tg_status r = ''registered'' \<and> list_all (\<lambda>t. tg_id t \<noteq> tg_id r) (rg_tags st)) new"
    using new(2,4) v by (auto simp: list_all_iff)
  ultimately show ?thesis
    using moves_along_append [of "rg_tags st" new] new(1,3) st' by (auto simp: allowed_change_def)
qed (use assms in \<open>simp add: bulk_create_def\<close>)

lemma allowed_mono: "allowed_change n a b \<Longrightarrow> n \<le> k \<Longrightarrow> allowed_change k a b"
  by (simp add: allowed_change_def)

definition direct_limit :: "registry_env \<Rightarrow> actor \<Rightarrow> nat" where
  "direct_limit env user =
     (case tenant_row env (ac_tenant_id user) of Inl _ \<Rightarrow> 1 | Inr settings \<Rightarrow> max 1 (nat (ts_two_person_threshold settings - 1)))"

lemma direct_limit_1: "1 \<le> direct_limit env user"
  by (simp add: direct_limit_def split: sum.split)

lemma below_threshold:
  "tenant_row env (ac_tenant_id user) = Inr settings \<Longrightarrow> \<not> int n \<ge> ts_two_person_threshold settings \<Longrightarrow> n \<le> direct_limit env user"
  by (auto simp: direct_limit_def)

lemma execute_import_allowed:
  assumes "execute_tag_import env t epcs u tok ap pid rid st = (Inr r, st')"
  shows "allowed_change (length epcs) (rg_tags st) (rg_tags st')"
proof -
  obtain c k st1 where "bulk_create env t epcs st = (Inr (c, k), st1)" and tail: "rg_tags st' = rg_tags st1"
    using assms by (auto simp: execute_tag_import_def run_then_Inr Let_def fresh_uuid_def audit_def split: option.splits)
  from bulk_create_allowed [OF this(1)] tail show ?thesis by simp
qed

lemma import_confirmed_allowed:
  assumes "import_confirmed env user settings raw epcs tok st = (Inr r, st')" and row: "tenant_row env (ac_tenant_id user) = Inr settings"
  shows "allowed_change (direct_limit env user) (rg_tags st) (rg_tags st')"
proof -
  obtain st1 where c: "confirm_token env user tok ''tags.import'' (content_hash_of env epcs) st = (Inr (), st1)"
      and k: "(if int (length epcs) \<ge> ts_two_person_threshold settings then request_import_approval env user settings raw epcs tok
        else run_then (execute_tag_import env (ac_tenant_id user) epcs (ac_user_id user) (Some tok) None None None)
             (\<lambda>(created, skipped, rid). give (Applied (length epcs) created rid))) st1 = (Inr r, st')"
    using assms(1) by (auto simp: import_confirmed_def run_then_Inr)
  have st1: "rg_tags st1 = rg_tags st" by (rule same_at [OF same_tags_confirm c])
  show ?thesis
  proof (cases "int (length epcs) \<ge> ts_two_person_threshold settings")
    case True
    then show ?thesis using k same_at [OF same_tags_import_approval, of env user settings raw epcs tok st1] st1 by simp
  next
    case False
    then obtain x where "execute_tag_import env (ac_tenant_id user) epcs (ac_user_id user) (Some tok) None None None st1 = (Inr x, st')"
      using k by (auto simp: run_then_Inr)
    from allowed_mono [OF execute_import_allowed [OF this] below_threshold [OF row False]] show ?thesis by (simp add: st1)
  qed
qed

lemma import_body_allowed:
  assumes "import_body env user settings raw c st = (Inr r, st')" and row: "tenant_row env (ac_tenant_id user) = Inr settings"
  shows "allowed_change (direct_limit env user) (rg_tags st) (rg_tags st')"
proof -
  obtain epcs errors where p: "parse_tag_import_csv (re_csv env raw) = (epcs, errors)" by fastforce
  show ?thesis
  proof (cases c)
    case None
    have "rg_tags st' = rg_tags st"
      using assms(1) p None same_at [OF same_tags_mint, of env "ac_tenant_id user" "ac_user_id user" "''tags.import''" "content_hash_of env epcs" st]
      by (auto simp: import_body_def run_then_Inr split: if_splits)
    then show ?thesis by simp
  next
    case (Some tok)
    then have "rg_tags st' = rg_tags st \<or> import_confirmed env user settings raw epcs tok st = (Inr r, st')"
      using assms(1) p by (auto simp: import_body_def split: if_splits)
    then show ?thesis using import_confirmed_allowed [OF _ row] by auto
  qed
qed

lemma import_tags_allowed:
  assumes "import_tags env user raw d c st = (Inr r, st')"
  shows "allowed_change (direct_limit env user) (rg_tags st) (rg_tags st')"
proof -
  obtain settings st1 adm st2 u v st0 where row: "tenant_row env (ac_tenant_id user) = Inr settings"
      and pre: "require_role {''admin'', ''editor''} user st = (Inr u, st0)" "require_xor_flow d c st0 = (Inr v, st1)"
        "count_import env (ac_tenant_id user) (ts_import_limit settings) st1 = (Inr adm, st2)"
      and k: "(if \<not> adm then lift_res (Inl (http_error 429)) else import_body env user settings raw c) st2 = (Inr r, st')"
    using assms by (auto simp: import_tags_def in_request_Inr run_then_Inr)
  have "rg_tags st2 = rg_tags st"
    using same_at [OF same_tags_role pre(1)] same_at [OF same_tags_xor pre(2)] same_at [OF same_tags_count pre(3)] by simp
  with k import_body_allowed [OF _ row] show ?thesis by (cases adm) force+
qed

lemma execute_mutation_allowed:
  assumes "execute_bulk_mutation env t rows m u act kd v b tok ap pid rid x st = (Inr r, st')"
    and "rows = resolve_bulk_scope env t sc (rg_tags st)" and "tags_ok (rg_tags st)" and "transition_failures rows (mu_status m) = []"
  shows "allowed_change (length rows) (rg_tags st) (rg_tags st')"
proof -
  obtain n st1 where "bulk_apply rows m st = (Inr n, st1)" and "rg_tags st' = rg_tags st1"
    using assms(1) by (auto simp: execute_bulk_mutation_def run_then_Inr Let_def audit_def)
  with bulk_apply_allowed [OF assms(2-4)] show ?thesis by simp
qed

lemma mutation_confirmed_allowed:
  assumes "mutation_confirmed env user op rq ap sc m rows x tok st = (Inr r, st')"
    and rows: "rows = resolve_bulk_scope env (ac_tenant_id user) sc (rg_tags st)" "tags_ok (rg_tags st)" "transition_failures rows (mu_status m) = []"
  shows "allowed_change (direct_limit env user) (rg_tags st) (rg_tags st')"
proof -
  obtain u st1 settings where c: "confirm_token env user tok op (bulk_mutation_content_hash env (map tg_epc_hex rows) m) st = (Inr u, st1)"
      and row: "tenant_row env (ac_tenant_id user) = Inr settings"
      and k: "(if int (length rows) \<ge> ts_two_person_threshold settings then request_mutation_approval env user settings op rq sc m rows x tok
        else run_then (fresh_uuid env) (\<lambda>request_id.
            run_then (execute_bulk_mutation env (ac_tenant_id user) rows m (ac_user_id user) ap (JStr (scope_kind sc)) (json_scope sc)
                (batch_of sc) (Some tok) None None request_id x) (\<lambda>updated. give (Applied (length rows) updated request_id)))) st1 = (Inr r, st')"
    using assms(1) by (auto simp: mutation_confirmed_def run_then_Inr)
  have st1: "rg_tags st1 = rg_tags st" by (rule same_at [OF same_tags_confirm c])
  show ?thesis
  proof (cases "int (length rows) \<ge> ts_two_person_threshold settings")
    case True
    then show ?thesis using k same_at [OF same_tags_mutation_approval, of env user settings op rq sc m rows x tok st1] st1 by simp
  next
    case False
    then obtain rid st2 n where f: "fresh_uuid env st1 = (Inr rid, st2)"
        and e: "execute_bulk_mutation env (ac_tenant_id user) rows m (ac_user_id user) ap (JStr (scope_kind sc)) (json_scope sc)
                (batch_of sc) (Some tok) None None rid x st2 = (Inr n, st')"
      using k by (auto simp: run_then_Inr)
    have st2: "rg_tags st2 = rg_tags st" using same_at [OF same_tags_fresh f] st1 by simp
    from execute_mutation_allowed [OF e, of sc] rows st2 have "allowed_change (length rows) (rg_tags st) (rg_tags st')" by simp
    from allowed_mono [OF this below_threshold [OF row False]] show ?thesis .
  qed
qed

lemma run_bulk_allowed:
  assumes "run_bulk_mutation env user op rq ap body m d c x st = (Inr r, st')" and ok: "tags_ok (rg_tags st)"
  shows "allowed_change (direct_limit env user) (rg_tags st) (rg_tags st')"
proof -
  obtain u st1 sc where pre: "require_xor_flow d c st = (Inr u, st1)"
      and k: "(let rows = resolve_bulk_scope env (ac_tenant_id user) sc (rg_tags st1); failures = transition_failures rows (mu_status m) in
        if rows = [] then give (Refused [''''])
        else if failures \<noteq> [] then give (Refused failures)
        else case c of
            None \<Rightarrow> run_then (mint env (ac_tenant_id user) (ac_user_id user) op (bulk_mutation_content_hash env (map tg_epc_hex rows) m)) (\<lambda>token.
                give (Previewed (length rows) token))
          | Some token \<Rightarrow> mutation_confirmed env user op rq ap sc m rows x token) st1 = (Inr r, st')"
    using assms(1) by (auto simp: run_bulk_mutation_def run_then_Inr Let_def)
  define rows where "rows = resolve_bulk_scope env (ac_tenant_id user) sc (rg_tags st1)"
  note k = k [unfolded Let_def, folded rows_def]
  have st1: "rg_tags st1 = rg_tags st" by (rule same_at [OF same_tags_xor pre])
  show ?thesis
  proof (cases "rows = [] \<or> transition_failures rows (mu_status m) \<noteq> []")
    case True
    with k st1 show ?thesis by (auto split: if_splits)
  next
    case False
    show ?thesis
    proof (cases c)
      case None
      have "rg_tags st' = rg_tags st1"
        using k False None same_at [OF same_tags_mint, of env "ac_tenant_id user" "ac_user_id user" op
            "bulk_mutation_content_hash env (map tg_epc_hex rows) m" st1]
        by (auto simp: run_then_Inr)
      then show ?thesis by (simp add: st1)
    next
      case (Some tok)
      then have "mutation_confirmed env user op rq ap sc m rows x tok st1 = (Inr r, st')"
        using k False by simp
      from mutation_confirmed_allowed [OF this rows_def] ok False st1 show ?thesis by simp
    qed
  qed
qed

lemma create_tag_allowed:
  assumes "create_tag env user e src m st = (Inr r, st')"
  shows "allowed_change 1 (rg_tags st) (rg_tags st')"
proof -
  obtain u st1 row st2 where pre: "require_role {''admin'', ''editor''} user st = (Inr u, st1)"
      and c: "as_conflict epc_conflict (repo_create env (ac_tenant_id user) (normalize_epc_hex e) src m) st1 = (Inr row, st2)"
      and post: "rg_tags st' = rg_tags st2"
    using assms by (auto simp: create_tag_def in_request_Inr run_then_Inr audit_def)
  have "repo_create env (ac_tenant_id user) (normalize_epc_hex e) src m st1 = (Inr row, st2)"
    using c by (auto simp: as_conflict_def split: prod.splits sum.splits)
  from create_allowed [OF this] post same_at [OF same_tags_role pre] show ?thesis by simp
qed

lemma update_tag_allowed:
  assumes "update_tag env user i m st = (Inr r, st')" and ok: "tags_ok (rg_tags st)"
  shows "allowed_change 1 (rg_tags st) (rg_tags st')"
proof -
  obtain u st1 row st2 where pre: "require_role {''admin'', ''editor''} user st = (Inr u, st1)"
      and c: "as_conflict transition_error (repo_update (ac_tenant_id user) i m) st1 = (Inr row, st2)"
      and post: "rg_tags st' = rg_tags st2"
    using assms by (auto simp: update_tag_def in_request_Inr run_then_Inr audit_def Let_def split: option.splits if_splits)
  obtain x where "repo_update (ac_tenant_id user) i m st1 = (x, st2)"
    using c by (auto simp: as_conflict_def split: prod.splits sum.splits)
  from update_allowed [OF this] post same_at [OF same_tags_role pre] ok show ?thesis by simp
qed

lemma delete_tag_allowed:
  assumes "delete_tag env user i st = (Inr r, st')"
  shows "allowed_change 1 (rg_tags st) (rg_tags st')"
proof -
  have "set (rg_tags st') \<subseteq> set (rg_tags st)"
    using assms by (auto simp: delete_tag_def in_request_Inr run_then_Inr audit_def repo_delete_def require_role_def split: option.splits if_splits)
  then show ?thesis by (simp add: allowed_change_def moves_along_subset changed_subset)
qed

lemma same_tags_transfer: "create_tag_transfer env user slug epcs st = (Inr r, st') \<Longrightarrow> rg_tags st' = rg_tags st"
proof -
  have "keeps same_tags (create_request env a b es u)" for a b es u
    unfolding create_request_def by (intro same_tags_steps)
  then show "create_tag_transfer env user slug epcs st = (Inr r, st') \<Longrightarrow> rg_tags st' = rg_tags st"
    unfolding create_tag_transfer_def in_request_Inr Let_def
    by (elim same_at [rotated]) (auto split: option.split list.split intro!: same_tags_steps)
qed

lemma same_tags_reject_operation: "reject_operation env user i st = (Inr r, st') \<Longrightarrow> rg_tags st' = rg_tags st"
  unfolding reject_operation_def in_request_Inr
  by (elim same_at [rotated]) (auto split: option.split prod.split intro!: same_tags_steps same_tags_reject same_tags_conclude)

lemma failed_request: "in_request m st = (Inl e, st') \<Longrightarrow> rg_tags st' = rg_tags st \<and> rg_pending st' = rg_pending st"
  by (auto simp: in_request_def split: prod.splits sum.splits)

lemmas request_defs = create_tag_def update_tag_def delete_tag_def import_tags_def bulk_patch_tags_def bulk_retire_tags_def
  create_tag_transfer_def approve_operation_def reject_operation_def

lemma failed_step: "tag_request_step env user rq st = (Inl e, st') \<Longrightarrow> rg_tags st' = rg_tags st \<and> rg_pending st' = rg_pending st"
proof -
  have "replying f (in_request m) st = (Inl e, st') \<Longrightarrow> rg_tags st' = rg_tags st \<and> rg_pending st' = rg_pending st"
    for f :: "'a \<Rightarrow> tag_reply" and m
    using failed_request [of m st e st'] by (auto simp: replying_def run_then_def give_def split: prod.splits sum.splits)
  note fails = this
  show "tag_request_step env user rq st = (Inl e, st') \<Longrightarrow> rg_tags st' = rg_tags st \<and> rg_pending st' = rg_pending st"
    by (cases rq) (simp_all only: tag_request_step.simps request_defs fails)
qed

fun is_approval :: "tag_request \<Rightarrow> bool" where
  "is_approval (ApproveOperation i) = True"
| "is_approval _ = False"

lemma replying_Inr: "replying f m st = (Inr b, st') \<longleftrightarrow> (\<exists>a. m st = (Inr a, st') \<and> b = f a)"
  by (auto simp: replying_def run_then_Inr)

lemma role_then_bulk:
  assumes "run_then (require_role roles user) (\<lambda>_. run_bulk_mutation env user op rq ap body m d c x) st = (Inr r, st')" and "tags_ok (rg_tags st)"
  shows "allowed_change (direct_limit env user) (rg_tags st) (rg_tags st')"
  using assms run_bulk_allowed by (auto simp: run_then_Inr require_role_def split: if_splits)

lemma request_allowed:
  assumes "tags_ok (rg_tags st)" and "\<not> is_approval rq"
  shows "allowed_change (direct_limit env user) (rg_tags st) (rg_tags (snd (tag_request_step env user rq st)))"
proof (cases "tag_request_step env user rq st")
  case (Pair r st')
  show ?thesis
  proof (cases r)
    case (Inl e)
    then show ?thesis using failed_step Pair by fastforce
  next
    case (Inr a)
    note run = Pair [unfolded Inr]
    have "allowed_change (direct_limit env user) (rg_tags st) (rg_tags st')"
      using run assms allowed_mono [OF _ direct_limit_1]
      by (cases rq) (auto simp: replying_Inr bulk_patch_tags_def bulk_retire_tags_def in_request_Inr import_tags_allowed
          dest!: create_tag_allowed update_tag_allowed delete_tag_allowed same_tags_transfer same_tags_reject_operation role_then_bulk)
    then show ?thesis by (simp add: Pair)
  qed
qed

text \<open>C32: Whatever happened before, a request that is not an approval moves the status of a tag only along the
  operators' graph, so that retired, defective and transferred tags stay as they are; tags keep their EPC and tenant,
  new ones start as registered.
\<close>

theorem statuses_follow_the_graph:
  assumes "\<not> is_approval rq"
  shows "moves_along (rg_tags (tag_requests rqs empty_registry)) (rg_tags (snd (tag_request_step env user rq (tag_requests rqs empty_registry))))"
proof -
  have "tags_ok (rg_tags (tag_requests rqs empty_registry))" by (rule ok_requests) (simp add: tags_ok_def empty_registry_def)
  from request_allowed [OF this assms] show ?thesis by (simp add: allowed_change_def)
qed

text \<open>C12: Large changes need a second person: a request that is not an approval writes one row, or fewer rows than the
  tenant's threshold.
\<close>

theorem large_changes_need_approval:
  assumes "\<not> is_approval rq"
  shows "changed_rows (rg_tags (tag_requests rqs empty_registry)) (rg_tags (snd (tag_request_step env user rq (tag_requests rqs empty_registry))))
    \<le> (case tenant_row env (ac_tenant_id user) of Inl _ \<Rightarrow> 1 | Inr settings \<Rightarrow> max 1 (nat (ts_two_person_threshold settings - 1)))"
proof -
  have "tags_ok (rg_tags (tag_requests rqs empty_registry))" by (rule ok_requests) (simp add: tags_ok_def empty_registry_def)
  from request_allowed [OF this assms] show ?thesis by (simp add: allowed_change_def direct_limit_def)
qed

section \<open>The two-person rule\<close>

definition decision_ok :: "pending_row \<Rightarrow> bool" where
  "decision_ok p \<longleftrightarrow>
     (if pb_status p = ''pending'' then pb_decided_by p = None
      else pb_status p \<in> {''executed'', ''rejected''} \<and>
        (case (pb_decided_by p, pb_decided_at p) of
           (Some d, Some t) \<Rightarrow> pb_requested_by p \<noteq> Some d \<and> t < pb_expires_at p | _ \<Rightarrow> False))"

definition inbox_ok :: "pending_row list \<Rightarrow> bool" where
  "inbox_ok ps \<longleftrightarrow> distinct (map pb_id ps) \<and> list_all decision_ok ps"

text \<open>The request in a row, all but the columns of its decision: the operation, its payload and content hash, the row count
  and sample, the tenant, who asked, and when it was queued and expires.\<close>

definition request_of :: "pending_row \<Rightarrow> pending_row" where
  "request_of p = p\<lparr>pb_status := [], pb_decided_by := None, pb_decided_at := None, pb_executed_at := None, pb_request_id := None\<rparr>"

text \<open>The requests stay as they are, and decided rows stay altogether.\<close>

definition stays_in :: "pending_row list \<Rightarrow> pending_row \<Rightarrow> bool" where
  "stays_in ps' p \<longleftrightarrow> (\<exists>p' \<in> set ps'. request_of p' = request_of p \<and> (pb_status p = ''pending'' \<or> p' = p))"

definition decided_stay :: "pending_row list \<Rightarrow> pending_row list \<Rightarrow> bool" where
  "decided_stay ps ps' \<longleftrightarrow> list_all (stays_in ps') ps"

lemma request_columns:
  "request_of p' = request_of p \<Longrightarrow> pb_id p' = pb_id p \<and> pb_requested_by p' = pb_requested_by p \<and> pb_expires_at p' = pb_expires_at p"
  unfolding request_of_def by (cases p; cases p') simp

lemma stays_itself: "p \<in> set ps' \<Longrightarrow> stays_in ps' p"
  by (auto simp: stays_in_def)

lemma decided_stay_trans: "decided_stay ps ps' \<Longrightarrow> decided_stay ps' ps'' \<Longrightarrow> decided_stay ps ps''"
  unfolding decided_stay_def list_all_iff stays_in_def by metis

definition inbox_grows :: "registry \<Rightarrow> registry \<Rightarrow> bool" where
  "inbox_grows st st' \<longleftrightarrow> (inbox_ok (rg_pending st) \<longrightarrow> inbox_ok (rg_pending st') \<and> set (rg_pending st) \<subseteq> set (rg_pending st'))"

interpretation grows: step_relation inbox_grows by unfold_locales (auto simp: inbox_grows_def)

lemma grows_if_same: "keeps same_pending m \<Longrightarrow> keeps inbox_grows m"
  by (simp add: keeps_def same_pending_def inbox_grows_def)

lemma grows_create_pending: "keeps inbox_grows (create_pending env t op u h n smp pl)"
  unfolding create_pending_def
  by (rule grows.run_then)
    (auto simp: keeps_def inbox_grows_def inbox_ok_def decision_ok_def fresh_uuid_def Let_def list_ex_iff)

lemma same_pending_leaves:
  "keeps same_pending (fresh_uuid env)" "keeps same_pending (audit e)" "keeps same_pending (require_role roles user)"
  "keeps same_pending (require_xor_flow d c)" "keeps same_pending (mint env t u op h)"
  "keeps same_pending (confirm_token env user token op h)" "keeps same_pending (count_import env t cap)"
  "keeps same_pending (bulk_apply rows m)" "keeps same_pending (repo_update t i mu)" "keeps same_pending (change (repo_delete t i))"
  "keeps same_pending (change (\<lambda>st. st\<lparr>rg_transfers := f st\<rparr>))"
  by (auto simp: keeps_def same_pending_def fresh_uuid_def audit_def change_def require_role_def give_def lift_res_def require_xor_flow_def
      mint_def Let_def confirm_token_def count_import_def bulk_apply_def repo_update_def repo_delete_def
      split: prod.split confirmation.split option.split dest: consume_token_tags)

lemmas same_pending_steps = pending.run_then pending.give pending.lift pending.lift_then pending.query same_pending_leaves keeps_as_conflict

lemma same_pending_values: "keeps same_pending (import_values env t epcs)"
  by (induction epcs) (auto intro!: same_pending_steps)

lemma same_pending_bulk_create: "keeps same_pending (bulk_create env t epcs)"
  unfolding bulk_create_def
  by (auto intro!: same_pending_steps same_pending_values) (simp add: keeps_def same_pending_def Let_def split: sum.split)

lemma same_pending_repo_create: "keeps same_pending (repo_create env t e src m)"
  unfolding repo_create_def
  by (intro pending.run_then pending.lift_then same_pending_leaves) (simp add: keeps_def same_pending_def Let_def)

lemma same_pending_transfers: "keeps same_pending (create_transfers env r a b u epcs)"
  by (induction epcs) (auto simp: Let_def intro!: same_pending_steps)

lemma same_pending_execute_import: "keeps same_pending (execute_tag_import env t epcs u tok ap pid rid)"
  unfolding execute_tag_import_def Let_def
  by (auto split: prod.split option.split intro!: same_pending_steps same_pending_bulk_create)

lemma same_pending_execute_mutation: "keeps same_pending (execute_bulk_mutation env t rows m u act kd v b tok ap pid rid x)"
  unfolding execute_bulk_mutation_def Let_def by (auto intro!: same_pending_steps)

lemma same_pending_executor: "keeps same_pending (executor_of env row rid)"
  unfolding executor_of_def tag_import_executor_def bulk_mutation_executor_def Let_def
  by (auto split: prod.split intro!: same_pending_steps same_pending_execute_import same_pending_execute_mutation)

lemmas grows_steps = grows.run_then grows.give grows.lift grows.lift_then grows.query grows_create_pending same_pending_leaves [THEN grows_if_same]

lemma grows_confirmed:
  "keeps inbox_grows (import_confirmed env user settings raw epcs tok)"
  "keeps inbox_grows (mutation_confirmed env user op rq ap sc m rows x tok)"
  unfolding import_confirmed_def mutation_confirmed_def request_import_approval_def request_mutation_approval_def Let_def
  by (auto split: prod.split intro!: grows_steps same_pending_execute_import [THEN grows_if_same] same_pending_execute_mutation [THEN grows_if_same])

lemma grows_in_request: "keeps inbox_grows m \<Longrightarrow> in_request m st = (Inr a, st') \<Longrightarrow> inbox_grows st st'"
  using keepsD [of inbox_grows m st] by (simp add: in_request_Inr)

lemma grows_requests:
  "create_tag env user e src m st = (Inr a, st') \<Longrightarrow> inbox_grows st st'"
  "update_tag env user i mu st = (Inr a, st') \<Longrightarrow> inbox_grows st st'"
  "delete_tag env user i st = (Inr b, st') \<Longrightarrow> inbox_grows st st'"
  "create_tag_transfer env user slug epcs st = (Inr ts, st') \<Longrightarrow> inbox_grows st st'"
  unfolding create_tag_def update_tag_def delete_tag_def create_tag_transfer_def create_request_def Let_def
  by (auto elim!: grows_in_request [rotated] split: option.split list.split
      intro!: grows_steps keeps_as_conflict same_pending_repo_create [THEN grows_if_same] same_pending_transfers [THEN grows_if_same])

lemma grows_imports: "import_tags env user raw d c st = (Inr a, st') \<Longrightarrow> inbox_grows st st'"
  unfolding import_tags_def import_body_def
  by (auto elim!: grows_in_request [rotated] split: option.split prod.split intro!: grows_steps grows_confirmed)

lemma grows_run_bulk: "keeps inbox_grows (run_bulk_mutation env user op rq ap body m d c x)"
  unfolding run_bulk_mutation_def Let_def by (auto split: option.split intro!: grows_steps grows_confirmed)

lemma grows_bulk:
  "bulk_patch_tags env user body m d c st = (Inr a, st') \<Longrightarrow> inbox_grows st st'"
  "bulk_retire_tags env user body r d c st = (Inr a, st') \<Longrightarrow> inbox_grows st st'"
  unfolding bulk_patch_tags_def bulk_retire_tags_def
  by (auto elim!: grows_in_request [rotated] intro!: grows_steps grows_run_bulk)

text \<open>A decision replaces one pending row, in time and by somebody else.\<close>

definition decides :: "datetime \<Rightarrow> uuid \<Rightarrow> pending_row \<Rightarrow> pending_row \<Rightarrow> bool" where
  "decides now me p p' \<longleftrightarrow> pb_status p = ''pending'' \<and> pb_requested_by p \<noteq> Some me \<and> now < pb_expires_at p \<and>
     pb_status p' \<in> {''executed'', ''rejected''} \<and> pb_decided_by p' = Some me \<and> pb_decided_at p' = Some now \<and> request_of p' = request_of p"

lemma no_objection:
  "objection me (expire_if_due now p) = None \<Longrightarrow>
     expire_if_due now p = p \<and> pb_status p = ''pending'' \<and> pb_requested_by p \<noteq> Some me \<and> now < pb_expires_at p"
  by (auto simp: objection_def expire_if_due_def split: if_splits)

lemma load_in_inbox:
  "load_pending t i st = Some p \<Longrightarrow> p \<in> set (rg_pending st) \<and> is_pending_row t i p"
  by (auto simp: load_pending_def find_Some_iff)

lemma replace_decided:
  assumes ok: "inbox_ok ps" and p: "p \<in> set ps" "is_pending_row t i p" and d: "decides now me p p'"
  shows "inbox_ok (map (\<lambda>q. if is_pending_row t i q then p' else q) ps)"
    and "decided_stay ps (map (\<lambda>q. if is_pending_row t i q then p' else q) ps)"
proof -
  let ?f = "\<lambda>q. if is_pending_row t i q then p' else q"
  have only: "q = p" if "q \<in> set ps" "is_pending_row t i q" for q
    using ok p that by (auto simp: inbox_ok_def distinct_map inj_on_def is_pending_row_def)
  have ids: "map pb_id (map ?f ps) = map pb_id ps" using only d by (auto simp: decides_def dest: request_columns)
  have "decision_ok p'" using d by (auto simp: decides_def decision_ok_def dest: request_columns)
  then show "inbox_ok (map ?f ps)"
    using ok unfolding inbox_ok_def ids by (auto simp: list_all_iff)
  have "stays_in (map ?f ps) q" if q: "q \<in> set ps" for q
  proof (cases "is_pending_row t i q")
    case True
    then have "?f q = p'" "q = p" using only q by simp_all
    moreover have "?f q \<in> set (map ?f ps)" unfolding set_map by (rule imageI [OF q])
    ultimately show ?thesis using d by (auto simp: stays_in_def decides_def)
  next
    case False
    then have "?f q = q" by simp
    moreover have "?f q \<in> set (map ?f ps)" unfolding set_map by (rule imageI [OF q])
    ultimately show ?thesis by (simp only: stays_itself)
  qed
  then show "decided_stay ps (map ?f ps)" by (simp add: decided_stay_def list_all_iff)
qed

lemma pending_approve_decides:
  assumes "pending_approve env (executor_of env) h i t me st = (Inr (DecisionOk, row, summary), st')" and "inbox_ok (rg_pending st)"
  shows "inbox_ok (rg_pending st') \<and> decided_stay (rg_pending st) (rg_pending st')"
proof -
  obtain p where p: "load_pending t i st = Some p"
    using assms(1) by (auto simp: pending_approve_def run_then_Inr split: option.splits)
  have none: "objection me (expire_if_due (re_now env) p) = None"
    using assms(1) p by (auto simp: pending_approve_def run_then_Inr Let_def objection_def split: option.splits if_splits)
  note fresh = no_objection [OF none]
  obtain rid sm st1 st2 where f: "fresh_uuid env (set_pending t i (\<lambda>_. p) st) = (Inr rid, st1)"
      and e: "executor_of env p rid st1 = (Inr sm, st2)"
      and st': "st' = set_pending t i (\<lambda>_. p\<lparr>pb_status := ''executed'', pb_decided_by := Some me, pb_decided_at := Some (re_now env),
                       pb_executed_at := Some (re_now env), pb_request_id := Some rid\<rparr>) st2"
    using assms(1) p none fresh by (auto simp: pending_approve_def run_then_Inr Let_def split: if_splits)
  have same: "rg_pending (set_pending t i (\<lambda>_. p) st) = rg_pending st"
    using assms(2) load_in_inbox [OF p]
    by (auto simp: set_pending_def inbox_ok_def distinct_map inj_on_def is_pending_row_def intro!: map_idI)
  have "rg_pending st2 = rg_pending st"
    using keepsD [OF same_pending_executor, of st1 env p rid] keepsD [OF same_pending_leaves(1), of "set_pending t i (\<lambda>_. p) st" env] e f same
    by (simp add: same_pending_def)
  then show ?thesis
    using replace_decided [OF assms(2) conjunct1 [OF load_in_inbox [OF p]] conjunct2 [OF load_in_inbox [OF p]], of "re_now env" me] fresh
    unfolding st' by (simp add: set_pending_def decides_def request_of_def)
qed

lemma pending_reject_decides:
  assumes "pending_reject env i t me st = (Inr (DecisionOk, row), st')" and "inbox_ok (rg_pending st)"
  shows "inbox_ok (rg_pending st') \<and> decided_stay (rg_pending st) (rg_pending st')"
proof -
  obtain p where p: "load_pending t i st = Some p"
    using assms(1) by (auto simp: pending_reject_def run_then_Inr split: option.splits)
  have none: "objection me (expire_if_due (re_now env) p) = None"
    using assms(1) p by (auto simp: pending_reject_def run_then_Inr Let_def objection_def split: option.splits if_splits)
  note fresh = no_objection [OF none]
  have st': "st' = set_pending t i (\<lambda>_. p\<lparr>pb_status := ''rejected'', pb_decided_by := Some me, pb_decided_at := Some (re_now env)\<rparr>)
      (set_pending t i (\<lambda>_. p) st)"
    using assms(1) p none fresh by (auto simp: pending_reject_def run_then_Inr Let_def split: if_splits)
  have same: "rg_pending (set_pending t i (\<lambda>_. p) st) = rg_pending st"
    using assms(2) load_in_inbox [OF p]
    by (auto simp: set_pending_def inbox_ok_def distinct_map inj_on_def is_pending_row_def intro!: map_idI)
  show ?thesis
    using replace_decided [OF assms(2) conjunct1 [OF load_in_inbox [OF p]] conjunct2 [OF load_in_inbox [OF p]], of "re_now env" me] fresh same
    unfolding st' set_pending_def [of t i _ "set_pending t i _ st"] by (simp add: decides_def request_of_def)
qed

lemma conclude_Inr:
  "conclude entry outcome row st = (Inr p, st') \<longleftrightarrow> outcome = DecisionOk \<and> row = Some p \<and> st' = st\<lparr>rg_audit := rg_audit st @ [entry p]\<rparr>"
  by (auto simp: conclude_def run_then_Inr audit_def split: option.splits)

lemma approve_decides:
  assumes "approve_operation env user i st = (Inr p, st')" and "inbox_ok (rg_pending st)"
  shows "inbox_ok (rg_pending st') \<and> decided_stay (rg_pending st) (rg_pending st')"
proof -
  obtain me row summary st1 where a: "pending_approve env (executor_of env) (hasher_of env) i (ac_tenant_id user) me st = (Inr (DecisionOk, row, summary), st1)"
      and "rg_pending st' = rg_pending st1"
    using assms(1)
    by (auto simp: approve_operation_def in_request_Inr run_then_Inr require_role_def conclude_Inr split: option.splits if_splits)
  with pending_approve_decides [OF a assms(2)] show ?thesis by simp
qed

lemma reject_decides:
  assumes "reject_operation env user i st = (Inr p, st')" and "inbox_ok (rg_pending st)"
  shows "inbox_ok (rg_pending st') \<and> decided_stay (rg_pending st) (rg_pending st')"
proof -
  obtain me row st1 where a: "pending_reject env i (ac_tenant_id user) me st = (Inr (DecisionOk, row), st1)" and "rg_pending st' = rg_pending st1"
    using assms(1)
    by (auto simp: reject_operation_def in_request_Inr run_then_Inr require_role_def conclude_Inr split: option.splits if_splits)
  with pending_reject_decides [OF a assms(2)] show ?thesis by simp
qed

lemma decided_stay_refl [simp]: "decided_stay ps ps"
  by (simp add: decided_stay_def list_all_iff stays_itself)

lemma grows_decides:
  "inbox_grows st st' \<Longrightarrow> inbox_ok (rg_pending st) \<Longrightarrow> inbox_ok (rg_pending st') \<and> decided_stay (rg_pending st) (rg_pending st')"
  by (auto simp: inbox_grows_def decided_stay_def list_all_iff intro: stays_itself)

lemma request_decides:
  assumes "inbox_ok (rg_pending st)"
  shows "inbox_ok (rg_pending (snd (tag_request_step env user rq st))) \<and>
    decided_stay (rg_pending st) (rg_pending (snd (tag_request_step env user rq st)))"
proof (cases "tag_request_step env user rq st")
  case (Pair r st')
  show ?thesis
  proof (cases r)
    case (Inl e)
    then show ?thesis using failed_step Pair assms by fastforce
  next
    case (Inr a)
    note run = Pair [unfolded Inr]
    have "inbox_ok (rg_pending st') \<and> decided_stay (rg_pending st) (rg_pending st')"
      using run by (cases rq) (auto simp: replying_Inr dest!: grows_requests grows_imports grows_bulk grows_decides [OF _ assms]
          approve_decides [OF _ assms] reject_decides [OF _ assms])
    then show ?thesis by (simp add: Pair)
  qed
qed

lemma requests_decide:
  "inbox_ok (rg_pending st) \<Longrightarrow> inbox_ok (rg_pending (tag_requests rqs st)) \<and> decided_stay (rg_pending st) (rg_pending (tag_requests rqs st))"
proof (induction rqs st rule: tag_requests.induct)
  case (2 env user rq rqs st)
  show ?case
    using 2(1) request_decides [OF 2(2), of env user rq] by (auto intro: decided_stay_trans)
qed simp

lemma tag_requests_append: "tag_requests (rqs @ later) st = tag_requests later (tag_requests rqs st)"
  by (induction rqs st rule: tag_requests.induct) auto

text \<open>C11: Two persons decide, once and in time, and about what was asked: whatever the sequence of requests, a queued
  operation is undecided, or was executed or rejected by an identified user other than the one that asked, before it
  expired, and then nothing changes its row afterwards; and whatever comes, its request (operation, payload, hash, row
  count, sample, requester, times) is never altered, by the decision neither.  No row ever reads \<open>expired\<close>.
\<close>

theorem two_person_rule:
  "list_all (\<lambda>p. \<exists>p' \<in> set (rg_pending (tag_requests (rqs @ later) empty_registry)). request_of p' = request_of p \<and>
     (if pb_status p = ''pending'' then pb_decided_by p = None
      else pb_status p \<in> {''executed'', ''rejected''} \<and>
        (case (pb_decided_by p, pb_decided_at p) of
           (Some d, Some t) \<Rightarrow> pb_requested_by p \<noteq> Some d \<and> t < pb_expires_at p \<and> p' = p
         | _ \<Rightarrow> False)))
     (rg_pending (tag_requests rqs empty_registry))"
proof -
  have ok: "inbox_ok (rg_pending (tag_requests rqs empty_registry))"
    using requests_decide [of empty_registry rqs] by (simp add: inbox_ok_def empty_registry_def)
  have stay: "decided_stay (rg_pending (tag_requests rqs empty_registry)) (rg_pending (tag_requests (rqs @ later) empty_registry))"
    using requests_decide [OF ok, of later] by (simp add: tag_requests_append)
  show ?thesis unfolding list_all_iff
  proof
    fix p assume "p \<in> set (rg_pending (tag_requests rqs empty_registry))"
    with ok stay have "decision_ok p" "stays_in (rg_pending (tag_requests (rqs @ later) empty_registry)) p"
      by (auto simp: inbox_ok_def decided_stay_def list_all_iff)
    then show "\<exists>p' \<in> set (rg_pending (tag_requests (rqs @ later) empty_registry)). request_of p' = request_of p \<and>
     (if pb_status p = ''pending'' then pb_decided_by p = None
      else pb_status p \<in> {''executed'', ''rejected''} \<and>
        (case (pb_decided_by p, pb_decided_at p) of
           (Some d, Some t) \<Rightarrow> pb_requested_by p \<noteq> Some d \<and> t < pb_expires_at p \<and> p' = p
         | _ \<Rightarrow> False))"
      unfolding stays_in_def
      by (elim bexE, intro bexI) (cases "pb_decided_by p"; cases "pb_decided_at p"; auto simp: decision_ok_def split: if_splits)
  qed
qed

section \<open>What an approval does\<close>

lemma pending_approve_run:
  assumes "pending_approve env ex h i t me st = (Inr (DecisionOk, row, summary), st')" and "inbox_ok (rg_pending st)"
  shows "\<exists>p rid st1 st2. load_pending t i st = Some p \<and> pb_tenant_id p = t \<and> pb_decided_by p = None \<and>
    row = Some (p\<lparr>pb_status := ''executed'', pb_decided_by := Some me, pb_decided_at := Some (re_now env),
                       pb_executed_at := Some (re_now env), pb_request_id := Some rid\<rparr>) \<and>
    rg_tags st1 = rg_tags st \<and> rg_audit st1 = rg_audit st \<and> ex p rid st1 = (Inr summary, st2) \<and> rg_tags st' = rg_tags st2 \<and> rg_audit st' = rg_audit st2"
proof -
  obtain p where p: "load_pending t i st = Some p"
    using assms(1) by (auto simp: pending_approve_def run_then_Inr split: option.splits)
  have none: "objection me (expire_if_due (re_now env) p) = None"
    using assms(1) p by (auto simp: pending_approve_def run_then_Inr Let_def objection_def split: option.splits if_splits)
  note fresh = no_objection [OF none]
  have "pb_decided_by p = None" and t: "pb_tenant_id p = t"
    using assms(2) load_in_inbox [OF p] fresh by (auto simp: inbox_ok_def list_all_iff decision_ok_def is_pending_row_def)
  moreover obtain rid st1 st2 where f: "fresh_uuid env (set_pending t i (\<lambda>_. p) st) = (Inr rid, st1)"
      and e: "ex p rid st1 = (Inr summary, st2)"
      and row: "row = Some (p\<lparr>pb_status := ''executed'', pb_decided_by := Some me, pb_decided_at := Some (re_now env),
                       pb_executed_at := Some (re_now env), pb_request_id := Some rid\<rparr>)"
      and st': "rg_tags st' = rg_tags st2" "rg_audit st' = rg_audit st2"
    using assms(1) p none fresh by (auto simp: pending_approve_def run_then_Inr Let_def set_pending_def split: if_splits)
  moreover have "rg_tags st1 = rg_tags st" "rg_audit st1 = rg_audit st"
    using f by (auto simp: fresh_uuid_def set_pending_def)
  ultimately show ?thesis using p by blast
qed

lemma bulk_executor_run:
  assumes "bulk_mutation_executor env p rid st = (Inr summary, st')" and "pb_decided_by p = None"
    and "payload_epcs (re_loads env (pb_payload p)) = Inr epcs"
  shows "\<exists>e. rg_audit st' = rg_audit st @ [e] \<and> al_approved_by e = None \<and> al_pending_id e = Some (pb_id p) \<and>
    rg_tags st' = map (\<lambda>t. if tg_id t \<in> tg_id ` {r \<in> set (rg_tags st). tg_tenant_id r = pb_tenant_id p \<and> tg_epc_hex r \<in> set epcs}
      then mutate (payload_mutation (re_loads env (pb_payload p))) t else t) (rg_tags st)"
proof -
  let ?m = "payload_mutation (re_loads env (pb_payload p))"
  define rows where "rows = resolve_bulk_scope env (pb_tenant_id p) (EpcList epcs) (rg_tags st)"
  have set_rows: "set rows = {r \<in> set (rg_tags st). tg_tenant_id r = pb_tenant_id p \<and> tg_epc_hex r \<in> set epcs}"
    by (auto simp: rows_def resolve_bulk_scope_def)
  obtain n st1 e where app: "bulk_apply rows ?m st = (Inr n, st1)" and st': "rg_tags st' = rg_tags st1"
      "rg_audit st' = rg_audit st1 @ [e]" "al_approved_by e = None" "al_pending_id e = Some (pb_id p)"
    using assms by (auto simp: bulk_mutation_executor_def run_then_Inr Let_def execute_bulk_mutation_def audit_def audit_entry_of_def rows_def)
  have "rg_audit st1 = rg_audit st" using app by (auto simp: bulk_apply_def split: if_splits)
  moreover have "rg_tags st1 = map (\<lambda>t. if tg_id t \<in> tg_id ` set rows then mutate ?m t else t) (rg_tags st)"
    using app by (auto simp: bulk_apply_def split: if_splits)
  ultimately show ?thesis using st' unfolding set_rows by auto
qed

text \<open>C37: An approved change is applied to the tags that the stored payload lists, with the status and metadata it
  stores: no transition is checked again, so a tag that has meanwhile become defective, retired or transferred is
  moved all the same; and the audit entry of the change does not name the approver, which only the entry of the
  decision does.
\<close>

theorem approval_checks_no_transition:
  assumes "approve_operation env user i (tag_requests rqs empty_registry) = (Inr p, st')"
    and "pb_operation p \<in> {''tags.bulk_patch'', ''tags.bulk_retire''}"
    and "payload_epcs (re_loads env (pb_payload p)) = Inr epcs"
  shows "rg_tags st' = map (\<lambda>t. if tg_tenant_id t = ac_tenant_id user \<and> tg_epc_hex t \<in> set epcs
        then mutate (payload_mutation (re_loads env (pb_payload p))) t else t) (rg_tags (tag_requests rqs empty_registry)) \<and>
    (\<exists>e e'. rg_audit st' = rg_audit (tag_requests rqs empty_registry) @ [e, e'] \<and> al_pending_id e = Some (pb_id p) \<and>
       al_approved_by e = None \<and> al_pending_id e' = Some (pb_id p) \<and> al_approved_by e' = ac_user_id user)"
proof -
  let ?st = "tag_requests rqs empty_registry"
  have inbox: "inbox_ok (rg_pending ?st)" using requests_decide [of empty_registry rqs] by (simp add: inbox_ok_def empty_registry_def)
  have ok: "tags_ok (rg_tags ?st)" by (rule ok_requests) (simp add: tags_ok_def empty_registry_def)
  obtain me summary st1 where me: "ac_user_id user = Some me"
      and a: "pending_approve env (executor_of env) (hasher_of env) i (ac_tenant_id user) me ?st = (Inr (DecisionOk, Some p, summary), st1)"
      and st': "st' = st1\<lparr>rg_audit := rg_audit st1 @ [approved_entry user me p summary]\<rparr>"
    using assms(1)
    by (auto simp: approve_operation_def in_request_Inr run_then_Inr require_role_def conclude_Inr split: option.splits if_splits)
  obtain q rid st2 st3 where q: "pb_tenant_id q = ac_tenant_id user" "pb_decided_by q = None"
      "p = q\<lparr>pb_status := ''executed'', pb_decided_by := Some me, pb_decided_at := Some (re_now env),
                       pb_executed_at := Some (re_now env), pb_request_id := Some rid\<rparr>"
      "rg_tags st2 = rg_tags ?st" "rg_audit st2 = rg_audit ?st" "executor_of env q rid st2 = (Inr summary, st3)"
      "rg_tags st1 = rg_tags st3" "rg_audit st1 = rg_audit st3"
    using pending_approve_run [OF a inbox] by auto
  have "bulk_mutation_executor env q rid st2 = (Inr summary, st3)" using q(3,6) assms(2) by (auto simp: executor_of_def)
  from bulk_executor_run [OF this q(2), of epcs] assms(3) q(3) obtain e where
      e: "rg_audit st3 = rg_audit st2 @ [e]" "al_approved_by e = None" "al_pending_id e = Some (pb_id q)"
      "rg_tags st3 = map (\<lambda>t. if tg_id t \<in> tg_id ` {r \<in> set (rg_tags st2). tg_tenant_id r = pb_tenant_id q \<and> tg_epc_hex r \<in> set epcs}
        then mutate (payload_mutation (re_loads env (pb_payload q))) t else t) (rg_tags st2)" by auto
  have "tg_id t \<in> tg_id ` {r \<in> set (rg_tags ?st). tg_tenant_id r = ac_tenant_id user \<and> tg_epc_hex r \<in> set epcs} \<longleftrightarrow>
      tg_tenant_id t = ac_tenant_id user \<and> tg_epc_hex t \<in> set epcs" if "t \<in> set (rg_tags ?st)" for t
    using tags_ok_id [OF ok that] that by auto
  then have "rg_tags st' = map (\<lambda>t. if tg_tenant_id t = ac_tenant_id user \<and> tg_epc_hex t \<in> set epcs
        then mutate (payload_mutation (re_loads env (pb_payload p))) t else t) (rg_tags ?st)"
    using e(4) q st' by simp
  moreover have "rg_audit st' = rg_audit ?st @ [e, approved_entry user me p summary]" using e(1) q(5,8) st' by simp
  ultimately show ?thesis using e(2,3) q(3) me by (auto simp: approved_entry_def audit_entry_of_def)
qed

section \<open>Two people at work\<close>

definition demo_epc :: string where
  "demo_epc = replicate 16 CHR ''0''"

definition demo_payload :: jobj where
  "demo_payload = [(''metadata'', JNull), (''metadata_set'', JBool False), (''resolved_epcs'', json_epcs [demo_epc]),
     (''scope_kind'', JStr ''epc_list''), (''scope_value'', json_epcs [demo_epc]), (''status'', JStr ''retired'')]"

definition demo_registry_env :: registry_env where
  "demo_registry_env = \<lparr>re_now = 0, re_monotonic = 0, re_uuid4 = word_of_nat, re_token = (\<lambda>n. replicate n CHR ''t''), re_sha256 = (\<lambda>s. s),
     re_dumps = (\<lambda>j. ''payload''), re_loads = (\<lambda>s. demo_payload), re_csv = (\<lambda>s. NoHeader),
     re_tenants = [\<lparr>ts_id = 1, ts_slug = ''acme'', ts_status = ''active'', ts_import_limit = 10, ts_two_person_threshold = 1\<rparr>],
     re_bindings = [], re_labels = []\<rparr>"

definition asker :: actor where
  "asker = \<lparr>ac_tenant_id = 1, ac_user_id = Some 5, ac_role = ''admin''\<rparr>"

definition approver :: actor where
  "approver = asker\<lparr>ac_user_id := Some 6\<rparr>"

text \<open>A tag is queued for retirement; while the operation waits, the tag turns out to be defective.\<close>

definition demo_requests :: "(registry_env \<times> actor \<times> tag_request) list" where
  "demo_requests = map (\<lambda>rq. (demo_registry_env, asker, rq))
     [CreateTag demo_epc ''api'' None, RetireTags (ByEpcs [demo_epc]) None True None,
      RetireTags (ByEpcs [demo_epc]) None False (Some []), UpdateTag 0 \<lparr>mu_status = Some ''defective'', mu_metadata = None\<rparr>]"

lemma zero_char: "hex_val CHR ''0'' = Some 0" "\<not> ascii_space CHR ''0''" "lower_char CHR ''0'' = CHR ''0''" "upper_char CHR ''0'' = CHR ''0''" "\<not> py_space CHR ''0''"
  by (simp_all add: hex_val_def ascii_space_def lower_char_def upper_char_def py_space_def)
lemma demo_epc_text: "demo_epc = ''0000000000000000''" by (simp add: demo_epc_def numeral_eq_Suc)
lemma demo_normal: "normalize_epc_hex demo_epc = demo_epc" by (simp add: normalize_epc_hex_def demo_epc_text zero_char py_strip_def)
lemma demo_raw: "parse_gs1_uri demo_epc = Inr None"
  by (simp add: parse_gs1_uri_def decode_epc_hex_def demo_epc_text zero_char py_strip_def and_then_def HEADERS_def)
lemma demo_pattern: "epc_pattern demo_epc" by (simp add: demo_epc_text epc_pattern_def)
definition demo_tag :: tag_row where
  "demo_tag = new_tag 0 1 demo_epc None ''api'' None"

lemma demo_tag_simps [simp]: "tg_id demo_tag = 0" "tg_tenant_id demo_tag = 1" "tg_epc_hex demo_tag = demo_epc" "tg_status demo_tag = ''registered''"
  by (simp_all add: demo_tag_def new_tag_def)

definition demo_pending :: pending_row where
  "demo_pending = \<lparr>pb_id = 1, pb_tenant_id = 1, pb_operation = ''tags.bulk_retire'', pb_status = ''pending'', pb_requested_by = Some 5,
     pb_decided_by = None, pb_content_hash = ''payload'', pb_row_count = 1, pb_sample = [demo_epc], pb_payload = ''payload'', pb_request_id = None,
     pb_created_at = 0, pb_decided_at = None, pb_executed_at = None, pb_expires_at = PENDING_BULK_OP_TTL\<rparr>"

lemma demo_env [simp]: "re_now demo_registry_env = 0" "re_monotonic demo_registry_env = 0" "re_uuid4 demo_registry_env n = word_of_nat n"
  "re_token demo_registry_env n = replicate n CHR ''t''" "re_sha256 demo_registry_env s = s" "re_dumps demo_registry_env j = ''payload''"
  "re_loads demo_registry_env s = demo_payload" "re_bindings demo_registry_env = []"
  "tenant_row demo_registry_env 1 = Inr \<lparr>ts_id = 1, ts_slug = ''acme'', ts_status = ''active'', ts_import_limit = 10, ts_two_person_threshold = 1\<rparr>"
  by (simp_all add: demo_registry_env_def tenant_row_def)

lemma demo_resolve: "resolve_bulk_scope demo_registry_env 1 (EpcList [demo_epc]) [demo_tag] = [demo_tag]"
  by (simp add: resolve_bulk_scope_def)

lemma demo_norm: "normalize_scope (ByEpcs [demo_epc]) = Inr (EpcList [demo_epc])"
  by (simp add: normalize_scope_def demo_normal)

lemma demo_fail: "transition_failures [demo_tag] (Some ''retired'') = []"
  by (simp add: transition_failures_def transition_permitted_def OPERATOR_TRANSITIONS_def)

definition demo_token :: token_entry where
  "demo_token = \<lparr>te_tenant_id = 1, te_user_id = Some 5, te_operation = ''tags.bulk_retire'', te_content_hash = ''payload'', te_expires_at = 900\<rparr>"

definition demo_state :: "tag_row list \<Rightarrow> pending_row list \<Rightarrow> (string, token_entry) pydict \<Rightarrow> nat \<Rightarrow> registry \<Rightarrow> bool" where
  "demo_state ts pend toks fresh st \<longleftrightarrow> rg_tags st = ts \<and> rg_pending st = pend \<and> rg_tokens st = toks \<and> rg_fresh st = fresh"

lemmas demo_eval = replying_def in_request_def run_then_def require_role_def give_def lift_res_def query_def change_def audit_def asker_def
  approver_def Let_def fresh_uuid_def as_conflict_def

lemma demo1: "demo_state [demo_tag] [] [] 1 (snd (tag_request_step demo_registry_env asker (CreateTag demo_epc ''api'' None) empty_registry)) \<and>
   rg_minted (snd (tag_request_step demo_registry_env asker (CreateTag demo_epc ''api'' None) empty_registry)) = 0"
  by (simp add: demo_eval demo_state_def create_tag_def repo_create_def demo_normal demo_raw demo_pattern empty_registry_def demo_tag_def)

lemma demo2: "demo_state [demo_tag] [] [] 1 st \<Longrightarrow> rg_minted st = 0 \<Longrightarrow>
   demo_state [demo_tag] [] [([], demo_token)] 1 (snd (tag_request_step demo_registry_env asker (RetireTags (ByEpcs [demo_epc]) None True None) st))"
  by (simp add: demo_eval demo_state_def bulk_retire_tags_def run_bulk_mutation_def require_xor_flow_def demo_norm demo_resolve demo_fail
     mint_def DEFAULT_TTL_SECONDS_def purge_expired_def bulk_mutation_content_hash_def demo_token_def)

lemma demo3: "demo_state [demo_tag] [] [([], demo_token)] 1 st \<Longrightarrow>
   demo_state [demo_tag] [demo_pending] [] 2 (snd (tag_request_step demo_registry_env asker (RetireTags (ByEpcs [demo_epc]) None False (Some [])) st))"
  by (simp add: demo_eval demo_state_def bulk_retire_tags_def run_bulk_mutation_def require_xor_flow_def demo_norm demo_resolve demo_fail
     mutation_confirmed_def confirm_token_def consume_token_def request_mutation_approval_def BULK_MUTATE_SAMPLE_SIZE_def
     create_pending_def demo_pending_def serialize_bulk_payload_def bulk_mutation_content_hash_def demo_token_def)

lemma demo4: "demo_state [demo_tag] [demo_pending] [] 2 st \<Longrightarrow>
   demo_state [demo_tag\<lparr>tg_status := ''defective''\<rparr>] [demo_pending] [] 2
     (snd (tag_request_step demo_registry_env asker (UpdateTag 0 \<lparr>mu_status = Some ''defective'', mu_metadata = None\<rparr>) st))"
  by (simp add: demo_eval demo_state_def update_tag_def repo_update_def tag_get_def is_tag_def transition_permitted_def OPERATOR_TRANSITIONS_def
     mutate_def)

lemma demo_run: "demo_state [demo_tag\<lparr>tg_status := ''defective''\<rparr>] [demo_pending] [] 2 (tag_requests demo_requests empty_registry)"
  unfolding demo_requests_def list.map tag_requests.simps
  by (intro demo4 demo3 demo2 demo1 [THEN conjunct1] demo1 [THEN conjunct2])

lemma demo5: "demo_state [demo_tag\<lparr>tg_status := ''defective''\<rparr>] [demo_pending] [] 2 st \<Longrightarrow>
   \<exists>p st'. approve_operation demo_registry_env approver 1 st = (Inr p, st') \<and> pb_operation p = ''tags.bulk_retire'' \<and> pb_payload p = ''payload''"
  by (simp add: demo_eval demo_state_def approve_operation_def load_pending_def is_pending_row_def demo_pending_def pending_approve_def
    expire_if_due_def objection_def set_pending_def hasher_of_def bulk_payload_content_hash_def and_then_def payload_epcs_def demo_payload_def
    json_epcs_def PENDING_BULK_OP_TTL_def seconds_def executor_of_def bulk_mutation_executor_def conclude_def bulk_mutation_content_hash_def
    resolve_bulk_scope_def execute_bulk_mutation_def bulk_apply_def payload_mutation_def jget_def TAG_STATUSES_def)


theorem approval_checks_no_transition_witness:
  "map tg_status (rg_tags (tag_requests demo_requests empty_registry)) = [''defective''] \<and>
   map tg_status (rg_tags (snd (approve_operation demo_registry_env approver 1 (tag_requests demo_requests empty_registry)))) = [''retired'']"
proof -
  obtain p st' where run: "approve_operation demo_registry_env approver 1 (tag_requests demo_requests empty_registry) = (Inr p, st')"
      and p: "pb_operation p = ''tags.bulk_retire''" "pb_payload p = ''payload''" using demo5 [OF demo_run] by blast
  have epcs: "payload_epcs (re_loads demo_registry_env (pb_payload p)) = Inr [demo_epc]"
    by (simp add: payload_epcs_def demo_payload_def json_epcs_def)
  have before: "rg_tags (tag_requests demo_requests empty_registry) = [demo_tag\<lparr>tg_status := ''defective''\<rparr>]"
    using demo_run by (simp add: demo_state_def)
  from approval_checks_no_transition [OF run _ epcs] p
  have "rg_tags st' = [mutate (payload_mutation demo_payload) (demo_tag\<lparr>tg_status := ''defective''\<rparr>)]"
    by (simp add: before approver_def asker_def)
  then have "map tg_status (rg_tags st') = [''retired'']" by (simp add: mutate_status payload_mutation_def demo_payload_def jget_def)
  with run before show ?thesis by simp
qed

theorem statuses_follow_the_graph_witness:
  "moves_along (rg_tags (tag_requests (take 3 demo_requests) empty_registry))
     (rg_tags (snd (tag_request_step demo_registry_env asker (UpdateTag 0 \<lparr>mu_status = Some ''defective'', mu_metadata = None\<rparr>)
        (tag_requests (take 3 demo_requests) empty_registry)))) \<and>
   map tg_status (rg_tags (tag_requests demo_requests empty_registry)) = [''defective'']"
proof
  show "map tg_status (rg_tags (tag_requests demo_requests empty_registry)) = [''defective'']"
    using demo_run by (simp add: demo_state_def)
qed (rule statuses_follow_the_graph, simp)

theorem large_changes_need_approval_witness:
  "changed_rows (rg_tags (tag_requests (take 2 demo_requests) empty_registry))
     (rg_tags (snd (tag_request_step demo_registry_env asker (RetireTags (ByEpcs [demo_epc]) None False (Some []))
        (tag_requests (take 2 demo_requests) empty_registry)))) \<le> 1"
  using large_changes_need_approval [of "RetireTags (ByEpcs [demo_epc]) None False (Some [])" "take 2 demo_requests" demo_registry_env asker]
  by (simp add: asker_def)

text \<open>A bulk change to a status that does not exist is answered by the service; the table never sees it.\<close>

theorem registry_well_formed_witness:
  "fst (tag_request_step demo_registry_env asker (PatchTags (ByEpcs [demo_epc]) \<lparr>mu_status = Some ''lost'', mu_metadata = None\<rparr> True None)
     (tag_requests (take 1 demo_requests) empty_registry)) \<noteq> Inl constraint_error"
proof -
  let ?st = "tag_requests (take 1 demo_requests) empty_registry"
  have st: "demo_state [demo_tag] [] [] 1 ?st" using demo1 by (simp add: demo_requests_def)
  have small: "word_of_nat n = (word_of_nat m :: uuid) \<longleftrightarrow> n = m" if "n < 10001" "m < 10001" for n m :: nat
    using that by (simp add: word_of_nat_eq_iff take_bit_nat_eq_self)
  have "unused_ids demo_registry_env ?st"
    using st small [where m = 0] small by (auto simp: unused_ids_def demo_state_def MAX_TAG_IMPORT_ROWS_def inj_on_def)
  then show ?thesis
    using registry_well_formed [of "take 1 demo_requests" "PatchTags (ByEpcs [demo_epc]) \<lparr>mu_status = Some ''lost'', mu_metadata = None\<rparr> True None"
        demo_registry_env asker]
    by (simp add: positive_threshold_def asker_def)
qed

end
