(* ===== verification/Grouping.thy ===== *)
theory Grouping
  imports Prelude
begin

text \<open>
  \<open>defaultdict(list)\<close> and \<open>setdefault(key, []).append(x)\<close>: the items of a list by key, the keys in the order in which
  they first occur.
\<close>

definition group_into :: "('a \<Rightarrow> 'k) \<Rightarrow> 'a list \<Rightarrow> ('k, 'a list) pydict" where
  "group_into f xs = fold (\<lambda>x g. dict_set (f x) ((case map_of g (f x) of None \<Rightarrow> [] | Some ys \<Rightarrow> ys) @ [x]) g) xs []"

lemma group_Nil [simp]: "group_into f [] = []"
  by (simp add: group_into_def)

lemma group_snoc:
  "group_into f (xs @ [x]) =
     dict_set (f x) ((case map_of (group_into f xs) (f x) of None \<Rightarrow> [] | Some ys \<Rightarrow> ys) @ [x]) (group_into f xs)"
  by (simp add: group_into_def)

lemma map_of_group:
  "map_of (group_into f xs) k = (let ys = filter (\<lambda>x. f x = k) xs in if ys = [] then None else Some ys)"
  by (induction xs rule: rev_induct) (auto simp: group_snoc map_of_set Let_def split: if_splits)

lemma distinct_group: "distinct (map fst (group_into f xs))"
  by (induction xs rule: rev_induct) (simp_all add: group_snoc distinct_update)

lemma group_entry: "(k, ys) \<in> set (group_into f xs) \<longleftrightarrow> ys = filter (\<lambda>x. f x = k) xs \<and> ys \<noteq> []"
proof -
  have "(k, ys) \<in> set (group_into f xs) \<longleftrightarrow> map_of (group_into f xs) k = Some ys"
    by (metis distinct_group map_of_is_SomeI map_of_SomeD)
  then show ?thesis by (auto simp: map_of_group Let_def)
qed

lemma group_keys: "fst ` set (group_into f xs) = f ` set xs"
proof (rule set_eqI)
  fix k
  have "k \<in> fst ` set (group_into f xs) \<longleftrightarrow> (\<exists>ys. (k, ys) \<in> set (group_into f xs))" by force
  also have "\<dots> \<longleftrightarrow> k \<in> f ` set xs" unfolding group_entry by (auto simp: filter_empty_conv)
  finally show "k \<in> fst ` set (group_into f xs) \<longleftrightarrow> k \<in> f ` set xs" .
qed

lemma dict_set_new: "k \<notin> fst ` set d \<Longrightarrow> dict_set k v d = d @ [(k, v)]"
  by (induction d) auto

end
