(* ===== verification/TagRegistrar.thy ===== *)
theory TagRegistrar
  imports TagRegistryLaws Grouping
begin

text \<open>
  The registrar worker (\<open>workers/tag_registrar_worker.py\<close>): it settles, batch by batch, which of the stored reads
  belong to a tag that the tenant owns, and keeps the observational columns of the registry.  A pass reads the rows
  that nobody has settled, in table order; the loop runs passes without a pause as long as they are full.
\<close>

section \<open>The pure classifier\<close>

definition OWNING_STATUSES :: "string set" where
  "OWNING_STATUSES = {''registered'', ''active''}"

record read_row =
  rr_id :: uuid
  rr_tenant_id :: uuid
  rr_epc_hex :: "string option"
  rr_timestamp :: datetime
  rr_known :: "bool option"

record tag_update =
  tu_tag_id :: uuid
  tu_new_status :: "string option"
  tu_new_first_seen_at :: "datetime option"
  tu_new_last_seen_at :: datetime

record classification =
  cl_true :: "uuid list"
  cl_false :: "uuid list"
  cl_updates :: "tag_update list"
  cl_promoted :: nat

definition no_classification :: classification where
  "no_classification = \<lparr>cl_true = [], cl_false = [], cl_updates = [], cl_promoted = 0\<rparr>"

definition read_key :: "read_row \<Rightarrow> (uuid \<times> string) option" where
  "read_key r = (case rr_epc_hex r of None \<Rightarrow> None | Some e \<Rightarrow> Some (rr_tenant_id r, normalize_epc_hex e))"

definition tag_update_of :: "datetime \<Rightarrow> tag_row \<Rightarrow> tag_update option" where
  "tag_update_of max_ts tag =
     (let new_status = (if tg_status tag = ''registered'' then Some ''active'' else None);
          new_first = (if tg_first_seen_at tag = None then Some max_ts else None);
          new_last = (case tg_last_seen_at tag of Some seen \<Rightarrow> if seen \<ge> max_ts then seen else max_ts | None \<Rightarrow> max_ts)
      in if new_status = None \<and> new_first = None \<and> Some new_last = tg_last_seen_at tag then None
         else Some \<lparr>tu_tag_id = tg_id tag, tu_new_status = new_status, tu_new_first_seen_at = new_first, tu_new_last_seen_at = new_last\<rparr>)"

definition classify_group :: "(uuid \<times> string, tag_row) pydict \<Rightarrow> (uuid \<times> string) \<times> read_row list \<Rightarrow> classification \<Rightarrow> classification" where
  "classify_group tag_by_key = (\<lambda>(key, reads) c.
     let max_ts = Max (rr_timestamp ` set reads) in
     case map_of tag_by_key key of
       None \<Rightarrow> c\<lparr>cl_false := cl_false c @ map rr_id reads\<rparr>
     | Some tag \<Rightarrow>
         if tg_status tag \<notin> OWNING_STATUSES then c\<lparr>cl_false := cl_false c @ map rr_id reads\<rparr>
         else let c = c\<lparr>cl_true := cl_true c @ map rr_id reads,
                       cl_promoted := cl_promoted c + (if tg_status tag = ''registered'' then 1 else 0)\<rparr>
              in case tag_update_of max_ts tag of None \<Rightarrow> c | Some u \<Rightarrow> c\<lparr>cl_updates := cl_updates c @ [u]\<rparr>)"

definition classify_reads :: "read_row list \<Rightarrow> tag_row list \<Rightarrow> classification" where
  "classify_reads reads tags =
     (if reads = [] then no_classification
      else let tag_by_key = fold (\<lambda>t. dict_set (tag_key t) t) tags [];
               no_epc = filter (\<lambda>r. read_key r = None) reads;
               grouped = group_into (\<lambda>r. the (read_key r)) (filter (\<lambda>r. read_key r \<noteq> None) reads)
           in fold (classify_group tag_by_key) grouped (no_classification\<lparr>cl_false := map rr_id no_epc\<rparr>))"

section \<open>A pass\<close>

record registrar =
  rs_reads :: "read_row list"
  rs_tags :: "tag_row list"

definition fetch_unprocessed :: "nat \<Rightarrow> registrar \<Rightarrow> read_row list" where
  "fetch_unprocessed batch_size st = take batch_size (filter (\<lambda>r. rr_known r = None) (rs_reads st))"

definition fetch_matching_tags :: "read_row list \<Rightarrow> registrar \<Rightarrow> tag_row list" where
  "fetch_matching_tags reads st = filter (\<lambda>t. Some (tag_key t) \<in> read_key ` set reads) (rs_tags st)"

definition apply_known_writes :: "classification \<Rightarrow> registrar \<Rightarrow> registrar" where
  "apply_known_writes c st =
     (let reads = map (\<lambda>r. if rr_id r \<in> set (cl_true c) then r\<lparr>rr_known := Some True\<rparr> else r) (rs_reads st);
          reads = map (\<lambda>r. if rr_id r \<in> set (cl_false c) then r\<lparr>rr_known := Some False\<rparr> else r) reads
      in st\<lparr>rs_reads := reads\<rparr>)"

definition apply_update :: "tag_update \<Rightarrow> tag_row \<Rightarrow> tag_row" where
  "apply_update u t =
     t\<lparr>tg_status := (case tu_new_status u of None \<Rightarrow> tg_status t | Some s \<Rightarrow> s),
       tg_first_seen_at := (case tu_new_first_seen_at u of None \<Rightarrow> tg_first_seen_at t | Some d \<Rightarrow> Some d),
       tg_last_seen_at := Some (tu_new_last_seen_at u)\<rparr>"

definition apply_tag_mutations :: "tag_row list \<Rightarrow> classification \<Rightarrow> registrar \<Rightarrow> registrar" where
  "apply_tag_mutations tags c st =
     fold (\<lambda>u st. if tu_tag_id u \<in> tg_id ` set tags then st\<lparr>rs_tags := update_row tg_id (tu_tag_id u) (apply_update u) (rs_tags st)\<rparr> else st)
       (cl_updates c) st"

definition registrar_run_once :: "nat \<Rightarrow> registrar \<Rightarrow> nat \<times> registrar" where
  "registrar_run_once batch_size st =
     (let reads = fetch_unprocessed batch_size st in
      if reads = [] then (0, st)
      else let tags = fetch_matching_tags reads st; c = classify_reads reads tags
           in (length reads, apply_tag_mutations tags c (apply_known_writes c st)))"

section \<open>What the classifier decides\<close>

definition owned_by :: "(uuid \<times> string \<rightharpoonup> tag_row) \<Rightarrow> (uuid \<times> string) \<Rightarrow> bool" where
  "owned_by tag_of k \<longleftrightarrow> (case tag_of k of None \<Rightarrow> False | Some t \<Rightarrow> tg_status t \<in> OWNING_STATUSES)"

definition group_update :: "(uuid \<times> string \<rightharpoonup> tag_row) \<Rightarrow> (uuid \<times> string) \<times> read_row list \<Rightarrow> tag_update option" where
  "group_update tag_of = (\<lambda>(k, reads). if owned_by tag_of k then tag_update_of (Max (rr_timestamp ` set reads)) (the (tag_of k)) else None)"

lemma classify_group_step:
  "set (cl_true (classify_group tk (k, ys) c)) = set (cl_true c) \<union> (if owned_by (map_of tk) k then rr_id ` set ys else {})"
  "set (cl_false (classify_group tk (k, ys) c)) = set (cl_false c) \<union> (if \<not> owned_by (map_of tk) k then rr_id ` set ys else {})"
  "cl_updates (classify_group tk (k, ys) c) = cl_updates c @ List.map_filter (group_update (map_of tk)) [(k, ys)]"
  by (auto simp: classify_group_def owned_by_def group_update_def Let_def map_filter_simps split: option.split)

lemma classify_groups:
  "set (cl_true (fold (classify_group tk) gs c)) = set (cl_true c) \<union> (\<Union>(k, ys) \<in> set gs. if owned_by (map_of tk) k then rr_id ` set ys else {})"
  "set (cl_false (fold (classify_group tk) gs c)) = set (cl_false c) \<union> (\<Union>(k, ys) \<in> set gs. if \<not> owned_by (map_of tk) k then rr_id ` set ys else {})"
  "cl_updates (fold (classify_group tk) gs c) = cl_updates c @ List.map_filter (group_update (map_of tk)) gs"
proof (induction gs arbitrary: c)
  case (Cons g gs)
  obtain k ys where g: "g = (k, ys)" by (cases g)
  { case 1 show ?case by (simp add: Cons.IH(1) g classify_group_step(1) Un_assoc) }
  { case 2 show ?case by (simp add: Cons.IH(2) g classify_group_step(2) Un_assoc) }
  { case 3 show ?case by (simp add: Cons.IH(3) g classify_group_step(3) map_filter_simps split: option.split) }
qed (auto simp: map_filter_simps)

definition tag_index :: "tag_row list \<Rightarrow> uuid \<times> string \<rightharpoonup> tag_row" where
  "tag_index tags = map_of (fold (\<lambda>t. dict_set (tag_key t) t) tags [])"

definition owned :: "tag_row list \<Rightarrow> read_row \<Rightarrow> bool" where
  "owned tags r \<longleftrightarrow> (case read_key r of None \<Rightarrow> False | Some k \<Rightarrow> owned_by (tag_index tags) k)"

definition batch_groups :: "read_row list \<Rightarrow> (uuid \<times> string, read_row list) pydict" where
  "batch_groups reads = group_into (\<lambda>r. the (read_key r)) (filter (\<lambda>r. read_key r \<noteq> None) reads)"

lemma batch_group_entry:
  "(k, ys) \<in> set (batch_groups reads) \<longleftrightarrow> ys = filter (\<lambda>r. read_key r = Some k) reads \<and> ys \<noteq> []"
proof -
  have "filter (\<lambda>r. the (read_key r) = k) (filter (\<lambda>r. read_key r \<noteq> None) reads) = filter (\<lambda>r. read_key r = Some k) reads"
    unfolding filter_filter by (rule filter_cong) auto
  then show ?thesis by (simp add: batch_groups_def group_entry)
qed

lemma in_groups:
  "(\<Union>(k, ys) \<in> set (batch_groups reads). if P k then rr_id ` set ys else {}) = rr_id ` {r \<in> set reads. \<exists>k. read_key r = Some k \<and> P k}"
  (is "?L = ?R")
proof
  show "?L \<subseteq> ?R" by (auto simp: batch_group_entry split: if_splits)
  show "?R \<subseteq> ?L"
  proof
    fix i assume "i \<in> ?R"
    then obtain r k where r: "i = rr_id r" "r \<in> set reads" "read_key r = Some k" "P k" by auto
    let ?ys = "filter (\<lambda>r. read_key r = Some k) reads"
    have "(k, ?ys) \<in> set (batch_groups reads)" using r by (auto simp: batch_group_entry filter_empty_conv)
    moreover have "i \<in> rr_id ` set ?ys" using r by auto
    ultimately show "i \<in> ?L" using r(4) by (intro UN_I [of "(k, ?ys)"]) auto
  qed
qed

lemma classify_reads_eq:
  "reads \<noteq> [] \<Longrightarrow> classify_reads reads tags = fold (classify_group (fold (\<lambda>t. dict_set (tag_key t) t) tags [])) (batch_groups reads)
     (no_classification\<lparr>cl_false := map rr_id (filter (\<lambda>r. read_key r = None) reads)\<rparr>)"
  by (simp only: classify_reads_def Let_def batch_groups_def if_False)

lemma classified:
  assumes "reads \<noteq> []"
  shows "set (cl_true (classify_reads reads tags)) = rr_id ` {r \<in> set reads. owned tags r}"
    and "set (cl_false (classify_reads reads tags)) = rr_id ` {r \<in> set reads. \<not> owned tags r}"
    and "cl_updates (classify_reads reads tags) = List.map_filter (group_update (tag_index tags)) (batch_groups reads)"
proof -
  have "{r \<in> set reads. \<not> owned tags r} = {r \<in> set reads. read_key r = None} \<union> {r \<in> set reads. \<exists>k. read_key r = Some k \<and> \<not> owned_by (tag_index tags) k}"
    and "{r \<in> set reads. owned tags r} = {r \<in> set reads. \<exists>k. read_key r = Some k \<and> owned_by (tag_index tags) k}"
    by (auto simp: owned_def split: option.splits) (metis not_None_eq prod.exhaust_sel)
  then show "set (cl_true (classify_reads reads tags)) = rr_id ` {r \<in> set reads. owned tags r}"
    and "set (cl_false (classify_reads reads tags)) = rr_id ` {r \<in> set reads. \<not> owned tags r}"
    and "cl_updates (classify_reads reads tags) = List.map_filter (group_update (tag_index tags)) (batch_groups reads)"
    unfolding classify_reads_eq [OF assms] classify_groups in_groups tag_index_def [symmetric]
    by (simp_all add: no_classification_def image_Un)
qed

section \<open>The queue drains\<close>

definition unprocessed :: "registrar \<Rightarrow> nat" where
  "unprocessed st = length (filter (\<lambda>r. rr_known r = None) (rs_reads st))"

lemma mutations_reads [simp]: "rs_reads (apply_tag_mutations tags c st) = rs_reads st"
proof -
  have "rs_reads (fold (\<lambda>u st. if tu_tag_id u \<in> S then st\<lparr>rs_tags := update_row tg_id (tu_tag_id u) (apply_update u) (rs_tags st)\<rparr> else st) us st) = rs_reads st"
    for S us and st :: registrar by (induction us arbitrary: st) auto
  then show ?thesis by (simp add: apply_tag_mutations_def)
qed

lemma known_writes:
  "rs_reads (apply_known_writes c st) = map (\<lambda>r. if rr_id r \<in> set (cl_false c) then r\<lparr>rr_known := Some False\<rparr>
     else if rr_id r \<in> set (cl_true c) then r\<lparr>rr_known := Some True\<rparr> else r) (rs_reads st)"
  by (auto simp: apply_known_writes_def Let_def)

lemma run_once_reads:
  assumes "registrar_run_once b st = (n, st')" and "fetch_unprocessed b st = batch" and "batch \<noteq> []" and "fetch_matching_tags batch st = tags"
  shows "rs_reads st' = map (\<lambda>r. if rr_id r \<in> rr_id ` {x \<in> set batch. \<not> owned tags x} then r\<lparr>rr_known := Some False\<rparr>
     else if rr_id r \<in> rr_id ` {x \<in> set batch. owned tags x} then r\<lparr>rr_known := Some True\<rparr> else r) (rs_reads st)"
  using assms(1,3) unfolding classified(1,2) [OF assms(3), symmetric] known_writes [symmetric]
  by (auto simp: registrar_run_once_def assms(2,4) Let_def)

lemma filter_map_less:
  assumes "x \<in> set xs" "P x" "\<not> P (f x)" and "\<And>y. P (f y) \<Longrightarrow> P y"
  shows "length (filter P (map f xs)) < length (filter P xs)"
proof -
  have le: "length (filter P (map f ys)) \<le> length (filter P ys)" for ys using assms(4) by (induction ys) auto
  obtain as bs where xs: "xs = as @ x # bs" using split_list [OF assms(1)] by auto
  have "length (filter P (map f as)) \<le> length (filter P as)" "length (filter P (map f bs)) \<le> length (filter P bs)" by (rule le)+
  then show ?thesis using assms(2,3) unfolding xs by simp
qed

lemma pass_progresses:
  assumes "registrar_run_once b st = (n, st')" and "0 < n"
  shows "unprocessed st' < unprocessed st"
proof -
  have batch: "fetch_unprocessed b st \<noteq> []" using assms by (auto simp: registrar_run_once_def Let_def split: if_splits)
  then obtain x where x: "x \<in> set (fetch_unprocessed b st)" by (meson last_in_set)
  then have "x \<in> set (rs_reads st)" "rr_known x = None" by (auto simp: fetch_unprocessed_def dest: in_set_takeD)
  then show ?thesis
    unfolding unprocessed_def run_once_reads [OF assms(1) HOL.refl batch HOL.refl] using x
    by (intro filter_map_less [of x]) (auto split: if_splits)
qed

text \<open>The burst of the loop: passes without a pause until one is not full.\<close>

function drain :: "nat \<Rightarrow> registrar \<Rightarrow> registrar" where
  "drain batch_size st =
     (let (processed, st') = registrar_run_once batch_size st in
      if processed = 0 \<or> processed < batch_size then st' else drain batch_size st')"
  by pat_completeness auto

termination
proof (relation "measure (\<lambda>(b, st). unprocessed st)")
  fix b st x n st'
  assume "x = registrar_run_once b st" "(n, st') = x" "\<not> (n = 0 \<or> n < b)"
  then show "((b, st'), b, st) \<in> measure (\<lambda>(b, st). unprocessed st)" using pass_progresses [of b st n st'] by auto
qed simp

declare drain.simps [simp del]

section \<open>What a burst leaves\<close>

text \<open>A read that nobody settled is settled by the registry; a tag is told of the reads that carry its EPC.\<close>

definition settle :: "tag_row list \<Rightarrow> read_row \<Rightarrow> read_row" where
  "settle tags r = (if rr_known r = None then r\<lparr>rr_known := Some (owned tags r)\<rparr> else r)"

definition sightings :: "read_row list \<Rightarrow> tag_row \<Rightarrow> datetime set" where
  "sightings reads t = rr_timestamp ` set (filter (\<lambda>r. read_key r = Some (tag_key t)) reads)"

definition sight :: "read_row list \<Rightarrow> tag_row \<Rightarrow> tag_row" where
  "sight reads t =
     (if tg_status t \<notin> OWNING_STATUSES \<or> sightings reads t = {} then t
      else let latest = Max (sightings reads t)
           in t\<lparr>tg_status := ''active'',
                tg_first_seen_at := (case tg_first_seen_at t of None \<Rightarrow> Some latest | Some d \<Rightarrow> Some d),
                tg_last_seen_at := (case tg_last_seen_at t of None \<Rightarrow> Some latest | Some d \<Rightarrow> Some (max d latest))\<rparr>)"

definition without_first_seen :: "tag_row \<Rightarrow> tag_row" where
  "without_first_seen t = t\<lparr>tg_first_seen_at := None\<rparr>"

lemma sight_same [simp]:
  "tg_id (sight reads t) = tg_id t" "tag_key (sight reads t) = tag_key t"
  "tg_status (sight reads t) \<in> OWNING_STATUSES \<longleftrightarrow> tg_status t \<in> OWNING_STATUSES"
  by (simp_all add: sight_def Let_def tag_key_def OWNING_STATUSES_def)

lemma sightings_sight [simp]: "sightings reads (sight reads' t) = sightings reads t"
  by (simp add: sightings_def)

lemma sightings_finite [simp]: "finite (sightings reads t)"
  by (simp add: sightings_def)

lemma sight_last_seen:
  "tg_last_seen_at (sight reads t) =
     (if tg_status t \<notin> OWNING_STATUSES \<or> sightings reads t = {} then tg_last_seen_at t
      else Some (case tg_last_seen_at t of None \<Rightarrow> Max (sightings reads t) | Some d \<Rightarrow> max d (Max (sightings reads t))))"
  by (simp add: sight_def Let_def split: option.split)

lemma sight_but_first:
  "without_first_seen (sight reads t) =
     (if tg_status t \<notin> OWNING_STATUSES \<or> sightings reads t = {} then without_first_seen t
      else (without_first_seen t)\<lparr>tg_status := ''active'', tg_last_seen_at := tg_last_seen_at (sight reads t)\<rparr>)"
  by (simp add: sight_def Let_def without_first_seen_def)

lemma sight_append:
  assumes "set zs = set xs \<union> set ys"
  shows "without_first_seen (sight ys (sight xs t)) = without_first_seen (sight zs t)"
proof -
  have zs: "sightings zs t = sightings xs t \<union> sightings ys t" using assms by (auto simp: sightings_def)
  have last: "tg_last_seen_at (sight ys (sight xs t)) = tg_last_seen_at (sight zs t)"
    unfolding sight_last_seen [of ys] sight_last_seen [of xs] sight_last_seen [of zs] sightings_sight sight_same zs
    by (simp add: Max_Un max.assoc split: option.split)
  show ?thesis
    unfolding sight_but_first [of ys] sight_but_first [of zs] last sight_same sightings_sight
    unfolding sight_but_first [of xs] zs by (auto simp: sight_last_seen zs without_first_seen_def split: option.split)
qed

lemma tag_index_Some:
  assumes "distinct (map tag_key tags)"
  shows "tag_index tags k = Some t \<longleftrightarrow> t \<in> set tags \<and> tag_key t = k"
  using assms
proof (induction tags rule: rev_induct)
  case (snoc x xs)
  then have "tag_index (xs @ [x]) k = (if k = tag_key x then Some x else tag_index xs k)" by (simp add: tag_index_def map_of_set)
  moreover have "t \<in> set xs \<Longrightarrow> tag_key t \<noteq> tag_key x" using snoc.prems by (auto intro: rev_image_eqI)
  ultimately show ?case using snoc by (auto split: if_splits)
qed (simp add: tag_index_def)

lemma mutations_tags:
  fixes st :: registrar
  assumes "\<And>u. u \<in> set us \<Longrightarrow> u = U (tu_tag_id u) \<and> tu_tag_id u \<in> S"
  shows "rs_tags (fold (\<lambda>u st. if tu_tag_id u \<in> S then st\<lparr>rs_tags := update_row tg_id (tu_tag_id u) (apply_update u) (rs_tags st)\<rparr> else st) us st)
    = map (\<lambda>t. if tg_id t \<in> tu_tag_id ` set us then apply_update (U (tg_id t)) t else t) (rs_tags st)"
  using assms
proof (induction us arbitrary: st)
  case (Cons u us)
  have twice: "apply_update v (apply_update v t) = apply_update v t" and same: "tg_id (apply_update v t) = tg_id t" for v t
    by (simp_all add: apply_update_def split: option.split)
  have u: "U (tu_tag_id u) = u" "tu_tag_id u \<in> S" using Cons.prems [of u] by auto
  have "rs_tags (fold (\<lambda>u st. if tu_tag_id u \<in> S then st\<lparr>rs_tags := update_row tg_id (tu_tag_id u) (apply_update u) (rs_tags st)\<rparr> else st) us st)
    = map (\<lambda>t. if tg_id t \<in> tu_tag_id ` set us then apply_update (U (tg_id t)) t else t) (rs_tags st)" for st :: registrar
    using Cons.prems by (intro Cons.IH) auto
  then show ?case using u by (auto simp: update_row_def twice same)
qed simp

text \<open>The update a batch has for a tag, and what it makes of the row.\<close>

definition batch_update :: "read_row list \<Rightarrow> tag_row \<Rightarrow> tag_update option" where
  "batch_update reads t = (if tg_status t \<notin> OWNING_STATUSES \<or> sightings reads t = {} then None else tag_update_of (Max (sightings reads t)) t)"

lemma batch_update_id: "batch_update reads t = Some u \<Longrightarrow> tu_tag_id u = tg_id t"
  by (auto simp: batch_update_def tag_update_of_def Let_def split: if_splits)

lemma batch_update_sight: "sight reads t = (case batch_update reads t of None \<Rightarrow> t | Some u \<Rightarrow> apply_update u t)"
proof (cases "tg_status t \<notin> OWNING_STATUSES \<or> sightings reads t = {}")
  case False
  then have "tg_status t = ''registered'' \<or> tg_status t = ''active''" by (auto simp: OWNING_STATUSES_def)
  then show ?thesis using False
    by (cases t) (auto simp: sight_def batch_update_def tag_update_of_def apply_update_def Let_def max_def split: option.splits if_splits)
qed (auto simp: sight_def batch_update_def)

lemma in_map_filter: "y \<in> set (List.map_filter f xs) \<longleftrightarrow> (\<exists>x\<in>set xs. f x = Some y)"
  by (induction xs) (auto simp: map_filter_simps split: option.split)

lemma batch_group_updates:
  assumes "distinct (map tag_key tags)"
  shows "set (List.map_filter (group_update (tag_index tags)) (batch_groups reads)) = {u. \<exists>t\<in>set tags. batch_update reads t = Some u}"
proof -
  have of_group: "group_update (tag_index tags) (k, ys) = Some u \<longleftrightarrow> (\<exists>t\<in>set tags. tag_key t = k \<and> batch_update reads t = Some u)"
    if "(k, ys) \<in> set (batch_groups reads)" for k ys u
  proof -
    have ys: "ys = filter (\<lambda>r. read_key r = Some k) reads" "ys \<noteq> []" using that by (auto simp: batch_group_entry)
    have at_key: "batch_update reads t = (if tg_status t \<in> OWNING_STATUSES then tag_update_of (Max (rr_timestamp ` set ys)) t else None)"
      if "tag_key t = k" for t
      using that ys by (auto simp: batch_update_def sightings_def filter_empty_conv)
    show ?thesis
    proof (cases "tag_index tags k")
      case None
      then have "\<not> (t \<in> set tags \<and> tag_key t = k)" for t using tag_index_Some [OF assms, of k t] by simp
      then show ?thesis using None by (auto simp: group_update_def owned_by_def)
    next
      case (Some t)
      then have "t \<in> set tags" "tag_key t = k" using tag_index_Some [OF assms] by auto
      moreover have "s = t" if "s \<in> set tags" "tag_key s = k" for s using that Some tag_index_Some [OF assms, of k s] by simp
      ultimately have "(\<exists>s\<in>set tags. tag_key s = k \<and> batch_update reads s = Some u) \<longleftrightarrow> batch_update reads t = Some u" by blast
      then show ?thesis using at_key [OF \<open>tag_key t = k\<close>] Some by (simp add: group_update_def owned_by_def)
    qed
  qed
  have has_group: "\<exists>ys. (tag_key t, ys) \<in> set (batch_groups reads)" if "batch_update reads t = Some u" for t u
    using that by (auto simp: batch_group_entry batch_update_def sightings_def filter_empty_conv split: if_splits)
  show ?thesis
  proof (rule set_eqI)
    fix u
    have "u \<in> set (List.map_filter (group_update (tag_index tags)) (batch_groups reads))
        \<longleftrightarrow> (\<exists>k ys. (k, ys) \<in> set (batch_groups reads) \<and> group_update (tag_index tags) (k, ys) = Some u)"
      by (auto simp: in_map_filter)
    also have "\<dots> \<longleftrightarrow> (\<exists>k ys. (k, ys) \<in> set (batch_groups reads) \<and> (\<exists>t\<in>set tags. tag_key t = k \<and> batch_update reads t = Some u))"
      by (intro ex_cong1 conj_cong HOL.refl of_group)
    also have "\<dots> \<longleftrightarrow> u \<in> {u. \<exists>t\<in>set tags. batch_update reads t = Some u}" using has_group by blast
    finally show "u \<in> set (List.map_filter (group_update (tag_index tags)) (batch_groups reads)) \<longleftrightarrow> u \<in> {u. \<exists>t\<in>set tags. batch_update reads t = Some u}" .
  qed
qed

lemma pass_tags:
  assumes run: "registrar_run_once b st = (n, st')" and batch: "fetch_unprocessed b st = batch" "batch \<noteq> []"
    and ids: "distinct (map tg_id (rs_tags st))" and keys: "distinct (map tag_key (rs_tags st))"
  shows "rs_tags st' = map (sight batch) (rs_tags st)"
proof -
  let ?tags = "fetch_matching_tags batch st"
  have tags: "t \<in> set ?tags \<longleftrightarrow> t \<in> set (rs_tags st) \<and> sightings batch t \<noteq> {}" for t
    by (auto simp: fetch_matching_tags_def sightings_def filter_empty_conv image_iff) metis
  have "distinct (map tag_key ?tags)" unfolding fetch_matching_tags_def using keys by (rule distinct_map_filter)
  then have us: "set (cl_updates (classify_reads batch ?tags)) = {u. \<exists>t\<in>set (rs_tags st). batch_update batch t = Some u}"
    unfolding classified(3) [OF batch(2)] by (subst batch_group_updates) (auto simp: tags batch_update_def Bex_def)
  define U where "U i = the (batch_update batch (the (row_by tg_id i (rs_tags st))))" for i
  have U: "U (tg_id t) = the (batch_update batch t)" if t: "t \<in> set (rs_tags st)" for t
  proof -
    obtain s where s: "row_by tg_id (tg_id t) (rs_tags st) = Some s" 
      using t row_by_None [of tg_id "tg_id t" "rs_tags st"] by (cases "row_by tg_id (tg_id t) (rs_tags st)") auto
    have "s = t" using t ids row_by_Some [OF s] inj_onD unfolding distinct_map by metis
    then show ?thesis using s by (simp add: U_def)
  qed
  have "u = U (tu_tag_id u) \<and> tu_tag_id u \<in> tg_id ` set ?tags" if u: "u \<in> set (cl_updates (classify_reads batch ?tags))" for u
  proof -
    obtain t where "t \<in> set (rs_tags st)" "batch_update batch t = Some u" using u unfolding us by blast
    moreover from this have "t \<in> set ?tags" by (auto simp: tags batch_update_def split: if_splits)
    ultimately show ?thesis using U [of t] batch_update_id [of batch t u] by simp
  qed
  note step = mutations_tags [of _ U "tg_id ` set ?tags", OF this]
  have hit: "tg_id t \<in> tu_tag_id ` set (cl_updates (classify_reads batch ?tags)) \<longleftrightarrow> batch_update batch t \<noteq> None" if t: "t \<in> set (rs_tags st)" for t
  proof
    assume "tg_id t \<in> tu_tag_id ` set (cl_updates (classify_reads batch ?tags))"
    then obtain u where u: "u \<in> {u. \<exists>t\<in>set (rs_tags st). batch_update batch t = Some u}" "tg_id t = tu_tag_id u" unfolding us by (rule imageE)
    then obtain s where "s \<in> set (rs_tags st)" "batch_update batch s = Some u" by blast
    moreover from this have "tg_id s = tg_id t" using batch_update_id u(2) by metis
    ultimately show "batch_update batch t \<noteq> None" using ids t by (auto simp: distinct_map dest: inj_onD)
  next
    assume "batch_update batch t \<noteq> None"
    then obtain u where "batch_update batch t = Some u" by auto
    then show "tg_id t \<in> tu_tag_id ` set (cl_updates (classify_reads batch ?tags))"
      unfolding us using t batch_update_id by (metis (mono_tags, lifting) image_eqI mem_Collect_eq)
  qed
  have st': "st' = apply_tag_mutations ?tags (classify_reads batch ?tags) (apply_known_writes (classify_reads batch ?tags) st)"
    using run batch(2) by (simp add: registrar_run_once_def Let_def batch(1))
  have "rs_tags (apply_known_writes c st) = rs_tags st" for c by (simp add: apply_known_writes_def Let_def)
  then have "rs_tags st' = map (\<lambda>t. if tg_id t \<in> tu_tag_id ` set (cl_updates (classify_reads batch ?tags)) then apply_update (U (tg_id t)) t else t) (rs_tags st)"
    unfolding st' apply_tag_mutations_def by (simp add: step)
  also have "\<dots> = map (sight batch) (rs_tags st)" using hit U by (intro map_cong HOL.refl) (auto simp: batch_update_sight)
  finally show ?thesis .
qed

definition backlog :: "registrar \<Rightarrow> read_row list" where
  "backlog st = filter (\<lambda>r. rr_known r = None) (rs_reads st)"

lemma owned_batch:
  assumes "distinct (map tag_key (rs_tags st))" and "r \<in> set batch"
  shows "owned (fetch_matching_tags batch st) r = owned (rs_tags st) r"
proof (cases "read_key r")
  case (Some k)
  have d: "distinct (map tag_key (fetch_matching_tags batch st))" unfolding fetch_matching_tags_def using assms(1) by (rule distinct_map_filter)
  have "t \<in> set (fetch_matching_tags batch st) \<and> tag_key t = k \<longleftrightarrow> t \<in> set (rs_tags st) \<and> tag_key t = k" for t
    using Some assms(2) by (auto simp: fetch_matching_tags_def) (metis image_eqI)
  then have "tag_index (fetch_matching_tags batch st) k = tag_index (rs_tags st) k"
    unfolding tag_index_Some [OF d, symmetric] tag_index_Some [OF assms(1), symmetric] by (metis not_Some_eq)
  then show ?thesis using Some by (simp add: owned_def owned_by_def)
qed (simp add: owned_def)

lemma owned_sight:
  assumes "distinct (map tag_key tags)"
  shows "owned (map (sight reads) tags) r = owned tags r"
proof (cases "read_key r")
  case (Some k)
  have d: "distinct (map tag_key (map (sight reads) tags))" using assms by (simp add: comp_def)
  have "owned_by (tag_index ts) k \<longleftrightarrow> (\<exists>t\<in>set ts. tag_key t = k \<and> tg_status t \<in> OWNING_STATUSES)" if "distinct (map tag_key ts)" for ts
    using tag_index_Some [OF that, of k] that by (cases "tag_index ts k") (auto simp: owned_by_def distinct_map dest: inj_onD)
  then show ?thesis using Some assms d by (auto simp: owned_def)
qed (simp add: owned_def)

lemma pass_reads:
  assumes run: "registrar_run_once b st = (n, st')" and batch: "fetch_unprocessed b st = batch" "batch \<noteq> []"
    and ids: "distinct (map rr_id (rs_reads st))" and keys: "distinct (map tag_key (rs_tags st))"
  shows "rs_reads st' = map (\<lambda>r. if r \<in> set batch then settle (rs_tags st) r else r) (rs_reads st)"
  unfolding run_once_reads [OF run batch HOL.refl]
proof (intro map_cong HOL.refl)
  fix r assume r: "r \<in> set (rs_reads st)"
  have b: "set batch \<subseteq> set (rs_reads st)" and n: "\<forall>r\<in>set batch. rr_known r = None"
    using batch(1) by (auto simp: fetch_unprocessed_def dest: in_set_takeD)
  have "rr_id r \<in> rr_id ` {x \<in> set batch. P x} \<longleftrightarrow> r \<in> set batch \<and> P r" for P
    using ids r b by (auto simp: distinct_map dest: inj_onD)
  then show "(if rr_id r \<in> rr_id ` {x \<in> set batch. \<not> owned (fetch_matching_tags batch st) x} then r\<lparr>rr_known := Some False\<rparr>
      else if rr_id r \<in> rr_id ` {x \<in> set batch. owned (fetch_matching_tags batch st) x} then r\<lparr>rr_known := Some True\<rparr> else r) =
      (if r \<in> set batch then settle (rs_tags st) r else r)"
    using owned_batch [OF keys, of r batch] n by (auto simp: settle_def)
qed

lemma fetch_backlog: "fetch_unprocessed b st = take b (backlog st)"
  by (simp add: fetch_unprocessed_def backlog_def)

lemma settle_id [simp]: "rr_id (settle tags r) = rr_id r"
  by (simp add: settle_def)

lemma in_backlog: "r \<in> set (backlog st) \<longleftrightarrow> r \<in> set (rs_reads st) \<and> rr_known r = None"
  by (auto simp: backlog_def)

lemma drained:
  assumes "0 < b" and "distinct (map rr_id (rs_reads st))" and "distinct (map tg_id (rs_tags st))" and "distinct (map tag_key (rs_tags st))"
  shows "rs_reads (drain b st) = map (settle (rs_tags st)) (rs_reads st)
    \<and> map without_first_seen (rs_tags (drain b st)) = map (without_first_seen \<circ> sight (backlog st)) (rs_tags st)"
  using assms
proof (induction b st rule: drain.induct)
  case (1 b st)
  obtain n st' where run: "registrar_run_once b st = (n, st')" by fastforce
  define batch where "batch = take b (backlog st)"
  have drain: "drain b st = (if n = 0 \<or> n < b then st' else drain b st')" by (simp add: drain.simps [of b st] run)
  have untouched: "settle tags r = r" if "r \<in> set (rs_reads st) - set (backlog st)" for tags r
    using that by (auto simp: settle_def in_backlog)
  show ?case
  proof (cases "batch = []")
    case True
    then have "backlog st = []" using 1(2) by (simp add: batch_def)
    moreover have "n = 0" "st' = st" using run True by (auto simp: registrar_run_once_def fetch_backlog batch_def [symmetric])
    ultimately show ?thesis using untouched by (auto simp: drain sight_def sightings_def intro!: map_idI [symmetric])
  next
    case False
    have fetch: "fetch_unprocessed b st = batch" by (simp add: fetch_backlog batch_def)
    have n: "n = length batch" using run False by (auto simp: registrar_run_once_def fetch Let_def)
    note reads = pass_reads [OF run fetch False 1(3) 1(5)] and tags = pass_tags [OF run fetch False 1(4) 1(5)]
    show ?thesis
    proof (cases "n < b")
      case True
      then have "batch = backlog st" using n by (simp add: batch_def)
      then show ?thesis using True untouched by (auto simp: drain reads tags)
    next
      case more: False
      have b: "r \<in> set batch \<Longrightarrow> r \<in> set (backlog st)" for r by (auto simp: batch_def dest: in_set_takeD)
      have left: "set (backlog st) = set batch \<union> set (backlog st')"
        unfolding set_eq_iff Un_iff using b by (auto simp: in_backlog reads settle_def split: if_splits)
      have "rs_reads (drain b st') = map (settle (rs_tags st')) (rs_reads st')
          \<and> map without_first_seen (rs_tags (drain b st')) = map (without_first_seen \<circ> sight (backlog st')) (rs_tags st')"
        using False more n 1(2-5) by (intro 1(1) [OF HOL.refl run [symmetric]]) (auto simp: reads tags comp_def if_distrib [of rr_id] cong: if_cong)
      moreover have "settle (rs_tags st') (if r \<in> set batch then settle (rs_tags st) r else r) = settle (rs_tags st) r" for r
        by (simp add: tags settle_def owned_sight [OF 1(5)])
      ultimately show ?thesis using more False n by (simp add: drain) (simp add: reads tags sight_append [OF left])
    qed
  qed
qed

text \<open>C30: The queue of unsettled reads drains: a burst of passes with a batch size of at least one comes to an end, and then
  no stored read is unsettled and another pass does nothing.
\<close>
theorem burst_ends:
  assumes "0 < b"
  shows "backlog (drain b st) = [] \<and> registrar_run_once b (drain b st) = (0, drain b st)"
proof -
  have "backlog (drain b st) = []" using assms
  proof (induction b st rule: drain.induct)
    case (1 b st)
    obtain n st' where run: "registrar_run_once b st = (n, st')" by fastforce
    have drain: "drain b st = (if n = 0 \<or> n < b then st' else drain b st')" by (simp add: drain.simps [of b st] run)
    define batch where "batch = take b (backlog st)"
    show ?case
    proof (cases "batch = []")
      case True
      then have "backlog st = []" using 1(2) by (simp add: batch_def)
      moreover have "n = 0" "st' = st" using run True by (auto simp: registrar_run_once_def fetch_backlog batch_def [symmetric])
      moreover from drain have "drain b st = st'" unfolding \<open>n = 0\<close> by simp
      ultimately show ?thesis by simp
    next
      case False
      have fetch: "fetch_unprocessed b st = batch" by (simp add: fetch_backlog batch_def)
      have n: "n = length batch" using run False by (auto simp: registrar_run_once_def fetch Let_def)
      show ?thesis
      proof (cases "n < b")
        case True
        then have "batch = backlog st" using n by (simp add: batch_def)
        then show ?thesis using True
          by (auto simp: drain backlog_def filter_empty_conv run_once_reads [OF run fetch False HOL.refl] split: if_splits)
      next
        case more: False
        then show ?thesis using False n 1(2) 1(1) [OF HOL.refl run [symmetric]] by (simp add: drain)
      qed
    qed
  qed
  then show ?thesis by (simp add: registrar_run_once_def fetch_backlog)
qed

text \<open>C13: What a burst of the registrar leaves does not depend on how the reads fell into batches.  In a well-formed registry
  every unsettled read becomes known exactly if its tenant owns a tag with its normalised EPC that was registered or
  active at the start; every such tag that was read is active with the latest of its read times as last seen, and no
  other tag changes.  Only the first sighting is excepted: it is the latest read of the first batch that has one.
\<close>
theorem burst_does_not_depend_on_the_batches:
  assumes "0 < b" and "distinct (map rr_id (rs_reads st))" and "tags_ok (rs_tags st)"
  shows "rs_reads (drain b st) = map (settle (rs_tags st)) (rs_reads st)
    \<and> map without_first_seen (rs_tags (drain b st)) = map (without_first_seen \<circ> sight (backlog st)) (rs_tags st)"
  using assms drained [OF assms(1,2)] by (simp add: tags_ok_def)

section \<open>A burst on concrete rows\<close>

definition demo_read :: "uuid \<Rightarrow> string option \<Rightarrow> datetime \<Rightarrow> read_row" where
  "demo_read i e ts = \<lparr>rr_id = i, rr_tenant_id = 1, rr_epc_hex = e, rr_timestamp = ts, rr_known = None\<rparr>"

definition demo_registrar :: registrar where
  "demo_registrar = \<lparr>rs_reads = [demo_read 1 (Some demo_epc) 20, demo_read 2 None 30, demo_read 3 (Some demo_epc) 10], rs_tags = [demo_tag]\<rparr>"

theorem burst_ends_witness:
  "backlog (drain 2 demo_registrar) = [] \<and> registrar_run_once 2 (drain 2 demo_registrar) = (0, drain 2 demo_registrar)"
  by (rule burst_ends) simp

theorem burst_does_not_depend_on_the_batches_witness:
  "map rr_known (rs_reads (drain 2 demo_registrar)) = [Some True, Some False, Some True]
   \<and> map tg_status (rs_tags (drain 2 demo_registrar)) = [''active''] \<and> map tg_last_seen_at (rs_tags (drain 2 demo_registrar)) = [Some 20]"
proof -
  have reg: "rs_reads demo_registrar = [demo_read 1 (Some demo_epc) 20, demo_read 2 None 30, demo_read 3 (Some demo_epc) 10]"
    "rs_tags demo_registrar = [demo_tag]" by (simp_all add: demo_registrar_def)
  have keys: "read_key (demo_read i (Some demo_epc) ts) = Some (1, demo_epc)" "read_key (demo_read i None ts) = None" for i ts
    by (simp_all add: read_key_def demo_read_def demo_normal)
  have known: "rr_known (demo_read i e ts) = None" "rr_timestamp (demo_read i e ts) = ts" "rr_id (demo_read i e ts) = i" for i e ts
    by (simp_all add: demo_read_def)
  have tag: "tag_key demo_tag = (1, demo_epc)" by (simp add: tag_key_def)
  have ok: "tags_ok [demo_tag]" using demo_pattern demo_raw by (simp add: tags_ok_def tag_ok_def demo_tag_def new_tag_def TAG_STATUSES_def)
  have own: "owned [demo_tag] (demo_read i (Some demo_epc) ts)" "\<not> owned [demo_tag] (demo_read i None ts)" for i ts
    by (simp_all add: owned_def keys owned_by_def tag_index_def tag OWNING_STATUSES_def)
  have sightings: "sightings (backlog demo_registrar) demo_tag = {20, 10}"
    by (auto simp: sightings_def backlog_def reg known keys tag)
  have seen: "tg_last_seen_at demo_tag = None" by (simp add: demo_tag_def new_tag_def)
  have burst: "rs_reads (drain 2 demo_registrar) = map (settle (rs_tags demo_registrar)) (rs_reads demo_registrar)
    \<and> map without_first_seen (rs_tags (drain 2 demo_registrar)) = map (without_first_seen \<circ> sight (backlog demo_registrar)) (rs_tags demo_registrar)"
    using ok by (intro burst_does_not_depend_on_the_batches) (simp_all add: reg known)
  then have "map without_first_seen (rs_tags (drain 2 demo_registrar)) = [without_first_seen (sight (backlog demo_registrar) demo_tag)]" by (simp add: reg)
  then obtain t where t: "rs_tags (drain 2 demo_registrar) = [t]" "without_first_seen t = without_first_seen (sight (backlog demo_registrar) demo_tag)" by auto
  have "tg_status t = tg_status (without_first_seen t)" "tg_last_seen_at t = tg_last_seen_at (without_first_seen t)" by (simp_all add: without_first_seen_def)
  then have "tg_status t = ''active''" "tg_last_seen_at t = Some 20"
    unfolding t(2) by (simp_all add: without_first_seen_def sight_def sightings OWNING_STATUSES_def seen)
  then show ?thesis using burst by (simp add: t(1) reg settle_def known own)
qed

end
