(* ===== verification/FloorPosition.thy ===== *)
theory FloorPosition
  imports ConsolidationWorker Grouping
begin

text \<open>
  Indoor positions: the fusion of EPCs to assets (\<open>services/asset_fusion.py\<close>), the estimator
  (\<open>services/positioning.py\<close>), the pipeline over all tenants (\<open>services/floor_position_estimator.py\<close>,
  \<open>workers/floor_position_worker.py\<close>) and its sources (\<open>repositories/timescaledb/floor_position_source.py\<close>).
  Arithmetic is that of the reals: a decay is never zero, which a float can be after some thousand half lives.
\<close>

section \<open>From EPCs to assets\<close>

record fused_asset =
  fa_asset_id :: uuid
  fa_observed_epcs :: "string list"
  fa_active_tags :: "string list"

definition active_binding :: "uuid \<Rightarrow> string \<Rightarrow> binding_row \<Rightarrow> bool" where
  "active_binding tenant_id v b \<longleftrightarrow> bd_tenant_id b = tenant_id \<and> bd_value b = v \<and> bd_unbound_at b = None"

text \<open>\<open>resolve_asset\<close>: the owner of the one active binding.\<close>

definition resolve_asset :: "uuid \<Rightarrow> string \<Rightarrow> binding_row list \<Rightarrow> py_exn + uuid option" where
  "resolve_asset tenant_id epc bindings =
     map_sum id (map_option bd_asset_id) (scalar_one_or_none (filter (active_binding tenant_id epc) bindings))"

definition list_active_by_values :: "uuid \<Rightarrow> string list \<Rightarrow> binding_row list \<Rightarrow> binding_row list" where
  "list_active_by_values tenant_id values bindings =
     filter (\<lambda>b. bd_tenant_id b = tenant_id \<and> bd_value b \<in> set values \<and> bd_unbound_at b = None) bindings"

text \<open>\<open>bindings\<close> is in the order of \<open>bound_at\<close>, which \<open>list_for_asset\<close> returns backwards.\<close>

definition active_tags :: "uuid \<Rightarrow> uuid \<Rightarrow> binding_row list \<Rightarrow> string list" where
  "active_tags tenant_id asset_id bindings =
     map bd_value (filter (\<lambda>b. bd_kind b = ''epc'')
       (rev (filter (\<lambda>b. bd_tenant_id b = tenant_id \<and> bd_asset_id b = asset_id \<and> bd_unbound_at b = None) bindings)))"

definition first_seen_order :: "string list \<Rightarrow> string list" where
  "first_seen_order epcs = fold (\<lambda>epc seen. if epc \<in> set seen then seen else seen @ [epc]) epcs []"

definition group_by_asset :: "(string, uuid) pydict \<Rightarrow> string list \<Rightarrow> (uuid, string list) pydict" where
  "group_by_asset by_value epcs = group_into (\<lambda>epc. the (map_of by_value epc)) (filter (\<lambda>epc. map_of by_value epc \<noteq> None) epcs)"

definition fuse :: "uuid \<Rightarrow> string list \<Rightarrow> binding_row list \<Rightarrow> fused_asset list" where
  "fuse tenant_id epcs bindings =
     (let unique_epcs = first_seen_order epcs;
          by_value = fold (\<lambda>b. dict_set (bd_value b) (bd_asset_id b)) (list_active_by_values tenant_id unique_epcs bindings) []
      in map (\<lambda>(asset_id, observed). \<lparr>fa_asset_id = asset_id, fa_observed_epcs = observed, fa_active_tags = active_tags tenant_id asset_id bindings\<rparr>)
           (group_by_asset by_value unique_epcs))"

section \<open>The estimator\<close>

record position_strategy =
  ps_strategy :: string
  ps_half_life_s :: real
  ps_recompute_interval_s :: real
  ps_lookback_s :: real
  ps_min_antennas :: nat
  ps_rssi_floor_dbm :: real

record antenna_observation =
  ao_antenna_id :: uuid
  ao_x :: real
  ao_y :: real
  ao_rssi :: real
  ao_cnt :: int
  ao_ts :: datetime

record position_fix =
  pf_x :: real
  pf_y :: real
  pf_confidence :: real
  pf_antenna_count :: nat

definition geometry_confidence :: "nat \<Rightarrow> real" where
  "geometry_confidence distinct_antennas =
     (if distinct_antennas = 1 then 30 / 100 else if distinct_antennas = 2 then 45 / 100
      else min (80 / 100) (60 / 100 + 5 / 100 * (of_nat distinct_antennas - 3)))"

definition position_confidence :: "nat \<Rightarrow> real list \<Rightarrow> real" where
  "position_confidence distinct_antennas decays =
     (let freshness = (if distinct_antennas = 0 then 0 else sum_list decays / of_nat distinct_antennas)
      in round_nd 2 (max 0 (min 1 (geometry_confidence distinct_antennas * freshness))))"

definition contributes :: "position_strategy \<Rightarrow> datetime \<Rightarrow> antenna_observation \<Rightarrow> bool" where
  "contributes config now obs \<longleftrightarrow> \<not> ao_rssi obs < ps_rssi_floor_dbm config \<and> \<not> total_seconds (now - ao_ts obs) > ps_lookback_s config"

text \<open>The strongest observation per antenna, in the order in which the antennas appear.\<close>

definition keep_strongest ::
    "position_strategy \<Rightarrow> datetime \<Rightarrow> antenna_observation list \<Rightarrow> (uuid, antenna_observation) pydict" where
  "keep_strongest config now observations =
     fold (\<lambda>obs kept. if \<not> contributes config now obs then kept
       else case map_of kept (ao_antenna_id obs) of
           None \<Rightarrow> dict_set (ao_antenna_id obs) obs kept
         | Some prior \<Rightarrow> if ao_rssi obs > ao_rssi prior then dict_set (ao_antenna_id obs) obs kept else kept) observations []"

definition obs_decay :: "position_strategy \<Rightarrow> datetime \<Rightarrow> antenna_observation \<Rightarrow> real" where
  "obs_decay config now obs =
     (if ps_half_life_s config \<le> 0 then 1 else decay (total_seconds (now - ao_ts obs)) (ps_half_life_s config))"

definition obs_weight :: "position_strategy \<Rightarrow> datetime \<Rightarrow> real \<Rightarrow> antenna_observation \<Rightarrow> real" where
  "obs_weight config now rssi_min obs = (ao_rssi obs - rssi_min + 1) * obs_decay config now obs"

text \<open>A strategy wants at least one antenna, so that \<open>kept\<close> is not empty here.\<close>

definition contributing :: "position_strategy \<Rightarrow> antenna_observation list \<Rightarrow> antenna_observation list" where
  "contributing config kept =
     (if ps_half_life_s config \<le> 0 then (case kept of [] \<Rightarrow> [] | o1 # os \<Rightarrow> [max_by ao_ts o1 os]) else kept)"

definition rssi_weighted_centroid ::
    "antenna_observation list \<Rightarrow> datetime \<Rightarrow> position_strategy \<Rightarrow> position_fix option" where
  "rssi_weighted_centroid observations now config =
     (let kept = map snd (keep_strongest config now observations) in
      if length kept < ps_min_antennas config then None
      else
        (let kept = contributing config kept;
             rssi_min = Min (ao_rssi ` set kept);
             decays = map (obs_decay config now) kept;
             weights = map (obs_weight config now rssi_min) kept;
             w_total = sum_list weights
         in if w_total \<le> 0 then None
            else Some \<lparr>pf_x = sum_list (map2 (\<lambda>w o1. w * ao_x o1) weights kept) / w_total,
                       pf_y = sum_list (map2 (\<lambda>w o1. w * ao_y o1) weights kept) / w_total,
                       pf_confidence = position_confidence (length kept) decays, pf_antenna_count = length kept\<rparr>))"

section \<open>Sources\<close>

record floor_observation =
  fo_site_id :: uuid
  fo_asset_id :: uuid
  fo_obs :: antenna_observation

record raw_floor_read =
  rf_device_id :: uuid
  rf_port :: int
  rf_rssi :: real
  rf_epc :: string
  rf_ts :: datetime
  rf_epc_hex :: "string option"
  rf_read_count :: int

definition read_count_of :: "jobj option \<Rightarrow> py_exn + int" where
  "read_count_of sensor_data =
     (case sensor_data of
        None \<Rightarrow> Inr 1
      | Some d \<Rightarrow> if d = [] then Inr 1
          else (case jget d ''read_count'' of
              JInt n \<Rightarrow> Inr (if n \<ge> 1 then n else 1)
            | JFloat x \<Rightarrow> and_then (to_int (JFloat x)) (\<lambda>n. Inr (if n \<ge> 1 then n else 1))
            | _ \<Rightarrow> Inr 1))"

type_synonym antenna_index = "(uuid \<times> int, uuid \<times> real \<times> real) pydict"

definition resolve_antenna_xy :: "antenna_index \<Rightarrow> uuid \<Rightarrow> int \<Rightarrow> (uuid \<times> real \<times> real) option" where
  "resolve_antenna_xy index device_id port =
     (case map_of index (device_id, port) of Some hit \<Rightarrow> Some hit | None \<Rightarrow> map_of index (device_id, 0))"

definition observation_of_read ::
    "(uuid, uuid) pydict \<Rightarrow> antenna_index \<Rightarrow> (string, uuid) pydict \<Rightarrow> raw_floor_read \<Rightarrow> floor_observation option" where
  "observation_of_read device_site index epc_to_asset r =
     (case (case map_of epc_to_asset (rf_epc r) of
              Some a \<Rightarrow> Some a
            | None \<Rightarrow> (case rf_epc_hex r of None \<Rightarrow> None | Some h \<Rightarrow> map_of epc_to_asset h)) of
        None \<Rightarrow> None
      | Some asset_id \<Rightarrow> (case map_of device_site (rf_device_id r) of
          None \<Rightarrow> None
        | Some site_id \<Rightarrow> (case resolve_antenna_xy index (rf_device_id r) (rf_port r) of
            None \<Rightarrow> None
          | Some (antenna_id, x, y) \<Rightarrow>
              Some \<lparr>fo_site_id = site_id, fo_asset_id = asset_id,
                    fo_obs = \<lparr>ao_antenna_id = antenna_id, ao_x = x, ao_y = y, ao_rssi = rf_rssi r, ao_cnt = rf_read_count r, ao_ts = rf_ts r\<rparr>\<rparr>)))"

definition build_floor_observations ::
    "raw_floor_read list \<Rightarrow> (uuid, uuid) pydict \<Rightarrow> antenna_index \<Rightarrow> (string, uuid) pydict \<Rightarrow> floor_observation list" where
  "build_floor_observations reads device_site index epc_to_asset =
     List.map_filter (observation_of_read device_site index epc_to_asset) reads"

record site_row =
  si_id :: uuid
  si_tenant_id :: uuid
  si_coord_system :: "string option"

record floor_device =
  fd_id :: uuid
  fd_tenant_id :: uuid
  fd_mobility :: string
  fd_site_id :: "uuid option"

record antenna_row =
  an_id :: uuid
  an_device_id :: uuid
  an_port :: int
  an_x :: "real option"
  an_y :: "real option"

record floor_read =
  fr_tenant_id :: uuid
  fr_device_id :: uuid
  fr_reader_antenna :: "int option"
  fr_signal_strength :: "real option"
  fr_epc :: "string option"
  fr_epc_hex :: "string option"
  fr_timestamp :: datetime
  fr_sensor_data :: "jobj option"

record floor_tables =
  ft_sites :: "site_row list"
  ft_devices :: "floor_device list"
  ft_antennas :: "antenna_row list"
  ft_reads :: "floor_read list"
  ft_bindings :: "binding_row list"

definition floor_devices :: "floor_tables \<Rightarrow> uuid \<Rightarrow> (uuid, uuid) pydict" where
  "floor_devices db tenant_id =
     (let site_ids = map si_id (filter (\<lambda>s. si_tenant_id s = tenant_id \<and> si_coord_system s \<noteq> None) (ft_sites db))
      in fold (\<lambda>d devs. case fd_site_id d of
           Some s \<Rightarrow> if fd_tenant_id d = tenant_id \<and> fd_mobility d = ''fixed'' \<and> s \<in> set site_ids then dict_set (fd_id d) s devs else devs
         | None \<Rightarrow> devs) (ft_devices db) [])"

definition surveyed_antennas :: "floor_tables \<Rightarrow> uuid list \<Rightarrow> antenna_index" where
  "surveyed_antennas db device_ids =
     fold (\<lambda>a index. case (an_x a, an_y a) of
         (Some x, Some y) \<Rightarrow> if an_device_id a \<in> set device_ids then dict_set (an_device_id a, an_port a) (an_id a, x, y) index else index
       | _ \<Rightarrow> index) (ft_antennas db) []"

definition raw_read_of :: "floor_read \<Rightarrow> (py_exn + raw_floor_read) option" where
  "raw_read_of r =
     (case (fr_epc r, fr_signal_strength r, fr_reader_antenna r) of
        (Some epc, Some rssi, Some port) \<Rightarrow>
          Some (and_then (read_count_of (fr_sensor_data r)) (\<lambda>n.
            Inr \<lparr>rf_device_id = fr_device_id r, rf_port = port, rf_rssi = rssi, rf_epc = epc, rf_ts = fr_timestamp r,
                 rf_epc_hex = fr_epc_hex r, rf_read_count = n\<rparr>))
      | _ \<Rightarrow> None)"

definition floor_raw_reads :: "floor_tables \<Rightarrow> uuid \<Rightarrow> uuid list \<Rightarrow> datetime \<Rightarrow> py_exn + raw_floor_read list" where
  "floor_raw_reads db tenant_id device_ids since =
     map_res id (List.map_filter raw_read_of
       (filter (\<lambda>r. fr_tenant_id r = tenant_id \<and> fr_device_id r \<in> set device_ids \<and> fr_timestamp r \<ge> since) (ft_reads db)))"

definition epc_candidates :: "raw_floor_read list \<Rightarrow> string list" where
  "epc_candidates reads = filter (\<lambda>v. v \<noteq> []) (concat (map (\<lambda>r. rf_epc r # (case rf_epc_hex r of None \<Rightarrow> [] | Some h \<Rightarrow> [h])) reads))"

definition epc_to_asset :: "fused_asset list \<Rightarrow> (string, uuid) pydict" where
  "epc_to_asset fused = fold (\<lambda>fa. fold (\<lambda>epc. dict_set epc (fa_asset_id fa)) (fa_observed_epcs fa)) fused []"

definition recent_observations :: "floor_tables \<Rightarrow> uuid \<Rightarrow> datetime \<Rightarrow> py_exn + floor_observation list" where
  "recent_observations db tenant_id since =
     (let device_site = floor_devices db tenant_id; index = surveyed_antennas db (map fst device_site) in
      if device_site = [] \<or> index = [] then Inr []
      else and_then (floor_raw_reads db tenant_id (map fst device_site) since) (\<lambda>reads.
        Inr (build_floor_observations reads device_site index
          (epc_to_asset (fuse tenant_id (epc_candidates reads) (ft_bindings db))))))"

section \<open>The pipeline\<close>

record position_row =
  po_tenant_id :: uuid
  po_asset_id :: uuid
  po_site_id :: uuid
  po_time :: datetime
  po_x :: real
  po_y :: real
  po_confidence :: real
  po_source :: string
  po_metadata :: jobj

definition group_observations :: "floor_observation list \<Rightarrow> (uuid \<times> uuid, floor_observation list) pydict" where
  "group_observations observations = group_into (\<lambda>o1. (fo_site_id o1, fo_asset_id o1)) observations"

definition computed_position ::
    "uuid \<Rightarrow> position_strategy \<Rightarrow> datetime \<Rightarrow> (uuid \<times> uuid) \<times> floor_observation list \<Rightarrow> position_row option" where
  "computed_position tenant_id config now = (\<lambda>((site_id, asset_id), group).
     map_option (\<lambda>fix1. \<lparr>po_tenant_id = tenant_id, po_asset_id = asset_id, po_site_id = site_id, po_time = now,
         po_x = pf_x fix1, po_y = pf_y fix1, po_confidence = pf_confidence fix1, po_source = ''computed'',
         po_metadata = [(''strategy'', JStr (ps_strategy config)), (''antennas'', JInt (int (pf_antenna_count fix1))),
           (''half_life_s'', JFloat (Fin (ps_half_life_s config)))]\<rparr>)
       (rssi_weighted_centroid (map fo_obs group) now config))"

text \<open>\<open>now - timedelta(seconds=lookback_s)\<close> as in the consolidation worker: before the year 1 it raises.\<close>

definition floor_since :: "position_strategy \<Rightarrow> datetime \<Rightarrow> py_exn + datetime" where
  "floor_since config now =
     (let t = now - py_round (ps_lookback_s config * 1000000) in if t < DATETIME_MIN_US then Inl OverflowError else Inr t)"

definition floor_run_tenant :: "floor_tables \<Rightarrow> datetime \<Rightarrow> uuid \<times> position_strategy \<Rightarrow> py_exn + position_row list" where
  "floor_run_tenant db now = (\<lambda>(tenant_id, config).
     and_then (floor_since config now) (\<lambda>since.
     and_then (recent_observations db tenant_id since) (\<lambda>observations.
       Inr (List.map_filter (computed_position tenant_id config now) (group_observations observations)))))"

text \<open>One pass: the positions written, each in a transaction of its own, and the exception that ended the pass.
  \<open>validate\<close> stands for \<open>PositionStrategy.model_validate\<close>; a tenant whose strategy it rejects is skipped.\<close>

fun floor_run_tenants ::
    "floor_tables \<Rightarrow> datetime \<Rightarrow> (uuid \<times> position_strategy) list \<Rightarrow> position_row list \<Rightarrow> py_exn option \<times> position_row list" where
  "floor_run_tenants db now [] positions = (None, positions)"
| "floor_run_tenants db now (t # ts) positions =
     (case floor_run_tenant db now t of
        Inl e \<Rightarrow> (Some e, positions)
      | Inr rows \<Rightarrow> floor_run_tenants db now ts (positions @ rows))"

definition floor_tenants :: "(json \<Rightarrow> position_strategy option) \<Rightarrow> (uuid \<times> json option) list \<Rightarrow> (uuid \<times> position_strategy) list" where
  "floor_tenants validate tenants =
     List.map_filter (\<lambda>(tenant_id, raw). case raw of None \<Rightarrow> None | Some j \<Rightarrow> map_option (Pair tenant_id) (validate j)) tenants"

definition floor_run_once ::
    "(json \<Rightarrow> position_strategy option) \<Rightarrow> floor_tables \<Rightarrow> (uuid \<times> json option) list \<Rightarrow> datetime \<Rightarrow> position_row list
      \<Rightarrow> py_exn option \<times> position_row list" where
  "floor_run_once validate db tenants now positions = floor_run_tenants db now (floor_tenants validate tenants) positions"

section \<open>The strongest observation per antenna\<close>

lemma keep_strongest_snoc:
  "keep_strongest config now (xs @ [obs]) =
    (if \<not> contributes config now obs then keep_strongest config now xs
     else case map_of (keep_strongest config now xs) (ao_antenna_id obs) of
         None \<Rightarrow> dict_set (ao_antenna_id obs) obs (keep_strongest config now xs)
       | Some prior \<Rightarrow> if ao_rssi obs > ao_rssi prior then dict_set (ao_antenna_id obs) obs (keep_strongest config now xs)
           else keep_strongest config now xs)"
  unfolding keep_strongest_def fold_append by (simp only: fold.simps comp_def id_def)

lemma keep_strongest_wf: "wf_dict (keep_strongest config now observations)"
  by (induction observations rule: rev_induct) (simp_all add: keep_strongest_snoc keep_strongest_def split: option.split)

lemma keep_strongest_None:
  "map_of (keep_strongest config now observations) a = None \<longleftrightarrow> a \<notin> ao_antenna_id ` set (filter (contributes config now) observations)"
  by (induction observations rule: rev_induct)
    (auto simp: keep_strongest_snoc map_of_set keep_strongest_def [of _ _ "[]"] split: option.split if_splits)

lemma keep_strongest_Some:
  "map_of (keep_strongest config now observations) a = Some best \<Longrightarrow>
     best \<in> set (filter (contributes config now) observations) \<and> ao_antenna_id best = a
     \<and> (\<forall>o1 \<in> set (filter (contributes config now) observations). ao_antenna_id o1 = a \<longrightarrow> ao_rssi o1 \<le> ao_rssi best)"
proof (induction observations arbitrary: best rule: rev_induct)
  case (snoc obs xs)
  show ?case
  proof (cases "contributes config now obs \<and> a = ao_antenna_id obs")
    case False
    then have "map_of (keep_strongest config now xs) a = Some best"
      using snoc.prems by (auto simp: keep_strongest_snoc map_of_set split: option.splits if_splits)
    then show ?thesis using snoc.IH [of best] False by auto
  next
    case here: True
    show ?thesis
    proof (cases "map_of (keep_strongest config now xs) a")
      case None
      then have "best = obs" using snoc.prems here by (simp add: keep_strongest_snoc map_of_set)
      then show ?thesis using here None [unfolded keep_strongest_None] by (auto simp: image_iff)
    next
      case (Some prior)
      then have "best = (if ao_rssi obs > ao_rssi prior then obs else prior)"
        using snoc.prems here by (simp add: keep_strongest_snoc map_of_set split: if_splits)
      then show ?thesis using snoc.IH [OF Some] here by (auto intro: order_trans less_imp_le)
    qed
  qed
qed (simp add: keep_strongest_def)

lemma kept_observations:
  shows "set (map snd (keep_strongest config now observations)) \<subseteq> set (filter (contributes config now) observations)"
    and "length (keep_strongest config now observations) = card (ao_antenna_id ` set (filter (contributes config now) observations))"
proof -
  let ?k = "keep_strongest config now observations"
  show "set (map snd ?k) \<subseteq> set (filter (contributes config now) observations)"
  proof
    fix o1 assume "o1 \<in> set (map snd ?k)"
    then obtain a where "map_of ?k a = Some o1" using keep_strongest_wf [of config now observations] by (auto intro: map_of_is_SomeI)
    then show "o1 \<in> set (filter (contributes config now) observations)" using keep_strongest_Some by blast
  qed
  have "length ?k = card (fst ` set ?k)" using distinct_card [OF keep_strongest_wf [of config now observations]] by simp
  also have "fst ` set ?k = ao_antenna_id ` set (filter (contributes config now) observations)"
  proof (rule set_eqI)
    fix a
    show "a \<in> fst ` set ?k \<longleftrightarrow> a \<in> ao_antenna_id ` set (filter (contributes config now) observations)"
      using keep_strongest_None [of config now observations a] map_of_eq_None_iff [of ?k a] by metis
  qed
  finally show "length ?k = card (ao_antenna_id ` set (filter (contributes config now) observations))" .
qed

section \<open>Weights\<close>

lemma decay_unit: "0 < obs_decay config now o1 \<and> obs_decay config now o1 \<le> 1"
proof -
  have "0 < decay t h \<and> decay t h \<le> 1" if "0 < h" for t h
  proof -
    have "(1 / 2) powr (max 0 t / h) \<le> (1 / 2 :: real) powr 0" using that by (intro powr_mono') auto
    then show ?thesis by (simp add: decay_def)
  qed
  then show ?thesis by (simp add: obs_decay_def)
qed

lemma contributing_Nil: "contributing config kept = [] \<longleftrightarrow> kept = []"
  by (simp add: contributing_def split: list.split)

lemma contributing_Cons: "contributing config (o1 # os) = (if ps_half_life_s config \<le> 0 then [max_by ao_ts o1 os] else o1 # os)"
  by (simp add: contributing_def)

lemma contributing_sub: "set (contributing config kept) \<subseteq> set kept"
proof (cases kept)
  case (Cons o1 os)
  then show ?thesis using max_by_props [of ao_ts o1 os] by (simp add: contributing_Cons)
qed (use contributing_Nil [of config "[]"] in simp)

lemma sum_list_positive: "xs \<noteq> [] \<Longrightarrow> (\<And>x. x \<in> set xs \<Longrightarrow> 0 < f x) \<Longrightarrow> 0 < sum_list (map f xs)" for f :: "'a \<Rightarrow> real"
proof (induction xs rule: list_nonempty_induct)
  case (cons x xs)
  then have "0 < f x" "0 < sum_list (map f xs)" by simp_all
  then show ?case by simp
qed simp

lemma weight_positive:
  assumes "o1 \<in> set kept"
  shows "0 < obs_weight config now (Min (ao_rssi ` set kept)) o1"
proof -
  have "Min (ao_rssi ` set kept) \<le> ao_rssi o1" using assms by (intro Min_le) auto
  then show ?thesis unfolding obs_weight_def using decay_unit [of config now o1] by (intro mult_pos_pos) auto
qed

lemma map2_self: "map2 g (map f xs) xs = map (\<lambda>x. g (f x) x) xs"
  by (induction xs) simp_all

text \<open>The fix, with the observations that carry it named.\<close>

lemma centroid_cases:
  fixes config now observations
  defines "kept \<equiv> map snd (keep_strongest config now observations)"
  defines "used \<equiv> contributing config kept"
  defines "weighted f \<equiv> weighted_mean (map (\<lambda>o1. (f o1, obs_weight config now (Min (ao_rssi ` set used)) o1)) used)"
  shows "rssi_weighted_centroid observations now config =
    (if kept = [] \<or> length kept < ps_min_antennas config then None
     else Some \<lparr>pf_x = the (weighted ao_x), pf_y = the (weighted ao_y),
                pf_confidence = position_confidence (length used) (map (obs_decay config now) used), pf_antenna_count = length used\<rparr>)"
    and "kept \<noteq> [] \<Longrightarrow> weighted f \<noteq> None"
proof -
  let ?w = "map (obs_weight config now (Min (ao_rssi ` set used))) used"
  have pos: "0 < sum_list ?w" if "used \<noteq> []"
    using that weight_positive [of _ used config now] by (intro sum_list_positive)
  have "used = [] \<longleftrightarrow> kept = []" unfolding used_def by (rule contributing_Nil)
  moreover have w: "weighted f = (if sum_list ?w \<le> 0 then None else Some (sum_list (map2 (\<lambda>w o1. w * f o1) ?w used) / sum_list ?w))" for f
    unfolding weighted_def weighted_mean_def Let_def map2_self by (simp add: comp_def mult.commute)
  ultimately show "kept \<noteq> [] \<Longrightarrow> weighted f \<noteq> None" using pos by simp
  show "rssi_weighted_centroid observations now config =
    (if kept = [] \<or> length kept < ps_min_antennas config then None
     else Some \<lparr>pf_x = the (weighted ao_x), pf_y = the (weighted ao_y),
                pf_confidence = position_confidence (length used) (map (obs_decay config now) used), pf_antenna_count = length used\<rparr>)"
    using pos \<open>used = [] \<longleftrightarrow> kept = []\<close>
    unfolding rssi_weighted_centroid_def Let_def kept_def [symmetric] used_def [symmetric] w
    by (auto simp: sum_list_nonpos)
qed

section \<open>Fusion is resolution\<close>

lemma fold_dict_of:
  assumes "\<And>x. x \<in> set xs \<Longrightarrow> g (f x) = Some (h x)"
  shows "map_of (fold (\<lambda>x. dict_set (f x) (h x)) xs d) k = (if k \<in> f ` set xs then g k else map_of d k)"
  using assms by (induction xs arbitrary: d) auto

lemma fold_dict_of2:
  assumes "\<And>x e. x \<in> set xs \<Longrightarrow> e \<in> set (es x) \<Longrightarrow> g e = Some (h x)"
  shows "map_of (fold (\<lambda>x. fold (\<lambda>e. dict_set e (h x)) (es x)) xs d) k = (if \<exists>x\<in>set xs. k \<in> set (es x) then g k else map_of d k)"
  using assms
proof (induction xs arbitrary: d)
  case (Cons x xs)
  have "map_of (fold (\<lambda>e. dict_set e (h x)) (es x) d) k = (if k \<in> set (es x) then g k else map_of d k)"
    using fold_dict_of [of "es x" g "\<lambda>e. e" "\<lambda>e. h x" d k] Cons.prems [of x] by simp
  then show ?case using Cons by simp
qed simp

lemma set_first_seen [simp]: "set (first_seen_order epcs) = set epcs"
proof -
  have "set (fold (\<lambda>epc seen. if epc \<in> set seen then seen else seen @ [epc]) epcs acc) = set acc \<union> set epcs" for acc
    by (induction epcs arbitrary: acc) auto
  then show ?thesis by (simp add: first_seen_order_def)
qed

lemma epc_to_asset_fuse:
  defines "by_value tenant_id epcs bindings \<equiv> map_of (fold (\<lambda>b. dict_set (bd_value b) (bd_asset_id b))
    (list_active_by_values tenant_id (first_seen_order epcs) bindings) [])"
  shows "map_of (epc_to_asset (fuse tenant_id epcs bindings)) e = (if e \<in> set epcs then by_value tenant_id epcs bindings e else None)"
proof -
  define g where "g = by_value tenant_id epcs bindings"
  let ?fused = "fuse tenant_id epcs bindings"
  have fused: "(\<exists>t. \<lparr>fa_asset_id = a, fa_observed_epcs = es, fa_active_tags = t\<rparr> \<in> set ?fused)
      \<longleftrightarrow> es = filter (\<lambda>e. g e = Some a) (first_seen_order epcs) \<and> es \<noteq> []" for a es
  proof -
    let ?d = "fold (\<lambda>b. dict_set (bd_value b) (bd_asset_id b)) (list_active_by_values tenant_id (first_seen_order epcs) bindings) []"
    have d: "map_of ?d = g" by (simp add: g_def by_value_def)
    have "(\<exists>t. \<lparr>fa_asset_id = a, fa_observed_epcs = es, fa_active_tags = t\<rparr> \<in> set ?fused)
        \<longleftrightarrow> (a, es) \<in> set (group_by_asset ?d (first_seen_order epcs))"
      unfolding fuse_def Let_def set_map by (force simp: image_iff)
    moreover have "filter (\<lambda>e. the (g e) = a) (filter (\<lambda>e. g e \<noteq> None) (first_seen_order epcs)) = filter (\<lambda>e. g e = Some a) (first_seen_order epcs)"
      unfolding filter_filter by (rule filter_cong) auto
    ultimately show ?thesis unfolding group_by_asset_def group_entry d by simp
  qed
  have of_fused: "fa_observed_epcs fa = filter (\<lambda>e. g e = Some (fa_asset_id fa)) (first_seen_order epcs)" if "fa \<in> set ?fused" for fa
  proof -
    have "\<lparr>fa_asset_id = fa_asset_id fa, fa_observed_epcs = fa_observed_epcs fa, fa_active_tags = fa_active_tags fa\<rparr> = fa"
      by (cases fa) simp
    then show ?thesis using fused that by metis
  qed
  have sound: "g e' = Some (fa_asset_id fa)" if "fa \<in> set ?fused" "e' \<in> set (fa_observed_epcs fa)" for fa e'
    using that of_fused by simp
  have complete: "(\<exists>fa \<in> set ?fused. e \<in> set (fa_observed_epcs fa)) \<longleftrightarrow> e \<in> set epcs \<and> g e \<noteq> None"
  proof
    assume "\<exists>fa \<in> set ?fused. e \<in> set (fa_observed_epcs fa)"
    then obtain fa where fa: "fa \<in> set ?fused" "e \<in> set (fa_observed_epcs fa)" by auto
    then show "e \<in> set epcs \<and> g e \<noteq> None"
      using sound [OF fa] of_fused [OF fa(1)] by simp
  next
    assume e: "e \<in> set epcs \<and> g e \<noteq> None"
    then obtain a where a: "g e = Some a" by auto
    let ?es = "filter (\<lambda>e. g e = Some a) (first_seen_order epcs)"
    have "e \<in> set ?es" using e a by simp
    then have "?es \<noteq> []" by (metis empty_iff list.set(1))
    then obtain t where "\<lparr>fa_asset_id = a, fa_observed_epcs = ?es, fa_active_tags = t\<rparr> \<in> set ?fused" using fused by blast
    then show "\<exists>fa \<in> set ?fused. e \<in> set (fa_observed_epcs fa)" using \<open>e \<in> set ?es\<close> by (metis fused_asset.select_convs(2))
  qed
  have "map_of (epc_to_asset ?fused) e = (if \<exists>fa\<in>set ?fused. e \<in> set (fa_observed_epcs fa) then g e else map_of [] e)"
    unfolding epc_to_asset_def using sound by (intro fold_dict_of2)
  then show ?thesis using complete by (auto simp: g_def)
qed

section \<open>What a fix says\<close>

text \<open>C28: Fusing a batch of EPCs and resolving each of them alone agree: if a tenant binds an EPC to at most one asset at a
  time, then the map from EPCs to assets that the indoor pipeline builds from a fused batch has for every EPC of the
  batch the owner that \<open>resolve_asset\<close> returns, none where there is none; no EPC is lost to another asset.
\<close>
theorem fusion_is_resolution:
  assumes "distinct (map bd_value (filter (\<lambda>b. bd_tenant_id b = tenant_id \<and> bd_unbound_at b = None) bindings))" and "e \<in> set epcs"
  shows "resolve_asset tenant_id e bindings = Inr (map_of (epc_to_asset (fuse tenant_id epcs bindings)) e)"
proof -
  let ?active = "filter (\<lambda>b. bd_tenant_id b = tenant_id \<and> bd_unbound_at b = None) bindings"
  let ?by_value = "fold (\<lambda>b. dict_set (bd_value b) (bd_asset_id b)) (list_active_by_values tenant_id (first_seen_order epcs) bindings) []"
  have mine: "filter (active_binding tenant_id v) bindings = filter (\<lambda>b. bd_value b = v) ?active" for v
    unfolding filter_filter active_binding_def by (rule filter_cong) auto
  have unique: "b = b'" if "b \<in> set ?active" "b' \<in> set ?active" "bd_value b = bd_value b'" for b b'
    using assms(1) that unfolding distinct_map by (meson inj_onD)
  define g where "g v = (case filter (active_binding tenant_id v) bindings of [] \<Rightarrow> None | b # bs \<Rightarrow> Some (bd_asset_id b))" for v
  have at_most_one: "length (filter (\<lambda>b. bd_value b = v) xs) \<le> 1" if "distinct (map bd_value xs)" for v xs
    using that by (induction xs) (auto simp: filter_empty_conv image_iff)
  have g: "g (bd_value b) = Some (bd_asset_id b)" if b: "b \<in> set ?active" for b
  proof -
    have "b \<in> set (filter (active_binding tenant_id (bd_value b)) bindings)" using b by (simp add: active_binding_def)
    moreover have "length (filter (active_binding tenant_id (bd_value b)) bindings) \<le> 1" unfolding mine using assms(1) by (rule at_most_one)
    ultimately have "filter (active_binding tenant_id (bd_value b)) bindings = [b]"
      by (cases "filter (active_binding tenant_id (bd_value b)) bindings") auto
    then show ?thesis by (simp add: g_def)
  qed
  have resolved: "resolve_asset tenant_id e bindings = Inr (g e)"
  proof -
    have "length (filter (active_binding tenant_id e) bindings) \<le> 1" unfolding mine using assms(1) by (rule at_most_one)
    then show ?thesis unfolding resolve_asset_def g_def scalar_one_or_none_def
      by (cases "filter (active_binding tenant_id e) bindings"; cases "tl (filter (active_binding tenant_id e) bindings)") auto
  qed
  have "map_of ?by_value e = (if e \<in> bd_value ` set (list_active_by_values tenant_id (first_seen_order epcs) bindings) then g e else map_of [] e)"
    using g by (intro fold_dict_of) (auto simp: list_active_by_values_def)
  moreover have "g e = None" if "e \<notin> bd_value ` set (list_active_by_values tenant_id (first_seen_order epcs) bindings)"
  proof -
    have "filter (active_binding tenant_id e) bindings = []"
      using that assms(2) by (auto simp: list_active_by_values_def active_binding_def filter_empty_conv image_iff)
    then show ?thesis by (simp add: g_def)
  qed
  ultimately show ?thesis unfolding resolved epc_to_asset_fuse using assms(2) by simp
qed

lemma confidence_bounds:
  assumes "\<And>d. d \<in> set decays \<Longrightarrow> d \<le> 1" and "length decays = n"
  shows "0 \<le> position_confidence n decays \<and> position_confidence n decays \<le> 4 / 5"
proof -
  define f where "f = (if n = 0 then 0 else sum_list decays / of_nat n)"
  have "sum_list decays \<le> of_nat (length decays)" using assms(1) by (induction decays) force+
  then have f: "f \<le> 1" using assms(2) by (simp add: f_def divide_simps)
  have g: "geometry_confidence n \<le> 4 / 5" "n \<noteq> 0 \<Longrightarrow> 0 \<le> geometry_confidence n" by (auto simp: geometry_confidence_def min_def field_simps)
  have "geometry_confidence n * f \<le> 4 / 5"
  proof (cases "n = 0 \<or> f \<le> 0")
    case True
    then have "geometry_confidence n * f \<le> 0" using mult_nonneg_nonpos [of "geometry_confidence n" f] g(2) by (cases "n = 0") (simp_all add: f_def)
    then show ?thesis by simp
  next
    case False
    then show ?thesis using g f mult_mono [of "geometry_confidence n" "4 / 5" f 1] by simp
  qed
  then have "max 0 (min 1 (geometry_confidence n * f)) * 10 ^ 2 \<le> of_int 80" by simp
  then have "py_round (max 0 (min 1 (geometry_confidence n * f)) * 10 ^ 2) \<le> 80" by (rule py_round_le_int)
  moreover have "0 \<le> py_round (max 0 (min 1 (geometry_confidence n * f)) * 10 ^ 2)" by (intro py_round_ge_int) simp
  ultimately show ?thesis by (simp add: position_confidence_def round_nd_def Let_def f_def)
qed

lemma centroid_None:
  "rssi_weighted_centroid observations now config = None \<longleftrightarrow>
     (let n = card (ao_antenna_id ` set (filter (contributes config now) observations)) in n = 0 \<or> n < ps_min_antennas config)"
proof -
  have "keep_strongest config now observations = [] \<longleftrightarrow> card (ao_antenna_id ` set (filter (contributes config now) observations)) = 0"
    unfolding kept_observations(2) [symmetric] by simp
  then show ?thesis using kept_observations(2) [of config now observations] by (simp add: centroid_cases(1) Let_def)
qed

text \<open>An asset gets a position exactly if some antenna heard it, loud and recently enough, and the distinct antennas
  that did are at least \<open>min_antennas\<close>: the check of the total weight never drops a fix.
\<close>
theorem position_exists_iff:
  "rssi_weighted_centroid observations now config \<noteq> None \<longleftrightarrow>
     (let antennas = ao_antenna_id ` set (filter (contributes config now) observations)
      in antennas \<noteq> {} \<and> ps_min_antennas config \<le> card antennas)"
  by (auto simp: centroid_None Let_def)

text \<open>A position is never extrapolated and its confidence is honest: both coordinates lie between those of the antennas
  that heard the asset loud and recently enough, the confidence is between 0 and 0.8, and no more antennas are counted
  than heard it.
\<close>
theorem position_among_the_antennas:
  assumes "rssi_weighted_centroid observations now config = Some found"
  shows "let heard = set (filter (contributes config now) observations)
    in Min (ao_x ` heard) \<le> pf_x found \<and> pf_x found \<le> Max (ao_x ` heard) \<and> Min (ao_y ` heard) \<le> pf_y found \<and> pf_y found \<le> Max (ao_y ` heard)
       \<and> 0 \<le> pf_confidence found \<and> pf_confidence found \<le> 4 / 5 \<and> 1 \<le> pf_antenna_count found \<and> pf_antenna_count found \<le> card (ao_antenna_id ` heard)"
proof -
  let ?heard = "set (filter (contributes config now) observations)"
  define kept where "kept = map snd (keep_strongest config now observations)"
  define used where "used = contributing config kept"
  define weighted where "weighted f = weighted_mean (map (\<lambda>o1. (f o1, obs_weight config now (Min (ao_rssi ` set used)) o1)) used)" for f
  note cases = centroid_cases [where observations = observations and now = now and config = config, folded kept_def, folded used_def, folded weighted_def]
  have kept: "kept \<noteq> []" and found: "found = \<lparr>pf_x = the (weighted ao_x), pf_y = the (weighted ao_y),
      pf_confidence = position_confidence (length used) (map (obs_decay config now) used), pf_antenna_count = length used\<rparr>"
    using assms unfolding cases(1) by (auto split: if_splits)
  have sub: "set used \<subseteq> ?heard" using contributing_sub [of config kept] kept_observations(1) [of config now observations] unfolding used_def kept_def by blast
  have between: "Min (f ` ?heard) \<le> the (weighted f) \<and> the (weighted f) \<le> Max (f ` ?heard)" for f
  proof (rule weighted_mean_between)
    show "weighted_mean (map (\<lambda>o1. (f o1, obs_weight config now (Min (ao_rssi ` set used)) o1)) used) = Some (the (weighted f))"
      using cases(2) [OF kept, of f] unfolding weighted_def by simp
    show "\<forall>(v, w)\<in>set (map (\<lambda>o1. (f o1, obs_weight config now (Min (ao_rssi ` set used)) o1)) used). 0 \<le> w \<and> Min (f ` ?heard) \<le> v \<and> v \<le> Max (f ` ?heard)"
      using sub weight_positive [of _ used config now] by (auto intro: less_imp_le intro!: Min_le Max_ge)
  qed
  have "0 \<le> pf_confidence found \<and> pf_confidence found \<le> 4 / 5"
    unfolding found using confidence_bounds [of "map (obs_decay config now) used"] decay_unit by auto
  moreover have "length used \<le> length kept" unfolding used_def by (cases kept) (simp_all add: contributing_Cons contributing_Nil)
  moreover have "used \<noteq> []" unfolding used_def contributing_Nil by (rule kept)
  ultimately show ?thesis
    using between [of ao_x] between [of ao_y] kept_observations(2) [of config now observations] by (simp add: found kept_def Let_def Suc_le_eq)
qed

section \<open>Witnesses\<close>

definition demo_obs :: "uuid \<Rightarrow> real \<Rightarrow> real \<Rightarrow> antenna_observation" where
  "demo_obs a x rssi = \<lparr>ao_antenna_id = a, ao_x = x, ao_y = 0, ao_rssi = rssi, ao_cnt = 1, ao_ts = 0\<rparr>"

definition demo_strategy :: position_strategy where
  "demo_strategy = \<lparr>ps_strategy = ''rssi_weighted_centroid'', ps_half_life_s = 0, ps_recompute_interval_s = 5, ps_lookback_s = 60,
     ps_min_antennas = 1, ps_rssi_floor_dbm = - 80\<rparr>"

theorem position_among_the_antennas_witness:
  "\<exists>found. rssi_weighted_centroid [demo_obs 1 0 (- 60), demo_obs 2 4 (- 90)] 0 demo_strategy = Some found \<and> pf_x found = 0 \<and> pf_confidence found \<le> 4 / 5"
proof -
  let ?o = "[demo_obs 1 0 (- 60), demo_obs 2 4 (- 90)]"
  have heard: "filter (contributes demo_strategy 0) ?o = [demo_obs 1 0 (- 60)]"
    by (simp add: contributes_def demo_obs_def demo_strategy_def total_seconds_def)
  have "rssi_weighted_centroid ?o 0 demo_strategy \<noteq> None" unfolding centroid_None heard by (simp add: demo_strategy_def)
  then obtain found where found: "rssi_weighted_centroid ?o 0 demo_strategy = Some found" by auto
  have "pf_x found = 0 \<and> pf_confidence found \<le> 4 / 5"
    using position_among_the_antennas [OF found] unfolding heard by (simp add: demo_obs_def)
  with found show ?thesis by blast
qed

definition demo_binding :: "uuid \<Rightarrow> string \<Rightarrow> datetime option \<Rightarrow> binding_row" where
  "demo_binding a v u = \<lparr>bd_tenant_id = 1, bd_asset_id = a, bd_value = v, bd_kind = ''epc'', bd_unbound_at = u\<rparr>"

text \<open>An EPC that moved from one asset to another belongs to the second.\<close>

theorem fusion_is_resolution_witness:
  "map_of (epc_to_asset (fuse 1 [''AA'', ''BB'', ''AA''] [demo_binding 7 ''AA'' (Some 3), demo_binding 8 ''AA'' None])) ''AA'' = Some 8"
proof -
  let ?bs = "[demo_binding 7 ''AA'' (Some 3), demo_binding 8 ''AA'' None]"
  have "resolve_asset 1 ''AA'' ?bs = Inr (map_of (epc_to_asset (fuse 1 [''AA'', ''BB'', ''AA''] ?bs)) ''AA'')"
    by (rule fusion_is_resolution) (simp_all add: demo_binding_def)
  moreover have "resolve_asset 1 ''AA'' ?bs = Inr (Some 8)"
    by (simp add: resolve_asset_def active_binding_def demo_binding_def scalar_one_or_none_def)
  ultimately show ?thesis by simp
qed

text \<open>A pass over a tenant writes at most one position per site and asset, all of them for that tenant and at the time
  of the pass.
\<close>
theorem one_position_per_site_and_asset:
  "case floor_run_tenant db now (tenant_id, config) of Inl e \<Rightarrow> True
   | Inr rows \<Rightarrow> distinct (map (\<lambda>p. (po_site_id p, po_asset_id p)) rows) \<and> list_all (\<lambda>p. po_tenant_id p = tenant_id \<and> po_time p = now) rows"
proof -
  have "distinct (map (\<lambda>p. (po_site_id p, po_asset_id p)) (List.map_filter (computed_position tenant_id config now) gs))"
    and "list_all (\<lambda>p. po_tenant_id p = tenant_id \<and> po_time p = now) (List.map_filter (computed_position tenant_id config now) gs)"
    if "wf_dict gs" for gs
  proof -
    have key: "computed_position tenant_id config now g = Some p \<Longrightarrow> (po_site_id p, po_asset_id p) = fst g \<and> po_tenant_id p = tenant_id \<and> po_time p = now" for g p
      by (auto simp: computed_position_def split: prod.splits)
    have sub: "(\<lambda>p. (po_site_id p, po_asset_id p)) ` set (List.map_filter (computed_position tenant_id config now) gs) \<subseteq> fst ` set gs" for gs
      using key by (induction gs) (auto simp: map_filter_simps split: option.splits)
    show "distinct (map (\<lambda>p. (po_site_id p, po_asset_id p)) (List.map_filter (computed_position tenant_id config now) gs))"
      using that
    proof (induction gs)
      case (Cons g gs)
      then show ?case using key [of g] sub [of gs] by (auto simp: map_filter_simps split: option.split)
    qed (simp add: map_filter_simps)
    show "list_all (\<lambda>p. po_tenant_id p = tenant_id \<and> po_time p = now) (List.map_filter (computed_position tenant_id config now) gs)"
      by (induction gs) (auto simp: map_filter_simps dest: key split: option.split)
  qed
  moreover have "wf_dict (group_observations os)" for os unfolding group_observations_def using distinct_group by auto
  ultimately show ?thesis by (auto simp: floor_run_tenant_def and_then_def split: sum.splits)
qed

end
