(* ===== verification/Dwell.thy ===== *)
theory Dwell
  imports Evaluator UsageMeter PyTime Grouping "HOL-Library.Multiset"
begin

text \<open>
  How long a subject has been in its zone (\<open>workers/dwell_worker.py\<close>): the tracker of the current zones, which writes
  through to the table \<open>subject_current_zone\<close> and is rebuilt from it at a start, and the worker that raises an alert when
  a stay exceeds the threshold of a rule.  A pass is one transaction on the alerts; marks of cooldowns, counters and
  published events outlive an exception.  Keys of dictionaries are texts in every event that the program publishes; two
  JSON numbers that are equal only across their kinds are different keys here.
\<close>

section \<open>State\<close>

record current_zone_row =
  cz_tenant_id :: uuid
  cz_subject_kind :: string
  cz_subject_id :: uuid
  cz_zone_id :: "uuid option"
  cz_zone_kind :: "string option"
  cz_entered_at :: datetime
  cz_updated_at :: datetime

record dwell =
  dw_state :: "(uuid \<times> json, json \<times> datetime \<times> json) pydict"
  dw_last_alert :: "(uuid \<times> uuid \<times> json, datetime) pydict"
  dw_table :: "current_zone_row list"
  dw_alerts :: "alert list"
  dw_meter :: UsageMeter.meter
  dw_published :: "alert_event list"

record dwell_env =
  de_now :: datetime
  de_fromisoformat :: "string \<Rightarrow> datetime option" \<comment> \<open>\<open>None\<close>: \<open>ValueError\<close>; the timestamps of events carry a time zone\<close>
  de_tenants :: "uuid list"
  de_rules :: "rule list"
  de_uuid4 :: "nat \<Rightarrow> uuid"

definition fresh_tracker :: dwell where
  "fresh_tracker = \<lparr>dw_state = [], dw_last_alert = [], dw_table = [], dw_alerts = [], dw_meter = new_meter, dw_published = []\<rparr>"

section \<open>The tracker\<close>

definition same_subject :: "current_zone_row \<Rightarrow> current_zone_row \<Rightarrow> bool" where
  "same_subject r s \<longleftrightarrow> cz_tenant_id r = cz_tenant_id s \<and> cz_subject_kind r = cz_subject_kind s \<and> cz_subject_id r = cz_subject_id s"

text \<open>\<open>INSERT ... ON CONFLICT DO UPDATE\<close> on the three key columns.\<close>

fun upsert_zone :: "current_zone_row \<Rightarrow> current_zone_row list \<Rightarrow> current_zone_row list" where
  "upsert_zone row [] = [row]"
| "upsert_zone row (r # rs) = (if same_subject row r then row # rs else r # upsert_zone row rs)"

text \<open>A text of at most 32 characters, or what the database rejects.\<close>

fun short_text :: "json \<Rightarrow> py_exn + string" where
  "short_text (JStr s) = (if length s \<le> 32 then Inr s else Inl (OtherError ''DBAPIError''))"
| "short_text _ = Inl (OtherError ''DBAPIError'')"

definition zone_row_of :: "dwell_env \<Rightarrow> uuid \<Rightarrow> json \<Rightarrow> json \<Rightarrow> json \<Rightarrow> json \<Rightarrow> datetime \<Rightarrow> py_exn + current_zone_row" where
  "zone_row_of env tenant_id subject_kind subject_id zone_id zone_kind entered_at =
     and_then (uuid_of_json subject_id) (\<lambda>sid.
     and_then (if truthy zone_id then map_sum id Some (uuid_of_json zone_id) else Inr None) (\<lambda>zid.
     and_then (short_text (or_json subject_kind (JStr ''unknown''))) (\<lambda>kind.
     and_then (if zone_kind = JNull then Inr None else map_sum id Some (short_text zone_kind)) (\<lambda>zkind.
       if tenant_id \<notin> set (de_tenants env) then Inl (OtherError ''IntegrityError'')
       else Inr \<lparr>cz_tenant_id = tenant_id, cz_subject_kind = kind, cz_subject_id = sid, cz_zone_id = zid, cz_zone_kind = zkind,
                 cz_entered_at = entered_at, cz_updated_at = de_now env\<rparr>))))"

text \<open>An error of the write is logged; the tracker goes on.\<close>

definition persist_zone :: "dwell_env \<Rightarrow> uuid \<Rightarrow> json \<Rightarrow> json \<Rightarrow> json \<Rightarrow> json \<Rightarrow> datetime \<Rightarrow> dwell \<Rightarrow> dwell" where
  "persist_zone env tenant_id subject_kind subject_id zone_id zone_kind entered_at st =
     (case zone_row_of env tenant_id subject_kind subject_id zone_id zone_kind entered_at of
        Inl e \<Rightarrow> st
      | Inr row \<Rightarrow> st\<lparr>dw_table := upsert_zone row (dw_table st)\<rparr>)"

definition entered_at_of :: "dwell_env \<Rightarrow> json \<Rightarrow> datetime" where
  "entered_at_of env ts_raw =
     (case ts_raw of JStr s \<Rightarrow> (case de_fromisoformat env s of Some t \<Rightarrow> t | None \<Rightarrow> de_now env) | _ \<Rightarrow> de_now env)"

definition dwell_zone_changed :: "nat \<Rightarrow> dwell_env \<Rightarrow> jobj \<Rightarrow> dwell \<Rightarrow> py_exn option \<times> dwell" where
  "dwell_zone_changed max_subjects env payload st =
     (let subject_id = jget payload ''subject_id'' in
      if \<not> truthy (jget payload ''tenant_id'') \<or> \<not> truthy subject_id then (None, st)
      else case uuid_of_json (jget payload ''tenant_id'') of
        Inl e \<Rightarrow> (Some e, st)
      | Inr tenant_id \<Rightarrow>
          if \<not> hashable subject_id then (Some TypeError, st)
          else
            (let entered_at = entered_at_of env (jget payload ''timestamp''); zone = jget payload ''to_zone_id''; kind = jget payload ''subject_kind'';
                 st = st\<lparr>dw_state := bounded_set max_subjects (tenant_id, subject_id) (zone, entered_at, kind) (dw_state st)\<rparr>
             in (None, persist_zone env tenant_id kind subject_id zone (jget payload ''zone_kind'') entered_at st)))"

text \<open>
  The restart: the state is rebuilt from the table, in whatever order the database lists it (the query names none); marks of
  cooldowns are gone.
\<close>

definition hydrate_rows :: "nat \<Rightarrow> current_zone_row list \<Rightarrow> (uuid \<times> json, json \<times> datetime \<times> json) pydict" where
  "hydrate_rows max_subjects rows =
     fold (\<lambda>r. dict_set (cz_tenant_id r, JStr (str_uuid (cz_subject_id r))) (json_uuid (cz_zone_id r), cz_entered_at r, JStr (cz_subject_kind r)))
       (take max_subjects rows) []"

definition restart :: "nat \<Rightarrow> (current_zone_row list \<Rightarrow> current_zone_row list) \<Rightarrow> dwell \<Rightarrow> dwell" where
  "restart max_subjects listed st = st\<lparr>dw_state := hydrate_rows max_subjects (listed (dw_table st)), dw_last_alert := [], dw_meter := new_meter\<rparr>"

section \<open>The worker\<close>

text \<open>\<open>timedelta\<close> has at most 999999999 days.\<close>

definition td_fits :: "timedelta \<Rightarrow> bool" where
  "td_fits d \<longleftrightarrow> - 999999999 \<le> d div us_per_day \<and> d div us_per_day \<le> 999999999"

definition dwell_cooldown_active :: "dwell_env \<Rightarrow> (uuid \<times> uuid \<times> json) \<Rightarrow> int \<Rightarrow> dwell \<Rightarrow> py_exn + bool" where
  "dwell_cooldown_active env key cooldown_s st =
     (case map_of (dw_last_alert st) key of
        None \<Rightarrow> Inr False
      | Some mark \<Rightarrow> if \<not> td_fits (seconds cooldown_s) then Inl OverflowError else Inr (de_now env - mark < seconds cooldown_s))"

definition fire_dwell :: "dwell_env \<Rightarrow> uuid \<Rightarrow> rule \<Rightarrow> json \<Rightarrow> json \<times> datetime \<times> json \<Rightarrow> dwell \<Rightarrow> dwell" where
  "fire_dwell env tenant_id rule zone_id = (\<lambda>(subject_id, entered_at, subject_kind) st.
     let minutes = total_seconds (de_now env - entered_at) / 60;
         alert = create_alert (de_uuid4 env (length (dw_published st))) (de_now env) tenant_id (r_id rule) None ''warning''
           (DweltInZone (r_name rule) (or_json subject_kind (JStr ''subject'')) subject_id zone_id minutes)
           (r_name rule, condition_type rule, condition_config rule,
            [(''subject_id'', subject_id), (''subject_kind'', subject_kind), (''zone_id'', zone_id), (''entered_at'', JStr (isoformat entered_at)),
             (''evaluated_at'', JStr (isoformat (de_now env))), (''dwell_minutes'', JFloat (Fin minutes))])
     in st\<lparr>dw_last_alert := dict_set (tenant_id, r_id rule, subject_id) (de_now env) (dw_last_alert st), dw_alerts := dw_alerts st @ [alert],
          dw_meter := record_usage tenant_id ''alerts_fired'' ''events'' 1 (dw_meter st),
          dw_published := dw_published st @ [\<lparr>pe_alert = alert, pe_action_type = action_type rule, pe_action_config = action_config rule\<rparr>]\<rparr>)"

definition eval_dwell_subject ::
    "dwell_env \<Rightarrow> uuid \<Rightarrow> rule \<Rightarrow> json \<Rightarrow> int \<Rightarrow> int \<Rightarrow> json \<times> datetime \<times> json \<Rightarrow> dwell \<Rightarrow> py_exn option \<times> dwell" where
  "eval_dwell_subject env tenant_id rule zone_id threshold_minutes cooldown_s = (\<lambda>(subject_id, entered_at, subject_kind) st.
     let allowed_kinds = jget (condition_config rule) ''subject_kinds'' in
     case (if truthy allowed_kinds \<and> subject_kind \<noteq> JNull then py_in subject_kind allowed_kinds else Inr True) of
       Inl e \<Rightarrow> (Some e, st)
     | Inr False \<Rightarrow> (None, st)
     | Inr True \<Rightarrow>
         if \<not> td_fits (seconds (threshold_minutes * 60)) then (Some OverflowError, st)
         else if de_now env - entered_at < seconds (threshold_minutes * 60) then (None, st)
         else (case dwell_cooldown_active env (tenant_id, r_id rule, subject_id) cooldown_s st of
             Inl e \<Rightarrow> (Some e, st)
           | Inr True \<Rightarrow> (None, st)
           | Inr False \<Rightarrow> (None, fire_dwell env tenant_id rule zone_id (subject_id, entered_at, subject_kind) st)))"

definition eval_dwell_rule ::
    "dwell_env \<Rightarrow> uuid \<Rightarrow> (json, (json \<times> datetime \<times> json) list) pydict \<Rightarrow> rule \<Rightarrow> dwell \<Rightarrow> py_exn option \<times> dwell" where
  "eval_dwell_rule env tenant_id by_zone rule st =
     (let st = st\<lparr>dw_meter := record_usage tenant_id ''rule_evaluations'' ''evaluations'' 1 (dw_meter st)\<rparr>;
          cfg = condition_config rule; zone_id = jget cfg ''zone_id''
      in case to_int (jget_or cfg ''threshold_minutes'' (JInt 0)) of
           Inl e \<Rightarrow> (Some e, st)
         | Inr threshold_minutes \<Rightarrow>
             if \<not> truthy zone_id \<or> threshold_minutes \<le> 0 then (None, st)
             else (case to_int (jget_or cfg ''cooldown_s'' (JInt 300)) of
                 Inl e \<Rightarrow> (Some e, st)
               | Inr cooldown_s \<Rightarrow>
                   if \<not> hashable zone_id then (Some TypeError, st)
                   else for_each (eval_dwell_subject env tenant_id rule zone_id threshold_minutes cooldown_s)
                     (case map_of by_zone zone_id of None \<Rightarrow> [] | Some subjects \<Rightarrow> subjects) st))"

type_synonym stay = "uuid \<times> json \<times> json \<times> datetime \<times> json" \<comment> \<open>tenant, subject, zone, entered, kind\<close>

definition snapshot_stays :: "dwell \<Rightarrow> stay list" where
  "snapshot_stays st = map (\<lambda>((t, s), (z, entered, k)). (t, s, z, entered, k)) (dw_state st)"

definition stays_by_zone :: "stay list \<Rightarrow> (json, (json \<times> datetime \<times> json) list) pydict" where
  "stays_by_zone stays =
     map (\<lambda>(z, xs). (z, map (\<lambda>(t, s, z, entered, k). (s, entered, k)) xs)) (group_into (\<lambda>(t, s, z, entered, k). z) stays)"

definition eval_dwell_tenant :: "dwell_env \<Rightarrow> uuid \<times> stay list \<Rightarrow> dwell \<Rightarrow> py_exn option \<times> dwell" where
  "eval_dwell_tenant env = (\<lambda>(tenant_id, stays) st.
     let rules = get_active_rules_by_condition_type (de_rules env) tenant_id ''zone.dwell_exceeded'' in
     if rules = [] then (None, st)
     else if list_ex (\<lambda>(t, s, z, entered, k). \<not> hashable z) stays then (Some TypeError, st)
     else for_each (eval_dwell_rule env tenant_id (stays_by_zone stays)) rules st)"

definition dwell_run_once :: "dwell_env \<Rightarrow> dwell \<Rightarrow> py_exn option \<times> dwell" where
  "dwell_run_once env st =
     (let by_tenant = group_into (\<lambda>(t, s, z, entered, k). t) (filter (\<lambda>(t, s, z, entered, k). z \<noteq> JNull) (snapshot_stays st)) in
      case for_each (eval_dwell_tenant env) by_tenant st of
        (Some e, st') \<Rightarrow> (Some e, st'\<lparr>dw_alerts := dw_alerts st\<rparr>)
      | (None, st') \<Rightarrow> (None, st'))"

section \<open>A restart keeps the stays\<close>

text \<open>What the ingestion publishes: identifiers as \<open>str\<close> prints them, a kind that names something, a tenant that exists.\<close>

definition printed_uuid :: "json \<Rightarrow> bool" where
  "printed_uuid v = (case v of JStr s \<Rightarrow> (case uuid_of_string s of Inr u \<Rightarrow> str_uuid u = s | Inl _ \<Rightarrow> False) | _ \<Rightarrow> False)"

definition short_or_null :: "json \<Rightarrow> bool" where
  "short_or_null v = (case v of JNull \<Rightarrow> True | JStr s \<Rightarrow> length s \<le> 32 | _ \<Rightarrow> False)"

definition plain_move :: "dwell_env \<times> jobj \<Rightarrow> bool" where
  "plain_move = (\<lambda>(env, p). printed_uuid (jget p ''tenant_id'') \<and> printed_uuid (jget p ''subject_id'') \<and>
     (jget p ''to_zone_id'' = JNull \<or> printed_uuid (jget p ''to_zone_id'')) \<and> short_or_null (jget p ''zone_kind'') \<and>
     short_or_null (jget p ''subject_kind'') \<and> truthy (jget p ''subject_kind'') \<and>
     list_ex (\<lambda>t. jget p ''tenant_id'' = JStr (str_uuid t)) (de_tenants env))"

definition move_subject :: "dwell_env \<times> jobj \<Rightarrow> json \<times> json" where
  "move_subject = (\<lambda>(env, p). (jget p ''tenant_id'', jget p ''subject_id''))"

definition track_moves :: "nat \<Rightarrow> (dwell_env \<times> jobj) list \<Rightarrow> dwell \<Rightarrow> dwell" where
  "track_moves max_subjects moves st = fold (\<lambda>(env, p) st. snd (dwell_zone_changed max_subjects env p st)) moves st"

definition row_key :: "current_zone_row \<Rightarrow> uuid \<times> json" where
  "row_key r = (cz_tenant_id r, JStr (str_uuid (cz_subject_id r)))"

definition row_stay :: "current_zone_row \<Rightarrow> (uuid \<times> json) \<times> json \<times> datetime \<times> json" where
  "row_stay r = (row_key r, json_uuid (cz_zone_id r), cz_entered_at r, JStr (cz_subject_kind r))"

lemma printed_uuidE:
  assumes "printed_uuid v"
  obtains u where "v = JStr (str_uuid u)"
  using assms by (auto simp: printed_uuid_def split: json.splits sum.splits)

lemma hydrate_distinct:
  assumes "distinct (map row_key rows)" and "length rows \<le> n"
  shows "hydrate_rows n rows = map row_stay rows"
proof -
  have "fold (\<lambda>r. dict_set (row_key r) (json_uuid (cz_zone_id r), cz_entered_at r, JStr (cz_subject_kind r))) rows d = d @ map row_stay rows"
    if "distinct (map row_key rows)" "row_key ` set rows \<inter> fst ` set d = {}" for d
    using that
  proof (induction rows arbitrary: d)
    case (Cons r rows)
    then have "row_key r \<notin> fst ` set d" by auto
    then have "dict_set (row_key r) v d = d @ [(row_key r, v)]" for v by (rule dict_set_new)
    then show ?case using Cons by (auto simp: row_stay_def)
  qed simp
  from this [of "[]"] show ?thesis using assms by (simp add: hydrate_rows_def row_key_def)
qed

lemma upsert_is_set:
  assumes "\<And>r. r \<in> set rows \<Longrightarrow> row_key r = row_key row \<longleftrightarrow> same_subject row r"
  shows "dict_set (row_key row) (snd (row_stay row)) (map row_stay rows) = map row_stay (upsert_zone row rows)"
  using assms
proof (induction rows)
  case (Cons r rows)
  then have "row_key r = row_key row \<longleftrightarrow> same_subject row r" by simp
  then show ?case using Cons by (auto simp: row_stay_def)
qed (simp add: row_stay_def)

lemma keys_upsert: "row_key ` set (upsert_zone row rows) \<subseteq> insert (row_key row) (row_key ` set rows)"
  by (induction rows) auto

lemma in_upsert: "r \<in> set (upsert_zone row rows) \<Longrightarrow> r = row \<or> r \<in> set rows"
  by (induction rows) (auto split: if_splits)

text \<open>The state shows the table row by row, and every subject keeps its kind.\<close>

definition in_step :: "(json \<times> json \<Rightarrow> json) \<Rightarrow> (json \<times> json) set \<Rightarrow> dwell \<Rightarrow> bool" where
  "in_step kind_of subjects st \<longleftrightarrow> dw_state st = map row_stay (dw_table st) \<and> wf_dict (dw_state st) \<and>
     (\<forall>r\<in>set (dw_table st). (JStr (str_uuid (cz_tenant_id r)), JStr (str_uuid (cz_subject_id r))) \<in> subjects \<and>
        JStr (cz_subject_kind r) = kind_of (JStr (str_uuid (cz_tenant_id r)), JStr (str_uuid (cz_subject_id r))))"

lemma short_or_nullE:
  assumes "short_or_null v"
  obtains "v = JNull" | s where "v = JStr s" "length s \<le> 32"
  using assms by (auto simp: short_or_null_def split: json.splits)

lemma plain_move_row:
  assumes "plain_move (env, p)"
  obtains t i z k zk where "jget p ''tenant_id'' = JStr (str_uuid t)" "jget p ''subject_id'' = JStr (str_uuid i)" "jget p ''to_zone_id'' = json_uuid z"
    "jget p ''subject_kind'' = JStr k" "k \<noteq> []"
    "\<forall>entered. zone_row_of env t (jget p ''subject_kind'') (jget p ''subject_id'') (jget p ''to_zone_id'') (jget p ''zone_kind'') entered
       = Inr \<lparr>cz_tenant_id = t, cz_subject_kind = k, cz_subject_id = i, cz_zone_id = z, cz_zone_kind = zk, cz_entered_at = entered, cz_updated_at = de_now env\<rparr>"
proof -
  obtain t where t: "jget p ''tenant_id'' = JStr (str_uuid t)" using assms by (auto simp: plain_move_def elim: printed_uuidE)
  obtain i where i: "jget p ''subject_id'' = JStr (str_uuid i)" using assms by (auto simp: plain_move_def elim: printed_uuidE)
  obtain z where z: "jget p ''to_zone_id'' = json_uuid z" using assms
    by (auto simp: plain_move_def json_uuid_def elim!: printed_uuidE) (metis option.case)+
  obtain k where k: "jget p ''subject_kind'' = JStr k" "k \<noteq> []" "length k \<le> 32" using assms by (auto simp: plain_move_def elim!: short_or_nullE)
  have tenant: "t \<in> set (de_tenants env)" using assms by (auto simp: plain_move_def t list_ex_iff)
  from assms have "short_or_null (jget p ''zone_kind'')" by (simp add: plain_move_def)
  then obtain zk where "(if jget p ''zone_kind'' = JNull then Inr None else map_sum id Some (short_text (jget p ''zone_kind''))) = Inr zk"
    by (cases rule: short_or_nullE) auto
  then show thesis using t i z k tenant
    by (intro that [of t i z k zk]) (auto simp: zone_row_of_def or_json_def json_uuid_def split: option.splits)
qed

lemma in_step_room:
  assumes "in_step kind_of S st" and "finite S"
  shows "length (dw_state st) \<le> card S"
    and "(JStr (str_uuid t), s) \<in> S \<Longrightarrow> (t, s) \<notin> set (dict_keys (dw_state st)) \<Longrightarrow> length (dw_state st) < card S"
proof -
  let ?f = "\<lambda>(t, s). (JStr (str_uuid t), s :: json)"
  have keys: "?f ` set (dict_keys (dw_state st)) \<subseteq> S" using assms(1) by (auto simp: in_step_def row_stay_def row_key_def)
  have inj: "inj_on ?f A" for A by (auto simp: inj_on_def)
  have len: "length (dw_state st) = card (?f ` set (dict_keys (dw_state st)))"
  proof -
    have "wf_dict (dw_state st)" using assms(1) unfolding in_step_def by blast
    then have "length (dw_state st) = card (set (dict_keys (dw_state st)))" by (metis distinct_card length_map)
    then show ?thesis using card_image [OF inj] by metis
  qed
  show "length (dw_state st) \<le> card S" unfolding len using keys assms(2) by (rule card_mono [rotated])
  show "length (dw_state st) < card S" if "(JStr (str_uuid t), s) \<in> S" "(t, s) \<notin> set (dict_keys (dw_state st))"
  proof -
    have "(JStr (str_uuid t), s) \<notin> ?f ` set (dict_keys (dw_state st))"
    proof
      assume "(JStr (str_uuid t), s) \<in> ?f ` set (dict_keys (dw_state st))"
      then obtain k where k: "k \<in> set (dict_keys (dw_state st))" "(JStr (str_uuid t), s) = ?f k" by blast
      then have "k = (t, s)" by (simp add: split_beta prod_eq_iff)
      with k(1) have "(t, s) \<in> set (dict_keys (dw_state st))" by simp
      then show False using that(2) by contradiction
    qed
    then have "?f ` set (dict_keys (dw_state st)) \<subset> S" using keys that(1) by blast
    then show ?thesis unfolding len using assms(2) by (intro psubset_card_mono)
  qed
qed

lemma move_in_step:
  assumes st: "in_step kind_of S st" and S: "finite S" "card S \<le> n" and plain: "plain_move (env, p)"
    and kind: "jget p ''subject_kind'' = kind_of (move_subject (env, p))" and mem: "move_subject (env, p) \<in> S"
  shows "in_step kind_of S (snd (dwell_zone_changed n env p st))"
proof -
  obtain t i z k zk where p: "jget p ''tenant_id'' = JStr (str_uuid t)" "jget p ''subject_id'' = JStr (str_uuid i)" "jget p ''to_zone_id'' = json_uuid z"
      "jget p ''subject_kind'' = JStr k" "k \<noteq> []"
    and row: "\<forall>entered. zone_row_of env t (jget p ''subject_kind'') (jget p ''subject_id'') (jget p ''to_zone_id'') (jget p ''zone_kind'') entered
       = Inr \<lparr>cz_tenant_id = t, cz_subject_kind = k, cz_subject_id = i, cz_zone_id = z, cz_zone_kind = zk, cz_entered_at = entered, cz_updated_at = de_now env\<rparr>"
    using plain by (rule plain_move_row)
  define r where "r = \<lparr>cz_tenant_id = t, cz_subject_kind = k, cz_subject_id = i, cz_zone_id = z, cz_zone_kind = zk,
    cz_entered_at = entered_at_of env (jget p ''timestamp''), cz_updated_at = de_now env\<rparr>"
  have sub: "(JStr (str_uuid t), JStr (str_uuid i)) \<in> S" using mem by (simp add: move_subject_def p)
  have "bounded_set n (row_key r) v (dw_state st) = dict_set (row_key r) v (dw_state st)" for v
    using in_step_room(2) [OF st S(1) sub] S(2) by (auto simp: bounded_set_def r_def row_key_def Let_def)
  then have step: "snd (dwell_zone_changed n env p st) =
      st\<lparr>dw_state := dict_set (row_key r) (snd (row_stay r)) (dw_state st), dw_table := upsert_zone r (dw_table st)\<rparr>"
    using row by (simp add: dwell_zone_changed_def Let_def p persist_zone_def r_def row_stay_def row_key_def)
  have "row_key r' = row_key r \<longleftrightarrow> same_subject r r'" if r': "r' \<in> set (dw_table st)" for r'
  proof -
    have "JStr (cz_subject_kind r') = kind_of (JStr (str_uuid (cz_tenant_id r')), JStr (str_uuid (cz_subject_id r')))"
      using st r' unfolding in_step_def by blast
    moreover have "JStr k = kind_of (JStr (str_uuid t), JStr (str_uuid i))" using kind by (simp add: move_subject_def p)
    ultimately have "t = cz_tenant_id r' \<Longrightarrow> i = cz_subject_id r' \<Longrightarrow> JStr k = JStr (cz_subject_kind r')" by simp
    then show ?thesis by (auto simp: row_key_def same_subject_def r_def)
  qed
  then have "dict_set (row_key r) (snd (row_stay r)) (dw_state st) = map row_stay (upsert_zone r (dw_table st))"
    using st upsert_is_set [of "dw_table st" r] by (simp add: in_step_def)
  moreover have "wf_dict (dw_state st)" using st unfolding in_step_def by blast
  then have "wf_dict (dict_set (row_key r) (snd (row_stay r)) (dw_state st))" by (rule wf_dict_set)
  ultimately show ?thesis
    unfolding step using st sub kind
    by (auto simp: in_step_def r_def move_subject_def p dest!: in_upsert)
qed

text \<open>C31: A restart keeps the stays, under four conditions: tenants, subjects and zones are named by UUIDs in their printed form
  and the tenants exist; every zone change names its subject's kind, of at most 32 characters (as the zone's kind, if it
  has one); a subject keeps its kind; and no more subjects occur than the tracker has room for.  Then the state that is
  rebuilt from the table after any sequence of zone changes gives every subject the stay that it had, in whatever order
  the database lists the rows.  Without a kind, or with more subjects, it does not.
\<close>

theorem restart_keeps_the_stays:
  assumes "list_all plain_move moves" and "list_all (\<lambda>(env, p). jget p ''subject_kind'' = kind_of (move_subject (env, p))) moves"
    and "card (move_subject ` set moves) \<le> max_subjects" and listed: "\<And>rows. mset (listed rows) = mset rows"
  shows "map_of (dw_state (restart max_subjects listed (track_moves max_subjects moves fresh_tracker)))
    = map_of (dw_state (track_moves max_subjects moves fresh_tracker))"
proof -
  let ?S = "move_subject ` set moves" and ?st = "track_moves max_subjects moves fresh_tracker"
  have run: "in_step kind_of ?S (track_moves max_subjects ms st)"
    if "in_step kind_of ?S st" "set ms \<subseteq> set moves" for ms st
    using that
  proof (induction ms arbitrary: st)
    case (Cons m ms)
    obtain env p where m: "m = (env, p)" by (cases m)
    have "in_step kind_of ?S (snd (dwell_zone_changed max_subjects env p st))"
      using Cons.prems assms by (intro move_in_step) (auto simp: m list_all_iff image_iff)
    then show ?case using Cons by (simp add: track_moves_def m)
  qed (simp add: track_moves_def)
  have "in_step kind_of ?S fresh_tracker" by (simp add: in_step_def fresh_tracker_def)
  then have inv: "in_step kind_of ?S ?st" by (rule run) simp
  then have "length (dw_table ?st) \<le> max_subjects" using in_step_room(1) [OF inv] assms(3) by (simp add: in_step_def)
  moreover have keys: "distinct (map row_key (dw_table ?st))"
  proof -
    have "dw_state ?st = map row_stay (dw_table ?st)" "wf_dict (dw_state ?st)" using inv unfolding in_step_def by blast+
    then have "wf_dict (map row_stay (dw_table ?st))" by metis
    then show ?thesis by (simp add: row_stay_def comp_def)
  qed
  moreover have same: "mset (map row_key (listed rows)) = mset (map row_key rows)" "length (listed rows) = length rows" "set (listed rows) = set rows" for rows
    using listed [of rows] by (auto dest: mset_eq_length mset_eq_setD)
  moreover have distinct: "distinct (map row_key (listed (dw_table ?st)))" using keys mset_eq_imp_distinct_iff [OF same(1)] by blast
  ultimately have "dw_state (restart max_subjects listed ?st) = map row_stay (listed (dw_table ?st))"
    by (simp add: restart_def hydrate_distinct)
  moreover have "map_of (map row_stay (listed (dw_table ?st))) = map_of (map row_stay (dw_table ?st))"
    using keys distinct by (subst map_of_inject_set) (simp_all add: row_stay_def comp_def same(3))
  ultimately show ?thesis using inv by (simp add: in_step_def)
qed

section \<open>Cooldowns hold\<close>

fun dwelling_subject :: "alert_message \<Rightarrow> json option" where
  "dwelling_subject (DweltInZone _ _ subject _ _) = Some subject"
| "dwelling_subject _ = None"

definition dwell_key_of :: "alert \<Rightarrow> (uuid \<times> uuid \<times> json) option" where
  "dwell_key_of a = map_option (\<lambda>s. (al_tenant_id a, al_rule_id a, s)) (dwelling_subject (al_message a))"

definition dwell_cooldown_of :: "alert \<Rightarrow> timedelta" where
  "dwell_cooldown_of a = (case al_context a of (_, _, config, _) \<Rightarrow>
     (case to_int (jget_or config ''cooldown_s'' (JInt 300)) of Inl _ \<Rightarrow> 0 | Inr s \<Rightarrow> seconds s))"

definition dwell_spaced :: "alert \<Rightarrow> alert \<Rightarrow> bool" where
  "dwell_spaced a b \<longleftrightarrow> (dwell_key_of a = dwell_key_of b \<longrightarrow> al_triggered_at a + dwell_cooldown_of b \<le> al_triggered_at b)"

datatype dwell_op = Moved jobj | Pass

fun dwell_step :: "nat \<Rightarrow> dwell_env \<times> dwell_op \<Rightarrow> dwell \<Rightarrow> dwell" where
  "dwell_step max_subjects (env, Moved p) st = snd (dwell_zone_changed max_subjects env p st)"
| "dwell_step max_subjects (env, Pass) st = snd (dwell_run_once env st)"

definition dwell_inv :: "datetime \<Rightarrow> dwell \<Rightarrow> bool" where
  "dwell_inv t st \<longleftrightarrow> sorted_wrt dwell_spaced (map pe_alert (dw_published st)) \<and> (\<forall>k m. map_of (dw_last_alert st) k = Some m \<longrightarrow> m \<le> t) \<and>
     (\<forall>p\<in>set (dw_published st). \<exists>k m. dwell_key_of (pe_alert p) = Some k \<and> map_of (dw_last_alert st) k = Some m \<and> al_triggered_at (pe_alert p) \<le> m)"

lemma dwell_inv_later: "dwell_inv t st \<Longrightarrow> t \<le> t' \<Longrightarrow> dwell_inv t' st"
  unfolding dwell_inv_def by (blast intro: order_trans)

lemma dwell_inv_cong [simp]:
  "dwell_inv t (st\<lparr>dw_meter := m\<rparr>) = dwell_inv t st" "dwell_inv t (st\<lparr>dw_alerts := as\<rparr>) = dwell_inv t st"
  "dwell_inv t (st\<lparr>dw_state := s\<rparr>) = dwell_inv t st" "dwell_inv t (st\<lparr>dw_table := rows\<rparr>) = dwell_inv t st"
  by (simp_all add: dwell_inv_def)

lemma dwell_inv_fire:
  assumes inv: "dwell_inv (de_now env) st" and "dwell_cooldown_active env (tenant_id, r_id rule, subject_id) c st = Inr False"
    and cd: "to_int (jget_or (condition_config rule) ''cooldown_s'' (JInt 300)) = Inr c"
  shows "dwell_inv (de_now env) (fire_dwell env tenant_id rule zone_id (subject_id, entered_at, subject_kind) st)"
proof -
  let ?k = "(tenant_id, r_id rule, subject_id)" and ?st = "fire_dwell env tenant_id rule zone_id (subject_id, entered_at, subject_kind) st"
  obtain b act cfg where pub: "dw_published ?st = dw_published st @ [\<lparr>pe_alert = b, pe_action_type = act, pe_action_config = cfg\<rparr>]"
    and b: "dwell_key_of b = Some ?k" "dwell_cooldown_of b = seconds c" "al_triggered_at b = de_now env"
    and mark: "dw_last_alert ?st = dict_set ?k (de_now env) (dw_last_alert st)"
    using cd by (simp add: fire_dwell_def Let_def dwell_key_of_def dwell_cooldown_of_def create_alert_def)
  have "dwell_spaced (pe_alert p) b" if p: "p \<in> set (dw_published st)" for p
  proof -
    obtain k m where k: "dwell_key_of (pe_alert p) = Some k" "map_of (dw_last_alert st) k = Some m" "al_triggered_at (pe_alert p) \<le> m"
      using inv p unfolding dwell_inv_def by blast
    show ?thesis
    proof (cases "k = ?k")
      case True
      then have "seconds c \<le> de_now env - m" using assms(2) k(2) by (auto simp: dwell_cooldown_active_def split: if_splits)
      then show ?thesis using k(3) by (simp add: dwell_spaced_def b)
    qed (simp add: dwell_spaced_def b k(1))
  qed
  then have spaced: "sorted_wrt dwell_spaced (map pe_alert (dw_published ?st))"
    using inv by (simp add: pub sorted_wrt_append dwell_inv_def)
  have marks: "\<forall>k m. map_of (dw_last_alert ?st) k = Some m \<longrightarrow> m \<le> de_now env" using inv by (simp add: mark dwell_inv_def)
  have "\<exists>k m. dwell_key_of (pe_alert p) = Some k \<and> map_of (dw_last_alert ?st) k = Some m \<and> al_triggered_at (pe_alert p) \<le> m"
    if "p \<in> set (dw_published ?st)" for p
  proof (cases "p \<in> set (dw_published st)")
    case True
    then obtain k m where k: "dwell_key_of (pe_alert p) = Some k" "map_of (dw_last_alert st) k = Some m" "al_triggered_at (pe_alert p) \<le> m" "m \<le> de_now env"
      using inv unfolding dwell_inv_def by blast
    then show ?thesis by (cases "k = ?k") (auto simp: mark)
  next
    case False
    then have "pe_alert p = b" using that by (auto simp: pub)
    then show ?thesis using b by (auto simp: mark)
  qed
  then show ?thesis using spaced marks by (auto simp: dwell_inv_def)
qed

lemma dwell_inv_subject:
  assumes "dwell_inv (de_now env) st" and "to_int (jget_or (condition_config rule) ''cooldown_s'' (JInt 300)) = Inr c"
  shows "dwell_inv (de_now env) (snd (eval_dwell_subject env tenant_id rule zone_id m c x st))"
proof -
  obtain i entered k where x: "x = (i, entered, k)" by (cases x)
  show ?thesis using assms dwell_inv_fire by (auto simp: eval_dwell_subject_def x Let_def split: sum.splits bool.splits)
qed

lemma dwell_inv_rule: "dwell_inv (de_now env) st \<Longrightarrow> dwell_inv (de_now env) (snd (eval_dwell_rule env tenant_id by_zone rule st))"
  by (simp add: eval_dwell_rule_def Let_def split: sum.split)
    (intro allI impI for_each_inv [where P = "dwell_inv (de_now env)"] dwell_inv_subject; simp)

lemma dwell_inv_tenant: "dwell_inv (de_now env) st \<Longrightarrow> dwell_inv (de_now env) (snd (eval_dwell_tenant env x st))"
  by (cases x) (simp add: eval_dwell_tenant_def Let_def for_each_inv [where P = "dwell_inv (de_now env)"] dwell_inv_rule)

lemma dwell_inv_pass:
  assumes "dwell_inv (de_now env) st"
  shows "dwell_inv (de_now env) (snd (dwell_run_once env st))"
proof -
  let ?groups = "group_into (\<lambda>(t, s, z, entered, k). t) (filter (\<lambda>(t, s, z, entered, k). z \<noteq> JNull) (snapshot_stays st))"
  have "dwell_inv (de_now env) (snd (for_each (eval_dwell_tenant env) ?groups st))"
    using assms by (intro for_each_inv [where P = "dwell_inv (de_now env)"] dwell_inv_tenant)
  moreover obtain e st' where "for_each (eval_dwell_tenant env) ?groups st = (e, st')" by fastforce
  ultimately show ?thesis unfolding dwell_run_once_def Let_def by (cases e) simp_all
qed

lemma dwell_inv_moved:
  assumes "dwell_inv t st"
  shows "dwell_inv t (snd (dwell_zone_changed n env p st))"
proof -
  have "dwell_inv t (persist_zone env tid k i z zk e s) = dwell_inv t s" for tid k i z zk e s by (simp add: persist_zone_def split: sum.split)
  then show ?thesis using assms by (simp add: dwell_zone_changed_def Let_def split: sum.split)
qed

text \<open>Dwell alerts keep their cooldown: under a clock that does not go back, and whatever zone changes, passes and
  failed passes a process goes through, two alerts that one rule publishes for one subject are at least the cooldown
  apart that the rule has at the second.
\<close>
theorem dwell_alerts_are_spaced:
  assumes "sorted (map (de_now \<circ> fst) ops)"
  shows "sorted_wrt dwell_spaced (map pe_alert (dw_published (fold (dwell_step max_subjects) ops fresh_tracker)))"
proof -
  have "\<exists>t. dwell_inv t (fold (dwell_step max_subjects) ops st)"
    if "sorted (map (de_now \<circ> fst) ops)" "dwell_inv t st" "list_all (\<lambda>o1. t \<le> de_now (fst o1)) ops" for t st ops
    using that
  proof (induction ops arbitrary: t st)
    case (Cons o1 ops)
    obtain env op where o1: "o1 = (env, op)" by (cases o1)
    have "dwell_inv (de_now env) st" using Cons.prems by (auto simp: o1 intro: dwell_inv_later)
    then have "dwell_inv (de_now env) (dwell_step max_subjects o1 st)" by (cases op) (simp_all add: o1 dwell_inv_pass dwell_inv_moved)
    then show ?case using Cons.prems by (auto simp: o1 list_all_iff intro!: Cons.IH)
  qed auto
  moreover have "dwell_inv t fresh_tracker" for t by (simp add: dwell_inv_def fresh_tracker_def)
  moreover have "\<exists>t. list_all (\<lambda>o1. t \<le> de_now (fst o1)) ops"
    using assms by (cases ops) (auto simp: list_all_iff intro!: exI [of _ "de_now (fst (hd ops))"])
  ultimately show ?thesis using assms unfolding dwell_inv_def by blast
qed

section \<open>Exactly the stays that are due\<close>

definition tenant_stays :: "dwell \<Rightarrow> (uuid, stay list) pydict" where
  "tenant_stays st = group_into (\<lambda>(t, s, z, entered, k). t) (filter (\<lambda>(t, s, z, entered, k). z \<noteq> JNull) (snapshot_stays st))"

definition dwell_rules :: "dwell_env \<Rightarrow> uuid \<Rightarrow> rule list" where
  "dwell_rules env t = get_active_rules_by_condition_type (de_rules env) t ''zone.dwell_exceeded''"

definition cooled_down :: "dwell_env \<Rightarrow> (uuid \<times> uuid \<times> json, datetime) pydict \<Rightarrow> uuid \<times> uuid \<times> json \<Rightarrow> int \<Rightarrow> bool" where
  "cooled_down env marks key c \<longleftrightarrow> (case map_of marks key of None \<Rightarrow> True | Some mark \<Rightarrow> seconds c \<le> de_now env - mark)"

text \<open>A stay is due for a rule: its zone, its kind, its length, and no recent alert.\<close>

definition stay_due :: "dwell_env \<Rightarrow> (uuid \<times> uuid \<times> json, datetime) pydict \<Rightarrow> uuid \<Rightarrow> rule \<Rightarrow> json \<times> datetime \<times> json \<Rightarrow> bool" where
  "stay_due env marks t rule = (\<lambda>(s, entered, k).
     let cfg = condition_config rule; kinds = jget cfg ''subject_kinds'' in
     (truthy kinds \<longrightarrow> k \<noteq> JNull \<longrightarrow> py_in k kinds = Inr True)
     \<and> (case to_int (jget_or cfg ''threshold_minutes'' (JInt 0)) of Inl _ \<Rightarrow> False | Inr m \<Rightarrow> 0 < m \<and> seconds (m * 60) \<le> de_now env - entered)
     \<and> (case to_int (jget_or cfg ''cooldown_s'' (JInt 300)) of Inl _ \<Rightarrow> False | Inr c \<Rightarrow> cooled_down env marks (t, r_id rule, s) c))"

definition due_keys :: "dwell_env \<Rightarrow> (uuid \<times> uuid \<times> json, datetime) pydict \<Rightarrow> uuid \<Rightarrow> stay list \<Rightarrow> rule \<Rightarrow> (uuid \<times> uuid \<times> json) list" where
  "due_keys env marks t stays rule =
     (let zone = jget (condition_config rule) ''zone_id'' in
      map (\<lambda>x. (t, r_id rule, fst x))
        (filter (stay_due env marks t rule)
          (map (\<lambda>(t, s, z, entered, k). (s, entered, k)) (filter (\<lambda>(t, s, z, entered, k). z = zone \<and> truthy zone) stays))))"

definition alert_keys :: "dwell \<Rightarrow> (uuid \<times> uuid \<times> json) option list" where
  "alert_keys st = map dwell_key_of (dw_alerts st)"

definition marks_agree :: "(uuid \<times> uuid \<times> json, datetime) pydict \<Rightarrow> (uuid \<times> uuid \<times> json) set \<Rightarrow> dwell \<Rightarrow> bool" where
  "marks_agree marks K st \<longleftrightarrow> (\<forall>k\<in>K. map_of (dw_last_alert st) k = map_of marks k)"

text \<open>A loop whose steps each touch their own keys raises what its steps raise, one after the other.\<close>

lemma for_each_exact:
  assumes step: "\<And>x st st'. x \<in> set xs \<Longrightarrow> f x st = (None, st') \<Longrightarrow> marks_agree marks (K x) st \<Longrightarrow>
      alert_keys st' = alert_keys st @ map Some (new x) \<and> (\<forall>k. k \<notin> K x \<longrightarrow> map_of (dw_last_alert st') k = map_of (dw_last_alert st) k)"
    and disjoint: "sorted_wrt (\<lambda>x y. K x \<inter> K y = {}) xs"
    and run: "for_each f xs st = (None, st')" and agree: "marks_agree marks (\<Union>x\<in>set xs. K x) st"
  shows "alert_keys st' = alert_keys st @ map Some (concat (map new xs))
    \<and> (\<forall>k. k \<notin> (\<Union>x\<in>set xs. K x) \<longrightarrow> map_of (dw_last_alert st') k = map_of (dw_last_alert st) k)"
  using assms
proof (induction xs arbitrary: st)
  case (Cons x xs)
  obtain st1 where st1: "f x st = (None, st1)" "for_each f xs st1 = (None, st')"
    using Cons.prems(3) by (auto split: prod.splits option.splits)
  have one: "alert_keys st1 = alert_keys st @ map Some (new x)" "\<And>k. k \<notin> K x \<Longrightarrow> map_of (dw_last_alert st1) k = map_of (dw_last_alert st) k"
    using Cons.prems(1) [OF _ st1(1)] Cons.prems(4) by (auto simp: marks_agree_def)
  have "map_of (dw_last_alert st1) k = map_of marks k" if k: "y \<in> set xs" "k \<in> K y" for y k
  proof -
    have "K x \<inter> K y = {}" using Cons.prems(2) k(1) by simp
    then have "map_of (dw_last_alert st1) k = map_of (dw_last_alert st) k" using k(2) by (intro one(2)) blast
    then show ?thesis using Cons.prems(4) k unfolding marks_agree_def by auto
  qed
  then have "marks_agree marks (\<Union>x\<in>set xs. K x) st1" unfolding marks_agree_def by blast
  then have "alert_keys st' = alert_keys st1 @ map Some (concat (map new xs))
      \<and> (\<forall>k. k \<notin> (\<Union>x\<in>set xs. K x) \<longrightarrow> map_of (dw_last_alert st') k = map_of (dw_last_alert st1) k)"
    using Cons.prems(2) st1(2) by (intro Cons.IH Cons.prems(1)) auto
  then show ?case using one by auto
qed simp

lemma subject_exact:
  assumes run: "eval_dwell_subject env t rule z m c x st = (None, st')" and agree: "marks_agree marks {(t, r_id rule, fst x)} st"
    and m: "to_int (jget_or (condition_config rule) ''threshold_minutes'' (JInt 0)) = Inr m" "0 < m"
    and c: "to_int (jget_or (condition_config rule) ''cooldown_s'' (JInt 300)) = Inr c"
  shows "alert_keys st' = alert_keys st @ map Some (if stay_due env marks t rule x then [(t, r_id rule, fst x)] else [])
    \<and> (\<forall>k. k \<notin> {(t, r_id rule, fst x)} \<longrightarrow> map_of (dw_last_alert st') k = map_of (dw_last_alert st) k)"
proof -
  obtain s entered k where x: "x = (s, entered, k)" by (cases x)
  let ?kinds = "jget (condition_config rule) ''subject_kinds''"
  have fire: "alert_keys (fire_dwell env t rule z (s, entered, k) st) = alert_keys st @ [Some (t, r_id rule, s)]"
    "dw_last_alert (fire_dwell env t rule z (s, entered, k) st) = dict_set (t, r_id rule, s) (de_now env) (dw_last_alert st)"
    by (simp_all add: alert_keys_def fire_dwell_def Let_def dwell_key_of_def create_alert_def)
  have mark: "map_of (dw_last_alert st) (t, r_id rule, s) = map_of marks (t, r_id rule, s)" using agree by (simp add: marks_agree_def x)
  show ?thesis
  proof (cases "truthy ?kinds \<and> k \<noteq> JNull \<and> py_in k ?kinds \<noteq> Inr True")
    case True
    then have "st' = st" using run by (auto simp: eval_dwell_subject_def x Let_def split: sum.splits bool.splits)
    then show ?thesis using True by (auto simp: x stay_due_def Let_def)
  next
    case False
    then have kinds: "(if truthy ?kinds \<and> k \<noteq> JNull then py_in k ?kinds else Inr True) = Inr True" by auto
    let ?late = "de_now env - entered < seconds (m * 60)" and ?active = "dwell_cooldown_active env (t, r_id rule, s) c st"
    have "eval_dwell_subject env t rule z m c x st =
        (if \<not> td_fits (seconds (m * 60)) then (Some OverflowError, st) else if ?late then (None, st)
         else (case ?active of Inl e \<Rightarrow> (Some e, st) | Inr True \<Rightarrow> (None, st) | Inr False \<Rightarrow> (None, fire_dwell env t rule z (s, entered, k) st)))"
      unfolding eval_dwell_subject_def x prod.case Let_def kinds sum.case bool.case ..
    then have cases: "if ?late \<or> ?active = Inr True then st' = st else ?active = Inr False \<and> st' = fire_dwell env t rule z (s, entered, k) st"
      unfolding run by (simp split: if_splits sum.splits bool.splits)
    have active: "?active = Inr True \<Longrightarrow> \<not> cooled_down env marks (t, r_id rule, s) c" "?active = Inr False \<Longrightarrow> cooled_down env marks (t, r_id rule, s) c"
      by (auto simp: dwell_cooldown_active_def mark cooled_down_def split: option.splits if_splits)
    show ?thesis
    proof (cases "seconds (m * 60) \<le> de_now env - entered \<and> cooled_down env marks (t, r_id rule, s) c")
      case True
      then have "st' = fire_dwell env t rule z (s, entered, k) st" using cases active by (auto split: if_splits)
      then show ?thesis using True False m c by (auto simp: x fire stay_due_def Let_def)
    next
      case no: False
      then have "st' = st" using cases active by (auto split: if_splits)
      then show ?thesis using no m c by (auto simp: x stay_due_def Let_def)
    qed
  qed
qed

lemma zone_lookup:
  "(case map_of (stays_by_zone stays) z of None \<Rightarrow> [] | Some xs \<Rightarrow> xs)
     = map (\<lambda>(t, s, z, entered, k). (s, entered, k)) (filter (\<lambda>(t, s, z', entered, k). z' = z) stays)"
proof -
  have eq: "filter (\<lambda>x. (case x of (t, s, z, entered, k) \<Rightarrow> z) = z) stays = filter (\<lambda>(t, s, z', entered, k). z' = z) stays"
    by (rule filter_cong) auto
  show ?thesis unfolding stays_by_zone_def map_of_map comp_def map_of_group Let_def eq by simp
qed

definition rule_keys :: "uuid \<Rightarrow> uuid \<Rightarrow> (uuid \<times> uuid \<times> json) set" where
  "rule_keys t r = {k. fst k = t \<and> fst (snd k) = r}"

lemma distinct_sorted_wrt: "distinct (map f xs) \<Longrightarrow> (\<And>x y. f x \<noteq> f y \<Longrightarrow> R x y) \<Longrightarrow> sorted_wrt R xs"
  by (induction xs) force+

lemma concat_if: "concat (map (\<lambda>x. if P x then [f x] else []) xs) = map f (filter P xs)"
  by (induction xs) auto

lemma rule_exact:
  assumes run: "eval_dwell_rule env t (stays_by_zone stays) rule st = (None, st')" and agree: "marks_agree marks (rule_keys t (r_id rule)) st"
    and subjects: "distinct (map (\<lambda>(t, s, z, entered, k). s) stays)"
  shows "alert_keys st' = alert_keys st @ map Some (due_keys env marks t stays rule)
    \<and> (\<forall>k. k \<notin> rule_keys t (r_id rule) \<longrightarrow> map_of (dw_last_alert st') k = map_of (dw_last_alert st) k)"
proof -
  let ?cfg = "condition_config rule"
  define z where "z = jget ?cfg ''zone_id''"
  define st0 where "st0 = st\<lparr>dw_meter := record_usage t ''rule_evaluations'' ''evaluations'' 1 (dw_meter st)\<rparr>"
  define ys where "ys = map (\<lambda>(t, s, z, entered, k). (s, entered, k)) (filter (\<lambda>(t, s, z', entered, k). z' = z) stays)"
  have st0: "alert_keys st0 = alert_keys st" "dw_last_alert st0 = dw_last_alert st" by (simp_all add: st0_def alert_keys_def)
  obtain m where m: "to_int (jget_or ?cfg ''threshold_minutes'' (JInt 0)) = Inr m"
    using run by (cases "to_int (jget_or ?cfg ''threshold_minutes'' (JInt 0))") (auto simp: eval_dwell_rule_def Let_def)
  show ?thesis
  proof (cases "truthy z \<and> 0 < m")
    case False
    then have "st' = st0" using run m by (auto simp: eval_dwell_rule_def Let_def z_def [symmetric] st0_def)
    moreover have "due_keys env marks t stays rule = []"
      using False m by (auto simp: due_keys_def Let_def z_def [symmetric] stay_due_def filter_empty_conv)
    ultimately show ?thesis by (simp add: st0)
  next
    case True
    obtain c where c: "to_int (jget_or ?cfg ''cooldown_s'' (JInt 300)) = Inr c"
      using run m True by (cases "to_int (jget_or ?cfg ''cooldown_s'' (JInt 300))") (auto simp: eval_dwell_rule_def Let_def z_def [symmetric])
    have loop: "for_each (eval_dwell_subject env t rule z m c) ys st0 = (None, st')"
      using run m c True unfolding eval_dwell_rule_def Let_def z_def [symmetric] zone_lookup ys_def [symmetric] st0_def [symmetric]
      by (auto split: if_splits)
    have "distinct (map fst ys)"
    proof -
      have "map fst ys = map (\<lambda>(t, s, z, entered, k). s) (filter (\<lambda>(t, s, z', entered, k). z' = z) stays)" by (auto simp: ys_def)
      then show ?thesis using subjects by (simp add: distinct_map_filter)
    qed
    then have "sorted_wrt (\<lambda>x y. {(t, r_id rule, fst x)} \<inter> {(t, r_id rule, fst y)} = {}) ys" by (rule distinct_sorted_wrt) simp
    moreover have "marks_agree marks (\<Union>x\<in>set ys. {(t, r_id rule, fst x)}) st0" using agree by (simp add: marks_agree_def rule_keys_def st0)
    ultimately have "alert_keys st' = alert_keys st0 @ map Some (concat (map (\<lambda>x. if stay_due env marks t rule x then [(t, r_id rule, fst x)] else []) ys))
        \<and> (\<forall>k. k \<notin> (\<Union>x\<in>set ys. {(t, r_id rule, fst x)}) \<longrightarrow> map_of (dw_last_alert st') k = map_of (dw_last_alert st0) k)"
      using loop True m c by (intro for_each_exact [where f = "eval_dwell_subject env t rule z m c"] subject_exact) auto
    moreover have "concat (map (\<lambda>x. if stay_due env marks t rule x then [(t, r_id rule, fst x)] else []) ys) = due_keys env marks t stays rule"
    proof -
      have "filter (\<lambda>(t, s, z', entered, k). z' = z \<and> truthy z) stays = filter (\<lambda>(t, s, z', entered, k). z' = z) stays"
        using True by (intro filter_cong) auto
      then show ?thesis unfolding concat_if due_keys_def Let_def z_def [symmetric] ys_def by (rule arg_cong [OF sym])
    qed
    ultimately show ?thesis by (auto simp: st0 rule_keys_def)
  qed
qed

lemma tenant_exact:
  assumes run: "eval_dwell_tenant env (t, stays) st = (None, st')" and agree: "marks_agree marks {k. fst k = t} st"
    and subjects: "distinct (map (\<lambda>(t, s, z, entered, k). s) stays)" and ids: "distinct (map r_id (de_rules env))"
  shows "alert_keys st' = alert_keys st @ map Some (concat (map (due_keys env marks t stays) (dwell_rules env t)))
    \<and> (\<forall>k. k \<notin> {k. fst k = t} \<longrightarrow> map_of (dw_last_alert st') k = map_of (dw_last_alert st) k)"
proof -
  let ?K = "\<lambda>rule. rule_keys t (r_id rule)"
  have loop: "for_each (eval_dwell_rule env t (stays_by_zone stays)) (dwell_rules env t) st = (None, st')"
    using run by (auto simp: eval_dwell_tenant_def dwell_rules_def Let_def split: if_splits)
  have "distinct (map r_id (dwell_rules env t))"
    using ids by (simp add: dwell_rules_def get_active_rules_by_condition_type_def comp_def distinct_map_filter)
  then have "sorted_wrt (\<lambda>x y. ?K x \<inter> ?K y = {}) (dwell_rules env t)" by (rule distinct_sorted_wrt) (auto simp: rule_keys_def)
  moreover have "marks_agree marks (\<Union>r\<in>set (dwell_rules env t). ?K r) st" using agree by (auto simp: marks_agree_def rule_keys_def)
  ultimately have "alert_keys st' = alert_keys st @ map Some (concat (map (due_keys env marks t stays) (dwell_rules env t)))
      \<and> (\<forall>k. k \<notin> (\<Union>r\<in>set (dwell_rules env t). ?K r) \<longrightarrow> map_of (dw_last_alert st') k = map_of (dw_last_alert st) k)"
    using loop subjects by (intro for_each_exact [where f = "eval_dwell_rule env t (stays_by_zone stays)"] rule_exact) auto
  then show ?thesis by (auto simp: rule_keys_def)
qed

lemma tenant_stays_subjects:
  assumes "wf_dict (dw_state st)" and "(t, stays) \<in> set (tenant_stays st)"
  shows "distinct (map (\<lambda>(t, s, z, entered, k). s) stays)"
proof -
  let ?key = "\<lambda>(t, s, z, entered, k). (t, s)"
  have "map ?key (snapshot_stays st) = map fst (dw_state st)" by (auto simp: snapshot_stays_def)
  then have "distinct (map ?key (snapshot_stays st))" using assms(1) by simp
  moreover have stays: "stays = filter (\<lambda>x. (case x of (t, s, z, entered, k) \<Rightarrow> t) = t) (filter (\<lambda>(t, s, z, entered, k). z \<noteq> JNull) (snapshot_stays st))"
    using assms(2) unfolding tenant_stays_def group_entry by (rule conjunct1)
  ultimately have "distinct (map ?key stays)" unfolding stays by (intro distinct_map_filter)
  moreover have "inj_on (\<lambda>(t, s, z, entered, k). s) (set stays)" if "inj_on ?key (set stays)"
  proof (rule inj_onI)
    fix x y assume "x \<in> set stays" "y \<in> set stays" "(case x of (t, s, z, entered, k) \<Rightarrow> s) = (case y of (t, s, z, entered, k) \<Rightarrow> s)"
    moreover from this(1,2) have "(case x of (t, s, z, entered, k) \<Rightarrow> t) = t" "(case y of (t, s, z, entered, k) \<Rightarrow> t) = t" unfolding stays by auto
    ultimately have "?key x = ?key y" by (auto split: prod.splits)
    then show "x = y" using that \<open>x \<in> set stays\<close> \<open>y \<in> set stays\<close> by (meson inj_onD)
  qed
  ultimately show ?thesis unfolding distinct_map by blast
qed

text \<open>C29: A pass of the dwell worker that ends raises exactly the alerts that are due: tenant by tenant and rule by rule one
  for each subject whose stay in the zone of the rule has lasted its threshold, whose kind the rule asks for and for
  which the rule has raised no alert within its cooldown, in the order of the tracker.
\<close>
theorem dwell_alerts_exact:
  assumes "dwell_run_once env st = (None, st')" and "distinct (map r_id (de_rules env))" and "wf_dict (dw_state st)"
  shows "map dwell_key_of (dw_alerts st') = map dwell_key_of (dw_alerts st) @
    map Some (concat (map (\<lambda>(t, stays). concat (map (due_keys env (dw_last_alert st) t stays) (dwell_rules env t))) (tenant_stays st)))"
proof -
  let ?K = "\<lambda>(t, stays). {k. fst k = t} :: (uuid \<times> uuid \<times> json) set"
  have loop: "for_each (eval_dwell_tenant env) (tenant_stays st) st = (None, st')"
    using assms(1) by (auto simp: dwell_run_once_def Let_def tenant_stays_def split: prod.splits option.splits)
  have "distinct (map fst (tenant_stays st))" unfolding tenant_stays_def by (rule distinct_group)
  then have "sorted_wrt (\<lambda>x y. ?K x \<inter> ?K y = {}) (tenant_stays st)" by (rule distinct_sorted_wrt) auto
  moreover have "marks_agree (dw_last_alert st) (\<Union>x\<in>set (tenant_stays st). ?K x) st" by (simp add: marks_agree_def)
  moreover have "alert_keys s' = alert_keys s @ map Some (case x of (t, stays) \<Rightarrow> concat (map (due_keys env (dw_last_alert st) t stays) (dwell_rules env t)))
      \<and> (\<forall>k. k \<notin> ?K x \<longrightarrow> map_of (dw_last_alert s') k = map_of (dw_last_alert s) k)"
    if "x \<in> set (tenant_stays st)" "eval_dwell_tenant env x s = (None, s')" "marks_agree (dw_last_alert st) (?K x) s" for x s s'
  proof -
    obtain t stays where x: "x = (t, stays)" by (cases x)
    show ?thesis using tenant_exact [of env t stays s s' "dw_last_alert st"] tenant_stays_subjects [OF assms(3)] assms(2) that by (simp add: x)
  qed
  ultimately show ?thesis unfolding alert_keys_def [symmetric]
    using loop for_each_exact [of "tenant_stays st" "eval_dwell_tenant env" "dw_last_alert st" ?K
      "\<lambda>(t, stays). concat (map (due_keys env (dw_last_alert st) t stays) (dwell_rules env t))" st st'] by blast
qed

section \<open>One malformed rule\<close>

definition malformed_dwell_rule :: "dwell_env \<Rightarrow> uuid \<Rightarrow> bool" where
  "malformed_dwell_rule env t \<longleftrightarrow> list_ex (\<lambda>r. isl (to_int (jget_or (condition_config r) ''threshold_minutes'' (JInt 0)))) (dwell_rules env t)"

lemma malformed_rule_fails: "to_int (jget_or (condition_config r) ''threshold_minutes'' (JInt 0)) = Inl e \<Longrightarrow> fst (eval_dwell_rule env t by_zone r st) = Some e"
  by (simp add: eval_dwell_rule_def Let_def)

lemma malformed_tenant_fails:
  assumes "malformed_dwell_rule env t"
  shows "\<exists>e. fst (eval_dwell_tenant env (t, stays) st) = Some e"
proof -
  obtain r e where r: "r \<in> set (dwell_rules env t)" "to_int (jget_or (condition_config r) ''threshold_minutes'' (JInt 0)) = Inl e"
    using assms by (auto simp: malformed_dwell_rule_def list_ex_iff isl_def)
  have "\<exists>e. fst (for_each (eval_dwell_rule env t by_zone) (dwell_rules env t) st) = Some e" for by_zone st
    using r(1) by (rule for_each_fails) (blast intro: malformed_rule_fails [OF r(2)])
  then show ?thesis using r(1) by (auto simp: eval_dwell_tenant_def dwell_rules_def Let_def)
qed

text \<open>
  One malformed rule silences the dwell alerts of every tenant: the configuration of a rule is free-form, and while
  a tenant with a subject in some zone has a dwell rule whose threshold is null or no number, no pass ends and none stores an
  alert.
\<close>
lemma malformed_threshold_silences_dwell:
  assumes "malformed_dwell_rule env t" and "(t, s, z, entered, k) \<in> set (snapshot_stays st)" and "z \<noteq> JNull"
  shows "\<exists>e st'. dwell_run_once env st = (Some e, st') \<and> dw_alerts st' = dw_alerts st"
proof -
  have "map_of (tenant_stays st) t \<noteq> None" using assms(2,3)
    by (force simp: tenant_stays_def map_of_group Let_def filter_empty_conv)
  then obtain stays where "(t, stays) \<in> set (tenant_stays st)" by (auto dest: map_of_SomeD)
  then have "\<exists>e. fst (for_each (eval_dwell_tenant env) (tenant_stays st) st) = Some e"
    by (rule for_each_fails) (rule malformed_tenant_fails [OF assms(1)])
  then obtain e st' where "for_each (eval_dwell_tenant env) (tenant_stays st) st = (Some e, st')" by (metis prod.collapse)
  then show ?thesis by (simp add: dwell_run_once_def tenant_stays_def)
qed

section \<open>Witnesses\<close>

definition demo_dwell_rule :: rule where
  "demo_dwell_rule = demo_rule\<lparr>condition_type := ''zone.dwell_exceeded'',
     condition_config := [(''zone_id'', JStr (str_uuid 9)), (''threshold_minutes'', JInt 5)]\<rparr>"

definition demo_dwell_env :: "datetime \<Rightarrow> rule list \<Rightarrow> dwell_env" where
  "demo_dwell_env now rules = \<lparr>de_now = now, de_fromisoformat = (\<lambda>_. Some 0), de_tenants = [1], de_rules = rules, de_uuid4 = word_of_nat\<rparr>"

definition demo_move :: jobj where
  "demo_move = [(''tenant_id'', JStr (str_uuid 1)), (''subject_kind'', JStr ''asset''), (''subject_id'', JStr (str_uuid 5)),
     (''zone_kind'', JStr ''reader_bound''), (''to_zone_id'', JStr (str_uuid 9)), (''timestamp'', JStr ''T'')]"

lemma demo_dwell_env_simps [simp]: "de_now (demo_dwell_env now rules) = now" "de_tenants (demo_dwell_env now rules) = [1]"
  "de_rules (demo_dwell_env now rules) = rules" "de_uuid4 (demo_dwell_env now rules) = word_of_nat"
  by (simp_all add: demo_dwell_env_def)

lemma demo_move_fields [simp]: "jget demo_move ''tenant_id'' = JStr (str_uuid 1)" "jget demo_move ''subject_kind'' = JStr ''asset''"
  "jget demo_move ''subject_id'' = JStr (str_uuid 5)" "jget demo_move ''zone_kind'' = JStr ''reader_bound''"
  "jget demo_move ''to_zone_id'' = JStr (str_uuid 9)" "jget demo_move ''timestamp'' = JStr ''T''"
  by (simp_all add: demo_move_def jget_def)

lemma demo_tracked: "dw_state (snd (dwell_zone_changed 10 (demo_dwell_env now rules) demo_move fresh_tracker)) = [((1, JStr (str_uuid 5)), (JStr (str_uuid 9), 0, JStr ''asset''))]"
  by (simp add: dwell_zone_changed_def Let_def persist_zone_def fresh_tracker_def entered_at_of_def demo_dwell_env_def bounded_set_def split: sum.split)

theorem restart_keeps_the_stays_witness:
  "map_of (dw_state (restart 10 rev (track_moves 10 [(demo_dwell_env 0 [], demo_move)] fresh_tracker))) (1, JStr (str_uuid 5))
     = Some (JStr (str_uuid 9), 0, JStr ''asset'')"
proof -
  have "map_of (dw_state (restart 10 rev (track_moves 10 [(demo_dwell_env 0 [], demo_move)] fresh_tracker)))
      = map_of (dw_state (track_moves 10 [(demo_dwell_env 0 [], demo_move)] fresh_tracker))"
    by (rule restart_keeps_the_stays [where kind_of = "\<lambda>_. JStr ''asset''"]) (simp_all add: plain_move_def printed_uuid_def short_or_null_def)
  then show ?thesis by (simp add: track_moves_def demo_tracked)
qed

theorem dwell_alerts_are_spaced_witness:
  "sorted_wrt dwell_spaced (map pe_alert (dw_published (fold (dwell_step 10) [(demo_dwell_env 0 [demo_dwell_rule], Moved demo_move),
     (demo_dwell_env 600000000 [demo_dwell_rule], Pass), (demo_dwell_env 1000000000 [demo_dwell_rule], Pass)] fresh_tracker)))"
  by (rule dwell_alerts_are_spaced) simp

definition demo_stay :: dwell where
  "demo_stay = fresh_tracker\<lparr>dw_state := [((1, JStr (str_uuid 5)), (JStr (str_uuid 9), 0, JStr ''asset''))]\<rparr>"

lemma demo_dwell_rule_fields [simp]:
  "jget (condition_config demo_dwell_rule) ''zone_id'' = JStr (str_uuid 9)" "jget (condition_config demo_dwell_rule) ''subject_kinds'' = JNull"
  "jget_or (condition_config demo_dwell_rule) ''threshold_minutes'' (JInt 0) = JInt 5"
  "jget_or (condition_config demo_dwell_rule) ''cooldown_s'' (JInt 300) = JInt 300"
  by (simp_all add: demo_dwell_rule_def jget_def jget_or_def)

lemma demo_dwell_rule_found:
  "get_active_rules_by_condition_type [demo_dwell_rule] 1 ''zone.dwell_exceeded'' = [demo_dwell_rule]"
  by (simp add: get_active_rules_by_condition_type_def demo_dwell_rule_def rule_examples rule_to_response_def)

lemma demo_pass: "fst (dwell_run_once (demo_dwell_env 600000000 [demo_dwell_rule]) demo_stay) = None"
  apply (simp add: dwell_run_once_def Let_def snapshot_stays_def demo_stay_def group_into_def eval_dwell_tenant_def demo_dwell_rule_found eval_dwell_rule_def
    stays_by_zone_def eval_dwell_subject_def td_fits_def us_per_day_def seconds_def fresh_tracker_def dwell_cooldown_active_def split: prod.split)
  done

theorem dwell_alerts_exact_witness:
  "map dwell_key_of (dw_alerts (snd (dwell_run_once (demo_dwell_env 600000000 [demo_dwell_rule]) demo_stay))) = [Some (1, 4, JStr (str_uuid 5))]"
proof -
  let ?env = "demo_dwell_env 600000000 [demo_dwell_rule]"
  have "dwell_run_once ?env demo_stay = (None, snd (dwell_run_once ?env demo_stay))" using demo_pass by (metis prod.collapse)
  then have "map dwell_key_of (dw_alerts (snd (dwell_run_once ?env demo_stay))) = map dwell_key_of (dw_alerts demo_stay) @
      map Some (concat (map (\<lambda>(t, stays). concat (map (due_keys ?env (dw_last_alert demo_stay) t stays) (dwell_rules ?env t))) (tenant_stays demo_stay)))"
    by (rule dwell_alerts_exact) (simp_all add: demo_stay_def)
  also have "\<dots> = [Some (1, 4, JStr (str_uuid 5))]"
    by (simp add: demo_stay_def fresh_tracker_def tenant_stays_def snapshot_stays_def group_into_def dwell_rules_def demo_dwell_rule_found due_keys_def
      stay_due_def cooled_down_def seconds_def) (simp add: demo_dwell_rule_def rule_examples)
  finally show ?thesis .
qed

lemma malformed_threshold_silences_dwell_example:
  "let env = demo_dwell_env 600000000 [demo_dwell_rule\<lparr>condition_config := [(''threshold_minutes'', JNull)]\<rparr>]
   in \<exists>e st'. dwell_run_once env demo_stay = (Some e, st') \<and> dw_alerts st' = []"
proof -
  let ?env = "demo_dwell_env 600000000 [demo_dwell_rule\<lparr>condition_config := [(''threshold_minutes'', JNull)]\<rparr>]"
  have "\<exists>e st'. dwell_run_once ?env demo_stay = (Some e, st') \<and> dw_alerts st' = dw_alerts demo_stay"
  proof (rule malformed_threshold_silences_dwell)
    show "(1, JStr (str_uuid 5), JStr (str_uuid 9), 0, JStr ''asset'') \<in> set (snapshot_stays demo_stay)"
      by (simp add: snapshot_stays_def demo_stay_def)
    show "malformed_dwell_rule ?env 1"
      by (simp add: malformed_dwell_rule_def dwell_rules_def get_active_rules_by_condition_type_def demo_dwell_rule_def rule_examples rule_to_response_def
        jget_or_def)
  qed simp
  then show ?thesis by (simp add: demo_stay_def fresh_tracker_def)
qed

end
