(* ===== verification/Assets.thy ===== *)
theory Assets
  imports TagRegistry FloorPosition
begin

text \<open>
  Assets, the tags bound to them and what carries what (\<open>api/services/asset_service.py\<close>,
  \<open>repositories/timescaledb/assets.py\<close>, the requests of \<open>api/routes/assets.py\<close> that change something, and the manifest).
  Bodies of requests are as their schemas leave them.  A request is one transaction; published events are not taken back.
\<close>

section \<open>Tables\<close>

record asset_row =
  as_id :: uuid
  as_tenant_id :: uuid
  as_external_ref :: "string option"
  as_name :: string
  as_display_label :: "string option"
  as_status :: string
  as_parent_asset_id :: "uuid option"
  as_category_id :: uuid
  as_metadata :: "jobj option"
  as_created_at :: datetime
  as_updated_at :: datetime

record tag_binding =
  tb_id :: uuid
  tb_tenant_id :: uuid
  tb_asset_id :: uuid
  tb_binding_value :: string
  tb_binding_kind :: string
  tb_bound_at :: datetime
  tb_unbound_at :: "datetime option"
  tb_metadata :: "jobj option"

record asset_event =
  av_topic :: string
  av_timestamp :: datetime
  av_payload :: jobj

record asset_db =
  ad_assets :: "asset_row list"
  ad_bindings :: "tag_binding list"
  ad_audit :: "audit_entry list"
  ad_events :: "asset_event list"
  ad_fresh :: nat \<comment> \<open>how many identifiers of rows \<open>uuid4\<close> has drawn\<close>

record asset_env =
  aq_now :: datetime
  aq_uuid4 :: "nat \<Rightarrow> uuid"
  aq_categories :: "uuid list"
  aq_collate :: "string \<Rightarrow> string" \<comment> \<open>the key by which the database sorts a text\<close>

record asset_create =
  ap_name :: string
  ap_external_ref :: "string option"
  ap_display_label :: "string option"
  ap_status :: string
  ap_parent_asset_id :: "uuid option"
  ap_category_id :: uuid
  ap_metadata :: "jobj option"

text \<open>A patch: \<open>None\<close> where the field was not sent, \<open>Some None\<close> for an explicit null.\<close>

record asset_update =
  au_name :: "string option option"
  au_external_ref :: "string option option"
  au_display_label :: "string option option"
  au_status :: "string option option"
  au_parent_asset_id :: "uuid option option"
  au_category_id :: "uuid option option"
  au_metadata :: "jobj option option"

record binding_create =
  bc_binding_value :: string
  bc_binding_kind :: string
  bc_metadata :: "jobj option"

section \<open>The repositories\<close>

definition external_key :: "asset_row \<Rightarrow> uuid \<times> string option" where
  "external_key r = (as_tenant_id r, as_external_ref r)"

text \<open>
  The constraints of \<open>assets\<close> that a row must satisfy, the primary key apart.  No request can name as parent the identifier
  that is drawn for it.
\<close>

definition asset_fits :: "asset_env \<Rightarrow> asset_row \<Rightarrow> asset_row list \<Rightarrow> bool" where
  "asset_fits env row rows \<longleftrightarrow>
     \<not> (as_external_ref row \<noteq> None \<and> list_ex (\<lambda>r. as_id r \<noteq> as_id row \<and> external_key r = external_key row) rows)
     \<and> as_category_id row \<in> set (aq_categories env)
     \<and> (case as_parent_asset_id row of None \<Rightarrow> True | Some p \<Rightarrow> list_ex (\<lambda>r. as_id r = p) rows)"

definition asset_conflict :: py_exn where
  "asset_conflict = ValueError ''Asset external_ref already exists for this tenant''"

definition asset_create_row :: "asset_env \<Rightarrow> uuid \<Rightarrow> asset_create \<Rightarrow> (asset_db, asset_row) step" where
  "asset_create_row env tenant_id asset st =
     (let i = aq_uuid4 env (ad_fresh st); st = st\<lparr>ad_fresh := Suc (ad_fresh st)\<rparr>;
          row = \<lparr>as_id = i, as_tenant_id = tenant_id, as_external_ref = ap_external_ref asset, as_name = ap_name asset,
            as_display_label = ap_display_label asset, as_status = ap_status asset, as_parent_asset_id = ap_parent_asset_id asset,
            as_category_id = ap_category_id asset, as_metadata = ap_metadata asset, as_created_at = aq_now env, as_updated_at = aq_now env\<rparr>
      in if list_ex (\<lambda>r. as_id r = i) (ad_assets st) \<or> \<not> asset_fits env row (ad_assets st) then (Inl asset_conflict, st)
         else (Inr row, st\<lparr>ad_assets := ad_assets st @ [row]\<rparr>))"

definition asset_get :: "uuid \<Rightarrow> uuid \<Rightarrow> asset_row list \<Rightarrow> asset_row option" where
  "asset_get tenant_id asset_id rows = find (\<lambda>r. as_id r = asset_id \<and> as_tenant_id r = tenant_id) rows"

definition patched_asset :: "asset_update \<Rightarrow> asset_row \<Rightarrow> asset_row" where
  "patched_asset u row = row\<lparr>as_name := patched_not_null (au_name u) (as_name row), as_external_ref := patched (au_external_ref u) (as_external_ref row),
     as_display_label := patched (au_display_label u) (as_display_label row), as_status := patched_not_null (au_status u) (as_status row),
     as_parent_asset_id := patched (au_parent_asset_id u) (as_parent_asset_id row),
     as_category_id := patched_not_null (au_category_id u) (as_category_id row), as_metadata := patched (au_metadata u) (as_metadata row)\<rparr>"

text \<open>An update that changes a column sets \<open>updated_at\<close>.\<close>

definition touched :: "asset_env \<Rightarrow> asset_row \<Rightarrow> asset_row \<Rightarrow> asset_row" where
  "touched env old new = (if new = old then old else new\<lparr>as_updated_at := aq_now env\<rparr>)"

definition write_asset :: "asset_row \<Rightarrow> asset_db \<Rightarrow> asset_db" where
  "write_asset row st = st\<lparr>ad_assets := update_row as_id (as_id row) (\<lambda>_. row) (ad_assets st)\<rparr>"

definition asset_update_row :: "asset_env \<Rightarrow> uuid \<Rightarrow> uuid \<Rightarrow> asset_update \<Rightarrow> (asset_db, asset_row option) step" where
  "asset_update_row env tenant_id asset_id patch st =
     (case asset_get tenant_id asset_id (ad_assets st) of
        None \<Rightarrow> (Inr None, st)
      | Some row \<Rightarrow>
          (let new = touched env row (patched_asset patch row) in
           if sets_null (au_name patch) \<or> sets_null (au_status patch) \<or> sets_null (au_category_id patch) \<or> \<not> asset_fits env new (ad_assets st)
           then (Inl asset_conflict, st) else (Inr (Some new), write_asset new st)))"

definition asset_delete_row :: "asset_env \<Rightarrow> uuid \<Rightarrow> uuid \<Rightarrow> (asset_db, bool) step" where
  "asset_delete_row env tenant_id asset_id st =
     (case asset_get tenant_id asset_id (ad_assets st) of
        None \<Rightarrow> (Inr False, st)
      | Some row \<Rightarrow> (Inr True, write_asset (touched env row (row\<lparr>as_status := ''retired''\<rparr>)) st))"

definition set_parent :: "asset_env \<Rightarrow> uuid \<Rightarrow> uuid \<Rightarrow> uuid option \<Rightarrow> (asset_db, (asset_row \<times> uuid option) option) step" where
  "set_parent env tenant_id asset_id parent_asset_id st =
     (case asset_get tenant_id asset_id (ad_assets st) of
        None \<Rightarrow> (Inr None, st)
      | Some row \<Rightarrow>
          (let new = touched env row (row\<lparr>as_parent_asset_id := parent_asset_id\<rparr>) in
           if case parent_asset_id of None \<Rightarrow> False | Some p \<Rightarrow> \<not> list_ex (\<lambda>r. as_id r = p) (ad_assets st)
           then (Inl (OtherError ''IntegrityError''), st)
           else (Inr (Some (new, as_parent_asset_id row)), write_asset new st)))"

text \<open>The recursive query: one level after the other, until a level is empty.\<close>

definition carried_by :: "uuid \<Rightarrow> asset_row list \<Rightarrow> uuid \<Rightarrow> asset_row list" where
  "carried_by tenant_id rows p =
     filter (\<lambda>r. as_tenant_id r = tenant_id \<and> as_parent_asset_id r = Some p \<and> as_status r \<noteq> ''retired'') rows"

partial_function (option) descend :: "uuid \<Rightarrow> asset_row list \<Rightarrow> nat \<Rightarrow> asset_row list \<Rightarrow> (asset_row \<times> nat) list option" where
  "descend tenant_id rows depth level =
     (if level = [] then Some []
      else Option.bind (descend tenant_id rows (Suc depth) (concat (map (\<lambda>d. carried_by tenant_id rows (as_id d)) level)))
        (\<lambda>below. Some (map (\<lambda>r. (r, depth)) level @ below)))"

definition get_descendants :: "asset_env \<Rightarrow> uuid \<Rightarrow> uuid \<Rightarrow> asset_row list \<Rightarrow> (asset_row \<times> nat) list option" where
  "get_descendants env tenant_id asset_id rows =
     map_option (\<lambda>ds. sort_key snd (sort_key (\<lambda>(r, depth). aq_collate env (as_name r)) ds)) (descend tenant_id rows 1 (carried_by tenant_id rows asset_id))"

text \<open>What the ingestion and the fusion read of a binding.\<close>

definition binding_row_of :: "tag_binding \<Rightarrow> binding_row" where
  "binding_row_of b = \<lparr>bd_tenant_id = tb_tenant_id b, bd_asset_id = tb_asset_id b, bd_value = tb_binding_value b, bd_kind = tb_binding_kind b,
     bd_unbound_at = tb_unbound_at b\<rparr>"

text \<open>Bindings: a value is active at most once for each tenant.\<close>

definition active_tag :: "uuid \<Rightarrow> string \<Rightarrow> tag_binding \<Rightarrow> bool" where
  "active_tag tenant_id v b \<longleftrightarrow> tb_tenant_id b = tenant_id \<and> tb_binding_value b = v \<and> tb_unbound_at b = None"

definition binding_conflict :: py_exn where
  "binding_conflict = ValueError ''binding_value is already actively bound for this tenant''"

definition binding_create_row :: "asset_env \<Rightarrow> uuid \<Rightarrow> uuid \<Rightarrow> binding_create \<Rightarrow> (asset_db, tag_binding) step" where
  "binding_create_row env tenant_id asset_id payload st =
     (let i = aq_uuid4 env (ad_fresh st); st = st\<lparr>ad_fresh := Suc (ad_fresh st)\<rparr>;
          row = \<lparr>tb_id = i, tb_tenant_id = tenant_id, tb_asset_id = asset_id, tb_binding_value = bc_binding_value payload,
            tb_binding_kind = bc_binding_kind payload, tb_bound_at = aq_now env, tb_unbound_at = None, tb_metadata = bc_metadata payload\<rparr>
      in if list_ex (\<lambda>b. tb_id b = i \<or> active_tag tenant_id (bc_binding_value payload) b) (ad_bindings st) \<or>
           \<not> list_ex (\<lambda>r. as_id r = asset_id) (ad_assets st)
         then (Inl binding_conflict, st) else (Inr row, st\<lparr>ad_bindings := ad_bindings st @ [row]\<rparr>))"

definition list_for_asset :: "uuid \<Rightarrow> uuid \<Rightarrow> bool \<Rightarrow> tag_binding list \<Rightarrow> tag_binding list" where
  "list_for_asset tenant_id asset_id active_only bs =
     order_desc tb_bound_at (filter (\<lambda>b. tb_tenant_id b = tenant_id \<and> tb_asset_id b = asset_id \<and> (active_only \<longrightarrow> tb_unbound_at b = None)) bs)"

definition unbind_row :: "asset_env \<Rightarrow> uuid \<Rightarrow> uuid \<Rightarrow> string \<Rightarrow> (asset_db, bool) step" where
  "unbind_row env tenant_id asset_id binding_value st =
     (case scalar_one_or_none (filter (\<lambda>b. active_tag tenant_id binding_value b \<and> tb_asset_id b = asset_id) (ad_bindings st)) of
        Inl e \<Rightarrow> (Inl e, st)
      | Inr None \<Rightarrow> (Inr False, st)
      | Inr (Some b) \<Rightarrow> (Inr True, st\<lparr>ad_bindings := update_row tb_id (tb_id b) (\<lambda>b. b\<lparr>tb_unbound_at := Some (aq_now env)\<rparr>) (ad_bindings st)\<rparr>))"

definition binding_candidates :: "string \<Rightarrow> string list" where
  "binding_candidates v = [v, py_upper (py_strip v)]"

text \<open>The join lists an asset once for each of its active bindings that match; the earliest binding wins.\<close>

definition get_by_binding_value :: "uuid \<Rightarrow> string \<Rightarrow> asset_db \<Rightarrow> (asset_row \<times> string \<times> string) option" where
  "get_by_binding_value tenant_id v st =
     (case sort_key tb_bound_at (filter (\<lambda>b. tb_tenant_id b = tenant_id \<and> tb_binding_value b \<in> set (binding_candidates v) \<and> tb_unbound_at b = None \<and>
             asset_get tenant_id (tb_asset_id b) (ad_assets st) \<noteq> None) (ad_bindings st)) of
        [] \<Rightarrow> None
      | b # _ \<Rightarrow> map_option (\<lambda>r. (r, tb_binding_kind b, tb_binding_value b)) (asset_get tenant_id (tb_asset_id b) (ad_assets st)))"

definition count_other_tenant_collisions :: "uuid \<Rightarrow> string \<Rightarrow> tag_binding list \<Rightarrow> nat" where
  "count_other_tenant_collisions tenant_id v bs =
     length (remdups (map tb_tenant_id (filter (\<lambda>b. tb_binding_value b = v \<and> tb_unbound_at b = None \<and> tb_tenant_id b \<noteq> tenant_id) bs)))"

section \<open>The service\<close>

definition asset_not_found :: py_exn where
  "asset_not_found = OtherError ''AssetNotFoundError''"

text \<open>The log of an asset (no changes: an empty list); changes that are not JSON, such as a UUID, make the commit fail.\<close>

definition asset_audit :: "actor \<Rightarrow> string \<Rightarrow> uuid \<Rightarrow> (string \<times> json option) list \<Rightarrow> (asset_db, unit) step" where
  "asset_audit user action asset_id changes =
     (if list_ex (\<lambda>(k, v). v = None) changes then lift_res (Inl (OtherError ''StatementError''))
      else change (\<lambda>st. st\<lparr>ad_audit := ad_audit st @
        [audit_entry_of (ac_tenant_id user) action ''asset'' asset_id (map (\<lambda>(k, v). (k, the v)) changes) (ac_user_id user)]\<rparr>))"

definition publish_asset_event :: "asset_event \<Rightarrow> (asset_db, unit) step" where
  "publish_asset_event e = change (\<lambda>st. st\<lparr>ad_events := ad_events st @ [e]\<rparr>)"

text \<open>\<open>model_dump(exclude_unset=True)\<close>: \<open>None\<close> for what is not JSON.\<close>

definition text_dump :: "string option \<Rightarrow> json option" where
  "text_dump v = Some (case v of None \<Rightarrow> JNull | Some s \<Rightarrow> JStr s)"

definition uuid_dump :: "uuid option \<Rightarrow> json option" where
  "uuid_dump v = (case v of None \<Rightarrow> Some JNull | Some _ \<Rightarrow> None)"

definition blob_dump :: "jobj option \<Rightarrow> json option" where
  "blob_dump v = Some (case v of None \<Rightarrow> JNull | Some d \<Rightarrow> JObj d)"

definition sent :: "string \<Rightarrow> ('a \<Rightarrow> json option) \<Rightarrow> 'a option \<Rightarrow> (string \<times> json option) list" where
  "sent name dump u = (case u of None \<Rightarrow> [] | Some v \<Rightarrow> [(name, dump v)])"

definition asset_changes :: "asset_update \<Rightarrow> (string \<times> json option) list" where
  "asset_changes u = sent ''name'' text_dump (au_name u) @ sent ''external_ref'' text_dump (au_external_ref u) @
     sent ''display_label'' text_dump (au_display_label u) @ sent ''status'' text_dump (au_status u) @
     sent ''parent_asset_id'' uuid_dump (au_parent_asset_id u) @ sent ''category_id'' uuid_dump (au_category_id u) @
     sent ''metadata'' blob_dump (au_metadata u)"

definition svc_create_asset :: "asset_env \<Rightarrow> actor \<Rightarrow> asset_create \<Rightarrow> (asset_db, asset_row) step" where
  "svc_create_asset env user payload =
     run_then (asset_create_row env (ac_tenant_id user) payload) (\<lambda>asset.
     run_then (asset_audit user ''asset.created'' (as_id asset)
       [(''name'', Some (JStr (as_name asset))), (''category_id'', Some (JStr (str_uuid (as_category_id asset))))]) (\<lambda>_. give asset))"

definition svc_update_asset :: "asset_env \<Rightarrow> actor \<Rightarrow> uuid \<Rightarrow> asset_update \<Rightarrow> (asset_db, asset_row option) step" where
  "svc_update_asset env user asset_id patch =
     run_then (asset_update_row env (ac_tenant_id user) asset_id patch) (\<lambda>updated. case updated of
         None \<Rightarrow> give None
       | Some asset \<Rightarrow> run_then (asset_audit user ''asset.updated'' (as_id asset) (asset_changes patch)) (\<lambda>_. give (Some asset)))"

definition svc_retire_asset :: "asset_env \<Rightarrow> actor \<Rightarrow> uuid \<Rightarrow> (asset_db, bool) step" where
  "svc_retire_asset env user asset_id =
     run_then (asset_delete_row env (ac_tenant_id user) asset_id) (\<lambda>deleted.
       if \<not> deleted then give False else run_then (asset_audit user ''asset.retired'' asset_id []) (\<lambda>_. give True))"

definition svc_bind_tag :: "asset_env \<Rightarrow> actor \<Rightarrow> uuid \<Rightarrow> binding_create \<Rightarrow> (asset_db, tag_binding) step" where
  "svc_bind_tag env user asset_id payload =
     (let payload = (if bc_binding_kind payload = ''vin'' then payload\<lparr>bc_binding_value := py_upper (py_strip (bc_binding_value payload))\<rparr> else payload) in
      run_then (binding_create_row env (ac_tenant_id user) asset_id payload) (\<lambda>b.
      run_then (asset_audit user ''asset.bound'' asset_id
        [(''binding_value'', Some (JStr (tb_binding_value b))), (''binding_kind'', Some (JStr (tb_binding_kind b)))]) (\<lambda>_. give b)))"

definition svc_unbind_tag :: "asset_env \<Rightarrow> actor \<Rightarrow> uuid \<Rightarrow> string \<Rightarrow> (asset_db, bool) step" where
  "svc_unbind_tag env user asset_id binding_value =
     run_then (unbind_row env (ac_tenant_id user) asset_id binding_value) (\<lambda>unbound.
       if \<not> unbound then give False
       else run_then (asset_audit user ''asset.unbound'' asset_id [(''binding_value'', Some (JStr binding_value))]) (\<lambda>_. give True))"

text \<open>The walk up from the new carrier: at most 64 steps, \<open>Some\<close> for what it raises.\<close>

fun parent_cycle :: "nat \<Rightarrow> uuid \<Rightarrow> asset_row list \<Rightarrow> uuid list \<Rightarrow> uuid option \<Rightarrow> py_exn option" where
  "parent_cycle 0 tenant_id rows seen cursor = Some (ValueError ''asset containment depth exceeds 64 - refusing to load'')"
| "parent_cycle (Suc n) tenant_id rows seen None = None"
| "parent_cycle (Suc n) tenant_id rows seen (Some c) =
     (if c \<in> set seen then Some (ValueError ''load would create a containment cycle'')
      else (case asset_get tenant_id c rows of None \<Rightarrow> None | Some r \<Rightarrow> parent_cycle n tenant_id rows (c # seen) (as_parent_asset_id r)))"

definition assert_no_parent_cycle :: "uuid \<Rightarrow> uuid \<Rightarrow> uuid \<Rightarrow> asset_row list \<Rightarrow> py_exn + unit" where
  "assert_no_parent_cycle tenant_id asset_id proposed rows =
     (case parent_cycle 64 tenant_id rows [asset_id] (Some proposed) of None \<Rightarrow> Inr () | Some e \<Rightarrow> Inl e)"

definition load_onto_carrier :: "asset_env \<Rightarrow> actor \<Rightarrow> uuid \<Rightarrow> uuid \<Rightarrow> datetime option \<Rightarrow> (asset_db, asset_row) step" where
  "load_onto_carrier env user asset_id parent_asset_id stamp =
     (if asset_id = parent_asset_id then lift_res (Inl (ValueError ''asset cannot be its own parent''))
      else run_then (query (\<lambda>st. asset_get (ac_tenant_id user) parent_asset_id (ad_assets st))) (\<lambda>parent.
      run_then (lift_res (if parent = None then Inl asset_not_found else Inr ())) (\<lambda>_.
      run_then (\<lambda>st. lift_res (assert_no_parent_cycle (ac_tenant_id user) asset_id parent_asset_id (ad_assets st)) st) (\<lambda>_.
      run_then (set_parent env (ac_tenant_id user) asset_id (Some parent_asset_id)) (\<lambda>result. case result of
         None \<Rightarrow> lift_res (Inl asset_not_found)
       | Some (updated, prior) \<Rightarrow>
           if prior = Some parent_asset_id then give updated
           else (let timestamp = (case stamp of None \<Rightarrow> aq_now env | Some t \<Rightarrow> t) in
             run_then (asset_audit user ''asset.loaded'' asset_id [(''parent_asset_id'', Some (JStr (str_uuid parent_asset_id))),
               (''prior_parent_asset_id'', Some (json_uuid prior))]) (\<lambda>_.
             run_then (publish_asset_event \<lparr>av_topic = ''asset.loaded'', av_timestamp = timestamp,
               av_payload = [(''tenant_id'', JStr (str_uuid (ac_tenant_id user))), (''asset_id'', JStr (str_uuid asset_id)),
                 (''parent_asset_id'', JStr (str_uuid parent_asset_id)), (''at'', JStr (isoformat timestamp))]\<rparr>) (\<lambda>_. give updated))))))))"

definition unload_from_carrier :: "asset_env \<Rightarrow> actor \<Rightarrow> uuid \<Rightarrow> datetime option \<Rightarrow> (asset_db, asset_row) step" where
  "unload_from_carrier env user asset_id stamp =
     run_then (set_parent env (ac_tenant_id user) asset_id None) (\<lambda>result. case result of
         None \<Rightarrow> lift_res (Inl asset_not_found)
       | Some (updated, None) \<Rightarrow> give updated
       | Some (updated, Some prior) \<Rightarrow>
           (let timestamp = (case stamp of None \<Rightarrow> aq_now env | Some t \<Rightarrow> t) in
             run_then (asset_audit user ''asset.unloaded'' asset_id [(''prior_parent_asset_id'', Some (JStr (str_uuid prior)))]) (\<lambda>_.
             run_then (publish_asset_event \<lparr>av_topic = ''asset.unloaded'', av_timestamp = timestamp,
               av_payload = [(''tenant_id'', JStr (str_uuid (ac_tenant_id user))), (''asset_id'', JStr (str_uuid asset_id)),
                 (''prior_parent_asset_id'', JStr (str_uuid prior)), (''at'', JStr (isoformat timestamp))]\<rparr>) (\<lambda>_. give updated))))"

section \<open>The manifest\<close>

datatype manifest_entry = ManifestEntry (me_asset_id: uuid) (me_name: string) (me_parent_asset_id: "uuid option") (me_depth: nat)
  (me_children: "manifest_entry list")

record manifest_response =
  mr_asset_id :: uuid
  mr_name :: string
  mr_children :: "manifest_entry list"

text \<open>The entries by identifier, in the order of the query; a repeated row would replace the first one in its place.\<close>

definition manifest_entries :: "(asset_row \<times> nat) list \<Rightarrow> (uuid, asset_row \<times> nat) pydict" where
  "manifest_entries ds = fold (\<lambda>(r, depth). dict_set (as_id r) (r, depth)) ds []"

text \<open>
  Every entry is appended to the children of its parent, in the order of the entries: the children of an entry, and
  theirs, as deep as there are entries.
\<close>

fun entry_tree :: "nat \<Rightarrow> uuid \<Rightarrow> (uuid, asset_row \<times> nat) pydict \<Rightarrow> asset_row \<times> nat \<Rightarrow> manifest_entry" where
  "entry_tree fuel carrier entries (r, depth) = ManifestEntry (as_id r) (as_name r) (as_parent_asset_id r) depth
     (case fuel of 0 \<Rightarrow> []
      | Suc n \<Rightarrow> map (entry_tree n carrier entries)
          (filter (\<lambda>(c, _). as_parent_asset_id c = Some (as_id r) \<and> as_parent_asset_id c \<noteq> Some carrier) (map snd entries)))"

definition get_manifest :: "asset_env \<Rightarrow> uuid \<Rightarrow> uuid \<Rightarrow> asset_row list \<Rightarrow> (py_exn + manifest_response) option" where
  "get_manifest env tenant_id asset_id rows =
     (case asset_get tenant_id asset_id rows of
        None \<Rightarrow> Some (Inl asset_not_found)
      | Some carrier \<Rightarrow> map_option (\<lambda>ds. let entries = manifest_entries ds in
          Inr \<lparr>mr_asset_id = as_id carrier, mr_name = as_name carrier,
            mr_children = map (entry_tree (length entries) asset_id entries)
              (filter (\<lambda>(c, _). as_parent_asset_id c = Some asset_id) (map snd entries))\<rparr>) (get_descendants env tenant_id asset_id rows))"

section \<open>The requests\<close>

definition in_asset_request :: "(asset_db, 'a) step \<Rightarrow> (asset_db, 'a) step" where
  "in_asset_request m st =
     (case m st of
        (Inr a, st') \<Rightarrow> (Inr a, st')
      | (Inl e, st') \<Rightarrow> (Inl e, st'\<lparr>ad_assets := ad_assets st, ad_bindings := ad_bindings st, ad_audit := ad_audit st\<rparr>))"

definition value_error_as :: "nat \<Rightarrow> (asset_db, 'a) step \<Rightarrow> (asset_db, 'a) step" where
  "value_error_as code m st = (case m st of (Inl (ValueError _), st') \<Rightarrow> (Inl (http_error code), st') | r \<Rightarrow> r)"

definition not_found_as_404 :: "(asset_db, 'a) step \<Rightarrow> (asset_db, 'a) step" where
  "not_found_as_404 m st = (case m st of (Inl e, st') \<Rightarrow> (Inl (if e = asset_not_found then http_error 404 else e), st') | r \<Rightarrow> r)"

definition or_404 :: "'a option \<Rightarrow> (asset_db, 'a) step" where
  "or_404 x = lift_res (case x of None \<Rightarrow> Inl (http_error 404) | Some a \<Rightarrow> Inr a)"

definition done_or_404 :: "bool \<Rightarrow> (asset_db, unit) step" where
  "done_or_404 b = lift_res (if b then Inr () else Inl (http_error 404))"

abbreviation editors :: "string set" where "editors \<equiv> {''admin'', ''editor''}"

definition create_asset :: "asset_env \<Rightarrow> actor \<Rightarrow> asset_create \<Rightarrow> (asset_db, asset_row) step" where
  "create_asset env user body =
     in_asset_request (run_then (require_role editors user) (\<lambda>_. value_error_as 409 (svc_create_asset env user body)))"

definition update_asset :: "asset_env \<Rightarrow> actor \<Rightarrow> uuid \<Rightarrow> asset_update \<Rightarrow> (asset_db, asset_row) step" where
  "update_asset env user asset_id body =
     in_asset_request (run_then (require_role editors user) (\<lambda>_. run_then (value_error_as 409 (svc_update_asset env user asset_id body)) or_404))"

definition retire_asset :: "asset_env \<Rightarrow> actor \<Rightarrow> uuid \<Rightarrow> (asset_db, unit) step" where
  "retire_asset env user asset_id =
     in_asset_request (run_then (require_role editors user) (\<lambda>_. run_then (svc_retire_asset env user asset_id) done_or_404))"

definition bind_tag :: "asset_env \<Rightarrow> actor \<Rightarrow> uuid \<Rightarrow> binding_create \<Rightarrow> (asset_db, tag_binding) step" where
  "bind_tag env user asset_id body =
     in_asset_request (run_then (require_role editors user) (\<lambda>_.
       run_then (query (\<lambda>st. asset_get (ac_tenant_id user) asset_id (ad_assets st))) (\<lambda>asset.
       run_then (or_404 asset) (\<lambda>_. value_error_as 409 (svc_bind_tag env user asset_id body)))))"

definition unbind_tag :: "asset_env \<Rightarrow> actor \<Rightarrow> uuid \<Rightarrow> string \<Rightarrow> (asset_db, unit) step" where
  "unbind_tag env user asset_id binding_value =
     in_asset_request (run_then (require_role editors user) (\<lambda>_. run_then (svc_unbind_tag env user asset_id binding_value) done_or_404))"

definition load_asset :: "asset_env \<Rightarrow> actor \<Rightarrow> uuid \<Rightarrow> uuid \<Rightarrow> datetime option \<Rightarrow> (asset_db, asset_row) step" where
  "load_asset env user asset_id parent_asset_id stamp =
     in_asset_request (run_then (require_role editors user) (\<lambda>_.
       value_error_as 400 (not_found_as_404 (load_onto_carrier env user asset_id parent_asset_id stamp))))"

definition unload_asset :: "asset_env \<Rightarrow> actor \<Rightarrow> uuid \<Rightarrow> datetime option \<Rightarrow> (asset_db, asset_row) step" where
  "unload_asset env user asset_id stamp =
     in_asset_request (run_then (require_role editors user) (\<lambda>_. not_found_as_404 (unload_from_carrier env user asset_id stamp)))"

datatype asset_request = CreateAsset asset_create | UpdateAsset uuid asset_update | RetireAsset uuid | BindTag uuid binding_create
  | UnbindTag uuid string | LoadAsset uuid uuid "datetime option" | UnloadAsset uuid "datetime option"

fun handle_asset_request :: "asset_env \<times> actor \<times> asset_request \<Rightarrow> asset_db \<Rightarrow> asset_db" where
  "handle_asset_request (env, user, CreateAsset body) st = snd (create_asset env user body st)"
| "handle_asset_request (env, user, UpdateAsset i body) st = snd (update_asset env user i body st)"
| "handle_asset_request (env, user, RetireAsset i) st = snd (retire_asset env user i st)"
| "handle_asset_request (env, user, BindTag i body) st = snd (bind_tag env user i body st)"
| "handle_asset_request (env, user, UnbindTag i v) st = snd (unbind_tag env user i v st)"
| "handle_asset_request (env, user, LoadAsset i p stamp) st = snd (load_asset env user i p stamp st)"
| "handle_asset_request (env, user, UnloadAsset i stamp) st = snd (unload_asset env user i stamp st)"

definition no_assets :: asset_db where
  "no_assets = \<lparr>ad_assets = [], ad_bindings = [], ad_audit = [], ad_events = [], ad_fresh = 0\<rparr>"

definition serve_assets :: "(asset_env \<times> actor \<times> asset_request) list \<Rightarrow> asset_db" where
  "serve_assets requests = fold handle_asset_request requests no_assets"

end
