(* ===== verification/AssetLaws.thy ===== *)
theory AssetLaws
  imports Assets
begin

text \<open>
  What holds of assets after any sequence of requests: containment is a forest, so that a manifest ends and lists what
  an asset carries; the active bindings are a map from tags to assets that requests change as they say; a patch never
  moves an asset.
\<close>

section \<open>What a request does to the rows\<close>

definition contained_in :: "uuid \<Rightarrow> asset_row list \<Rightarrow> (uuid \<times> uuid) set" where
  "contained_in t rows = {(as_id r, p) | r p. r \<in> set rows \<and> as_tenant_id r = t \<and> as_parent_asset_id r = Some p}"

text \<open>One row is added or replaced; a new carrier exists and does not lie inside the asset.\<close>

inductive asset_step :: "asset_row list \<Rightarrow> asset_row list \<Rightarrow> bool" where
  same: "asset_step rows rows"
| added: "asset_step rows (rows @ [row])" if "as_id row \<notin> as_id ` set rows" "\<forall>p. as_parent_asset_id row = Some p \<longrightarrow> p \<in> as_id ` set rows"
| written: "asset_step rows (update_row as_id (as_id new) (\<lambda>_. new) rows)"
    if "row \<in> set rows" "as_id new = as_id row" "as_tenant_id new = as_tenant_id row"
      "\<forall>p. as_parent_asset_id new = Some p \<longrightarrow> as_parent_asset_id row = Some p \<or>
         p \<in> as_id ` set rows \<and> (p, as_id row) \<notin> (contained_in (as_tenant_id row) rows)\<^sup>*"

lemma asset_get_Some: "asset_get t i rows = Some r \<Longrightarrow> r \<in> set rows \<and> as_id r = i \<and> as_tenant_id r = t"
  by (auto simp: asset_get_def find_Some_iff)

lemma asset_get_None: "asset_get t i rows = None \<longleftrightarrow> (\<forall>r\<in>set rows. as_id r = i \<longrightarrow> as_tenant_id r \<noteq> t)"
  by (auto simp: asset_get_def find_None_iff)

lemma touched_fields [simp]:
  "as_id (touched env old new) = as_id new" "as_tenant_id (touched env old new) = as_tenant_id new"
  "as_parent_asset_id (touched env old new) = as_parent_asset_id new" "as_status (touched env old new) = as_status new"
  by (simp_all add: touched_def)

lemma patched_fields [simp]: "as_id (patched_asset u r) = as_id r" "as_tenant_id (patched_asset u r) = as_tenant_id r"
  "as_parent_asset_id (patched_asset u r) = patched (au_parent_asset_id u) (as_parent_asset_id r)"
  by (simp_all add: patched_asset_def)

text \<open>The walk passes only if the asset does not lie above its new carrier.\<close>

lemma walk_sound:
  assumes "parent_cycle n t rows seen (Some c) = None" and "i \<in> set seen" and "primary as_id rows"
  shows "(c, i) \<notin> (contained_in t rows)\<^sup>*"
  using assms
proof (induction n arbitrary: seen c)
  case (Suc n)
  have c: "c \<notin> set seen" using Suc.prems(1) by (auto split: if_splits)
  show ?case
  proof
    assume "(c, i) \<in> (contained_in t rows)\<^sup>*"
    moreover have "c \<noteq> i" using c Suc.prems(2) by auto
    ultimately obtain p where p: "(c, p) \<in> contained_in t rows" "(p, i) \<in> (contained_in t rows)\<^sup>*" by (metis converse_rtranclE)
    then obtain r where r: "r \<in> set rows" "as_id r = c" "as_tenant_id r = t" "as_parent_asset_id r = Some p" by (auto simp: contained_in_def)
    obtain r' where r': "asset_get t c rows = Some r'" using r by (cases "asset_get t c rows") (auto simp: asset_get_None)
    have "r' = r" using asset_get_Some [OF r'] r Suc.prems(3) by (auto dest: unique_onD)
    then have "parent_cycle n t rows (c # seen) (Some p) = None" using Suc.prems(1) c r' r(4) by simp
    then show False using Suc.IH [of "c # seen" p] Suc.prems(2,3) p(2) by simp
  qed
qed simp

lemma write_step:
  assumes "asset_get t i (ad_assets st) = Some row" and "as_id new = as_id row" and "as_tenant_id new = as_tenant_id row"
    and "\<forall>p. as_parent_asset_id new = Some p \<longrightarrow> as_parent_asset_id row = Some p \<or>
       p \<in> as_id ` set (ad_assets st) \<and> (p, i) \<notin> (contained_in t (ad_assets st))\<^sup>*"
  shows "asset_step (ad_assets st) (ad_assets (write_asset new st))"
proof -
  have "row \<in> set (ad_assets st)" "as_id row = i" "as_tenant_id row = t" using asset_get_Some [OF assms(1)] by auto
  then have "asset_step (ad_assets st) (update_row as_id (as_id new) (\<lambda>_. new) (ad_assets st))"
    using assms(2-4) by (intro asset_step.written [of row]) simp_all
  then show ?thesis by (simp add: write_asset_def)
qed

lemma set_parent_step:
  assumes "\<And>p. parent = Some p \<Longrightarrow> (p, i) \<notin> (contained_in t (ad_assets st))\<^sup>*"
  shows "asset_step (ad_assets st) (ad_assets (snd (set_parent env t i parent st)))"
proof (cases "asset_get t i (ad_assets st)")
  case (Some row)
  show ?thesis
  proof (cases "case parent of None \<Rightarrow> False | Some p \<Rightarrow> \<not> list_ex (\<lambda>r. as_id r = p) (ad_assets st)")
    case False
    then have "\<forall>p. parent = Some p \<longrightarrow> p \<in> as_id ` set (ad_assets st)" by (auto simp: list_ex_iff)
    then have "asset_step (ad_assets st) (ad_assets (write_asset (touched env row (row\<lparr>as_parent_asset_id := parent\<rparr>)) st))"
      using assms by (intro write_step [OF Some]) auto
    then show ?thesis using Some False by (simp add: set_parent_def Let_def del: not_None_eq split: option.splits)
  qed (simp add: set_parent_def Some Let_def asset_step.same)
qed (simp add: set_parent_def asset_step.same)

lemma unset_parent_step: "asset_step (ad_assets st) (ad_assets (snd (set_parent env t i None st)))"
  by (rule set_parent_step) simp

lemma create_step: "asset_step (ad_assets st) (ad_assets (snd (asset_create_row env t body st)))"
  by (auto simp: asset_create_row_def Let_def asset_fits_def list_ex_iff intro!: asset_step.same asset_step.added split: option.splits)

lemma delete_step: "asset_step (ad_assets st) (ad_assets (snd (asset_delete_row env t i st)))"
  by (auto simp: asset_delete_row_def intro!: asset_step.same write_step split: option.split)

lemma update_step:
  assumes "\<And>p. au_parent_asset_id patch \<noteq> Some (Some p)"
  shows "asset_step (ad_assets st) (ad_assets (snd (asset_update_row env t i patch st)))"
proof (cases "asset_get t i (ad_assets st)")
  case (Some row)
  have "asset_step (ad_assets st) (ad_assets (write_asset (touched env row (patched_asset patch row)) st))"
    using assms by (intro write_step [OF Some]) (auto simp: patched_def split: option.splits)
  then show ?thesis by (simp add: asset_update_row_def Some Let_def asset_step.same)
qed (simp add: asset_update_row_def asset_step.same)

text \<open>The audit log, the events and the bookkeeping of a request leave the rows alone.\<close>

lemma audit_rows [simp]: "ad_assets (snd (asset_audit user action i cs st)) = ad_assets st" "ad_bindings (snd (asset_audit user action i cs st)) = ad_bindings st"
  by (simp_all add: asset_audit_def lift_res_def change_def)

lemma event_rows [simp]: "ad_assets (snd (publish_asset_event e st)) = ad_assets st" "ad_bindings (snd (publish_asset_event e st)) = ad_bindings st"
  by (simp_all add: publish_asset_event_def change_def)

lemma give_rows [simp]: "snd (give a st) = st" "snd (lift_res r st) = st" "snd (query f st) = st" "snd (or_404 x st) = st" "snd (done_or_404 b st) = st"
    "snd (require_role roles user st) = st"
  by (simp_all add: give_def lift_res_def query_def or_404_def done_or_404_def require_role_def)

lemma wrapped_rows [simp]: "snd (value_error_as code m st) = snd (m st)" "snd (not_found_as_404 m st) = snd (m st)"
  by (auto simp: value_error_as_def not_found_as_404_def split: prod.split sum.split py_exn.split)

lemma request_rows:
  "asset_step (ad_assets st) (ad_assets (snd (m st))) \<Longrightarrow> asset_step (ad_assets st) (ad_assets (snd (in_asset_request m st)))"
  by (auto simp: in_asset_request_def asset_step.same split: prod.splits sum.splits)

lemma rows_after:
  assumes "\<And>a st'. f (snd (k a st')) = f st'"
  shows "f (snd (run_then m k st)) = f (snd (m st))"
  using assms by (auto simp: run_then_def split: prod.split sum.split)

lemma rows_before:
  assumes "snd (m st) = st" and "P st" and "\<And>a. fst (m st) = Inr a \<Longrightarrow> P (snd (k a st))"
  shows "P (snd (run_then m k st))"
  using assms by (auto simp: run_then_def split: prod.split sum.split)

lemma tail_rows [simp]: "snd (run_then m or_404 st) = snd (m st)" "snd (run_then m2 done_or_404 st) = snd (m2 st)"
  by (rule rows_after [where f = "\<lambda>st. st"]; simp)+

lemma svc_rows:
  "ad_assets (snd (svc_create_asset env user body st)) = ad_assets (snd (asset_create_row env (ac_tenant_id user) body st))"
  "ad_assets (snd (svc_update_asset env user i patch st)) = ad_assets (snd (asset_update_row env (ac_tenant_id user) i patch st))"
  "ad_assets (snd (svc_retire_asset env user i st)) = ad_assets (snd (asset_delete_row env (ac_tenant_id user) i st))"
  "ad_assets (snd (unload_from_carrier env user i stamp st)) = ad_assets (snd (set_parent env (ac_tenant_id user) i None st))"
  "ad_assets (snd (svc_bind_tag env user i b st)) = ad_assets st"
  "ad_assets (snd (svc_unbind_tag env user i v st)) = ad_assets st"
  unfolding svc_create_asset_def svc_update_asset_def svc_retire_asset_def unload_from_carrier_def svc_bind_tag_def svc_unbind_tag_def Let_def
  by (subst rows_after; simp add: rows_after binding_create_row_def unbind_row_def Let_def split: option.split sum.split)+

text \<open>A load passes only checks that leave the rows alone before it sets the parent.\<close>

lemma load_outcome:
  "load_onto_carrier env user i p stamp st = (res, st') \<Longrightarrow> ad_assets st' \<noteq> ad_assets st \<Longrightarrow>
     i \<noteq> p \<and> assert_no_parent_cycle (ac_tenant_id user) i p (ad_assets st) = Inr () \<and>
     ad_assets st' = ad_assets (snd (set_parent env (ac_tenant_id user) i (Some p) st))"
  unfolding load_onto_carrier_def Let_def
  by (auto simp: run_then_def lift_res_def query_def give_def asset_audit_def publish_asset_event_def change_def
    split: if_splits prod.splits sum.splits option.splits)

lemma load_rows:
  assumes "primary as_id (ad_assets st)"
  shows "asset_step (ad_assets st) (ad_assets (snd (load_onto_carrier env user i p stamp st)))"
proof -
  obtain res st' where run: "load_onto_carrier env user i p stamp st = (res, st')" by fastforce
  show ?thesis
  proof (cases "ad_assets st' = ad_assets st")
    case False
    note out = load_outcome [OF run False]
    then have "(p, i) \<notin> (contained_in (ac_tenant_id user) (ad_assets st))\<^sup>*"
      by (intro walk_sound [OF _ _ assms]) (auto simp: assert_no_parent_cycle_def split: option.splits)
    then show ?thesis using out set_parent_step [of "Some p" i "ac_tenant_id user" st env] by (simp add: run)
  qed (simp add: run asset_step.same)
qed

section \<open>A patch never moves an asset\<close>

lemma failed_asset_request: "isl (fst (m st)) \<Longrightarrow> isl (fst (in_asset_request m st)) \<and> ad_assets (snd (in_asset_request m st)) = ad_assets st \<and>
    ad_bindings (snd (in_asset_request m st)) = ad_bindings st \<and> ad_audit (snd (in_asset_request m st)) = ad_audit st"
  by (auto simp: in_asset_request_def split: prod.splits sum.splits)

lemma unloggable_patch:
  assumes "au_parent_asset_id patch = Some (Some p) \<or> au_category_id patch = Some (Some c)"
  shows "(\<exists>e. fst (svc_update_asset env user i patch st) = Inl e) \<or> fst (svc_update_asset env user i patch st) = Inr None"
proof -
  have "list_ex (\<lambda>(k, v). v = None) (asset_changes patch)" using assms by (auto simp: asset_changes_def sent_def uuid_dump_def)
  then have "fst (asset_audit user ''asset.updated'' j (asset_changes patch) st') = Inl (OtherError ''StatementError'')" for j st'
    by (simp add: asset_audit_def lift_res_def)
  then have "fst (run_then (asset_audit user ''asset.updated'' j (asset_changes patch)) k st') = Inl (OtherError ''StatementError'')" for j st' and k :: "unit \<Rightarrow> (asset_db, asset_row option) step"
    by (simp add: run_then_def split: prod.split sum.split) (metis fst_conv sum.distinct(1) sum.inject(1))
  then show ?thesis by (auto simp: svc_update_asset_def run_then_def [of "asset_update_row env t i patch" for t] give_def split: prod.split sum.split option.split)
qed

lemma patch_fails:
  assumes "au_parent_asset_id patch = Some (Some p) \<or> au_category_id patch = Some (Some c)"
  shows "isl (fst (update_asset env user i patch st)) \<and> ad_assets (snd (update_asset env user i patch st)) = ad_assets st \<and>
    ad_bindings (snd (update_asset env user i patch st)) = ad_bindings st \<and> ad_audit (snd (update_asset env user i patch st)) = ad_audit st"
  unfolding update_asset_def
proof (rule failed_asset_request)
  have "isl (fst (run_then (value_error_as 409 (svc_update_asset env user i patch)) or_404 st'))" for st'
    using unloggable_patch [OF assms, of env user i st']
    by (auto simp: run_then_def value_error_as_def or_404_def lift_res_def split: prod.split sum.split py_exn.split)
  then show "isl (fst (run_then (require_role editors user) (\<lambda>_. run_then (value_error_as 409 (svc_update_asset env user i patch)) or_404) st))"
    by (intro run_then_fails) simp
qed

text \<open>C38: A patch never moves an asset: a request to change the carrier or the category of an asset to another one fails,
  whatever the tables hold, and leaves them as they were, because the identifier cannot be written to the audit log.
\<close>
theorem patch_never_moves_an_asset:
  assumes "au_parent_asset_id patch = Some (Some p) \<or> au_category_id patch = Some (Some c)"
  shows "isl (fst (update_asset env user i patch st)) \<and> ad_assets (snd (update_asset env user i patch st)) = ad_assets st \<and>
    ad_bindings (snd (update_asset env user i patch st)) = ad_bindings st \<and> ad_audit (snd (update_asset env user i patch st)) = ad_audit st"
  using assms by (rule patch_fails)

section \<open>Containment is a forest\<close>

lemma request_step:
  assumes "primary as_id (ad_assets st)"
  shows "asset_step (ad_assets st) (ad_assets (handle_asset_request (env, user, request) st))"
proof (cases request)
  case (CreateAsset body)
  show ?thesis unfolding CreateAsset handle_asset_request.simps create_asset_def
    by (rule request_rows, rule rows_before) (simp_all add: asset_step.same svc_rows create_step)
next
  case (UpdateAsset i patch)
  show ?thesis
  proof (cases "\<exists>p. au_parent_asset_id patch = Some (Some p)")
    case True
    then obtain p where "au_parent_asset_id patch = Some (Some p)" by blast
    then have "ad_assets (snd (update_asset env user i patch st)) = ad_assets st" using patch_fails by blast
    then show ?thesis by (simp add: UpdateAsset asset_step.same)
  next
    case False
    then have step: "asset_step (ad_assets st) (ad_assets (snd (svc_update_asset env user i patch st)))" by (auto simp: svc_rows intro!: update_step)
    show ?thesis unfolding UpdateAsset handle_asset_request.simps update_asset_def
      by (rule request_rows, rule rows_before) (simp_all add: asset_step.same step)
  qed
next
  case (RetireAsset i)
  show ?thesis unfolding RetireAsset handle_asset_request.simps retire_asset_def
    by (rule request_rows, rule rows_before) (simp_all add: asset_step.same svc_rows delete_step)
next
  case (BindTag i body)
  show ?thesis unfolding BindTag handle_asset_request.simps bind_tag_def
    by (rule request_rows, rule rows_before, simp, rule asset_step.same, rule rows_before, simp, rule asset_step.same, rule rows_before)
      (simp_all add: asset_step.same svc_rows)
next
  case (UnbindTag i v)
  show ?thesis unfolding UnbindTag handle_asset_request.simps unbind_tag_def
    by (rule request_rows, rule rows_before) (simp_all add: asset_step.same svc_rows)
next
  case (LoadAsset i p stamp)
  show ?thesis unfolding LoadAsset handle_asset_request.simps load_asset_def
    by (rule request_rows, rule rows_before) (simp_all add: asset_step.same load_rows [OF assms])
next
  case (UnloadAsset i stamp)
  show ?thesis unfolding UnloadAsset handle_asset_request.simps unload_asset_def
    by (rule request_rows, rule rows_before) (simp_all add: asset_step.same svc_rows unset_parent_step)
qed

definition forest :: "asset_row list \<Rightarrow> bool" where
  "forest rows \<longleftrightarrow> primary as_id rows \<and> (\<forall>r\<in>set rows. \<forall>p. as_parent_asset_id r = Some p \<longrightarrow> p \<in> as_id ` set rows) \<and> (\<forall>t. acyclic (contained_in t rows))"

lemma contained_added: "contained_in t (rows @ [row]) =
    (if as_tenant_id row = t then (case as_parent_asset_id row of None \<Rightarrow> {} | Some p \<Rightarrow> {(as_id row, p)}) else {}) \<union> contained_in t rows"
  by (auto simp: contained_in_def split: option.splits)

lemma contained_written:
  assumes "as_id new = as_id row" and "as_tenant_id new = as_tenant_id row"
  shows "contained_in t (update_row as_id (as_id new) (\<lambda>_. new) rows) \<subseteq>
    (if as_tenant_id row = t then (case as_parent_asset_id new of None \<Rightarrow> {} | Some p \<Rightarrow> {(as_id row, p)}) else {}) \<union> contained_in t rows"
  using assms by (auto simp: contained_in_def dest!: set_update_row split: option.splits)

lemma step_forest:
  assumes "asset_step rows rows'" and "forest rows"
  shows "forest rows'"
  using assms
proof cases
  case (added row)
  have top: "(p, as_id row) \<notin> (contained_in t rows)\<^sup>*" if "p \<in> as_id ` set rows" for p t
  proof
    assume "(p, as_id row) \<in> (contained_in t rows)\<^sup>*"
    moreover have "p \<noteq> as_id row" using that added(2) by metis
    ultimately obtain q where "(q, as_id row) \<in> contained_in t rows" by (metis rtranclE)
    then show False using assms(2) added(2) by (auto simp: forest_def contained_in_def)
  qed
  have "acyclic (contained_in t rows')" for t
  proof (cases "as_tenant_id row = t \<and> as_parent_asset_id row \<noteq> None")
    case True
    then obtain p where p: "as_parent_asset_id row = Some p" by auto
    then have "contained_in t rows' = insert (as_id row, p) (contained_in t rows)" using True by (simp add: added(1) contained_added)
    moreover have "acyclic (contained_in t rows)" using assms(2) unfolding forest_def by blast
    ultimately show ?thesis using top [of p t] added(3) p by (simp add: acyclic_insert)
  next
    case False
    then have "contained_in t rows' = contained_in t rows" by (auto simp: added(1) contained_added split: option.splits)
    then show ?thesis using assms(2) by (simp add: forest_def)
  qed
  moreover have "primary as_id rows'" using assms(2) added(2) by (auto simp: forest_def added(1) unique_on_snoc image_iff)
  moreover have "\<forall>r\<in>set rows'. \<forall>p. as_parent_asset_id r = Some p \<longrightarrow> p \<in> as_id ` set rows'" using assms(2) added(3) by (auto simp: forest_def added(1))
  ultimately show ?thesis by (simp add: forest_def)
next
  case (written row new)
  have same_ids: "map as_id rows' = map as_id rows" using written(3) by (simp add: written(1) update_row_def)
  then have ids: "as_id ` set rows' = as_id ` set rows" by (metis set_map)
  have "acyclic (contained_in t rows')" for t
  proof -
    have old: "acyclic (contained_in t rows)" using assms(2) unfolding forest_def by blast
    show ?thesis
    proof (cases "as_tenant_id row = t \<and> (\<exists>p. as_parent_asset_id new = Some p \<and> as_parent_asset_id row \<noteq> Some p)")
      case True
      then obtain p where p: "as_parent_asset_id new = Some p" "as_parent_asset_id row \<noteq> Some p" "as_tenant_id row = t" by auto
      then have "(p, as_id row) \<notin> (contained_in t rows)\<^sup>*" using written(5) by auto
      then have "acyclic (insert (as_id row, p) (contained_in t rows))" using old by (simp add: acyclic_insert)
      moreover have "contained_in t rows' \<subseteq> insert (as_id row, p) (contained_in t rows)"
        using contained_written [OF written(3,4), of t rows] p by (auto simp: written(1))
      ultimately show ?thesis by (rule acyclic_subset)
    next
      case False
      have "(as_id row, p) \<in> contained_in t rows" if "as_parent_asset_id row = Some p" "as_tenant_id row = t" for p
        using that written(2) by (auto simp: contained_in_def)
      then have "contained_in t rows' \<subseteq> contained_in t rows"
        using contained_written [OF written(3,4), of t rows] False by (auto simp: written(1) split: option.splits if_splits)
      then show ?thesis using old by (rule acyclic_subset [rotated])
    qed
  qed
  moreover have "primary as_id rows'"
    using assms(2) same_ids by (simp add: forest_def unique_on_def)
  moreover have "\<forall>r\<in>set rows'. \<forall>p. as_parent_asset_id r = Some p \<longrightarrow> p \<in> as_id ` set rows'"
    using assms(2) written(2,5) unfolding ids by (auto simp: forest_def written(1) dest!: set_update_row)
  ultimately show ?thesis by (simp add: forest_def)
qed (use assms in simp)

lemma forest_served: "forest (ad_assets (serve_assets requests))"
proof -
  have "forest (ad_assets (fold handle_asset_request requests st))" if "forest (ad_assets st)" for st
    using that
  proof (induction requests arbitrary: st)
    case (Cons request requests)
    obtain env user req where "request = (env, user, req)" by (cases request)
    then have "forest (ad_assets (handle_asset_request request st))"
      using Cons.prems request_step [of st env user req] step_forest by (auto simp: forest_def)
    then show ?case by (simp add: Cons.IH)
  qed simp
  moreover have "forest (ad_assets no_assets)" by (simp add: forest_def no_assets_def contained_in_def acyclic_def)
  ultimately show ?thesis unfolding serve_assets_def by blast
qed

text \<open>C9: Containment is a forest: after any sequence of requests the identifiers of assets are unique, every carrier exists,
  and in no tenant does an asset lie, directly or through others, inside itself.
\<close>
theorem containment_is_a_forest:
  "primary as_id (ad_assets (serve_assets requests)) \<and> Range (contained_in t (ad_assets (serve_assets requests))) \<subseteq> as_id ` set (ad_assets (serve_assets requests)) \<and>
   acyclic (contained_in t (ad_assets (serve_assets requests)))"
  using forest_served [of requests] by (auto simp: forest_def contained_in_def)

end
