(* ===== verification/AssetBindings.thy ===== *)
theory AssetBindings
  imports AssetLaws
begin

text \<open>
  The active bindings are a map from the tags of a tenant to its assets: what the fusion resolves a tag to in the table is
  what the requests to bind and to unbind have made of it.  The ingestion looks first into the cache of its process,
  which no request invalidates (\<open>Ingestion.binding_of\<close>), so it may lag behind.
\<close>

section \<open>The abstract map\<close>

definition bound_value :: "binding_create \<Rightarrow> string" where
  "bound_value body = (if bc_binding_kind body = ''vin'' then py_upper (py_strip (bc_binding_value body)) else bc_binding_value body)"

text \<open>What a tag \<open>v\<close> of the tenant \<open>t\<close> belongs to after a request, from what it belonged to.\<close>

definition owner_after :: "actor \<Rightarrow> asset_row list \<Rightarrow> asset_request \<Rightarrow> uuid \<Rightarrow> string \<Rightarrow> uuid option \<Rightarrow> uuid option" where
  "owner_after user rows request t v owner =
     (if ac_role user \<notin> editors \<or> ac_tenant_id user \<noteq> t then owner
      else case request of
          BindTag i body \<Rightarrow> if v = bound_value body \<and> asset_get t i rows \<noteq> None \<and> owner = None then Some i else owner
        | UnbindTag i w \<Rightarrow> if v = w \<and> owner = Some i then None else owner
        | _ \<Rightarrow> owner)"

definition wf_bindings :: "tag_binding list \<Rightarrow> bool" where
  "wf_bindings bs \<longleftrightarrow> primary tb_id bs \<and> unique_on (\<lambda>b. tb_unbound_at b = None) (\<lambda>b. (tb_tenant_id b, tb_binding_value b)) bs"

definition owner_of :: "uuid \<Rightarrow> string \<Rightarrow> tag_binding list \<Rightarrow> uuid option" where
  "owner_of t v bs = map_option tb_asset_id (find (active_tag t v) bs)"

lemma active_once: "wf_bindings bs \<Longrightarrow> a \<in> set bs \<Longrightarrow> b \<in> set bs \<Longrightarrow> active_tag t v a \<Longrightarrow> active_tag t v b \<Longrightarrow> a = b"
  by (auto simp: wf_bindings_def active_tag_def intro: unique_onD)

lemma scalar_owner:
  assumes "wf_bindings bs"
  shows "scalar_one_or_none (filter (active_tag t v) bs) = Inr (find (active_tag t v) bs)"
proof -
  have "filter (active_tag t v) bs = filter (\<lambda>b. tb_unbound_at b = None \<and> (tb_tenant_id b, tb_binding_value b) = (t, v)) bs"
    by (rule filter_cong) (auto simp: active_tag_def)
  then obtain r where r: "scalar_one_or_none (filter (active_tag t v) bs) = Inr r"
    using assms scalar_unique [of "\<lambda>b. tb_unbound_at b = None" "\<lambda>b. (tb_tenant_id b, tb_binding_value b)" bs "(t, v)"] by (auto simp: wf_bindings_def)
  have "find P xs = (case filter P xs of [] \<Rightarrow> None | x # _ \<Rightarrow> Some x)" for P and xs :: "tag_binding list" by (induction xs) auto
  then show ?thesis using r by (auto simp: scalar_one_or_none_def split: list.splits)
qed

lemma resolve_owner:
  assumes "wf_bindings bs"
  shows "resolve_asset t v (map binding_row_of bs) = Inr (owner_of t v bs)"
proof -
  have "filter (active_binding t v) (map binding_row_of bs) = map binding_row_of (filter (active_tag t v) bs)"
    by (induction bs) (auto simp: active_binding_def active_tag_def binding_row_of_def)
  moreover have "scalar_one_or_none (map f xs) = map_sum id (map_option f) (scalar_one_or_none xs)" for f :: "tag_binding \<Rightarrow> binding_row" and xs
    by (auto simp: scalar_one_or_none_def split: list.split)
  ultimately show ?thesis
    by (cases "find (active_tag t v) bs") (simp_all add: resolve_asset_def scalar_owner [OF assms] owner_of_def binding_row_of_def)
qed

section \<open>What a request does to the bindings\<close>

lemma request_bindings: "ad_bindings (snd (in_asset_request m st)) = (case fst (m st) of Inl _ \<Rightarrow> ad_bindings st | Inr _ \<Rightarrow> ad_bindings (snd (m st)))"
  by (simp add: in_asset_request_def split: prod.split sum.split)

lemma request_bindings_same: "ad_bindings (snd (m st)) = ad_bindings st \<Longrightarrow> ad_bindings (snd (in_asset_request m st)) = ad_bindings st"
  by (simp add: request_bindings split: sum.split)

lemma row_bindings [simp]:
  "ad_bindings (snd (asset_create_row env t body st)) = ad_bindings st" "ad_bindings (snd (asset_update_row env t i patch st)) = ad_bindings st"
  "ad_bindings (snd (asset_delete_row env t i st)) = ad_bindings st" "ad_bindings (snd (set_parent env t i p st)) = ad_bindings st"
  by (simp_all add: asset_create_row_def asset_update_row_def asset_delete_row_def set_parent_def write_asset_def Let_def split: option.split)

lemma svc_bindings [simp]:
  "ad_bindings (snd (svc_create_asset env user body st)) = ad_bindings st" "ad_bindings (snd (svc_update_asset env user i patch st)) = ad_bindings st"
  "ad_bindings (snd (svc_retire_asset env user i st)) = ad_bindings st" "ad_bindings (snd (unload_from_carrier env user i stamp st)) = ad_bindings st"
  unfolding svc_create_asset_def svc_update_asset_def svc_retire_asset_def unload_from_carrier_def Let_def
  by (subst rows_after; simp add: rows_after split: option.split)+

lemma load_bindings [simp]: "ad_bindings (snd (load_onto_carrier env user i p stamp st)) = ad_bindings st"
proof -
  have parent: "set_parent env t i q st = (res, st1) \<Longrightarrow> ad_bindings st1 = ad_bindings st" for t q res st1 by (metis row_bindings(4) snd_conv)
  have "ad_bindings st' = ad_bindings st" if "load_onto_carrier env user i p stamp st = (res, st')" for res st'
    using that unfolding load_onto_carrier_def Let_def
    by (auto dest: parent simp: run_then_def lift_res_def query_def give_def asset_audit_def publish_asset_event_def change_def
      split: if_splits prod.splits sum.splits option.splits)
  then show ?thesis by (metis prod.collapse)
qed

lemma role_bindings: "ad_bindings (snd (m st)) = ad_bindings st \<Longrightarrow> ad_bindings (snd (run_then (require_role roles user) (\<lambda>_. m) st)) = ad_bindings st"
  by (simp add: run_then_def require_role_def give_def lift_res_def)

lemma other_requests:
  assumes "\<forall>i body. request \<noteq> BindTag i body" and "\<forall>i v. request \<noteq> UnbindTag i v"
  shows "ad_bindings (handle_asset_request (env, user, request) st) = ad_bindings st"
  using assms
  by (cases request) (auto simp: create_asset_def update_asset_def retire_asset_def load_asset_def unload_asset_def
    intro!: request_bindings_same role_bindings)


lemma bind_bindings:
  assumes "asset_get (ac_tenant_id user) i (ad_assets st) = Some r" and "ac_role user \<in> editors"
  shows "ad_bindings (snd (bind_tag env user i body st)) =
     (if list_ex (\<lambda>b. tb_id b = aq_uuid4 env (ad_fresh st) \<or> active_tag (ac_tenant_id user) (bound_value body) b) (ad_bindings st) then ad_bindings st
      else ad_bindings st @ [\<lparr>tb_id = aq_uuid4 env (ad_fresh st), tb_tenant_id = ac_tenant_id user, tb_asset_id = i, tb_binding_value = bound_value body,
        tb_binding_kind = bc_binding_kind body, tb_bound_at = aq_now env, tb_unbound_at = None, tb_metadata = bc_metadata body\<rparr>])"
proof -
  have "list_ex (\<lambda>r. as_id r = i) (ad_assets st)" using asset_get_Some [OF assms(1)] by (auto simp: list_ex_iff)
  then show ?thesis using assms
    by (simp add: bind_tag_def request_bindings run_then_def require_role_def give_def lift_res_def query_def or_404_def value_error_as_def
      svc_bind_tag_def binding_create_row_def asset_audit_def change_def Let_def bound_value_def binding_conflict_def)
qed

lemma bind_refused:
  assumes "ac_role user \<notin> editors \<or> asset_get (ac_tenant_id user) i (ad_assets st) = None"
  shows "ad_bindings (snd (bind_tag env user i body st)) = ad_bindings st"
  using assms by (auto simp: bind_tag_def request_bindings run_then_def require_role_def give_def lift_res_def query_def or_404_def)

lemma filter_owner:
  assumes "wf_bindings bs"
  shows "scalar_one_or_none (filter (\<lambda>b. active_tag t v b \<and> tb_asset_id b = i) bs)
    = Inr (case find (active_tag t v) bs of Some b \<Rightarrow> if tb_asset_id b = i then Some b else None | None \<Rightarrow> None)"
proof -
  have "filter (\<lambda>b. active_tag t v b \<and> tb_asset_id b = i) bs = filter (\<lambda>b. tb_asset_id b = i) (filter (active_tag t v) bs)" by (simp add: conj_commute)
  moreover obtain xs where xs: "filter (active_tag t v) bs = xs" by blast
  moreover have "xs = (case find (active_tag t v) bs of None \<Rightarrow> [] | Some b \<Rightarrow> [b])"
    using scalar_owner [OF assms, of t v] unfolding xs by (auto simp: scalar_None dest: scalar_Some split: option.split)
  ultimately show ?thesis by (auto simp: scalar_one_or_none_def split: option.split)
qed

lemma unbind_bindings:
  assumes "wf_bindings (ad_bindings st)"
  shows "ad_bindings (snd (unbind_tag env user i v st)) =
     (case find (active_tag (ac_tenant_id user) v) (ad_bindings st) of
        Some b \<Rightarrow> if ac_role user \<in> editors \<and> tb_asset_id b = i
          then update_row tb_id (tb_id b) (\<lambda>b. b\<lparr>tb_unbound_at := Some (aq_now env)\<rparr>) (ad_bindings st) else ad_bindings st
      | None \<Rightarrow> ad_bindings st)"
  by (simp add: unbind_tag_def request_bindings run_then_def require_role_def give_def lift_res_def done_or_404_def svc_unbind_tag_def unbind_row_def
    filter_owner [OF assms] asset_audit_def change_def split: option.split)

section \<open>The bindings implement the map\<close>

lemma find_map_same: "(\<And>x. x \<in> set xs \<Longrightarrow> P (g x) = P x \<and> (P x \<longrightarrow> g x = x)) \<Longrightarrow> find P (map g xs) = find P xs"
  by (induction xs) auto

lemma find_append_one: "find P (xs @ [x]) = (case find P xs of Some y \<Rightarrow> Some y | None \<Rightarrow> if P x then Some x else None)"
  by (induction xs) auto

lemma owner_unbound:
  assumes bs: "wf_bindings bs" and b: "find (active_tag t v) bs = Some b"
  shows "owner_of t' v' (update_row tb_id (tb_id b) (\<lambda>b. b\<lparr>tb_unbound_at := Some now\<rparr>) bs) = (if t' = t \<and> v' = v then None else owner_of t' v' bs)"
proof -
  have mem: "b \<in> set bs" "active_tag t v b" using b by (auto simp: find_Some_iff)
  have id_b: "x = b" if "x \<in> set bs" "tb_id x = tb_id b" for x
    using bs unique_onD [of "\<lambda>_. True" tb_id bs x b] that mem(1) by (simp add: wf_bindings_def)
  show ?thesis
  proof (cases "t' = t \<and> v' = v")
    case True
    have "\<not> active_tag t v (if tb_id x = tb_id b then x\<lparr>tb_unbound_at := Some now\<rparr> else x)" if "x \<in> set bs" for x
    proof (cases "tb_id x = tb_id b")
      case False
      then have "\<not> active_tag t v x" using active_once [OF bs that mem(1) _ mem(2)] by auto
      then show ?thesis using False by simp
    qed (simp add: active_tag_def)
    then have "find (active_tag t v) (update_row tb_id (tb_id b) (\<lambda>b. b\<lparr>tb_unbound_at := Some now\<rparr>) bs) = None"
      unfolding find_None_iff update_row_def set_map by blast
    then show ?thesis using True by (simp add: owner_of_def)
  next
    case False
    have "find (active_tag t' v') (update_row tb_id (tb_id b) (\<lambda>b. b\<lparr>tb_unbound_at := Some now\<rparr>) bs) = find (active_tag t' v') bs"
      unfolding update_row_def by (rule find_map_same) (use False mem id_b in \<open>auto simp: active_tag_def\<close>)
    then show ?thesis unfolding owner_of_def if_not_P [OF False] by simp
  qed
qed

lemma owner_bound:
  "owner_of t v (bs @ [b]) = (case owner_of t v bs of Some i \<Rightarrow> Some i | None \<Rightarrow> if active_tag t v b then Some (tb_asset_id b) else None)"
  by (simp add: owner_of_def find_append_one split: option.split)

lemma none_active: "list_ex (active_tag t v) bs \<longleftrightarrow> owner_of t v bs \<noteq> None"
  by (auto simp: owner_of_def list_ex_iff find_None_iff)

lemma wf_handled:
  assumes "wf_bindings (ad_bindings st)"
  shows "wf_bindings (ad_bindings (handle_asset_request (env, user, request) st))"
proof (cases "(\<forall>i body. request \<noteq> BindTag i body) \<and> (\<forall>i v. request \<noteq> UnbindTag i v)")
  case True
  then show ?thesis using assms by (simp add: other_requests)
next
  case False
  then consider i body where "request = BindTag i body" | i v where "request = UnbindTag i v" by blast
  then show ?thesis
  proof cases
    case 1
    show ?thesis
    proof (cases "ac_role user \<in> editors \<and> asset_get (ac_tenant_id user) i (ad_assets st) \<noteq> None")
      case True
      then show ?thesis using assms
        by (fastforce simp: 1 bind_bindings wf_bindings_def unique_on_snoc list_ex_iff active_tag_def)
    qed (use assms in \<open>auto simp: 1 bind_refused\<close>)
  next
    case 2
    have "wf_bindings (update_row tb_id j (\<lambda>b. b\<lparr>tb_unbound_at := Some now\<rparr>) (ad_bindings st))" for j now
    proof -
      have "primary tb_id (update_row tb_id j (\<lambda>b. b\<lparr>tb_unbound_at := Some now\<rparr>) (ad_bindings st))"
        using assms by (simp add: wf_bindings_def primary_update)
      moreover have "unique_on (\<lambda>b. tb_unbound_at b = None) (\<lambda>b. (tb_tenant_id b, tb_binding_value b))
          (update_row tb_id j (\<lambda>b. b\<lparr>tb_unbound_at := Some now\<rparr>) (ad_bindings st))"
        unfolding update_row_def using assms by (intro unique_on_map) (auto simp: wf_bindings_def)
      ultimately show ?thesis by (simp add: wf_bindings_def)
    qed
    then show ?thesis using assms by (auto simp: 2 unbind_bindings split: option.split)
  qed
qed

lemma wf_served: "wf_bindings (ad_bindings (serve_assets requests))"
proof -
  have "wf_bindings (ad_bindings (fold handle_asset_request requests st))" if "wf_bindings (ad_bindings st)" for st
    using that
  proof (induction requests arbitrary: st)
    case (Cons request requests)
    then show ?case by (cases request) (simp add: wf_handled)
  qed simp
  then show ?thesis by (simp add: serve_assets_def no_assets_def wf_bindings_def)
qed

lemma owner_handled:
  assumes "wf_bindings (ad_bindings st)" and "aq_uuid4 env (ad_fresh st) \<notin> tb_id ` set (ad_bindings st)"
  shows "owner_of t v (ad_bindings (handle_asset_request (env, user, request) st)) = owner_after user (ad_assets st) request t v (owner_of t v (ad_bindings st))"
proof (cases "(\<forall>i body. request \<noteq> BindTag i body) \<and> (\<forall>i v. request \<noteq> UnbindTag i v)")
  case True
  then show ?thesis by (simp add: other_requests) (cases request, auto simp: owner_after_def)
next
  case False
  then consider i body where "request = BindTag i body" | i w where "request = UnbindTag i w" by blast
  then show ?thesis
  proof cases
    case 1
    show ?thesis
    proof (cases "ac_role user \<in> editors \<and> asset_get (ac_tenant_id user) i (ad_assets st) \<noteq> None")
      case True
      have "list_ex (\<lambda>b. tb_id b = aq_uuid4 env (ad_fresh st) \<or> active_tag (ac_tenant_id user) (bound_value body) b) (ad_bindings st)
          \<longleftrightarrow> list_ex (active_tag (ac_tenant_id user) (bound_value body)) (ad_bindings st)"
        using assms(2) by (auto simp: list_ex_iff image_iff)
      then have "list_ex (\<lambda>b. tb_id b = aq_uuid4 env (ad_fresh st) \<or> active_tag (ac_tenant_id user) (bound_value body) b) (ad_bindings st)
          \<longleftrightarrow> owner_of (ac_tenant_id user) (bound_value body) (ad_bindings st) \<noteq> None" unfolding none_active .
      then show ?thesis using True
        by (auto simp: 1 bind_bindings owner_bound owner_after_def active_tag_def split: option.split)
    qed (auto simp: 1 bind_refused owner_after_def)
  next
    case 2
    show ?thesis
    proof (cases "find (active_tag (ac_tenant_id user) w) (ad_bindings st)")
      case None
      then show ?thesis by (auto simp: 2 unbind_bindings [OF assms(1)] owner_after_def owner_of_def)
    next
      case (Some b)
      then have "owner_of (ac_tenant_id user) w (ad_bindings st) = Some (tb_asset_id b)" by (simp add: owner_of_def)
      then show ?thesis by (auto simp: 2 unbind_bindings [OF assms(1)] Some owner_unbound [OF assms(1) Some] owner_after_def)
    qed
  qed
qed

text \<open>C15: The bindings are a map from tags to assets: after any sequence of requests the look-up of the fusion
  (\<open>AssetFusionService.resolve_asset\<close>) in the table finds at most one asset for a tag of a tenant, and what it finds after
  a further request, whose identifier is new, is what the abstract map says: a bind by an editor gives a free tag (a VIN
  in its canonical form) to an asset of the tenant, an unbind takes it from the asset that has it, and nothing else
  changes.  This is the table; the ingestion asks it only when its process has not looked the tag up before, and
  otherwise goes on with what it found then.
\<close>

theorem bindings_are_a_map:
  assumes "aq_uuid4 env (ad_fresh (serve_assets requests)) \<notin> tb_id ` set (ad_bindings (serve_assets requests))"
  shows "\<exists>owner. resolve_asset t v (map binding_row_of (ad_bindings (serve_assets requests))) = Inr owner \<and>
    resolve_asset t v (map binding_row_of (ad_bindings (serve_assets (requests @ [(env, user, request)]))))
      = Inr (owner_after user (ad_assets (serve_assets requests)) request t v owner)"
proof -
  have "serve_assets (requests @ [(env, user, request)]) = handle_asset_request (env, user, request) (serve_assets requests)"
    by (simp add: serve_assets_def)
  then show ?thesis using owner_handled [OF wf_served assms] by (simp add: resolve_owner wf_served wf_handled)
qed

section \<open>A witness\<close>

definition demo_asset_env :: asset_env where
  "demo_asset_env = \<lparr>aq_now = 7, aq_uuid4 = (\<lambda>n. word_of_nat (n + 10)), aq_categories = [3], aq_collate = (\<lambda>s. s)\<rparr>"

definition demo_editor :: actor where
  "demo_editor = \<lparr>ac_tenant_id = 1, ac_user_id = Some 2, ac_role = ''editor''\<rparr>"

definition demo_asset :: "string \<Rightarrow> asset_create" where
  "demo_asset name = \<lparr>ap_name = name, ap_external_ref = None, ap_display_label = None, ap_status = ''active'', ap_parent_asset_id = None,
     ap_category_id = 3, ap_metadata = None\<rparr>"

definition demo_vin :: binding_create where
  "demo_vin = \<lparr>bc_binding_value = '' ab1'', bc_binding_kind = ''vin'', bc_metadata = None\<rparr>"

lemmas demo_request_defs = demo_asset_env_def demo_editor_def demo_asset_def demo_vin_def serve_assets_def no_assets_def create_asset_def in_asset_request_def
  run_then_def require_role_def give_def lift_res_def query_def or_404_def value_error_as_def svc_create_asset_def asset_create_row_def asset_audit_def change_def asset_fits_def

lemma demo_created: "ad_assets (serve_assets [(demo_asset_env, demo_editor, CreateAsset (demo_asset ''truck''))]) =
    [\<lparr>as_id = 10, as_tenant_id = 1, as_external_ref = None, as_name = ''truck'', as_display_label = None, as_status = ''active'', as_parent_asset_id = None,
      as_category_id = 3, as_metadata = None, as_created_at = 7, as_updated_at = 7\<rparr>]"
    "ad_bindings (serve_assets [(demo_asset_env, demo_editor, CreateAsset (demo_asset ''truck''))]) = []"
  by (simp_all add: demo_request_defs Let_def)

lemma demo_vin_value: "bound_value demo_vin = ''AB1''"
  by code_simp

lemma demo_editor_fields [simp]: "ac_tenant_id demo_editor = 1" "ac_role demo_editor = ''editor''"
  by (simp_all add: demo_editor_def)

theorem bindings_are_a_map_witness:
  "resolve_asset 1 ''AB1'' (map binding_row_of (ad_bindings (serve_assets [(demo_asset_env, demo_editor, CreateAsset (demo_asset ''truck'')),
     (demo_asset_env, demo_editor, BindTag 10 demo_vin)]))) = Inr (Some 10)"
proof -
  let ?rs = "[(demo_asset_env, demo_editor, CreateAsset (demo_asset ''truck''))]"
  have "\<exists>owner. resolve_asset 1 ''AB1'' (map binding_row_of (ad_bindings (serve_assets ?rs))) = Inr owner \<and>
      resolve_asset 1 ''AB1'' (map binding_row_of (ad_bindings (serve_assets (?rs @ [(demo_asset_env, demo_editor, BindTag 10 demo_vin)]))))
        = Inr (owner_after demo_editor (ad_assets (serve_assets ?rs)) (BindTag 10 demo_vin) 1 ''AB1'' owner)"
    by (rule bindings_are_a_map) (simp add: demo_created)
  then show ?thesis
    by (simp add: demo_created resolve_asset_def scalar_one_or_none_def owner_after_def demo_vin_value asset_get_def)
qed

theorem patch_never_moves_an_asset_witness:
  "isl (fst (update_asset demo_asset_env demo_editor 10 \<lparr>au_name = None, au_external_ref = None, au_display_label = None, au_status = None,
     au_parent_asset_id = Some (Some 10), au_category_id = None, au_metadata = None\<rparr>
     (serve_assets [(demo_asset_env, demo_editor, CreateAsset (demo_asset ''truck''))])))"
  using patch_never_moves_an_asset [of "\<lparr>au_name = None, au_external_ref = None, au_display_label = None, au_status = None,
     au_parent_asset_id = Some (Some 10), au_category_id = None, au_metadata = None\<rparr>" 10 3] by simp

end
