(* ===== verification/AssetManifest.thy ===== *)
theory AssetManifest
  imports AssetBindings
begin

text \<open>
  The manifest of a carrier: the recursive query ends, because containment is a forest, and the tree that is built from
  its rows shows everything that the carrier holds once, under what directly holds it.
\<close>

section \<open>Chains of carriers\<close>

lemma single_valued_contained:
  assumes "primary as_id rows"
  shows "single_valued (contained_in t rows)"
proof (rule single_valuedI)
  fix x y z assume "(x, y) \<in> contained_in t rows" "(x, z) \<in> contained_in t rows"
  then obtain r r' where "r \<in> set rows" "as_id r = x" "as_parent_asset_id r = Some y" "r' \<in> set rows" "as_id r' = x" "as_parent_asset_id r' = Some z"
    by (auto simp: contained_in_def)
  moreover from this have "r = r'" using unique_onD [OF assms, of r r'] by simp
  ultimately show "y = z" by simp
qed

lemma steps_unique:
  assumes "single_valued R" and "acyclic R" and "(x, y) \<in> R ^^ m" and "(x, y) \<in> R ^^ n"
  shows "m = n"
proof -
  have "k = 0" if "(x, y) \<in> R ^^ i" "(x, y) \<in> R ^^ (i + k)" for i k
  proof (rule ccontr)
    obtain z where z: "(x, z) \<in> R ^^ i" "(z, y) \<in> R ^^ k" using \<open>(x, y) \<in> R ^^ (i + k)\<close> by (auto simp: relpow_add)
    then have "z = y" using that(1) single_valued_relpow [OF assms(1)] by (metis single_valuedD)
    moreover assume "k \<noteq> 0"
    ultimately have "(y, y) \<in> R\<^sup>+" using z(2) by (auto simp: trancl_power)
    then show False using assms(2) by (simp add: acyclic_def)
  qed
  from this [of m "n - m"] this [of n "m - n"] show ?thesis using assms(3,4) by (cases m n rule: le_cases) auto
qed

lemma same_parent_once:
  assumes "single_valued R" and "acyclic R" and "(a, p) \<in> R" and "(b, p) \<in> R" and "(x, a) \<in> R ^^ i" and "(x, b) \<in> R ^^ j"
  shows "a = b"
proof -
  have "(x, p) \<in> R ^^ Suc i" "(x, p) \<in> R ^^ Suc j" using assms(3-6) by auto
  then have "i = j" using steps_unique [OF assms(1,2)] by blast
  then show ?thesis using assms(5,6) single_valued_relpow [OF assms(1)] by (metis single_valuedD)
qed

text \<open>What a carrier holds, and how deep: rows of the tenant that are not retired, all the way up.\<close>

inductive held :: "uuid \<Rightarrow> asset_row list \<Rightarrow> uuid \<Rightarrow> asset_row \<Rightarrow> nat \<Rightarrow> bool" for t rows carrier where
  direct: "held t rows carrier r (Suc 0)" if "r \<in> set (carried_by t rows carrier)"
| deeper: "held t rows carrier r (Suc n)" if "held t rows carrier d n" "r \<in> set (carried_by t rows (as_id d))"

lemma carried_edge: "r \<in> set (carried_by t rows p) \<Longrightarrow> (as_id r, p) \<in> contained_in t rows \<and> r \<in> set rows"
  by (auto simp: carried_by_def contained_in_def)

lemma held_path: "held t rows carrier r n \<Longrightarrow> (as_id r, carrier) \<in> contained_in t rows ^^ n \<and> r \<in> set rows \<and> 0 < n"
proof (induction rule: held.induct)
  case (deeper d n r)
  then show ?case using carried_edge [OF deeper(2)] by (auto intro: relpow_Suc_I2 simp del: relpow.simps)
qed (auto dest: carried_edge)

lemma held_once: "held t rows carrier r n \<Longrightarrow> held t rows carrier r m \<Longrightarrow> forest rows \<Longrightarrow> m = n"
  using steps_unique [OF single_valued_contained] held_path by (metis forest_def)

lemma held_up:
  assumes "held t rows carrier c m" and "primary as_id rows" and "(as_id c, x) \<in> contained_in t rows ^^ j" and "j < m"
  shows "\<exists>a. as_id a = x \<and> held t rows carrier a (m - j)"
  using assms(1,3,4)
proof (induction arbitrary: j rule: held.induct)
  case (deeper d n r)
  show ?case
  proof (cases j)
    case (Suc i)
    then obtain y where y: "(as_id r, y) \<in> contained_in t rows" "(y, x) \<in> contained_in t rows ^^ i"
      using deeper.prems(1) by (meson relpow_Suc_D2)
    have "y = as_id d" using y(1) carried_edge [OF deeper.hyps(2)] single_valued_contained [OF assms(2)] by (metis single_valuedD)
    then show ?thesis using deeper.IH [of i] y(2) deeper.prems(2) Suc by simp
  qed (use deeper held.deeper in auto)
qed (auto intro: held.direct)

lemma held_depths: "held t rows carrier c m \<Longrightarrow> k \<in> {1..m} \<Longrightarrow> \<exists>a. held t rows carrier a k"
proof (induction rule: held.induct)
  case (deeper d n r)
  then show ?case by (cases "k = Suc n") (auto intro: held.deeper)
qed (auto intro: held.direct)

section \<open>The recursive query\<close>

definition below_level :: "uuid \<Rightarrow> asset_row list \<Rightarrow> asset_row list \<Rightarrow> uuid set" where
  "below_level t rows level = {i. \<exists>d\<in>set level. (i, as_id d) \<in> (contained_in t rows)\<^sup>*}"

definition next_level :: "uuid \<Rightarrow> asset_row list \<Rightarrow> asset_row list \<Rightarrow> asset_row list" where
  "next_level t rows level = concat (map (\<lambda>d. carried_by t rows (as_id d)) level)"

definition child_of :: "uuid \<Rightarrow> asset_row list \<Rightarrow> (asset_row \<times> asset_row) set" where
  "child_of t rows = {(r, d). r \<in> set (carried_by t rows (as_id d))}"

lemma finite_contained: "finite (contained_in t rows)"
proof -
  have "contained_in t rows \<subseteq> (\<lambda>r. (as_id r, the (as_parent_asset_id r))) ` set rows" by (force simp: contained_in_def)
  then show ?thesis using finite_subset by blast
qed

lemma finite_below: "finite (below_level t rows level)"
proof -
  have "below_level t rows level \<subseteq> as_id ` set level \<union> Domain (contained_in t rows)"
    by (auto simp: below_level_def elim: converse_rtranclE)
  then show ?thesis using finite_contained by (meson finite_subset finite_UnI finite_imageI finite_set finite_Domain)
qed

lemma in_next: "e \<in> set (next_level t rows level) \<longleftrightarrow> (\<exists>d\<in>set level. (e, d) \<in> child_of t rows)"
  by (auto simp: next_level_def child_of_def)

lemma next_below: "e \<in> set (next_level t rows level) \<Longrightarrow> \<exists>d\<in>set level. (as_id e, as_id d) \<in> contained_in t rows"
  by (auto simp: next_level_def dest: carried_edge)

lemma level_shrinks:
  assumes "acyclic (contained_in t rows)" and "level \<noteq> []"
  shows "below_level t rows (next_level t rows level) \<subset> below_level t rows level"
proof
  let ?R = "contained_in t rows"
  show "below_level t rows (next_level t rows level) \<subseteq> below_level t rows level"
    by (auto simp: below_level_def dest!: next_below) (metis rtrancl.rtrancl_into_rtrancl)
  have "wf ((?R\<inverse>)\<^sup>+)" using finite_acyclic_wf_converse [OF finite_contained assms(1)] by (rule wf_trancl)
  then obtain x where x: "x \<in> as_id ` set level" "\<And>y. (y, x) \<in> (?R\<inverse>)\<^sup>+ \<Longrightarrow> y \<notin> as_id ` set level"
    using assms(2) wfE_min [of "(?R\<inverse>)\<^sup>+" _ "as_id ` set level"] by (metis image_eqI list.set_intros(1) neq_Nil_conv)
  have "x \<notin> below_level t rows (next_level t rows level)"
  proof
    assume "x \<in> below_level t rows (next_level t rows level)"
    then obtain e where "e \<in> set (next_level t rows level)" "(x, as_id e) \<in> ?R\<^sup>*" by (auto simp: below_level_def)
    then obtain d where "d \<in> set level" "(x, as_id d) \<in> ?R\<^sup>+" by (meson next_below rtrancl_into_trancl1)
    then show False using x(2) [of "as_id d"] by (simp add: trancl_converse)
  qed
  moreover have "x \<in> below_level t rows level" using x(1) by (auto simp: below_level_def)
  ultimately show "below_level t rows (next_level t rows level) \<noteq> below_level t rows level" by blast
qed

lemma distinct_next: "distinct rows \<Longrightarrow> distinct (map as_id level) \<Longrightarrow> distinct (next_level t rows level)"
  by (induction level) (auto simp: next_level_def carried_by_def, metis image_eqI)

lemma descend_spec:
  assumes "forest rows" and "distinct (map as_id level)"
  shows "\<exists>ds. descend t rows k level = Some ds \<and> distinct ds \<and>
    set ds = {(r, k + n) | r n. \<exists>d\<in>set level. (r, d) \<in> child_of t rows ^^ n}"
  using assms(2)
proof (induction "card (below_level t rows level)" arbitrary: level k rule: less_induct)
  case less
  show ?case
  proof (cases "level = []")
    case True
    then show ?thesis by (subst descend.simps) simp
  next
    case False
    let ?next = "next_level t rows level"
    have "acyclic (contained_in t rows)" and ids: "primary as_id rows" using assms(1) unfolding forest_def by blast+
    then have "card (below_level t rows ?next) < card (below_level t rows level)"
      using level_shrinks False finite_below by (metis psubset_card_mono)
    moreover have "distinct rows" using ids by (auto simp: unique_on_def distinct_map)
    then have "distinct ?next" using less.prems by (rule distinct_next)
    then have "distinct (map as_id ?next)"
      using ids by (auto simp: distinct_map inj_on_def next_level_def dest!: carried_edge dest: unique_onD)
    ultimately obtain ds where ds: "descend t rows (Suc k) ?next = Some ds" "distinct ds"
        "set ds = {(r, Suc k + n) | r n. \<exists>d\<in>set ?next. (r, d) \<in> child_of t rows ^^ n}"
      using less.hyps by blast
    have "descend t rows k level = Some (map (\<lambda>r. (r, k)) level @ ds)"
      using False ds(1) by (subst descend.simps) (simp add: next_level_def)
    moreover have "distinct (map (\<lambda>r. (r, k)) level @ ds)"
      using less.prems ds(2,3) by (auto simp: distinct_map inj_on_def)
    moreover have "set (map (\<lambda>r. (r, k)) level @ ds) = {(r, k + n) | r n. \<exists>d\<in>set level. (r, d) \<in> child_of t rows ^^ n}" (is "?A = ?B")
    proof (rule set_eqI)
      fix x :: "asset_row \<times> nat"
      obtain r m where x: "x = (r, m)" by (cases x)
      have "(\<exists>d\<in>set ?next. (r, d) \<in> child_of t rows ^^ n) \<longleftrightarrow> (\<exists>d\<in>set level. (r, d) \<in> child_of t rows ^^ Suc n)" for n
        unfolding relpow.simps relcomp_unfold mem_Collect_eq case_prod_conv by (meson in_next)
      then have "x \<in> set ds \<longleftrightarrow> (\<exists>n. m = k + Suc n \<and> (\<exists>d\<in>set level. (r, d) \<in> child_of t rows ^^ Suc n))"
        unfolding ds(3) x by auto
      moreover have "x \<in> ?B \<longleftrightarrow> m = k \<and> r \<in> set level \<or> (\<exists>n. m = k + Suc n \<and> (\<exists>d\<in>set level. (r, d) \<in> child_of t rows ^^ Suc n))"
        unfolding x by (auto simp del: relpow.simps(2)) (metis not0_implies_Suc add_0_right pair_in_Id_conv relpow.simps(1))+
      ultimately show "x \<in> ?A \<longleftrightarrow> x \<in> ?B" by (auto simp: x)
    qed
    ultimately show ?thesis by blast
  qed
qed

lemma held_iff: "held t rows carrier r m \<longleftrightarrow> (\<exists>n. m = Suc n \<and> (\<exists>d\<in>set (carried_by t rows carrier). (r, d) \<in> child_of t rows ^^ n))"
proof
  assume "held t rows carrier r m"
  then show "\<exists>n. m = Suc n \<and> (\<exists>d\<in>set (carried_by t rows carrier). (r, d) \<in> child_of t rows ^^ n)"
  proof (induction rule: held.induct)
    case (deeper d n r)
    then obtain k a where "n = Suc k" "a \<in> set (carried_by t rows carrier)" "(d, a) \<in> child_of t rows ^^ k" by blast
    moreover from this have "(r, a) \<in> child_of t rows ^^ Suc k" using deeper by (intro relpow_Suc_I2 [of r d]) (simp_all add: child_of_def)
    ultimately show ?case by blast
  qed (auto intro: exI [of _ 0])
next
  assume "\<exists>n. m = Suc n \<and> (\<exists>d\<in>set (carried_by t rows carrier). (r, d) \<in> child_of t rows ^^ n)"
  then obtain n d where "m = Suc n" "d \<in> set (carried_by t rows carrier)" "(r, d) \<in> child_of t rows ^^ n" by blast
  then show "held t rows carrier r m"
  proof (induction n arbitrary: r m)
    case (Suc n)
    obtain e where "(r, e) \<in> child_of t rows" "(e, d) \<in> child_of t rows ^^ n" using Suc.prems(3) by (meson relpow_Suc_D2)
    then show ?case using Suc.IH [of "Suc n" e] Suc.prems(1,2) by (auto simp: child_of_def intro: held.deeper)
  qed (use held.direct in auto)
qed

lemma descendants_spec:
  assumes "forest rows"
  shows "\<exists>ds. get_descendants env t carrier rows = Some ds \<and> distinct ds \<and> set ds = {(r, m). held t rows carrier r m}"
proof -
  have ids: "primary as_id rows" using assms unfolding forest_def by blast
  then have "distinct (map as_id (carried_by t rows carrier))" by (simp add: unique_on_def carried_by_def distinct_map_filter)
  then obtain ds where "descend t rows 1 (carried_by t rows carrier) = Some ds" "distinct ds"
      "set ds = {(r, 1 + n) | r n. \<exists>d\<in>set (carried_by t rows carrier). (r, d) \<in> child_of t rows ^^ n}"
    using descend_spec [OF assms] by blast
  then show ?thesis by (auto simp: get_descendants_def held_iff)
qed

section \<open>The tree\<close>

declare entry_tree.simps [simp del]

text \<open>The lines of a tree: what holds the entry, its identifier and its depth.\<close>

fun nesting :: "uuid \<Rightarrow> manifest_entry \<Rightarrow> (uuid \<times> uuid \<times> nat) list" where
  "nesting holder (ManifestEntry i name parent depth children) = (holder, i, depth) # concat (map (nesting i) children)"

lemma distinct_concat_map:
  assumes "distinct xs" and "\<And>x. x \<in> set xs \<Longrightarrow> distinct (f x)"
    and "\<And>x y. x \<in> set xs \<Longrightarrow> y \<in> set xs \<Longrightarrow> x \<noteq> y \<Longrightarrow> set (f x) \<inter> set (f y) = {}"
  shows "distinct (concat (map f xs))"
  using assms
proof (induction xs)
  case (Cons x xs)
  have "set (f x) \<inter> set (f y) = {}" if "y \<in> set xs" for y using Cons.prems that by auto
  then show ?case using Cons by auto
qed simp

lemma entries_of:
  assumes "distinct (map (as_id \<circ> fst) ds)"
  shows "manifest_entries ds = map (\<lambda>(r, depth). (as_id r, r, depth)) ds"
proof -
  have "fold (\<lambda>(r, depth). dict_set (as_id r) (r, depth)) ds d = d @ map (\<lambda>(r, depth). (as_id r, r, depth)) ds"
    if "distinct (map (as_id \<circ> fst) ds)" "(as_id \<circ> fst) ` set ds \<inter> fst ` set d = {}" for d
    using that
  proof (induction ds arbitrary: d)
    case (Cons x ds)
    obtain r m where x: "x = (r, m)" by (cases x)
    have "dict_set (as_id r) (r, m) d = d @ [(as_id r, r, m)]" using Cons.prems(2) by (intro dict_set_new) (auto simp: x)
    then show ?case using Cons by (auto simp: x)
  qed simp
  from this [of "[]"] show ?thesis using assms by (simp add: manifest_entries_def)
qed

text \<open>Everything that is held, and the tree below one entry of it.\<close>

definition entries_below :: "uuid \<Rightarrow> asset_row list \<Rightarrow> (asset_row \<times> nat) list \<Rightarrow> nat \<Rightarrow> uuid \<Rightarrow> (uuid \<times> uuid \<times> nat) set" where
  "entries_below t rows ds k i =
     {(p, as_id c, m) | p c m. (c, m) \<in> set ds \<and> as_parent_asset_id c = Some p \<and> (\<exists>j\<in>{1..k}. (as_id c, i) \<in> contained_in t rows ^^ j)}"

definition children :: "(asset_row \<times> nat) list \<Rightarrow> uuid \<Rightarrow> (asset_row \<times> nat) list" where
  "children ds i = filter (\<lambda>(c, _). as_parent_asset_id c = Some i) ds"

definition all_lines :: "uuid \<Rightarrow> (asset_row \<times> nat) list \<Rightarrow> (uuid \<times> uuid \<times> nat) list" where
  "all_lines carrier ds = concat (map (\<lambda>x. nesting carrier (entry_tree (length ds) carrier (manifest_entries ds) x)) (children ds carrier))"

locale held_rows =
  fixes t :: uuid and rows :: "asset_row list" and carrier :: uuid and ds :: "(asset_row \<times> nat) list"
  assumes rows: "forest rows" and ds: "set ds = {(r, m). held t rows carrier r m}" and once: "distinct ds"
begin

lemma ids: "primary as_id rows"
  using rows by (simp add: forest_def)

lemma single: "single_valued (contained_in t rows)"
  using ids by (rule single_valued_contained)

lemma acyclic: "acyclic (contained_in t rows)"
  using rows by (simp add: forest_def)

lemma in_ds: "(r, m) \<in> set ds \<longleftrightarrow> held t rows carrier r m"
  by (simp add: ds)

lemma same_row:
  assumes "(r, m) \<in> set ds" and "(s, n) \<in> set ds" and "as_id r = as_id s"
  shows "r = s \<and> m = n"
proof -
  have "r \<in> set rows" "s \<in> set rows" using assms(1,2) held_path by (auto simp: in_ds)
  then have "r = s" using unique_onD [OF ids] assms(3) by simp
  then show ?thesis using assms(1,2) held_once [OF _ _ rows] by (auto simp: in_ds)
qed

lemma distinct_ids: "distinct (map (as_id \<circ> fst) ds)"
proof -
  have "inj_on (as_id \<circ> fst) (set ds)"
  proof (rule inj_onI)
    fix x y assume "x \<in> set ds" "y \<in> set ds" "(as_id \<circ> fst) x = (as_id \<circ> fst) y"
    then show "x = y" using same_row [of "fst x" "snd x" "fst y" "snd y"] by (simp add: prod_eq_iff)
  qed
  then show ?thesis using once by (simp add: distinct_map)
qed

lemma entries: "map snd (manifest_entries ds) = ds" "length (manifest_entries ds) = length ds"
  by (simp_all add: entries_of [OF distinct_ids] comp_def case_prod_unfold)

lemma child_edge: "(c, m) \<in> set (children ds i) \<longleftrightarrow> (c, m) \<in> set ds \<and> (as_id c, i) \<in> contained_in t rows"
proof -
  have "as_parent_asset_id c = Some i \<longleftrightarrow> (as_id c, i) \<in> contained_in t rows" if "held t rows carrier c m"
  proof -
    have c: "c \<in> set rows" "as_tenant_id c = t" using that by (auto simp: carried_by_def elim: held.cases)
    show ?thesis
    proof
      assume "(as_id c, i) \<in> contained_in t rows"
      then obtain r where "r \<in> set rows" "as_id r = as_id c" "as_parent_asset_id r = Some i" by (auto simp: contained_in_def)
      moreover from this have "r = c" using unique_onD [OF ids, of r c] c by simp
      ultimately show "as_parent_asset_id c = Some i" by simp
    qed (use c in \<open>auto simp: contained_in_def\<close>)
  qed
  then show ?thesis by (auto simp: children_def in_ds)
qed

lemma below_entry:
  assumes "(r, d) \<in> set ds" and "(c, m) \<in> set ds" and "(as_id c, as_id r) \<in> contained_in t rows ^^ Suc j"
  shows "\<exists>a n. (a, n) \<in> set (children ds (as_id r)) \<and> (as_id c, as_id a) \<in> contained_in t rows ^^ j"
proof -
  have "(as_id r, carrier) \<in> contained_in t rows ^^ d" using held_path assms(1) by (auto simp: in_ds)
  then have "(as_id c, carrier) \<in> contained_in t rows ^^ (Suc j + d)" using assms(3) relpow_add by blast
  moreover have "(as_id c, carrier) \<in> contained_in t rows ^^ m" using held_path assms(2) by (auto simp: in_ds)
  ultimately have m: "m = Suc j + d" using steps_unique [OF single acyclic] by blast
  obtain x where x: "(as_id c, x) \<in> contained_in t rows ^^ j" "(x, as_id r) \<in> contained_in t rows" using assms(3) by (meson relpow_Suc_E)
  have "\<exists>a. as_id a = x \<and> held t rows carrier a (m - j)" using assms(2) m by (intro held_up [OF _ ids x(1)]) (auto simp: in_ds)
  then obtain a where "as_id a = x" "held t rows carrier a (m - j)" by blast
  then show ?thesis using x by (auto simp: child_edge in_ds)
qed

lemma not_carrier: "(r, d) \<in> set ds \<Longrightarrow> as_id r \<noteq> carrier"
proof
  assume "(r, d) \<in> set ds" "as_id r = carrier"
  then have "(carrier, carrier) \<in> contained_in t rows ^^ d" "0 < d" using held_path by (auto simp: in_ds)
  then have "(carrier, carrier) \<in> (contained_in t rows)\<^sup>+" by (auto simp: trancl_power)
  then show False using acyclic by (simp add: acyclic_def)
qed

lemma tree_children:
  assumes "(r, d) \<in> set ds"
  shows "filter (\<lambda>(c, _). as_parent_asset_id c = Some (as_id r) \<and> as_parent_asset_id c \<noteq> Some carrier) (map snd (manifest_entries ds)) = children ds (as_id r)"
  unfolding entries children_def using not_carrier [OF assms] by (intro filter_cong) auto

lemma nesting_tree:
  assumes "(r, d) \<in> set ds"
  shows "nesting p (entry_tree (Suc k) carrier (manifest_entries ds) (r, d)) =
    (p, as_id r, d) # concat (map (\<lambda>x. nesting (as_id r) (entry_tree k carrier (manifest_entries ds) x)) (children ds (as_id r)))"
  by (simp only: entry_tree.simps nat.case nesting.simps tree_children [OF assms] map_map comp_def)

lemma nesting_flat: "nesting p (entry_tree 0 carrier (manifest_entries ds) (r, d)) = [(p, as_id r, d)]"
  by (simp add: entry_tree.simps)

lemma below_Suc:
  assumes "(r, d) \<in> set ds"
  shows "entries_below t rows ds (Suc k) (as_id r) =
    (\<Union>(c, m)\<in>set (children ds (as_id r)). insert (as_id r, as_id c, m) (entries_below t rows ds k (as_id c)))" (is "?A = ?B")
proof (rule set_eqI)
  fix x :: "uuid \<times> uuid \<times> nat"
  obtain p i m where x: "x = (p, i, m)" by (cases x)
  show "x \<in> ?A \<longleftrightarrow> x \<in> ?B"
  proof
    assume "x \<in> ?A"
    then obtain c j where c: "i = as_id c" "(c, m) \<in> set ds" "as_parent_asset_id c = Some p" "j \<in> {1..Suc k}"
        "(as_id c, as_id r) \<in> contained_in t rows ^^ j" by (auto simp: entries_below_def x)
    obtain j' where j: "j = Suc j'" using c(4) by (cases j) auto
    obtain a n where a: "(a, n) \<in> set (children ds (as_id r))" "(as_id c, as_id a) \<in> contained_in t rows ^^ j'"
      using below_entry [OF assms c(2)] c(5) j by blast
    show "x \<in> ?B"
    proof (cases j')
      case 0
      then have "as_id c = as_id a" using a(2) by simp
      moreover have "(a, n) \<in> set ds" "as_parent_asset_id a = Some (as_id r)" using a(1) by (auto simp: children_def)
      ultimately have "c = a" "m = n" "p = as_id r" using same_row [OF c(2)] c(3) by auto
      then show ?thesis using a(1) c(1) by (auto simp: x)
    next
      case (Suc l)
      then have "j' \<in> {1..k}" using c(4) j by auto
      then have "x \<in> entries_below t rows ds k (as_id a)" using a(2) c(1-3) unfolding entries_below_def x by blast
      then show ?thesis using a(1) by auto
    qed
  next
    assume "x \<in> ?B"
    then obtain a n where a: "(a, n) \<in> set (children ds (as_id r))" "x = (as_id r, as_id a, n) \<or> x \<in> entries_below t rows ds k (as_id a)" by auto
    then have edge: "(a, n) \<in> set ds" "as_parent_asset_id a = Some (as_id r)" "(as_id a, as_id r) \<in> contained_in t rows"
      using child_edge by (auto simp: children_def)
    from a(2) show "x \<in> ?A"
    proof
      assume "x = (as_id r, as_id a, n)"
      then show ?thesis using edge by (auto simp: entries_below_def intro!: bexI [of _ 1])
    next
      assume "x \<in> entries_below t rows ds k (as_id a)"
      then obtain c j where c: "(c, m) \<in> set ds" "i = as_id c" "as_parent_asset_id c = Some p" "j \<in> {1..k}" "(as_id c, as_id a) \<in> contained_in t rows ^^ j"
        by (auto simp: entries_below_def x)
      then have "(as_id c, as_id r) \<in> contained_in t rows ^^ Suc j" using edge(3) by auto
      then show ?thesis using c unfolding entries_below_def x by (auto simp del: relpow.simps intro!: bexI [of _ "Suc j"])
    qed
  qed
qed

lemma set_nesting: "(r, d) \<in> set ds \<Longrightarrow>
    set (nesting p (entry_tree k carrier (manifest_entries ds) (r, d))) = insert (p, as_id r, d) (entries_below t rows ds k (as_id r))"
proof (induction k arbitrary: p r d)
  case 0
  then show ?case by (simp add: entries_below_def nesting_flat)
next
  case (Suc k)
  have "set (nesting (as_id r) (entry_tree k carrier (manifest_entries ds) (c, m))) = insert (as_id r, as_id c, m) (entries_below t rows ds k (as_id c))"
    if "(c, m) \<in> set (children ds (as_id r))" for c m
    using that by (intro Suc.IH) (simp add: child_edge)
  then show ?case unfolding nesting_tree [OF Suc.prems] below_Suc [OF Suc.prems] by (auto split: prod.splits)
qed

lemma in_tree:
  assumes "(c, m) \<in> set (children ds i)" and "(q, e, n) \<in> set (nesting i (entry_tree k carrier (manifest_entries ds) (c, m)))"
  shows "(c, m) \<in> set ds \<and> (as_id c, i) \<in> contained_in t rows \<and> (\<exists>j. (e, as_id c) \<in> contained_in t rows ^^ j)"
proof -
  have c: "(c, m) \<in> set ds" "(as_id c, i) \<in> contained_in t rows" using assms(1) by (simp_all add: child_edge)
  then have "(q, e, n) = (i, as_id c, m) \<or> (q, e, n) \<in> entries_below t rows ds k (as_id c)" using assms(2) by (simp add: set_nesting)
  then show ?thesis using c by (auto simp: entries_below_def intro: exI [of _ 0])
qed

text \<open>Trees of siblings have nothing in common.\<close>

lemma distinct_trees:
  assumes "\<And>c m. (c, m) \<in> set (children ds i) \<Longrightarrow> distinct (nesting i (entry_tree k carrier (manifest_entries ds) (c, m)))"
  shows "distinct (concat (map (\<lambda>x. nesting i (entry_tree k carrier (manifest_entries ds) x)) (children ds i)))"
proof (rule distinct_concat_map)
  let ?f = "\<lambda>x. nesting i (entry_tree k carrier (manifest_entries ds) x)"
  show "distinct (children ds i)" using once by (simp add: children_def)
  show "distinct (?f x)" if "x \<in> set (children ds i)" for x
    using assms [of "fst x" "snd x"] that by simp
  show "set (?f x) \<inter> set (?f y) = {}" if x: "x \<in> set (children ds i)" and y: "y \<in> set (children ds i)" and "x \<noteq> y" for x y
  proof (rule ccontr)
    obtain a m b n where ab: "x = (a, m)" "y = (b, n)" by (cases x, cases y)
    assume "set (?f x) \<inter> set (?f y) \<noteq> {}"
    then obtain q e l where "(q, e, l) \<in> set (?f (a, m))" "(q, e, l) \<in> set (?f (b, n))" by (auto simp: ab)
    then have "as_id a = as_id b" using in_tree x y same_parent_once [OF single acyclic] unfolding ab by metis
    then show False using same_row x y \<open>x \<noteq> y\<close> unfolding ab child_edge by blast
  qed
qed

lemma distinct_nesting: "(r, d) \<in> set ds \<Longrightarrow> distinct (nesting p (entry_tree k carrier (manifest_entries ds) (r, d)))"
proof (induction k arbitrary: p r d)
  case (Suc k)
  let ?below = "concat (map (\<lambda>x. nesting (as_id r) (entry_tree k carrier (manifest_entries ds) x)) (children ds (as_id r)))"
  have "distinct ?below" by (rule distinct_trees, rule Suc.IH) (simp add: child_edge)
  moreover have "(p, as_id r, d) \<notin> set ?below"
  proof
    assume "(p, as_id r, d) \<in> set ?below"
    then obtain c m where "(c, m) \<in> set (children ds (as_id r))" "(p, as_id r, d) \<in> set (nesting (as_id r) (entry_tree k carrier (manifest_entries ds) (c, m)))" by auto
    then obtain j where "(as_id r, as_id c) \<in> contained_in t rows ^^ j" "(as_id c, as_id r) \<in> contained_in t rows" using in_tree by blast
    then have "(as_id r, as_id r) \<in> contained_in t rows ^^ Suc j" by auto
    then have "(as_id r, as_id r) \<in> (contained_in t rows)\<^sup>+" unfolding trancl_power by blast
    then show False using acyclic by (simp add: acyclic_def)
  qed
  ultimately show ?case unfolding nesting_tree [OF Suc.prems] by simp
qed (simp add: nesting_flat)

text \<open>The tree is deep enough: every depth up to that of an entry occurs.\<close>

lemma depth_bound:
  assumes "(c, m) \<in> set ds"
  shows "m \<le> length ds"
proof -
  have "{1..m} \<subseteq> snd ` set ds"
  proof
    fix k assume "k \<in> {1..m}"
    then obtain a where "held t rows carrier a k" using assms held_depths [of t rows carrier c m k] by (auto simp: in_ds)
    then show "k \<in> snd ` set ds" by (auto simp: ds image_iff)
  qed
  then have "card {1..m} \<le> card (snd ` set ds)" by (intro card_mono) simp_all
  also have "\<dots> \<le> length ds" using card_image_le [of "set ds" snd] card_length [of ds] by simp
  finally show ?thesis by simp
qed

lemma distinct_all_lines: "distinct (all_lines carrier ds)"
  unfolding all_lines_def by (rule distinct_trees, rule distinct_nesting) (simp add: child_edge)

lemma set_all_lines: "set (all_lines carrier ds) = {(p, as_id c, m) | p c m. (c, m) \<in> set ds \<and> as_parent_asset_id c = Some p}" (is "_ = ?B")
proof (rule set_eqI)
  fix x :: "uuid \<times> uuid \<times> nat"
  obtain p i m where x: "x = (p, i, m)" by (cases x)
  have lines: "x \<in> set (all_lines carrier ds) \<longleftrightarrow>
      (\<exists>c n. (c, n) \<in> set (children ds carrier) \<and> (x = (carrier, as_id c, n) \<or> x \<in> entries_below t rows ds (length ds) (as_id c)))"
  proof -
    have "set (nesting carrier (entry_tree (length ds) carrier (manifest_entries ds) (c, n)))
        = insert (carrier, as_id c, n) (entries_below t rows ds (length ds) (as_id c))" if "(c, n) \<in> set (children ds carrier)" for c n
      using that by (simp add: set_nesting child_edge)
    moreover have "x \<in> set (all_lines carrier ds) \<longleftrightarrow> (\<exists>c n. (c, n) \<in> set (children ds carrier) \<and>
        x \<in> set (nesting carrier (entry_tree (length ds) carrier (manifest_entries ds) (c, n))))" by (auto simp: all_lines_def)
    ultimately show ?thesis by (metis insert_iff)
  qed
  show "x \<in> set (all_lines carrier ds) \<longleftrightarrow> x \<in> ?B"
  proof
    assume "x \<in> set (all_lines carrier ds)"
    then show "x \<in> ?B" unfolding lines by (auto simp: children_def entries_below_def)
  next
    assume "x \<in> ?B"
    then obtain c where c: "i = as_id c" "(c, m) \<in> set ds" "as_parent_asset_id c = Some p" by (auto simp: x)
    have "0 < m" using c(2) held_path [of t rows carrier c m] by (simp add: in_ds)
    then obtain j where j: "m = Suc j" by (cases m) auto
    obtain y where y: "(as_id c, y) \<in> contained_in t rows ^^ j" "(y, carrier) \<in> contained_in t rows"
      using c(2) held_path [of t rows carrier c m] j by (auto simp: in_ds)
    have "\<exists>a. as_id a = y \<and> held t rows carrier a (m - j)" using c(2) j by (intro held_up [OF _ ids y(1)]) (auto simp: in_ds)
    then obtain a where a: "as_id a = y" "(a, 1) \<in> set (children ds carrier)" using y(2) j by (auto simp: child_edge in_ds)
    show "x \<in> set (all_lines carrier ds)"
    proof (cases j)
      case 0
      then have "as_id c = as_id a" using y(1) a(1) by simp
      then have "c = a \<and> m = 1" using same_row [OF c(2)] a(2) by (auto simp: child_edge)
      then show ?thesis unfolding lines using a(2) c by (auto simp: x children_def)
    next
      case (Suc l)
      then have "j \<in> {1..length ds}" using depth_bound [OF c(2)] j by auto
      then have "x \<in> entries_below t rows ds (length ds) (as_id a)" using y(1) c a(1) unfolding entries_below_def x by blast
      then show ?thesis unfolding lines using a(2) by blast
    qed
  qed
qed

end

section \<open>The manifest lists what is held\<close>

definition manifest_lines :: "manifest_response \<Rightarrow> (uuid \<times> uuid \<times> nat) list" where
  "manifest_lines m = concat (map (nesting (mr_asset_id m)) (mr_children m))"

interpretation served: held_rows t "ad_assets (serve_assets requests)" carrier "the (get_descendants env t carrier (ad_assets (serve_assets requests)))"
  for t requests carrier and env :: asset_env
  by unfold_locales (use descendants_spec [OF forest_served, of env t carrier requests] forest_served in auto)

text \<open>C14: A manifest lists what an asset holds: after any sequence of requests the manifest of an asset ends, although its
  query follows carriers without a bound, and its tree shows each asset that the carrier holds, directly or through
  others that are not retired, exactly once, under the asset that directly holds it and with its depth.
\<close>
theorem manifest_lists_the_contents:
  assumes "asset_get t i (ad_assets (serve_assets requests)) = Some row"
  shows "\<exists>m. get_manifest env t i (ad_assets (serve_assets requests)) = Some (Inr m) \<and> mr_asset_id m = i \<and> mr_name m = as_name row \<and>
    distinct (manifest_lines m) \<and>
    set (manifest_lines m) = {(p, as_id r, n) | p r n. held t (ad_assets (serve_assets requests)) i r n \<and> as_parent_asset_id r = Some p}"
proof -
  let ?rows = "ad_assets (serve_assets requests)"
  obtain ds where ds: "get_descendants env t i ?rows = Some ds" using descendants_spec [OF forest_served] by blast
  note view = served.entries [where env = env and t = t and carrier = i and requests = requests, unfolded ds option.sel]
  have lines: "manifest_lines \<lparr>mr_asset_id = i, mr_name = as_name row,
      mr_children = map (entry_tree (length (manifest_entries ds)) i (manifest_entries ds)) (filter (\<lambda>(c, _). as_parent_asset_id c = Some i) (map snd (manifest_entries ds)))\<rparr>
    = all_lines i ds"
    unfolding all_lines_def children_def view manifest_lines_def by (simp add: comp_def)
  show ?thesis unfolding get_manifest_def assms ds using asset_get_Some [OF assms]
      served.distinct_all_lines [where env = env and t = t and carrier = i and requests = requests]
      served.set_all_lines [where env = env and t = t and carrier = i and requests = requests]
      served.in_ds [where env = env and t = t and carrier = i and requests = requests]
    by (simp add: Let_def lines ds)
qed

section \<open>A witness\<close>

definition demo_loaded :: "(asset_env \<times> actor \<times> asset_request) list" where
  "demo_loaded = [(demo_asset_env, demo_editor, CreateAsset (demo_asset ''truck'')),
     (demo_asset_env, demo_editor, CreateAsset (demo_asset ''box''\<lparr>ap_parent_asset_id := Some 10\<rparr>))]"

lemma demo_loaded_rows: "ad_assets (serve_assets demo_loaded) =
    [\<lparr>as_id = 10, as_tenant_id = 1, as_external_ref = None, as_name = ''truck'', as_display_label = None, as_status = ''active'', as_parent_asset_id = None,
      as_category_id = 3, as_metadata = None, as_created_at = 7, as_updated_at = 7\<rparr>,
     \<lparr>as_id = 11, as_tenant_id = 1, as_external_ref = None, as_name = ''box'', as_display_label = None, as_status = ''active'', as_parent_asset_id = Some 10,
      as_category_id = 3, as_metadata = None, as_created_at = 7, as_updated_at = 7\<rparr>]"
  by (simp add: demo_loaded_def demo_request_defs Let_def)

theorem manifest_lists_the_contents_witness:
  "\<exists>m. get_manifest demo_asset_env 1 10 (ad_assets (serve_assets demo_loaded)) = Some (Inr m) \<and> (10, 11, 1) \<in> set (manifest_lines m)"
proof -
  let ?rows = "ad_assets (serve_assets demo_loaded)"
  have "asset_get 1 10 ?rows = Some (hd ?rows)" by (simp add: demo_loaded_rows asset_get_def)
  then obtain m where m: "get_manifest demo_asset_env 1 10 ?rows = Some (Inr m)"
      "set (manifest_lines m) = {(p, as_id r, n) | p r n. held 1 ?rows 10 r n \<and> as_parent_asset_id r = Some p}"
    using manifest_lists_the_contents [of 1 10 demo_loaded "hd ?rows" demo_asset_env] by blast
  have "held 1 ?rows 10 (hd (tl ?rows)) (Suc 0)" by (rule held.direct) (simp add: demo_loaded_rows carried_by_def)
  moreover have "as_id (hd (tl ?rows)) = 11" "as_parent_asset_id (hd (tl ?rows)) = Some 10" by (simp_all add: demo_loaded_rows)
  ultimately have "(10, 11, 1) \<in> set (manifest_lines m)" unfolding m(2) by force
  then show ?thesis using m(1) by blast
qed

end
