(* ===== verification/PresenceEndToEnd.thy ===== *)
theory PresenceEndToEnd
  imports EdgeProducer MqttLaws
begin

text \<open>
  The gateway's producer and the subscriber together.  Each message of a cycle is consumed by the subscriber in a session
  of its own (\<open>MQTTSubscriber._handle_wm_v2_message\<close>): the reconciler changes \<open>tag_presence\<close>, the reads of the message are
  ingested, and when the ingestion raises (a read outside an enforced clock window, say) the session is rolled back,
  the presence with it.  So the server mirrors the gateway only as long as no session is rolled back; the
  producer is not told of a rollback, and its deltas then build on a state that the server does not have, until a
  later snapshot is committed.  The condition is \<open>commits\<close> below.
\<close>

section \<open>One session\<close>

text \<open>A message of the producer on its way: its topic, and bytes that \<open>json.loads\<close> reads back as the object.\<close>

definition carries :: "uuid \<Rightarrow> uuid \<Rightarrow> mqtt_env \<times> mqtt_message \<Rightarrow> jobj \<Rightarrow> bool" where
  "carries t d = (\<lambda>(env, message) raw. mm_topic message = device_topic t d ''tag-reads'' \<and>
     me_loads env (mm_payload message) = Loaded (JObj raw) \<and> plain_coercions (de_base (me_decoders env)))"

definition warned :: "wm_message \<Rightarrow> subscriber \<Rightarrow> subscriber" where
  "warned m su = (case m of WmSnap sn _ _ _ entries \<Rightarrow> if length entries > SNAP_SOFT_CAP_ENTRIES then count_large (str_int sn) su else su
     | _ \<Rightarrow> su)"

text \<open>The work of the session ends without an exception, so that it is committed.\<close>

definition commits :: "uuid \<Rightarrow> uuid \<Rightarrow> mqtt_env \<times> mqtt_message \<Rightarrow> subscriber \<Rightarrow> bool" where
  "commits t d = (\<lambda>(env, message) su.
     case me_loads env (mm_payload message) of
       Loaded (JObj raw) \<Rightarrow> (case parse_wm_message (de_base (me_decoders env)) raw of
           None \<Rightarrow> True
         | Some m \<Rightarrow> \<not> isl (fst (wm_keyed_work env t d m (warned m su))))
     | _ \<Rightarrow> True)"

fun all_commit :: "uuid \<Rightarrow> uuid \<Rightarrow> (mqtt_env \<times> mqtt_message) list \<Rightarrow> subscriber \<Rightarrow> bool" where
  "all_commit t d [] su = True"
| "all_commit t d (m # ms) su = (commits t d m su \<and> all_commit t d ms (consume m su))"

lemma keyed_handler:
  "parse_wm_message (de_base (me_decoders env)) raw = Some m \<Longrightarrow>
     handle_wm_v2_message env t d topic raw su = mqtt_session (wm_keyed_work env t d m) (warned m su)"
  by (cases m) (simp_all add: handle_wm_v2_message_def warned_def Let_def)

lemma warned_presence [simp]: "su_presence (warned m su) = su_presence su"
  by (simp add: warned_def split: wm_message.split)

lemma reconcile_ok:
  "reconcile f su = (Inr u, su') \<Longrightarrow> \<exists>x evs. f (su_presence su) = Inr (x, evs, su_presence su')"
  by (auto simp: reconcile_def split: sum.splits)

lemma committed_work:
  assumes "wm_keyed_work env t d m su = (Inr u, su')"
  shows "su_presence su' = snd (apply_message t d m (su_presence su))"
proof -
  have run: "\<exists>x evs. f (su_presence su) = Inr (x, evs, su_presence su')"
    if "run_then (reconcile f) (\<lambda>_. ingest_reads env t rds) su = (Inr u, su')"
    for f :: "presence_table \<Rightarrow> py_exn + 'x \<times> presence_event list \<times> presence_table" and rds
  proof -
    from that obtain su1 where one: "reconcile f su = (Inr (), su1)" and "ingest_reads env t rds su1 = (Inr u, su')"
      by (auto simp: run_then_def split: prod.splits sum.splits)
    then have "su_presence su' = su_presence su1" using ingest_reads_rows by blast
    with reconcile_ok [OF one] show ?thesis by simp
  qed
  show ?thesis
  proof (cases m)
    case (WmSnap sn ts lat lon entries)
    with assms run [of "reconcile_snap t d ts entries"] show ?thesis by (force simp: wm_keyed_work_def apply_message_def)
  next
    case (WmAppeared sn ts lat lon entry)
    with assms run [of "apply_appeared t d ts entry"] show ?thesis by (force simp: wm_keyed_work_def apply_message_def)
  next
    case (WmDisappeared sn ts epc lat lon an)
    with assms reconcile_ok [of "apply_disappeared t d ts epc" su u su'] show ?thesis by (force simp: wm_keyed_work_def apply_message_def)
  qed
qed

text \<open>A message of the producer that parses goes to the handler of the keyed dialect, and a committed session leaves the
  table as the reconciler made it.\<close>

lemma message_handled:
  assumes "carries t d (env, message) raw" and "map_of raw ''v'' = None" and "is_int (jget raw ''t'')"
    and "parse_wm_message (de_base (me_decoders env)) raw = Some m"
  shows "consume (env, message) su =
    (mqtt_session (wm_keyed_work env t d m) (warned m su))\<lparr>su_processed := Suc (su_processed (mqtt_session (wm_keyed_work env t d m) (warned m su)))\<rparr>"
proof -
  from assms(1) have msg: "mm_topic message = device_topic t d ''tag-reads''" "me_loads env (mm_payload message) = Loaded (JObj raw)"
    by (simp_all add: carries_def)
  have "handle_message env message su = handle_tag_read env t d message su"
    by (simp add: handle_message_def msg(1) parse_device_topic topics_disjoint [OF parse_device_topic] KNOWN_SUFFIXES_def)
  also have "\<dots> = (Inr (), mqtt_session (wm_keyed_work env t d m) (warned m su))"
    by (simp add: handle_tag_read_def msg(2) assms(2,3) keyed_handler [OF assms(4)])
  finally show ?thesis by (simp add: consume_def)
qed

lemma consumed_message:
  assumes msg: "carries t d (env, message) raw" "map_of raw ''v'' = None" "is_int (jget raw ''t'')"
    and parse: "parse_wm_message (de_base (me_decoders env)) raw = Some m" and "commits t d (env, message) su"
  shows "su_presence (consume (env, message) su) = snd (apply_message t d m (su_presence su))"
proof -
  obtain r su1 where run: "wm_keyed_work env t d m (warned m su) = (r, su1)" by fastforce
  have "me_loads env (mm_payload message) = Loaded (JObj raw)" using msg(1) by (simp add: carries_def)
  then have "\<not> isl r" using assms(5) by (simp add: commits_def parse run)
  then obtain u where work: "wm_keyed_work env t d m (warned m su) = (Inr u, su1)" using run by (cases r) auto
  show ?thesis
    using committed_work [OF work] by (simp add: message_handled [OF msg parse] mqtt_session_def work)
qed

section \<open>A run of both ends\<close>

text \<open>
  The steps: the gateway reconnects; it emits a cycle whose messages arrive in order and whose sessions are all committed;
  the subscriber consumes a message for another device.  A cycle that the producer refuses changes nothing.
\<close>

inductive uplink :: "uuid \<Rightarrow> uuid \<Rightarrow> producer \<times> subscriber \<Rightarrow> producer \<times> subscriber \<Rightarrow> bool" for t d where
  reconnect: "uplink t d (p, su) (begin_session p, su)"
| cycle: "emit_cycle ts lat lon cycle p = Inr (msgs, p') \<Longrightarrow> ts * 1000 \<le> DATETIME_MAX \<Longrightarrow> list_all2 (carries t d) ds msgs
    \<Longrightarrow> all_commit t d ds su \<Longrightarrow> uplink t d (p, su) (p', fold consume ds su)"
| elsewhere: "parse_topic (mm_topic message) = Some (t', d', kind) \<Longrightarrow> (t', d') \<noteq> (t, d)
    \<Longrightarrow> uplink t d (p, su) (p, consume (env, message) su)"

text \<open>The server's set is that of the last cycle, unless a snapshot is due anyway.\<close>

definition mirrors :: "uuid \<Rightarrow> uuid \<Rightarrow> producer \<times> subscriber \<Rightarrow> bool" where
  "mirrors t d = (\<lambda>(p, su). producer_ok p \<and> table_ok (su_presence su) \<and>
     (force_snap_next p \<or> present_set (su_presence su) t d = set (epcs_of (last_cycle p))))"

lemma emitted_keyed:
  assumes "emit_cycle ts lat lon cycle p = Inr (msgs, p')" and "raw \<in> set msgs"
  shows "map_of raw ''v'' = None \<and> is_int (jget raw ''t'')"
  using assms by (auto simp: emit_cycle_def and_then_eq_Inr emit_snap_def emit_delta_def Let_def appeared_msg_def disappeared_msg_def
      entry_dict_def opt_num_def jget_def is_int_def split: if_splits option.splits)

lemma plain_strict: "plain_coercions strict"
  by (simp add: plain_coercions_def strict_def)

lemma all_parsed:
  assumes "map f xs = map Some ys" and "x \<in> set xs"
  shows "f x \<noteq> None"
proof -
  have "f x \<in> set (map Some ys)" unfolding assms(1) [symmetric] using assms(2) by simp
  then show ?thesis by auto
qed

lemma reads_as_parses: "reads_as msgs ms \<Longrightarrow> plain_coercions C \<Longrightarrow> raw \<in> set msgs \<Longrightarrow> parse_wm_message C raw \<noteq> None"
  using all_parsed by (metis reads_as_def)

lemma committed_messages:
  assumes "list_all2 (carries t d) ds msgs" and "reads_as msgs ms" and "\<forall>raw \<in> set msgs. map_of raw ''v'' = None \<and> is_int (jget raw ''t'')"
    and "all_commit t d ds su"
  shows "su_presence (fold consume ds su) = fold (\<lambda>m tbl. snd (apply_message t d m tbl)) ms (su_presence su)"
  using assms
proof (induction ds msgs arbitrary: ms su rule: list_all2_induct)
  case Nil
  then have "map (parse_wm_message strict) [] = map Some ms" unfolding reads_as_def by (blast intro: plain_strict)
  then show ?case by simp
next
  case (Cons dm ds raw msgs)
  obtain env message where dm: "dm = (env, message)" by fastforce
  have C: "plain_coercions (de_base (me_decoders env))" using Cons.hyps(1) by (simp add: carries_def dm)
  with Cons.prems(1) obtain m ms' where ms: "ms = m # ms'" and parse: "parse_wm_message (de_base (me_decoders env)) raw = Some m"
    unfolding reads_as_def by (cases ms) auto
  have rest: "reads_as msgs ms'" using Cons.prems(1) by (auto simp: reads_as_def ms)
  have "su_presence (consume dm su) = snd (apply_message t d m (su_presence su))"
    using consumed_message [OF _ _ _ parse, of t d message su] Cons.hyps(1) Cons.prems(2,3) by (simp add: dm)
  then show ?case using Cons.IH [OF rest, of "consume dm su"] Cons.prems(2,3) by (simp add: ms)
qed

text \<open>A committed cycle.\<close>

lemma committed_cycle:
  assumes inv: "mirrors t d (p, su)" and emit: "emit_cycle ts lat lon cycle p = Inr (msgs, p')" and ts: "ts * 1000 \<le> DATETIME_MAX"
    and arrive: "list_all2 (carries t d) ds msgs" and commit: "all_commit t d ds su"
  shows "mirrors t d (p', fold consume ds su)"
    and "present_set (su_presence (fold consume ds su)) t d = (\<lambda>o1. py_upper (o_epc o1)) ` set cycle"
    and "list_all2 (\<lambda>(env, _) raw. parse_wm_message (de_base (me_decoders env)) raw \<noteq> None) ds msgs"
proof -
  have ok: "producer_ok p" and tbl: "table_ok (su_presence su)"
    and agree: "force_snap_next p \<or> present_set (su_presence su) t d = set (epcs_of (last_cycle p))"
    using inv by (auto simp: mirrors_def)
  note after = accepted_cycle [OF ok ts emit]
  from after(4) obtain ms where ms: "reads_as msgs ms"
    and eff: "\<forall>S. force_snap_next p \<or> S = set (epcs_of (last_cycle p)) \<longrightarrow> fold effect ms S = set (epcs_of (last_cycle p'))" by blast
  have "su_presence (fold consume ds su) = fold (\<lambda>m tbl. snd (apply_message t d m tbl)) ms (su_presence su)"
    using committed_messages [OF arrive ms _ commit] emitted_keyed [OF emit] by blast
  then have "table_ok (su_presence (fold consume ds su))"
    and "present_set (su_presence (fold consume ds su)) t d = set (epcs_of (last_cycle p'))"
    using presence.ok_run [OF tbl] presence.view_run [OF tbl] eff agree by auto
  then show "mirrors t d (p', fold consume ds su)"
    and "present_set (su_presence (fold consume ds su)) t d = (\<lambda>o1. py_upper (o_epc o1)) ` set cycle"
    using after(1,3) by (simp_all add: mirrors_def)
  show "list_all2 (\<lambda>(env, _) raw. parse_wm_message (de_base (me_decoders env)) raw \<noteq> None) ds msgs"
    using arrive
  proof (rule list.rel_mono_strong)
    fix dm raw
    assume "raw \<in> set msgs" and "carries t d dm raw"
    then show "(\<lambda>(env, _) raw. parse_wm_message (de_base (me_decoders env)) raw \<noteq> None) dm raw"
      using reads_as_parses [OF ms] by (auto simp: carries_def simp del: not_None_eq)
  qed
qed

lemma mirrors_step: "uplink t d s s' \<Longrightarrow> mirrors t d s \<Longrightarrow> mirrors t d s'"
proof (induction rule: uplink.induct)
  case (reconnect p su)
  then show ?case by (auto simp: mirrors_def producer_ok_def begin_session_def cycle_ok_def)
next
  case (cycle ts lat lon cycle p msgs p' ds su)
  then show ?case using committed_cycle(1) by blast
next
  case (elsewhere message t' d' kind p su env)
  then show ?case using owned_message [OF elsewhere(1), of su env] by (auto simp: mirrors_def owned_def)
qed

lemma mirrors_run: "(uplink t d)\<^sup>*\<^sup>* s s' \<Longrightarrow> mirrors t d s \<Longrightarrow> mirrors t d s'"
  by (induction rule: rtranclp_induct) (auto intro: mirrors_step)

text \<open>C1: whatever the server held before, from a reconnection of the gateway on and as long as the session of every one of
  its messages is committed (an enforced clock window, for one, rolls the session of a late read back), after each
  accepted cycle exactly the EPCs of that cycle, in upper case, are present for the device, however often the gateway
  reconnected, whether cycles went out as snapshots or as deltas and whatever arrived for other devices in between;
  and every message that the gateway emits parses.\<close>

theorem presence_end_to_end:
  assumes "0 \<le> p_sn p" and "table_ok (su_presence su)" and "(uplink t d)\<^sup>*\<^sup>* (begin_session p, su) (p1, su1)"
    and "emit_cycle ts lat lon cycle p1 = Inr (msgs, p2)" and "ts * 1000 \<le> DATETIME_MAX"
    and "list_all2 (carries t d) ds msgs" and "all_commit t d ds su1"
  shows "present_set (su_presence (fold consume ds su1)) t d = (\<lambda>o1. py_upper (o_epc o1)) ` set cycle \<and>
    list_all2 (\<lambda>(env, _) raw. parse_wm_message (de_base (me_decoders env)) raw \<noteq> None) ds msgs"
proof -
  have "mirrors t d (begin_session p, su)"
    using assms(1,2) by (simp add: mirrors_def producer_ok_def begin_session_def cycle_ok_def)
  then have "mirrors t d (p1, su1)" using mirrors_run [OF assms(3)] by blast
  from committed_cycle(2,3) [OF this assms(4-7)] show ?thesis by blast
qed

text \<open>An empty first cycle, then one tag, whose read the subscriber stores.\<close>

definition sent :: "jobj \<Rightarrow> mqtt_env \<times> mqtt_message" where
  "sent raw = (demo_mqtt (JObj raw), \<lparr>mm_topic = device_topic 1 2 ''tag-reads'', mm_payload = []\<rparr>)"

lemma carries_sent: "carries 1 2 (sent raw) raw"
  by (simp add: carries_def sent_def demo_mqtt_def plain_strict)

lemma signals_telemetry: "\<exists>tdb. fold publish_signal evs st = st\<lparr>in_telemetry := tdb\<rparr>"
proof (induction evs arbitrary: st)
  case (Cons e evs)
  obtain tdb where "fold publish_signal evs (publish_signal e st) = (publish_signal e st)\<lparr>in_telemetry := tdb\<rparr>" using Cons by blast
  then have "fold publish_signal (e # evs) st = st\<lparr>in_telemetry := tdb\<rparr>" by (simp add: publish_signal_def)
  then show ?case by blast
qed (simp, metis intake.surjective intake.update_convs(4))

lemma demo_read_stored:
  "\<not> isl (fst (ingest_one quiet_env 1 (wm_appeared_to_tag_read 2 1000000 None None (entry_of (demo_obs\<lparr>o_epc := ''E2801160''\<rparr>)))
     ((fresh_intake empty_inventory)\<lparr>in_telemetry := tdb\<rparr>)))"
proof -
  have "decode_epc_hex ''E2801160'' = Inr (''raw'', [])" and "gtin14_from_decoded None = Inr None" by code_simp+
  then show ?thesis
    by (simp add: wm_appeared_to_tag_read_def entry_of_def demo_obs_def hex_identity_def wm_sensor_data_def wm_location_def uri_of_def
        quiet_env_def fresh_intake_def no_caches_def service_defs tenant_has_inventory_mode_def get_tracking_modes_def TRACKING_MODES_CACHE_MAX_def)
qed

theorem presence_end_to_end_witness:
  "\<exists>p1 msgs ds p2 su1. emit_cycle 1000 None None [demo_obs] p1 = Inr (msgs, p2) \<and> length msgs = 1 \<and> list_all2 (carries 1 2) ds msgs \<and>
     (uplink 1 2)\<^sup>*\<^sup>* (begin_session (new_producer 7 300 100), new_subscriber) (p1, su1) \<and>
     present_set (su_presence (fold consume ds su1)) 1 2 = {''E2801160''}"
proof -
  define p where "p = begin_session (new_producer 7 300 100)"
  obtain raw0 p1 where snap: "emit_snap 0 None None [] p = ([raw0], p1)" by (auto simp: emit_snap_def)
  then have p1: "p1 = p\<lparr>last_cycle := [], last_snap_ts_ms := Some 0, cycles_since_snap := 0, force_snap_next := False\<rparr>"
    by (simp add: emit_snap_def)
  have first: "emit_cycle 0 None None [] p = Inr ([raw0], p1)"
    using snap by (simp add: emit_cycle_def validate_lat_lon_def opt_between_def snap_triggered_def p_def begin_session_def)
  define su1 where "su1 = consume (sent raw0) new_subscriber"
  have parse0: "parse_wm_message strict raw0 = Some (WmSnap 7 0 None None [])"
    using parse_snap_emitted [OF plain_strict, of 7 0 None None "[]"] snap
    by (auto simp: emit_snap_def p_def begin_session_def new_producer_def opt_between_def)
  have commit0: "commits 1 2 (sent raw0) new_subscriber"
    by (simp add: commits_def sent_def demo_mqtt_def parse0 warned_def SNAP_SOFT_CAP_ENTRIES_def wm_keyed_work_def run_then_def reconcile_def
        reconcile_snap_def ts_to_datetime_def DATETIME_MAX_def wm_snap_to_tag_reads_def ingest_reads_def give_def Let_def)
  have run: "(uplink 1 2)\<^sup>*\<^sup>* (p, new_subscriber) (p1, su1)"
    using uplink.cycle [OF first, of 1 2 "[sent raw0]" new_subscriber] carries_sent commit0
    by (auto simp: su1_def DATETIME_MAX_def)
  let ?o = "demo_obs\<lparr>o_epc := ''E2801160''\<rparr>"
  define raw1 where "raw1 = appeared_msg 7 1000 None None ?o"
  have valid: "validate_obs demo_obs = Inr ?o"
    by (simp add: validate_obs_def demo_obs_def edge_validate_epc_eq demo_epc opt_between_def)
  then have obs: "obs_ok ?o" using validate_obs_ok by blast
  obtain p2 where second: "emit_cycle 1000 None None [demo_obs] p1 = Inr ([raw1], p2)"
    using valid by (simp add: emit_cycle_def validate_lat_lon_def opt_between_def snap_triggered_def p1 p_def begin_session_def new_producer_def
        emit_delta_def epcs_of_def sorted_set_def raw1_def Let_def demo_obs_def)
  have parse1: "parse_wm_message strict raw1 = Some (WmAppeared 7 1000 None None (entry_of ?o))"
    using parse_appeared_emitted [OF plain_strict _ _ _ _ obs, of 7 1000 None None] by (simp add: raw1_def opt_between_def)
  have strict0: "de_base (me_decoders (fst (sent raw0))) = strict" by (simp add: sent_def demo_mqtt_def)
  note handled = message_handled [of 1 2 "fst (sent raw0)" "snd (sent raw0)" raw0 "WmSnap 7 0 None None []" new_subscriber, unfolded prod.collapse strict0]
  have keyed0: "map_of raw0 ''v'' = None" "is_int (jget raw0 ''t'')" using emitted_keyed [OF first] by simp_all
  have "su1 = new_subscriber\<lparr>su_processed := 1\<rparr>"
    unfolding su1_def handled [OF carries_sent keyed0 parse0]
    by (simp add: warned_def SNAP_SOFT_CAP_ENTRIES_def wm_keyed_work_def run_then_def reconcile_def reconcile_snap_def ts_to_datetime_def
        DATETIME_MAX_def wm_snap_to_tag_reads_def ingest_reads_def give_def mqtt_session_def collapse_snap_entries_def present_epcs_def
        sorted_set_def new_subscriber_def Let_def)
  then have su1: "su_presence su1 = []" "su_intake su1 = fresh_intake empty_inventory" by (simp_all add: new_subscriber_def)
  have "commits 1 2 (sent raw1) su1"
  proof -
    obtain tdb where signals: "fold publish_signal [TagAppeared 1 2 ''E2801160'' 1000000 ''delta''] (fresh_intake empty_inventory) =
        (fresh_intake empty_inventory)\<lparr>in_telemetry := tdb\<rparr>" using signals_telemetry by blast
    have "apply_appeared 1 2 1000 (entry_of ?o) [] = Inr (True, [TagAppeared 1 2 ''E2801160'' 1000000 ''delta''],
        upsert_present 1 2 1000000 (''E2801160'', - 60, 1) [])"
      by (simp add: apply_appeared_def ts_to_datetime_def DATETIME_MAX_def entry_of_def demo_obs_def)
    then show ?thesis
      using demo_read_stored [of tdb] signals
      by (auto simp: commits_def sent_def demo_mqtt_def parse1 warned_def wm_keyed_work_def run_then_def reconcile_def su1 ingest_reads_def
          on_intake_def give_def isl_def split: prod.splits sum.splits)
  qed
  then have commit1: "all_commit 1 2 [sent raw1] su1" by simp
  have "present_set (su_presence (fold consume [sent raw1] su1)) 1 2 = {''E2801160''}"
    using presence_end_to_end [OF _ _ run [unfolded p_def] second, of "[sent raw1]"] carries_sent commit1
    by (simp add: new_producer_def new_subscriber_def table_ok_def DATETIME_MAX_def demo_obs_def upper_samples upper_digit is_digit_def)
  then show ?thesis using second run carries_sent unfolding p_def by fastforce
qed

end
