(* ===== verification/Spec2Isabelle.thy ===== *)
theory Spec2Isabelle
  imports Epc Evaluator Dispatcher RateLimits EdgeProducer EdgeAgent LegTracker MqttEdge InventoryWorker TagReads
    Telemetry Devices UsageMeter TagRegistrar FloorPosition Dwell AssetManifest
    PresenceEndToEnd
begin

text \<open>
  TagPulse: RFID gateways read tags, a server keeps track of which tags and assets are where, and
  rules raise alerts.  This development models the program's own logic and proves it correct.

  Theories, from the bottom up:

  \<^item> \<open>Prelude\<close>: results of fallible code (\<open>py_exn + 'a\<close>), dictionaries as association lists with
    insertion order, and the lemmas every other theory uses on them.
  \<^item> \<open>PyText\<close>, \<open>PyJson\<close>: the text, integer, float, UUID and JSON operations of the language that the
    program uses.  A float is a real number or one of NaN and the infinities; rounding is not modelled.
  \<^item> \<open>Epc\<close>: \<open>src/tagpulse/rfid/epc.py\<close> and the encoder of \<open>scripts/simulate_inventory.py\<close>.
  \<^item> \<open>Geo\<close>, \<open>Zones\<close>, \<open>Overlapping\<close>, \<open>Dispatcher\<close>: \<open>src/tagpulse/geo\<close> and \<open>src/tagpulse/signaling\<close>: polygons,
    single-zone attribution, the overlapping-zones processor and the periodic dispatcher that runs it.
  \<^item> \<open>Rules\<close>, \<open>Evaluator\<close>: \<open>src/tagpulse/rules\<close>, \<open>models/rule_schemas.py\<close>: the rules table, the cap on
    signaling rules, alerts, and the four event handlers with their cooldowns.  The handlers of thresholds on tag
    reads and of unexpected stock keep no cooldown in the code: \<open>threshold_has_no_cooldown\<close> states it, and the cooldown
    theorem is about the others.
  \<^item> \<open>RateLimits\<close>: the rate limiter, the hourly import limiter and the TTL cache of \<open>src/tagpulse/core\<close>.
  \<^item> \<open>WmWire\<close>, \<open>Presence\<close>, \<open>EdgeProducer\<close>: the wire format, the server's presence reconciler and the
    gateway's producer.
  \<^item> \<open>PresenceEndToEnd\<close>: the producer (\<open>emit_cycle\<close>) with the subscriber's session for each message
    (\<open>handle_wm_v2_message\<close> of \<open>Mqtt\<close>) as a step relation, and the theorem that the server's table shows the last
    cycle.  It assumes that the subscriber commits the session of every message: a session that fails, for instance
    because the clock window refuses its time, rolls the presence back, and then the ends do differ
    (\<open>MqttLaws.stale_snapshot_is_announced_again\<close>).
  \<^item> \<open>PyTime\<close>, \<open>EdgeTracker\<close>, \<open>EdgeAgent\<close>: \<open>src/clients/pi/tagpulse_edge\<close>: presence of tags at an antenna, the
    durable outbox, and the publisher and reconnect loops as step relations over all interleavings.
  \<^item> \<open>EventBus\<close>: the in-process bus (\<open>src/tagpulse/events\<close>), its queues, overflow policies and dead letters under
    every interleaving of its tasks.
  \<^item> \<open>Consolidation\<close>, \<open>ConsolidationWorker\<close>: the fusion of an asset's reads into one state, the worker that
    appends these states to a history and publishes custody events (\<open>services/consolidation.py\<close>,
    \<open>repositories/timescaledb/consolidation_source.py\<close>, \<open>workers/consolidation_worker.py\<close>).
  \<^item> \<open>Legs\<close>, \<open>LegTracker\<close>: transit legs, their environment summary and their tracking from custody events
    (\<open>services/legs.py\<close>, \<open>workers/leg_tracker.py\<close>), with the theorem that worker and tracker together
    follow the history.
  \<^item> \<open>Tables\<close>: what the repositories share: the patch a request makes, rows by tenant and id, updates,
    deletes, unique constraints, \<open>scalar_one_or_none\<close>, pages and descending order.
  \<^item> \<open>UsageMeter\<close>, \<open>TagReads\<close>: \<open>core/usage_meter.py\<close> with its buffer and flush, and the tag-read repository.
  \<^item> \<open>Devices\<close>, \<open>Telemetry\<close>: the device row and the telemetry service: which readings of a batch are written,
    which are quarantined, and what is published (\<open>services/telemetry_service.py\<close>).
  \<^item> \<open>Inventory\<close>, \<open>InventoryLaws\<close>, \<open>InventoryWorker\<close>: products, lots, stock items, mappings and movements with
    their repositories and service (\<open>repositories/timescaledb/inventory.py\<close>, \<open>services/inventory_service.py\<close>),
    the table constraints as an invariant of every call, and the hourly rule worker
    (\<open>workers/inventory_rule_worker.py\<close>).  The lot and the parent of an item and the item of a movement are only
    required to exist, as in the code: they may belong to another tenant.

  \<^item> \<open>Ingestion\<close>, \<open>IngestionLaws\<close>: \<open>ingestion/service.py\<close> with the caches of the process, the queries it rests on and
    the transaction of a request; what holds over any sequence of requests, proved by one walk through the steps
    (the locales \<open>intake_relation\<close> and \<open>request_relation\<close>, interpreted once for each relation).
  \<^item> \<open>Mqtt\<close>, \<open>MqttLaws\<close>, \<open>MqttEdge\<close>: \<open>ingestion/mqtt_subscriber.py\<close>: routing by topic, the schemas, the handlers with a
    session for each message, the loop with its reconnections; what a message can touch, and what the edge
    agent's events become on the server.

  \<^item> \<open>TagRegistry\<close>, \<open>TagRegistryLaws\<close>: the registry of tags and the governance of bulk changes
    (\<open>services/tags.py\<close>, \<open>repositories/timescaledb/tags.py\<close>, \<open>api/routes/tags.py\<close>, \<open>api/routes/bulk_operations.py\<close>,
    \<open>services/pending_bulk_operations.py\<close>, \<open>core/bulk_confirmation_tokens.py\<close>): import, bulk patch and retire with
    preview, confirmation token and approval by a second person; the invariants of the tables and what one
    request can change, over any sequence of requests.  The tables enforce their constraints as the database
    does; that the service never runs into them is shown apart (the relation \<open>soft\<close>: no request except an approval
    ends in \<open>constraint_error\<close>).
  \<^item> \<open>TagRegistrar\<close>: \<open>workers/tag_registrar_worker.py\<close>: which stored reads belong to a registered tag, and the
    theorem that the outcome of a burst does not depend on how it is cut into batches.
  \<^item> \<open>FloorPosition\<close>: asset fusion and indoor positions (\<open>services/asset_fusion.py\<close>, \<open>services/positioning.py\<close>,
    \<open>services/floor_position_estimator.py\<close>, \<open>repositories/timescaledb/floor_position_source.py\<close>,
    \<open>workers/floor_position_worker.py\<close>).
  \<^item> \<open>Assets\<close>, \<open>AssetLaws\<close>, \<open>AssetBindings\<close>, \<open>AssetManifest\<close>: \<open>api/services/asset_service.py\<close>,
    \<open>repositories/timescaledb/assets.py\<close> and the requests of \<open>api/routes/assets.py\<close>: assets, what carries what and the tags
    bound to them.  Containment is a forest, so the recursive query of a manifest (\<open>descend\<close>, a loop without a bound) ends;
    the tree of a manifest is built with the number of its entries as fuel, which no depth exceeds (the locale \<open>held_rows\<close>,
    interpreted on the tables after any requests); the active bindings implement a map, the one that asset fusion
    resolves with (the ingestion reads a cache of its own first, which \<open>Ingestion\<close> models).
  \<^item> \<open>Dwell\<close>: \<open>workers/dwell_worker.py\<close>: the tracker of the current zones with its table, a restart that rebuilds it,
    and the periodic worker: which alerts a pass raises, how far apart they are, and what one malformed rule does.
    A restart keeps the stays under the conditions that its theorem names.
  \<^item> \<open>Steps\<close>, \<open>Grouping\<close>: fallible steps on a state, the relations that they keep (the locale \<open>step_relation\<close>), and
    grouping by a key; shared by the request handlers and the workers above.

  Not modelled: positions of assets that clients push, labels, webhooks and integrations; declarations only (the columns and request schemas that no modelled operation reads), the HTTP
  routes that only forward to a service, the rendering of documents and pages, pure I/O (the sockets of the broker,
  database sessions, mail and webhooks), migrations, seeds and dashboards.  Queries are modelled by what they
  select, not by how the database plans them.

  Conventions.  A service method is a function from the tables (lists of rows, or dictionaries) to a
  result and the new tables; an exception is \<open>Inl\<close>, and what the code has changed before it stays
  changed where the code leaves it.  Readings of a clock and fresh identifiers are arguments.  Times are
  integers in microseconds, except where the code uses a float of seconds.
\<close>

end
